(* ===== verification/Prelude.thy ===== *)
theory Prelude
  imports Main "HOL-Library.Word" "HOL-Library.AList"
begin

unbundle bit_operations_syntax

text \<open>
  What the components share.

  The TypeScript values are modelled as follows.  A \<open>bigint\<close> is an \<open>int\<close>: its operators
  \<open>&\<close>, \<open>|\<close>, \<open>~\<close>, \<open><<\<close>, \<open>>>\<close> are those of unbounded two's complement, which is what \<open>AND\<close>,
  \<open>OR\<close>, \<open>NOT\<close>, \<open>push_bit\<close> and \<open>drop_bit\<close> are on \<open>int\<close>.  A \<open>Uint8Array\<close> is a list of
  8-bit words.  A \<open>number\<close> that the code uses as an integer (an index, a count, a type
  byte) is an \<open>int\<close>, or a \<open>nat\<close> where it is a loop counter.  A thrown exception is the
  \<open>Inl\<close> side of a sum.  A string is a list of characters, one per UTF-16 code unit below
  256: every string of the modelled code is ASCII.
\<close>

section \<open>Types\<close>

type_synonym byte = "8 word"
type_synonym bytes = "8 word list"

datatype js_error = TypeError string | RangeError string | Error string

named_theorems range_simps \<open>facts that open the guards of an operation\<close>
named_theorems field_simps_coretex \<open>extraction of a packed field from a packed word\<close>

text \<open>Loops of the source run over ranges of up to 1024 entries: keep them folded.\<close>

declare upt_rec_numeral [simp del]

section \<open>Exceptions\<close>

definition bind_res :: "'e + 'a \<Rightarrow> ('a \<Rightarrow> 'e + 'b) \<Rightarrow> 'e + 'b" where
  "bind_res r f = (case r of Inl e \<Rightarrow> Inl e | Inr x \<Rightarrow> f x)"

lemma bind_res_simps [simp]:
  "bind_res (Inl e) f = Inl e"
  "bind_res (Inr x) f = f x"
  by (simp_all add: bind_res_def)

lemma bind_res_Inr [simp]: "bind_res r Inr = r"
  by (cases r) auto

lemma bind_res_eq_Inr: "bind_res r f = Inr y \<longleftrightarrow> (\<exists>x. r = Inr x \<and> f x = Inr y)"
  by (cases r) auto

lemma bind_res_eq_Inl:
  "bind_res r f = Inl e \<longleftrightarrow> r = Inl e \<or> (\<exists>x. r = Inr x \<and> f x = Inl e)"
  by (cases r) auto

lemma bind_res_cong [fundef_cong]:
  "r = r' \<Longrightarrow> (\<And>x. r' = Inr x \<Longrightarrow> f x = g x) \<Longrightarrow> bind_res r f = bind_res r' g"
  by (cases r') auto

lemma bind_res_assoc: "bind_res (bind_res r f) g = bind_res r (\<lambda>x. bind_res (f x) g)"
  by (cases r) auto

text \<open>\<open>if (!cond) throw e;\<close>\<close>

definition guard_res :: "bool \<Rightarrow> 'e \<Rightarrow> 'e + unit" where
  "guard_res ok e = (if ok then Inr () else Inl e)"

lemma guard_res_eq_Inr [simp]: "guard_res ok e = Inr u \<longleftrightarrow> ok"
  by (simp add: guard_res_def)

lemma guard_res_True [simp]: "guard_res True e = Inr ()"
  by (simp add: guard_res_def)

lemma guard_res_False [simp]: "guard_res False e = Inl e"
  by (simp add: guard_res_def)

text \<open>\<open>xs.map(f)\<close> where \<open>f\<close> may throw: the first exception ends the loop.\<close>

fun map_res :: "('a \<Rightarrow> 'e + 'b) \<Rightarrow> 'a list \<Rightarrow> 'e + 'b list" where
  "map_res f [] = Inr []"
| "map_res f (x # xs) = bind_res (f x) (\<lambda>y. bind_res (map_res f xs) (\<lambda>ys. Inr (y # ys)))"

lemma map_res_cong [fundef_cong]:
  "xs = ys \<Longrightarrow> (\<And>x. x \<in> set ys \<Longrightarrow> f x = g x) \<Longrightarrow> map_res f xs = map_res g ys"
  by (induction xs arbitrary: ys) auto

lemma map_res_Inr: "map_res (\<lambda>x. Inr (f x)) xs = Inr (map f xs)"
  by (induction xs) auto

lemma map_res_all_Inr:
  "(\<And>x. x \<in> set xs \<Longrightarrow> f x = Inr (g x)) \<Longrightarrow> map_res f xs = Inr (map g xs)"
  by (induction xs) auto

lemma map_res_length: "map_res f xs = Inr ys \<Longrightarrow> length ys = length xs"
  by (induction xs arbitrary: ys) (auto simp: bind_res_eq_Inr)

text \<open>A loop over \<open>xs\<close> with a mutable state whose body may throw.\<close>

fun fold_res :: "('s \<Rightarrow> 'a \<Rightarrow> 'e + 's) \<Rightarrow> 's \<Rightarrow> 'a list \<Rightarrow> 'e + 's" where
  "fold_res f s [] = Inr s"
| "fold_res f s (x # xs) = bind_res (f s x) (\<lambda>s'. fold_res f s' xs)"

lemma fold_res_append:
  "fold_res f s (xs @ ys) = bind_res (fold_res f s xs) (\<lambda>s'. fold_res f s' ys)"
  by (induction xs arbitrary: s) (auto simp: bind_res_assoc)

lemma fold_res_foldl:
  assumes "P s" and "\<And>s x. P s \<Longrightarrow> x \<in> set xs \<Longrightarrow> f s x = Inr (g s x) \<and> P (g s x)"
  shows "fold_res f s xs = Inr (foldl g s xs) \<and> P (foldl g s xs)"
  using assms
proof (induction xs arbitrary: s)
  case (Cons x xs)
  from Cons.prems(2) [OF Cons.prems(1), of x] have "f s x = Inr (g s x)" "P (g s x)" by simp_all
  moreover have "fold_res f (g s x) xs = Inr (foldl g (g s x) xs) \<and> P (foldl g (g s x) xs)"
    by (rule Cons.IH) (use \<open>P (g s x)\<close> in simp, rule Cons.prems(2), simp_all)
  ultimately show ?case by simp
qed simp

lemma fold_res_never:
  assumes "\<And>s x. f s x \<noteq> Inl e"
  shows "fold_res f s xs \<noteq> Inl e"
proof (induction xs arbitrary: s)
  case (Cons x xs)
  show ?case using Cons assms [of s x] by (cases "f s x") auto
qed simp

lemma fold_res_invariant:
  assumes "fold_res f s xs = Inr t" and "P s"
    and "\<And>s x s'. P s \<Longrightarrow> x \<in> set xs \<Longrightarrow> f s x = Inr s' \<Longrightarrow> P s'"
  shows "P t"
  using assms
proof (induction xs arbitrary: s)
  case (Cons x xs)
  from Cons.prems(1) obtain s' where s': "f s x = Inr s'" "fold_res f s' xs = Inr t"
    by (auto simp: bind_res_eq_Inr)
  have P: "P s'" using Cons.prems(3) [OF Cons.prems(2) _ s'(1)] by simp
  show ?case
  proof (rule Cons.IH [OF s'(2) P])
    fix r y r' assume "P r" "y \<in> set xs" "f r y = Inr r'"
    then show "P r'" using Cons.prems(3) [of r y r'] by simp
  qed
qed simp

section \<open>Arrays\<close>

text \<open>\<open>xs[i]\<close>, with \<open>undefined\<close> as \<open>None\<close>, \<open>xs[i] ?? d\<close>, and the assignment
  \<open>xs[i] = v\<close>, which lengthens a JavaScript array (the holes are read as \<open>d\<close>).\<close>

definition elem_at :: "'a list \<Rightarrow> nat \<Rightarrow> 'a option" where
  "elem_at xs i = (if i < length xs then Some (xs ! i) else None)"

definition at_or :: "'a \<Rightarrow> 'a list \<Rightarrow> nat \<Rightarrow> 'a" where
  "at_or d xs i = (if i < length xs then xs ! i else d)"

definition array_set :: "'a \<Rightarrow> 'a list \<Rightarrow> nat \<Rightarrow> 'a \<Rightarrow> 'a list" where
  "array_set d xs i v =
     (if i < length xs then xs[i := v] else xs @ replicate (i - length xs) d @ [v])"

lemma at_or_less [simp]: "i < length xs \<Longrightarrow> at_or d xs i = xs ! i"
  by (simp add: at_or_def)

lemma at_or_ge [simp]: "\<not> i < length xs \<Longrightarrow> at_or d xs i = d"
  by (simp add: at_or_def)

lemma elem_at_less [simp]: "i < length xs \<Longrightarrow> elem_at xs i = Some (xs ! i)"
  by (simp add: elem_at_def)

lemma array_set_less [simp]: "i < length xs \<Longrightarrow> array_set d xs i v = xs[i := v]"
  by (simp add: array_set_def)

lemma length_array_set: "length (array_set d xs i v) = max (length xs) (Suc i)"
  by (auto simp: array_set_def)

lemma at_or_array_set:
  "at_or d (array_set d xs i v) j = (if j = i then v else at_or d xs j)"
  by (auto simp: array_set_def at_or_def nth_append nth_Cons')

lemma at_or_update:
  "at_or d (xs[i := v]) j = (if j = i \<and> i < length xs then v else at_or d xs j)"
  by (auto simp: at_or_def)

lemma map_at_or_upt: "map (at_or d xs) [0..<length xs] = xs"
  by (rule nth_equalityI) auto

section \<open>Sets and maps in insertion order\<close>

text \<open>\<open>Set.add\<close>: a JavaScript set iterates in the order of first insertion.  The
  \<open>Map\<close> counterpart is \<^const>\<open>AList.update\<close>, which keeps the position of a key it
  overwrites.\<close>

definition set_add :: "'a list \<Rightarrow> 'a \<Rightarrow> 'a list" where
  "set_add xs x = (if x \<in> set xs then xs else xs @ [x])"

lemma set_set_add [simp]: "set (set_add xs x) = insert x (set xs)"
  by (auto simp: set_add_def)

lemma distinct_set_add [simp]: "distinct xs \<Longrightarrow> distinct (set_add xs x)"
  by (auto simp: set_add_def)

lemma set_foldl_set_add [simp]: "set (foldl set_add xs ys) = set xs \<union> set ys"
  by (induction ys arbitrary: xs) auto

lemma distinct_foldl_set_add: "distinct xs \<Longrightarrow> distinct (foldl set_add xs ys)"
  by (induction ys arbitrary: xs) auto

section \<open>Stable sorting\<close>

text \<open>\<open>arr.slice().sort(cmp)\<close>: \<open>Array.prototype.sort\<close> is stable, so with a consistent
  comparator its result does not depend on the algorithm; here, insertion from the right.\<close>

fun js_insert :: "('a \<Rightarrow> 'a \<Rightarrow> int) \<Rightarrow> 'a \<Rightarrow> 'a list \<Rightarrow> 'a list" where
  "js_insert cmp x [] = [x]"
| "js_insert cmp x (y # ys) = (if cmp x y \<le> 0 then x # y # ys else y # js_insert cmp x ys)"

definition js_sort :: "('a \<Rightarrow> 'a \<Rightarrow> int) \<Rightarrow> 'a list \<Rightarrow> 'a list" where
  "js_sort cmp xs = foldr (js_insert cmp) xs []"

lemma js_insert_key:
  assumes "\<And>x y. cmp x y \<le> 0 \<longleftrightarrow> f x \<le> (f y :: 'k :: linorder)"
  shows "js_insert cmp x ys = insort_key f x ys"
  by (induction ys) (auto simp: assms)

lemma js_sort_key:
  assumes "\<And>x y. cmp x y \<le> 0 \<longleftrightarrow> f x \<le> (f y :: 'k :: linorder)"
  shows "js_sort cmp xs = sort_key f xs"
  unfolding js_sort_def sort_key_def
  by (induction xs) (simp_all add: js_insert_key [OF assms])

lemma set_js_insert [simp]: "set (js_insert cmp x ys) = insert x (set ys)"
  by (induction ys) auto

lemma set_js_sort [simp]: "set (js_sort cmp xs) = set xs"
  unfolding js_sort_def by (induction xs) auto

lemma length_js_insert [simp]: "length (js_insert cmp x ys) = Suc (length ys)"
  by (induction ys) auto

lemma length_js_sort [simp]: "length (js_sort cmp xs) = length xs"
  unfolding js_sort_def by (induction xs) auto

lemma distinct_js_insert: "distinct (js_insert cmp x ys) \<longleftrightarrow> x \<notin> set ys \<and> distinct ys"
  by (induction ys) auto

lemma distinct_js_sort [simp]: "distinct (js_sort cmp xs) \<longleftrightarrow> distinct xs"
proof (induction xs)
  case (Cons x xs)
  have "set (foldr (js_insert cmp) xs []) = set xs"
    using set_js_sort [of cmp xs] by (simp add: js_sort_def)
  with Cons show ?case by (simp add: js_sort_def distinct_js_insert)
qed (simp add: js_sort_def)

section \<open>Packed fields\<close>

text \<open>\<open>(1n << n) - 1n\<close>, and \<open>(word >> shift) & mask\<close>.\<close>

definition bigmask :: "nat \<Rightarrow> int" where
  "bigmask n = push_bit n 1 - 1"

definition bitfield :: "int \<Rightarrow> nat \<Rightarrow> int \<Rightarrow> int" where
  "bitfield w s m = drop_bit s w AND m"

lemma bigmask_eq_mask: "bigmask n = mask n"
  by (simp add: bigmask_def mask_eq_exp_minus_1 push_bit_eq_mult)

lemma bitfield_take_bit: "bitfield w s (bigmask n) = take_bit n (drop_bit s w)"
  by (simp add: bitfield_def bigmask_eq_mask take_bit_eq_mask)

lemma bitfield_range: "0 \<le> bitfield w s (bigmask n) \<and> bitfield w s (bigmask n) < 2 ^ n"
  by (simp add: bitfield_take_bit)

lemma bitfield_ge0 [simp]: "0 \<le> bitfield w s (bigmask n)"
  by (simp add: bitfield_take_bit)

lemma bitfield_less: "bitfield w s (bigmask n) < 2 ^ n"
  by (simp add: bitfield_take_bit)

lemma bitfield_or [field_simps_coretex]:
  "bitfield (x OR y) s (bigmask n) = bitfield x s (bigmask n) OR bitfield y s (bigmask n)"
  by (simp add: bitfield_take_bit)

lemma bounded_bit: "0 \<le> (x :: int) \<Longrightarrow> x < 2 ^ k \<Longrightarrow> bit x n \<Longrightarrow> n < k"
  by (metis bit_take_bit_iff take_bit_int_eq_self)

lemma bitfield_push_same [field_simps_coretex]:
  "0 \<le> x \<Longrightarrow> x < 2 ^ n \<Longrightarrow> bitfield (push_bit s x) s (bigmask n) = x"
  by (simp add: bitfield_take_bit take_bit_int_eq_self drop_bit_eq_div push_bit_eq_mult)

lemma bitfield_0_same [field_simps_coretex]:
  "0 \<le> x \<Longrightarrow> x < 2 ^ n \<Longrightarrow> bitfield x 0 (bigmask n) = x"
  by (simp add: bitfield_take_bit take_bit_int_eq_self)

lemma bitfield_push_above [field_simps_coretex]:
  "s + n \<le> a \<Longrightarrow> bitfield (push_bit a x) s (bigmask n) = 0"
  by (rule bit_eqI) (auto simp: bitfield_take_bit bit_take_bit_iff bit_drop_bit_eq bit_push_bit_iff)

lemma bitfield_push_below [field_simps_coretex]:
  assumes "0 \<le> x" and "x < 2 ^ (s - a)" and "a \<le> s"
  shows "bitfield (push_bit a x) s (bigmask n) = 0"
proof (rule bit_eqI)
  fix k
  have "\<not> bit x (s + k - a)"
    using bounded_bit [OF assms(1,2), of "s + k - a"] assms(3) by auto
  then show "bit (bitfield (push_bit a x) s (bigmask n)) k = bit (0 :: int) k"
    by (auto simp: bitfield_take_bit bit_take_bit_iff bit_drop_bit_eq bit_push_bit_iff add.commute)
qed

lemma bitfield_small [field_simps_coretex]:
  assumes "0 \<le> x" and "x < 2 ^ s"
  shows "bitfield x s (bigmask n) = 0"
  using bitfield_push_below [of x s 0 n] assms by simp

lemma bitfield_0 [simp]: "bitfield 0 s m = 0"
  by (simp add: bitfield_def)

text \<open>A word is the join of its fields: peel them off from the top.\<close>

lemma split_field: "take_bit (s + n) w = push_bit s (bitfield w s (bigmask n)) OR take_bit s w"
  by (rule bit_eqI)
    (auto simp: bitfield_take_bit bit_or_iff bit_push_bit_iff bit_take_bit_iff bit_drop_bit_eq)

lemma push_bit_bounds:
  assumes "0 \<le> (x :: int)" and "x < 2 ^ n" and "n + s \<le> m"
  shows "0 \<le> push_bit s x \<and> push_bit s x < 2 ^ m"
proof -
  have "push_bit s x < 2 ^ (n + s)"
    using assms(1,2) by (simp add: push_bit_eq_mult power_add)
  also have "\<dots> \<le> (2 :: int) ^ m" using assms(3) by (simp add: power_increasing)
  finally show ?thesis using assms(1) by simp
qed

lemma or_bounds:
  assumes "0 \<le> (x :: int) \<and> x < 2 ^ m" and "0 \<le> y \<and> y < 2 ^ m"
  shows "0 \<le> x OR y \<and> x OR y < 2 ^ m"
  using assms by (auto intro: OR_upper)

section \<open>Codecs\<close>

text \<open>
  The interface between an encoder and a decoder.  The code has many such pairs: packed
  states, compact patches, typed words of the substrate, hex strings.  A reader of encoded
  data may rely on the round trip (\<open>wire_codec\<close>); where the decoder also refuses every
  encoding the encoder does not produce (\<open>canonical_codec\<close>), encodings identify values,
  which is what hashing an encoding needs.
\<close>

locale wire_codec =
  fixes enc :: "'a \<Rightarrow> 'e + 'b"
    and dec :: "'b \<Rightarrow> 'f + 'a"
    and ok :: "'a \<Rightarrow> bool"
  assumes enc_total: "ok x \<Longrightarrow> \<exists>w. enc x = Inr w"
    and dec_enc: "ok x \<Longrightarrow> enc x = Inr w \<Longrightarrow> dec w = Inr x"
begin

lemma round_trip: "ok x \<Longrightarrow> \<exists>w. enc x = Inr w \<and> dec w = Inr x"
  using enc_total [of x] dec_enc [of x] by auto

lemma enc_inj:
  assumes "ok x" and "ok y" and "enc x = enc y"
  shows "x = y"
proof -
  obtain w where w: "enc x = Inr w" using enc_total [OF assms(1)] ..
  then have "dec w = Inr x" by (rule dec_enc [OF assms(1)])
  moreover from w assms(3) have "enc y = Inr w" by simp
  then have "dec w = Inr y" by (rule dec_enc [OF assms(2)])
  ultimately show ?thesis by simp
qed

end

locale canonical_codec = wire_codec enc dec ok
  for enc :: "'a \<Rightarrow> 'e + 'b" and dec :: "'b \<Rightarrow> 'f + 'a" and ok :: "'a \<Rightarrow> bool" +
  assumes dec_ok: "dec w = Inr x \<Longrightarrow> ok x"
    and enc_dec: "dec w = Inr x \<Longrightarrow> enc x = Inr w"
begin

lemma dec_inj:
  assumes "dec w = Inr x" and "dec w' = Inr x"
  shows "w = w'"
proof -
  from assms have "enc x = Inr w" and "enc x = Inr w'" by (auto dest: enc_dec)
  then show ?thesis by simp
qed

lemma dec_iff_enc: "ok x \<Longrightarrow> dec w = Inr x \<longleftrightarrow> enc x = Inr w"
  using dec_enc enc_dec by blast

lemma range_dec: "(\<exists>w. dec w = Inr x) \<longleftrightarrow> ok x"
  using dec_ok enc_total dec_enc by blast

end

end
