(* ===== verification/Keccak.thy ===== *)
theory Keccak
  imports Prelude
begin

text \<open>
  \<open>src/state/keccak256.ts\<close>: Keccak-256 on two arrays of 25 unsigned 32-bit halves, and
  the 64-bit Keccak of the reference specification that it implements.  An int32 or uint32
  of the code is a 32-bit word: \<open>>>> 0\<close>, \<open>|\<close>, \<open>^\<close> and \<open>~\<close> act on the bit pattern.
\<close>

section \<open>The implementation\<close>

type_synonym u32 = "32 word"
type_synonym u64 = "64 word"

text \<open>The two \<open>Uint32Array(25)\<close> of the permutation state: high halves, low halves.\<close>

type_synonym sponge = "u32 list \<times> u32 list"

definition RC :: "(u32 \<times> u32) list" where
  "RC = [
    (0x00000000, 0x00000001), (0x00000000, 0x00008082),
    (0x80000000, 0x0000808A), (0x80000000, 0x80008000),
    (0x00000000, 0x0000808B), (0x00000000, 0x80000001),
    (0x80000000, 0x80008081), (0x80000000, 0x00008009),
    (0x00000000, 0x0000008A), (0x00000000, 0x00000088),
    (0x00000000, 0x80008009), (0x00000000, 0x8000000A),
    (0x00000000, 0x8000808B), (0x80000000, 0x0000008B),
    (0x80000000, 0x00008089), (0x80000000, 0x00008003),
    (0x80000000, 0x00008002), (0x80000000, 0x00000080),
    (0x00000000, 0x0000800A), (0x80000000, 0x8000000A),
    (0x80000000, 0x80008081), (0x80000000, 0x00008080),
    (0x00000000, 0x80000001), (0x80000000, 0x80008008)]"

definition RHO :: "nat list" where
  "RHO = [
    0,  1, 62, 28, 27,
    36, 44,  6, 55, 20,
    3,  10, 43, 25, 39,
    41, 45, 15, 21,  8,
    18,  2, 61, 56, 14]"

definition PI :: "nat list" where
  "PI = [
    0, 10, 20, 5, 15,
    16, 1, 11, 21, 6,
    7, 17, 2, 12, 22,
    23, 8, 18, 3, 13,
    14, 24, 9, 19, 4]"

definition rot64 :: "u32 \<Rightarrow> u32 \<Rightarrow> nat \<Rightarrow> u32 \<times> u32" where
  "rot64 hi lo n0 =
     (let n = n0 mod 64 in
      if n = 0 then (hi, lo)
      else if n = 32 then (lo, hi)
      else if n < 32 then
        (push_bit n hi OR drop_bit (32 - n) lo, push_bit n lo OR drop_bit (32 - n) hi)
      else
        (let m = n - 32 in
         (push_bit m lo OR drop_bit (32 - m) hi, push_bit m hi OR drop_bit (32 - m) lo)))"

text \<open>The column parities \<open>BC_hi\<close> and \<open>BC_lo\<close>.\<close>

definition column_parity :: "u32 list \<Rightarrow> u32 list" where
  "column_parity st = map (\<lambda>x. foldl (\<lambda>h y. h XOR st ! (x + 5 * y)) 0 [0..<5]) [0..<5]"

definition theta :: "sponge \<Rightarrow> sponge" where
  "theta st =
     (let BC_hi = column_parity (fst st); BC_lo = column_parity (snd st);
          d = (\<lambda>x. let (th, tl) = rot64 (BC_hi ! ((x + 1) mod 5)) (BC_lo ! ((x + 1) mod 5)) 1
                   in (BC_hi ! ((x + 4) mod 5) XOR th, BC_lo ! ((x + 4) mod 5) XOR tl))
      in (map (\<lambda>i. fst st ! i XOR fst (d (i mod 5))) [0..<25],
          map (\<lambda>i. snd st ! i XOR snd (d (i mod 5))) [0..<25]))"

definition rho_pi :: "sponge \<Rightarrow> sponge" where
  "rho_pi st = foldl (\<lambda>(tmpHi, tmpLo) i.
       let (rh, rl) = rot64 (fst st ! i) (snd st ! i) (RHO ! i)
       in (tmpHi[PI ! i := rh], tmpLo[PI ! i := rl]))
     (replicate 25 0, replicate 25 0) [0..<25]"

definition chi_half :: "u32 list \<Rightarrow> u32 list" where
  "chi_half t = map (\<lambda>i. let x = i mod 5; y = i div 5 in
       t ! i XOR (NOT (t ! ((x + 1) mod 5 + 5 * y)) AND t ! ((x + 2) mod 5 + 5 * y)))
     [0..<25]"

definition chi :: "sponge \<Rightarrow> sponge" where
  "chi st = (chi_half (fst st), chi_half (snd st))"

definition iota :: "nat \<Rightarrow> sponge \<Rightarrow> sponge" where
  "iota round st =
     ((fst st)[0 := fst st ! 0 XOR fst (RC ! round)],
      (snd st)[0 := snd st ! 0 XOR snd (RC ! round)])"

definition keccakF1600 :: "sponge \<Rightarrow> sponge" where
  "keccakF1600 st = foldl (\<lambda>st round. iota round (chi (rho_pi (theta st)))) st [0..<24]"

text \<open>The four little-endian bytes from \<open>base\<close> on, \<open>data[i] ?? 0\<close>.\<close>

definition le_half :: "bytes \<Rightarrow> nat \<Rightarrow> u32" where
  "le_half data base =
     foldl (\<lambda>acc b. acc OR push_bit (b * 8) (ucast (at_or 0 data (base + b)))) 0 [0..<4]"

definition absorbBlock :: "sponge \<Rightarrow> bytes \<Rightarrow> nat \<Rightarrow> nat \<Rightarrow> sponge" where
  "absorbBlock st data offset rate = foldl (\<lambda>(stateHi, stateLo) i.
       let base = offset + i * 8
       in (stateHi[i := stateHi ! i XOR le_half data (base + 4)],
           stateLo[i := stateLo ! i XOR le_half data base]))
     st [0..<rate div 8]"

definition keccak_rate :: nat where
  "keccak_rate = 136"

text \<open>The absorbing loop: the state and the offset after the last full block.\<close>

function absorb_full :: "sponge \<Rightarrow> bytes \<Rightarrow> nat \<Rightarrow> sponge \<times> nat" where
  "absorb_full st data offset =
     (if offset + keccak_rate \<le> length data
      then absorb_full (keccakF1600 (absorbBlock st data offset keccak_rate)) data (offset + keccak_rate)
      else (st, offset))"
  by pat_completeness auto
termination
  by (relation "measure (\<lambda>(st, data, offset). length data - offset)") (auto simp: keccak_rate_def)

declare absorb_full.simps [simp del]

text \<open>\<open>last.set(data.subarray(offset))\<close>, the \<open>0x01\<close> after the data and the \<open>0x80\<close> bit.\<close>

definition pad_last :: "bytes \<Rightarrow> nat \<Rightarrow> bytes" where
  "pad_last data offset =
     (let rest = drop offset data;
          last = rest @ replicate (keccak_rate - length rest) 0;
          last1 = last[length data - offset := 1]
      in last1[keccak_rate - 1 := last1 ! (keccak_rate - 1) OR 0x80])"

definition half_bytes :: "u32 \<Rightarrow> bytes" where
  "half_bytes w = map (\<lambda>b. ucast (drop_bit (b * 8) w)) [0..<4]"

definition squeeze :: "sponge \<Rightarrow> bytes" where
  "squeeze st = concat (map (\<lambda>lane. half_bytes (snd st ! lane) @ half_bytes (fst st ! lane)) [0..<4])"

definition keccak256 :: "bytes \<Rightarrow> bytes" where
  "keccak256 data =
     (let (st, offset) = absorb_full (replicate 25 0, replicate 25 0) data 0;
          last = pad_last data offset
      in squeeze (keccakF1600 (absorbBlock st last 0 keccak_rate)))"

section \<open>Digests\<close>

lemma length_half_bytes [simp]: "length (half_bytes w) = 4"
  by (simp add: half_bytes_def)

lemma length_squeeze [simp]: "length (squeeze st) = 32"
  by (simp add: squeeze_def length_concat comp_def sum_list_triv)

lemma length_keccak256 [simp]: "length (keccak256 data) = 32"
  by (simp add: keccak256_def split: prod.split)

section \<open>Collisions\<close>

text \<open>Two different strings of two lists with the same hash.\<close>

definition collide :: "bytes list \<Rightarrow> bytes list \<Rightarrow> bool" where
  "collide xs ys \<longleftrightarrow> list_ex (\<lambda>x. list_ex (\<lambda>y. x \<noteq> y \<and> keccak256 x = keccak256 y) ys) xs"

lemma collideI: "x \<in> set xs \<Longrightarrow> y \<in> set ys \<Longrightarrow> x \<noteq> y \<Longrightarrow> keccak256 x = keccak256 y \<Longrightarrow> collide xs ys"
  by (auto simp: collide_def list_ex_iff)

lemma collide_mono: "collide xs ys \<Longrightarrow> set xs \<subseteq> set xs' \<Longrightarrow> set ys \<subseteq> set ys' \<Longrightarrow> collide xs' ys'"
  unfolding collide_def list_ex_iff by blast

end
