(* ===== verification/Keccak_Spec.thy ===== *)
theory Keccak_Spec
  imports Keccak
begin

text \<open>
  The 64-bit Keccak of FIPS 202 and the refinement: the two-halves implementation of
  \<open>src/state/keccak256.ts\<close> computes it.
\<close>

section \<open>The reference permutation on 64-bit lanes\<close>

text \<open>
  FIPS 202, sections 3.2 and 4: the lane of column x and row y is entry \<open>x + 5 * y\<close>.  The
  rotation offsets come from the walk of section 3.2.2 and the round constants from the
  linear feedback register of section 3.2.5, so the tables of the code are checked against
  their definition and not against a copy.
\<close>

definition theta_spec :: "u64 list \<Rightarrow> u64 list" where
  "theta_spec A =
     (let C = (\<lambda>x. A ! x XOR A ! (x + 5) XOR A ! (x + 10) XOR A ! (x + 15) XOR A ! (x + 20));
          D = (\<lambda>x. C ((x + 4) mod 5) XOR word_rotl 1 (C ((x + 1) mod 5)))
      in map (\<lambda>i. A ! i XOR D (i mod 5)) [0..<25])"

fun rho_walk :: "nat \<Rightarrow> nat \<Rightarrow> nat \<Rightarrow> nat \<Rightarrow> nat list \<Rightarrow> nat list" where
  "rho_walk 0 t x y r = r"
| "rho_walk (Suc k) t x y r =
     rho_walk k (Suc t) y ((2 * x + 3 * y) mod 5) (r[x + 5 * y := ((t + 1) * (t + 2) div 2) mod 64])"

definition rho_spec :: "nat list" where
  "rho_spec = rho_walk 24 0 1 0 (replicate 25 0)"

definition pi_source :: "nat \<Rightarrow> nat" where
  "pi_source i = (let x = i mod 5; y = i div 5 in (x + 3 * y) mod 5 + 5 * x)"

definition rho_pi_spec :: "u64 list \<Rightarrow> u64 list" where
  "rho_pi_spec A = map (\<lambda>i. word_rotl (rho_spec ! pi_source i) (A ! pi_source i)) [0..<25]"

definition chi_spec :: "u64 list \<Rightarrow> u64 list" where
  "chi_spec A = map (\<lambda>i. let x = i mod 5; y = i div 5 in
       A ! i XOR (NOT (A ! ((x + 1) mod 5 + 5 * y)) AND A ! ((x + 2) mod 5 + 5 * y)))
     [0..<25]"

fun lfsr_seq :: "nat \<Rightarrow> bool list \<Rightarrow> bool list" where
  "lfsr_seq (Suc k) [r0, r1, r2, r3, r4, r5, r6, r7] =
     r0 # lfsr_seq k [r7, r0, r1, r2, r3 \<noteq> r7, r4 \<noteq> r7, r5 \<noteq> r7, r6]"
| "lfsr_seq _ _ = []"

definition RC_spec :: "nat \<Rightarrow> u64" where
  "RC_spec ir =
     (let rc = lfsr_seq 168 [True, False, False, False, False, False, False, False]
      in foldl (\<lambda>acc j. if rc ! (j + 7 * ir) then acc OR push_bit (2 ^ j - 1) 1 else acc) 0 [0..<7])"

definition iota_spec :: "nat \<Rightarrow> u64 list \<Rightarrow> u64 list" where
  "iota_spec ir A = A[0 := A ! 0 XOR RC_spec ir]"

definition keccak_f_spec :: "u64 list \<Rightarrow> u64 list" where
  "keccak_f_spec A = foldl (\<lambda>A ir. iota_spec ir (chi_spec (rho_pi_spec (theta_spec A)))) A [0..<24]"

text \<open>The sponge with rate 136 bytes and the padding \<open>pad10*1\<close> after an empty suffix.\<close>

definition lane_of_bytes :: "bytes \<Rightarrow> u64" where
  "lane_of_bytes bs = foldr (\<lambda>b acc. ucast b OR push_bit 8 acc) bs 0"

definition bytes_of_lane :: "u64 \<Rightarrow> bytes" where
  "bytes_of_lane w = map (\<lambda>k. ucast (drop_bit (8 * k) w)) [0..<8]"

definition xor_block :: "u64 list \<Rightarrow> bytes \<Rightarrow> u64 list" where
  "xor_block A blk = map (\<lambda>i. if i < 17 then A ! i XOR lane_of_bytes (take 8 (drop (8 * i) blk)) else A ! i) [0..<25]"

function sponge_blocks :: "bytes \<Rightarrow> bytes list" where
  "sponge_blocks data =
     (if length data \<ge> 136 then take 136 data # sponge_blocks (drop 136 data)
      else if length data = 135 then [data @ [0x81]]
      else [data @ [1] @ replicate (134 - length data) 0 @ [0x80]])"
  by pat_completeness auto
termination
  by (relation "measure length") auto

declare sponge_blocks.simps [simp del]

definition keccak256_spec :: "bytes \<Rightarrow> bytes" where
  "keccak256_spec data =
     (let A = foldl (\<lambda>A blk. keccak_f_spec (xor_block A blk)) (replicate 25 0) (sponge_blocks data)
      in concat (map (\<lambda>i. bytes_of_lane (A ! i)) [0..<4]))"

section \<open>A lane as two halves\<close>

definition lane :: "u32 \<Rightarrow> u32 \<Rightarrow> u64" where
  "lane hi lo = push_bit 32 (ucast hi) OR ucast lo"

lemma bit_lane: "bit (lane hi lo) n \<longleftrightarrow> (if n < 32 then bit lo n else n < 64 \<and> bit hi (n - 32))"
  by (auto simp: lane_def bit_simps dest: bit_imp_le_length)

lemma rotl_index: "n < 64 \<Longrightarrow> k < 64 \<Longrightarrow> (k + (64 - n mod 64)) mod 64 = (if n \<le> k then k - n else k + 64 - (n::nat))"
  by (auto simp: mod_if)

lemma bit_half: "bit (w :: u32) n \<Longrightarrow> n < 32"
  using bit_imp_le_length [of w n] by simp

lemma bit_half_push: "bit (push_bit m (w::u32)) n \<longleftrightarrow> m \<le> n \<and> n < 32 \<and> bit w (n - m)"
  by (auto simp: bit_simps)

lemma lane_rot64:
  assumes "n < 64"
  shows "case_prod lane (rot64 hi lo n) = word_rotl n (lane hi lo)"
proof (rule bit_word_eqI)
  fix k assume "k < LENGTH(64)"
  then have k: "k < 64" by simp
  have r: "bit (word_rotl n (lane hi lo)) k = bit (lane hi lo) (if n \<le> k then k - n else k + 64 - n)"
  proof -
    have L: "LENGTH(64) = 64" by simp
    show ?thesis by (simp only: bit_word_rotl_iff L rotl_index [OF assms k] k simp_thms)
  qed
  consider "n = 0" | "n = 32" | "0 < n" "n < 32" | "32 < n" by linarith
  then show "bit (case_prod lane (rot64 hi lo n)) k = bit (word_rotl n (lane hi lo)) k"
  proof cases
    case 3
    then show ?thesis unfolding r
      using assms k by (auto simp: bit_lane bit_half_push bit_or_iff bit_drop_bit_eq rot64_def Let_def algebra_simps dest: bit_half)
  next
    case 4
    then show ?thesis unfolding r
      using assms k by (auto simp: bit_lane bit_half_push bit_or_iff bit_drop_bit_eq rot64_def Let_def algebra_simps dest: bit_half)
  next
    case 1
    then show ?thesis unfolding r using k by (auto simp: rot64_def bit_lane)
  next
    case 2
    then show ?thesis unfolding r using k by (auto simp: rot64_def bit_lane)
  qed
qed

lemma lfsr_seq_168: "lfsr_seq 168 [True, False, False, False, False, False, False, False] =
 [True, False, False, False, False, False, False, False, True, False, True,
  True, False, False, False, True, True, True, True, False, True, False,
  False, False, False, True, True, True, True, True, True, True, True,
  False, False, True, False, False, False, False, True, False, True, False,
  False, True, True, True, True, True, False, True, False, True, False,
  True, False, True, True, True, False, False, False, False, False, True,
  True, False, False, False, True, False, True, False, True, True, False,
  False, True, True, False, False, True, False, True, True, True, True,
  True, True, False, True, True, True, True, False, False, True, True,
  False, True, True, True, False, True, True, True, False, False, True,
  False, True, False, True, False, False, True, False, True, False, False,
  False, True, False, False, True, False, True, True, False, True, False,
  False, False, True, True, False, False, True, True, True, False, False,
  True, True, True, True, False, False, False, True, True, False, True,
  True, False, False, False, False, True, False, False, False, True, False,
  True, True, True]"
  by (simp add: numeral_eq_Suc)

lemma RC_spec_table:
  "map RC_spec [0..<24] = map (\<lambda>(hi, lo). lane hi lo) RC"
  unfolding RC_spec_def lfsr_seq_168 Let_def by code_simp

definition lanes :: "sponge \<Rightarrow> u64 list" where
  "lanes st = map (\<lambda>i. lane (fst st ! i) (snd st ! i)) [0..<25]"

definition wf_sponge :: "sponge \<Rightarrow> bool" where
  "wf_sponge st \<longleftrightarrow> length (fst st) = 25 \<and> length (snd st) = 25"

lemma length_lanes [simp]: "length (lanes st) = 25"
  by (simp add: lanes_def)

lemma nth_lanes [simp]: "i < 25 \<Longrightarrow> lanes st ! i = lane (fst st ! i) (snd st ! i)"
  by (simp add: lanes_def)

lemma lane_xor: "lane (a XOR b) (c XOR d) = lane a c XOR lane b d"
  by (rule bit_word_eqI) (auto simp: bit_lane bit_simps)

lemma lane_and: "lane (a AND b) (c AND d) = lane a c AND lane b d"
  by (rule bit_word_eqI) (auto simp: bit_lane bit_simps)

lemma lane_not: "lane (NOT a) (NOT c) = NOT (lane a c)"
  by (rule bit_word_eqI) (auto simp: bit_lane bit_simps)

lemma lane_0 [simp]: "lane 0 0 = 0"
  by (simp add: lane_def)

lemma lanes_eqI:
  assumes "length S = 25" and "\<And>i. i < 25 \<Longrightarrow> lane (fst st ! i) (snd st ! i) = S ! i"
  shows "lanes st = S"
  by (rule nth_equalityI) (simp_all add: assms)

lemma upt_5: "[0..<5] = [0, 1, 2, 3, 4 :: nat]"
  by code_simp

lemma nth_column_parity:
  "x < 5 \<Longrightarrow> column_parity st ! x = st ! x XOR st ! (x + 5) XOR st ! (x + 10) XOR st ! (x + 15) XOR st ! (x + 20)"
  by (simp add: column_parity_def) (simp add: upt_5 xor.assoc add.commute)

lemma lanes_theta: "lanes (theta st) = theta_spec (lanes st)"
proof (rule lanes_eqI)
  fix i :: nat assume i: "i < 25"
  have C: "lane (column_parity (fst st) ! x) (column_parity (snd st) ! x) =
     lanes st ! x XOR lanes st ! (x + 5) XOR lanes st ! (x + 10) XOR lanes st ! (x + 15) XOR lanes st ! (x + 20)"
    if "x < 5" for x using that by (simp add: nth_column_parity lane_xor)
  have R: "lane (fst (rot64 h l 1)) (snd (rot64 h l 1)) = word_rotl 1 (lane h l)" for h l
    using lane_rot64 [of 1 h l] by (simp add: case_prod_beta)
  show "lane (fst (theta st) ! i) (snd (theta st) ! i) = theta_spec (lanes st) ! i"
    using i by (simp add: theta_def theta_spec_def Let_def case_prod_beta lane_xor C R xor.assoc
      del: One_nat_def nth_lanes) simp
qed (simp add: theta_spec_def Let_def)

lemma lanes_chi: "lanes (chi st) = chi_spec (lanes st)"
proof (rule lanes_eqI)
  fix i :: nat assume i: "i < 25"
  then have "i div 5 < 5" by (simp add: less_mult_imp_div_less)
  then have "x mod 5 + 5 * (i div 5) < 25" for x using mod_less_divisor [of 5 x] by linarith
  with i show "lane (fst (chi st) ! i) (snd (chi st) ! i) = chi_spec (lanes st) ! i"
    by (simp add: chi_def chi_spec_def chi_half_def Let_def lane_xor lane_and lane_not)
qed (simp add: chi_spec_def)

lemma rho_spec_RHO: "rho_spec = RHO"
  by code_simp

lemma PI_inverse: "i < 25 \<Longrightarrow> PI ! pi_source i = i \<and> pi_source i < 25"
proof -
  have "list_all (\<lambda>i. PI ! (pi_source i) = i \<and> pi_source i < 25) [0..<25]" by code_simp
  then show "i < 25 \<Longrightarrow> PI ! pi_source i = i \<and> pi_source i < 25" by (simp add: list_all_iff)
qed

lemma pi_source_inverse: "i < 25 \<Longrightarrow> pi_source (PI ! i) = i \<and> PI ! i < 25"
proof -
  have "list_all (\<lambda>i. pi_source (PI ! i) = i \<and> PI ! i < 25) [0..<25]" by code_simp
  then show "i < 25 \<Longrightarrow> pi_source (PI ! i) = i \<and> PI ! i < 25" by (simp add: list_all_iff)
qed

lemma RHO_less: "i < 25 \<Longrightarrow> RHO ! i < 64"
proof -
  have "list_all (\<lambda>i. RHO ! i < 64) [0..<25]" by code_simp
  then show "i < 25 \<Longrightarrow> RHO ! i < 64" by (simp add: list_all_iff)
qed

lemma scatter_nth:
  assumes "\<And>i. i < n \<Longrightarrow> p i < length a \<and> q (p i) = i" and "length b = length a"
  shows "(let r = foldl (\<lambda>(a, b) i. (a[p i := f i], b[p i := g i])) (a, b) [0..<n] in
      length (fst r) = length a \<and> length (snd r) = length a \<and>
      (\<forall>j<length a. q j < n \<longrightarrow> p (q j) = j \<longrightarrow> fst r ! j = f (q j) \<and> snd r ! j = g (q j)))"
  using assms(1)
proof (induction n)
  case (Suc n)
  then show ?case using assms(2)
    by (auto simp: Let_def case_prod_beta nth_list_update less_Suc_eq)
qed (simp add: assms(2))

lemma rho_pi_scatter:
  "rho_pi st = foldl (\<lambda>(a, b) i. (a[PI ! i := fst (rot64 (fst st ! i) (snd st ! i) (RHO ! i))],
                              b[PI ! i := snd (rot64 (fst st ! i) (snd st ! i) (RHO ! i))]))
     (replicate 25 0, replicate 25 0) [0..<25]"
  by (simp add: rho_pi_def case_prod_beta)

lemma lanes_rho_pi: "lanes (rho_pi st) = rho_pi_spec (lanes st)"
proof (rule lanes_eqI)
  fix i :: nat assume i: "i < 25"
  let ?j = "pi_source i"
  have "fst (rho_pi st) ! i = fst (rot64 (fst st ! ?j) (snd st ! ?j) (RHO ! ?j)) \<and>
        snd (rho_pi st) ! i = snd (rot64 (fst st ! ?j) (snd st ! ?j) (RHO ! ?j))"
    using scatter_nth [where n = 25 and p = "\<lambda>i. PI ! i" and q = pi_source and a = "replicate 25 0" and b = "replicate 25 0"
        and f = "\<lambda>i. fst (rot64 (fst st ! i) (snd st ! i) (RHO ! i))"
        and g = "\<lambda>i. snd (rot64 (fst st ! i) (snd st ! i) (RHO ! i))"] i
    by (simp add: rho_pi_scatter Let_def pi_source_inverse PI_inverse)
  then show "lane (fst (rho_pi st) ! i) (snd (rho_pi st) ! i) = rho_pi_spec (lanes st) ! i"
    using i lane_rot64 [of "RHO ! ?j" "fst st ! ?j" "snd st ! ?j"]
    by (simp add: rho_pi_spec_def rho_spec_RHO RHO_less PI_inverse case_prod_beta)
qed (simp add: rho_pi_spec_def)


lemma wf_theta: "wf_sponge (theta st)"
  by (simp add: wf_sponge_def theta_def Let_def)

lemma wf_rho_pi: "wf_sponge (rho_pi st)"
  using scatter_nth [where n = 25 and p = "\<lambda>i. PI ! i" and q = pi_source and a = "replicate 25 0" and b = "replicate 25 0"
        and f = "\<lambda>i. fst (rot64 (fst st ! i) (snd st ! i) (RHO ! i))"
        and g = "\<lambda>i. snd (rot64 (fst st ! i) (snd st ! i) (RHO ! i))"]
  by (simp add: wf_sponge_def rho_pi_scatter Let_def pi_source_inverse)

lemma wf_chi: "wf_sponge (chi st)"
  by (simp add: wf_sponge_def chi_def chi_half_def)

lemma wf_iota: "wf_sponge st \<Longrightarrow> wf_sponge (iota r st)"
  by (simp add: wf_sponge_def iota_def)

lemma RC_spec_nth: "r < 24 \<Longrightarrow> RC_spec r = case_prod lane (RC ! r)"
proof -
  assume r: "r < 24"
  have "length RC = 24" by (simp add: RC_def)
  then show ?thesis
    using arg_cong [where f = "\<lambda>xs. xs ! r", OF RC_spec_table] r by simp
qed

lemma lanes_iota: "wf_sponge st \<Longrightarrow> r < 24 \<Longrightarrow> lanes (iota r st) = iota_spec r (lanes st)"
  using RC_spec_nth [of r]
  by (intro lanes_eqI)
    (auto simp: iota_def iota_spec_def wf_sponge_def nth_list_update lane_xor case_prod_beta)

lemma lanes_keccakF1600:
  assumes "wf_sponge st"
  shows "wf_sponge (keccakF1600 st) \<and> lanes (keccakF1600 st) = keccak_f_spec (lanes st)"
proof -
  have "n \<le> 24 \<Longrightarrow> wf_sponge (foldl (\<lambda>st round. iota round (chi (rho_pi (theta st)))) st [0..<n]) \<and>
     lanes (foldl (\<lambda>st round. iota round (chi (rho_pi (theta st)))) st [0..<n]) =
     foldl (\<lambda>A ir. iota_spec ir (chi_spec (rho_pi_spec (theta_spec A)))) (lanes st) [0..<n]" for n
  proof (induction n)
    case (Suc n)
    then show ?case
      by (simp add: wf_iota wf_chi lanes_iota lanes_chi lanes_rho_pi lanes_theta)
  qed (simp add: assms)
  from this [of 24] show ?thesis by (simp add: keccakF1600_def keccak_f_spec_def)
qed

section \<open>Sponge\<close>

lemma byte_bit: "bit (b :: byte) m \<Longrightarrow> m < 8"
  using bit_imp_le_length [of b m] by simp

lemma bit_byte_push_split:
  assumes "r < 8"
  shows "bit (push_bit (k * 8) (ucast (b :: byte)) :: 'a :: len word) (8 * q + r) \<longleftrightarrow>
    8 * q + r < LENGTH('a) \<and> q = k \<and> bit b r"
proof -
  have s: "bit (push_bit (k * 8) (ucast b) :: 'a word) (8 * q + r) \<longleftrightarrow>
      8 * q + r < LENGTH('a) \<and> k * 8 \<le> 8 * q + r \<and> bit b (8 * q + r - k * 8)"
    by (simp add: bit_push_bit_iff bit_unsigned_iff possible_bit_word) linarith
  consider "q < k" | "q = k" | "k < q" by linarith
  then show ?thesis
  proof cases
    case 1
    with assms have "\<not> k * 8 \<le> 8 * q + r" by linarith
    with 1 s show ?thesis by simp
  next
    case 2
    then have "8 * q + r - k * 8 = r" by simp
    with 2 s show ?thesis by simp
  next
    case 3
    then have "\<not> bit b (8 * q + r - k * 8)" using byte_bit [of b "8 * q + r - k * 8"] by linarith
    with 3 s show ?thesis by simp
  qed
qed

lemma bit_byte_push:
  "bit (push_bit (k * 8) (ucast (b :: byte)) :: 'a :: len word) n \<longleftrightarrow> n < LENGTH('a) \<and> n div 8 = k \<and> bit b (n mod 8)"
  using bit_byte_push_split [of "n mod 8" k b "n div 8", where 'a = 'a] by simp

lemma bit_le_half: "bit (le_half data base) n \<longleftrightarrow> n < 32 \<and> bit (at_or 0 data (base + n div 8)) (n mod 8)"
proof -
  have "bit (foldl (\<lambda>acc b. acc OR push_bit (b * 8) (ucast (at_or 0 data (base + b)))) (0::u32) [0..<k]) n \<longleftrightarrow>
      n < 32 \<and> n div 8 < k \<and> bit (at_or 0 data (base + n div 8)) (n mod 8)" for k
    by (induction k) (auto simp only: bit_or_iff bit_byte_push less_Suc_eq upt_0 upt_Suc foldl_append
      foldl.simps bit_0_eq bot_fun_def bot_bool_def len_num1 len_bit0 len_num0 not_less0 if_True zero_le)
  moreover have "n < 32 \<Longrightarrow> n div 8 < 4" by (simp add: less_mult_imp_div_less)
  ultimately show ?thesis by (auto simp add: le_half_def simp del: div_less)
qed

lemma bit_lane_of_bytes_split:
  "r < 8 \<Longrightarrow> bit (lane_of_bytes bs) (8 * q + r) \<longleftrightarrow> 8 * q + r < 64 \<and> q < length bs \<and> bit (bs ! q) r"
proof (induction bs arbitrary: q)
  case (Cons b bs)
  have s: "bit (lane_of_bytes (b # bs)) n \<longleftrightarrow>
      n < 64 \<and> bit b n \<or> n < 64 \<and> 8 \<le> n \<and> bit (lane_of_bytes bs) (n - 8)" for n
    by (auto simp: lane_of_bytes_def bit_or_iff bit_push_bit_iff bit_unsigned_iff dest: bit_imp_le_length)
  show ?case
  proof (cases q)
    case 0
    with s [of r] Cons.prems show ?thesis by (auto dest: byte_bit)
  next
    case (Suc p)
    have "\<not> bit b (8 * q + r)" using byte_bit [of b "8 * q + r"] Suc by auto
    with s [of "8 * q + r"] Cons.IH [OF Cons.prems, of p] Suc show ?thesis by auto
  qed
qed (simp add: lane_of_bytes_def)

lemma bit_lane_of_bytes:
  "bit (lane_of_bytes bs) n \<longleftrightarrow> n < 64 \<and> n div 8 < length bs \<and> bit (bs ! (n div 8)) (n mod 8)"
  using bit_lane_of_bytes_split [of "n mod 8" bs "n div 8"] by simp

lemma lane_le_half:
  assumes "base + 8 \<le> length data"
  shows "lane (le_half data (base + 4)) (le_half data base) = lane_of_bytes (take 8 (drop base data))"
proof (rule bit_word_eqI)
  fix n assume "n < LENGTH(64)"
  then have n: "n < 64" by simp
  define q r where "q = n div 8" and "r = n mod 8"
  have qr: "n = 8 * q + r" "r < 8" by (simp_all add: q_def r_def)
  then have q: "q < 8" using n by linarith
  have R: "bit (lane_of_bytes (take 8 (drop base data))) n \<longleftrightarrow> bit (data ! (base + q)) r"
    using q n assms qr bit_lane_of_bytes_split [of r "take 8 (drop base data)" q] by simp
  have H: "bit (le_half data b) (8 * p + r) \<longleftrightarrow> 8 * p + r < 32 \<and> bit (at_or 0 data (b + p)) r" for b p
    using bit_le_half [of data b "8 * p + r"] qr(2) by simp
  show "bit (lane (le_half data (base + 4)) (le_half data base)) n = bit (lane_of_bytes (take 8 (drop base data))) n"
  proof (cases "q < 4")
    case True
    then have "n < 32" using qr by linarith
    then show ?thesis using H [of base q] R qr q assms by (simp add: bit_lane)
  next
    case False
    then have "\<not> n < 32" and "n - 32 = 8 * (q - 4) + r" and e: "base + 4 + (q - 4) = base + q"
        and "8 * (q - 4) + r < 32"
      using qr n by linarith+
    then show ?thesis using H [of "base + 4" "q - 4"] R q assms n by (simp add: bit_lane)
  qed
qed

lemma xor_halves_nth:
  assumes "length b = length a"
  shows "(let r = foldl (\<lambda>(a, b) i. (a[i := a ! i XOR f i], b[i := b ! i XOR g i])) (a, b) [0..<n] in
      length (fst r) = length a \<and> length (snd r) = length a \<and>
      (\<forall>j<length a. fst r ! j = (if j < n then a ! j XOR f j else a ! j) \<and>
                    snd r ! j = (if j < n then b ! j XOR g j else b ! j)))"
proof (induction n)
  case (Suc n)
  then show ?case using assms
    by (auto simp: Let_def case_prod_beta nth_list_update less_Suc_eq)
qed (simp add: assms)

lemma lanes_absorbBlock:
  assumes "wf_sponge st" and "off + 136 \<le> length data"
  shows "wf_sponge (absorbBlock st data off keccak_rate) \<and>
     lanes (absorbBlock st data off keccak_rate) = xor_block (lanes st) (take 136 (drop off data))"
proof -
  have eq: "absorbBlock st data off keccak_rate =
      foldl (\<lambda>(a, b) i. (a[i := a ! i XOR le_half data (off + i * 8 + 4)], b[i := b ! i XOR le_half data (off + i * 8)]))
       (fst st, snd st) [0..<17]"
    by (simp add: absorbBlock_def Let_def keccak_rate_def)
  note f = xor_halves_nth [where a = "fst st" and b = "snd st" and n = 17
      and f = "\<lambda>i. le_half data (off + i * 8 + 4)" and g = "\<lambda>i. le_half data (off + i * 8)", folded eq]
  have "lanes (absorbBlock st data off keccak_rate) = xor_block (lanes st) (take 136 (drop off data))"
  proof (rule lanes_eqI)
    fix i :: nat assume i: "i < 25"
    have "take 8 (drop (8 * i) (take 136 (drop off data))) = take 8 (drop (off + i * 8) data)" if "i < 17"
      using that by (simp add: drop_take min_def add.commute mult.commute)
    then show "lane (fst (absorbBlock st data off keccak_rate) ! i) (snd (absorbBlock st data off keccak_rate) ! i) =
        xor_block (lanes st) (take 136 (drop off data)) ! i"
      using i assms f by (simp add: xor_block_def Let_def wf_sponge_def lane_xor lane_le_half)
  qed (simp add: xor_block_def)
  with f assms show ?thesis by (simp add: wf_sponge_def Let_def)
qed

lemma pad_last_eq:
  assumes "off \<le> length data" and "length data - off < 136"
  shows "pad_last data off =
    (if length data - off = 135 then drop off data @ [0x81]
     else drop off data @ [1] @ replicate (134 - (length data - off)) 0 @ [0x80])"
  (is "?l = ?r")
proof (rule nth_equalityI)
  show "length ?l = length ?r" using assms by (simp add: pad_last_def Let_def keccak_rate_def)
next
  fix i assume "i < length ?l"
  then have "i < 136" using assms by (simp add: pad_last_def Let_def keccak_rate_def)
  then show "?l ! i = ?r ! i" using assms
    by (auto simp: pad_last_def Let_def keccak_rate_def nth_list_update nth_append nth_Cons')
qed

lemma absorb_pad_refines:
  assumes "wf_sponge st" and "off \<le> length data" and "absorb_full st data off = (st', off')"
  shows "wf_sponge (keccakF1600 (absorbBlock st' (pad_last data off') 0 keccak_rate)) \<and>
     lanes (keccakF1600 (absorbBlock st' (pad_last data off') 0 keccak_rate)) =
     foldl (\<lambda>A blk. keccak_f_spec (xor_block A blk)) (lanes st) (sponge_blocks (drop off data))"
  using assms
proof (induction st data off rule: absorb_full.induct)
  case (1 st data off)
  show ?case
  proof (cases "off + keccak_rate \<le> length data")
    case True
    have b: "sponge_blocks (drop off data) = take 136 (drop off data) # sponge_blocks (drop (off + 136) data)"
      using True by (subst sponge_blocks.simps) (simp add: keccak_rate_def add.commute)
    note a = lanes_absorbBlock [OF 1(2), of off data]
    show ?thesis
      using 1(1) [OF True] 1(4) True a by (simp add: absorb_full.simps [of st data off] b keccak_rate_def lanes_keccakF1600)
  next
    case False
    with 1(3,4) have eq: "st' = st" "off' = off" and l: "length data - off < 136"
      by (auto simp: absorb_full.simps [of st data off] keccak_rate_def)
    have b: "sponge_blocks (drop off data) = [pad_last data off]"
      using l by (subst sponge_blocks.simps) (simp add: pad_last_eq 1(3))
    have "length (pad_last data off) = 136"
      using l 1(3) by (simp add: pad_last_eq)
    then show ?thesis
      using lanes_absorbBlock [OF 1(2), of 0 "pad_last data off"] by (simp add: eq b lanes_keccakF1600)
  qed
qed

lemma nth_bytes_of_lane: "k < 8 \<Longrightarrow> bytes_of_lane w ! k = ucast (drop_bit (8 * k) w)"
  by (simp add: bytes_of_lane_def)

lemma half_bytes_lane: "half_bytes lo @ half_bytes hi = bytes_of_lane (lane hi lo)"
proof (rule nth_equalityI)
  show "length (half_bytes lo @ half_bytes hi) = length (bytes_of_lane (lane hi lo))"
    by (simp add: bytes_of_lane_def)
next
  fix i assume "i < length (half_bytes lo @ half_bytes hi)"
  then have i: "i < 8" by simp
  show "(half_bytes lo @ half_bytes hi) ! i = bytes_of_lane (lane hi lo) ! i"
  proof (rule bit_word_eqI)
    fix n assume "n < LENGTH(8)"
    then have n: "n < 8" by simp
    have "4 \<le> i \<Longrightarrow> (i - 4) * 8 + n = 8 * i + n - 32" by simp
    then show "bit ((half_bytes lo @ half_bytes hi) ! i) n = bit (bytes_of_lane (lane hi lo) ! i) n"
      using i n by (auto simp: nth_bytes_of_lane nth_append half_bytes_def bit_simps bit_lane mult.commute)
  qed
qed

lemma upt_4: "[0..<4] = [0, 1, 2, 3 :: nat]"
  by code_simp

lemma squeeze_lanes: "squeeze st = concat (map (\<lambda>i. bytes_of_lane (lanes st ! i)) [0..<4])"
  by (simp add: squeeze_def half_bytes_lane upt_4)

text \<open>
  C2: \<open>keccak256\<close>, which works on 32-bit halves with its own tables and padding buffer,
  computes Keccak-256: the sponge of FIPS 202 with rate 136, over the 64-bit permutation.
\<close>

theorem keccak256_correct: "keccak256 data = keccak256_spec data"
proof -
  obtain st off where a: "absorb_full (replicate 25 0, replicate 25 0) data 0 = (st, off)" by fastforce
  have "lanes (replicate 25 0, replicate 25 0) = replicate 25 0"
    by (rule lanes_eqI) simp_all
  then show ?thesis
    using absorb_pad_refines [OF _ _ a]
    by (simp add: keccak256_def keccak256_spec_def a squeeze_lanes Let_def wf_sponge_def)
qed

end
