(* ===== verification/Codec.thy ===== *)
theory Codec
  imports Prelude
begin

text \<open>
  \<open>src/state/types.ts\<close> and \<open>src/state/codec.ts\<close>: the state of 1024 uint256 words, its
  word ranges, and the packed form of 32768 big-endian bytes.
\<close>

section \<open>Types and word ranges\<close>

record cortex_state =
  words :: "int list"

definition HEADER_START :: int where "HEADER_START = 0"
definition HEADER_END :: int where "HEADER_END = 31"
definition MEMORY_INDEX_START :: int where "MEMORY_INDEX_START = 32"
definition MEMORY_INDEX_END :: int where "MEMORY_INDEX_END = 383"
definition RETRIEVAL_KEYS_START :: int where "RETRIEVAL_KEYS_START = 384"
definition RETRIEVAL_KEYS_END :: int where "RETRIEVAL_KEYS_END = 671"
definition RELATIONS_START :: int where "RELATIONS_START = 672"
definition RELATIONS_END :: int where "RELATIONS_END = 799"
definition TEMPORAL_START :: int where "TEMPORAL_START = 800"
definition TEMPORAL_END :: int where "TEMPORAL_END = 895"
definition CODEBOOK_START :: int where "CODEBOOK_START = 896"
definition CODEBOOK_END :: int where "CODEBOOK_END = 991"
definition RESERVED_START :: int where "RESERVED_START = 992"
definition RESERVED_END :: int where "RESERVED_END = 1023"
definition WORD_COUNT :: nat where "WORD_COUNT = 1024"
definition POLICY_EVIDENCE_START :: int where "POLICY_EVIDENCE_START = 384"
definition POLICY_EVIDENCE_END :: int where "POLICY_EVIDENCE_END = 511"
definition POLICY_CONFLICT_START :: int where "POLICY_CONFLICT_START = 512"
definition POLICY_CONFLICT_END :: int where "POLICY_CONFLICT_END = 639"
definition POLICY_ABSTENTION_START :: int where "POLICY_ABSTENTION_START = 640"
definition POLICY_ABSTENTION_END :: int where "POLICY_ABSTENTION_END = 671"
definition POLICY_RESERVED_START :: int where "POLICY_RESERVED_START = 896"
definition POLICY_RESERVED_END :: int where "POLICY_RESERVED_END = 991"

lemmas RANGES = HEADER_START_def HEADER_END_def MEMORY_INDEX_START_def MEMORY_INDEX_END_def
  RETRIEVAL_KEYS_START_def RETRIEVAL_KEYS_END_def RELATIONS_START_def RELATIONS_END_def
  TEMPORAL_START_def TEMPORAL_END_def CODEBOOK_START_def CODEBOOK_END_def
  RESERVED_START_def RESERVED_END_def WORD_COUNT_def
  POLICY_EVIDENCE_START_def POLICY_EVIDENCE_END_def POLICY_CONFLICT_START_def
  POLICY_CONFLICT_END_def POLICY_ABSTENTION_START_def POLICY_ABSTENTION_END_def
  POLICY_RESERVED_START_def POLICY_RESERVED_END_def

declare RANGES [range_simps]

text \<open>The patch type codes, and the descriptor table of type byte, first and last word.\<close>

definition KEY_UPDATE :: int where "KEY_UPDATE = 0x01"
definition SLOT_REPLACE :: int where "SLOT_REPLACE = 0x02"
definition TEMPORAL_UPDATE :: int where "TEMPORAL_UPDATE = 0x03"
definition RELATION_UPDATE :: int where "RELATION_UPDATE = 0x04"
definition CODEBOOK_UPDATE :: int where "CODEBOOK_UPDATE = 0x05"
definition HEADER_UPDATE :: int where "HEADER_UPDATE = 0x06"
definition POLICY_UPDATE :: int where "POLICY_UPDATE = 0x07"
definition MIXED :: int where "MIXED = 0xFF"

lemmas PATCH_TYPE = KEY_UPDATE_def SLOT_REPLACE_def TEMPORAL_UPDATE_def RELATION_UPDATE_def
  CODEBOOK_UPDATE_def HEADER_UPDATE_def POLICY_UPDATE_def MIXED_def

definition PATCH_TYPE_RANGE_TABLE :: "(int \<times> int \<times> int) list" where
  "PATCH_TYPE_RANGE_TABLE = [
    (KEY_UPDATE, RETRIEVAL_KEYS_START, RETRIEVAL_KEYS_END),
    (SLOT_REPLACE, MEMORY_INDEX_START, MEMORY_INDEX_END),
    (TEMPORAL_UPDATE, TEMPORAL_START, TEMPORAL_END),
    (RELATION_UPDATE, RELATIONS_START, RELATIONS_END),
    (CODEBOOK_UPDATE, CODEBOOK_START, CODEBOOK_END),
    (HEADER_UPDATE, HEADER_START, HEADER_END),
    (POLICY_UPDATE, POLICY_EVIDENCE_START, POLICY_ABSTENTION_END)]"

text \<open>A well-formed state: 1024 words, each a uint256.  This is what the type comment of
  \<open>CortexState\<close> promises; nothing in the type enforces it.\<close>

definition uint256 :: "int \<Rightarrow> bool" where
  "uint256 w \<longleftrightarrow> 0 \<le> w \<and> w < 2 ^ 256"

lemma uint256_or: "uint256 x \<Longrightarrow> uint256 y \<Longrightarrow> uint256 (x OR y)"
  using or_bounds [of x 256 y] by (simp add: uint256_def)

lemma uint256_push: "0 \<le> x \<Longrightarrow> s \<le> 256 \<Longrightarrow> x < 2 ^ (256 - s) \<Longrightarrow> uint256 (push_bit s x)"
  using push_bit_bounds [of x "256 - s" s 256] by (simp add: uint256_def)

lemma uint256_take: "uint256 w \<Longrightarrow> take_bit 256 w = w"
  by (simp add: uint256_def take_bit_int_eq_self)

definition wf_state :: "cortex_state \<Rightarrow> bool" where
  "wf_state s \<longleftrightarrow> length (words s) = WORD_COUNT \<and> list_all uint256 (words s)"

lemma wf_state_length: "wf_state s \<Longrightarrow> length (words s) = 1024"
  by (simp add: wf_state_def WORD_COUNT_def)

lemma wf_state_word: "wf_state s \<Longrightarrow> i < 1024 \<Longrightarrow> uint256 (words s ! i)"
  by (simp add: wf_state_def WORD_COUNT_def list_all_length)

text \<open>\<open>state.words[i] ?? 0n\<close> for a number \<open>i\<close>, which may be negative or past the end.\<close>

definition word_at :: "int list \<Rightarrow> int \<Rightarrow> int" where
  "word_at ws i = (if 0 \<le> i then at_or 0 ws (nat i) else 0)"

section \<open>Bit fields\<close>

text \<open>\<open>x << BigInt(n)\<close>: a negative count shifts to the right.\<close>

definition bigint_shl :: "int \<Rightarrow> int \<Rightarrow> int" where
  "bigint_shl x n = (if 0 \<le> n then push_bit (nat n) x else drop_bit (nat (- n)) x)"

definition bigint_shr :: "int \<Rightarrow> int \<Rightarrow> int" where
  "bigint_shr x n = bigint_shl x (- n)"

definition getField :: "int \<Rightarrow> int \<Rightarrow> int \<Rightarrow> int" where
  "getField word bitsHi bitsLo =
     (let width = bitsHi - bitsLo + 1;
          mask = bigint_shl 1 width - 1
      in bigint_shr word bitsLo AND mask)"

definition setField :: "int \<Rightarrow> int \<Rightarrow> int \<Rightarrow> int \<Rightarrow> int" where
  "setField word bitsHi bitsLo value =
     (let width = bitsHi - bitsLo + 1;
          mask = bigint_shl 1 width - 1;
          shift = bitsLo
      in (word AND NOT (bigint_shl mask shift)) OR bigint_shl (value AND mask) shift)"

lemma getField_bit:
  assumes "0 \<le> lo" and "lo \<le> hi"
  shows "bit (getField w hi lo) n \<longleftrightarrow> int n \<le> hi - lo \<and> bit w (nat lo + n)"
proof -
  have "bigint_shl 1 (hi - lo + 1) - 1 = mask (nat (hi - lo + 1))"
    using assms by (simp add: bigint_shl_def mask_eq_exp_minus_1)
  then have "getField w hi lo = take_bit (nat (hi - lo + 1)) (drop_bit (nat lo) w)"
    using assms by (cases "lo = 0") (simp_all add: getField_def bigint_shr_def bigint_shl_def Let_def take_bit_eq_mask)
  then show ?thesis using assms by (auto simp: bit_take_bit_iff bit_drop_bit_eq nat_less_iff)
qed

lemma setField_bit:
  assumes "0 \<le> lo" and "lo \<le> hi"
  shows "bit (setField w hi lo v) n \<longleftrightarrow>
    (if lo \<le> int n \<and> int n \<le> hi then bit v (n - nat lo) else bit w n)"
proof -
  have m: "bigint_shl 1 (hi - lo + 1) - 1 = mask (nat (hi - lo + 1))"
    using assms by (simp add: bigint_shl_def mask_eq_exp_minus_1)
  have "setField w hi lo v =
      (w AND NOT (push_bit (nat lo) (mask (nat (hi - lo + 1))))) OR
      push_bit (nat lo) (v AND mask (nat (hi - lo + 1)))"
    using assms unfolding setField_def Let_def m by (simp add: bigint_shl_def)
  then show ?thesis
    using assms by (auto simp: bit_or_iff bit_and_iff bit_not_iff bit_push_bit_iff bit_mask_iff nat_le_iff)
qed

text \<open>Fact: a field written with \<open>setField\<close> is read back by \<open>getField\<close>, cut to its width.\<close>

theorem getField_setField_same:
  assumes "0 \<le> lo" and "lo \<le> hi"
  shows "getField (setField w hi lo v) hi lo = take_bit (nat (hi - lo + 1)) v"
  by (rule bit_eqI) (use assms in \<open>auto simp: getField_bit setField_bit bit_take_bit_iff nat_less_iff nat_add_distrib\<close>)

text \<open>Fact: writing a field leaves every field that does not overlap it unchanged.\<close>

theorem getField_setField_other:
  assumes "0 \<le> lo" and "lo \<le> hi" and "0 \<le> lo'" and "lo' \<le> hi'" and "hi < lo' \<or> hi' < lo"
  shows "getField (setField w hi lo v) hi' lo' = getField w hi' lo'"
  by (rule bit_eqI) (use assms in \<open>auto simp: getField_bit setField_bit\<close>)

section \<open>Big-endian words\<close>

definition writeBigEndian32 :: "bytes \<Rightarrow> nat \<Rightarrow> int \<Rightarrow> bytes" where
  "writeBigEndian32 out offset value =
     fst (fold (\<lambda>b (out, v). (out[offset + b := word_of_int (v AND 0xff)], drop_bit 8 v))
       (rev [0..<32]) (out, take_bit 256 value))"

definition readBigEndian32 :: "bytes \<Rightarrow> nat \<Rightarrow> int" where
  "readBigEndian32 bs offset =
     foldl (\<lambda>result b. push_bit 8 result OR uint (at_or 0 bs (offset + b))) 0 [0..<32]"

text \<open>The reference: n big-endian bytes of a number, and the number of a byte string.\<close>

definition be_bytes :: "nat \<Rightarrow> int \<Rightarrow> bytes" where
  "be_bytes n v = map (\<lambda>k. word_of_int (drop_bit (8 * (n - 1 - k)) v)) [0..<n]"

definition be_val :: "bytes \<Rightarrow> int" where
  "be_val bs = foldl (\<lambda>r b. push_bit 8 r OR uint b) 0 bs"

lemma length_be_bytes [simp]: "length (be_bytes n v) = n"
  by (simp add: be_bytes_def)

lemma be_bytes_0 [simp]: "be_bytes 0 v = []"
  by (simp add: be_bytes_def)

lemma be_bytes_Suc: "be_bytes (Suc n) v = be_bytes n (drop_bit 8 v) @ [word_of_int v]"
  by (auto simp: be_bytes_def drop_bit_drop_bit intro!: arg_cong [where f = word_of_int] arg_cong2 [where f = drop_bit])

lemma be_val_Nil [simp]: "be_val [] = 0"
  by (simp add: be_val_def)

lemma be_val_snoc: "be_val (bs @ [b]) = push_bit 8 (be_val bs) OR uint b"
  by (simp add: be_val_def)

lemma bit_uint_byte: "bit (uint (b :: byte)) k \<Longrightarrow> k < 8"
  using bit_imp_le_length [of b k] by (simp add: bit_uint_iff)

lemma be_val_be_bytes: "be_val (be_bytes n v) = take_bit (8 * n) v"
proof (induction n arbitrary: v)
  case (Suc n)
  have "uint (word_of_int v :: byte) = take_bit 8 v" by (simp add: uint_word_of_int_eq)
  with Suc show ?case
    by (simp add: be_bytes_Suc be_val_snoc)
      (rule bit_eqI, auto simp: bit_or_iff bit_push_bit_iff bit_take_bit_iff bit_drop_bit_eq)
qed simp

lemma be_bytes_be_val: "length bs = n \<Longrightarrow> be_bytes n (be_val bs) = bs"
proof (induction n arbitrary: bs)
  case (Suc n)
  then obtain b as where bs: "bs = as @ [b]" "length as = n" by (cases bs rule: rev_cases) auto
  have "drop_bit 8 (be_val bs) = be_val as"
    by (rule bit_eqI) (auto simp: bs be_val_snoc bit_drop_bit_eq bit_or_iff bit_push_bit_iff dest: bit_uint_byte)
  moreover have "(word_of_int (be_val bs) :: byte) = b"
    by (rule bit_word_eqI) (auto simp: bs be_val_snoc bit_simps)
  ultimately show ?case using Suc.IH [OF bs(2)] by (simp add: be_bytes_Suc bs)
qed simp

lemma be_val_bounds: "0 \<le> be_val bs \<and> be_val bs < 2 ^ (8 * length bs)"
proof -
  have "be_val bs = take_bit (8 * length bs) (be_val bs)"
    using be_val_be_bytes [of "length bs" "be_val bs"] be_bytes_be_val [of bs] by simp
  then show ?thesis by (metis take_bit_int_less_exp take_bit_nonnegative)
qed

lemma write_loop:
  assumes "offset + n \<le> length out"
  shows "fst (fold (\<lambda>b (out, v). (out[offset + b := word_of_int (v AND 0xff)], drop_bit 8 v)) (rev [0..<n]) (out, v)) =
    take offset out @ be_bytes n v @ drop (offset + n) out"
  using assms
proof (induction n arbitrary: out v)
  case (Suc n)
  have "(word_of_int (v AND 0xff) :: byte) = word_of_int v"
    by (rule bit_word_eqI) (auto simp: bit_simps bit_and_iff simp flip: mask_eq_exp_minus_1,
      auto simp: bit_iff_odd_drop_bit less_Suc_eq numeral_eq_Suc)
  moreover have "drop (offset + n) (out[offset + n := x]) = x # drop (offset + Suc n) out" for x :: byte
    using Suc.prems by (simp add: drop_update_swap Cons_nth_drop_Suc [symmetric])
  ultimately show ?case using Suc by (simp add: be_bytes_Suc)
qed simp

lemma writeBigEndian32_eq:
  "offset + 32 \<le> length out \<Longrightarrow>
   writeBigEndian32 out offset v = take offset out @ be_bytes 32 (take_bit 256 v) @ drop (offset + 32) out"
  unfolding writeBigEndian32_def by (rule write_loop)

lemma be_bytes_take_bit: "8 * n \<le> m \<Longrightarrow> be_bytes n (take_bit m v) = be_bytes n v"
  using be_bytes_be_val [of "be_bytes n v" n] be_bytes_be_val [of "be_bytes n (take_bit m v)" n]
  by (simp add: be_val_be_bytes min_def)

lemma readBigEndian32_eq:
  "offset + 32 \<le> length bs \<Longrightarrow> readBigEndian32 bs offset = be_val (take 32 (drop offset bs))"
proof -
  assume l: "offset + 32 \<le> length bs"
  have "take 32 (drop offset bs) = map (\<lambda>b. at_or 0 bs (offset + b)) [0..<32]"
    using l by (intro nth_equalityI) auto
  then show ?thesis by (simp add: readBigEndian32_def be_val_def foldl_map)
qed

lemma length_writeBigEndian32 [simp]: "length (writeBigEndian32 out offset v) = length out"
proof -
  have "length (fst (fold (\<lambda>b (out, v). (out[offset + b := word_of_int (v AND 0xff) :: byte], drop_bit 8 v)) bs (out, v))) = length out"
    for bs v by (induction bs arbitrary: out v) auto
  then show ?thesis by (simp add: writeBigEndian32_def)
qed

lemma read_written_word:
  "offset + 32 \<le> length out \<Longrightarrow> readBigEndian32 (writeBigEndian32 out offset v) offset = take_bit 256 v"
  by (subst readBigEndian32_eq) (simp_all add: writeBigEndian32_eq be_val_be_bytes be_bytes_take_bit)

text \<open>Fact: a word written at an offset of a buffer is read back as its value modulo 2^256,
  and the bytes around the 32 written ones are unchanged.\<close>

theorem readBigEndian32_write:
  assumes "offset + 32 \<le> length out"
  shows "readBigEndian32 (writeBigEndian32 out offset v) offset = take_bit 256 v \<and>
    take offset (writeBigEndian32 out offset v) = take offset out \<and>
    drop (offset + 32) (writeBigEndian32 out offset v) = drop (offset + 32) out"
  using assms by (simp add: read_written_word) (simp add: writeBigEndian32_eq)

theorem readBigEndian32_write_witness:
  "readBigEndian32 (writeBigEndian32 (replicate 40 7) 4 (2 ^ 256 + 5)) 4 = 5"
  using readBigEndian32_write [of 4 "replicate 40 7" "2 ^ 256 + 5"]
  by (simp add: take_bit_eq_mod)

section \<open>The packed state\<close>

definition PACKED_SIZE :: nat where
  "PACKED_SIZE = 32768"

definition pack :: "cortex_state \<Rightarrow> js_error + bytes" where
  "pack state =
     (if length (words state) \<noteq> WORD_COUNT then Inl (TypeError ''pack: expected 1024 words'')
      else Inr (foldl (\<lambda>out i. writeBigEndian32 out (i * 32) (at_or 0 (words state) i))
        (replicate PACKED_SIZE 0) [0..<WORD_COUNT]))"

definition unpack :: "bytes \<Rightarrow> js_error + cortex_state" where
  "unpack bs =
     (if length bs \<noteq> PACKED_SIZE then Inl (RangeError ''unpack: expected 32768 bytes'')
      else Inr \<lparr> words = map (\<lambda>i. readBigEndian32 bs (i * 32)) [0..<WORD_COUNT] \<rparr>)"

text \<open>The reference: the concatenation of the big-endian words.\<close>

definition packed :: "int list \<Rightarrow> bytes" where
  "packed ws = concat (map (be_bytes 32) ws)"

lemma length_packed [simp]: "length (packed ws) = 32 * length ws"
  by (induction ws) (simp_all add: packed_def)

lemma slice_packed: "i < length ws \<Longrightarrow> take 32 (drop (i * 32) (packed ws)) = be_bytes 32 (ws ! i)"
proof (induction ws arbitrary: i)
  case (Cons w ws)
  then show ?case by (cases i) (simp_all add: packed_def)
qed simp

lemma pack_loop:
  assumes "32 * n \<le> m"
  shows "foldl (\<lambda>out i. writeBigEndian32 out (i * 32) (f i)) (replicate m 0) [0..<n] =
    packed (map f [0..<n]) @ replicate (m - 32 * n) 0"
  using assms
proof (induction n)
  case (Suc n)
  then show ?case
    by (simp add: writeBigEndian32_eq be_bytes_take_bit mult.commute) (simp add: packed_def)
qed (simp add: packed_def)

lemma pack_eq:
  assumes "length (words s) = 1024"
  shows "pack s = Inr (packed (words s))"
proof -
  have "map (at_or 0 (words s)) [0..<1024] = words s"
    using map_at_or_upt [of 0 "words s"] assms by simp
  then show ?thesis using assms by (simp add: pack_def WORD_COUNT_def PACKED_SIZE_def pack_loop)
qed

lemma unpack_wf:
  assumes "unpack bs = Inr s"
  shows "wf_state s"
proof -
  have "uint256 (readBigEndian32 bs (i * 32))" if "i < 1024" for i
  proof -
    have "i * 32 + 32 \<le> length bs" using that assms by (auto simp: unpack_def PACKED_SIZE_def split: if_splits)
    then have "readBigEndian32 bs (i * 32) = be_val (take 32 (drop (i * 32) bs))" and
      "length (take 32 (drop (i * 32) bs)) = 32" by (auto simp: readBigEndian32_eq)
    with be_val_bounds [of "take 32 (drop (i * 32) bs)"] show ?thesis by (simp add: uint256_def)
  qed
  with assms show ?thesis
    by (auto simp: unpack_def wf_state_def list_all_iff WORD_COUNT_def split: if_splits)
qed

lemma unpack_pack_state:
  assumes "wf_state s" and "pack s = Inr bs"
  shows "unpack bs = Inr s"
proof -
  have l: "length (words s) = 1024" using assms(1) by (rule wf_state_length)
  then have bs: "bs = packed (words s)" using assms(2) by (simp add: pack_eq)
  have "map (\<lambda>i. readBigEndian32 bs (i * 32)) [0..<1024] = words s"
  proof (rule nth_equalityI)
    fix i assume "i < length (map (\<lambda>i. readBigEndian32 bs (i * 32)) [0..<1024])"
    then have i: "i < 1024" by simp
    then have "i * 32 + 32 \<le> length bs" by (simp add: bs l)
    then show "map (\<lambda>i. readBigEndian32 bs (i * 32)) [0..<1024] ! i = words s ! i"
      using i wf_state_word [OF assms(1) i]
      by (simp add: readBigEndian32_eq bs slice_packed l be_val_be_bytes take_bit_int_eq_self uint256_def)
  qed (simp add: l)
  moreover have "length bs = 32768" by (simp add: bs l)
  ultimately show ?thesis by (simp add: unpack_def PACKED_SIZE_def WORD_COUNT_def)
qed

lemma packed_slices:
  "length bs = 32 * n \<Longrightarrow> concat (map (\<lambda>i. take 32 (drop (i * 32) bs)) [0..<n]) = bs"
proof (induction n arbitrary: bs)
  case (Suc n)
  have "map (\<lambda>i. take 32 (drop (i * 32) bs)) [0..<Suc n] =
      take 32 bs # map (\<lambda>i. take 32 (drop (i * 32) (drop 32 bs))) [0..<n]"
    by (simp add: map_upt_Suc add.commute del: upt_Suc)
  moreover have "concat (map (\<lambda>i. take 32 (drop (i * 32) (drop 32 bs))) [0..<n]) = drop 32 bs"
    using Suc.prems by (intro Suc.IH) simp
  ultimately show ?case by (simp only: concat.simps append_take_drop_id)
qed simp

lemma pack_unpack_bytes:
  assumes "unpack bs = Inr s"
  shows "pack s = Inr bs"
proof -
  have l: "length bs = 32 * 1024" using assms by (auto simp: unpack_def PACKED_SIZE_def split: if_splits)
  have w: "words s = map (\<lambda>i. readBigEndian32 bs (i * 32)) [0..<1024]"
    using assms by (auto simp: unpack_def WORD_COUNT_def split: if_splits)
  have "be_bytes 32 (readBigEndian32 bs (i * 32)) = take 32 (drop (i * 32) bs)" if "i < 1024" for i
  proof -
    have "i * 32 + 32 \<le> length bs" using that l by simp
    then show ?thesis by (simp add: readBigEndian32_eq be_bytes_be_val)
  qed
  then have "packed (words s) = concat (map (\<lambda>i. take 32 (drop (i * 32) bs)) [0..<1024])"
    by (simp add: w packed_def) (intro arg_cong [where f = concat] map_cong, auto)
  then show ?thesis using packed_slices [OF l] by (simp add: pack_eq w)
qed

interpretation state_codec: canonical_codec pack unpack wf_state
proof unfold_locales
  show "\<exists>bs. pack s = Inr bs" if "wf_state s" for s
    using that by (simp add: pack_eq wf_state_length)
qed (fact unpack_pack_state unpack_wf pack_unpack_bytes)+

lemma pack_length: "pack s = Inr bs \<Longrightarrow> length bs = 32768"
  by (auto simp: pack_eq pack_def WORD_COUNT_def PACKED_SIZE_def pack_loop split: if_splits)

text \<open>Fact: packing a well-formed state never throws, and unpacking the bytes gives the state.\<close>

theorem unpack_pack:
  assumes "wf_state s"
  shows "\<exists>bs. pack s = Inr bs \<and> length bs = 32768 \<and> unpack bs = Inr s"
  using state_codec.round_trip [OF assms] pack_length by blast

definition zero_state :: cortex_state where
  "zero_state = \<lparr> words = replicate 1024 0 \<rparr>"

lemma wf_zero_state: "wf_state zero_state"
  by (simp add: zero_state_def wf_state_def WORD_COUNT_def list_all_length uint256_def)

theorem unpack_pack_witness:
  "\<exists>bs. pack zero_state = Inr bs \<and> length bs = 32768 \<and> unpack bs = Inr zero_state"
  by (rule unpack_pack [OF wf_zero_state])

text \<open>
  Fact: packed states are canonical.  A byte string unpacks exactly when it is 32768 bytes long,
  to a well-formed state whose packing is that byte string, so no two byte strings unpack to
  the same state.
\<close>

theorem pack_unpack:
  "(length bs = 32768 \<and> (\<exists>s. unpack bs = Inr s \<and> wf_state s \<and> pack s = Inr bs)) \<or>
   (length bs \<noteq> 32768 \<and> (\<exists>e. unpack bs = Inl (RangeError e)))"
proof (cases "unpack bs")
  case (Inl e)
  then show ?thesis by (auto simp: unpack_def PACKED_SIZE_def split: if_splits)
next
  case (Inr s)
  then have "length bs = 32768" by (auto simp: unpack_def PACKED_SIZE_def split: if_splits)
  with Inr show ?thesis using state_codec.dec_ok state_codec.enc_dec by blast
qed

theorem getField_setField_same_witness:
  "getField (setField 0xABCDEF 15 8 0x177) 15 8 = 0x77"
  using getField_setField_same [of 8 15 "0xABCDEF" "0x177"] by (simp add: take_bit_eq_mod)

theorem getField_setField_other_witness:
  "getField (setField 0xABCDEF 15 8 0x177) 23 16 = getField 0xABCDEF 23 16"
  using getField_setField_other [of 8 15 16 23 "0xABCDEF" "0x177"] by simp

end
