(* ===== verification/Merkle.thy ===== *)
theory Merkle
  imports Keccak Codec
begin

text \<open>
  \<open>src/state/merkle.ts\<close>: the Merkle tree over the 1024 words, built in full and updated along
  the paths of changed words, and the hashing interface it needs.
\<close>

section \<open>The interface of the hash\<close>

text \<open>
  A tree that hashes the concatenation of two child digests needs digests of one length:
  then two different pairs of children have one parent only where the hash collides.
\<close>

locale digest_fn =
  fixes H :: "bytes \<Rightarrow> bytes"
  assumes digest_length: "length (H bs) = 32"
begin

lemma pair_cases:
  assumes "H (a @ b) = H (c @ d)" and "length a = 32" and "length c = 32"
  shows "a = c \<and> b = d \<or> a @ b \<noteq> c @ d \<and> H (a @ b) = H (c @ d)"
  using assms by auto

lemma pair_inj: "a @ b = c @ d \<Longrightarrow> a = H x \<Longrightarrow> c = H y \<Longrightarrow> H x = H y \<and> b = d"
  using digest_length [of x] digest_length [of y] by simp

end

interpretation keccak: digest_fn keccak256
  by unfold_locales simp

section \<open>Building the tree\<close>

record merkle_cache =
  mc_levels :: "bytes list list"
  mc_root :: bytes

definition leaf_hash :: "int \<Rightarrow> bytes" where
  "leaf_hash w = keccak256 (writeBigEndian32 (replicate 32 0) 0 w)"

text \<open>The \<open>while (level.length > 1)\<close> loop: the levels it pushes, and the last level.\<close>

definition next_level :: "bytes list \<Rightarrow> bytes list" where
  "next_level level = map (\<lambda>i. keccak256 (level ! (i * 2) @ level ! (i * 2 + 1))) [0..<length level div 2]"

lemma length_next_level [simp]: "length (next_level level) = length level div 2"
  by (simp add: next_level_def)

function push_levels :: "bytes list list \<Rightarrow> bytes list \<Rightarrow> bytes list list \<times> bytes list" where
  "push_levels lvls level =
     (if length level > 1
      then (let nextLevel = next_level level in push_levels (lvls @ [nextLevel]) nextLevel)
      else (lvls, level))"
  by pat_completeness auto
termination
  by (relation "measure (\<lambda>(lvls, level). length level)") auto

declare push_levels.simps [simp del]

definition buildMerkleCache :: "cortex_state \<Rightarrow> js_error + merkle_cache" where
  "buildMerkleCache state =
     (if length (words state) \<noteq> WORD_COUNT
      then Inl (TypeError ''buildMerkleCache: expected 1024 words'')
      else
        (let level = map (\<lambda>i. leaf_hash (at_or 0 (words state) i)) [0..<WORD_COUNT];
             (lvls, last) = push_levels [level] level
         in Inr \<lparr> mc_levels = lvls, mc_root = last ! 0 \<rparr>))"

definition merkleizeState :: "cortex_state \<Rightarrow> js_error + bytes" where
  "merkleizeState state = map_sum id mc_root (buildMerkleCache state)"

section \<open>Updating paths\<close>

record merkle_word_update =
  upd_index :: int
  upd_word :: int

text \<open>\<open>pairBuf.set(left, 0); pairBuf.set(right, 32); keccak256(pairBuf)\<close>: setting from
  \<open>undefined\<close> throws.  Every node is a 32-byte digest, so the buffer is left and right.\<close>

definition hash_pair :: "bytes option \<Rightarrow> bytes option \<Rightarrow> js_error + bytes" where
  "hash_pair left right =
     (case (left, right) of
        (Some l, Some r) \<Rightarrow> Inr (keccak256 (l @ r))
      | _ \<Rightarrow> Inl (TypeError ''invalid_argument''))"

definition dedup_updates :: "merkle_word_update list \<Rightarrow> js_error + (nat \<times> int) list" where
  "dedup_updates updates = fold_res (\<lambda>deduped u.
       if upd_index u < 0 \<or> upd_index u \<ge> int WORD_COUNT
       then Inl (RangeError ''updateMerkleCache: index out of range'')
       else Inr (AList.update (nat (upd_index u)) (upd_word u) deduped))
     [] updates"

definition rehash_parents :: "bytes list \<Rightarrow> bytes list \<Rightarrow> nat list \<Rightarrow> js_error + bytes list" where
  "rehash_parents currentLevel nextLevel parents = fold_res (\<lambda>nextLevel parentIndex.
       bind_res (hash_pair (elem_at currentLevel (parentIndex * 2)) (elem_at currentLevel (parentIndex * 2 + 1)))
         (\<lambda>h. Inr (array_set [] nextLevel parentIndex h)))
     nextLevel parents"

definition update_depth :: "bytes list list \<times> nat list \<Rightarrow> nat \<Rightarrow> js_error + bytes list list \<times> nat list" where
  "update_depth = (\<lambda>(lvls, dirty) depth.
     let parents = foldl (\<lambda>ps childIndex. set_add ps (childIndex div 2)) [] dirty in
     bind_res (rehash_parents (lvls ! depth) (lvls ! (depth + 1)) parents)
       (\<lambda>nextLevel. Inr (lvls[depth + 1 := nextLevel], parents)))"

definition updateMerkleCache :: "merkle_cache \<Rightarrow> merkle_word_update list \<Rightarrow> js_error + merkle_cache" where
  "updateMerkleCache cache updates =
     (if length (mc_levels cache) \<noteq> 11 \<or> length (mc_levels cache ! 0) \<noteq> WORD_COUNT
      then Inl (TypeError ''updateMerkleCache: invalid cache shape'')
      else if updates = [] then Inr cache
      else bind_res (dedup_updates updates) (\<lambda>deduped.
        let (leaves, dirty) = foldl (\<lambda>(lvl, dirty) (i, w). (lvl[i := leaf_hash w], set_add dirty i))
              (mc_levels cache ! 0, []) deduped
        in bind_res (fold_res update_depth ((mc_levels cache)[0 := leaves], dirty) [0..<length (mc_levels cache) - 1])
          (\<lambda>(lvls, _). Inr \<lparr> mc_levels = lvls, mc_root = (lvls ! (length lvls - 1)) ! 0 \<rparr>)))"

section \<open>The tree of a list of words\<close>

text \<open>Level d of the tree over a list of words, and the whole cache of 11 levels.\<close>

definition leaf_level :: "int list \<Rightarrow> bytes list" where
  "leaf_level ws = map leaf_hash ws"

definition tree_level :: "int list \<Rightarrow> nat \<Rightarrow> bytes list" where
  "tree_level ws d = (next_level ^^ d) (leaf_level ws)"

definition tree_of :: "int list \<Rightarrow> merkle_cache" where
  "tree_of ws = \<lparr> mc_levels = map (tree_level ws) [0..<11], mc_root = tree_level ws 10 ! 0 \<rparr>"

lemma tree_level_Suc: "tree_level ws (Suc d) = next_level (tree_level ws d)"
  by (simp add: tree_level_def)

lemma tree_level_0: "tree_level ws 0 = leaf_level ws"
  by (simp add: tree_level_def)

lemma length_tree_level: "length ws = 1024 \<Longrightarrow> d \<le> 10 \<Longrightarrow> length (tree_level ws d) = 2 ^ (10 - d)"
proof (induction d)
  case (Suc d)
  then have "10 - d = Suc (10 - Suc d)" by simp
  with Suc show ?case by (simp add: tree_level_Suc del: diff_Suc_Suc)
qed (simp add: tree_level_0 leaf_level_def)

lemma nth_next_level:
  "i < length level div 2 \<Longrightarrow> next_level level ! i = keccak256 (level ! (i * 2) @ level ! (i * 2 + 1))"
  by (simp add: next_level_def)

lemma push_levels_tree:
  assumes "length ws = 1024" and "d \<le> 10"
  shows "push_levels lvls (tree_level ws d) = (lvls @ map (tree_level ws) [Suc d..<11], tree_level ws 10)"
  using assms(2)
proof (induction "10 - d" arbitrary: d lvls)
  case 0
  then have "d = 10" by simp
  then show ?case using length_tree_level [OF assms(1), of 10]
    by (simp add: push_levels.simps [of lvls "tree_level ws 10"])
next
  case (Suc k)
  then have d: "d < 10" "k = 10 - Suc d" by simp_all
  then have "1 < length (tree_level ws d)"
    using length_tree_level [OF assms(1), of d] one_less_power [of "2 :: nat" "10 - d"] by simp
  moreover have "[Suc d..<11] = Suc d # [Suc (Suc d)..<11]" using d by (simp add: upt_conv_Cons)
  ultimately show ?case
    using Suc.hyps(1) [OF d(2), of "lvls @ [tree_level ws (Suc d)]"] d
    by (simp add: push_levels.simps [of lvls] Let_def tree_level_Suc)
qed

lemma buildMerkleCache_tree:
  assumes "length (words s) = 1024"
  shows "buildMerkleCache s = Inr (tree_of (words s))"
proof -
  have "map (\<lambda>i. leaf_hash (at_or 0 (words s) i)) [0..<1024] = tree_level (words s) 0"
    unfolding tree_level_0 leaf_level_def by (rule nth_equalityI) (simp_all add: assms)
  moreover have "[0..<11] = 0 # [Suc 0..<11]" by (simp add: upt_conv_Cons)
  ultimately show ?thesis
    using push_levels_tree [OF assms, of 0 "[tree_level (words s) 0]"] assms
    by (simp add: buildMerkleCache_def WORD_COUNT_def tree_of_def)
qed

lemma merkleizeState_tree:
  "length (words s) = 1024 \<Longrightarrow> merkleizeState s = Inr (tree_level (words s) 10 ! 0)"
  by (simp add: merkleizeState_def buildMerkleCache_tree tree_of_def)

section \<open>An update is a rebuild\<close>

definition apply_updates :: "int list \<Rightarrow> merkle_word_update list \<Rightarrow> int list" where
  "apply_updates ws updates = foldl (\<lambda>ws u. ws[nat (upd_index u) := upd_word u]) ws updates"

definition in_range :: "merkle_word_update \<Rightarrow> bool" where
  "in_range u \<longleftrightarrow> 0 \<le> upd_index u \<and> upd_index u < 1024"

lemma length_apply_updates [simp]: "length (apply_updates ws us) = length ws"
  unfolding apply_updates_def by (induction us arbitrary: ws) auto

lemma dedup_updates_Inr:
  assumes "list_all in_range us"
  shows "\<exists>al. dedup_updates us = Inr al \<and> distinct (map fst al) \<and> (\<forall>i \<in> fst ` set al. i < 1024) \<and>
    (\<forall>i<length ws. apply_updates ws us ! i = (case map_of al i of None \<Rightarrow> ws ! i | Some w \<Rightarrow> w))"
  using assms
proof (induction us rule: rev_induct)
  case (snoc u us)
  then obtain al where al: "dedup_updates us = Inr al" "distinct (map fst al)" "\<forall>i \<in> fst ` set al. i < 1024"
    "\<forall>i<length ws. apply_updates ws us ! i = (case map_of al i of None \<Rightarrow> ws ! i | Some w \<Rightarrow> w)"
    by auto
  have u: "in_range u" using snoc.prems by simp
  then have "dedup_updates (us @ [u]) = Inr (AList.update (nat (upd_index u)) (upd_word u) al)"
    using al(1) by (simp add: dedup_updates_def fold_res_append in_range_def WORD_COUNT_def)
  moreover have "apply_updates ws (us @ [u]) = (apply_updates ws us)[nat (upd_index u) := upd_word u]"
    by (simp add: apply_updates_def)
  moreover have "\<forall>i \<in> fst ` set (AList.update (nat (upd_index u)) (upd_word u) al). i < 1024"
    unfolding dom_update using al(3) u by (auto simp: in_range_def)
  ultimately show ?case using al u
    by (simp add: distinct_update update_conv nth_list_update in_range_def nat_less_iff)
qed (simp add: dedup_updates_def apply_updates_def)

lemma nth_foldl_list_update:
  "distinct (map fst al) \<Longrightarrow> i < length xs \<Longrightarrow>
   foldl (\<lambda>xs (i, w). xs[i := w]) xs al ! i = (case map_of al i of None \<Rightarrow> xs ! i | Some w \<Rightarrow> w)"
proof (induction al arbitrary: xs)
  case (Cons p al)
  obtain a w where p: "p = (a, w)" by fastforce
  with Cons.prems have "map_of al a = None" by (simp add: map_of_eq_None_iff)
  with Cons p show ?case by (cases "i = a") (simp_all split: option.split)
qed simp

lemma length_foldl_list_update [simp]: "length (foldl (\<lambda>xs (i, w). xs[i := w]) xs al) = length xs"
  by (induction al arbitrary: xs) auto

lemma leaf_updates:
  "foldl (\<lambda>(lvl, dirty) (i, w). (lvl[i := leaf_hash w], set_add dirty i)) (leaf_level ws, ds) al =
   (leaf_level (foldl (\<lambda>xs (i, w). xs[i := w]) ws al), foldl set_add ds (map fst al))"
  by (induction al arbitrary: ws ds) (auto simp: leaf_level_def map_update [symmetric])

lemma nth_foldl_update:
  "list_all (\<lambda>p. p < length xs) ps \<Longrightarrow> j < length xs \<Longrightarrow>
   foldl (\<lambda>l p. l[p := f p]) xs ps ! j = (if j \<in> set ps then f j else xs ! j)"
proof (induction ps arbitrary: xs)
  case (Cons p ps)
  then have "foldl (\<lambda>l p. l[p := f p]) (xs[p := f p]) ps ! j = (if j \<in> set ps then f j else xs[p := f p] ! j)"
    by simp
  then show ?case using Cons.prems by (auto simp: nth_list_update)
qed simp

lemma length_foldl_update [simp]: "length (foldl (\<lambda>l p. l[p := f p]) xs ps) = length xs"
  by (induction ps arbitrary: xs) auto

lemma rehash_parents_Inr:
  assumes "list_all (\<lambda>p. p * 2 + 1 < length cur \<and> p < length nxt) ps"
  shows "rehash_parents cur nxt ps =
    Inr (foldl (\<lambda>l p. l[p := keccak256 (cur ! (p * 2) @ cur ! (p * 2 + 1))]) nxt ps)"
proof -
  have "fold_res (\<lambda>nextLevel parentIndex.
       bind_res (hash_pair (elem_at cur (parentIndex * 2)) (elem_at cur (parentIndex * 2 + 1)))
         (\<lambda>h. Inr (array_set [] nextLevel parentIndex h))) nxt ps =
     Inr (foldl (\<lambda>l p. l[p := keccak256 (cur ! (p * 2) @ cur ! (p * 2 + 1))]) nxt ps) \<and>
     length (foldl (\<lambda>l p. l[p := keccak256 (cur ! (p * 2) @ cur ! (p * 2 + 1))]) nxt ps) = length nxt"
    by (rule fold_res_foldl [where P = "\<lambda>l. length l = length nxt"])
      (use assms in \<open>auto simp: list_all_iff hash_pair_def\<close>)
  then show ?thesis by (simp add: rehash_parents_def)
qed

text \<open>The levels up to d belong to the new words, the others to the old ones, and the dirty
  set holds every index at which level d changed.\<close>

definition path_inv :: "int list \<Rightarrow> int list \<Rightarrow> nat \<Rightarrow> bytes list list \<times> nat list \<Rightarrow> bool" where
  "path_inv ws ws' d s \<longleftrightarrow> length (fst s) = 11 \<and>
     (\<forall>e<11. fst s ! e = tree_level (if e \<le> d then ws' else ws) e) \<and>
     (\<forall>i<2 ^ (10 - d). i \<notin> set (snd s) \<longrightarrow> tree_level ws' d ! i = tree_level ws d ! i) \<and>
     (\<forall>i \<in> set (snd s). i < 2 ^ (10 - d))"

lemma set_parents: "set (foldl (\<lambda>ps c. set_add ps (c div 2)) qs ds) = set qs \<union> (\<lambda>c. c div 2) ` set ds"
  by (induction ds arbitrary: qs) auto

lemma path_step:
  assumes l: "length ws = 1024" "length ws' = 1024" and d: "d < 10" and inv: "path_inv ws ws' d s"
  shows "\<exists>s'. update_depth s d = Inr s' \<and> path_inv ws ws' (Suc d) s'"
proof -
  obtain lvls dirty where s: "s = (lvls, dirty)" by fastforce
  define ps where "ps = foldl (\<lambda>ps c. set_add ps (c div 2)) [] dirty"
  have ps: "set ps = (\<lambda>c. c div 2) ` set dirty" by (simp add: ps_def set_parents)
  have p2: "(2 :: nat) ^ (10 - d) = 2 * 2 ^ (10 - Suc d)"
  proof -
    have "10 - d = Suc (10 - Suc d)" using d by simp
    then show ?thesis by (simp only: power_Suc)
  qed
  have lvl: "lvls ! e = tree_level (if e \<le> d then ws' else ws) e" if "e < 11" for e
    using inv that by (simp add: path_inv_def s)
  have len: "length (tree_level ws e) = 2 ^ (10 - e)" "length (tree_level ws' e) = 2 ^ (10 - e)" if "e \<le> 10" for e
    using l length_tree_level that by simp_all
  let ?cur = "tree_level ws' d" and ?nxt = "tree_level ws (Suc d)"
  have small: "p < 2 ^ (10 - Suc d)" if "p \<in> set ps" for p
    using that inv p2 by (auto simp: ps path_inv_def s)
  have small2: "p * 2 + 1 < 2 ^ (10 - d)" if "p \<in> set ps" for p
    using small [OF that] p2 by linarith
  have r: "rehash_parents ?cur ?nxt ps =
      Inr (foldl (\<lambda>l p. l[p := keccak256 (?cur ! (p * 2) @ ?cur ! (p * 2 + 1))]) ?nxt ps)"
    using d small small2 by (intro rehash_parents_Inr) (auto simp: list_all_iff len)
  have new: "foldl (\<lambda>l p. l[p := keccak256 (?cur ! (p * 2) @ ?cur ! (p * 2 + 1))]) ?nxt ps = tree_level ws' (Suc d)"
    (is "?l = _")
  proof (rule nth_equalityI)
    show "length ?l = length (tree_level ws' (Suc d))" using d by (simp add: len)
  next
    fix i assume "i < length ?l"
    then have i: "i < 2 ^ (10 - Suc d)" using d by (simp add: len)
    have nx: "tree_level vs (Suc d) ! i = keccak256 (tree_level vs d ! (i * 2) @ tree_level vs d ! (i * 2 + 1))"
      if "length vs = 1024" for vs
      using that i d p2 by (simp add: tree_level_Suc nth_next_level length_tree_level)
    have "?l ! i = (if i \<in> set ps then keccak256 (?cur ! (i * 2) @ ?cur ! (i * 2 + 1)) else ?nxt ! i)"
      using small d i by (intro nth_foldl_update) (auto simp: list_all_iff len)
    moreover have "?nxt ! i = tree_level ws' (Suc d) ! i" if "i \<notin> set ps"
    proof -
      from that have "i * 2 \<notin> set dirty" "i * 2 + 1 \<notin> set dirty" by (force simp: ps)+
      with inv i p2 have "tree_level ws' d ! (i * 2) = tree_level ws d ! (i * 2)"
        "tree_level ws' d ! (i * 2 + 1) = tree_level ws d ! (i * 2 + 1)"
        by (auto simp: path_inv_def s)
      then show ?thesis by (simp add: nx l)
    qed
    ultimately show "?l ! i = tree_level ws' (Suc d) ! i" by (simp add: nx l)
  qed
  have "update_depth s d = Inr (lvls[Suc d := tree_level ws' (Suc d)], ps)"
    using r d lvl [of d] lvl [of "Suc d"] new by (simp add: update_depth_def s ps_def [symmetric] Let_def)
  moreover have "path_inv ws ws' (Suc d) (lvls[Suc d := tree_level ws' (Suc d)], ps)"
  proof -
    have "tree_level ws' (Suc d) ! i = ?nxt ! i" if "i < 2 ^ (10 - Suc d)" "i \<notin> set ps" for i
      using arg_cong [where f = "\<lambda>xs. xs ! i", OF new] nth_foldl_update [of ?nxt ps i] that small d
      by (auto simp: list_all_iff len)
    with small inv lvl d show ?thesis by (auto simp: path_inv_def s nth_list_update le_Suc_eq)
  qed
  ultimately show ?thesis by blast
qed

lemma path_loop:
  assumes "length ws = 1024" "length ws' = 1024" and "path_inv ws ws' 0 s" and "n \<le> 10"
  shows "\<exists>s'. fold_res update_depth s [0..<n] = Inr s' \<and> path_inv ws ws' n s'"
  using assms(4)
proof (induction n)
  case (Suc n)
  then obtain s' where "fold_res update_depth s [0..<n] = Inr s'" "path_inv ws ws' n s'" by auto
  with path_step [OF assms(1,2), of n s'] Suc.prems show ?case by (simp add: fold_res_append)
qed (simp add: assms(3))

lemma path_inv_end: "path_inv ws ws' 10 s \<Longrightarrow> fst s = map (tree_level ws') [0..<11]"
  by (rule nth_equalityI) (auto simp: path_inv_def)

lemma updateMerkleCache_tree:
  assumes l: "length ws = 1024" and us: "list_all in_range us"
  shows "updateMerkleCache (tree_of ws) us = Inr (tree_of (apply_updates ws us))"
proof (cases "us = []")
  case True
  then show ?thesis by (simp add: updateMerkleCache_def tree_of_def tree_level_0 leaf_level_def l WORD_COUNT_def apply_updates_def)
next
  case False
  obtain al where al: "dedup_updates us = Inr al" "distinct (map fst al)" "\<forall>i \<in> fst ` set al. i < 1024"
    and nth: "\<forall>i<length ws. apply_updates ws us ! i = (case map_of al i of None \<Rightarrow> ws ! i | Some w \<Rightarrow> w)"
    using dedup_updates_Inr [OF us, of ws] by blast
  let ?ws' = "apply_updates ws us"
  have ws': "foldl (\<lambda>xs (i, w). xs[i := w]) ws al = ?ws'"
    by (rule nth_equalityI) (use al(2) nth in \<open>simp_all add: nth_foldl_list_update\<close>)
  have z: "mc_levels (tree_of ws) ! 0 = leaf_level ws" by (simp add: tree_of_def tree_level_0)
  let ?s = "((mc_levels (tree_of ws))[0 := leaf_level ?ws'], foldl set_add [] (map fst al))"
  have "path_inv ws ?ws' 0 ?s"
  proof -
    have "leaf_level ?ws' ! i = leaf_level ws ! i" if "i < 1024" "i \<notin> fst ` set al" for i
    proof -
      have "map_of al i = None" using that(2) by (simp add: map_of_eq_None_iff)
      with nth that(1) l have "?ws' ! i = ws ! i" by simp
      with that(1) l show ?thesis by (simp add: leaf_level_def)
    qed
    with al(3) show ?thesis by (auto simp: path_inv_def tree_of_def nth_list_update tree_level_0 l)
  qed
  from path_loop [OF l _ this, of 10] obtain s' where s': "fold_res update_depth ?s [0..<10] = Inr s'" "path_inv ws ?ws' 10 s'"
    by (auto simp: l)
  obtain lvls dd where s: "s' = (lvls, dd)" by fastforce
  then have lv: "lvls = map (tree_level ?ws') [0..<11]" using path_inv_end [OF s'(2)] by simp
  have t: "length (mc_levels (tree_of ws)) = 11" by (simp add: tree_of_def)
  have lr: "\<lparr> mc_levels = lvls, mc_root = (lvls ! (length lvls - Suc 0)) ! 0 \<rparr> = tree_of ?ws'"
    by (simp add: lv tree_of_def)
  have "length (leaf_level ws) = WORD_COUNT" by (simp add: leaf_level_def l WORD_COUNT_def)
  then show ?thesis using False
    by (simp add: updateMerkleCache_def t z al(1) leaf_updates ws' s' s lr)
qed

text \<open>
  C30: updating the cached tree of a state with word updates recomputes only the paths of the
  changed words, and gives the cache that building the tree of the updated state gives.
\<close>

theorem updateMerkleCache_rebuild:
  assumes "buildMerkleCache s = Inr c" and "list_all in_range us"
  shows "updateMerkleCache c us = buildMerkleCache \<lparr> words = apply_updates (words s) us \<rparr>"
proof -
  have l: "length (words s) = 1024" using assms(1) by (auto simp: buildMerkleCache_def WORD_COUNT_def split: if_splits)
  then have "c = tree_of (words s)" using assms(1) by (simp add: buildMerkleCache_tree)
  then show ?thesis using updateMerkleCache_tree [OF l assms(2)] by (simp add: buildMerkleCache_tree l)
qed

theorem updateMerkleCache_rebuild_witness:
  "updateMerkleCache (tree_of (replicate 1024 0)) [\<lparr> upd_index = 3, upd_word = 7 \<rparr>, \<lparr> upd_index = 3, upd_word = 9 \<rparr>] =
   buildMerkleCache \<lparr> words = (replicate 1024 0)[3 := 9] \<rparr>"
  using updateMerkleCache_rebuild [of zero_state "tree_of (replicate 1024 0)" "[\<lparr> upd_index = 3, upd_word = 7 \<rparr>, \<lparr> upd_index = 3, upd_word = 9 \<rparr>]"]
  by (simp add: buildMerkleCache_tree zero_state_def in_range_def apply_updates_def)

section \<open>Binding\<close>

text \<open>What is hashed for node i of level d.\<close>

definition hash_input :: "int list \<Rightarrow> nat \<Rightarrow> nat \<Rightarrow> bytes" where
  "hash_input ws d i =
     (if d = 0 then writeBigEndian32 (replicate 32 0) 0 (ws ! i)
      else tree_level ws (d - 1) ! (i * 2) @ tree_level ws (d - 1) ! (i * 2 + 1))"

definition collide_at :: "int list \<Rightarrow> int list \<Rightarrow> nat \<Rightarrow> nat \<Rightarrow> bool" where
  "collide_at ws vs d i \<longleftrightarrow>
     hash_input ws d i \<noteq> hash_input vs d i \<and> keccak256 (hash_input ws d i) = keccak256 (hash_input vs d i)"

lemma half_level: "d < 10 \<Longrightarrow> (2 :: nat) ^ (10 - d) = 2 * 2 ^ (10 - Suc d)"
proof -
  assume "d < 10"
  then have "10 - d = Suc (10 - Suc d)" by simp
  then show ?thesis by (simp only: power_Suc)
qed

lemma tree_level_hash:
  assumes "length ws = 1024" and "d \<le> 10" and "i < 2 ^ (10 - d)"
  shows "tree_level ws d ! i = keccak256 (hash_input ws d i)"
proof (cases d)
  case 0
  with assms show ?thesis by (simp add: tree_level_0 leaf_level_def leaf_hash_def hash_input_def)
next
  case (Suc e)
  then have "i < length (tree_level ws e) div 2"
    using assms half_level [of e] by (simp add: length_tree_level)
  then show ?thesis by (simp add: Suc tree_level_Suc nth_next_level hash_input_def)
qed

lemma length_node: "length ws = 1024 \<Longrightarrow> d \<le> 10 \<Longrightarrow> i < 2 ^ (10 - d) \<Longrightarrow> length (tree_level ws d ! i) = 32"
  by (simp add: tree_level_hash)

lemma level_down:
  assumes l: "length ws = 1024" "length vs = 1024" and d: "d < 10"
    and eq: "tree_level ws (Suc d) = tree_level vs (Suc d)"
    and nc: "\<And>i. i < 2 ^ (10 - Suc d) \<Longrightarrow> \<not> collide_at ws vs (Suc d) i"
  shows "tree_level ws d = tree_level vs d"
proof (rule nth_equalityI)
  show "length (tree_level ws d) = length (tree_level vs d)" using l d by (simp add: length_tree_level)
next
  fix j assume "j < length (tree_level ws d)"
  then have j: "j < 2 * 2 ^ (10 - Suc d)" using l d by (simp add: length_tree_level half_level)
  define i where "i = j div 2"
  have i: "i < 2 ^ (10 - Suc d)" using j by (simp add: i_def)
  have ch: "i * 2 < 2 ^ (10 - d)" using i half_level [OF d] by linarith
  have "keccak256 (hash_input ws (Suc d) i) = keccak256 (hash_input vs (Suc d) i)"
    using tree_level_hash [OF l(1) _ i] tree_level_hash [OF l(2) _ i] d eq by simp
  with nc [OF i] have "tree_level ws d ! (i * 2) @ tree_level ws d ! (i * 2 + 1) =
      tree_level vs d ! (i * 2) @ tree_level vs d ! (i * 2 + 1)"
    by (auto simp: collide_at_def hash_input_def)
  moreover have "length (tree_level ws d ! (i * 2)) = length (tree_level vs d ! (i * 2))"
    using length_node [OF l(1) _ ch] length_node [OF l(2) _ ch] d by simp
  ultimately have "tree_level ws d ! (i * 2) = tree_level vs d ! (i * 2)"
    "tree_level ws d ! (i * 2 + 1) = tree_level vs d ! (i * 2 + 1)" by simp_all
  moreover have "j = i * 2 \<or> j = i * 2 + 1" by (auto simp: i_def)
  ultimately show "tree_level ws d ! j = tree_level vs d ! j" by auto
qed

lemma levels_equal:
  assumes l: "length ws = 1024" "length vs = 1024"
    and top: "tree_level ws 10 ! 0 = tree_level vs 10 ! 0"
    and nc: "\<And>d i. d \<le> 10 \<Longrightarrow> i < 2 ^ (10 - d) \<Longrightarrow> \<not> collide_at ws vs d i"
  shows "tree_level ws 0 = tree_level vs 0"
proof -
  have one: "length (tree_level ws 10) = Suc 0" "length (tree_level vs 10) = Suc 0"
    using l by (simp_all add: length_tree_level)
  have "(0 :: nat) \<le> 10" by simp
  then show ?thesis
  proof (induction rule: inc_induct)
    case base
    from one top show ?case by (auto simp: length_Suc_conv)
  next
    case (step d)
    show ?case by (rule level_down [OF l step.hyps(2) step.IH]) (use step.hyps(2) in \<open>simp add: nc\<close>)
  qed
qed

text \<open>
  C38: the Merkle root binds the state.  Two well-formed states with one root are equal, or
  Keccak-256 collides on two different inputs at the same node of the two trees.
\<close>

theorem merkle_root_binding:
  assumes "wf_state s" and "wf_state t" and "merkleizeState s = merkleizeState t"
  shows "s = t \<or> (\<exists>d\<le>10. \<exists>i<2 ^ (10 - d). collide_at (words s) (words t) d i)"
proof (rule disjCI)
  assume n: "\<not> (\<exists>d\<le>10. \<exists>i<2 ^ (10 - d). collide_at (words s) (words t) d i)"
  have l: "length (words s) = 1024" "length (words t) = 1024" using assms wf_state_length by auto
  have "tree_level (words s) 10 ! 0 = tree_level (words t) 10 ! 0"
    using assms(3) by (simp add: merkleizeState_tree l)
  then have z: "tree_level (words s) 0 = tree_level (words t) 0"
    using n by (intro levels_equal [OF l]) auto
  have "words s = words t"
  proof (rule nth_equalityI)
    fix i assume "i < length (words s)"
    then have i: "i < 1024" by (simp add: l)
    have "keccak256 (hash_input (words s) 0 i) = keccak256 (hash_input (words t) 0 i)"
      using z tree_level_hash [OF l(1), of 0 i] tree_level_hash [OF l(2), of 0 i] i by simp
    moreover have "\<not> collide_at (words s) (words t) 0 i" using n i by fastforce
    ultimately have "writeBigEndian32 (replicate 32 0) 0 (words s ! i) = writeBigEndian32 (replicate 32 0) 0 (words t ! i)"
      by (simp add: collide_at_def hash_input_def)
    then have "take_bit 256 (words s ! i) = take_bit 256 (words t ! i)"
      using read_written_word [of 0 "replicate 32 0" "words s ! i"]
        read_written_word [of 0 "replicate 32 0" "words t ! i"] by simp
    then show "words s ! i = words t ! i"
      using wf_state_word [OF assms(1) i] wf_state_word [OF assms(2) i] by (simp add: uint256_def take_bit_int_eq_self)
  qed (simp add: l)
  then show "s = t" by simp
qed

theorem merkle_root_binding_witness:
  "zero_state = \<lparr> words = (replicate 1024 0)[7 := 0] \<rparr> \<or>
    (\<exists>d i. collide_at (words zero_state) ((replicate 1024 0)[7 := 0]) d i)"
proof -
  have e: "\<lparr> words = (replicate 1024 0)[7 := 0] \<rparr> = zero_state"
    unfolding zero_state_def by (simp add: list_eq_iff_nth_eq nth_list_update)
  show ?thesis using merkle_root_binding [OF wf_zero_state wf_zero_state refl] by (auto simp: e)
qed

end
