(* ===== verification/Hex_Codec.thy ===== *)
theory Hex_Codec
  imports Prelude
begin

text \<open>
  \<open>bytesToHex\<close> and \<open>hexToBytes\<close> of \<open>src/state/merkle.ts\<close>.  \<open>parseInt(s, 16)\<close> is written
  out: it skips white space, reads a sign and a \<open>0x\<close> prefix, and stops at the first
  character that is no digit, so \<open>hexToBytes\<close> accepts strings that are not hexadecimal.
\<close>

definition hex_digit :: "nat \<Rightarrow> char" where
  "hex_digit n = char_of (if n < 10 then 48 + n else 87 + n)"

text \<open>\<open>b.toString(16)\<close> for a byte, and \<open>padStart(2, '0')\<close>.\<close>

definition to_string_16 :: "nat \<Rightarrow> string" where
  "to_string_16 n = (if n < 16 then [hex_digit n] else [hex_digit (n div 16), hex_digit (n mod 16)])"

definition pad_start :: "nat \<Rightarrow> char \<Rightarrow> string \<Rightarrow> string" where
  "pad_start n c s = replicate (n - length s) c @ s"

definition bytesToHex :: "bytes \<Rightarrow> string" where
  "bytesToHex bs = foldl (\<lambda>hex b. hex @ pad_start 2 CHR ''0'' (to_string_16 (unat b))) ''0x'' bs"

definition js_white :: "char \<Rightarrow> bool" where
  "js_white c = (let n = of_char c :: nat in 9 \<le> n \<and> n \<le> 13 \<or> n = 32 \<or> n = 160)"

definition hex_val :: "char \<Rightarrow> nat option" where
  "hex_val c =
     (let n = of_char c :: nat in
      if 48 \<le> n \<and> n \<le> 57 then Some (n - 48)
      else if 97 \<le> n \<and> n \<le> 102 then Some (n - 87)
      else if 65 \<le> n \<and> n \<le> 70 then Some (n - 55)
      else None)"

definition parse_int_16 :: "string \<Rightarrow> int option" where
  "parse_int_16 s =
     (let s1 = dropWhile js_white s;
          sign = (if take 1 s1 = ''-'' then - 1 else 1 :: int);
          s2 = (if take 1 s1 = ''-'' \<or> take 1 s1 = ''+'' then drop 1 s1 else s1);
          s3 = (if take 2 s2 = ''0x'' \<or> take 2 s2 = ''0X'' then drop 2 s2 else s2);
          ds = takeWhile (\<lambda>c. hex_val c \<noteq> None) s3
      in if ds = [] then None
         else Some (sign * int (foldl (\<lambda>r c. 16 * r + the (hex_val c)) 0 ds)))"

text \<open>The assignment to an entry of a \<open>Uint8Array\<close>: \<open>NaN\<close> becomes 0, an integer is reduced.\<close>

definition to_uint8 :: "int option \<Rightarrow> byte" where
  "to_uint8 v = (case v of None \<Rightarrow> 0 | Some n \<Rightarrow> word_of_int n)"

definition hexToBytes :: "string \<Rightarrow> js_error + bytes" where
  "hexToBytes hex =
     (let s = (if take 2 hex = ''0x'' then drop 2 hex else hex) in
      if length s mod 2 \<noteq> 0 then Inl (RangeError ''hexToBytes: odd-length hex string'')
      else Inr (map (\<lambda>i. to_uint8 (parse_int_16 (take 2 (drop (i * 2) s)))) [0..<length s div 2]))"

text \<open>\<open>toLowerCase\<close> on characters below 256.\<close>

definition to_lower :: "char \<Rightarrow> char" where
  "to_lower c =
     (let n = of_char c :: nat in
      if 65 \<le> n \<and> n \<le> 90 \<or> 192 \<le> n \<and> n \<le> 222 \<and> n \<noteq> 215 then char_of (n + 32) else c)"

definition toLowerCase :: "string \<Rightarrow> string" where
  "toLowerCase s = map to_lower s"

text \<open>\<open>/^0x[0-9a-fA-F]*$/\<close>\<close>

definition hex_string :: "string \<Rightarrow> bool" where
  "hex_string s \<longleftrightarrow> take 2 s = ''0x'' \<and> list_all (\<lambda>c. hex_val c \<noteq> None) (drop 2 s)"

text \<open>\<open>new TextEncoder().encode(s)\<close> on characters below 256.\<close>

definition utf8 :: "string \<Rightarrow> bytes" where
  "utf8 s = concat (map (\<lambda>c. let n = of_char c :: nat in
     if n < 128 then [of_nat n] else [of_nat (192 + n div 64), of_nat (128 + n mod 64)]) s)"

section \<open>Round trip\<close>

definition byte_hex :: "byte \<Rightarrow> string" where
  "byte_hex b = pad_start 2 CHR ''0'' (to_string_16 (unat b))"

lemma bytesToHex_eq: "bytesToHex bs = ''0x'' @ concat (map byte_hex bs)"
proof -
  have "foldl (\<lambda>hex b. hex @ pad_start 2 CHR ''0'' (to_string_16 (unat b))) s bs = s @ concat (map byte_hex bs)" for s
    by (induction bs arbitrary: s) (simp_all add: byte_hex_def)
  then show ?thesis by (simp add: bytesToHex_def)
qed

lemma length_byte_hex [simp]: "length (byte_hex b) = 2"
  by (simp add: byte_hex_def pad_start_def to_string_16_def)

lemma of_hex_digit: "n < 16 \<Longrightarrow> of_char (hex_digit n) = (if n < 10 then 48 + n else 87 + n :: nat)"
  by (simp add: hex_digit_def)

lemma hex_digit_neq: "n < 16 \<Longrightarrow> of_char c \<noteq> (if n < 10 then 48 + n else 87 + n :: nat) \<Longrightarrow> hex_digit n \<noteq> c"
  using of_hex_digit [of n] by auto

lemma hex_digit_props:
  assumes "n < 16"
  shows "\<not> js_white (hex_digit n)" and "hex_digit n \<noteq> CHR ''-''" and "hex_digit n \<noteq> CHR ''+''"
    and "hex_digit n \<noteq> CHR ''x''" and "hex_digit n \<noteq> CHR ''X''" and "hex_val (hex_digit n) = Some n"
  using assms by (simp_all add: js_white_def hex_val_def of_hex_digit Let_def hex_digit_neq)

lemma parse_two_digits:
  assumes "a < 16" and "b < 16"
  shows "parse_int_16 [hex_digit a, hex_digit b] = Some (int (16 * a + b))"
  by (simp add: parse_int_16_def hex_digit_props assms)

lemma hex_digit_0: "CHR ''0'' = hex_digit 0"
  by code_simp

lemma byte_hex_digits: "byte_hex b = [hex_digit (unat b div 16), hex_digit (unat b mod 16)]"
  by (simp add: byte_hex_def pad_start_def to_string_16_def hex_digit_0)

lemma parse_byte_hex: "parse_int_16 (byte_hex b) = Some (uint b)"
proof -
  have "unat b < 256" using unsigned_less [of b, where 'a = nat] by simp
  then have "unat b div 16 < 16" by (simp add: less_mult_imp_div_less)
  then show ?thesis by (simp add: byte_hex_digits parse_two_digits)
qed

lemma slice_hex:
  "i < length bs \<Longrightarrow> take 2 (drop (i * 2) (concat (map byte_hex bs))) = byte_hex (bs ! i)"
proof (induction bs arbitrary: i)
  case (Cons b bs)
  then show ?case by (cases i) simp_all
qed simp

lemma length_concat_hex [simp]: "length (concat (map byte_hex bs)) = 2 * length bs"
  by (induction bs) simp_all

lemma hexToBytes_bytesToHex: "hexToBytes (bytesToHex bs) = Inr bs"
proof -
  have "map (\<lambda>i. to_uint8 (parse_int_16 (take 2 (drop (i * 2) (concat (map byte_hex bs)))))) [0..<length bs] = bs"
    by (rule nth_equalityI) (simp_all add: slice_hex parse_byte_hex to_uint8_def)
  then show ?thesis by (simp add: hexToBytes_def bytesToHex_eq)
qed

interpretation hex_codec: wire_codec "\<lambda>bs. Inr (bytesToHex bs) :: js_error + string" hexToBytes "\<lambda>_. True"
  by unfold_locales (auto simp: hexToBytes_bytesToHex)

lemma bytesToHex_inject [simp]: "bytesToHex a = bytesToHex b \<longleftrightarrow> a = b"
  using hex_codec.enc_inj [of a b] by auto

lemma to_lower_idem [simp]: "to_lower (to_lower c) = to_lower c"
  by (simp add: to_lower_def Let_def)

lemma toLowerCase_idem [simp]: "toLowerCase (toLowerCase s) = toLowerCase s"
  by (simp add: toLowerCase_def)

lemma to_lower_hex_digit: "n < 16 \<Longrightarrow> to_lower (hex_digit n) = hex_digit n"
  by (simp add: to_lower_def of_hex_digit Let_def)

lemma toLowerCase_bytesToHex [simp]: "toLowerCase (bytesToHex bs) = bytesToHex bs"
proof -
  have "toLowerCase (byte_hex b) = byte_hex b" for b
  proof -
    have "unat b < 256" using unsigned_less [of b, where 'a = nat] by simp
    then have "unat b div 16 < 16" by (simp add: less_mult_imp_div_less)
    then show ?thesis by (simp add: toLowerCase_def byte_hex_digits to_lower_hex_digit)
  qed
  moreover have "toLowerCase ''0x'' = ''0x''" by code_simp
  ultimately show ?thesis
    by (induction bs) (simp_all add: bytesToHex_eq toLowerCase_def)
qed

text \<open>Fact: decoding the hex string of a byte string gives the byte string.\<close>

theorem hex_round_trip: "hexToBytes (bytesToHex bs) = Inr bs \<and> length (bytesToHex bs) = 2 + 2 * length bs"
  using hex_codec.dec_enc [of bs "bytesToHex bs"] by (simp add: bytesToHex_eq)

text \<open>
  Fact: \<open>hexToBytes\<close> is not the inverse on every string it accepts: characters that are no hex
  digits are read as 0 or truncate the byte instead of being refused.
\<close>

theorem hexToBytes_accepts_non_hex:
  "hexToBytes ''0xzz'' = Inr [0] \<and> hexToBytes ''0x5g'' = Inr [5] \<and> hexToBytes ''0x-5'' = Inr [251]"
  by code_simp

end
