(* ===== verification/Decoder.thy ===== *)
theory Decoder
  imports Codec Hex_Codec
begin

text \<open>
  \<open>src/substrate/retrieval-decoder.ts\<close>: the typed reading of the packed words.  Every region
  is decoded slot by slot; a slot is empty, failed, inactive (it neither earns nor fails) or
  decoded, and the counters \<open>attempts\<close> and \<open>failures\<close> of the code are read off the slots.
  A float32 is its 32-bit pattern.
\<close>

section \<open>Types\<close>

datatype relation_edge_type =
  Supports | Supersedes | Coreference_of | Causes | Derived_from | Co_occurs_with

datatype substrate_family = Near_collision | Temporal | Long_horizon | Multi_hop_relation

datatype code_type = Int8_scale_zero | Pq

datatype policy_family = Evidence_bundle | Conflict_lifecycle | Abstention
datatype policy_action = Include | Boost | Suppress | Bundle | Abstain
datatype policy_scope = Entity | Owner | Relation_path | Temporal_chain | Conflict_set | Aspect

record memory_index_slot =
  mi_slotIndex :: nat
  mi_recordId :: int
  mi_family :: substrate_family
  mi_domainBits :: int
  mi_valid :: bool
  mi_revoked :: bool
  mi_protected :: bool
  mi_policyAnchor :: bool
  mi_retrievalSlot :: int
  mi_expiryEpoch :: int

record retrieval_key_slot =
  rk_slotIndex :: nat
  rk_modelIdHash :: string
  rk_l2Norm :: int
  rk_versionTag :: int
  rk_quantizedBytes :: bytes

record relation_edge =
  re_entryIndex :: nat
  re_weight :: int
  re_edgeType :: relation_edge_type
  re_sourceSlot :: int
  re_targetSlot :: int

record category_lens =
  cl_entryIndex :: nat
  cl_weight :: int
  cl_edgeType :: relation_edge_type

record temporal_record =
  tr_recordIndex :: nat
  tr_memorySlot :: int
  tr_supersededBy :: int
  tr_validFromEpoch :: int
  tr_validUntilEpoch :: int
  tr_currentStaleFlag :: bool

record codebook_entry =
  cb_entryIndex :: nat
  cb_code :: int
  cb_codeType :: code_type
  cb_valid :: bool
  cb_payload :: int
  cb_payloadCont :: int

record policy_atom =
  pa_atomIndex :: nat
  pa_family :: policy_family
  pa_selector :: int
  pa_evidenceFeature :: int
  pa_action :: policy_action
  pa_scope :: policy_scope
  pa_targetSlot :: int
  pa_budget :: int
  pa_flags :: int
  pa_validFromEpoch :: int
  pa_expiryEpoch :: int

definition POLICY_SELECTOR :: "int list" where
  "POLICY_SELECTOR = [0x1, 0x2, 0x3, 0x4]"

definition POLICY_EVIDENCE_FEATURE :: "int list" where
  "POLICY_EVIDENCE_FEATURE = [0x1, 0x2, 0x3, 0x4, 0x5, 0x6, 0x7]"

definition POLICY_TARGET_NONE :: int where "POLICY_TARGET_NONE = 0xffff"
definition POLICY_ANCHOR_SLOT_LIMIT :: int where "POLICY_ANCHOR_SLOT_LIMIT = 256"

text \<open>The options the modelled decoders read: \<open>undefined\<close> is \<open>None\<close>.\<close>

record decoder_options =
  policyAtomsMode :: "bool option"
  biEncoderModelIdHash :: "string option"
  retrievalKeyHeaderBytes :: "int option"

section \<open>Enumerations\<close>

definition FAMILY_BY_BITS :: "int \<Rightarrow> substrate_family option" where
  "FAMILY_BY_BITS = map_of [(0, Near_collision), (1, Temporal), (2, Long_horizon), (3, Multi_hop_relation)]"

definition RELATION_TYPE_BY_BITS :: "int \<Rightarrow> relation_edge_type option" where
  "RELATION_TYPE_BY_BITS = map_of [(1, Supports), (2, Supersedes), (3, Coreference_of), (4, Causes),
     (5, Derived_from), (6, Co_occurs_with)]"

definition CODE_TYPE_BY_BITS :: "int \<Rightarrow> code_type option" where
  "CODE_TYPE_BY_BITS = map_of [(1, Int8_scale_zero), (2, Pq)]"

definition POLICY_ACTION_BY_BITS :: "int \<Rightarrow> policy_action option" where
  "POLICY_ACTION_BY_BITS = map_of [(1, Include), (2, Boost), (3, Suppress), (4, Bundle), (5, Abstain)]"

fun POLICY_ACTION_TO_BITS :: "policy_action \<Rightarrow> int" where
  "POLICY_ACTION_TO_BITS Include = 1"
| "POLICY_ACTION_TO_BITS Boost = 2"
| "POLICY_ACTION_TO_BITS Suppress = 3"
| "POLICY_ACTION_TO_BITS Bundle = 4"
| "POLICY_ACTION_TO_BITS Abstain = 5"

definition POLICY_SCOPE_BY_BITS :: "int \<Rightarrow> policy_scope option" where
  "POLICY_SCOPE_BY_BITS = map_of [(1, Entity), (2, Owner), (3, Relation_path), (4, Temporal_chain),
     (5, Conflict_set), (6, Aspect)]"

fun POLICY_SCOPE_TO_BITS :: "policy_scope \<Rightarrow> int" where
  "POLICY_SCOPE_TO_BITS Entity = 1"
| "POLICY_SCOPE_TO_BITS Owner = 2"
| "POLICY_SCOPE_TO_BITS Relation_path = 3"
| "POLICY_SCOPE_TO_BITS Temporal_chain = 4"
| "POLICY_SCOPE_TO_BITS Conflict_set = 5"
| "POLICY_SCOPE_TO_BITS Aspect = 6"

fun familyToBits :: "substrate_family \<Rightarrow> int" where
  "familyToBits Near_collision = 0"
| "familyToBits Temporal = 1"
| "familyToBits Long_horizon = 2"
| "familyToBits Multi_hop_relation = 3"

fun relationTypeToBits :: "relation_edge_type \<Rightarrow> int" where
  "relationTypeToBits Supports = 1"
| "relationTypeToBits Supersedes = 2"
| "relationTypeToBits Coreference_of = 3"
| "relationTypeToBits Causes = 4"
| "relationTypeToBits Derived_from = 5"
| "relationTypeToBits Co_occurs_with = 6"

section \<open>Bit helpers\<close>

definition MASK_4 :: int where "MASK_4 = bigmask 4"
definition MASK_8 :: int where "MASK_8 = bigmask 8"
definition MASK_16 :: int where "MASK_16 = bigmask 16"
definition MASK_40 :: int where "MASK_40 = bigmask 40"
definition MASK_60 :: int where "MASK_60 = bigmask 60"
definition MASK_96 :: int where "MASK_96 = bigmask 96"
definition MASK_112 :: int where "MASK_112 = bigmask 112"
definition MASK_128 :: int where "MASK_128 = bigmask 128"
definition MASK_152 :: int where "MASK_152 = bigmask 152"
definition MASK_208 :: int where "MASK_208 = bigmask 208"

lemmas MASKS = MASK_4_def MASK_8_def MASK_16_def MASK_40_def MASK_60_def MASK_96_def MASK_112_def
  MASK_128_def MASK_152_def MASK_208_def

definition word_field :: "int \<Rightarrow> nat \<Rightarrow> int \<Rightarrow> int" where
  "word_field w shift msk = bitfield w shift msk"

definition nthByte :: "int \<Rightarrow> nat \<Rightarrow> byte" where
  "nthByte word byteOffset = word_of_int (drop_bit ((31 - byteOffset) * 8) word AND 0xff)"

definition wordsToBytes :: "int list \<Rightarrow> nat \<Rightarrow> nat \<Rightarrow> bytes" where
  "wordsToBytes ws startWord wordCount =
     concat (map (\<lambda>w. map (nthByte (at_or 0 ws (startWord + w))) [0..<32]) [0..<wordCount])"

definition readFloat32BE :: "bytes \<Rightarrow> nat \<Rightarrow> int" where
  "readFloat32BE bs offset = foldl (\<lambda>r i. push_bit 8 r OR uint (at_or 0 bs (offset + i))) 0 [0..<4]"

text \<open>\<open>Number.isFinite(x)\<close> and \<open>x <= 0\<close> for a finite float32 of pattern x.\<close>

definition float32_finite :: "int \<Rightarrow> bool" where
  "float32_finite x \<longleftrightarrow> bitfield x 23 (bigmask 8) \<noteq> 255"

definition float32_le_0 :: "int \<Rightarrow> bool" where
  "float32_le_0 x \<longleftrightarrow> bit x 31 \<or> take_bit 31 x = 0"

section \<open>Outcomes and counters\<close>

datatype 'a outcome = Empty | Failed | Inactive | Decoded 'a

fun attempted :: "'a outcome \<Rightarrow> bool" where
  "attempted Empty = False"
| "attempted _ = True"

fun failed :: "'a outcome \<Rightarrow> bool" where
  "failed Failed = True"
| "failed _ = False"

fun slot_of :: "'a outcome \<Rightarrow> 'a option" where
  "slot_of (Decoded x) = Some x"
| "slot_of _ = None"

text \<open>The object a region decoder returns: its slots, \<open>attempts\<close> and \<open>failures\<close>.\<close>

record 'a region =
  rg_items :: "'a list"
  rg_attempts :: nat
  rg_failures :: nat

definition slots_region :: "'a outcome list \<Rightarrow> 'a option region" where
  "slots_region outs = \<lparr> rg_items = map slot_of outs, rg_attempts = length (filter attempted outs),
     rg_failures = length (filter failed outs) \<rparr>"

definition sparse_region :: "'a outcome list \<Rightarrow> 'a region" where
  "sparse_region outs = \<lparr> rg_items = List.map_filter slot_of outs, rg_attempts = length (filter attempted outs),
     rg_failures = length (filter failed outs) \<rparr>"

lemma failed_attempted: "failed x \<Longrightarrow> attempted x"
  by (cases x) auto

lemma failures_le_attempts: "length (filter failed outs) \<le> length (filter attempted outs)"
  by (induction outs) (auto dest: failed_attempted)

lemma region_failures [simp]:
  "rg_failures (slots_region outs) \<le> rg_attempts (slots_region outs)"
  "rg_failures (sparse_region outs) \<le> rg_attempts (sparse_region outs)"
  by (simp_all add: slots_region_def sparse_region_def failures_le_attempts)

lemma region_attempts_le:
  "rg_attempts (slots_region outs) \<le> length outs"
  "rg_attempts (sparse_region outs) \<le> length outs"
  by (simp_all add: slots_region_def sparse_region_def)

section \<open>Memory index\<close>

definition MEMORY_INDEX_SLOT_COUNT :: nat where "MEMORY_INDEX_SLOT_COUNT = 352"
definition MEMORY_INDEX_WORDS_PER_SLOT :: nat where "MEMORY_INDEX_WORDS_PER_SLOT = 1"
definition RETRIEVAL_KEY_SLOT_COUNT :: nat where "RETRIEVAL_KEY_SLOT_COUNT = 36"
definition RETRIEVAL_KEY_WORDS_PER_SLOT :: nat where "RETRIEVAL_KEY_WORDS_PER_SLOT = 8"
definition RETRIEVAL_KEY_BYTES_PER_SLOT :: nat where "RETRIEVAL_KEY_BYTES_PER_SLOT = RETRIEVAL_KEY_WORDS_PER_SLOT * 32"
definition RELATIONS_ENTRY_COUNT :: nat where "RELATIONS_ENTRY_COUNT = 128"
definition TEMPORAL_WORDS_PER_RECORD :: nat where "TEMPORAL_WORDS_PER_RECORD = 1"
definition TEMPORAL_RECORD_COUNT :: nat where
  "TEMPORAL_RECORD_COUNT = nat (TEMPORAL_END - TEMPORAL_START + 1) div TEMPORAL_WORDS_PER_RECORD"
definition CODEBOOK_ENTRY_COUNT :: nat where "CODEBOOK_ENTRY_COUNT = 48"
definition CODEBOOK_WORDS_PER_ENTRY :: nat where "CODEBOOK_WORDS_PER_ENTRY = 2"

lemmas COUNTS = MEMORY_INDEX_SLOT_COUNT_def MEMORY_INDEX_WORDS_PER_SLOT_def RETRIEVAL_KEY_SLOT_COUNT_def
  RETRIEVAL_KEY_WORDS_PER_SLOT_def RETRIEVAL_KEY_BYTES_PER_SLOT_def RELATIONS_ENTRY_COUNT_def
  TEMPORAL_WORDS_PER_RECORD_def TEMPORAL_RECORD_COUNT_def CODEBOOK_ENTRY_COUNT_def
  CODEBOOK_WORDS_PER_ENTRY_def

text \<open>The body of the loop on the slot's first word, once its padding words were tested.\<close>

definition decodeMemorySlot :: "nat \<Rightarrow> int \<Rightarrow> bool \<Rightarrow> memory_index_slot outcome" where
  "decodeMemorySlot s w0 nonZeroPayload =
     (if w0 = 0 then Empty
      else if nonZeroPayload then Failed
      else let recordId = word_field w0 128 MASK_128 in
      if recordId = 0 then Failed
      else case FAMILY_BY_BITS (word_field w0 124 0xf) of None \<Rightarrow> Failed
      | Some family \<Rightarrow>
       (let domainBits = word_field w0 64 MASK_60;
            flags = word_field w0 48 MASK_16;
            valid = (flags AND 0x0001 \<noteq> 0);
            revoked = (flags AND 0x0002 \<noteq> 0);
            isProtected = (flags AND 0x0004 \<noteq> 0);
            policyAnchor = (flags AND 0x0008 \<noteq> 0);
            retrievalSlot = word_field w0 40 MASK_8
        in if retrievalSlot \<ge> int RETRIEVAL_KEY_SLOT_COUNT then Failed
           else let expiryEpoch = word_field w0 0 MASK_40 in
           if \<not> valid then Inactive
           else Decoded \<lparr> mi_slotIndex = s, mi_recordId = recordId, mi_family = family,
             mi_domainBits = domainBits, mi_valid = valid, mi_revoked = revoked,
             mi_protected = isProtected, mi_policyAnchor = policyAnchor,
             mi_retrievalSlot = retrievalSlot, mi_expiryEpoch = expiryEpoch \<rparr>))"

definition decodeMemoryIndex :: "cortex_state \<Rightarrow> memory_index_slot option region" where
  "decodeMemoryIndex state = slots_region (map (\<lambda>s.
     let base = MEMORY_INDEX_START + int (s * MEMORY_INDEX_WORDS_PER_SLOT) in
     decodeMemorySlot s (word_at (words state) base)
       (list_ex (\<lambda>off. word_at (words state) (base + int off) \<noteq> 0) [1..<MEMORY_INDEX_WORDS_PER_SLOT]))
     [0..<MEMORY_INDEX_SLOT_COUNT])"

section \<open>Retrieval keys\<close>

definition decodeRetrievalKeySlot ::
  "decoder_options \<Rightarrow> nat \<Rightarrow> bytes \<Rightarrow> retrieval_key_slot outcome" where
  "decodeRetrievalKeySlot opts s slotBytes =
     (let headerBytes = case_option 9 id (retrievalKeyHeaderBytes opts);
          expectedHash = map_option toLowerCase (biEncoderModelIdHash opts);
          versionTag = uint (slotBytes ! 0);
          modelIdHash = bytesToHex (take 4 (drop 1 slotBytes));
          l2Norm = readFloat32BE slotBytes 5
      in if versionTag \<noteq> 1 then Failed
         else if expectedHash \<noteq> None \<and> Some (toLowerCase modelIdHash) \<noteq> expectedHash then Failed
         else if \<not> float32_finite l2Norm \<or> float32_le_0 l2Norm then Failed
         else if headerBytes < 9 \<or> headerBytes > int RETRIEVAL_KEY_BYTES_PER_SLOT then Failed
         else if list_ex (\<lambda>i. slotBytes ! i \<noteq> 0) [9..<nat headerBytes] then Failed
         else Decoded \<lparr> rk_slotIndex = s, rk_modelIdHash = modelIdHash, rk_l2Norm = l2Norm,
           rk_versionTag = versionTag, rk_quantizedBytes = drop (nat headerBytes) slotBytes \<rparr>)"

definition decodeRetrievalKeys :: "cortex_state \<Rightarrow> decoder_options \<Rightarrow> retrieval_key_slot option region" where
  "decodeRetrievalKeys state opts = slots_region (map (\<lambda>s.
     let base = nat RETRIEVAL_KEYS_START + s * RETRIEVAL_KEY_WORDS_PER_SLOT in
     if list_ex (\<lambda>off. at_or 0 (words state) (base + off) \<noteq> 0) [0..<RETRIEVAL_KEY_WORDS_PER_SLOT]
     then decodeRetrievalKeySlot opts s (wordsToBytes (words state) base RETRIEVAL_KEY_WORDS_PER_SLOT)
     else Empty)
     [0..<RETRIEVAL_KEY_SLOT_COUNT])"

section \<open>Relations\<close>

text \<open>An entry is an anchor-to-anchor edge or a category lens.\<close>

datatype relation_entry = Edge relation_edge | Lens category_lens

definition decodeRelationEntry :: "nat \<Rightarrow> int \<Rightarrow> relation_entry outcome" where
  "decodeRelationEntry i w =
     (if w = 0 then Empty
      else let weight = word_field w 240 MASK_16 in
      if weight = 0 then Failed
      else case RELATION_TYPE_BY_BITS (word_field w 224 MASK_16) of None \<Rightarrow> Failed
      | Some edgeType \<Rightarrow>
       (let reservedField208 = word_field w 208 MASK_16;
            isCategoryLens = (drop_bit 15 reservedField208 = 1);
            remainingReserved208 = reservedField208 AND 0x7FFF
        in if remainingReserved208 \<noteq> 0 then Failed
           else if word_field w 192 MASK_16 \<noteq> 0 then Failed
           else if isCategoryLens then
             (if word_field w 96 MASK_96 \<noteq> 0 \<or> word_field w 0 MASK_96 \<noteq> 0 then Failed
              else Decoded (Lens \<lparr> cl_entryIndex = i, cl_weight = weight, cl_edgeType = edgeType \<rparr>))
           else let sourceField = word_field w 96 MASK_96; targetField = word_field w 0 MASK_96 in
             if drop_bit 8 sourceField \<noteq> 0 then Failed
             else if drop_bit 8 targetField \<noteq> 0 then Failed
             else let sourceSlot = sourceField AND MASK_8; targetSlot = targetField AND MASK_8 in
             if sourceSlot \<ge> int MEMORY_INDEX_SLOT_COUNT \<or> targetSlot \<ge> int MEMORY_INDEX_SLOT_COUNT then Failed
             else Decoded (Edge \<lparr> re_entryIndex = i, re_weight = weight, re_edgeType = edgeType,
               re_sourceSlot = sourceSlot, re_targetSlot = targetSlot \<rparr>)))"

definition relation_outcomes :: "cortex_state \<Rightarrow> relation_entry outcome list" where
  "relation_outcomes state =
     map (\<lambda>i. decodeRelationEntry i (word_at (words state) (RELATIONS_START + int i))) [0..<RELATIONS_ENTRY_COUNT]"

fun edge_of :: "relation_entry \<Rightarrow> relation_edge option" where
  "edge_of (Edge e) = Some e"
| "edge_of (Lens l) = None"

fun lens_of :: "relation_entry \<Rightarrow> category_lens option" where
  "lens_of (Lens l) = Some l"
| "lens_of (Edge e) = None"

text \<open>The result: edges, category lenses, attempts and failures.\<close>

definition decodeRelations :: "cortex_state \<Rightarrow> relation_edge list \<times> category_lens list \<times> nat \<times> nat" where
  "decodeRelations state =
     (let reg = sparse_region (relation_outcomes state)
      in (List.map_filter edge_of (rg_items reg), List.map_filter lens_of (rg_items reg),
          rg_attempts reg, rg_failures reg))"

section \<open>Temporal records\<close>

definition decodeTemporalWord :: "nat \<Rightarrow> int \<Rightarrow> bool \<Rightarrow> temporal_record outcome" where
  "decodeTemporalWord r w0 nonZeroPayload =
     (if w0 = 0 then Empty
      else if nonZeroPayload then Failed
      else let memorySlot = word_field w0 248 MASK_8;
               supersededBy = word_field w0 240 MASK_8;
               validFromEpoch = word_field w0 200 MASK_40;
               validUntilEpoch = word_field w0 160 MASK_40;
               flags = word_field w0 152 MASK_8 in
      if word_field w0 0 MASK_152 \<noteq> 0 then Failed
      else if memorySlot \<ge> int MEMORY_INDEX_SLOT_COUNT then Failed
      else if validFromEpoch > validUntilEpoch then Failed
      else Decoded \<lparr> tr_recordIndex = r, tr_memorySlot = memorySlot, tr_supersededBy = supersededBy,
        tr_validFromEpoch = validFromEpoch, tr_validUntilEpoch = validUntilEpoch,
        tr_currentStaleFlag = (flags AND 0x01 \<noteq> 0) \<rparr>)"

definition decodeTemporal :: "cortex_state \<Rightarrow> temporal_record region" where
  "decodeTemporal state = sparse_region (map (\<lambda>r.
     let base = TEMPORAL_START + int (r * TEMPORAL_WORDS_PER_RECORD) in
     decodeTemporalWord r (word_at (words state) base)
       (list_ex (\<lambda>off. word_at (words state) (base + int off) \<noteq> 0) [1..<TEMPORAL_WORDS_PER_RECORD]))
     [0..<TEMPORAL_RECORD_COUNT])"

section \<open>Codebook\<close>

definition decodeCodebookEntry :: "nat \<Rightarrow> int \<Rightarrow> int \<Rightarrow> codebook_entry outcome" where
  "decodeCodebookEntry i w0 w1 =
     (if w0 = 0 \<and> w1 = 0 then Empty
      else let code = word_field w0 240 MASK_16;
               codeTypeBits = word_field w0 224 MASK_16;
               flags = word_field w0 208 MASK_16 in
      case CODE_TYPE_BY_BITS codeTypeBits of None \<Rightarrow> Failed
      | Some codeType \<Rightarrow>
        if code = 0 then Failed
        else let valid = (flags AND 0x0001 \<noteq> 0) in
        if \<not> valid then Failed
        else Decoded \<lparr> cb_entryIndex = i, cb_code = code, cb_codeType = codeType, cb_valid = valid,
          cb_payload = word_field w0 0 MASK_208, cb_payloadCont = w1 \<rparr>)"

definition decodeCodebook :: "cortex_state \<Rightarrow> codebook_entry option region" where
  "decodeCodebook state = slots_region (map (\<lambda>i.
     let base = CODEBOOK_START + int (i * CODEBOOK_WORDS_PER_ENTRY) in
     decodeCodebookEntry i (word_at (words state) base) (word_at (words state) (base + 1)))
     [0..<CODEBOOK_ENTRY_COUNT])"

section \<open>Policy atoms\<close>

record policy_region_spec =
  pr_start :: int
  pr_count :: nat
  pr_allowed :: "policy_action list"

fun POLICY_REGIONS :: "policy_family \<Rightarrow> policy_region_spec" where
  "POLICY_REGIONS Evidence_bundle = \<lparr> pr_start = POLICY_EVIDENCE_START,
     pr_count = nat (POLICY_EVIDENCE_END - POLICY_EVIDENCE_START + 1),
     pr_allowed = [Include, Boost, Suppress, Bundle] \<rparr>"
| "POLICY_REGIONS Conflict_lifecycle = \<lparr> pr_start = POLICY_CONFLICT_START,
     pr_count = nat (POLICY_CONFLICT_END - POLICY_CONFLICT_START + 1),
     pr_allowed = [Boost, Suppress] \<rparr>"
| "POLICY_REGIONS Abstention = \<lparr> pr_start = POLICY_ABSTENTION_START,
     pr_count = nat (POLICY_ABSTENTION_END - POLICY_ABSTENTION_START + 1),
     pr_allowed = [Abstain] \<rparr>"

definition decodePolicyAtom :: "policy_family \<Rightarrow> nat \<Rightarrow> int \<Rightarrow> policy_atom outcome" where
  "decodePolicyAtom family k w0 =
     (if w0 = 0 then Empty
      else let selector = word_field w0 248 MASK_8;
               evidenceFeature = word_field w0 240 MASK_8;
               action = POLICY_ACTION_BY_BITS (word_field w0 236 MASK_4);
               scope = POLICY_SCOPE_BY_BITS (word_field w0 232 MASK_4);
               targetSlot = word_field w0 216 MASK_16;
               budget = word_field w0 200 MASK_16;
               flags = word_field w0 192 MASK_8;
               validFromEpoch = word_field w0 152 MASK_40;
               expiryEpoch = word_field w0 112 MASK_40 in
      if word_field w0 0 MASK_112 \<noteq> 0 then Failed
      else case (action, scope) of
        (Some a, Some sc) \<Rightarrow>
         (if a \<notin> set (pr_allowed (POLICY_REGIONS family)) then Failed
          else if selector \<notin> set POLICY_SELECTOR \<or> evidenceFeature \<notin> set POLICY_EVIDENCE_FEATURE then Failed
          else if (if a = Abstain
                   then targetSlot \<noteq> POLICY_TARGET_NONE \<and> targetSlot \<ge> POLICY_ANCHOR_SLOT_LIMIT
                   else targetSlot = POLICY_TARGET_NONE \<or> targetSlot \<ge> POLICY_ANCHOR_SLOT_LIMIT) then Failed
          else if validFromEpoch > 0 \<and> expiryEpoch > 0 \<and> validFromEpoch > expiryEpoch then Failed
          else Decoded \<lparr> pa_atomIndex = k, pa_family = family, pa_selector = selector,
            pa_evidenceFeature = evidenceFeature, pa_action = a, pa_scope = sc,
            pa_targetSlot = targetSlot, pa_budget = budget, pa_flags = flags,
            pa_validFromEpoch = validFromEpoch, pa_expiryEpoch = expiryEpoch \<rparr>)
      | _ \<Rightarrow> Failed)"

definition decodePolicyAtomRegion :: "cortex_state \<Rightarrow> policy_family \<Rightarrow> policy_atom region" where
  "decodePolicyAtomRegion state family = sparse_region (map (\<lambda>k.
     decodePolicyAtom family k (word_at (words state) (pr_start (POLICY_REGIONS family) + int k)))
     [0..<pr_count (POLICY_REGIONS family)])"

definition policyReservedNonZeroWords :: "cortex_state \<Rightarrow> nat" where
  "policyReservedNonZeroWords state =
     length (filter (\<lambda>w. word_at (words state) w \<noteq> 0) [POLICY_RESERVED_START..POLICY_RESERVED_END])"

end
