(* ===== verification/Encoder.thy ===== *)
theory Encoder
  imports Decoder
begin

text \<open>
  The encoders of \<open>src/substrate/retrieval-decoder.ts\<close> and their round trips with the slot
  decoders.  \<open>x >> n !== 0n\<close> is \<open>drop_bit n x \<noteq> 0\<close>, which a negative x also satisfies.
\<close>

section \<open>Encoders\<close>

definition encodePolicyAtom :: "policy_atom \<Rightarrow> js_error + int" where
  "encodePolicyAtom atom =
     (if pa_selector atom \<le> 0 \<or> pa_selector atom > 0xff
      then Inl (Error ''encodePolicyAtom: selector out of range'')
      else if pa_evidenceFeature atom \<le> 0 \<or> pa_evidenceFeature atom > 0xff
      then Inl (Error ''encodePolicyAtom: evidenceFeature out of range'')
      else let actionBits = POLICY_ACTION_TO_BITS (pa_action atom);
               scopeBits = POLICY_SCOPE_TO_BITS (pa_scope atom) in
      if actionBits = 0 then Inl (Error ''encodePolicyAtom: bad action'')
      else if scopeBits = 0 then Inl (Error ''encodePolicyAtom: bad scope'')
      else if pa_targetSlot atom \<noteq> POLICY_TARGET_NONE \<and>
              (pa_targetSlot atom < 0 \<or> pa_targetSlot atom \<ge> POLICY_ANCHOR_SLOT_LIMIT)
      then Inl (Error ''encodePolicyAtom: targetSlot out of range (0..255 or POLICY_TARGET_NONE)'')
      else if pa_budget atom < 0 \<or> pa_budget atom > 0xffff
      then Inl (Error ''encodePolicyAtom: budget out of range'')
      else if pa_flags atom < 0 \<or> pa_flags atom > 0xff
      then Inl (Error ''encodePolicyAtom: flags out of range'')
      else if drop_bit 40 (pa_validFromEpoch atom) \<noteq> 0 \<or> drop_bit 40 (pa_expiryEpoch atom) \<noteq> 0
      then Inl (Error ''encodePolicyAtom: epoch exceeds 40 bits'')
      else Inr (push_bit 248 (pa_selector atom) OR push_bit 240 (pa_evidenceFeature atom) OR
        push_bit 236 actionBits OR push_bit 232 scopeBits OR push_bit 216 (pa_targetSlot atom) OR
        push_bit 200 (pa_budget atom) OR push_bit 192 (pa_flags atom) OR
        push_bit 152 (pa_validFromEpoch atom) OR push_bit 112 (pa_expiryEpoch atom)))"

definition flag_bit :: "bool \<Rightarrow> int \<Rightarrow> int" where
  "flag_bit b m = (if b then m else 0)"

definition encodeMemoryIndexSlot :: "memory_index_slot \<Rightarrow> js_error + int list" where
  "encodeMemoryIndexSlot slot =
     (if drop_bit 128 (mi_recordId slot) \<noteq> 0
      then Inl (Error ''encodeMemoryIndexSlot: recordId exceeds 128 bits'')
      else if drop_bit 60 (mi_domainBits slot) \<noteq> 0
      then Inl (Error ''encodeMemoryIndexSlot: domainBits exceeds 60 bits'')
      else let familyBits = familyToBits (mi_family slot);
               familyDomain = push_bit 60 familyBits OR mi_domainBits slot;
               flags = flag_bit (mi_valid slot) 0x0001 OR flag_bit (mi_revoked slot) 0x0002 OR
                 flag_bit (mi_protected slot) 0x0004 OR flag_bit (mi_policyAnchor slot) 0x0008 in
      if mi_retrievalSlot slot < 0 \<or> mi_retrievalSlot slot \<ge> int RETRIEVAL_KEY_SLOT_COUNT
      then Inl (Error ''encodeMemoryIndexSlot: retrievalSlot out of range'')
      else if drop_bit 40 (mi_expiryEpoch slot) \<noteq> 0
      then Inl (Error ''encodeMemoryIndexSlot: expiryEpoch exceeds 40 bits'')
      else let w0 = push_bit 128 (mi_recordId slot) OR push_bit 64 familyDomain OR push_bit 48 flags OR
                 push_bit 40 (mi_retrievalSlot slot) OR mi_expiryEpoch slot in
      Inr [w0, 0, 0, 0, 0, 0, 0, 0])"

definition encodeRelationEdge :: "relation_edge \<Rightarrow> js_error + int" where
  "encodeRelationEdge edge =
     (if re_weight edge \<le> 0 \<or> re_weight edge > 0xffff
      then Inl (Error ''encodeRelationEdge: weight out of range'')
      else if re_sourceSlot edge < 0 \<or> re_sourceSlot edge \<ge> int MEMORY_INDEX_SLOT_COUNT
      then Inl (Error ''encodeRelationEdge: sourceSlot out of range'')
      else if re_targetSlot edge < 0 \<or> re_targetSlot edge \<ge> int MEMORY_INDEX_SLOT_COUNT
      then Inl (Error ''encodeRelationEdge: targetSlot out of range'')
      else Inr (push_bit 240 (re_weight edge) OR push_bit 224 (relationTypeToBits (re_edgeType edge)) OR
        push_bit 96 (re_sourceSlot edge) OR re_targetSlot edge))"

definition encodeRelationCategoryLens :: "category_lens \<Rightarrow> js_error + int" where
  "encodeRelationCategoryLens lens =
     (if cl_weight lens \<le> 0 \<or> cl_weight lens > 0xffff
      then Inl (Error ''encodeRelationCategoryLens: weight out of range'')
      else Inr (push_bit 240 (cl_weight lens) OR push_bit 224 (relationTypeToBits (cl_edgeType lens)) OR
        push_bit 223 1))"

definition encodeTemporalRecord :: "temporal_record \<Rightarrow> js_error + int list" where
  "encodeTemporalRecord rec =
     (if tr_memorySlot rec < 0 \<or> tr_memorySlot rec \<ge> int MEMORY_INDEX_SLOT_COUNT
      then Inl (Error ''encodeTemporalRecord: memorySlot out of range'')
      else if tr_supersededBy rec < 0 \<or> tr_supersededBy rec > 0xff
      then Inl (Error ''encodeTemporalRecord: supersededBy out of range'')
      else if tr_validFromEpoch rec > tr_validUntilEpoch rec
      then Inl (Error ''encodeTemporalRecord: validFromEpoch > validUntilEpoch'')
      else if drop_bit 40 (tr_validFromEpoch rec) \<noteq> 0 \<or> drop_bit 40 (tr_validUntilEpoch rec) \<noteq> 0
      then Inl (Error ''encodeTemporalRecord: epoch exceeds 40 bits'')
      else let flags = (if tr_currentStaleFlag rec then 0x01 else 0);
               w0 = push_bit 248 (tr_memorySlot rec) OR push_bit 240 (tr_supersededBy rec) OR
                 push_bit 200 (tr_validFromEpoch rec) OR push_bit 160 (tr_validUntilEpoch rec) OR
                 push_bit 152 flags in
      Inr ((replicate TEMPORAL_WORDS_PER_RECORD 0)[0 := w0]))"

definition encodeCodebookEntry :: "codebook_entry \<Rightarrow> js_error + int list" where
  "encodeCodebookEntry entry =
     (if cb_code entry \<le> 0 \<or> cb_code entry > 0xffff
      then Inl (Error ''encodeCodebookEntry: code out of range'')
      else let codeTypeBits = (if cb_codeType entry = Int8_scale_zero then 0x1 else 0x2);
               flags = flag_bit (cb_valid entry) 0x0001 in
      if drop_bit 208 (cb_payload entry) \<noteq> 0
      then Inl (Error ''encodeCodebookEntry: payload exceeds 208 bits'')
      else let w0 = push_bit 240 (cb_code entry) OR push_bit 224 codeTypeBits OR push_bit 208 flags OR
                 cb_payload entry in
      Inr [w0, cb_payloadCont entry])"

section \<open>Policy atoms\<close>

lemma drop_bit_0_iff: "drop_bit n (x :: int) = 0 \<longleftrightarrow> 0 \<le> x \<and> x < 2 ^ n"
  by (simp add: take_bit_eq_self_iff_drop_bit_eq_0 [symmetric] take_bit_int_eq_self_iff)

lemma action_bits: "POLICY_ACTION_BY_BITS (POLICY_ACTION_TO_BITS a) = Some a"
  "1 \<le> POLICY_ACTION_TO_BITS a" "POLICY_ACTION_TO_BITS a \<le> 5"
  by (cases a; simp add: POLICY_ACTION_BY_BITS_def)+

lemma scope_bits: "POLICY_SCOPE_BY_BITS (POLICY_SCOPE_TO_BITS a) = Some a"
  "1 \<le> POLICY_SCOPE_TO_BITS a" "POLICY_SCOPE_TO_BITS a \<le> 6"
  by (cases a; simp add: POLICY_SCOPE_BY_BITS_def)+

lemma action_bits_inv: "POLICY_ACTION_BY_BITS n = Some a \<Longrightarrow> n = POLICY_ACTION_TO_BITS a"
  by (auto simp: POLICY_ACTION_BY_BITS_def split: if_splits)

lemma scope_bits_inv: "POLICY_SCOPE_BY_BITS n = Some a \<Longrightarrow> n = POLICY_SCOPE_TO_BITS a"
  by (auto simp: POLICY_SCOPE_BY_BITS_def split: if_splits)

text \<open>The typed grammar of the atoms of a region.\<close>

definition policy_atom_ok :: "policy_family \<Rightarrow> nat \<Rightarrow> policy_atom \<Rightarrow> bool" where
  "policy_atom_ok family k atom \<longleftrightarrow>
     pa_atomIndex atom = k \<and> pa_family atom = family \<and>
     pa_selector atom \<in> set POLICY_SELECTOR \<and> pa_evidenceFeature atom \<in> set POLICY_EVIDENCE_FEATURE \<and>
     pa_action atom \<in> set (pr_allowed (POLICY_REGIONS family)) \<and>
     (0 \<le> pa_targetSlot atom \<and> pa_targetSlot atom < 256 \<or>
      pa_action atom = Abstain \<and> pa_targetSlot atom = POLICY_TARGET_NONE) \<and>
     0 \<le> pa_budget atom \<and> pa_budget atom < 2 ^ 16 \<and> 0 \<le> pa_flags atom \<and> pa_flags atom < 2 ^ 8 \<and>
     0 \<le> pa_validFromEpoch atom \<and> pa_validFromEpoch atom < 2 ^ 40 \<and>
     0 \<le> pa_expiryEpoch atom \<and> pa_expiryEpoch atom < 2 ^ 40 \<and>
     \<not> (pa_validFromEpoch atom > 0 \<and> pa_expiryEpoch atom > 0 \<and> pa_validFromEpoch atom > pa_expiryEpoch atom)"

definition atom_word :: "policy_atom \<Rightarrow> int" where
  "atom_word atom = push_bit 248 (pa_selector atom) OR push_bit 240 (pa_evidenceFeature atom) OR
     push_bit 236 (POLICY_ACTION_TO_BITS (pa_action atom)) OR push_bit 232 (POLICY_SCOPE_TO_BITS (pa_scope atom)) OR
     push_bit 216 (pa_targetSlot atom) OR push_bit 200 (pa_budget atom) OR push_bit 192 (pa_flags atom) OR
     push_bit 152 (pa_validFromEpoch atom) OR push_bit 112 (pa_expiryEpoch atom)"

lemma selector_range: "x \<in> set POLICY_SELECTOR \<Longrightarrow> 0 < x \<and> x < 2 ^ 8"
  by (auto simp: POLICY_SELECTOR_def)

lemma feature_range: "x \<in> set POLICY_EVIDENCE_FEATURE \<Longrightarrow> 0 < x \<and> x < 2 ^ 8"
  by (auto simp: POLICY_EVIDENCE_FEATURE_def)

lemma atom_ranges:
  assumes "policy_atom_ok family k atom"
  shows "0 < pa_selector atom" "pa_selector atom < 2 ^ 8" "0 < pa_evidenceFeature atom" "pa_evidenceFeature atom < 2 ^ 8"
    "0 \<le> pa_targetSlot atom" "pa_targetSlot atom < 2 ^ 16"
    "0 \<le> pa_budget atom" "pa_budget atom < 2 ^ 16" "0 \<le> pa_flags atom" "pa_flags atom < 2 ^ 8"
    "0 \<le> pa_validFromEpoch atom" "pa_validFromEpoch atom < 2 ^ 40"
    "0 \<le> pa_expiryEpoch atom" "pa_expiryEpoch atom < 2 ^ 40"
  using assms selector_range [of "pa_selector atom"] feature_range [of "pa_evidenceFeature atom"]
  by (auto simp: policy_atom_ok_def POLICY_TARGET_NONE_def)

lemma encodePolicyAtom_ok:
  assumes "policy_atom_ok family k atom"
  shows "encodePolicyAtom atom = Inr (atom_word atom)"
  using assms atom_ranges [OF assms] action_bits(2) [of "pa_action atom"] scope_bits(2) [of "pa_scope atom"]
  by (auto simp: encodePolicyAtom_def atom_word_def drop_bit_0_iff policy_atom_ok_def POLICY_ANCHOR_SLOT_LIMIT_def Let_def)

lemma atom_word_fields:
  assumes "policy_atom_ok family k atom"
  shows "bitfield (atom_word atom) 248 (bigmask 8) = pa_selector atom"
    "bitfield (atom_word atom) 240 (bigmask 8) = pa_evidenceFeature atom"
    "bitfield (atom_word atom) 236 (bigmask 4) = POLICY_ACTION_TO_BITS (pa_action atom)"
    "bitfield (atom_word atom) 232 (bigmask 4) = POLICY_SCOPE_TO_BITS (pa_scope atom)"
    "bitfield (atom_word atom) 216 (bigmask 16) = pa_targetSlot atom"
    "bitfield (atom_word atom) 200 (bigmask 16) = pa_budget atom"
    "bitfield (atom_word atom) 192 (bigmask 8) = pa_flags atom"
    "bitfield (atom_word atom) 152 (bigmask 40) = pa_validFromEpoch atom"
    "bitfield (atom_word atom) 112 (bigmask 40) = pa_expiryEpoch atom"
    "bitfield (atom_word atom) 0 (bigmask 112) = 0"
  using atom_ranges [OF assms] action_bits(2,3) [of "pa_action atom"] scope_bits(2,3) [of "pa_scope atom"]
  by (simp_all add: atom_word_def field_simps_coretex)

lemma decode_atom_word:
  assumes "policy_atom_ok family k atom"
  shows "decodePolicyAtom family k (atom_word atom) = Decoded atom"
proof -
  note f = atom_word_fields [OF assms]
  have "atom_word atom \<noteq> 0" using f(1) atom_ranges(1) [OF assms] by auto
  then show ?thesis
    using assms unfolding decodePolicyAtom_def word_field_def MASKS f action_bits scope_bits Let_def
    by (cases atom) (auto simp: policy_atom_ok_def POLICY_ANCHOR_SLOT_LIMIT_def POLICY_TARGET_NONE_def)
qed

lemma atom_word_uint256:
  assumes "policy_atom_ok family k atom"
  shows "uint256 (atom_word atom)"
  unfolding atom_word_def
  using atom_ranges [OF assms] action_bits(2,3) [of "pa_action atom"] scope_bits(2,3) [of "pa_scope atom"]
  by (intro uint256_or uint256_push) simp_all

lemma decode_atom_ok:
  assumes "decodePolicyAtom family k w = Decoded atom"
  shows "policy_atom_ok family k atom"
  using assms
  by (auto simp: decodePolicyAtom_def policy_atom_ok_def Let_def word_field_def MASKS POLICY_ANCHOR_SLOT_LIMIT_def
      POLICY_TARGET_NONE_def bitfield_less [where n = 16, simplified] bitfield_less [where n = 8, simplified]
      bitfield_less [where n = 40, simplified]
    split: if_splits option.splits)

lemma decode_atom_word_eq:
  assumes "decodePolicyAtom family k w = Decoded atom" and "uint256 w"
  shows "w = atom_word atom"
proof -
  have w: "take_bit 256 w = w" using assms(2) by (simp add: uint256_def take_bit_int_eq_self)
  have "bitfield w 248 (bigmask 8) = pa_selector atom"
    "bitfield w 240 (bigmask 8) = pa_evidenceFeature atom"
    "bitfield w 236 (bigmask 4) = POLICY_ACTION_TO_BITS (pa_action atom)"
    "bitfield w 232 (bigmask 4) = POLICY_SCOPE_TO_BITS (pa_scope atom)"
    "bitfield w 216 (bigmask 16) = pa_targetSlot atom"
    "bitfield w 200 (bigmask 16) = pa_budget atom"
    "bitfield w 192 (bigmask 8) = pa_flags atom"
    "bitfield w 152 (bigmask 40) = pa_validFromEpoch atom"
    "bitfield w 112 (bigmask 40) = pa_expiryEpoch atom"
    "bitfield w 0 (bigmask 112) = 0"
    using assms(1)
    by (auto simp: decodePolicyAtom_def Let_def word_field_def MASKS dest: action_bits_inv scope_bits_inv
      split: if_splits option.splits)
  then show ?thesis
    using split_field [of 248 8 w] split_field [of 240 8 w] split_field [of 236 4 w] split_field [of 232 4 w]
      split_field [of 216 16 w] split_field [of 200 16 w] split_field [of 192 8 w] split_field [of 152 40 w]
      split_field [of 112 40 w] split_field [of 0 112 w] w
    by (simp add: atom_word_def)
qed

text \<open>The decoder of one atom on uint256 words, as a partial inverse of the encoder.\<close>

definition read_atom :: "policy_family \<Rightarrow> nat \<Rightarrow> int \<Rightarrow> unit + policy_atom" where
  "read_atom family k w =
     (if uint256 w then (case decodePolicyAtom family k w of Decoded atom \<Rightarrow> Inr atom | _ \<Rightarrow> Inl ()) else Inl ())"

lemma read_atom_Inr: "read_atom family k w = Inr atom \<longleftrightarrow> uint256 w \<and> decodePolicyAtom family k w = Decoded atom"
  by (auto simp: read_atom_def split: outcome.splits)

interpretation policy_codec: canonical_codec encodePolicyAtom "read_atom family k" "policy_atom_ok family k"
  for family k
proof unfold_locales
  fix atom w assume ok: "policy_atom_ok family k atom" and "encodePolicyAtom atom = Inr w"
  then have "w = atom_word atom" by (simp add: encodePolicyAtom_ok)
  then show "read_atom family k w = Inr atom"
    using ok by (simp add: read_atom_Inr atom_word_uint256 decode_atom_word)
next
  fix w atom assume "read_atom family k w = Inr atom"
  then have d: "uint256 w" "decodePolicyAtom family k w = Decoded atom" by (simp_all add: read_atom_Inr)
  then show "policy_atom_ok family k atom" by (blast intro: decode_atom_ok)
  then show "encodePolicyAtom atom = Inr w"
    using decode_atom_word_eq [OF d(2,1)] by (simp add: encodePolicyAtom_ok)
qed (use encodePolicyAtom_ok in blast)

text \<open>
  Fact: the packed form of policy atoms is canonical.  The atoms that some uint256 word of a
  region decodes to are exactly those of the typed grammar, and each is encoded by exactly
  the word that decodes to it.
\<close>

theorem policy_atom_canonical:
  assumes "uint256 w"
  shows "decodePolicyAtom family k w = Decoded atom \<longleftrightarrow> policy_atom_ok family k atom \<and> encodePolicyAtom atom = Inr w"
  using policy_codec.dec_iff_enc [of family k atom w] policy_codec.dec_ok [of family k w atom] assms
  by (auto simp: read_atom_Inr)

section \<open>Memory index slots\<close>

lemma family_bits: "FAMILY_BY_BITS (familyToBits f) = Some f" "0 \<le> familyToBits f" "familyToBits f < 4"
  by (cases f; simp add: FAMILY_BY_BITS_def)+

definition memory_slot_ok :: "nat \<Rightarrow> memory_index_slot \<Rightarrow> bool" where
  "memory_slot_ok s slot \<longleftrightarrow>
     mi_slotIndex slot = s \<and> 0 < mi_recordId slot \<and> mi_recordId slot < 2 ^ 128 \<and>
     0 \<le> mi_domainBits slot \<and> mi_domainBits slot < 2 ^ 60 \<and> mi_valid slot \<and>
     0 \<le> mi_retrievalSlot slot \<and> mi_retrievalSlot slot < 36 \<and>
     0 \<le> mi_expiryEpoch slot \<and> mi_expiryEpoch slot < 2 ^ 40"

definition memory_flags :: "memory_index_slot \<Rightarrow> int" where
  "memory_flags slot = flag_bit (mi_valid slot) 0x0001 OR flag_bit (mi_revoked slot) 0x0002 OR
     flag_bit (mi_protected slot) 0x0004 OR flag_bit (mi_policyAnchor slot) 0x0008"

definition memory_word :: "memory_index_slot \<Rightarrow> int" where
  "memory_word slot = push_bit 128 (mi_recordId slot) OR
     push_bit 64 (push_bit 60 (familyToBits (mi_family slot)) OR mi_domainBits slot) OR
     push_bit 48 (memory_flags slot) OR push_bit 40 (mi_retrievalSlot slot) OR mi_expiryEpoch slot"

lemma memory_flags_bits:
  "0 \<le> memory_flags slot" "memory_flags slot < 16"
  "(memory_flags slot AND 1 \<noteq> 0) = mi_valid slot" "(memory_flags slot AND 2 \<noteq> 0) = mi_revoked slot"
  "(memory_flags slot AND 4 \<noteq> 0) = mi_protected slot" "(memory_flags slot AND 8 \<noteq> 0) = mi_policyAnchor slot"
  by (cases "mi_valid slot"; cases "mi_revoked slot"; cases "mi_protected slot"; cases "mi_policyAnchor slot";
      simp add: memory_flags_def flag_bit_def)+

lemma encodeMemoryIndexSlot_ok:
  "memory_slot_ok s slot \<Longrightarrow> encodeMemoryIndexSlot slot = Inr [memory_word slot, 0, 0, 0, 0, 0, 0, 0]"
  by (simp add: encodeMemoryIndexSlot_def memory_slot_ok_def drop_bit_0_iff memory_word_def memory_flags_def
      RETRIEVAL_KEY_SLOT_COUNT_def Let_def)

lemma memory_word_split:
  "memory_word slot = push_bit 128 (mi_recordId slot) OR push_bit 124 (familyToBits (mi_family slot)) OR
     push_bit 64 (mi_domainBits slot) OR
     push_bit 48 (memory_flags slot) OR push_bit 40 (mi_retrievalSlot slot) OR mi_expiryEpoch slot"
  by (simp add: memory_word_def or.assoc)

lemma memory_word_fields:
  assumes "memory_slot_ok s slot"
  shows "bitfield (memory_word slot) 128 (bigmask 128) = mi_recordId slot"
    "bitfield (memory_word slot) 124 (bigmask 4) = familyToBits (mi_family slot)"
    "bitfield (memory_word slot) 64 (bigmask 60) = mi_domainBits slot"
    "bitfield (memory_word slot) 48 (bigmask 16) = memory_flags slot"
    "bitfield (memory_word slot) 40 (bigmask 8) = mi_retrievalSlot slot"
    "bitfield (memory_word slot) 0 (bigmask 40) = mi_expiryEpoch slot"
  using assms family_bits(2,3) [of "mi_family slot"] memory_flags_bits(1,2) [of slot]
  by (simp_all add: memory_word_split memory_slot_ok_def field_simps_coretex)

lemma decode_memory_word:
  assumes "memory_slot_ok s slot"
  shows "decodeMemorySlot s (memory_word slot) False = Decoded slot"
proof -
  note f = memory_word_fields [OF assms]
  have "memory_word slot \<noteq> 0" using f(1) assms by (auto simp: memory_slot_ok_def)
  moreover have m: "0xf = bigmask 4" by (simp add: bigmask_def push_bit_eq_mult)
  ultimately show ?thesis
    using assms unfolding decodeMemorySlot_def word_field_def MASKS Let_def m f family_bits memory_flags_bits
    by (cases slot) (simp add: memory_slot_ok_def RETRIEVAL_KEY_SLOT_COUNT_def)
qed

interpretation memory_codec: wire_codec encodeMemoryIndexSlot
  "\<lambda>ws. case decodeMemorySlot s (ws ! 0) False of Decoded slot \<Rightarrow> Inr slot | _ \<Rightarrow> Inl ()" "memory_slot_ok s"
  for s
  by unfold_locales (auto simp: encodeMemoryIndexSlot_ok decode_memory_word)

text \<open>
  Fact: a valid memory-index slot is encoded without error, and the first word of the encoding
  decodes to the same slot.
\<close>

theorem memory_slot_round_trip:
  assumes "memory_slot_ok s slot"
  shows "\<exists>w rest. encodeMemoryIndexSlot slot = Inr (w # rest) \<and> decodeMemorySlot s w False = Decoded slot"
  using assms by (simp add: encodeMemoryIndexSlot_ok decode_memory_word)

theorem memory_slot_round_trip_witness:
  "\<exists>w rest. encodeMemoryIndexSlot \<lparr> mi_slotIndex = 3, mi_recordId = 77, mi_family = Temporal, mi_domainBits = 5,
     mi_valid = True, mi_revoked = False, mi_protected = True, mi_policyAnchor = False,
     mi_retrievalSlot = 35, mi_expiryEpoch = 9 \<rparr> = Inr (w # rest) \<and>
   decodeMemorySlot 3 w False = Decoded \<lparr> mi_slotIndex = 3, mi_recordId = 77, mi_family = Temporal, mi_domainBits = 5,
     mi_valid = True, mi_revoked = False, mi_protected = True, mi_policyAnchor = False,
     mi_retrievalSlot = 35, mi_expiryEpoch = 9 \<rparr>"
  by (rule memory_slot_round_trip) (simp add: memory_slot_ok_def)

text \<open>
  Fact: \<open>encodeMemoryIndexSlot\<close> returns eight words, one per word of the previous slot layout,
  although the region has stride 1: writing its result at a slot overwrites the seven slots
  after it with zero.
\<close>

theorem memory_slot_encoding_overruns:
  "(\<exists>e. encodeMemoryIndexSlot slot = Inl e) \<or>
   (\<exists>w. encodeMemoryIndexSlot slot = Inr (w # replicate 7 0) \<and> length (w # replicate 7 0) > MEMORY_INDEX_WORDS_PER_SLOT)"
  by (simp add: encodeMemoryIndexSlot_def MEMORY_INDEX_WORDS_PER_SLOT_def Let_def numeral_eq_Suc)

section \<open>Relations\<close>

lemma relation_bits: "RELATION_TYPE_BY_BITS (relationTypeToBits t) = Some t"
  "1 \<le> relationTypeToBits t" "relationTypeToBits t \<le> 6"
  by (cases t; simp add: RELATION_TYPE_BY_BITS_def)+

lemma relation_bits_inv: "RELATION_TYPE_BY_BITS n = Some t \<Longrightarrow> n = relationTypeToBits t"
  by (auto simp: RELATION_TYPE_BY_BITS_def split: if_splits)

definition edge_ok :: "nat \<Rightarrow> relation_edge \<Rightarrow> bool" where
  "edge_ok i edge \<longleftrightarrow> re_entryIndex edge = i \<and> 0 < re_weight edge \<and> re_weight edge < 2 ^ 16 \<and>
     0 \<le> re_sourceSlot edge \<and> re_sourceSlot edge < 256 \<and> 0 \<le> re_targetSlot edge \<and> re_targetSlot edge < 256"

definition lens_ok :: "nat \<Rightarrow> category_lens \<Rightarrow> bool" where
  "lens_ok i lens \<longleftrightarrow> cl_entryIndex lens = i \<and> 0 < cl_weight lens \<and> cl_weight lens < 2 ^ 16"

definition entry_ok :: "nat \<Rightarrow> relation_entry \<Rightarrow> bool" where
  "entry_ok i entry = (case entry of Edge e \<Rightarrow> edge_ok i e | Lens l \<Rightarrow> lens_ok i l)"

definition encode_entry :: "relation_entry \<Rightarrow> js_error + int" where
  "encode_entry entry = (case entry of Edge e \<Rightarrow> encodeRelationEdge e | Lens l \<Rightarrow> encodeRelationCategoryLens l)"

definition entry_word :: "relation_entry \<Rightarrow> int" where
  "entry_word entry = (case entry of
     Edge e \<Rightarrow> push_bit 240 (re_weight e) OR push_bit 224 (relationTypeToBits (re_edgeType e)) OR
       push_bit 96 (re_sourceSlot e) OR re_targetSlot e
   | Lens l \<Rightarrow> push_bit 240 (cl_weight l) OR push_bit 224 (relationTypeToBits (cl_edgeType l)) OR
       push_bit 223 1)"

lemma encode_entry_ok: "entry_ok i entry \<Longrightarrow> encode_entry entry = Inr (entry_word entry)"
  by (auto simp: entry_ok_def encode_entry_def entry_word_def edge_ok_def lens_ok_def encodeRelationEdge_def
      encodeRelationCategoryLens_def MEMORY_INDEX_SLOT_COUNT_def split: relation_entry.splits)

lemma decode_edge_word:
  assumes "edge_ok i e"
  shows "decodeRelationEntry i (entry_word (Edge e)) = Decoded (Edge e)"
proof -
  let ?w = "entry_word (Edge e)"
  note a = assms [unfolded edge_ok_def] relation_bits(2,3) [of "re_edgeType e"]
  have f: "bitfield ?w 240 (bigmask 16) = re_weight e" "bitfield ?w 224 (bigmask 16) = relationTypeToBits (re_edgeType e)"
    "bitfield ?w 208 (bigmask 16) = 0" "bitfield ?w 192 (bigmask 16) = 0"
    "bitfield ?w 96 (bigmask 96) = re_sourceSlot e" "bitfield ?w 0 (bigmask 96) = re_targetSlot e"
    using a by (simp_all add: entry_word_def field_simps_coretex)
  have "?w \<noteq> 0" using f(1) a(1) by auto
  moreover have "x AND bigmask 8 = x" if "0 \<le> x" "x < 256" for x
    using that by (simp add: bigmask_eq_mask take_bit_eq_mask [symmetric] take_bit_int_eq_self)
  ultimately show ?thesis
    using a unfolding decodeRelationEntry_def word_field_def MASKS Let_def f relation_bits
    by (cases e) (simp add: drop_bit_0_iff MEMORY_INDEX_SLOT_COUNT_def)
qed

lemma decode_lens_word:
  assumes "lens_ok i l"
  shows "decodeRelationEntry i (entry_word (Lens l)) = Decoded (Lens l)"
proof -
  let ?w = "entry_word (Lens l)"
  note a = assms [unfolded lens_ok_def] relation_bits(2,3) [of "cl_edgeType l"]
  have m: "bitfield (push_bit 223 1) 208 (bigmask 16) = 2 ^ 15" by (simp add: bitfield_take_bit drop_bit_push_bit take_bit_eq_mod push_bit_eq_mult)
  have f: "bitfield ?w 240 (bigmask 16) = cl_weight l" "bitfield ?w 224 (bigmask 16) = relationTypeToBits (cl_edgeType l)"
    "bitfield ?w 208 (bigmask 16) = 2 ^ 15" "bitfield ?w 192 (bigmask 16) = 0"
    "bitfield ?w 96 (bigmask 96) = 0" "bitfield ?w 0 (bigmask 96) = 0"
    using a m bitfield_push_above [of 192 16 223 1] bitfield_push_above [of 96 96 223 1]
      bitfield_push_above [of 0 96 223 1]
    by (simp_all add: entry_word_def field_simps_coretex)
  have "?w \<noteq> 0" using f(1) a(1) by auto
  then show ?thesis
    using a unfolding decodeRelationEntry_def word_field_def MASKS Let_def f relation_bits
    by (cases l) (simp add: drop_bit_eq_div)
qed

lemma and_mask_8: "x AND bigmask 8 = take_bit 8 (x :: int)"
  by (simp add: bigmask_eq_mask take_bit_eq_mask)

lemma take_8_range: "take_bit 8 (x :: int) < 256"
  using take_bit_int_less_exp [of 8 x] by simp

lemma decode_entry_ok: "decodeRelationEntry i w = Decoded entry \<Longrightarrow> entry_ok i entry"
  using bitfield_range [of w 240 16]
  by (auto simp: decodeRelationEntry_def entry_ok_def edge_ok_def lens_ok_def Let_def word_field_def MASKS
      and_mask_8 take_8_range less_le [of 0]
    split: if_splits option.splits)

lemma mode_flag_field:
  assumes "0 \<le> (r :: int)" and "r < 2 ^ 16" and "r AND 0x7FFF = 0"
  shows "r = (if drop_bit 15 r = 1 then 2 ^ 15 else 0)"
proof -
  have "(0x7FFF :: int) = mask 15" by (simp add: mask_eq_exp_minus_1)
  with assms(3) have "take_bit 15 r = 0" by (simp add: take_bit_eq_mask)
  then have r: "r = push_bit 15 (drop_bit 15 r)" using bits_ident [of 15 r] by simp
  have "0 \<le> drop_bit 15 r" "drop_bit 15 r < 2"
    using assms(1,2) by (simp_all add: drop_bit_eq_div)
  then have "drop_bit 15 r = 0 \<or> drop_bit 15 r = 1" by linarith
  then show ?thesis using r by auto
qed

lemma decode_entry_word_eq:
  assumes "decodeRelationEntry i w = Decoded entry" and "uint256 w"
  shows "w = entry_word entry"
proof -
  let ?r = "bitfield w 208 (bigmask 16)"
  have w: "take_bit 256 w = w" using assms(2) by (rule uint256_take)
  have r: "?r AND 0x7FFF = 0 \<Longrightarrow> ?r = (if drop_bit 15 ?r = 1 then 2 ^ 15 else 0)"
    using bitfield_range [of w 208 16] by (intro mode_flag_field) auto
  have t: "drop_bit 8 x = 0 \<Longrightarrow> take_bit 8 x = x" for x :: int
    by (simp add: take_bit_eq_self_iff_drop_bit_eq_0)
  note parts = split_field [of 240 16 w] split_field [of 224 16 w] split_field [of 208 16 w]
    split_field [of 192 16 w] split_field [of 96 96 w] split_field [of 0 96 w]
  show ?thesis
  proof (cases entry)
    case (Edge e)
    have "bitfield w 240 (bigmask 16) = re_weight e"
      "bitfield w 224 (bigmask 16) = relationTypeToBits (re_edgeType e)"
      "?r = 0" "bitfield w 192 (bigmask 16) = 0"
      "bitfield w 96 (bigmask 96) = re_sourceSlot e" "bitfield w 0 (bigmask 96) = re_targetSlot e"
      using assms(1) r by (auto simp: Edge decodeRelationEntry_def Let_def word_field_def MASKS and_mask_8 t
        dest: relation_bits_inv split: if_splits option.splits)
    with parts w show ?thesis by (simp add: Edge entry_word_def)
  next
    case (Lens l)
    have "bitfield w 240 (bigmask 16) = cl_weight l"
      "bitfield w 224 (bigmask 16) = relationTypeToBits (cl_edgeType l)"
      "?r = 2 ^ 15" "bitfield w 192 (bigmask 16) = 0"
      "bitfield w 96 (bigmask 96) = 0" "bitfield w 0 (bigmask 96) = 0"
      using assms(1) r by (auto simp: Lens decodeRelationEntry_def Let_def word_field_def MASKS and_mask_8 t
        dest: relation_bits_inv split: if_splits option.splits)
    with parts w show ?thesis by (simp add: Lens entry_word_def)
  qed
qed

lemma entry_word_uint256: "entry_ok i entry \<Longrightarrow> uint256 (entry_word entry)"
proof (cases entry)
  case (Edge e)
  assume "entry_ok i entry"
  then show ?thesis
    using relation_bits(2,3) [of "re_edgeType e"] uint256_push [of "re_targetSlot e" 0]
    unfolding Edge entry_word_def relation_entry.case
    by (intro uint256_or uint256_push) (simp_all add: Edge entry_ok_def edge_ok_def)
next
  case (Lens l)
  assume "entry_ok i entry"
  then show ?thesis
    using relation_bits(2,3) [of "cl_edgeType l"]
    unfolding Lens entry_word_def relation_entry.case
    by (intro uint256_or uint256_push) (simp_all add: Lens entry_ok_def lens_ok_def)
qed

definition read_entry :: "nat \<Rightarrow> int \<Rightarrow> unit + relation_entry" where
  "read_entry i w =
     (if uint256 w then (case decodeRelationEntry i w of Decoded e \<Rightarrow> Inr e | _ \<Rightarrow> Inl ()) else Inl ())"

lemma read_entry_Inr: "read_entry i w = Inr e \<longleftrightarrow> uint256 w \<and> decodeRelationEntry i w = Decoded e"
  by (auto simp: read_entry_def split: outcome.splits)

interpretation relation_codec: canonical_codec encode_entry "read_entry i" "entry_ok i" for i
proof unfold_locales
  fix e w assume ok: "entry_ok i e" and "encode_entry e = Inr w"
  then have "w = entry_word e" by (simp add: encode_entry_ok)
  then show "read_entry i w = Inr e"
    using ok entry_word_uint256 [OF ok]
    by (cases e) (simp_all add: read_entry_Inr entry_ok_def decode_edge_word decode_lens_word)
next
  fix w e assume "read_entry i w = Inr e"
  then have d: "uint256 w" "decodeRelationEntry i w = Decoded e" by (simp_all add: read_entry_Inr)
  then show "entry_ok i e" by (blast intro: decode_entry_ok)
  then show "encode_entry e = Inr w"
    using decode_entry_word_eq [OF d(2,1)] by (simp add: encode_entry_ok)
qed (use encode_entry_ok in blast)

text \<open>
  Fact: relation words are canonical.  A uint256 word decodes to an edge or to a category lens
  exactly when it is what the encoder of that edge or lens returns, the edge naming slots
  below 256; so no word is read in both modes and no two words as the same entry.
\<close>

theorem relation_entry_canonical:
  assumes "uint256 w"
  shows "decodeRelationEntry i w = Decoded entry \<longleftrightarrow>
    (case entry of
       Edge e \<Rightarrow> edge_ok i e \<and> encodeRelationEdge e = Inr w
     | Lens l \<Rightarrow> lens_ok i l \<and> encodeRelationCategoryLens l = Inr w)"
  using relation_codec.dec_iff_enc [of i entry w] relation_codec.dec_ok [of i w entry] assms
  by (auto simp: read_entry_Inr entry_ok_def encode_entry_def split: relation_entry.splits)

theorem relation_entry_canonical_witness:
  "decodeRelationEntry 5 (push_bit 240 9 OR push_bit 224 2 OR push_bit 96 4 OR 200) = Decoded (Edge
     \<lparr> re_entryIndex = 5, re_weight = 9, re_edgeType = Supersedes, re_sourceSlot = 4, re_targetSlot = 200 \<rparr>)"
  using relation_entry_canonical [of "push_bit 240 9 OR push_bit 224 2 OR push_bit 96 4 OR 200" 5
      "Edge \<lparr> re_entryIndex = 5, re_weight = 9, re_edgeType = Supersedes, re_sourceSlot = 4, re_targetSlot = 200 \<rparr>"]
  by (simp add: edge_ok_def encodeRelationEdge_def MEMORY_INDEX_SLOT_COUNT_def uint256_def)

text \<open>Fact: \<open>encodeRelationEdge\<close> accepts a source slot between 256 and 351, which the decoder
  refuses: the encoded entry is a decode failure.\<close>

theorem relation_edge_encoder_too_permissive:
  "(case encodeRelationEdge \<lparr> re_entryIndex = 0, re_weight = 1, re_edgeType = Supports, re_sourceSlot = 300,
      re_targetSlot = 2 \<rparr> of Inr w \<Rightarrow> decodeRelationEntry 0 w | Inl e \<Rightarrow> Empty) = Failed"
  by code_simp

theorem policy_atom_canonical_witness:
  "decodePolicyAtom Evidence_bundle 7 (push_bit 192 0x0101430005000A00) = Decoded
     \<lparr> pa_atomIndex = 7, pa_family = Evidence_bundle, pa_selector = 1, pa_evidenceFeature = 1, pa_action = Bundle,
       pa_scope = Relation_path, pa_targetSlot = 5, pa_budget = 10, pa_flags = 0, pa_validFromEpoch = 0,
       pa_expiryEpoch = 0 \<rparr>"
  using policy_atom_canonical [of "push_bit 192 0x0101430005000A00" Evidence_bundle 7
     "\<lparr> pa_atomIndex = 7, pa_family = Evidence_bundle, pa_selector = 1, pa_evidenceFeature = 1, pa_action = Bundle,
       pa_scope = Relation_path, pa_targetSlot = 5, pa_budget = 10, pa_flags = 0, pa_validFromEpoch = 0,
       pa_expiryEpoch = 0 \<rparr>"]
  by (simp add: policy_atom_ok_def encodePolicyAtom_def POLICY_SELECTOR_def POLICY_EVIDENCE_FEATURE_def
      POLICY_TARGET_NONE_def POLICY_ANCHOR_SLOT_LIMIT_def uint256_def push_bit_eq_mult)

text \<open>Fact: \<open>encodePolicyAtom\<close> checks field widths only: it encodes atoms outside the grammar of
  their region, such as a boost without a target, which the decoder then drops.\<close>

theorem policy_atom_encoder_too_permissive:
  "(case encodePolicyAtom \<lparr> pa_atomIndex = 0, pa_family = Evidence_bundle, pa_selector = 1, pa_evidenceFeature = 1,
      pa_action = Boost, pa_scope = Entity, pa_targetSlot = POLICY_TARGET_NONE, pa_budget = 1, pa_flags = 0,
      pa_validFromEpoch = 0, pa_expiryEpoch = 0 \<rparr> of
     Inr w \<Rightarrow> decodePolicyAtom Evidence_bundle 0 w | Inl e \<Rightarrow> Empty) = Failed"
  by code_simp

section \<open>Temporal records\<close>

definition temporal_ok :: "nat \<Rightarrow> temporal_record \<Rightarrow> bool" where
  "temporal_ok r rec \<longleftrightarrow> tr_recordIndex rec = r \<and> 0 \<le> tr_memorySlot rec \<and> tr_memorySlot rec < 256 \<and>
     0 \<le> tr_supersededBy rec \<and> tr_supersededBy rec < 256 \<and>
     0 \<le> tr_validFromEpoch rec \<and> tr_validFromEpoch rec \<le> tr_validUntilEpoch rec \<and>
     tr_validUntilEpoch rec < 2 ^ 40"

definition temporal_word :: "temporal_record \<Rightarrow> int" where
  "temporal_word rec = push_bit 248 (tr_memorySlot rec) OR push_bit 240 (tr_supersededBy rec) OR
     push_bit 200 (tr_validFromEpoch rec) OR push_bit 160 (tr_validUntilEpoch rec) OR
     push_bit 152 (if tr_currentStaleFlag rec then 1 else 0)"

lemma encodeTemporalRecord_ok: "temporal_ok r rec \<Longrightarrow> encodeTemporalRecord rec = Inr [temporal_word rec]"
  by (simp add: encodeTemporalRecord_def temporal_ok_def temporal_word_def drop_bit_0_iff Let_def
      MEMORY_INDEX_SLOT_COUNT_def TEMPORAL_WORDS_PER_RECORD_def)

lemma temporal_word_fields:
  assumes "temporal_ok r rec"
  shows "bitfield (temporal_word rec) 248 (bigmask 8) = tr_memorySlot rec"
    "bitfield (temporal_word rec) 240 (bigmask 8) = tr_supersededBy rec"
    "bitfield (temporal_word rec) 200 (bigmask 40) = tr_validFromEpoch rec"
    "bitfield (temporal_word rec) 160 (bigmask 40) = tr_validUntilEpoch rec"
    "bitfield (temporal_word rec) 152 (bigmask 8) = (if tr_currentStaleFlag rec then 1 else 0)"
    "bitfield (temporal_word rec) 0 (bigmask 152) = 0"
proof -
  obtain f where f: "(if tr_currentStaleFlag rec then 1 else 0) = f" "0 \<le> f" "f \<le> (1 :: int)" by auto
  show "bitfield (temporal_word rec) 248 (bigmask 8) = tr_memorySlot rec"
    "bitfield (temporal_word rec) 240 (bigmask 8) = tr_supersededBy rec"
    "bitfield (temporal_word rec) 200 (bigmask 40) = tr_validFromEpoch rec"
    "bitfield (temporal_word rec) 160 (bigmask 40) = tr_validUntilEpoch rec"
    "bitfield (temporal_word rec) 152 (bigmask 8) = (if tr_currentStaleFlag rec then 1 else 0)"
    "bitfield (temporal_word rec) 0 (bigmask 152) = 0"
    using assms f(2,3) unfolding temporal_word_def f(1)
    by (simp_all add: temporal_ok_def field_simps_coretex)
qed

text \<open>A record whose word is zero is read as an empty entry: slot 0, superseded by slot 0, both
  epochs 0 and no stale flag.\<close>

lemma decode_temporal_word:
  assumes "temporal_ok r rec"
  shows "decodeTemporalWord r (temporal_word rec) False = (if temporal_word rec = 0 then Empty else Decoded rec)"
  using assms unfolding decodeTemporalWord_def word_field_def MASKS Let_def temporal_word_fields [OF assms]
  by (cases rec) (simp add: temporal_ok_def MEMORY_INDEX_SLOT_COUNT_def)

lemma temporal_word_0_iff:
  assumes "temporal_ok r rec"
  shows "temporal_word rec = 0 \<longleftrightarrow> tr_memorySlot rec = 0 \<and> tr_supersededBy rec = 0 \<and>
    tr_validUntilEpoch rec = 0 \<and> \<not> tr_currentStaleFlag rec"
proof
  assume "temporal_word rec = 0"
  then show "tr_memorySlot rec = 0 \<and> tr_supersededBy rec = 0 \<and> tr_validUntilEpoch rec = 0 \<and> \<not> tr_currentStaleFlag rec"
    using temporal_word_fields [OF assms] by (simp split: if_splits)
next
  assume "tr_memorySlot rec = 0 \<and> tr_supersededBy rec = 0 \<and> tr_validUntilEpoch rec = 0 \<and> \<not> tr_currentStaleFlag rec"
  then show "temporal_word rec = 0" using assms by (simp add: temporal_word_def temporal_ok_def)
qed

interpretation temporal_codec: wire_codec encodeTemporalRecord
  "\<lambda>ws. case decodeTemporalWord r (ws ! 0) False of Decoded rec \<Rightarrow> Inr rec | _ \<Rightarrow> Inl ()"
  "\<lambda>rec. temporal_ok r rec \<and> temporal_word rec \<noteq> 0"
  for r
  by unfold_locales (auto simp: encodeTemporalRecord_ok decode_temporal_word)

text \<open>
  Fact: a temporal record over slots below 256 is encoded in one word that decodes to the same
  record, except the record of slot 0 superseded by slot 0 at epoch 0, whose word is zero and
  reads as an empty entry.
\<close>

theorem temporal_round_trip:
  assumes "temporal_ok r rec"
  shows "\<exists>w. encodeTemporalRecord rec = Inr [w] \<and>
    decodeTemporalWord r w False =
      (if tr_memorySlot rec = 0 \<and> tr_supersededBy rec = 0 \<and> tr_validUntilEpoch rec = 0 \<and> \<not> tr_currentStaleFlag rec
       then Empty else Decoded rec)"
  using assms by (auto simp: encodeTemporalRecord_ok decode_temporal_word temporal_word_0_iff)

theorem temporal_round_trip_witness:
  "\<exists>w. encodeTemporalRecord \<lparr> tr_recordIndex = 2, tr_memorySlot = 4, tr_supersededBy = 255, tr_validFromEpoch = 3,
     tr_validUntilEpoch = 8, tr_currentStaleFlag = True \<rparr> = Inr [w] \<and>
   decodeTemporalWord 2 w False = Decoded \<lparr> tr_recordIndex = 2, tr_memorySlot = 4, tr_supersededBy = 255,
     tr_validFromEpoch = 3, tr_validUntilEpoch = 8, tr_currentStaleFlag = True \<rparr>"
  using temporal_round_trip [of 2 "\<lparr> tr_recordIndex = 2, tr_memorySlot = 4, tr_supersededBy = 255,
     tr_validFromEpoch = 3, tr_validUntilEpoch = 8, tr_currentStaleFlag = True \<rparr>"]
  by (simp add: temporal_ok_def)

text \<open>Fact: \<open>encodeTemporalRecord\<close> accepts a memory slot between 256 and 351; its 8-bit field
  overflows and the word it returns is no uint256.\<close>

theorem temporal_encoder_overflow:
  "(case encodeTemporalRecord \<lparr> tr_recordIndex = 0, tr_memorySlot = 300, tr_supersededBy = 255,
      tr_validFromEpoch = 0, tr_validUntilEpoch = 1, tr_currentStaleFlag = False \<rparr> of
     Inr ws \<Rightarrow> uint256 (ws ! 0) | Inl e \<Rightarrow> True) = False"
  by code_simp

section \<open>Codebook\<close>

definition codebook_ok :: "nat \<Rightarrow> codebook_entry \<Rightarrow> bool" where
  "codebook_ok i entry \<longleftrightarrow> cb_entryIndex entry = i \<and> 0 < cb_code entry \<and> cb_code entry < 2 ^ 16 \<and>
     cb_valid entry \<and> 0 \<le> cb_payload entry \<and> cb_payload entry < 2 ^ 208"

definition code_type_bits :: "code_type \<Rightarrow> int" where
  "code_type_bits t = (if t = Int8_scale_zero then 0x1 else 0x2)"

lemma code_type_bits: "CODE_TYPE_BY_BITS (code_type_bits t) = Some t" "1 \<le> code_type_bits t" "code_type_bits t \<le> 2"
  by (cases t; simp add: CODE_TYPE_BY_BITS_def code_type_bits_def)+

definition codebook_word :: "codebook_entry \<Rightarrow> int" where
  "codebook_word entry = push_bit 240 (cb_code entry) OR push_bit 224 (code_type_bits (cb_codeType entry)) OR
     push_bit 208 1 OR cb_payload entry"

lemma encodeCodebookEntry_ok:
  "codebook_ok i entry \<Longrightarrow> encodeCodebookEntry entry = Inr [codebook_word entry, cb_payloadCont entry]"
  by (simp add: encodeCodebookEntry_def codebook_ok_def codebook_word_def drop_bit_0_iff Let_def code_type_bits_def flag_bit_def)

lemma codebook_word_fields:
  assumes "codebook_ok i entry"
  shows "bitfield (codebook_word entry) 240 (bigmask 16) = cb_code entry"
    "bitfield (codebook_word entry) 224 (bigmask 16) = code_type_bits (cb_codeType entry)"
    "bitfield (codebook_word entry) 208 (bigmask 16) = 1"
    "bitfield (codebook_word entry) 0 (bigmask 208) = cb_payload entry"
proof -
  obtain f where f: "(1 :: int) = f" "0 \<le> f" "f < 2" by auto
  show "bitfield (codebook_word entry) 240 (bigmask 16) = cb_code entry"
    "bitfield (codebook_word entry) 224 (bigmask 16) = code_type_bits (cb_codeType entry)"
    "bitfield (codebook_word entry) 208 (bigmask 16) = 1"
    "bitfield (codebook_word entry) 0 (bigmask 208) = cb_payload entry"
    using assms f(2,3) code_type_bits(2,3) [of "cb_codeType entry"] unfolding codebook_word_def f(1)
    by (simp_all add: codebook_ok_def field_simps_coretex)
qed

lemma decode_codebook_word:
  assumes "codebook_ok i entry"
  shows "decodeCodebookEntry i (codebook_word entry) (cb_payloadCont entry) = Decoded entry"
proof -
  note f = codebook_word_fields [OF assms]
  have "codebook_word entry \<noteq> 0" using f(3) by auto
  then show ?thesis
    using assms unfolding decodeCodebookEntry_def word_field_def MASKS Let_def f code_type_bits
    by (cases entry) (simp add: codebook_ok_def)
qed

interpretation codebook_codec: wire_codec encodeCodebookEntry
  "\<lambda>ws. case decodeCodebookEntry i (ws ! 0) (ws ! 1) of Decoded e \<Rightarrow> Inr e | _ \<Rightarrow> Inl ()" "codebook_ok i"
  for i
  by unfold_locales (auto simp: encodeCodebookEntry_ok decode_codebook_word)

end
