(* ===== verification/Substrate.thy ===== *)
theory Substrate
  imports Complex_Main Decoder
begin

text \<open>
  \<open>decodeSubstrate\<close> of \<open>src/substrate/retrieval-decoder.ts\<close> and
  \<open>src/substrate/structural-validity.ts\<close>: the composite decoder, its cross-region checks, and
  the decode quality.  The lens-diversity check, which is floating-point geometry, enters as
  the function \<open>lensDiversity\<close> that is there when a floor and a layout are given and tells
  whether the check passes; the quality is an exact rational.
\<close>

record decoded_substrate =
  ds_memoryIndex :: "memory_index_slot option list"
  ds_retrievalKeys :: "retrieval_key_slot option list"
  ds_relations :: "relation_edge list"
  ds_categoryLenses :: "category_lens list"
  ds_temporal :: "temporal_record list"
  ds_codebook :: "codebook_entry option list"
  ds_decodedSlots :: int
  ds_decodeFailures :: nat
  ds_decodeAttempts :: nat
  ds_lensDiversityOk :: "bool option"
  ds_relationsDropped :: nat
  ds_evidenceBundleAtoms :: "policy_atom list"
  ds_conflictLifecycleAtoms :: "policy_atom list"
  ds_abstentionAtoms :: "policy_atom list"
  ds_policyReservedNonZeroWords :: nat

text \<open>\<open>memoryIndex[slot]\<close>, where an index past the end is \<open>undefined\<close> and as falsy as \<open>null\<close>.\<close>

definition slot_at :: "memory_index_slot option list \<Rightarrow> int \<Rightarrow> memory_index_slot option" where
  "slot_at slots i = (if 0 \<le> i then at_or None slots (nat i) else None)"

definition relationEdgeValid :: "relation_edge \<Rightarrow> memory_index_slot option list \<Rightarrow> bool" where
  "relationEdgeValid edge memoryIndex =
     (case (slot_at memoryIndex (re_sourceSlot edge), slot_at memoryIndex (re_targetSlot edge)) of
        (Some src, Some tgt) \<Rightarrow>
          if \<not> mi_valid src \<or> \<not> mi_valid tgt then False
          else if mi_domainBits src = 0 \<or> mi_domainBits tgt = 0 then False
          else (mi_domainBits src AND mi_domainBits tgt) \<noteq> 0
      | _ \<Rightarrow> False)"

text \<open>The cross-region test on a temporal record: its slot exists, and a stale record points to
  a revoked slot.\<close>

definition temporalRecordValid :: "memory_index_slot option list \<Rightarrow> temporal_record \<Rightarrow> bool" where
  "temporalRecordValid slots t =
     (case slot_at slots (tr_memorySlot t) of
        None \<Rightarrow> False
      | Some slot \<Rightarrow> \<not> (tr_currentStaleFlag t \<and> \<not> mi_revoked slot))"

definition decodeSubstrate ::
  "(retrieval_key_slot option list \<Rightarrow> bool) option \<Rightarrow> cortex_state \<Rightarrow> decoder_options \<Rightarrow> decoded_substrate" where
  "decodeSubstrate lensDiversity state opts =
     (let policyMode = (policyAtomsMode opts = Some True);
          memory = decodeMemoryIndex state;
          (edges, lenses, relationAttempts, relationFailures) = decodeRelations state;
          temporal = decodeTemporal state;
          nothing = \<lparr> rg_items = [], rg_attempts = 0, rg_failures = 0 \<rparr>;
          keys = (if policyMode then nothing else decodeRetrievalKeys state opts);
          codebook = (if policyMode then \<lparr> rg_items = [], rg_attempts = 0, rg_failures = 0 \<rparr> else decodeCodebook state);
          noAtoms = \<lparr> rg_items = [], rg_attempts = 0, rg_failures = 0 \<rparr>;
          eb = (if policyMode then decodePolicyAtomRegion state Evidence_bundle else noAtoms);
          cl = (if policyMode then decodePolicyAtomRegion state Conflict_lifecycle else noAtoms);
          ab = (if policyMode then decodePolicyAtomRegion state Abstention else noAtoms);
          policyReservedNonZero = (if policyMode then policyReservedNonZeroWords state else 0);
          policyAttempts = rg_attempts eb + rg_attempts cl + rg_attempts ab + policyReservedNonZero;
          policyFailures = rg_failures eb + rg_failures cl + rg_failures ab + policyReservedNonZero;
          crossAttempts = length (rg_items temporal);
          filteredTemporal = filter (temporalRecordValid (rg_items memory)) (rg_items temporal);
          crossFailures = length (filter (\<lambda>t. \<not> temporalRecordValid (rg_items memory) t) (rg_items temporal));
          filteredRelations = filter (\<lambda>e. relationEdgeValid e (rg_items memory)) edges;
          dropped = length (filter (\<lambda>e. \<not> relationEdgeValid e (rg_items memory)) edges);
          decodeAttempts = rg_attempts memory + rg_attempts keys + relationAttempts + rg_attempts temporal +
            rg_attempts codebook + crossAttempts + policyAttempts;
          decodeFailures = rg_failures memory + rg_failures keys + relationFailures + rg_failures temporal +
            rg_failures codebook + crossFailures + policyFailures
      in \<lparr> ds_memoryIndex = rg_items memory, ds_retrievalKeys = rg_items keys,
           ds_relations = filteredRelations, ds_categoryLenses = lenses, ds_temporal = filteredTemporal,
           ds_codebook = rg_items codebook, ds_decodedSlots = int decodeAttempts - int decodeFailures,
           ds_decodeFailures = decodeFailures, ds_decodeAttempts = decodeAttempts,
           ds_lensDiversityOk = map_option (\<lambda>check. check (rg_items keys)) lensDiversity,
           ds_relationsDropped = dropped, ds_evidenceBundleAtoms = rg_items eb,
           ds_conflictLifecycleAtoms = rg_items cl, ds_abstentionAtoms = rg_items ab,
           ds_policyReservedNonZeroWords = policyReservedNonZero \<rparr>)"

definition structuralValidity :: "decoded_substrate \<Rightarrow> rat" where
  "structuralValidity decoded =
     (if ds_lensDiversityOk decoded = Some False then 0
      else if ds_decodeAttempts decoded \<le> 0 then 1
      else max 0 (1 - of_nat (ds_decodeFailures decoded) / of_nat (ds_decodeAttempts decoded)))"

section \<open>Counters\<close>

lemma relation_failures:
  "decodeRelations s = (e, l, a, f) \<Longrightarrow> f \<le> a"
  by (auto simp: decodeRelations_def Let_def)

lemma decode_region_failures:
  "rg_failures (decodeMemoryIndex s) \<le> rg_attempts (decodeMemoryIndex s)"
  "rg_failures (decodeRetrievalKeys s opts) \<le> rg_attempts (decodeRetrievalKeys s opts)"
  "rg_failures (decodeTemporal s) \<le> rg_attempts (decodeTemporal s)"
  "rg_failures (decodeCodebook s) \<le> rg_attempts (decodeCodebook s)"
  "rg_failures (decodePolicyAtomRegion s fam) \<le> rg_attempts (decodePolicyAtomRegion s fam)"
  by (simp_all only: decodeMemoryIndex_def decodeRetrievalKeys_def decodeTemporal_def decodeCodebook_def
      decodePolicyAtomRegion_def region_failures)

lemma decodeSubstrate_counters:
  "ds_decodeFailures (decodeSubstrate ld s opts) \<le> ds_decodeAttempts (decodeSubstrate ld s opts)"
proof -
  obtain e l a f where r: "decodeRelations s = (e, l, a, f)" by (cases "decodeRelations s") auto
  have c: "length (filter P xs) \<le> length xs" for P and xs :: "temporal_record list" by simp
  show ?thesis
    using relation_failures [OF r] c decode_region_failures(1-4) [of s]
      decode_region_failures(5) [of s Evidence_bundle] decode_region_failures(5) [of s Conflict_lifecycle]
      decode_region_failures(5) [of s Abstention]
    by (simp add: decodeSubstrate_def r Let_def add_mono del: region_failures)
qed

text \<open>
  Fact: whatever the words of the state, decoding counts no more failures than attempts, and the
  structural validity lies in [0, 1]; without a lens-diversity collapse it is 1 exactly when
  nothing failed.
\<close>

theorem structuralValidity_bounds:
  "(let d = decodeSubstrate ld s opts in
    ds_decodeFailures d \<le> ds_decodeAttempts d \<and>
    0 \<le> ds_decodedSlots d \<and>
    0 \<le> structuralValidity d \<and> structuralValidity d \<le> 1 \<and>
    (structuralValidity d = 1 \<longleftrightarrow> ds_lensDiversityOk d \<noteq> Some False \<and> ds_decodeFailures d = 0))"
proof -
  define d where "d = decodeSubstrate ld s opts"
  have le: "ds_decodeFailures d \<le> ds_decodeAttempts d" by (simp add: d_def decodeSubstrate_counters)
  have slots: "ds_decodedSlots d = int (ds_decodeAttempts d) - int (ds_decodeFailures d)"
    by (simp add: d_def decodeSubstrate_def Let_def case_prod_beta)
  have q: "0 \<le> (of_nat (ds_decodeFailures d) / of_nat (ds_decodeAttempts d) :: rat)"
    "of_nat (ds_decodeFailures d) / of_nat (ds_decodeAttempts d) \<le> (1 :: rat)"
    using le by (cases "ds_decodeAttempts d = 0"; simp add: divide_le_eq_1)+
  have z: "(of_nat (ds_decodeFailures d) / of_nat (ds_decodeAttempts d) = (0 :: rat)) \<longleftrightarrow> ds_decodeFailures d = 0"
    if "0 < ds_decodeAttempts d" using that by auto
  show ?thesis
    using le slots q z by (auto simp: Let_def structuralValidity_def max_def simp flip: d_def)
qed

section \<open>The hard gate between the two readings\<close>

text \<open>
  Fact: the words shared by the dense keys and the policy atoms are read in exactly one way.
  In policy mode there are no retrieval keys and no codebook entries; otherwise there are no
  policy atoms and the reserved policy words are not counted.
\<close>

theorem decodeSubstrate_hard_gate:
  "(let d = decodeSubstrate ld s opts in
    if policyAtomsMode opts = Some True
    then ds_retrievalKeys d = [] \<and> ds_codebook d = [] \<and>
      ds_evidenceBundleAtoms d = rg_items (decodePolicyAtomRegion s Evidence_bundle) \<and>
      ds_conflictLifecycleAtoms d = rg_items (decodePolicyAtomRegion s Conflict_lifecycle) \<and>
      ds_abstentionAtoms d = rg_items (decodePolicyAtomRegion s Abstention)
    else ds_evidenceBundleAtoms d = [] \<and> ds_conflictLifecycleAtoms d = [] \<and> ds_abstentionAtoms d = [] \<and>
      ds_policyReservedNonZeroWords d = 0 \<and>
      ds_retrievalKeys d = rg_items (decodeRetrievalKeys s opts) \<and> ds_codebook d = rg_items (decodeCodebook s))"
  by (simp add: decodeSubstrate_def Let_def case_prod_beta)

text \<open>
  Fact: every edge of a decoded substrate joins two valid memory slots with a common domain bit,
  and every temporal record names an existing slot, revoked when the record is stale.
\<close>

theorem decodeSubstrate_cross_region:
  "list_all (\<lambda>e. case (slot_at (ds_memoryIndex (decodeSubstrate ld s opts)) (re_sourceSlot e),
                    slot_at (ds_memoryIndex (decodeSubstrate ld s opts)) (re_targetSlot e)) of
       (Some src, Some tgt) \<Rightarrow> mi_valid src \<and> mi_valid tgt \<and> (mi_domainBits src AND mi_domainBits tgt) \<noteq> 0
     | _ \<Rightarrow> False) (ds_relations (decodeSubstrate ld s opts)) \<and>
   list_all (\<lambda>t. case slot_at (ds_memoryIndex (decodeSubstrate ld s opts)) (tr_memorySlot t) of
       None \<Rightarrow> False | Some slot \<Rightarrow> if tr_currentStaleFlag t then mi_revoked slot else True)
     (ds_temporal (decodeSubstrate ld s opts))"
  by (auto simp: decodeSubstrate_def Let_def case_prod_beta list_all_iff relationEdgeValid_def temporalRecordValid_def
      split: option.splits if_splits)

end
