(* ===== verification/Validate.thy ===== *)
theory Validate
  imports Decoder
begin

text \<open>
  \<open>src/state/validate.ts\<close>: the reserved-bit masks of the 1024 words, and the typed-grammar
  check of the policy regions.
\<close>

section \<open>Errors\<close>

datatype patch_error_code = E01 | E02 | E03 | E04 | E05

section \<open>Reserved masks\<close>

definition UINT256_MAX :: int where
  "UINT256_MAX = push_bit 256 1 - 1"

definition flagsMask :: "int \<Rightarrow> int \<Rightarrow> int" where
  "flagsMask hiInclusive loInclusive =
     (if hiInclusive < loInclusive then 0
      else let width = hiInclusive - loInclusive + 1 in
        bigint_shl (bigint_shl 1 width - 1) loInclusive)"

definition headerReservedMask :: "int \<Rightarrow> int" where
  "headerReservedMask wordIdx =
     (if wordIdx = 0 then
        (let reservedLow = push_bit 192 1 - 1; flagsReserved = flagsMask 207 193
         in reservedLow OR flagsReserved)
      else if wordIdx = 1 then push_bit 128 1 - 1
      else if wordIdx \<in> {2, 3, 4, 5, 6} then 0
      else if wordIdx = 7 then 0
      else if wordIdx = 8 then push_bit 64 1 - 1
      else if wordIdx \<in> {9, 10} then 0
      else UINT256_MAX)"

definition memoryIndexSlotReservedMask :: "int \<Rightarrow> int" where
  "memoryIndexSlotReservedMask slotWord = (if slotWord = 0 then 0 else if slotWord = 1 then 0 else 0)"

definition retrievalKeySlotReservedMask :: "int \<Rightarrow> int" where
  "retrievalKeySlotReservedMask slotWord = 0"

definition codebookSlotReservedMask :: "int \<Rightarrow> int" where
  "codebookSlotReservedMask slotWord = 0"

definition reservedMask :: "int \<Rightarrow> int" where
  "reservedMask wordIdx =
     (if wordIdx \<ge> RESERVED_START \<and> wordIdx \<le> RESERVED_END then UINT256_MAX
      else if wordIdx \<ge> HEADER_START \<and> wordIdx \<le> HEADER_END then headerReservedMask wordIdx
      else if wordIdx \<ge> MEMORY_INDEX_START \<and> wordIdx \<le> MEMORY_INDEX_END then memoryIndexSlotReservedMask 0
      else if wordIdx \<ge> RETRIEVAL_KEYS_START \<and> wordIdx \<le> RETRIEVAL_KEYS_END
        then retrievalKeySlotReservedMask ((wordIdx - RETRIEVAL_KEYS_START) mod 8)
      else if wordIdx \<ge> RELATIONS_START \<and> wordIdx \<le> RELATIONS_END then 0
      else if wordIdx \<ge> TEMPORAL_START \<and> wordIdx \<le> TEMPORAL_END then push_bit 152 1 - 1
      else if wordIdx \<ge> CODEBOOK_START \<and> wordIdx \<le> CODEBOOK_END
        then codebookSlotReservedMask ((wordIdx - CODEBOOK_START) mod 2)
      else 0)"

definition RESERVED_MASKS :: "int list" where
  "RESERVED_MASKS = map (\<lambda>i. reservedMask (int i)) [0..<1024]"

section \<open>The checks\<close>

definition hasNonZeroReservedBits :: "cortex_state \<Rightarrow> bool" where
  "hasNonZeroReservedBits state =
     list_ex (\<lambda>i. let msk = at_or 0 RESERVED_MASKS i in msk \<noteq> 0 \<and> (at_or 0 (words state) i AND msk) \<noteq> 0)
       [0..<WORD_COUNT]"

definition validateReservedBits :: "cortex_state \<Rightarrow> patch_error_code option" where
  "validateReservedBits state = (if hasNonZeroReservedBits state then Some E04 else None)"

text \<open>The loop over the three families returns the first error; then the reserved region.\<close>

definition validatePolicyRegions :: "cortex_state \<Rightarrow> patch_error_code option" where
  "validatePolicyRegions state =
     (case List.find (\<lambda>fam. rg_failures (decodePolicyAtomRegion state fam) > 0)
        [Evidence_bundle, Conflict_lifecycle, Abstention] of
        Some fam \<Rightarrow> Some E02
      | None \<Rightarrow> if policyReservedNonZeroWords state > 0 then Some E04 else None)"

section \<open>What the masks enforce\<close>

lemma nth_RESERVED_MASKS [simp]: "i < 1024 \<Longrightarrow> at_or 0 RESERVED_MASKS i = reservedMask (int i)"
  by (simp add: RESERVED_MASKS_def)

text \<open>The word-by-word meaning: no reserved bit is set.\<close>

definition reserved_clear :: "nat \<Rightarrow> int \<Rightarrow> bool" where
  "reserved_clear i w \<longleftrightarrow> w AND reservedMask (int i) = 0"

lemma hasNonZeroReservedBits_iff:
  "length (words s) = 1024 \<Longrightarrow>
   \<not> hasNonZeroReservedBits s \<longleftrightarrow> (\<forall>i<1024. reserved_clear i (words s ! i))"
proof -
  have m: "msk \<noteq> 0 \<and> (w AND msk) \<noteq> 0 \<longleftrightarrow> (w AND msk) \<noteq> 0" for w msk :: int by auto
  assume "length (words s) = 1024"
  then show ?thesis
    by (auto simp: hasNonZeroReservedBits_def list_ex_iff WORD_COUNT_def reserved_clear_def Let_def m)
qed

lemma and_max: "uint256 w \<Longrightarrow> w AND UINT256_MAX = w"
  using uint256_take [of w] by (simp add: UINT256_MAX_def take_bit_eq_mask mask_eq_exp_minus_1)

lemma and_low_mask: "w AND (push_bit n 1 - 1) = 0 \<longleftrightarrow> take_bit n w = 0" for w :: int
  by (simp add: take_bit_eq_mask mask_eq_exp_minus_1)

lemma word0_mask: "reservedMask 0 = mask 192 OR push_bit 193 (mask 15)"
  by (simp add: reservedMask_def RANGES headerReservedMask_def flagsMask_def bigint_shl_def Let_def mask_eq_exp_minus_1)

lemma word0_clear:
  assumes "uint256 w"
  shows "w AND reservedMask 0 = 0 \<longleftrightarrow> (\<forall>n. bit w n \<longrightarrow> n = 192 \<or> 208 \<le> n \<and> n < 256)"
proof -
  have m: "bit (reservedMask 0) n \<longleftrightarrow> n < 192 \<or> 193 \<le> n \<and> n < 208" for n
    unfolding word0_mask bit_or_iff bit_push_bit_iff bit_mask_iff by auto
  have b: "bit w n \<Longrightarrow> n < 256" for n using assms bounded_bit [of w 256 n] by (simp add: uint256_def)
  have "w AND reservedMask 0 = 0 \<longleftrightarrow> (\<forall>n. \<not> (bit w n \<and> bit (reservedMask 0) n))"
    by (auto simp: bit_eq_iff bit_and_iff)
  also have "\<dots> \<longleftrightarrow> (\<forall>n. bit w n \<longrightarrow> n = 192 \<or> 208 \<le> n \<and> n < 256)"
  proof -
    have "\<not> (n < 192 \<or> 193 \<le> n \<and> n < 208) \<longleftrightarrow> n = 192 \<or> 208 \<le> n" for n :: nat by linarith
    then show ?thesis using b by (auto simp: m)
  qed
  finally show ?thesis .
qed

text \<open>
  Fact: a well-formed state passes the reserved-bit check exactly when the words 992 to 1023 and
  11 to 31 are zero, the temporal words have their low 152 bits clear, words 1 and 8 have their
  low 128 and 64 bits clear, and word 0 has no bit set outside the magic, version and word
  count (bits 208 to 255) and the genesis flag (bit 192).
\<close>

theorem validateReservedBits_iff:
  assumes "wf_state s"
  shows "validateReservedBits s = None \<longleftrightarrow>
    (\<forall>i. 992 \<le> i \<and> i < 1024 \<longrightarrow> words s ! i = 0) \<and>
    (\<forall>i. 11 \<le> i \<and> i < 32 \<longrightarrow> words s ! i = 0) \<and>
    (\<forall>i. 800 \<le> i \<and> i < 896 \<longrightarrow> take_bit 152 (words s ! i) = 0) \<and>
    take_bit 128 (words s ! 1) = 0 \<and> take_bit 64 (words s ! 8) = 0 \<and>
    (\<forall>n. bit (words s ! 0) n \<longrightarrow> n = 192 \<or> 208 \<le> n \<and> n < 256)"
  (is "_ \<longleftrightarrow> ?R")
proof -
  have l: "length (words s) = 1024" using assms by (rule wf_state_length)
  have u: "i < 1024 \<Longrightarrow> uint256 (words s ! i)" for i using assms by (rule wf_state_word)
  have c: "reserved_clear i (words s ! i) \<longleftrightarrow>
     (if 992 \<le> i then words s ! i = 0
      else if i = 0 then (\<forall>n. bit (words s ! 0) n \<longrightarrow> n = 192 \<or> 208 \<le> n \<and> n < 256)
      else if i = 1 then take_bit 128 (words s ! 1) = 0
      else if i = 8 then take_bit 64 (words s ! 8) = 0
      else if 11 \<le> i \<and> i < 32 then words s ! i = 0
      else if 800 \<le> i \<and> i < 896 then take_bit 152 (words s ! i) = 0 else True)" if "i < 1024" for i
  proof (cases "i = 0")
    case True
    then show ?thesis using word0_clear [OF u [of 0]] by (simp add: reserved_clear_def)
  next
    case False
    then show ?thesis using that u [OF that]
      by (auto simp: reserved_clear_def reservedMask_def RANGES headerReservedMask_def
          memoryIndexSlotReservedMask_def retrievalKeySlotReservedMask_def codebookSlotReservedMask_def
          and_max and_low_mask [of _ 64, simplified] and_low_mask [of _ 128, simplified]
          and_low_mask [of _ 152, simplified]; presburger)
  qed
  have "validateReservedBits s = None \<longleftrightarrow> (\<forall>i<1024. reserved_clear i (words s ! i))"
    using hasNonZeroReservedBits_iff [OF l] unfolding validateReservedBits_def by auto
  also have "\<dots> \<longleftrightarrow> ?R"
  proof
    assume a: "\<forall>i<1024. reserved_clear i (words s ! i)"
    have c': "i < 1024 \<Longrightarrow> (if 992 \<le> i then words s ! i = 0
      else if i = 0 then (\<forall>n. bit (words s ! 0) n \<longrightarrow> n = 192 \<or> 208 \<le> n \<and> n < 256)
      else if i = 1 then take_bit 128 (words s ! 1) = 0
      else if i = 8 then take_bit 64 (words s ! 8) = 0
      else if 11 \<le> i \<and> i < 32 then words s ! i = 0
      else if 800 \<le> i \<and> i < 896 then take_bit 152 (words s ! i) = 0 else True)" for i
      using a c [of i] by blast
    show ?R using c' [of 0] c' [of 1] c' [of 8] c' by (auto split: if_splits)
  next
    assume ?R
    then show "\<forall>i<1024. reserved_clear i (words s ! i)" by (simp add: c)
  qed
  finally show ?thesis .
qed

lemma zero_reserved: "\<not> hasNonZeroReservedBits zero_state"
  by (simp add: hasNonZeroReservedBits_iff zero_state_def reserved_clear_def)

theorem validateReservedBits_iff_witness: "validateReservedBits zero_state = None"
  using validateReservedBits_iff [OF wf_zero_state] by (simp add: zero_state_def)

end
