(* ===== verification/Patch.thy ===== *)
theory Patch
  imports Merkle Validate
begin

text \<open>
  \<open>src/state/patch.ts\<close>: the wire format of patches and their application to a state.  A read
  of an index past the end of \<open>patch.indices\<close> is \<open>undefined\<close>: every comparison with it is
  false and a write to it changes no word, as in the code.
\<close>

section \<open>Patches\<close>

record patch =
  patchType :: int
  wordCount :: int
  scoreDelta :: int
  parentStateRoot :: bytes
  indices :: "int list"
  newWords :: "int list"

definition MAX_WIRE_SCORE_DELTA :: int where
  "MAX_WIRE_SCORE_DELTA = push_bit 63 1 - 1"

section \<open>Patch types\<close>

definition patchTypeRange :: "int \<Rightarrow> (int \<times> int) option" where
  "patchTypeRange pt =
     map_option snd (List.find (\<lambda>r. fst r = pt) PATCH_TYPE_RANGE_TABLE)"

text \<open>The loop over the indices with the set \<open>seen\<close>; \<open>None\<close> is \<open>ok\<close>, otherwise the reason.\<close>

fun validate_indices :: "int list \<Rightarrow> int list \<Rightarrow> string option" where
  "validate_indices seen [] = None"
| "validate_indices seen (idx # rest) =
     (if idx < 0 \<or> idx \<ge> int WORD_COUNT then Some ''index is outside state word range''
      else if idx \<ge> RESERVED_START \<and> idx \<le> RESERVED_END then Some ''index is reserved''
      else if idx \<in> set seen then Some ''duplicate word index''
      else validate_indices (set_add seen idx) rest)"

definition validatePatchType :: "int \<Rightarrow> int list \<Rightarrow> string option" where
  "validatePatchType pt idxs =
     (case validate_indices [] idxs of
        Some reason \<Rightarrow> Some reason
      | None \<Rightarrow>
         if pt = MIXED then None
         else case patchTypeRange pt of
             None \<Rightarrow> Some ''unknown patchType''
           | Some (lo, hi) \<Rightarrow>
               if list_ex (\<lambda>idx. idx < lo \<or> idx > hi) idxs then Some ''patchType cannot target index''
               else None)"

section \<open>LEB128\<close>

text \<open>The \<open>do\<close> loop: \<open>&\<close> and \<open>>>>\<close> act on the low 32 bits.\<close>

function leb_loop :: "int \<Rightarrow> bytes" where
  "leb_loop n =
     (let b = n AND 0x7f;
          n' = drop_bit 7 (take_bit 32 n)
      in if n' \<noteq> 0 then word_of_int (b OR 0x80) # leb_loop n' else [word_of_int b])"
  by pat_completeness auto
termination
proof (relation "measure (\<lambda>n. nat (take_bit 32 n))", goal_cases)
  case (2 n b m)
  define t where "t = take_bit 32 n"
  have t: "0 \<le> t" "t < 2 ^ 32" using take_bit_int_less_exp [of 32 n] by (simp_all add: t_def)
  have "m = t div 128" using 2 by (simp add: t_def drop_bit_eq_div)
  moreover from this t have "take_bit 32 m = m" by (simp add: take_bit_int_eq_self)
  moreover have "t div 128 < t" if "t div 128 \<noteq> 0"
    using that t int_div_less_self [of t 128] by (cases "t = 0") auto
  ultimately show ?case using t 2 by (cases "t = 0") (simp_all add: t_def [symmetric])
qed simp

declare leb_loop.simps [simp del]

definition encodeLEB128 :: "int \<Rightarrow> js_error + bytes" where
  "encodeLEB128 n =
     (if n < 0 then Inl (RangeError ''encodeLEB128: negative value'') else Inr (leb_loop n))"

text \<open>The value and \<open>bytesRead\<close>.\<close>

definition decodeLEB128 :: "bytes \<Rightarrow> nat \<Rightarrow> js_error + int \<times> nat" where
  "decodeLEB128 data offset =
     (if offset \<ge> length data then Inl (RangeError ''decodeLEB128: unexpected end of data'')
      else let first = uint (data ! offset); v = first AND 0x7f in
      if first AND 0x80 = 0 then Inr (v, 1)
      else if offset + 1 \<ge> length data then Inl (RangeError ''decodeLEB128: unexpected end of data'')
      else let second = uint (data ! (offset + 1)) in
      if second AND 0x80 \<noteq> 0 then Inl (RangeError ''decodeLEB128: varint too long'')
      else let v2 = v OR push_bit 7 (second AND 0x7f) in
      if v2 < 128 then Inl (RangeError ''decodeLEB128: non-canonical word index'')
      else if v2 \<ge> int WORD_COUNT then Inl (RangeError ''decodeLEB128: word index out of range'')
      else Inr (v2, 2))"

section \<open>Wire format\<close>

definition u32_bytes :: "int \<Rightarrow> bytes" where
  "u32_bytes x = map (\<lambda>k. word_of_int (drop_bit (24 - 8 * k) x AND 0xff)) [0..<4]"

text \<open>\<open>out\<close> is filled from front to back by segments that add up to its size.\<close>

definition encodePatch :: "patch \<Rightarrow> js_error + bytes" where
  "encodePatch p =
     (if wordCount p < 1 \<or> wordCount p > 4 then Inl (RangeError ''encodePatch: wordCount must be 1-4'')
      else if int (length (indices p)) \<noteq> wordCount p \<or> int (length (newWords p)) \<noteq> wordCount p
      then Inl (RangeError ''encodePatch: indices/newWords length mismatch with wordCount'')
      else case validatePatchType (patchType p) (indices p) of
        Some reason \<Rightarrow> Inl (RangeError (''encodePatch: '' @ reason))
      | None \<Rightarrow> bind_res (map_res encodeLEB128 (indices p)) (\<lambda>encodedIndices.
        if scoreDelta p < 0 \<or> scoreDelta p > MAX_WIRE_SCORE_DELTA
        then Inl (RangeError ''encodePatch: scoreDelta outside non-negative int64 range'')
        else let sdHi = take_bit 32 (drop_bit 32 (scoreDelta p));
                 sdLo = take_bit 32 (scoreDelta p AND 0xffffffff) in
        if length (parentStateRoot p) \<noteq> 32
        then Inl (RangeError ''encodePatch: parentStateRoot must be 32 bytes'')
        else Inr ([word_of_int (patchType p AND 0xff), word_of_int (wordCount p)] @
          u32_bytes sdHi @ u32_bytes sdLo @ parentStateRoot p @
          concat (map (\<lambda>i. encodedIndices ! i @ writeBigEndian32 (replicate 32 0) 0 (at_or 0 (newWords p) i))
            [0..<nat (wordCount p)]))))"

definition read_u32 :: "bytes \<Rightarrow> nat \<Rightarrow> int" where
  "read_u32 data offset =
     push_bit 24 (uint (data ! offset)) OR push_bit 16 (uint (data ! (offset + 1))) OR
     push_bit 8 (uint (data ! (offset + 2))) OR uint (data ! (offset + 3))"

text \<open>One round of the loop over the words, on the offset and the two arrays.\<close>

definition decode_step :: "bytes \<Rightarrow> nat \<times> int list \<times> int list \<Rightarrow> nat \<Rightarrow> js_error + nat \<times> int list \<times> int list" where
  "decode_step data = (\<lambda>(offset, idxs, ws) i.
     bind_res (decodeLEB128 data offset) (\<lambda>(idx, bytesRead).
       let offset' = offset + bytesRead in
       if offset' + 32 > length data then Inl (RangeError ''decodePatch: truncated at newWord'')
       else Inr (offset' + 32, idxs @ [idx], ws @ [readBigEndian32 data offset'])))"

definition decodePatch :: "bytes \<Rightarrow> js_error + patch" where
  "decodePatch data =
     (if length data < 42 then Inl (RangeError ''decodePatch: too short'')
      else let pt = uint (data ! 0); wc = uint (data ! 1) in
      if wc < 1 \<or> wc > 4 then Inl (RangeError ''decodePatch: invalid wordCount'')
      else let sdHi = read_u32 data 2; sdLo = read_u32 data 6; sd = push_bit 32 sdHi OR sdLo in
      if sd > MAX_WIRE_SCORE_DELTA then Inl (RangeError ''decodePatch: scoreDelta outside non-negative int64 range'')
      else let parentRoot = take 32 (drop 10 data) in
      bind_res (fold_res (decode_step data) (42, [], []) [0..<nat wc]) (\<lambda>(offset, idxs, ws).
        if offset \<noteq> length data then Inl (RangeError ''decodePatch: trailing bytes'')
        else case validatePatchType pt idxs of
          Some reason \<Rightarrow> Inl (RangeError (''decodePatch: '' @ reason))
        | None \<Rightarrow> Inr \<lparr> patchType = pt, wordCount = wc, scoreDelta = sd, parentStateRoot = parentRoot,
            indices = idxs, newWords = ws \<rparr>))"

section \<open>Canonical policy writes\<close>

definition patchTouchesHeader :: "patch \<Rightarrow> bool" where
  "patchTouchesHeader p =
     list_ex (\<lambda>i. case elem_at (indices p) i of None \<Rightarrow> False
       | Some idx \<Rightarrow> idx \<ge> HEADER_START \<and> idx \<le> HEADER_END) [0..<nat (wordCount p)]"

definition isPolicyMixedCompanionIndex :: "int \<Rightarrow> bool" where
  "isPolicyMixedCompanionIndex idx \<longleftrightarrow>
     (idx \<ge> MEMORY_INDEX_START \<and> idx \<le> MEMORY_INDEX_END) \<or>
     (idx \<ge> RELATIONS_START \<and> idx \<le> RELATIONS_END) \<or>
     (idx \<ge> TEMPORAL_START \<and> idx \<le> TEMPORAL_END)"

definition isPolicyIndex :: "int \<Rightarrow> bool" where
  "isPolicyIndex idx \<longleftrightarrow> idx \<ge> POLICY_EVIDENCE_START \<and> idx \<le> POLICY_ABSTENTION_END"

definition policyWriteIsCanonical :: "patch \<Rightarrow> bool" where
  "policyWriteIsCanonical p =
     (let touchesPolicy = list_ex (\<lambda>i. case elem_at (indices p) i of None \<Rightarrow> False
            | Some idx \<Rightarrow> isPolicyIndex idx) [0..<nat (wordCount p)];
          touchesCompanion = list_ex (\<lambda>i. case elem_at (indices p) i of None \<Rightarrow> False
            | Some idx \<Rightarrow> \<not> isPolicyIndex idx \<and> isPolicyMixedCompanionIndex idx) [0..<nat (wordCount p)]
      in if \<not> touchesPolicy then True
         else if patchType p = POLICY_UPDATE then True
         else if patchType p = MIXED then touchesCompanion
         else False)"

definition policyWriteIsCanonicalForState :: "cortex_state \<Rightarrow> patch \<Rightarrow> bool" where
  "policyWriteIsCanonicalForState state p =
     (if \<not> policyWriteIsCanonical p then False
      else
       (let touchesPolicy = list_ex (\<lambda>i. case elem_at (indices p) i of None \<Rightarrow> False
              | Some idx \<Rightarrow> isPolicyIndex idx) [0..<nat (wordCount p)];
            changedCompanion = list_ex (\<lambda>i. case elem_at (indices p) i of None \<Rightarrow> False
              | Some idx \<Rightarrow> isPolicyMixedCompanionIndex idx \<and>
                  word_at (words state) idx \<noteq> at_or 0 (newWords p) i) [0..<nat (wordCount p)]
        in if \<not> touchesPolicy \<or> patchType p \<noteq> MIXED then True else changedCompanion))"

section \<open>Application\<close>

text \<open>The no-op test, the writes with their range checks, and the checks on the result, which
  \<open>applyPatch\<close> and \<open>applyPatchOntoCurrent\<close> share line by line.\<close>

definition anyChange :: "cortex_state \<Rightarrow> patch \<Rightarrow> bool" where
  "anyChange state p =
     list_ex (\<lambda>i. case_option 0 (word_at (words state)) (elem_at (indices p) i) \<noteq> at_or 0 (newWords p) i)
       [0..<nat (wordCount p)]"

definition write_words :: "cortex_state \<Rightarrow> patch \<Rightarrow> patch_error_code + int list" where
  "write_words state p = fold_res (\<lambda>ws i.
     case elem_at (indices p) i of
       None \<Rightarrow> Inr ws
     | Some idx \<Rightarrow>
         if idx \<ge> RESERVED_START \<and> idx \<le> RESERVED_END then Inl E02
         else if idx < 0 \<or> idx \<ge> int WORD_COUNT then Inl E02
         else Inr (array_set 0 ws (nat idx) (at_or 0 (newWords p) i)))
     (words state) [0..<nat (wordCount p)]"

definition check_result :: "bool \<Rightarrow> int list \<Rightarrow> patch_error_code + cortex_state" where
  "check_result policyMode ws =
     (let resultState = \<lparr> words = ws \<rparr> in
      if hasNonZeroReservedBits resultState then Inl E04
      else if policyMode then
        (case validatePolicyRegions resultState of Some e \<Rightarrow> Inl e | None \<Rightarrow> Inr resultState)
      else Inr resultState)"

definition applyPatch :: "cortex_state \<Rightarrow> patch \<Rightarrow> bool \<Rightarrow> js_error + patch_error_code + cortex_state" where
  "applyPatch state p policyMode =
     (if wordCount p < 1 \<or> wordCount p > 4 then Inr (Inl E03)
      else bind_res (merkleizeState state) (\<lambda>currentRoot. Inr
       (if parentStateRoot p \<noteq> currentRoot then Inl E01
        else if validatePatchType (patchType p) (indices p) \<noteq> None then Inl E02
        else if policyMode \<and> \<not> policyWriteIsCanonicalForState state p then Inl E02
        else if policyMode \<and> patchTouchesHeader p then Inl E02
        else if \<not> anyChange state p then Inl E05
        else bind_res (write_words state p) (check_result policyMode))))"

definition applyPatchOntoCurrent :: "cortex_state \<Rightarrow> patch \<Rightarrow> bool \<Rightarrow> patch_error_code + cortex_state" where
  "applyPatchOntoCurrent current p policyMode =
     (if wordCount p < 1 \<or> wordCount p > 4 then Inl E03
      else if validatePatchType (patchType p) (indices p) \<noteq> None then Inl E02
      else if policyMode \<and> patchTouchesHeader p then Inl E02
      else if policyMode \<and> \<not> policyWriteIsCanonicalForState current p then Inl E02
      else if \<not> anyChange current p then Inl E05
      else bind_res (write_words current p) (check_result policyMode))"

definition patchMatchesEpochParent :: "patch \<Rightarrow> bytes \<Rightarrow> bool" where
  "patchMatchesEpochParent p epochParentRoot \<longleftrightarrow> parentStateRoot p = epochParentRoot"

text \<open>The advertised patch types: name, byte and writable range.\<close>

definition buildAllowedPatchTypes :: "string option \<Rightarrow> (string \<times> int \<times> int \<times> int) list" where
  "buildAllowedPatchTypes pipelineVersion =
     (let r5 = (pipelineVersion = Some ''coretex-retrieval-v2-policy-r5'');
          r5Suppressed = [KEY_UPDATE, CODEBOOK_UPDATE, HEADER_UPDATE]
      in concat (map (\<lambda>(name, b).
           if r5 \<and> b \<in> set r5Suppressed then []
           else if b = MIXED then [(name, b, if r5 then MEMORY_INDEX_START else 0, CODEBOOK_END)]
           else case patchTypeRange b of Some (s, e) \<Rightarrow> [(name, b, s, e)] | None \<Rightarrow> [])
         [(''KEY_UPDATE'', KEY_UPDATE), (''SLOT_REPLACE'', SLOT_REPLACE), (''TEMPORAL_UPDATE'', TEMPORAL_UPDATE),
          (''RELATION_UPDATE'', RELATION_UPDATE), (''CODEBOOK_UPDATE'', CODEBOOK_UPDATE),
          (''HEADER_UPDATE'', HEADER_UPDATE), (''POLICY_UPDATE'', POLICY_UPDATE), (''MIXED'', MIXED)]))"

end
