(* ===== verification/Patch_Wire.thy ===== *)
theory Patch_Wire
  imports Patch
begin

text \<open>
  The wire format of patches: LEB128 indices are canonical, and encoding and decoding of
  patches are inverse to each other, so a patch has exactly one serialization.
\<close>

section \<open>LEB128\<close>

lemma and_7f: "x AND 0x7f = take_bit 7 (x :: int)"
  by (simp add: take_bit_eq_mask mask_eq_exp_minus_1)

lemma and_80: "x AND 0x80 = 0 \<longleftrightarrow> \<not> bit (x :: int) 7"
  using and_exp_eq_0_iff_not_bit [of x 7] by simp

lemma uint_small: "0 \<le> n \<Longrightarrow> n < 256 \<Longrightarrow> uint (word_of_int n :: byte) = n"
  by (simp add: uint_word_of_int_eq take_bit_int_eq_self)

lemma uint_byte_bounds: "0 \<le> uint (b :: byte) \<and> uint b < 256"
  using uint_lt2p [of b] by simp

lemma leb_small: "0 \<le> n \<Longrightarrow> n < 128 \<Longrightarrow> leb_loop n = [word_of_int n]"
  by (subst leb_loop.simps) (simp add: Let_def and_7f take_bit_int_eq_self drop_bit_eq_div)

lemma leb_two:
  assumes "128 \<le> n" and "n < 16384"
  shows "leb_loop n = [word_of_int (take_bit 7 n OR 0x80), word_of_int (n div 128)]"
proof -
  have "drop_bit 7 (take_bit 32 n) = n div 128"
    using assms by (simp add: take_bit_int_eq_self drop_bit_eq_div)
  moreover have "0 \<le> n div 128" "n div 128 < 128" "n div 128 \<noteq> 0" using assms by auto
  ultimately show ?thesis
    by (subst leb_loop.simps) (simp add: Let_def and_7f leb_small)
qed

lemma byte_split: "0 \<le> x \<Longrightarrow> x < 256 \<Longrightarrow> bit x 7 \<Longrightarrow> take_bit 7 x OR 0x80 = (x :: int)"
proof -
  assume x: "0 \<le> x" "x < 256" "bit x 7"
  have "bit (take_bit 7 x OR 2 ^ 7) n = bit x n" for n
  proof -
    have "bit x n \<Longrightarrow> n < 8" using bounded_bit [of x 8 n] x by simp
    moreover have "n < 8 \<Longrightarrow> n < 7 \<or> n = 7" by linarith
    ultimately show ?thesis using x(3) by (simp only: bit_or_iff bit_take_bit_iff bit_exp_iff) auto
  qed
  then have "take_bit 7 x OR 2 ^ 7 = x" by (intro bit_eqI) auto
  then show ?thesis by simp
qed

lemma low_or_80: "take_bit 7 (take_bit 7 n OR 0x80) = take_bit 7 (n :: int)" "bit (take_bit 7 n OR 0x80 :: int) 7"
  "0 \<le> take_bit 7 n OR 0x80" "take_bit 7 n OR (0x80 :: int) < 256"
proof -
  have e: "(0x80 :: int) = 2 ^ 7" by simp
  show "take_bit 7 (take_bit 7 n OR 0x80) = take_bit 7 (n :: int)"
    unfolding e by (rule bit_eqI) (auto simp: bit_or_iff bit_take_bit_iff bit_exp_iff)
  show "bit (take_bit 7 n OR 0x80 :: int) 7" unfolding e by (simp only: bit_or_iff bit_exp_iff) simp
  have "take_bit 7 n < 2 ^ 8" using take_bit_int_less_exp [of 7 n] by simp
  then show "0 \<le> take_bit 7 n OR 0x80" "take_bit 7 n OR (0x80 :: int) < 256"
    using or_bounds [of "take_bit 7 n" 8 "0x80"] by simp_all
qed

lemma join_7: "0 \<le> h \<Longrightarrow> take_bit 7 x OR push_bit 7 h = take_bit 7 x + 128 * (h :: int)"
proof -
  have "take_bit 7 x OR push_bit 7 h = take_bit 7 x + push_bit 7 h"
    by (rule disjunctive_add [symmetric]) (auto simp: bit_take_bit_iff bit_push_bit_iff)
  then show ?thesis by (simp add: push_bit_eq_mult)
qed

lemma split_7: "take_bit 7 x + 128 * (x div 128) = (x :: int)"
  by (simp add: take_bit_eq_mod)

lemma decode_leb_loop:
  assumes "0 \<le> n" and "n < 1024"
  shows "decodeLEB128 (pre @ leb_loop n @ post) (length pre) = Inr (n, length (leb_loop n))"
proof (cases "n < 128")
  case True
  then have "\<not> bit n 7" using bounded_bit [of n 7 7] assms by auto
  with True show ?thesis using assms
    by (simp add: decodeLEB128_def leb_small uint_small Let_def and_7f and_80 nth_append take_bit_int_eq_self)
next
  case False
  define h where "h = n div 128"
  have h: "0 \<le> h" "h < 8" using assms by (auto simp: h_def)
  then have nb: "\<not> bit h 7" and t: "take_bit 7 h = h" using bounded_bit [of h 7 7] by (auto simp: take_bit_int_eq_self)
  have n: "take_bit 7 n OR push_bit 7 h = n" using h by (simp add: join_7) (simp add: h_def split_7)
  have u: "uint (word_of_int (take_bit 7 n OR 0x80) :: byte) = take_bit 7 n OR 0x80" "uint (word_of_int h :: byte) = h"
    using low_or_80(3,4) [of n] h by (auto simp: uint_small)
  have l: "leb_loop n = [word_of_int (take_bit 7 n OR 0x80), word_of_int h]"
    using False assms by (simp add: leb_two h_def)
  show ?thesis
    unfolding decodeLEB128_def l using False assms nb t n low_or_80(1,2) [of n]
    by (simp add: u Let_def and_7f and_80 nth_append WORD_COUNT_def)
qed

lemma decodeLEB128_canonical:
  assumes "decodeLEB128 data offset = Inr (v, k)"
  shows "0 \<le> v \<and> v < 1024 \<and> offset + k \<le> length data \<and> take k (drop offset data) = leb_loop v"
proof -
  have o: "offset < length data" using assms by (auto simp: decodeLEB128_def split: if_splits)
  define f where "f = data ! offset"
  have fb: "0 \<le> uint f" "uint f < 256" using uint_byte_bounds [of f] by auto
  have d: "drop offset data = f # drop (Suc offset) data" using o by (simp add: f_def Cons_nth_drop_Suc)
  show ?thesis
  proof (cases "bit (uint f) 7")
    case False
    then have vk: "v = take_bit 7 (uint f)" "k = 1"
      using assms o by (auto simp: decodeLEB128_def Let_def and_7f and_80 f_def [symmetric] split: if_splits)
    have "take_bit 7 (uint f) = uint f"
    proof (rule bit_eqI)
      fix n show "bit (take_bit 7 (uint f)) n = bit (uint f) n"
        using False bounded_bit [of "uint f" 8 n] fb by (auto simp: bit_take_bit_iff less_Suc_eq numeral_eq_Suc)
    qed
    moreover have "uint f < 128" using take_bit_int_less_exp [of 7 "uint f"] calculation by simp
    ultimately show ?thesis using vk fb o d by (simp add: leb_small)
  next
    case True
    define g where "g = data ! Suc offset"
    have o2: "offset + 1 < length data" "\<not> bit (uint g) 7" and
      v: "v = take_bit 7 (uint f) OR push_bit 7 (take_bit 7 (uint g))" "128 \<le> v" "v < 1024" "k = 2"
      using assms o True
      by (auto simp: decodeLEB128_def Let_def and_7f and_80 f_def [symmetric] g_def [symmetric] WORD_COUNT_def split: if_splits)
    have gb: "0 \<le> uint g" "uint g < 256" using uint_byte_bounds [of g] by auto
    have g: "take_bit 7 (uint g) = uint g"
    proof (rule bit_eqI)
      fix n show "bit (take_bit 7 (uint g)) n = bit (uint g) n"
        using o2(2) bounded_bit [of "uint g" 8 n] gb by (auto simp: bit_take_bit_iff less_Suc_eq numeral_eq_Suc)
    qed
    have vs: "v = take_bit 7 (uint f) + 128 * uint g" using v(1) gb by (simp add: g join_7)
    have r: "0 \<le> take_bit 7 (uint f)" "take_bit 7 (uint f) < 128" using take_bit_int_less_exp [of 7 "uint f"] by auto
    then have "v div 128 = uint g" "take_bit 7 v = take_bit 7 (uint f)"
      unfolding vs by (simp_all add: take_bit_eq_mod)
    then have "leb_loop v = [f, g]"
      using v(2,3) byte_split [OF fb True] by (simp add: leb_two)
    moreover have "take 2 (drop offset data) = [f, g]"
      using o2(1) d by (simp add: g_def numeral_2_eq_2 Cons_nth_drop_Suc [symmetric])
    ultimately show ?thesis using v o2 by simp
  qed
qed

text \<open>
  Fact: a word index is decoded from exactly one byte string, the one the encoder writes:
  decoding the encoding of an index gives it back with the number of bytes read, and whatever
  decodes is below 1024 and was the encoding of the decoded index.
\<close>

theorem LEB128_canonical:
  "(if 0 \<le> n \<and> n < 1024
    then (case encodeLEB128 n of Inl e \<Rightarrow> False
      | Inr bs \<Rightarrow> decodeLEB128 (pre @ bs @ post) (length pre) = Inr (n, length bs) \<and> length bs \<le> 2) else True) \<and>
   (case decodeLEB128 data offset of Inl e \<Rightarrow> True
      | Inr (v, k) \<Rightarrow> 0 \<le> v \<and> v < 1024 \<and> encodeLEB128 v = Inr (take k (drop offset data)))"
proof -
  have "length (leb_loop n) \<le> 2" if "0 \<le> n" "n < 1024"
    using that by (cases "n < 128") (simp_all add: leb_small leb_two)
  then show ?thesis
    using decode_leb_loop [of n pre post] decodeLEB128_canonical [of data offset]
    by (auto simp: encodeLEB128_def split: sum.split)
qed

section \<open>Valid patch types\<close>

lemma validate_indices_None:
  "validate_indices seen idxs = None \<longleftrightarrow>
    list_all (\<lambda>i. 0 \<le> i \<and> i < 992) idxs \<and> distinct idxs \<and> set idxs \<inter> set seen = {}"
proof (induction idxs arbitrary: seen)
  case (Cons i idxs)
  then show ?case by (auto simp: RANGES)
qed simp

definition type_allows :: "int \<Rightarrow> int \<Rightarrow> bool" where
  "type_allows pt i \<longleftrightarrow>
     pt = 0x01 \<and> 384 \<le> i \<and> i \<le> 671 \<or> pt = 0x02 \<and> 32 \<le> i \<and> i \<le> 383 \<or>
     pt = 0x03 \<and> 800 \<le> i \<and> i \<le> 895 \<or> pt = 0x04 \<and> 672 \<le> i \<and> i \<le> 799 \<or>
     pt = 0x05 \<and> 896 \<le> i \<and> i \<le> 991 \<or> pt = 0x06 \<and> 0 \<le> i \<and> i \<le> 31 \<or>
     pt = 0x07 \<and> 384 \<le> i \<and> i \<le> 671 \<or> pt = 0xFF \<and> 0 \<le> i \<and> i \<le> 991"

lemma patchTypeRange_eq:
  "patchTypeRange pt =
    (if pt = 1 then Some (384, 671) else if pt = 2 then Some (32, 383) else if pt = 3 then Some (800, 895)
     else if pt = 4 then Some (672, 799) else if pt = 5 then Some (896, 991) else if pt = 6 then Some (0, 31)
     else if pt = 7 then Some (384, 671) else None)"
  by (auto simp: patchTypeRange_def PATCH_TYPE_RANGE_TABLE_def PATCH_TYPE RANGES)

lemma type_allows_range: "type_allows pt i \<Longrightarrow> 0 \<le> i \<and> i < 992"
  by (auto simp: type_allows_def)

lemma type_allows_table:
  "pt \<noteq> 255 \<Longrightarrow> type_allows pt i \<longleftrightarrow> (\<exists>lo hi. patchTypeRange pt = Some (lo, hi) \<and> lo \<le> i \<and> i \<le> hi)"
  by (auto simp: type_allows_def patchTypeRange_eq split: if_splits)

lemma patchTypeRange_known: "pt \<noteq> 255 \<Longrightarrow> pt \<in> {1, 2, 3, 4, 5, 6, 7, 255} \<longleftrightarrow> patchTypeRange pt \<noteq> None"
  by (auto simp: patchTypeRange_eq split: if_splits)

lemma validatePatchType_None:
  "validatePatchType pt idxs = None \<longleftrightarrow>
    pt \<in> {1, 2, 3, 4, 5, 6, 7, 255} \<and> distinct idxs \<and> list_all (type_allows pt) idxs"
proof (cases "validate_indices [] idxs")
  case None
  then have base: "list_all (\<lambda>i. 0 \<le> i \<and> i < 992) idxs" "distinct idxs"
    by (simp_all add: validate_indices_None)
  show ?thesis
  proof (cases "pt = 255")
    case True
    then have "list_all (type_allows pt) idxs" using base(1) by (auto simp: list_all_iff type_allows_def)
    with True None base show ?thesis by (simp add: validatePatchType_def MIXED_def)
  next
    case False
    show ?thesis
    proof (cases "patchTypeRange pt")
      case None
      then show ?thesis using False \<open>validate_indices [] idxs = None\<close> patchTypeRange_known [OF False]
        by (simp add: validatePatchType_def MIXED_def del: insert_iff)
    next
      case (Some r)
      obtain lo hi where r: "r = (lo, hi)" by fastforce
      have "list_all (type_allows pt) idxs \<longleftrightarrow> \<not> list_ex (\<lambda>i. i < lo \<or> i > hi) idxs"
        by (auto simp: list_all_iff list_ex_iff type_allows_table [OF False] Some r not_less)
      then show ?thesis using Some r False \<open>validate_indices [] idxs = None\<close> base patchTypeRange_known [OF False]
        by (simp add: validatePatchType_def MIXED_def del: insert_iff)
    qed
  qed
next
  case (Some reason)
  have "\<not> (distinct idxs \<and> list_all (type_allows pt) idxs)"
  proof
    assume a: "distinct idxs \<and> list_all (type_allows pt) idxs"
    then have "list_all (\<lambda>i. 0 \<le> i \<and> i < 992) idxs" using type_allows_range by (auto simp: list_all_iff)
    with a have "validate_indices [] idxs = None" by (simp add: validate_indices_None)
    with Some show False by simp
  qed
  with Some show ?thesis by (auto simp: validatePatchType_def)
qed

text \<open>
  Fact: the patch-type check passes exactly for the eight known type bytes with distinct word
  indices, each in the word range of the type; \<open>MIXED\<close> may write every word below 992.
\<close>

theorem validatePatchType_iff:
  "validatePatchType pt idxs = None \<longleftrightarrow>
    pt \<in> {0x01, 0x02, 0x03, 0x04, 0x05, 0x06, 0x07, 0xFF} \<and> distinct idxs \<and> list_all (type_allows pt) idxs"
  using validatePatchType_None [of pt idxs] by simp

section \<open>Header and body\<close>

definition patch_ok :: "patch \<Rightarrow> bool" where
  "patch_ok p \<longleftrightarrow>
     1 \<le> wordCount p \<and> wordCount p \<le> 4 \<and>
     int (length (indices p)) = wordCount p \<and> int (length (newWords p)) = wordCount p \<and>
     validatePatchType (patchType p) (indices p) = None \<and>
     0 \<le> scoreDelta p \<and> scoreDelta p < 2 ^ 63 \<and>
     length (parentStateRoot p) = 32 \<and> list_all uint256 (newWords p)"

definition patch_head :: "patch \<Rightarrow> bytes" where
  "patch_head p = [word_of_int (patchType p), word_of_int (wordCount p)] @
     be_bytes 8 (scoreDelta p) @ parentStateRoot p"

definition patch_body :: "(int \<times> int) list \<Rightarrow> bytes" where
  "patch_body ps = concat (map (\<lambda>(i, w). leb_loop i @ be_bytes 32 w) ps)"

lemma patch_body_simps [simp]:
  "patch_body [] = []"
  "patch_body ((i, w) # ps) = leb_loop i @ be_bytes 32 w @ patch_body ps"
  by (simp_all add: patch_body_def)

lemma word_and_ff: "(word_of_int (v AND 0xff) :: byte) = word_of_int v"
proof -
  have "v AND 0xff = take_bit 8 v" by (simp add: take_bit_eq_mask mask_eq_exp_minus_1)
  then show ?thesis using word_of_int_eq_iff [of "take_bit 8 v" v, where 'a = 8] by simp
qed

lemma u32_bytes_eq: "u32_bytes x = be_bytes 4 x"
  unfolding u32_bytes_def be_bytes_def
  by (rule map_cong) (auto simp: word_and_ff diff_mult_distrib2)

lemma be_bytes_append: "be_bytes (m + n) v = be_bytes m (drop_bit (8 * n) v) @ be_bytes n v"
  by (induction n arbitrary: v) (simp_all add: be_bytes_Suc add.commute)

lemma score_bytes:
  "u32_bytes (take_bit 32 (drop_bit 32 sd)) @ u32_bytes (take_bit 32 (sd AND 0xffffffff)) = be_bytes 8 sd"
proof -
  have "sd AND 0xffffffff = take_bit 32 sd" by (simp add: take_bit_eq_mask mask_eq_exp_minus_1)
  then show ?thesis
    using be_bytes_append [of 4 4 sd] by (simp add: u32_bytes_eq be_bytes_take_bit)
qed

lemma encodePatch_ok:
  assumes "patch_ok p"
  shows "encodePatch p = Inr (patch_head p @ patch_body (zip (indices p) (newWords p)))"
proof -
  have r: "list_all (\<lambda>i. 0 \<le> i \<and> i < 992) (indices p)"
    using assms by (auto simp: patch_ok_def validatePatchType_None type_allows_def list_all_iff)
  then have e: "map_res encodeLEB128 (indices p) = Inr (map leb_loop (indices p))"
    by (intro map_res_all_Inr) (auto simp: encodeLEB128_def list_all_iff)
  have l: "length (indices p) = length (newWords p)" "length (indices p) = nat (wordCount p)"
    using assms by (auto simp: patch_ok_def)
  have "map (\<lambda>i. map leb_loop (indices p) ! i @ writeBigEndian32 (replicate 32 0) 0 (at_or 0 (newWords p) i))
          [0..<nat (wordCount p)] = map (\<lambda>(i, w). leb_loop i @ be_bytes 32 w) (zip (indices p) (newWords p))"
    using l by (intro nth_equalityI) (auto simp: writeBigEndian32_eq be_bytes_take_bit)
  then show ?thesis
    using assms e
    by (simp add: encodePatch_def patch_ok_def MAX_WIRE_SCORE_DELTA_def patch_head_def patch_body_def word_and_ff
        score_bytes [symmetric] Let_def)
qed

lemma read_u32_eq: "offset + 4 \<le> length data \<Longrightarrow> read_u32 data offset = be_val (take 4 (drop offset data))"
proof -
  assume l: "offset + 4 \<le> length data"
  have "take 4 (drop offset data) = [data ! offset, data ! (offset + 1), data ! (offset + 2), data ! (offset + 3)]"
    using l by (intro nth_equalityI) (auto simp: less_Suc_eq numeral_eq_Suc)
  then show ?thesis
    by (simp add: read_u32_def be_val_def push_bit_or or.assoc push_bit_push_bit)
qed

lemma be_val_append_8: "length b = 4 \<Longrightarrow> push_bit 32 (be_val a) OR be_val b = be_val (a @ b)"
proof -
  have "be_val (a @ b) = push_bit (8 * length b) (be_val a) OR be_val b" for b
    by (induction b rule: rev_induct)
      (simp_all add: be_val_snoc push_bit_or push_bit_push_bit or.assoc add.commute flip: append_assoc)
  then show "length b = 4 \<Longrightarrow> ?thesis" by simp
qed

lemma score_read:
  assumes "10 \<le> length data"
  shows "push_bit 32 (read_u32 data 2) OR read_u32 data 6 = be_val (take 8 (drop 2 data))"
proof -
  have "take 8 (drop 2 data) = take 4 (drop 2 data) @ take 4 (drop 6 data)"
    using take_add [of 4 4 "drop 2 data"] by simp
  then show ?thesis using assms by (simp add: read_u32_eq be_val_append_8)
qed

section \<open>The loop over the words\<close>

lemma decode_loop:
  assumes "list_all (\<lambda>(i, w). 0 \<le> i \<and> i < 1024 \<and> uint256 w) ps" and "length xs = length ps"
  shows "fold_res (decode_step (pre @ patch_body ps)) (length pre, is, ws) xs =
    Inr (length pre + length (patch_body ps), is @ map fst ps, ws @ map snd ps)"
  using assms
proof (induction ps arbitrary: pre xs "is" ws)
  case (Cons q ps)
  obtain i w where q: "q = (i, w)" by fastforce
  obtain x ys where xs: "xs = x # ys" using Cons.prems(2) by (cases xs) auto
  have iw: "0 \<le> i" "i < 1024" "uint256 w" using Cons.prems(1) q by auto
  let ?data = "pre @ leb_loop i @ be_bytes 32 w @ patch_body ps"
  have d: "decodeLEB128 ?data (length pre) = Inr (i, length (leb_loop i))"
    using decode_leb_loop [OF iw(1,2)] by simp
  have "readBigEndian32 ?data (length pre + length (leb_loop i)) = w"
    using uint256_take [OF iw(3)] by (subst readBigEndian32_eq) (simp_all add: be_val_be_bytes)
  then have "decode_step ?data (length pre, is, ws) x =
      Inr (length (pre @ leb_loop i @ be_bytes 32 w), is @ [i], ws @ [w])"
    by (simp add: decode_step_def d)
  then show ?case
    using Cons.IH [of ys "pre @ leb_loop i @ be_bytes 32 w" "is @ [i]" "ws @ [w]"] Cons.prems
    by (simp add: q xs)
qed simp

lemma decode_loop_canonical:
  assumes "fold_res (decode_step data) (off, is, ws) xs = Inr (off', is', ws')" and "off \<le> length data"
  shows "\<exists>ps. is' = is @ map fst ps \<and> ws' = ws @ map snd ps \<and> length ps = length xs \<and>
    list_all (\<lambda>(i, w). 0 \<le> i \<and> i < 1024 \<and> uint256 w) ps \<and> off' \<le> length data \<and>
    off' = off + length (patch_body ps) \<and> take (length (patch_body ps)) (drop off data) = patch_body ps"
  using assms
proof (induction xs arbitrary: off "is" ws)
  case (Cons x xs)
  from Cons.prems(1) obtain i k where d: "decodeLEB128 data off = Inr (i, k)"
    and le: "off + k + 32 \<le> length data"
    and rest: "fold_res (decode_step data) (off + k + 32, is @ [i], ws @ [readBigEndian32 data (off + k)]) xs = Inr (off', is', ws')"
    by (auto simp: decode_step_def bind_res_eq_Inr Let_def split: if_splits)
  let ?w = "readBigEndian32 data (off + k)"
  obtain ps where ps: "is' = (is @ [i]) @ map fst ps" "ws' = (ws @ [?w]) @ map snd ps" "length ps = length xs"
    "list_all (\<lambda>(i, w). 0 \<le> i \<and> i < 1024 \<and> uint256 w) ps" "off' \<le> length data"
    "off' = off + k + 32 + length (patch_body ps)"
    "take (length (patch_body ps)) (drop (off + k + 32) data) = patch_body ps"
    using Cons.IH [OF rest le] by blast
  have leb: "0 \<le> i" "i < 1024" "take k (drop off data) = leb_loop i" "off + k \<le> length data"
    using decodeLEB128_canonical [OF d] by auto
  have w: "?w = be_val (take 32 (drop (off + k) data))" using le by (simp add: readBigEndian32_eq)
  then have wb: "be_bytes 32 ?w = take 32 (drop (off + k) data)" using le by (simp add: be_bytes_be_val)
  have wu: "uint256 ?w" using be_val_bounds [of "take 32 (drop (off + k) data)"] le by (simp add: w uint256_def)
  have eq: "take (k + (32 + length (patch_body ps))) (drop off data) =
      take k (drop off data) @ take 32 (drop (off + k) data) @ take (length (patch_body ps)) (drop (off + k + 32) data)"
    by (simp only: take_add drop_drop) (simp add: ac_simps)
  have "length (take k (drop off data)) = k" using leb(4) by simp
  then have k: "k = length (leb_loop i)" using leb(3) by simp
  from eq have b: "take (length (patch_body ((i, ?w) # ps))) (drop off data) = patch_body ((i, ?w) # ps)"
    using leb(3) wb ps(7) le by (simp add: k [symmetric] min_absorb2)
  show ?case
    by (rule exI [of _ "(i, ?w) # ps"]) (use ps leb wu b k in simp)
qed auto

section \<open>Round trip\<close>

lemma head_length: "length (parentStateRoot p) = 32 \<Longrightarrow> length (patch_head p) = 42"
  by (simp add: patch_head_def)

lemma patch_ok_pairs:
  assumes "patch_ok p"
  shows "list_all (\<lambda>(i, w). 0 \<le> i \<and> i < 1024 \<and> uint256 w) (zip (indices p) (newWords p))"
proof -
  have "list_all (type_allows (patchType p)) (indices p)" "list_all uint256 (newWords p)"
    using assms by (auto simp: patch_ok_def validatePatchType_None)
  then show ?thesis
    using type_allows_range by (fastforce simp: list_all_iff dest: set_zip_leftD set_zip_rightD)
qed

lemma decode_encode_patch:
  assumes ok: "patch_ok p"
  shows "decodePatch (patch_head p @ patch_body (zip (indices p) (newWords p))) = Inr p"
proof -
  define data where "data = patch_head p @ patch_body (zip (indices p) (newWords p))"
  have l: "length (parentStateRoot p) = 32" "length (indices p) = length (newWords p)" "length (indices p) = nat (wordCount p)"
    and wc: "1 \<le> wordCount p" "wordCount p \<le> 4" and sd: "0 \<le> scoreDelta p" "scoreDelta p < 2 ^ 63"
    and vt: "validatePatchType (patchType p) (indices p) = None"
    using ok by (auto simp: patch_ok_def)
  have pt: "0 \<le> patchType p" "patchType p < 256" using vt by (auto simp: validatePatchType_None)
  have d01: "uint (data ! 0) = patchType p" "uint (data ! 1) = wordCount p"
    using pt wc by (simp_all add: data_def patch_head_def uint_small)
  have "take 8 (drop 2 data) = be_bytes 8 (scoreDelta p)" by (simp add: data_def patch_head_def)
  then have score: "push_bit 32 (read_u32 data 2) OR read_u32 data 6 = scoreDelta p"
    using sd by (subst score_read) (simp_all add: data_def head_length l be_val_be_bytes take_bit_int_eq_self)
  have root: "take 32 (drop 10 data) = parentStateRoot p" by (simp add: data_def patch_head_def l)
  have loop: "fold_res (decode_step data) (42, [], []) [0..<nat (wordCount p)] =
      Inr (length data, indices p, newWords p)"
    using decode_loop [OF patch_ok_pairs [OF ok], of "[0..<nat (wordCount p)]" "patch_head p" "[]" "[]"] l
    by (simp add: data_def head_length)
  have "\<not> length data < 42" by (simp add: data_def head_length l)
  then have "decodePatch data = Inr p"
    using wc sd vt unfolding decodePatch_def Let_def d01 score root loop
    by (simp add: MAX_WIRE_SCORE_DELTA_def)
  then show ?thesis by (simp add: data_def)
qed

lemma decode_patch_facts:
  assumes "decodePatch data = Inr p"
  shows "patch_ok p" and "data = patch_head p @ patch_body (zip (indices p) (newWords p))"
proof -
  have l42: "42 \<le> length data" using assms by (auto simp: decodePatch_def split: if_splits)
  from assms obtain off where
    pt: "patchType p = uint (data ! 0)" and wc: "wordCount p = uint (data ! 1)" "1 \<le> wordCount p" "wordCount p \<le> 4"
    and sd: "scoreDelta p = push_bit 32 (read_u32 data 2) OR read_u32 data 6" "scoreDelta p \<le> MAX_WIRE_SCORE_DELTA"
    and root: "parentStateRoot p = take 32 (drop 10 data)"
    and loop: "fold_res (decode_step data) (42, [], []) [0..<nat (wordCount p)] = Inr (off, indices p, newWords p)"
    and off: "off = length data" and vt: "validatePatchType (patchType p) (indices p) = None"
    by (auto simp: decodePatch_def Let_def bind_res_eq_Inr split: if_splits option.splits)
  obtain ps where ps: "indices p = map fst ps" "newWords p = map snd ps" "length ps = nat (wordCount p)"
    "list_all (\<lambda>(i, w). 0 \<le> i \<and> i < 1024 \<and> uint256 w) ps" "length data = 42 + length (patch_body ps)"
    "take (length (patch_body ps)) (drop 42 data) = patch_body ps"
    using decode_loop_canonical [OF loop l42] off by auto
  have z: "zip (indices p) (newWords p) = ps" by (simp add: ps zip_map_fst_snd)
  have sv: "scoreDelta p = be_val (take 8 (drop 2 data))" using sd(1) l42 by (simp add: score_read)
  then have sd0: "0 \<le> scoreDelta p" using be_val_bounds by simp
  have lr: "length (parentStateRoot p) = 32" using root l42 by simp
  show "patch_ok p"
    using wc ps(3,4) sd(2) sd0 lr vt
    by (auto simp: patch_ok_def ps(1,2) MAX_WIRE_SCORE_DELTA_def list_all_iff)
  have "be_bytes 8 (scoreDelta p) = take 8 (drop 2 data)" using l42 by (simp add: sv be_bytes_be_val)
  moreover have "take 42 data = take 2 data @ take 8 (drop 2 data) @ take 32 (drop 10 data)"
    using take_add [of 2 40 data] take_add [of 8 32 "drop 2 data"] by simp
  moreover have "take 2 data = [data ! 0, data ! 1]"
    using l42 by (intro nth_equalityI) (auto simp: less_Suc_eq numeral_2_eq_2)
  ultimately have "take 42 data = patch_head p" by (simp add: patch_head_def pt wc(1) root)
  moreover have "drop 42 data = patch_body ps" using ps(5,6) by simp
  ultimately show "data = patch_head p @ patch_body (zip (indices p) (newWords p))"
    using append_take_drop_id [of 42 data] by (simp add: z)
qed

interpretation patch_codec: canonical_codec encodePatch decodePatch patch_ok
proof unfold_locales
  show "decodePatch data = Inr p" if "patch_ok p" "encodePatch p = Inr data" for p data
    using that decode_encode_patch [OF that(1)] encodePatch_ok [OF that(1)] by simp
  show "encodePatch p = Inr data" if "decodePatch data = Inr p" for p data
    using decode_patch_facts [OF that] encodePatch_ok [of p] by simp
qed (use encodePatch_ok decode_patch_facts in blast)+

text \<open>
  C29: a patch with a valid type, one to four distinct words, a non-negative int64 score and a
  32-byte parent root is serialized, and deserialized to the same patch.
\<close>

theorem patch_round_trip:
  assumes "patch_ok p"
  shows "\<exists>data. encodePatch p = Inr data \<and> decodePatch data = Inr p"
  using patch_codec.round_trip [OF assms] .

theorem patch_round_trip_witness:
  "\<exists>data. encodePatch \<lparr> patchType = 2, wordCount = 2, scoreDelta = 1000, parentStateRoot = replicate 32 0,
      indices = [40, 200], newWords = [5, 2 ^ 255] \<rparr> = Inr data \<and>
    decodePatch data = Inr \<lparr> patchType = 2, wordCount = 2, scoreDelta = 1000, parentStateRoot = replicate 32 0,
      indices = [40, 200], newWords = [5, 2 ^ 255] \<rparr>"
  by (rule patch_round_trip)
    (simp add: patch_ok_def validatePatchType_None type_allows_def uint256_def)

text \<open>
  Fact: the serialization of a patch cannot be altered without altering the patch.  Bytes that
  decode are the encoding of what they decode to, which is a valid patch; so two byte strings
  that decode to the same patch are equal.
\<close>

theorem decodePatch_canonical:
  "(case decodePatch data of Inl e \<Rightarrow> True | Inr p \<Rightarrow> patch_ok p \<and> encodePatch p = Inr data)"
  by (cases "decodePatch data") (auto dest: patch_codec.dec_ok patch_codec.enc_dec)

end
