(* ===== verification/Patch_Apply.thy ===== *)
theory Patch_Apply
  imports Patch_Wire
begin

text \<open>
  What applying a patch does to a state, and the interface that a sequence of applications
  relies on.
\<close>

section \<open>The interface of a patchable state\<close>

text \<open>
  The reducer and the live epoch apply many patches to one running state.  What they rely on:
  a successful application keeps the invariant, writes the targets of the patch and leaves
  every other word alone.
\<close>

locale patch_machine =
  fixes apply_to :: "'s \<Rightarrow> 'p \<Rightarrow> 'e + 's"
    and read :: "'s \<Rightarrow> nat \<Rightarrow> int"
    and target :: "'p \<Rightarrow> nat \<Rightarrow> int option"
    and inv :: "'s \<Rightarrow> bool"
    and ok :: "'p \<Rightarrow> bool"
  assumes apply_inv: "inv s \<Longrightarrow> ok p \<Longrightarrow> apply_to s p = Inr t \<Longrightarrow> inv t"
    and apply_read: "inv s \<Longrightarrow> ok p \<Longrightarrow> apply_to s p = Inr t \<Longrightarrow>
      read t j = (case target p j of None \<Rightarrow> read s j | Some v \<Rightarrow> v)"
begin

lemma sequence_inv:
  "fold_res apply_to s ps = Inr t \<Longrightarrow> inv s \<Longrightarrow> list_all ok ps \<Longrightarrow> inv t"
  by (induction ps arbitrary: s) (auto simp: bind_res_eq_Inr intro: apply_inv)

lemma sequence_frame:
  "fold_res apply_to s ps = Inr t \<Longrightarrow> inv s \<Longrightarrow> list_all ok ps \<Longrightarrow>
   list_all (\<lambda>p. target p j = None) ps \<Longrightarrow> read t j = read s j"
proof (induction ps arbitrary: s)
  case (Cons p ps)
  then obtain u where u: "apply_to s p = Inr u" "fold_res apply_to u ps = Inr t"
    by (auto simp: bind_res_eq_Inr)
  with Cons.prems have "inv u" "read u j = read s j" by (auto intro: apply_inv simp: apply_read)
  with Cons u show ?case by simp
qed simp

lemma sequence_write:
  assumes "fold_res apply_to s (ps @ p # qs) = Inr t" and "inv s" and "list_all ok (ps @ p # qs)"
    and "target p j = Some v" and "list_all (\<lambda>q. target q j = None) qs"
  shows "read t j = v"
proof -
  obtain u w where u: "fold_res apply_to s ps = Inr u" "apply_to u p = Inr w" "fold_res apply_to w qs = Inr t"
    using assms(1) by (auto simp: fold_res_append bind_res_eq_Inr)
  have "inv u" using sequence_inv [OF u(1)] assms(2,3) by simp
  then have "inv w" "read w j = v" using u(2) assms(3,4) by (auto intro: apply_inv simp: apply_read)
  then show ?thesis using sequence_frame [OF u(3)] assms(3,5) by simp
qed

end

section \<open>The writes\<close>

text \<open>The value a patch writes to word j.\<close>

definition write_target :: "patch \<Rightarrow> nat \<Rightarrow> int option" where
  "write_target p j =
     map_option (at_or 0 (newWords p))
       (List.find (\<lambda>i. elem_at (indices p) i = Some (int j)) [0..<nat (wordCount p)])"

definition write_one :: "patch \<Rightarrow> int list \<Rightarrow> nat \<Rightarrow> int list" where
  "write_one p ws i =
     (case elem_at (indices p) i of None \<Rightarrow> ws | Some idx \<Rightarrow> ws[nat idx := at_or 0 (newWords p) i])"

definition written :: "int list \<Rightarrow> patch \<Rightarrow> int list" where
  "written ws p = foldl (write_one p) ws [0..<nat (wordCount p)]"

lemma length_write_one [simp]: "length (write_one p ws i) = length ws"
  by (simp add: write_one_def split: option.split)

lemma length_foldl_write [simp]: "length (foldl (write_one p) ws is) = length ws"
  by (induction "is" arbitrary: ws) auto

lemma length_written [simp]: "length (written ws p) = length ws"
  by (simp add: written_def)

lemma elem_at_Some: "elem_at xs i = Some x \<longleftrightarrow> i < length xs \<and> xs ! i = x"
  by (auto simp: elem_at_def)

lemma valid_indices:
  assumes "validatePatchType pt idxs = None" and "elem_at idxs i = Some idx"
  shows "0 \<le> idx \<and> idx < 992"
  using assms type_allows_range [of pt idx] by (auto simp: validatePatchType_None elem_at_Some list_all_length)

lemma write_words_ok:
  assumes "validatePatchType (patchType p) (indices p) = None" and "length (words s) = 1024"
  shows "write_words s p = Inr (written (words s) p)"
proof -
  have "fold_res (\<lambda>ws i.
     case elem_at (indices p) i of
       None \<Rightarrow> Inr ws
     | Some idx \<Rightarrow>
         if idx \<ge> RESERVED_START \<and> idx \<le> RESERVED_END then Inl E02
         else if idx < 0 \<or> idx \<ge> int WORD_COUNT then Inl E02
         else Inr (array_set 0 ws (nat idx) (at_or 0 (newWords p) i))) (words s) [0..<nat (wordCount p)] =
     Inr (foldl (write_one p) (words s) [0..<nat (wordCount p)]) \<and>
     length (foldl (write_one p) (words s) [0..<nat (wordCount p)]) = 1024"
    by (rule fold_res_foldl [where P = "\<lambda>ws. length ws = 1024"])
      (use assms in \<open>auto simp: write_one_def RANGES dest: valid_indices split: option.split\<close>)
  then show ?thesis by (simp add: write_words_def written_def)
qed

lemma find_snoc: "List.find P (xs @ [x]) = (case List.find P xs of Some y \<Rightarrow> Some y | None \<Rightarrow> if P x then Some x else None)"
  by (induction xs) auto

lemma find_upt_Some: "List.find P [0..<n] = Some i \<Longrightarrow> i < n \<and> P i"
  by (auto simp: find_Some_iff)

lemma nth_foldl_write:
  assumes "distinct (indices p)" and "\<And>i idx. elem_at (indices p) i = Some idx \<Longrightarrow> 0 \<le> idx" and "j < length ws"
  shows "foldl (write_one p) ws [0..<n] ! j =
    (case List.find (\<lambda>i. elem_at (indices p) i = Some (int j)) [0..<n] of
       None \<Rightarrow> ws ! j | Some i \<Rightarrow> at_or 0 (newWords p) i)"
proof (induction n)
  case (Suc n)
  let ?f = "\<lambda>n. List.find (\<lambda>i. elem_at (indices p) i = Some (int j)) [0..<n]"
  have e: "?f (Suc n) = (case ?f n of Some y \<Rightarrow> Some y | None \<Rightarrow> if elem_at (indices p) n = Some (int j) then Some n else None)"
    by (simp add: find_snoc)
  show ?case
  proof (cases "elem_at (indices p) n")
    case None
    then show ?thesis using Suc by (simp add: e write_one_def del: upt_Suc split: option.split) (simp add: write_one_def None)
  next
    case (Some idx)
    have idx: "0 \<le> idx" using assms(2) [OF Some] .
    show ?thesis
    proof (cases "idx = int j")
      case True
      have "?f n = None"
      proof (rule ccontr)
        assume "?f n \<noteq> None"
        then obtain i where "?f n = Some i" by blast
        then have "i < n" "elem_at (indices p) i = Some (int j)" by (auto dest: find_upt_Some)
        with Some True show False
          using nth_eq_iff_index_eq [OF assms(1), of i n] by (simp add: elem_at_Some)
      qed
      moreover have "write_one p ws' n = ws'[j := at_or 0 (newWords p) n]" for ws'
        by (simp add: write_one_def Some True)
      ultimately show ?thesis using True Some assms(3) by (simp add: e del: upt_Suc) simp
    next
      case False
      then have "nat idx \<noteq> j" using idx by auto
      moreover have "write_one p ws' n = ws'[nat idx := at_or 0 (newWords p) n]" for ws'
        by (simp add: write_one_def Some)
      ultimately show ?thesis using Suc False Some
        by (simp add: e del: upt_Suc) (simp split: option.split)
    qed
  qed
qed simp

lemma nth_written:
  assumes "validatePatchType (patchType p) (indices p) = None" and "j < length ws"
  shows "written ws p ! j = (case write_target p j of None \<Rightarrow> ws ! j | Some v \<Rightarrow> v)"
proof -
  have "distinct (indices p)" using assms(1) by (simp add: validatePatchType_None)
  moreover have "elem_at (indices p) i = Some idx \<Longrightarrow> 0 \<le> idx" for i idx using valid_indices [OF assms(1)] by simp
  ultimately show ?thesis
    using nth_foldl_write [of p j ws "nat (wordCount p)"] assms(2)
    by (simp add: written_def write_target_def split: option.split)
qed

lemma write_target_index:
  assumes "validatePatchType (patchType p) (indices p) = None" and "write_target p j = Some v"
  shows "j < 992 \<and> type_allows (patchType p) (int j)"
proof -
  from assms(2) obtain i where "elem_at (indices p) i = Some (int j)"
    by (auto simp: write_target_def dest: find_upt_Some)
  then have "int j \<in> set (indices p)" by (auto simp: elem_at_Some in_set_conv_nth)
  with assms(1) show ?thesis using type_allows_range [of "patchType p" "int j"]
    by (auto simp: validatePatchType_None list_all_iff)
qed

section \<open>The outcome of an application\<close>

text \<open>The state after the writes, and the checks on it.\<close>

definition patched :: "cortex_state \<Rightarrow> patch \<Rightarrow> cortex_state" where
  "patched s p = \<lparr> words = written (words s) p \<rparr>"

lemma apply_Inr:
  assumes "length (words s) = 1024" and "applyPatchOntoCurrent s p policyMode = Inr t"
  shows "t = patched s p" and "1 \<le> wordCount p" and "wordCount p \<le> 4"
    and "validatePatchType (patchType p) (indices p) = None" and "\<not> hasNonZeroReservedBits t"
    and "anyChange s p"
    and "policyMode \<Longrightarrow> \<not> patchTouchesHeader p \<and> policyWriteIsCanonicalForState s p \<and> validatePolicyRegions t = None"
proof -
  have v: "validatePatchType (patchType p) (indices p) = None"
    using assms(2) by (auto simp: applyPatchOntoCurrent_def split: if_splits)
  note w = write_words_ok [OF v assms(1)]
  show "t = patched s p" "1 \<le> wordCount p" "wordCount p \<le> 4" "\<not> hasNonZeroReservedBits t" "anyChange s p"
    "policyMode \<Longrightarrow> \<not> patchTouchesHeader p \<and> policyWriteIsCanonicalForState s p \<and> validatePolicyRegions t = None"
    using assms(2) by (auto simp: applyPatchOntoCurrent_def w check_result_def patched_def Let_def
      split: if_splits option.splits)
  show "validatePatchType (patchType p) (indices p) = None" by (rule v)
qed

definition words_ok :: "patch \<Rightarrow> bool" where
  "words_ok p \<longleftrightarrow> list_all uint256 (newWords p)"

lemma target_uint256: "words_ok p \<Longrightarrow> write_target p j = Some v \<Longrightarrow> uint256 v"
  by (auto simp: words_ok_def write_target_def at_or_def list_all_length uint256_def)

lemma nth_patched:
  assumes "length (words s) = 1024" and "applyPatchOntoCurrent s p m = Inr t" and "j < 1024"
  shows "words t ! j = (case write_target p j of None \<Rightarrow> words s ! j | Some v \<Rightarrow> v)"
  using apply_Inr(1,4) [OF assms(1,2)] assms by (simp add: patched_def nth_written)

lemma patched_length: "length (words s) = 1024 \<Longrightarrow> applyPatchOntoCurrent s p m = Inr t \<Longrightarrow> length (words t) = 1024"
  using apply_Inr(1) [of s p m t] by (simp add: patched_def)

lemma patched_wf:
  assumes "wf_state s" and "words_ok p" and "applyPatchOntoCurrent s p m = Inr t"
  shows "wf_state t"
proof -
  have l: "length (words s) = 1024" using assms(1) by (rule wf_state_length)
  have "uint256 (words t ! j)" if "j < 1024" for j
    using nth_patched [OF l assms(3) that] wf_state_word [OF assms(1) that] target_uint256 [OF assms(2)]
    by (auto split: option.splits)
  then show ?thesis using patched_length [OF l assms(3)] by (simp add: wf_state_def WORD_COUNT_def list_all_length)
qed

text \<open>The word j of a state, zero outside of it, as the reading of the interface.\<close>

definition read_word :: "cortex_state \<Rightarrow> nat \<Rightarrow> int" where
  "read_word s j = at_or 0 (words s) j"

lemma write_target_none_out:
  "validatePatchType (patchType p) (indices p) = None \<Longrightarrow> 1024 \<le> j \<Longrightarrow> write_target p j = None"
  using write_target_index [of p j] by (cases "write_target p j") auto

interpretation epoch: patch_machine "\<lambda>s p. applyPatchOntoCurrent s p m" read_word write_target wf_state words_ok
  for m
proof unfold_locales
  show "wf_state t" if "wf_state s" "words_ok p" "applyPatchOntoCurrent s p m = Inr t" for s p t
    using that by (rule patched_wf)
  show "read_word t j = (case write_target p j of None \<Rightarrow> read_word s j | Some v \<Rightarrow> v)"
    if a: "wf_state s" "words_ok p" "applyPatchOntoCurrent s p m = Inr t" for s p t j
  proof -
    have l: "length (words s) = 1024" using a(1) by (rule wf_state_length)
    show ?thesis
      using nth_patched [OF l a(3)] patched_length [OF l a(3)] write_target_none_out [OF apply_Inr(4) [OF l a(3)], of j] l
      by (cases "j < 1024") (simp_all add: read_word_def split: option.split)
  qed
qed

text \<open>
  Fact: \<open>applyPatch\<close> is \<open>applyPatchOntoCurrent\<close> behind the parent-root check.  The two
  functions repeat their checks in a different order; they still agree on every patch and every
  state: over-budget patches first, then the root, then the common outcome.
\<close>

theorem applyPatch_eq_onto:
  "applyPatch s p m =
     (if wordCount p < 1 \<or> wordCount p > 4 then Inr (Inl E03)
      else bind_res (merkleizeState s) (\<lambda>r. Inr
        (if parentStateRoot p \<noteq> r then Inl E01 else applyPatchOntoCurrent s p m)))"
proof (cases "merkleizeState s")
  case (Inr r)
  then show ?thesis by (auto simp: applyPatch_def applyPatchOntoCurrent_def)
qed (simp add: applyPatch_def)

lemma patch_ok_words: "patch_ok p \<Longrightarrow> words_ok p"
  by (simp add: patch_ok_def words_ok_def)

lemma change_visible:
  assumes "wf_state s" and "patch_ok p" and "applyPatchOntoCurrent s p m = Inr t"
  shows "t \<noteq> s"
proof
  assume ts: "t = s"
  have l: "length (words s) = 1024" using assms(1) by (rule wf_state_length)
  note a = apply_Inr [OF l assms(3)]
  from a(6) obtain i where i: "i < nat (wordCount p)"
    "case_option 0 (word_at (words s)) (elem_at (indices p) i) \<noteq> at_or 0 (newWords p) i"
    by (auto simp: anyChange_def list_ex_iff)
  with assms(2) have len: "i < length (indices p)" by (auto simp: patch_ok_def)
  define j where "j = nat (indices p ! i)"
  have j: "indices p ! i = int j" "j < 1024"
    using valid_indices [OF a(4), of i "indices p ! i"] len by (auto simp: j_def)
  have "distinct (indices p)" using a(4) by (simp add: validatePatchType_None)
  then have uniq: "k = i" if "k < length (indices p)" "indices p ! k = int j" for k
    using that len j(1) nth_eq_iff_index_eq [of "indices p" k i] by simp
  have "List.find (\<lambda>k. elem_at (indices p) k = Some (int j)) [0..<nat (wordCount p)] = Some i"
    unfolding find_Some_iff using i(1) len j(1)
    by (intro exI [of _ i]) (auto simp: elem_at_Some dest: uniq [rotated])
  then have "words t ! j = at_or 0 (newWords p) i"
    using nth_patched [OF l assms(3) j(2)] by (simp add: write_target_def)
  with i(2) len j l show False by (simp add: ts word_at_def)
qed

text \<open>
  C4: a successful application of a valid patch yields a well-formed state that differs from
  the old one in exactly the words the patch targets, each holding its new word; no reserved
  bit is set, and at least one word has changed.
\<close>

theorem applyPatchOntoCurrent_success:
  assumes "wf_state s" and "patch_ok p" and "applyPatchOntoCurrent s p m = Inr t"
  shows "wf_state t \<and> validateReservedBits t = None \<and> t \<noteq> s \<and>
    (\<forall>j<1024. words t ! j = (case write_target p j of None \<Rightarrow> words s ! j | Some v \<Rightarrow> v))"
proof -
  have l: "length (words s) = 1024" using assms(1) by (rule wf_state_length)
  show ?thesis
    using patched_wf [OF assms(1) patch_ok_words [OF assms(2)] assms(3)] apply_Inr(5) [OF l assms(3)]
      nth_patched [OF l assms(3)] change_visible [OF assms]
    by (simp add: validateReservedBits_def)
qed

text \<open>A small patch on the zero state, for the witnesses.\<close>

definition sample_patch :: patch where
  "sample_patch = \<lparr> patchType = 2, wordCount = 2, scoreDelta = 1000, parentStateRoot = replicate 32 0,
     indices = [40, 200], newWords = [5, 6] \<rparr>"

definition sample_state :: cortex_state where
  "sample_state = \<lparr> words = (replicate 1024 0)[40 := 5, 200 := 6] \<rparr>"

lemma sample_patch_ok: "patch_ok sample_patch"
  by (simp add: sample_patch_def patch_ok_def validatePatchType_None type_allows_def uint256_def)

lemma upt_2: "[0..<2] = [0, Suc 0]"
  by code_simp

lemma sample_written: "patched zero_state sample_patch = sample_state"
  by (simp add: patched_def written_def sample_patch_def sample_state_def zero_state_def upt_2 write_one_def elem_at_def)

lemma sample_reserved: "\<not> hasNonZeroReservedBits sample_state"
  by (subst hasNonZeroReservedBits_iff)
    (auto simp: sample_state_def reserved_clear_def nth_list_update reservedMask_def RANGES memoryIndexSlotReservedMask_def)

lemma sample_apply: "applyPatchOntoCurrent zero_state sample_patch False = Inr sample_state"
proof -
  have v: "validatePatchType (patchType sample_patch) (indices sample_patch) = None"
    using sample_patch_ok by (simp add: patch_ok_def)
  have c: "anyChange zero_state sample_patch"
    by (simp add: anyChange_def sample_patch_def zero_state_def upt_2 elem_at_def word_at_def)
  have w: "1 \<le> wordCount sample_patch" "wordCount sample_patch \<le> 4" by (simp_all add: sample_patch_def)
  show ?thesis
    using w v c write_words_ok [OF v, of zero_state] sample_written sample_reserved
    by (simp add: applyPatchOntoCurrent_def check_result_def patched_def wf_state_length [OF wf_zero_state])
qed

theorem applyPatchOntoCurrent_success_witness:
  "wf_state sample_state \<and> validateReservedBits sample_state = None \<and> sample_state \<noteq> zero_state \<and>
    words sample_state ! 200 = (case write_target sample_patch 200 of None \<Rightarrow> words zero_state ! 200 | Some v \<Rightarrow> v)"
  using applyPatchOntoCurrent_success [OF wf_zero_state sample_patch_ok sample_apply] by simp

section \<open>Rejections\<close>

text \<open>
  Fact: the outcome of an application to a well-formed state, on every branch.  Once the type
  check has passed, the range checks inside the write loop reject nothing.
\<close>

theorem applyPatchOntoCurrent_outcome:
  assumes "wf_state s"
  shows "applyPatchOntoCurrent s p m =
    (if wordCount p < 1 \<or> 4 < wordCount p then Inl E03
     else if \<not> (patchType p \<in> {1, 2, 3, 4, 5, 6, 7, 255} \<and> distinct (indices p) \<and>
                list_all (type_allows (patchType p)) (indices p)) then Inl E02
     else if m \<and> (patchTouchesHeader p \<or> \<not> policyWriteIsCanonicalForState s p) then Inl E02
     else if \<not> anyChange s p then Inl E05
     else if validateReservedBits (patched s p) \<noteq> None then Inl E04
     else if m then (case validatePolicyRegions (patched s p) of None \<Rightarrow> Inr (patched s p) | Some e \<Rightarrow> Inl e)
     else Inr (patched s p))"
proof (cases "validatePatchType (patchType p) (indices p) = None")
  case True
  then have v: "patchType p \<in> {1, 2, 3, 4, 5, 6, 7, 255} \<and> distinct (indices p) \<and>
      list_all (type_allows (patchType p)) (indices p)" by (simp only: validatePatchType_None)
  note w = write_words_ok [OF True wf_state_length [OF assms]]
  show ?thesis
    unfolding applyPatchOntoCurrent_def w check_result_def patched_def Let_def bind_res_simps
    using True v by (auto simp: validateReservedBits_def split: option.split)
next
  case False
  then have v: "\<not> (patchType p \<in> {1, 2, 3, 4, 5, 6, 7, 255} \<and> distinct (indices p) \<and>
      list_all (type_allows (patchType p)) (indices p))" by (simp only: validatePatchType_None not_False_eq_True)
  show ?thesis unfolding applyPatchOntoCurrent_def if_not_P [OF v] using False v by simp
qed

theorem applyPatchOntoCurrent_outcome_witness:
  "applyPatchOntoCurrent zero_state (sample_patch\<lparr>newWords := [0, 0]\<rparr>) True = Inl E05"
  using applyPatchOntoCurrent_outcome [OF wf_zero_state, of "sample_patch\<lparr>newWords := [0, 0]\<rparr>" True]
  by (simp add: sample_patch_def type_allows_def patchTouchesHeader_def policyWriteIsCanonicalForState_def upt_2
      elem_at_def RANGES policyWriteIsCanonical_def isPolicyIndex_def anyChange_def zero_state_def word_at_def)

section \<open>Policy mode\<close>

lemma policyReservedNonZeroWords_0:
  "policyReservedNonZeroWords s = 0 \<longleftrightarrow> (\<forall>w. 896 \<le> w \<and> w \<le> 991 \<longrightarrow> word_at (words s) w = 0)"
  by (simp add: policyReservedNonZeroWords_def filter_empty_conv)
    (auto simp: POLICY_RESERVED_START_def POLICY_RESERVED_END_def)

lemma validatePolicyRegions_None:
  "validatePolicyRegions s = None \<longleftrightarrow>
    (\<forall>fam. rg_failures (decodePolicyAtomRegion s fam) = 0) \<and> policyReservedNonZeroWords s = 0"
proof -
  have "(\<forall>fam. P fam) \<longleftrightarrow> P Evidence_bundle \<and> P Conflict_lifecycle \<and> P Abstention" for P
    using policy_family.exhaust by metis
  then show ?thesis by (simp add: validatePolicyRegions_def)
qed

lemma patch_len: "patch_ok p \<Longrightarrow> length (indices p) = nat (wordCount p)"
  by (auto simp: patch_ok_def)

lemma touches_iff:
  assumes "patch_ok p"
  shows "list_ex (\<lambda>i. case elem_at (indices p) i of None \<Rightarrow> False | Some idx \<Rightarrow> P idx) [0..<nat (wordCount p)] \<longleftrightarrow>
    (\<exists>idx \<in> set (indices p). P idx)"
proof -
  have "list_ex (\<lambda>i. case elem_at (indices p) i of None \<Rightarrow> False | Some idx \<Rightarrow> P idx) [0..<length (indices p)] \<longleftrightarrow>
      (\<exists>i<length (indices p). P (indices p ! i))"
    by (auto simp: list_ex_iff elem_at_def)
  also have "\<dots> \<longleftrightarrow> (\<exists>idx \<in> set (indices p). P idx)" by (metis in_set_conv_nth)
  finally show ?thesis by (simp add: patch_len [OF assms])
qed

lemma write_target_in: "write_target p j = Some v \<Longrightarrow> int j \<in> set (indices p)"
  by (auto simp: write_target_def elem_at_Some in_set_conv_nth dest: find_upt_Some)

lemma header_frozen:
  assumes "patch_ok p" and "\<not> patchTouchesHeader p" and "j < 32"
  shows "write_target p j = None"
proof (rule ccontr)
  assume "write_target p j \<noteq> None"
  then have "int j \<in> set (indices p)" by (auto dest: write_target_in)
  then show False using assms touches_iff [OF assms(1), of "\<lambda>idx. idx \<ge> HEADER_START \<and> idx \<le> HEADER_END"]
    by (auto simp: patchTouchesHeader_def RANGES)
qed

text \<open>
  Fact: in policy mode a successful patch leaves the 32 header words alone, and in the result
  every policy region decodes without a failure and the reserved policy words are zero.
\<close>

theorem policy_mode_success:
  assumes "wf_state s" and "patch_ok p" and "applyPatchOntoCurrent s p True = Inr t"
  shows "(\<forall>j<32. words t ! j = words s ! j) \<and> (\<forall>j. 896 \<le> j \<and> j < 992 \<longrightarrow> words t ! j = 0) \<and>
    (\<forall>fam. rg_failures (decodePolicyAtomRegion t fam) = 0)"
proof -
  have l: "length (words s) = 1024" using assms(1) by (rule wf_state_length)
  note a = apply_Inr(7) [OF l assms(3)]
  have "words t ! j = 0" if "896 \<le> j" "j < 992" for j
  proof -
    have "word_at (words t) (int j) = 0"
      using a that by (auto simp: validatePolicyRegions_None policyReservedNonZeroWords_0)
    then show ?thesis using that patched_length [OF l assms(3)] by (simp add: word_at_def)
  qed
  with a show ?thesis
    using nth_patched [OF l assms(3)] header_frozen [OF assms(2)] by (auto simp: validatePolicyRegions_None)
qed

lemma sample_apply_policy: "applyPatchOntoCurrent zero_state sample_patch True = Inr sample_state"
proof -
  have z: "word_at (words sample_state) w = 0" if "384 \<le> w" "w \<le> 991" for w
    using that by (auto simp: word_at_def sample_state_def nth_list_update at_or_def)
  have e: "decodePolicyAtom fam k 0 = Empty" for fam k by (simp add: decodePolicyAtom_def)
  have "rg_failures (decodePolicyAtomRegion sample_state fam) = 0" for fam
  proof -
    have "word_at (words sample_state) (pr_start (POLICY_REGIONS fam) + int k) = 0" if "k < pr_count (POLICY_REGIONS fam)" for k
      using that by (cases fam) (auto intro!: z simp: RANGES)
    then have "map (\<lambda>k. decodePolicyAtom fam k (word_at (words sample_state) (pr_start (POLICY_REGIONS fam) + int k)))
        [0..<pr_count (POLICY_REGIONS fam)] = map (\<lambda>k. Empty) [0..<pr_count (POLICY_REGIONS fam)]"
      by (intro map_cong) (auto simp: e)
    then show ?thesis by (simp add: decodePolicyAtomRegion_def sparse_region_def filter_map comp_def)
  qed
  then have v: "validatePolicyRegions sample_state = None"
    using z by (auto simp: validatePolicyRegions_None policyReservedNonZeroWords_0)
  have "\<not> patchTouchesHeader sample_patch" "policyWriteIsCanonicalForState zero_state sample_patch"
    by (simp_all add: sample_patch_def patchTouchesHeader_def policyWriteIsCanonicalForState_def upt_2
      elem_at_def RANGES policyWriteIsCanonical_def isPolicyIndex_def)
  moreover have "applyPatchOntoCurrent zero_state sample_patch False = Inr sample_state" by (rule sample_apply)
  ultimately show ?thesis
    using v by (auto simp: applyPatchOntoCurrent_def check_result_def bind_res_eq_Inr Let_def split: if_splits)
qed

theorem policy_mode_success_witness:
  "words sample_state ! 5 = words zero_state ! 5 \<and> words sample_state ! 900 = 0 \<and>
   rg_failures (decodePolicyAtomRegion sample_state Abstention) = 0"
  using policy_mode_success [OF wf_zero_state sample_patch_ok sample_apply_policy] by simp

lemma write_target_nth:
  assumes "patch_ok p" and "i < length (indices p)"
  shows "write_target p (nat (indices p ! i)) = Some (at_or 0 (newWords p) i)" and "0 \<le> indices p ! i" and "indices p ! i < 992"
proof -
  have v: "validatePatchType (patchType p) (indices p) = None" using assms(1) by (simp add: patch_ok_def)
  show r: "0 \<le> indices p ! i" "indices p ! i < 992"
    using valid_indices [OF v, of i "indices p ! i"] assms(2) by auto
  have "distinct (indices p)" using v by (simp add: validatePatchType_None)
  then have uniq: "k = i" if "k < length (indices p)" "indices p ! k = indices p ! i" for k
    using that assms(2) nth_eq_iff_index_eq [of "indices p" k i] by simp
  have "List.find (\<lambda>k. elem_at (indices p) k = Some (indices p ! i)) [0..<nat (wordCount p)] = Some i"
    unfolding find_Some_iff using assms(2) patch_len [OF assms(1)]
    by (intro exI [of _ i]) (auto simp: elem_at_Some dest: uniq [rotated])
  then show "write_target p (nat (indices p ! i)) = Some (at_or 0 (newWords p) i)"
    using r by (simp add: write_target_def)
qed

text \<open>
  Fact: in policy mode a patch that targets a policy word was accepted as a policy update, or as
  a mixed patch that also changed a memory-index, relation or temporal word; so a key update is
  never accepted there, nor a header update.
\<close>

theorem policy_mode_canonical_type:
  assumes "wf_state s" and "patch_ok p" and "applyPatchOntoCurrent s p True = Inr t"
  shows "patchType p \<noteq> KEY_UPDATE \<and> patchType p \<noteq> HEADER_UPDATE \<and>
    (list_all (\<lambda>idx. \<not> isPolicyIndex idx) (indices p) \<or> patchType p = POLICY_UPDATE \<or>
     patchType p = MIXED \<and>
     (\<exists>j<1024. isPolicyMixedCompanionIndex (int j) \<and> words t ! j \<noteq> words s ! j))"
proof -
  have l: "length (words s) = 1024" using assms(1) by (rule wf_state_length)
  note a = apply_Inr(7) [OF l assms(3) TrueI]
  have c: "policyWriteIsCanonicalForState s p" and h: "\<not> patchTouchesHeader p" using a by auto
  have v: "validatePatchType (patchType p) (indices p) = None" using assms(2) by (simp add: patch_ok_def)
  have ne: "indices p \<noteq> []" using assms(2) by (auto simp: patch_ok_def)
  have main: "list_all (\<lambda>idx. \<not> isPolicyIndex idx) (indices p) \<or> patchType p = POLICY_UPDATE \<or>
     patchType p = MIXED \<and> (\<exists>j<1024. isPolicyMixedCompanionIndex (int j) \<and> words t ! j \<noteq> words s ! j)"
  proof (cases "list_all (\<lambda>idx. \<not> isPolicyIndex idx) (indices p) \<or> patchType p = POLICY_UPDATE")
    case False
    then have tp: "\<exists>idx \<in> set (indices p). isPolicyIndex idx" by (auto simp: list_all_iff)
    have mixed: "patchType p = MIXED"
      using c False tp touches_iff [OF assms(2), of isPolicyIndex]
      by (auto simp: policyWriteIsCanonicalForState_def policyWriteIsCanonical_def Let_def split: if_splits)
    then obtain i idx where i: "i < nat (wordCount p)" "elem_at (indices p) i = Some idx"
      "isPolicyMixedCompanionIndex idx" "word_at (words s) idx \<noteq> at_or 0 (newWords p) i"
      using c tp touches_iff [OF assms(2), of isPolicyIndex]
      by (auto simp: policyWriteIsCanonicalForState_def Let_def list_ex_iff split: if_splits option.splits)
    then have il: "i < length (indices p)" "idx = indices p ! i" by (auto simp: elem_at_Some)
    note w = write_target_nth [OF assms(2) il(1), folded il(2)]
    have "words t ! nat idx = at_or 0 (newWords p) i" using nth_patched [OF l assms(3), of "nat idx"] w by simp
    moreover have "word_at (words s) idx = words s ! nat idx" using w(2,3) l by (simp add: word_at_def)
    ultimately have "words t ! nat idx \<noteq> words s ! nat idx" using i(4) by simp
    with i(3) w(2,3) mixed show ?thesis by (intro disjI2 conjI exI [of _ "nat idx"]) simp_all
  qed auto
  have "patchType p \<noteq> HEADER_UPDATE"
  proof
    assume "patchType p = HEADER_UPDATE"
    then have "\<exists>idx \<in> set (indices p). idx \<ge> HEADER_START \<and> idx \<le> HEADER_END"
      using v ne by (cases "indices p") (auto simp: validatePatchType_None type_allows_def HEADER_UPDATE_def RANGES)
    then show False using h touches_iff [OF assms(2), of "\<lambda>idx. idx \<ge> HEADER_START \<and> idx \<le> HEADER_END"]
      by (simp add: patchTouchesHeader_def)
  qed
  moreover have "patchType p \<noteq> KEY_UPDATE"
  proof
    assume k: "patchType p = KEY_UPDATE"
    then have "\<not> list_all (\<lambda>idx. \<not> isPolicyIndex idx) (indices p)"
      using v ne by (cases "indices p") (auto simp: validatePatchType_None type_allows_def KEY_UPDATE_def isPolicyIndex_def RANGES)
    with k main show False by (simp add: PATCH_TYPE)
  qed
  ultimately show ?thesis using main by blast
qed

theorem policy_mode_canonical_type_witness:
  "patchType sample_patch \<noteq> KEY_UPDATE \<and> patchType sample_patch \<noteq> HEADER_UPDATE \<and>
    (list_all (\<lambda>idx. \<not> isPolicyIndex idx) (indices sample_patch) \<or> patchType sample_patch = POLICY_UPDATE \<or>
     patchType sample_patch = MIXED \<and>
     (\<exists>j<1024. isPolicyMixedCompanionIndex (int j) \<and> words sample_state ! j \<noteq> words zero_state ! j))"
  by (rule policy_mode_canonical_type [OF wf_zero_state sample_patch_ok sample_apply_policy])

text \<open>
  Fact: the application functions do not compare the length of the index list with the word
  count.  A patch object whose second index is missing passes the no-op check by its unused
  second word and is accepted although it changes nothing.
\<close>

theorem short_patch_noop_accepted:
  "applyPatchOntoCurrent zero_state \<lparr> patchType = 2, wordCount = 2, scoreDelta = 0, parentStateRoot = [],
     indices = [40], newWords = [0, 5] \<rparr> False = Inr zero_state"
proof -
  have "(replicate 1024 0)[40 := 0] = (replicate 1024 0 :: int list)"
    by (rule nth_equalityI) (auto simp: nth_list_update)
  then show ?thesis
    using zero_reserved
    by (simp add: applyPatchOntoCurrent_def validatePatchType_None type_allows_def anyChange_def write_words_def
      check_result_def upt_2 elem_at_def zero_state_def RANGES word_at_def)
qed

text \<open>
  Fact: under the policy pipeline the advertised patch types are exactly five, each advertised
  with a word range that its type byte may write; the reclaimed key, codebook and header types
  are not advertised.
\<close>

theorem buildAllowedPatchTypes_r5:
  "buildAllowedPatchTypes (Some ''coretex-retrieval-v2-policy-r5'') =
     [(''SLOT_REPLACE'', 0x02, 32, 383), (''TEMPORAL_UPDATE'', 0x03, 800, 895), (''RELATION_UPDATE'', 0x04, 672, 799),
      (''POLICY_UPDATE'', 0x07, 384, 671), (''MIXED'', 0xFF, 32, 991)] \<and>
   list_all (\<lambda>(name, b, lo, hi). list_all (type_allows b) [lo..hi])
     (buildAllowedPatchTypes (Some ''coretex-retrieval-v2-policy-r5''))"
proof -
  have e: "buildAllowedPatchTypes (Some ''coretex-retrieval-v2-policy-r5'') =
     [(''SLOT_REPLACE'', 0x02, 32, 383), (''TEMPORAL_UPDATE'', 0x03, 800, 895), (''RELATION_UPDATE'', 0x04, 672, 799),
      (''POLICY_UPDATE'', 0x07, 384, 671), (''MIXED'', 0xFF, 32, 991)]"
    by (simp add: buildAllowedPatchTypes_def PATCH_TYPE patchTypeRange_eq RANGES)
  then show ?thesis by (auto simp: list_all_iff type_allows_def)
qed

end
