(* ===== verification/Slot_Policy.thy ===== *)
theory Slot_Policy
  imports Codec
begin

text \<open>
  \<open>src/substrate/slot-policy.ts\<close>: the write cursor that finds the next slot of a region which
  is not protected.  Numbers are mathematical integers; \<open>Number.isSafeInteger\<close> is the bound
  2^53 - 1 on them.
\<close>

datatype slot_region = Memory_index | Retrieval_keys

record selected_slot =
  ss_region :: slot_region
  ss_slotIndex :: int
  ss_wordIndex :: int
  ss_capacity :: int
  ss_wrapped :: bool

definition isSafeInteger :: "int \<Rightarrow> bool" where
  "isSafeInteger n \<longleftrightarrow> \<bar>n\<bar> \<le> 2 ^ 53 - 1"

fun SUBSTRATE_SLOT_CAPACITY :: "slot_region \<Rightarrow> int" where
  "SUBSTRATE_SLOT_CAPACITY Memory_index = 352"
| "SUBSTRATE_SLOT_CAPACITY Retrieval_keys = 36"

fun SUBSTRATE_WORDS_PER_SLOT :: "slot_region \<Rightarrow> int" where
  "SUBSTRATE_WORDS_PER_SLOT Memory_index = 1"
| "SUBSTRATE_WORDS_PER_SLOT Retrieval_keys = 8"

definition wordIndexForSubstrateSlot :: "slot_region \<Rightarrow> int \<Rightarrow> int \<Rightarrow> js_error + int" where
  "wordIndexForSubstrateSlot region slotIndex wordOffset =
     (let capacity = SUBSTRATE_SLOT_CAPACITY region in
      if \<not> isSafeInteger slotIndex \<or> slotIndex < 0 \<or> slotIndex \<ge> capacity
      then Inl (Error ''slotIndex out of range'')
      else let wordsPerSlot = SUBSTRATE_WORDS_PER_SLOT region in
      if \<not> isSafeInteger wordOffset \<or> wordOffset < 0 \<or> wordOffset \<ge> wordsPerSlot
      then Inl (Error ''wordOffset out of range'')
      else let start = (if region = Memory_index then MEMORY_INDEX_START else RETRIEVAL_KEYS_START) in
        Inr (start + slotIndex * wordsPerSlot + wordOffset))"

definition normalizeProtectedSlots :: "int list option \<Rightarrow> int \<Rightarrow> js_error + int list" where
  "normalizeProtectedSlots slots capacity =
     (case slots of None \<Rightarrow> Inr []
      | Some ss \<Rightarrow> fold_res (\<lambda>out slot.
          if \<not> isSafeInteger slot \<or> slot < 0 \<or> slot \<ge> capacity then Inl (Error ''protected slot out of range'')
          else Inr (set_add out slot)) [] ss)"

text \<open>The probing loop with the number of tries that are left.\<close>

fun probe :: "int list \<Rightarrow> int \<Rightarrow> nat \<Rightarrow> int \<Rightarrow> int option" where
  "probe protectedSlots capacity 0 slotIndex = None"
| "probe protectedSlots capacity (Suc tries) slotIndex =
     (if slotIndex \<notin> set protectedSlots then Some slotIndex
      else probe protectedSlots capacity tries ((slotIndex + 1) mod capacity))"

definition selectSubstrateSlot :: "slot_region \<Rightarrow> int \<Rightarrow> int list option \<Rightarrow> js_error + selected_slot" where
  "selectSubstrateSlot region advanceIndex protectedSlots =
     (let capacity = SUBSTRATE_SLOT_CAPACITY region in
      if \<not> isSafeInteger advanceIndex \<or> advanceIndex < 0
      then Inl (Error ''advanceIndex must be a non-negative safe integer'')
      else bind_res (normalizeProtectedSlots protectedSlots capacity) (\<lambda>protected.
        case probe protected capacity (nat capacity) (advanceIndex mod capacity) of
          Some slotIndex \<Rightarrow> bind_res (wordIndexForSubstrateSlot region slotIndex 0) (\<lambda>wordIndex.
            Inr \<lparr> ss_region = region, ss_slotIndex = slotIndex, ss_wordIndex = wordIndex,
                  ss_capacity = capacity, ss_wrapped = (advanceIndex \<ge> capacity) \<rparr>)
        | None \<Rightarrow> Inl (Error ''no writable slots remain'')))"

section \<open>The first free slot\<close>

lemma capacity_pos: "0 < SUBSTRATE_SLOT_CAPACITY region" "SUBSTRATE_SLOT_CAPACITY region \<le> 352"
  by (cases region; simp)+

text \<open>The probe returns the first unprotected slot at or after the start, cyclically.\<close>

lemma probe_Some:
  assumes "0 < cap" and "0 \<le> s" and "s < cap"
  shows "probe prot cap n s = Some r \<longleftrightarrow>
    (\<exists>k<n. r = (s + int k) mod cap \<and> r \<notin> set prot \<and> (\<forall>j<k. (s + int j) mod cap \<in> set prot))"
  using assms(2,3)
proof (induction n arbitrary: s)
  case (Suc n)
  let ?s' = "(s + 1) mod cap"
  have s': "0 \<le> ?s'" "?s' < cap" using assms(1) by simp_all
  have sm: "s mod cap = s" using Suc.prems by simp
  have shift: "(?s' + int k) mod cap = (s + int (Suc k)) mod cap" for k
    by (simp add: mod_add_left_eq add.assoc)
  show ?case
  proof (cases "s \<in> set prot")
    case False
    show ?thesis
    proof
      assume "probe prot cap (Suc n) s = Some r"
      with False sm show "\<exists>k<Suc n. r = (s + int k) mod cap \<and> r \<notin> set prot \<and> (\<forall>j<k. (s + int j) mod cap \<in> set prot)"
        by (intro exI [of _ 0]) simp
    next
      assume "\<exists>k<Suc n. r = (s + int k) mod cap \<and> r \<notin> set prot \<and> (\<forall>j<k. (s + int j) mod cap \<in> set prot)"
      then obtain k where k: "r = (s + int k) mod cap" "\<forall>j<k. (s + int j) mod cap \<in> set prot" by blast
      have "k = 0"
      proof (rule ccontr)
        assume "k \<noteq> 0"
        with k(2) have "(s + int 0) mod cap \<in> set prot" by blast
        with sm False show False by simp
      qed
      with k sm False show "probe prot cap (Suc n) s = Some r" by simp
    qed
  next
    case True
    have "(\<exists>k<n. r = (?s' + int k) mod cap \<and> r \<notin> set prot \<and> (\<forall>j<k. (?s' + int j) mod cap \<in> set prot)) \<longleftrightarrow>
      (\<exists>k<Suc n. r = (s + int k) mod cap \<and> r \<notin> set prot \<and> (\<forall>j<k. (s + int j) mod cap \<in> set prot))"
      (is "?L \<longleftrightarrow> ?R")
    proof
      assume ?L
      then obtain k where k: "k < n" "r = (s + int (Suc k)) mod cap" "r \<notin> set prot" "\<forall>j<k. (s + int (Suc j)) mod cap \<in> set prot"
        unfolding shift by blast
      have "\<forall>j<Suc k. (s + int j) mod cap \<in> set prot"
      proof (intro allI impI)
        fix j assume "j < Suc k"
        then show "(s + int j) mod cap \<in> set prot" using k(4) True sm by (cases j) auto
      qed
      with k show ?R by (intro exI [of _ "Suc k"]) simp
    next
      assume ?R
      then obtain k where k: "k < Suc n" "r = (s + int k) mod cap" "r \<notin> set prot" "\<forall>j<k. (s + int j) mod cap \<in> set prot"
        by blast
      then obtain k' where "k = Suc k'" using True sm by (cases k) auto
      with k show ?L unfolding shift by (intro exI [of _ k']) auto
    qed
    then show ?thesis using True Suc.IH [OF s'] by simp
  qed
qed simp

lemma probe_None:
  assumes "0 < cap" and "0 \<le> s" and "s < cap"
  shows "probe prot cap (nat cap) s = None \<longleftrightarrow> (\<forall>i. 0 \<le> i \<and> i < cap \<longrightarrow> i \<in> set prot)"
proof
  assume n: "probe prot cap (nat cap) s = None"
  show "\<forall>i. 0 \<le> i \<and> i < cap \<longrightarrow> i \<in> set prot"
  proof (rule ccontr)
    assume "\<not> (\<forall>i. 0 \<le> i \<and> i < cap \<longrightarrow> i \<in> set prot)"
    then obtain i where i: "0 \<le> i" "i < cap" "i \<notin> set prot" by blast
    define d where "d = nat ((i - s) mod cap)"
    have "(s + int d) mod cap = i" "d < nat cap" using i assms by (simp_all add: d_def mod_add_right_eq)
    then have ex: "\<exists>k. k < nat cap \<and> (s + int k) mod cap \<notin> set prot" using i by auto
    define k where "k = (LEAST k. k < nat cap \<and> (s + int k) mod cap \<notin> set prot)"
    have k: "k < nat cap" "(s + int k) mod cap \<notin> set prot" using LeastI_ex [OF ex] by (simp_all add: k_def)
    have "\<forall>j<k. (s + int j) mod cap \<in> set prot"
      using not_less_Least [of _ "\<lambda>k. k < nat cap \<and> (s + int k) mod cap \<notin> set prot"] k(1) by (fastforce simp: k_def)
    then have "probe prot cap (nat cap) s = Some ((s + int k) mod cap)"
      using k by (subst probe_Some [OF assms]) blast
    with n show False by simp
  qed
next
  assume a: "\<forall>i. 0 \<le> i \<and> i < cap \<longrightarrow> i \<in> set prot"
  show "probe prot cap (nat cap) s = None"
  proof (rule ccontr)
    assume "probe prot cap (nat cap) s \<noteq> None"
    then obtain r where "probe prot cap (nat cap) s = Some r" by blast
    then obtain k where "r = (s + int k) mod cap" "r \<notin> set prot" by (auto simp: probe_Some [OF assms])
    with a assms(1) show False by simp
  qed
qed

lemma normalize_set:
  assumes "list_all (\<lambda>i. 0 \<le> i \<and> i < cap) ss" and "cap \<le> 352"
  shows "normalizeProtectedSlots (Some ss) cap = Inr (foldl set_add [] ss)"
proof -
  have "fold_res (\<lambda>out slot.
          if \<not> isSafeInteger slot \<or> slot < 0 \<or> slot \<ge> cap then Inl (Error ''protected slot out of range'')
          else Inr (set_add out slot)) [] ss = Inr (foldl set_add [] ss) \<and> True"
    by (rule fold_res_foldl) (use assms in \<open>auto simp: list_all_iff isSafeInteger_def\<close>)
  then show ?thesis by (simp add: normalizeProtectedSlots_def)
qed

text \<open>
  Fact: with valid protected slots the cursor returns the first unprotected slot at or after
  \<open>advanceIndex mod capacity\<close>, going round the region once, with the word it starts at; it
  throws exactly when every slot of the region is protected.
\<close>

theorem selectSubstrateSlot_first_free:
  assumes "0 \<le> advance" and "advance < 2 ^ 53"
    and "list_all (\<lambda>i. 0 \<le> i \<and> i < SUBSTRATE_SLOT_CAPACITY region) prot"
  shows "(case selectSubstrateSlot region advance (Some prot) of
      Inl e \<Rightarrow> \<forall>i. 0 \<le> i \<and> i < SUBSTRATE_SLOT_CAPACITY region \<longrightarrow> i \<in> set prot
    | Inr r \<Rightarrow> \<exists>k < nat (SUBSTRATE_SLOT_CAPACITY region).
        ss_slotIndex r = (advance + int k) mod SUBSTRATE_SLOT_CAPACITY region \<and>
        ss_slotIndex r \<notin> set prot \<and>
        (\<forall>j<k. (advance + int j) mod SUBSTRATE_SLOT_CAPACITY region \<in> set prot) \<and>
        wordIndexForSubstrateSlot region (ss_slotIndex r) 0 = Inr (ss_wordIndex r))"
proof -
  define cap where "cap = SUBSTRATE_SLOT_CAPACITY region"
  have cap: "0 < cap" "cap \<le> 352" by (simp_all add: cap_def capacity_pos)
  have s: "0 \<le> advance mod cap" "advance mod cap < cap" using cap by simp_all
  have n: "normalizeProtectedSlots (Some prot) cap = Inr (foldl set_add [] prot)"
    using assms(3) cap by (intro normalize_set) (simp_all add: cap_def)
  have sp: "set (foldl set_add [] prot) = set prot" by simp
  note ps = probe_Some [OF cap(1) s, of "foldl set_add [] prot" "nat cap", unfolded sp mod_add_left_eq]
  note pn = probe_None [OF cap(1) s, of "foldl set_add [] prot", unfolded sp]
  have safe: "isSafeInteger advance" using assms(1,2) by (simp add: isSafeInteger_def)
  have word: "\<exists>w. wordIndexForSubstrateSlot region r 0 = Inr w" if "0 \<le> r" "r < cap" for r
    using that cap by (cases region) (simp_all add: wordIndexForSubstrateSlot_def cap_def isSafeInteger_def)
  show ?thesis
  proof (cases "probe (foldl set_add [] prot) cap (nat cap) (advance mod cap)")
    case None
    then have "selectSubstrateSlot region advance (Some prot) = Inl (Error ''no writable slots remain'')"
      using safe assms(1) n by (simp add: selectSubstrateSlot_def cap_def Let_def)
    with None pn show ?thesis by (simp add: cap_def)
  next
    case (Some r)
    then obtain k where k: "k < nat cap" "r = (advance + int k) mod cap" "r \<notin> set prot"
      "\<forall>j<k. (advance + int j) mod cap \<in> set prot" unfolding ps by blast
    then obtain w where w: "wordIndexForSubstrateSlot region r 0 = Inr w" using word [of r] cap by auto
    have "selectSubstrateSlot region advance (Some prot) = Inr \<lparr> ss_region = region, ss_slotIndex = r, ss_wordIndex = w,
        ss_capacity = cap, ss_wrapped = (advance \<ge> cap) \<rparr>"
      using safe assms(1) n Some w by (simp add: selectSubstrateSlot_def cap_def Let_def)
    with k w show ?thesis by (auto simp: cap_def)
  qed
qed

theorem selectSubstrateSlot_first_free_witness:
  "\<exists>r k. selectSubstrateSlot Retrieval_keys 71 (Some [35, 0]) = Inr r \<and> k < (36 :: nat) \<and>
    ss_slotIndex r = (71 + int k) mod 36 \<and> ss_slotIndex r \<notin> set [35, 0] \<and>
    wordIndexForSubstrateSlot Retrieval_keys (ss_slotIndex r) 0 = Inr (ss_wordIndex r)"
proof -
  have free: "\<not> (\<forall>i. 0 \<le> i \<and> i < SUBSTRATE_SLOT_CAPACITY Retrieval_keys \<longrightarrow> i \<in> set [35, 0 :: int])"
    by (auto intro!: exI [of _ 1])
  have ok: "list_all (\<lambda>i. 0 \<le> i \<and> i < SUBSTRATE_SLOT_CAPACITY Retrieval_keys) [35, 0 :: int]" by simp
  from selectSubstrateSlot_first_free [OF _ _ ok, of 71] free show ?thesis by (auto split: sum.splits)
qed

text \<open>Fact: the word of a slot lies in the region of the slot, and no two slots or offsets share
  a word.\<close>

theorem wordIndexForSubstrateSlot_injective:
  assumes "wordIndexForSubstrateSlot region i a = Inr w" and "wordIndexForSubstrateSlot region j b = Inr w"
  shows "i = j \<and> a = b \<and>
    (case region of Memory_index \<Rightarrow> MEMORY_INDEX_START \<le> w \<and> w \<le> MEMORY_INDEX_END
     | Retrieval_keys \<Rightarrow> RETRIEVAL_KEYS_START \<le> w \<and> w \<le> RETRIEVAL_KEYS_END)"
proof (cases region)
  case Memory_index
  then show ?thesis using assms by (auto simp: wordIndexForSubstrateSlot_def RANGES Let_def split: if_splits)
next
  case Retrieval_keys
  then have "384 + i * 8 + a = w" "384 + j * 8 + b = w" "0 \<le> a" "a < 8" "0 \<le> b" "b < 8" "0 \<le> i" "i < 36"
    using assms by (auto simp: wordIndexForSubstrateSlot_def RANGES Let_def split: if_splits)
  moreover from this have "i = j" by presburger
  ultimately show ?thesis by (simp add: Retrieval_keys RANGES)
qed

theorem wordIndexForSubstrateSlot_injective_witness:
  "(35 :: int) = 35 \<and> (7 :: int) = 7 \<and> (case Retrieval_keys of
     Memory_index \<Rightarrow> MEMORY_INDEX_START \<le> 671 \<and> 671 \<le> MEMORY_INDEX_END
   | Retrieval_keys \<Rightarrow> RETRIEVAL_KEYS_START \<le> 671 \<and> 671 \<le> RETRIEVAL_KEYS_END)"
  by (rule wordIndexForSubstrateSlot_injective)
    (simp_all add: wordIndexForSubstrateSlot_def isSafeInteger_def RANGES)

end
