(* ===== verification/Seed_Derivation.thy ===== *)
theory Seed_Derivation
  imports Keccak Hex_Codec Patch_Wire
begin

text \<open>
  \<open>src/eval/seed-derivation.ts\<close>: the domain-separated hashes of the protocol, eval seeds,
  patch hashes and dedup keys.  \<open>TextEncoder.encode\<close> is one byte per character: every string
  encoded here is ASCII.
\<close>

section \<open>Domains and inputs\<close>

definition EVAL_SEED_GATE_DOMAIN_PREFIX :: string where
  "EVAL_SEED_GATE_DOMAIN_PREFIX = ''coretex-eval-v1-gate''"

definition EVAL_SEED_CONFIRM_DOMAIN_PREFIX :: string where
  "EVAL_SEED_CONFIRM_DOMAIN_PREFIX = ''coretex-eval-v1-confirm''"

definition DEDUP_KEY_DOMAIN_PREFIX :: string where
  "DEDUP_KEY_DOMAIN_PREFIX = ''coretex-dedup-key-v1''"

definition PATCH_HASH_DOMAIN_PREFIX :: string where
  "PATCH_HASH_DOMAIN_PREFIX = ''coretex-patch-hash-v1''"

record eval_seed_input =
  es_epochSecret :: string
  es_blockhash :: string
  es_epochId :: int
  es_patchHash :: string
  es_parentRoot :: string
  es_corpusRoot :: string
  es_bundleHash :: string

section \<open>Encoding helpers\<close>

definition encode_ascii :: "string \<Rightarrow> bytes" where
  "encode_ascii s = map of_char s"

definition u64BE :: "int \<Rightarrow> bytes" where
  "u64BE v = fst (fold (\<lambda>i (out, n). (out[i := word_of_int (n AND 0xff)], drop_bit 8 n))
     (rev [0..<8]) (replicate 8 0, v))"

text \<open>\<open>hex.startsWith('0x') || hex.startsWith('0X') ? hex.slice(2) : hex\<close>\<close>

definition clean_hex :: "string \<Rightarrow> string" where
  "clean_hex hex = (if take 2 hex = ''0x'' \<or> take 2 hex = ''0X'' then drop 2 hex else hex)"

definition hexToBytes_strict :: "string \<Rightarrow> js_error + bytes" where
  "hexToBytes_strict hex =
     (let clean = clean_hex hex in
      if length clean mod 2 \<noteq> 0 then Inl (Error ''hexToBytes: odd length'')
      else map_res (\<lambda>i. case parse_int_16 (take 2 (drop (i * 2) clean)) of
          None \<Rightarrow> Inl (Error ''hexToBytes: invalid hex'')
        | Some b \<Rightarrow> Inr (word_of_int b)) [0..<length clean div 2])"

definition assertBytes32Hex :: "string \<Rightarrow> string \<Rightarrow> js_error + unit" where
  "assertBytes32Hex value label =
     (let clean = clean_hex value in
      if length clean \<noteq> 64 then Inl (Error (label @ '': must be 32 bytes hex''))
      else if \<not> list_all (\<lambda>c. hex_val c \<noteq> None) clean then Inl (Error (label @ '': non-hex characters''))
      else Inr ())"

text \<open>\<open>/^0x?0{64}$/i.test(s)\<close>: a zero, an optional x or X, and 64 zeros.\<close>

definition zero_blockhash_pattern :: "string \<Rightarrow> bool" where
  "zero_blockhash_pattern s \<longleftrightarrow>
     s = ''0x'' @ replicate 64 CHR ''0'' \<or> s = ''0X'' @ replicate 64 CHR ''0'' \<or>
     s = ''0'' @ replicate 64 CHR ''0''"

section \<open>Hashes\<close>

definition deriveEvalSeedWithPrefix :: "string \<Rightarrow> eval_seed_input \<Rightarrow> js_error + string" where
  "deriveEvalSeedWithPrefix pre i =
     bind_res (assertBytes32Hex (es_epochSecret i) ''epochSecret'') (\<lambda>_.
     bind_res (assertBytes32Hex (es_blockhash i) ''blockhash'') (\<lambda>_.
     bind_res (assertBytes32Hex (es_patchHash i) ''patchHash'') (\<lambda>_.
     bind_res (assertBytes32Hex (es_parentRoot i) ''parentRoot'') (\<lambda>_.
     bind_res (assertBytes32Hex (es_corpusRoot i) ''corpusRoot'') (\<lambda>_.
     bind_res (assertBytes32Hex (es_bundleHash i) ''bundleHash'') (\<lambda>_.
     if zero_blockhash_pattern (es_blockhash i) then Inl (Error ''deriveEvalSeed: blockhash is zero'')
     else
     bind_res (hexToBytes_strict (es_epochSecret i)) (\<lambda>secret.
     bind_res (hexToBytes_strict (es_blockhash i)) (\<lambda>blockhash.
     bind_res (hexToBytes_strict (es_patchHash i)) (\<lambda>patchHash.
     bind_res (hexToBytes_strict (es_parentRoot i)) (\<lambda>parentRoot.
     bind_res (hexToBytes_strict (es_corpusRoot i)) (\<lambda>corpusRoot.
     bind_res (hexToBytes_strict (es_bundleHash i)) (\<lambda>bundleHash.
     Inr (bytesToHex (keccak256 (encode_ascii pre @ secret @ blockhash @ u64BE (es_epochId i) @
       patchHash @ parentRoot @ corpusRoot @ bundleHash)))))))))))))))"

definition deriveGateEvalSeed :: "eval_seed_input \<Rightarrow> js_error + string" where
  "deriveGateEvalSeed i = deriveEvalSeedWithPrefix EVAL_SEED_GATE_DOMAIN_PREFIX i"

definition deriveConfirmEvalSeed :: "eval_seed_input \<Rightarrow> js_error + string" where
  "deriveConfirmEvalSeed i = deriveEvalSeedWithPrefix EVAL_SEED_CONFIRM_DOMAIN_PREFIX i"

definition computePatchHash :: "bytes \<Rightarrow> string" where
  "computePatchHash normalizedPatchBytes =
     bytesToHex (keccak256 (encode_ascii PATCH_HASH_DOMAIN_PREFIX @ normalizedPatchBytes))"

definition SCORE_DELTA_WIRE_OFFSET :: nat where "SCORE_DELTA_WIRE_OFFSET = 2"
definition SCORE_DELTA_WIRE_BYTES :: nat where "SCORE_DELTA_WIRE_BYTES = 8"

definition semanticPatchHash :: "bytes \<Rightarrow> js_error + string" where
  "semanticPatchHash compactPatchBytes =
     (if length compactPatchBytes < SCORE_DELTA_WIRE_OFFSET + SCORE_DELTA_WIRE_BYTES
      then Inl (Error ''semanticPatchHash: compact patch shorter than the fixed header'')
      else let norm = foldl (\<lambda>bs i. bs[i := 0]) compactPatchBytes
             [SCORE_DELTA_WIRE_OFFSET..<SCORE_DELTA_WIRE_OFFSET + SCORE_DELTA_WIRE_BYTES]
        in Inr (computePatchHash norm))"

definition computeDedupKey :: "string \<Rightarrow> bytes \<Rightarrow> js_error + string" where
  "computeDedupKey parentRoot normalizedPatchBytes =
     bind_res (assertBytes32Hex parentRoot ''parentRoot'') (\<lambda>_.
     bind_res (hexToBytes_strict parentRoot) (\<lambda>root.
     Inr (bytesToHex (keccak256 (encode_ascii DEDUP_KEY_DOMAIN_PREFIX @ root @ normalizedPatchBytes)))))"

section \<open>Decoding 32-byte hex strings\<close>

text \<open>A string the assertion accepts, and the 32 bytes it stands for.\<close>

definition bytes32_hex :: "string \<Rightarrow> bool" where
  "bytes32_hex s \<longleftrightarrow> length (clean_hex s) = 64 \<and> list_all (\<lambda>c. hex_val c \<noteq> None) (clean_hex s)"

definition hex_pair :: "string \<Rightarrow> nat \<Rightarrow> byte" where
  "hex_pair s i = word_of_int (int (16 * the (hex_val (s ! (2 * i))) + the (hex_val (s ! (2 * i + 1)))))"

definition bytes32_of :: "string \<Rightarrow> bytes" where
  "bytes32_of s = map (hex_pair (clean_hex s)) [0..<32]"

lemma length_bytes32_of [simp]: "length (bytes32_of s) = 32"
  by (simp add: bytes32_of_def)

lemma assertBytes32Hex_ok: "assertBytes32Hex s l = Inr u \<longleftrightarrow> bytes32_hex s"
  by (simp add: assertBytes32Hex_def bytes32_hex_def Let_def)

lemma hex_char:
  assumes "hex_val c = Some d"
  shows "\<not> js_white c" and "c \<noteq> CHR ''-''" and "c \<noteq> CHR ''+''" and "c \<noteq> CHR ''x''" and "c \<noteq> CHR ''X''" and "d < 16"
  using assms by (auto simp: js_white_def hex_val_def Let_def split: if_splits)

lemma parse_hex_pair:
  assumes "hex_val a = Some d" and "hex_val b = Some e"
  shows "parse_int_16 [a, b] = Some (int (16 * d + e))"
  using assms hex_char [OF assms(1)] hex_char [OF assms(2)] by (simp add: parse_int_16_def)

lemma hexToBytes_strict_ok:
  assumes "bytes32_hex s"
  shows "hexToBytes_strict s = Inr (bytes32_of s)"
proof -
  let ?c = "clean_hex s"
  have l: "length ?c = 64" and h: "\<And>i. i < 64 \<Longrightarrow> hex_val (?c ! i) \<noteq> None"
    using assms by (auto simp: bytes32_hex_def list_all_length)
  have "(case parse_int_16 (take 2 (drop (i * 2) ?c)) of None \<Rightarrow> Inl (Error ''hexToBytes: invalid hex'')
        | Some b \<Rightarrow> Inr (word_of_int b)) = Inr (hex_pair ?c i)" if "i \<in> set [0..<32]" for i
  proof -
    have i: "i < 32" using that by simp
    obtain d where d: "hex_val (?c ! (2 * i)) = Some d" using h [of "2 * i"] i by auto
    obtain e where e: "hex_val (?c ! (2 * i + 1)) = Some e" using h [of "2 * i + 1"] i by auto
    have "take 2 (drop (i * 2) ?c) = [?c ! (2 * i), ?c ! (2 * i + 1)]"
      using i l by (intro nth_equalityI) (auto simp: less_Suc_eq numeral_2_eq_2 mult.commute)
    then show ?thesis using parse_hex_pair [OF d e] d e by (simp add: hex_pair_def)
  qed
  then have "map_res (\<lambda>i. case parse_int_16 (take 2 (drop (i * 2) ?c)) of
          None \<Rightarrow> Inl (Error ''hexToBytes: invalid hex'') | Some b \<Rightarrow> Inr (word_of_int b)) [0..<32] =
      Inr (map (hex_pair ?c) [0..<32])"
    by (rule map_res_all_Inr)
  then show ?thesis by (simp add: hexToBytes_strict_def l bytes32_of_def Let_def)
qed

lemma u64BE_eq: "u64BE v = be_bytes 8 v"
  using write_loop [of 0 8 "replicate 8 0" v] by (simp add: u64BE_def)

section \<open>Seeds\<close>

definition seed_preimage :: "string \<Rightarrow> eval_seed_input \<Rightarrow> bytes" where
  "seed_preimage pre i = encode_ascii pre @ bytes32_of (es_epochSecret i) @ bytes32_of (es_blockhash i) @
     be_bytes 8 (es_epochId i) @ bytes32_of (es_patchHash i) @ bytes32_of (es_parentRoot i) @
     bytes32_of (es_corpusRoot i) @ bytes32_of (es_bundleHash i)"

definition seed_input_ok :: "eval_seed_input \<Rightarrow> bool" where
  "seed_input_ok i \<longleftrightarrow> bytes32_hex (es_epochSecret i) \<and> bytes32_hex (es_blockhash i) \<and> bytes32_hex (es_patchHash i) \<and>
     bytes32_hex (es_parentRoot i) \<and> bytes32_hex (es_corpusRoot i) \<and> bytes32_hex (es_bundleHash i) \<and>
     \<not> zero_blockhash_pattern (es_blockhash i)"

lemma deriveEvalSeed_eq:
  "seed_input_ok i \<Longrightarrow> deriveEvalSeedWithPrefix pre i = Inr (bytesToHex (keccak256 (seed_preimage pre i)))"
  using assertBytes32Hex_ok by (simp add: seed_input_ok_def deriveEvalSeedWithPrefix_def seed_preimage_def
    hexToBytes_strict_ok u64BE_eq bytes32_hex_def assertBytes32Hex_def Let_def)

lemma deriveEvalSeed_Inr: "deriveEvalSeedWithPrefix pre i = Inr s \<Longrightarrow> seed_input_ok i"
  by (auto simp: deriveEvalSeedWithPrefix_def bind_res_eq_Inr assertBytes32Hex_ok seed_input_ok_def split: if_splits)

lemma length_preimage: "length (seed_preimage pre i) = length pre + 200"
  by (simp add: seed_preimage_def encode_ascii_def)

lemma seed_preimage_inject:
  "seed_preimage pre i = seed_preimage pre j \<longleftrightarrow>
    bytes32_of (es_epochSecret i) = bytes32_of (es_epochSecret j) \<and>
    bytes32_of (es_blockhash i) = bytes32_of (es_blockhash j) \<and>
    take_bit 64 (es_epochId i) = take_bit 64 (es_epochId j) \<and>
    bytes32_of (es_patchHash i) = bytes32_of (es_patchHash j) \<and>
    bytes32_of (es_parentRoot i) = bytes32_of (es_parentRoot j) \<and>
    bytes32_of (es_corpusRoot i) = bytes32_of (es_corpusRoot j) \<and>
    bytes32_of (es_bundleHash i) = bytes32_of (es_bundleHash j)"
proof -
  have "be_bytes 8 v = be_bytes 8 w \<longleftrightarrow> take_bit 64 v = take_bit 64 w" for v w
    using be_val_be_bytes [of 8 v] be_val_be_bytes [of 8 w] be_bytes_take_bit [of 8 64 v] be_bytes_take_bit [of 8 64 w] by auto
  then show ?thesis by (simp add: seed_preimage_def)
qed

text \<open>
  Fact: an eval seed is derived exactly from well-formed inputs, and it commits to all of them:
  two equal seeds of one domain come from inputs with the same 32-byte values and the same
  epoch modulo 2^64, or Keccak-256 collides on their two preimages.
\<close>

theorem eval_seed_binding:
  assumes "deriveEvalSeedWithPrefix pre i = Inr s" and "deriveEvalSeedWithPrefix pre j = Inr s"
  shows "(bytes32_of (es_epochSecret i) = bytes32_of (es_epochSecret j) \<and>
      bytes32_of (es_blockhash i) = bytes32_of (es_blockhash j) \<and>
      take_bit 64 (es_epochId i) = take_bit 64 (es_epochId j) \<and>
      bytes32_of (es_patchHash i) = bytes32_of (es_patchHash j) \<and>
      bytes32_of (es_parentRoot i) = bytes32_of (es_parentRoot j) \<and>
      bytes32_of (es_corpusRoot i) = bytes32_of (es_corpusRoot j) \<and>
      bytes32_of (es_bundleHash i) = bytes32_of (es_bundleHash j)) \<or>
    (seed_preimage pre i \<noteq> seed_preimage pre j \<and>
     keccak256 (seed_preimage pre i) = keccak256 (seed_preimage pre j))"
proof -
  have "bytesToHex (keccak256 (seed_preimage pre i)) = bytesToHex (keccak256 (seed_preimage pre j))"
    using deriveEvalSeed_eq [OF deriveEvalSeed_Inr [OF assms(1)], of pre]
      deriveEvalSeed_eq [OF deriveEvalSeed_Inr [OF assms(2)], of pre] assms by simp
  then show ?thesis by (auto simp: seed_preimage_inject)
qed

definition sample_hash :: string where
  "sample_hash = ''0x'' @ replicate 64 CHR ''1''"

definition sample_seed_input :: eval_seed_input where
  "sample_seed_input = \<lparr> es_epochSecret = sample_hash, es_blockhash = sample_hash, es_epochId = 7,
     es_patchHash = sample_hash, es_parentRoot = sample_hash, es_corpusRoot = sample_hash, es_bundleHash = sample_hash \<rparr>"

lemma sample_hash_ok: "bytes32_hex sample_hash" "\<not> zero_blockhash_pattern sample_hash"
  by code_simp+

lemma sample_seed_ok: "seed_input_ok sample_seed_input"
  by (simp add: seed_input_ok_def sample_seed_input_def sample_hash_ok)

lemma sample_seed: "deriveEvalSeedWithPrefix pre sample_seed_input =
    Inr (bytesToHex (keccak256 (seed_preimage pre sample_seed_input)))"
  by (rule deriveEvalSeed_eq [OF sample_seed_ok])

theorem eval_seed_binding_witness:
  "deriveEvalSeedWithPrefix ''g'' (sample_seed_input\<lparr>es_epochId := 7 + 2 ^ 64\<rparr>) = deriveEvalSeedWithPrefix ''g'' sample_seed_input \<and>
   take_bit 64 (7 + 2 ^ 64) = take_bit 64 (7 :: int)"
proof -
  let ?j = "sample_seed_input\<lparr>es_epochId := 7 + 2 ^ 64\<rparr>"
  have "seed_input_ok ?j" using sample_seed_ok by (simp add: seed_input_ok_def)
  moreover have pre: "seed_preimage ''g'' ?j = seed_preimage ''g'' sample_seed_input"
    by (simp add: seed_preimage_inject sample_seed_input_def take_bit_eq_mod)
  ultimately have d: "deriveEvalSeedWithPrefix ''g'' ?j = Inr (bytesToHex (keccak256 (seed_preimage ''g'' sample_seed_input)))"
    by (simp add: deriveEvalSeed_eq)
  have "take_bit 64 (es_epochId sample_seed_input) = take_bit 64 (es_epochId ?j)"
    using eval_seed_binding [OF sample_seed d] pre by auto
  then show ?thesis using d sample_seed by (simp add: sample_seed_input_def)
qed

text \<open>
  Fact: gate and confirm seeds are separated by domain.  For acceptable inputs the gate seed and
  the confirm seed are the hashes of two strings that are never equal, whatever the two inputs.
\<close>

theorem gate_confirm_domain_separated:
  assumes "seed_input_ok i" and "seed_input_ok j"
  shows "deriveGateEvalSeed i = Inr (bytesToHex (keccak256 (seed_preimage EVAL_SEED_GATE_DOMAIN_PREFIX i))) \<and>
    deriveConfirmEvalSeed j = Inr (bytesToHex (keccak256 (seed_preimage EVAL_SEED_CONFIRM_DOMAIN_PREFIX j))) \<and>
    seed_preimage EVAL_SEED_GATE_DOMAIN_PREFIX i \<noteq> seed_preimage EVAL_SEED_CONFIRM_DOMAIN_PREFIX j"
proof -
  have "length (seed_preimage EVAL_SEED_GATE_DOMAIN_PREFIX i) \<noteq> length (seed_preimage EVAL_SEED_CONFIRM_DOMAIN_PREFIX j)"
    by (simp add: length_preimage EVAL_SEED_GATE_DOMAIN_PREFIX_def EVAL_SEED_CONFIRM_DOMAIN_PREFIX_def)
  then show ?thesis using deriveEvalSeed_eq [OF assms(1)] deriveEvalSeed_eq [OF assms(2)]
    by (auto simp: deriveGateEvalSeed_def deriveConfirmEvalSeed_def)
qed

theorem gate_confirm_domain_separated_witness:
  "deriveGateEvalSeed sample_seed_input =
     Inr (bytesToHex (keccak256 (seed_preimage EVAL_SEED_GATE_DOMAIN_PREFIX sample_seed_input))) \<and>
   seed_preimage EVAL_SEED_GATE_DOMAIN_PREFIX sample_seed_input \<noteq>
     seed_preimage EVAL_SEED_CONFIRM_DOMAIN_PREFIX sample_seed_input"
  using gate_confirm_domain_separated [OF sample_seed_ok sample_seed_ok] by blast

text \<open>
  A blockhash of 64 zeros is refused with its 0x prefix; the bare form is also 32 bytes of
  zeros, and a seed is derived from it.
\<close>

theorem zero_blockhash_needs_prefix:
  fixes i :: eval_seed_input
  defines "bare \<equiv> sample_seed_input \<lparr> es_blockhash := replicate 64 CHR ''0'' \<rparr>"
    and "prefixed \<equiv> sample_seed_input \<lparr> es_blockhash := ''0x'' @ replicate 64 CHR ''0'' \<rparr>"
  shows "bytes32_of (es_blockhash bare) = replicate 32 0 \<and> bytes32_of (es_blockhash prefixed) = replicate 32 0 \<and>
    deriveEvalSeedWithPrefix pre bare = Inr (bytesToHex (keccak256 (seed_preimage pre bare))) \<and>
    deriveEvalSeedWithPrefix pre prefixed = Inl (Error ''deriveEvalSeed: blockhash is zero'')"
proof -
  have z: "bytes32_hex (replicate 64 CHR ''0'')" "\<not> zero_blockhash_pattern (replicate 64 CHR ''0'')"
    "bytes32_hex (''0x'' @ replicate 64 CHR ''0'')" "zero_blockhash_pattern (''0x'' @ replicate 64 CHR ''0'')"
    "bytes32_of (replicate 64 CHR ''0'') = replicate 32 0" "bytes32_of (''0x'' @ replicate 64 CHR ''0'') = replicate 32 0"
    by code_simp+
  have ok: "seed_input_ok bare"
    by (simp add: bare_def seed_input_ok_def sample_seed_input_def sample_hash_ok z del: append.simps)
  have "deriveEvalSeedWithPrefix pre prefixed = Inl (Error ''deriveEvalSeed: blockhash is zero'')"
    using z(3,4) sample_hash_ok
    by (simp add: deriveEvalSeedWithPrefix_def prefixed_def sample_seed_input_def assertBytes32Hex_def bytes32_hex_def Let_def
        del: append.simps)
  then show ?thesis using deriveEvalSeed_eq [OF ok] z(5,6)
    by (simp add: bare_def prefixed_def del: append.simps)
qed

section \<open>Semantic hashes\<close>

lemma foldl_zero_run:
  "foldl (\<lambda>bs i. bs[i := 0]) (pre @ mid @ post) [length pre..<length pre + length mid] =
    pre @ replicate (length mid) (0 :: byte) @ post"
proof (induction mid arbitrary: pre)
  case (Cons m mid)
  have "foldl (\<lambda>bs i. bs[i := 0]) (pre @ (m # mid) @ post) [length pre..<length pre + length (m # mid)] =
      foldl (\<lambda>bs i. bs[i := 0]) ((pre @ [0]) @ mid @ post) [length (pre @ [0])..<length (pre @ [0]) + length mid]"
    by (simp add: upt_conv_Cons del: upt_Suc)
  also have "\<dots> = (pre @ [0]) @ replicate (length mid) 0 @ post" by (rule Cons.IH)
  finally show ?case by simp
qed simp

lemma patch_ok_score: "patch_ok p \<Longrightarrow> patch_ok (p\<lparr>scoreDelta := 0\<rparr>)"
  by (simp add: patch_ok_def)

lemma be_bytes_of_0: "be_bytes n 0 = replicate n 0"
  by (simp add: be_bytes_def list_eq_iff_nth_eq)

text \<open>What is hashed: the bytes with the score zeroed.\<close>

definition semantic_preimage :: "bytes \<Rightarrow> bytes" where
  "semantic_preimage data = encode_ascii PATCH_HASH_DOMAIN_PREFIX @ foldl (\<lambda>bs i. bs[i := 0]) data [2..<10]"

lemma semanticPatchHash_decoded:
  assumes "decodePatch data = Inr p"
  shows "encodePatch (p\<lparr>scoreDelta := 0\<rparr>) = Inr (foldl (\<lambda>bs i. bs[i := 0]) data [2..<10])"
    and "semanticPatchHash data = Inr (bytesToHex (keccak256 (semantic_preimage data)))"
proof -
  let ?body = "patch_body (zip (indices p) (newWords p))"
  have ok: "patch_ok p" and data: "data = patch_head p @ ?body" using decode_patch_facts [OF assms] by auto
  have "data = [word_of_int (patchType p), word_of_int (wordCount p)] @ be_bytes 8 (scoreDelta p) @ (parentStateRoot p @ ?body)"
    by (simp add: data patch_head_def)
  then have "foldl (\<lambda>bs i. bs[i := 0]) data [2..<10] = patch_head (p\<lparr>scoreDelta := 0\<rparr>) @ ?body"
    using foldl_zero_run [of "[word_of_int (patchType p), word_of_int (wordCount p)]" "be_bytes 8 (scoreDelta p)" "parentStateRoot p @ ?body"]
    by (simp add: patch_head_def be_bytes_of_0 numeral_2_eq_2)
  then show "encodePatch (p\<lparr>scoreDelta := 0\<rparr>) = Inr (foldl (\<lambda>bs i. bs[i := 0]) data [2..<10])"
    using encodePatch_ok [OF patch_ok_score [OF ok]] by simp
  have "42 \<le> length data" using ok head_length [of p] by (simp add: data patch_ok_def)
  then show "semanticPatchHash data = Inr (bytesToHex (keccak256 (semantic_preimage data)))"
    by (simp add: semanticPatchHash_def SCORE_DELTA_WIRE_OFFSET_def SCORE_DELTA_WIRE_BYTES_def computePatchHash_def semantic_preimage_def)
qed

text \<open>
  Fact: the semantic hash names a patch up to its claimed score.  The semantic hash of wire bytes
  is the Keccak-256 hash of a string, and two patches have the same string exactly if they
  agree in everything but \<open>scoreDelta\<close>.
\<close>

theorem semantic_hash_ignores_score:
  assumes "decodePatch a = Inr p" and "decodePatch b = Inr q"
  shows "semanticPatchHash a = Inr (bytesToHex (keccak256 (semantic_preimage a))) \<and>
    semanticPatchHash b = Inr (bytesToHex (keccak256 (semantic_preimage b))) \<and>
    (semantic_preimage a = semantic_preimage b) = (p\<lparr>scoreDelta := 0\<rparr> = q\<lparr>scoreDelta := 0\<rparr>)"
proof -
  note x = semanticPatchHash_decoded [OF assms(1)] and y = semanticPatchHash_decoded [OF assms(2)]
  have "semantic_preimage a = semantic_preimage b \<longleftrightarrow> p\<lparr>scoreDelta := 0\<rparr> = q\<lparr>scoreDelta := 0\<rparr>"
    using patch_codec.enc_inj [of "p\<lparr>scoreDelta := 0\<rparr>" "q\<lparr>scoreDelta := 0\<rparr>"] x(1) y(1)
      patch_ok_score decode_patch_facts(1) [OF assms(1)] decode_patch_facts(1) [OF assms(2)]
    by (auto simp: semantic_preimage_def)
  then show ?thesis using x(2) y(2) by auto
qed

definition sample_wire_patch :: patch where
  "sample_wire_patch = \<lparr> patchType = 2, wordCount = 2, scoreDelta = 1000, parentStateRoot = replicate 32 0,
     indices = [40, 200], newWords = [5, 2 ^ 255] \<rparr>"

lemma sample_wire_patch_ok: "patch_ok sample_wire_patch" "patch_ok (sample_wire_patch\<lparr>scoreDelta := 7\<rparr>)"
  by (simp_all add: sample_wire_patch_def patch_ok_def validatePatchType_None type_allows_def uint256_def)

theorem semantic_hash_ignores_score_witness:
  "\<exists>a b. decodePatch a = Inr sample_wire_patch \<and> decodePatch b = Inr (sample_wire_patch\<lparr>scoreDelta := 7\<rparr>) \<and>
    semanticPatchHash a = semanticPatchHash b"
proof -
  obtain a b where ab: "decodePatch a = Inr sample_wire_patch" "decodePatch b = Inr (sample_wire_patch\<lparr>scoreDelta := 7\<rparr>)"
    using patch_codec.round_trip [OF sample_wire_patch_ok(1)] patch_codec.round_trip [OF sample_wire_patch_ok(2)] by auto
  have "semanticPatchHash a = semanticPatchHash b" using semantic_hash_ignores_score [OF ab] by simp
  with ab show ?thesis by blast
qed

end
