(* ===== verification/Reducer.thy ===== *)
theory Reducer
  imports Patch_Apply Seed_Derivation "HOL-Library.List_Lexorder" "HOL-Library.Char_ord"
    "HOL-Library.Product_Lexorder" "HOL-Library.Multiset" "HOL-Library.Sublist"
begin

text \<open>
  \<open>src/reducer/accept-core.ts\<close> and \<open>src/reducer/reducer.ts\<close>: the accept step both lanes share
  and the greedy end-of-epoch reducer.  The marginal evaluator is an argument of the model:
  the code takes it as one.
\<close>

section \<open>The accept step\<close>

type_synonym marginal_evaluator = "cortex_state \<Rightarrow> patch \<Rightarrow> int"

record 'c accept_step_codes =
  ac_notImprovement :: 'c
  ac_wrongParent :: 'c
  ac_reservedBit :: 'c
  ac_invalidTarget :: 'c

definition evaluateAndApplyOntoCurrent ::
  "cortex_state \<Rightarrow> patch \<Rightarrow> marginal_evaluator \<Rightarrow> int \<Rightarrow> bool \<Rightarrow> bool \<Rightarrow> 'c accept_step_codes \<Rightarrow>
   'c + (cortex_state \<times> int)" where
  "evaluateAndApplyOntoCurrent current p marginalEvaluator threshold strictImprovement policyMode codes =
     (let marginalGain = marginalEvaluator current p;
          improves = (if strictImprovement then marginalGain > threshold else marginalGain \<ge> threshold)
      in if \<not> improves then Inl (ac_notImprovement codes)
         else case applyPatchOntoCurrent current p policyMode of
           Inl code \<Rightarrow> Inl (if code = E01 then ac_wrongParent codes
             else if code = E04 then ac_reservedBit codes
             else if code = E05 then ac_notImprovement codes
             else ac_invalidTarget codes)
         | Inr state \<Rightarrow> Inr (state, marginalGain))"

section \<open>The reducer's data\<close>

datatype rejection_code =
  R01_TARGET_OVERLAP | R02_SEMANTIC_CONFLICT | R03_WRONG_PARENT_ROOT | R04_INVALID_TARGET | R05_RESERVED_BIT_SET

record reducer_input_patch =
  ri_patch :: patch
  ri_patchBytes :: bytes
  ri_scoreDelta :: int
  ri_marginalEvaluator :: marginal_evaluator

definition stubMarginalEvaluator :: marginal_evaluator where
  "stubMarginalEvaluator currentState p = scoreDelta p"

record accepted_patch =
  ap_patch :: patch
  ap_patchBytes :: bytes
  ap_marginalGain :: int
  ap_acceptanceIndex :: nat

record rejected_patch =
  rj_patch :: patch
  rj_patchBytes :: bytes
  rj_reason :: rejection_code

record reducer_output =
  ro_newState :: cortex_state
  ro_patchSetRoot :: bytes
  ro_patchSetRootHex :: string
  ro_newStateRoot :: bytes
  ro_newStateRootHex :: string
  ro_accepted :: "accepted_patch list"
  ro_rejected :: "rejected_patch list"

section \<open>Priority\<close>

text \<open>Strings compare by code unit, as the lexicographic order on character lists does.\<close>

definition comparePatchPriority :: "reducer_input_patch \<Rightarrow> reducer_input_patch \<Rightarrow> int" where
  "comparePatchPriority a b =
     (if ri_scoreDelta b \<noteq> ri_scoreDelta a then (if ri_scoreDelta b > ri_scoreDelta a then 1 else -1)
      else if wordCount (ri_patch a) \<noteq> wordCount (ri_patch b) then wordCount (ri_patch a) - wordCount (ri_patch b)
      else let aHash = computePatchHash (ri_patchBytes a); bHash = computePatchHash (ri_patchBytes b)
           in if aHash < bHash then -1 else if aHash > bHash then 1 else 0)"

definition stableSort :: "('a \<Rightarrow> 'a \<Rightarrow> int) \<Rightarrow> 'a list \<Rightarrow> 'a list" where
  "stableSort cmp arr = js_sort cmp arr"

definition computePatchSetRoot :: "bytes list \<Rightarrow> bytes" where
  "computePatchSetRoot acceptedBytes =
     (if length acceptedBytes = 0 then keccak256 []
      else keccak256 (concat (map keccak256 acceptedBytes)))"

section \<open>Reducing an epoch\<close>

record reducer_loop =
  rl_current :: cortex_state
  rl_accepted :: "accepted_patch list"
  rl_targets :: "int list"
  rl_rejected :: "rejected_patch list"

definition reject_item :: "reducer_input_patch \<Rightarrow> rejection_code \<Rightarrow> rejected_patch" where
  "reject_item item reason = \<lparr> rj_patch = ri_patch item, rj_patchBytes = ri_patchBytes item, rj_reason = reason \<rparr>"

definition prePass :: "bytes \<Rightarrow> reducer_input_patch list \<Rightarrow> reducer_input_patch list \<times> rejected_patch list" where
  "prePass epochParentRoot patches = foldl (\<lambda>(eligible, rejectedSet) item.
     if \<not> patchMatchesEpochParent (ri_patch item) epochParentRoot
     then (eligible, rejectedSet @ [reject_item item R03_WRONG_PARENT_ROOT])
     else (eligible @ [item], rejectedSet)) ([], []) patches"

definition batch_codes :: "rejection_code accept_step_codes" where
  "batch_codes = \<lparr> ac_notImprovement = R02_SEMANTIC_CONFLICT, ac_wrongParent = R03_WRONG_PARENT_ROOT,
     ac_reservedBit = R05_RESERVED_BIT_SET, ac_invalidTarget = R04_INVALID_TARGET \<rparr>"

definition reduce_step :: "int \<Rightarrow> bool \<Rightarrow> reducer_loop \<Rightarrow> reducer_input_patch \<Rightarrow> reducer_loop" where
  "reduce_step threshold policyMode st item =
     (if list_ex (\<lambda>i. i \<in> set (rl_targets st)) (indices (ri_patch item))
      then st\<lparr>rl_rejected := rl_rejected st @ [reject_item item R01_TARGET_OVERLAP]\<rparr>
      else case evaluateAndApplyOntoCurrent (rl_current st) (ri_patch item) (ri_marginalEvaluator item)
             threshold False policyMode batch_codes of
        Inl reason \<Rightarrow> st\<lparr>rl_rejected := rl_rejected st @ [reject_item item reason]\<rparr>
      | Inr (state, marginalGain) \<Rightarrow>
          st\<lparr>rl_current := state,
             rl_accepted := rl_accepted st @ [\<lparr> ap_patch = ri_patch item, ap_patchBytes = ri_patchBytes item,
               ap_marginalGain = marginalGain, ap_acceptanceIndex = length (rl_accepted st) \<rparr>],
             rl_targets := foldl set_add (rl_targets st) (indices (ri_patch item))\<rparr>)"

definition reduce :: "cortex_state \<Rightarrow> reducer_input_patch list \<Rightarrow> int \<Rightarrow> bool \<Rightarrow> js_error + reducer_output" where
  "reduce parentState patches threshold policyMode =
     bind_res (merkleizeState parentState) (\<lambda>epochParentRoot.
     let (eligible, rejectedSet) = prePass epochParentRoot patches;
         ordered = stableSort comparePatchPriority eligible;
         st = foldl (reduce_step threshold policyMode)
           \<lparr> rl_current = parentState, rl_accepted = [], rl_targets = [], rl_rejected = rejectedSet \<rparr> ordered;
         patchSetRoot = computePatchSetRoot (map ap_patchBytes (rl_accepted st))
     in bind_res (merkleizeState (rl_current st)) (\<lambda>newStateRoot.
     Inr \<lparr> ro_newState = rl_current st, ro_patchSetRoot = patchSetRoot, ro_patchSetRootHex = bytesToHex patchSetRoot,
       ro_newStateRoot = newStateRoot, ro_newStateRootHex = bytesToHex newStateRoot,
       ro_accepted = rl_accepted st, ro_rejected = rl_rejected st \<rparr>))"

definition makeReducerInput :: "patch \<Rightarrow> bytes option \<Rightarrow> js_error + reducer_input_patch" where
  "makeReducerInput p patchBytes =
     bind_res (case patchBytes of Some bs \<Rightarrow> Inr bs | None \<Rightarrow> encodePatch p) (\<lambda>bs.
     Inr \<lparr> ri_patch = p, ri_patchBytes = bs, ri_scoreDelta = scoreDelta p, ri_marginalEvaluator = stubMarginalEvaluator \<rparr>)"

section \<open>The accept step's outcome\<close>

lemma accept_Inr:
  "evaluateAndApplyOntoCurrent s p ev th strict m codes = Inr (t, g) \<longleftrightarrow>
    applyPatchOntoCurrent s p m = Inr t \<and> g = ev s p \<and> (if strict then th < g else th \<le> g)"
  by (auto simp: evaluateAndApplyOntoCurrent_def Let_def split: sum.splits)

lemma onto_never_E01: "applyPatchOntoCurrent s p m \<noteq> Inl E01"
proof
  assume a: "applyPatchOntoCurrent s p m = Inl E01"
  have "write_words s p \<noteq> Inl E01"
    unfolding write_words_def
    by (rule fold_res_never) (auto split: option.split)
  with a show False
    by (auto simp: applyPatchOntoCurrent_def check_result_def bind_res_def Let_def validatePolicyRegions_def
      split: if_splits option.splits sum.splits)
qed

section \<open>Priority is a linear preorder\<close>

definition priority_key :: "reducer_input_patch \<Rightarrow> int \<times> int \<times> string" where
  "priority_key a = (- ri_scoreDelta a, wordCount (ri_patch a), computePatchHash (ri_patchBytes a))"

lemma comparePatchPriority_key: "comparePatchPriority x y \<le> 0 \<longleftrightarrow> priority_key x \<le> priority_key y"
  by (auto simp: comparePatchPriority_def priority_key_def Let_def)

lemma stableSort_key: "stableSort comparePatchPriority xs = sort_key priority_key xs"
  unfolding stableSort_def by (rule js_sort_key) (rule comparePatchPriority_key)

section \<open>The loop\<close>

text \<open>A round either rejects its item, or applies it and records it.\<close>

lemma reduce_step_cases:
  obtains (rejected) r where "reduce_step th m st item = st\<lparr>rl_rejected := rl_rejected st @ [reject_item item r]\<rparr>"
      and "r = R01_TARGET_OVERLAP \<longleftrightarrow> (\<exists>i \<in> set (indices (ri_patch item)). i \<in> set (rl_targets st))"
      and "r \<noteq> R03_WRONG_PARENT_ROOT"
  | (accepted) s g where "applyPatchOntoCurrent (rl_current st) (ri_patch item) m = Inr s"
      and "set (indices (ri_patch item)) \<inter> set (rl_targets st) = {}"
      and "g = ri_marginalEvaluator item (rl_current st) (ri_patch item)" and "th \<le> g"
      and "reduce_step th m st item = st\<lparr>rl_current := s,
        rl_accepted := rl_accepted st @ [\<lparr> ap_patch = ri_patch item, ap_patchBytes = ri_patchBytes item,
          ap_marginalGain = g, ap_acceptanceIndex = length (rl_accepted st) \<rparr>],
        rl_targets := foldl set_add (rl_targets st) (indices (ri_patch item))\<rparr>"
proof (cases "list_ex (\<lambda>i. i \<in> set (rl_targets st)) (indices (ri_patch item))")
  case True
  then show thesis using rejected [of R01_TARGET_OVERLAP] by (auto simp: reduce_step_def list_ex_iff)
next
  case no: False
  let ?e = "evaluateAndApplyOntoCurrent (rl_current st) (ri_patch item) (ri_marginalEvaluator item) th False m batch_codes"
  show thesis
  proof (cases ?e)
    case (Inl r)
    then have "r \<in> {R02_SEMANTIC_CONFLICT, R05_RESERVED_BIT_SET, R04_INVALID_TARGET}"
      using onto_never_E01 by (auto simp: evaluateAndApplyOntoCurrent_def batch_codes_def Let_def split: if_splits sum.splits)
    then show thesis using rejected [of r] no Inl by (auto simp: reduce_step_def list_ex_iff)
  next
    case (Inr x)
    obtain s g where x: "x = (s, g)" by force
    note a = Inr [unfolded x accept_Inr]
    show thesis
      by (rule accepted [of s g]) (use no a Inr x in \<open>auto simp: reduce_step_def list_ex_iff\<close>)
  qed
qed

definition loop_start :: "cortex_state \<Rightarrow> rejected_patch list \<Rightarrow> reducer_loop" where
  "loop_start s rej = \<lparr> rl_current = s, rl_accepted = [], rl_targets = [], rl_rejected = rej \<rparr>"

definition run_loop :: "int \<Rightarrow> bool \<Rightarrow> cortex_state \<Rightarrow> rejected_patch list \<Rightarrow> reducer_input_patch list \<Rightarrow> reducer_loop" where
  "run_loop th m s rej xs = foldl (reduce_step th m) (loop_start s rej) xs"

lemma run_loop_Nil [simp]: "run_loop th m s rej [] = loop_start s rej"
  by (simp add: run_loop_def)

lemma run_loop_snoc [simp]: "run_loop th m s rej (xs @ [x]) = reduce_step th m (run_loop th m s rej xs) x"
  by (simp add: run_loop_def)

lemmas loop_start_simps [simp] = loop_start_def

definition in_wire :: "reducer_input_patch \<Rightarrow> patch \<times> bytes" where
  "in_wire item = (ri_patch item, ri_patchBytes item)"

definition acc_wire :: "accepted_patch \<Rightarrow> patch \<times> bytes" where
  "acc_wire a = (ap_patch a, ap_patchBytes a)"

definition rej_wire :: "rejected_patch \<Rightarrow> patch \<times> bytes" where
  "rej_wire r = (rj_patch r, rj_patchBytes r)"

lemmas wires = in_wire_def acc_wire_def rej_wire_def reject_item_def

lemma acc_wire_make: "acc_wire \<lparr> ap_patch = p, ap_patchBytes = b, ap_marginalGain = g, ap_acceptanceIndex = k \<rparr> = (p, b)"
  by (simp add: acc_wire_def)

lemma rej_wire_reject: "rej_wire (reject_item i r) = in_wire i"
  by (simp add: wires)

lemma run_loop_partition:
  "mset (map acc_wire (rl_accepted (run_loop th m s rej xs))) + mset (map rej_wire (rl_rejected (run_loop th m s rej xs))) =
    mset (map rej_wire rej) + mset (map in_wire xs)"
proof (induction xs rule: rev_induct)
  case (snoc x xs)
  then show ?case
    by (cases rule: reduce_step_cases [of th m "run_loop th m s rej xs" x]) (simp_all add: wires)
qed simp

lemma run_loop_applied:
  "fold_res (\<lambda>s p. applyPatchOntoCurrent s p m) s (map ap_patch (rl_accepted (run_loop th m s rej xs))) =
    Inr (rl_current (run_loop th m s rej xs))"
proof (induction xs rule: rev_induct)
  case (snoc x xs)
  then show ?case
    by (cases rule: reduce_step_cases [of th m "run_loop th m s rej xs" x]) (simp_all add: fold_res_append)
qed simp

lemma run_loop_targets:
  "set (rl_targets (run_loop th m s rej xs)) = (\<Union>a \<in> set (rl_accepted (run_loop th m s rej xs)). set (indices (ap_patch a)))"
proof (induction xs rule: rev_induct)
  case (snoc x xs)
  then show ?case
    by (cases rule: reduce_step_cases [of th m "run_loop th m s rej xs" x]) (auto simp add: fold_res_append)
qed simp

definition targets_disjoint :: "patch \<Rightarrow> patch \<Rightarrow> bool" where
  "targets_disjoint p q \<longleftrightarrow> set (indices p) \<inter> set (indices q) = {}"

lemma run_loop_disjoint:
  "sorted_wrt targets_disjoint (map ap_patch (rl_accepted (run_loop th m s rej xs)))"
proof (induction xs rule: rev_induct)
  case (snoc x xs)
  then show ?case
    by (cases rule: reduce_step_cases [of th m "run_loop th m s rej xs" x])
      (auto simp add: sorted_wrt_append run_loop_targets targets_disjoint_def)
qed simp

lemma run_loop_gains:
  "list_all (\<lambda>a. th \<le> ap_marginalGain a) (rl_accepted (run_loop th m s rej xs)) \<and>
   map ap_acceptanceIndex (rl_accepted (run_loop th m s rej xs)) = [0..<length (rl_accepted (run_loop th m s rej xs))]"
proof (induction xs rule: rev_induct)
  case (snoc x xs)
  then show ?case
    by (cases rule: reduce_step_cases [of th m "run_loop th m s rej xs" x]) auto
qed simp

lemma run_loop_priority:
  "\<exists>items. subseq items xs \<and> map in_wire items = map acc_wire (rl_accepted (run_loop th m s rej xs))"
proof (induction xs rule: rev_induct)
  case (snoc x xs)
  then obtain items where i: "subseq items xs" "map in_wire items = map acc_wire (rl_accepted (run_loop th m s rej xs))" by auto
  show ?case
  proof (cases rule: reduce_step_cases [of th m "run_loop th m s rej xs" x])
    case (rejected r)
    then show ?thesis using i by (intro exI [of _ items]) (simp add: subseq_rev_drop_many)
  next
    case (accepted s' g)
    then show ?thesis using i by (intro exI [of _ "items @ [x]"]) (simp add: in_wire_def [of x] acc_wire_make)
  qed
qed simp

lemma run_loop_reasons:
  "\<exists>rs. rl_rejected (run_loop th m s rej xs) = rej @ rs \<and>
     list_all (\<lambda>r. rj_reason r \<noteq> R03_WRONG_PARENT_ROOT \<and> rj_patch r \<in> ri_patch ` set xs \<and>
       (if rj_reason r = R01_TARGET_OVERLAP
        then list_ex (\<lambda>a. \<not> targets_disjoint (rj_patch r) (ap_patch a)) (rl_accepted (run_loop th m s rej xs))
        else True)) rs"
proof (induction xs rule: rev_induct)
  case (snoc x xs)
  then obtain rs where rs: "rl_rejected (run_loop th m s rej xs) = rej @ rs"
    "list_all (\<lambda>r. rj_reason r \<noteq> R03_WRONG_PARENT_ROOT \<and> rj_patch r \<in> ri_patch ` set xs \<and>
       (if rj_reason r = R01_TARGET_OVERLAP
        then list_ex (\<lambda>a. \<not> targets_disjoint (rj_patch r) (ap_patch a)) (rl_accepted (run_loop th m s rej xs))
        else True)) rs" by auto
  show ?case
  proof (cases rule: reduce_step_cases [of th m "run_loop th m s rej xs" x])
    case (rejected r)
    then show ?thesis using rs
      by (intro exI [of _ "rs @ [reject_item x r]"])
        (auto simp: list_all_iff list_ex_iff reject_item_def targets_disjoint_def run_loop_targets)
  next
    case (accepted s' g)
    then show ?thesis using rs by (intro exI [of _ rs]) (auto simp: list_all_iff)
  qed
qed simp

section \<open>The whole reduction\<close>

lemma prePass_filter:
  "prePass root ps = (filter (\<lambda>i. parentStateRoot (ri_patch i) = root) ps,
     map (\<lambda>i. reject_item i R03_WRONG_PARENT_ROOT) (filter (\<lambda>i. parentStateRoot (ri_patch i) \<noteq> root) ps))"
  by (induction ps rule: rev_induct) (simp_all add: prePass_def patchMatchesEpochParent_def split: prod.splits)

text \<open>The state of the loop after a reduction.\<close>

definition reduce_loop :: "cortex_state \<Rightarrow> bytes \<Rightarrow> reducer_input_patch list \<Rightarrow> int \<Rightarrow> bool \<Rightarrow> reducer_loop" where
  "reduce_loop s root ps th m = run_loop th m s
     (map (\<lambda>i. reject_item i R03_WRONG_PARENT_ROOT) (filter (\<lambda>i. parentStateRoot (ri_patch i) \<noteq> root) ps))
     (sort_key priority_key (filter (\<lambda>i. parentStateRoot (ri_patch i) = root) ps))"

lemma reduce_eq:
  "reduce s ps th m = bind_res (merkleizeState s) (\<lambda>root. bind_res (merkleizeState (rl_current (reduce_loop s root ps th m))) (\<lambda>newRoot.
     let st = reduce_loop s root ps th m; setRoot = computePatchSetRoot (map ap_patchBytes (rl_accepted st)) in
     Inr \<lparr> ro_newState = rl_current st, ro_patchSetRoot = setRoot, ro_patchSetRootHex = bytesToHex setRoot,
       ro_newStateRoot = newRoot, ro_newStateRootHex = bytesToHex newRoot,
       ro_accepted = rl_accepted st, ro_rejected = rl_rejected st \<rparr>))"
  by (simp add: reduce_def reduce_loop_def run_loop_def loop_start_def prePass_filter stableSort_key Let_def)

lemma reduce_Inr:
  assumes "reduce s ps th m = Inr out"
  obtains root where "merkleizeState s = Inr root"
    and "ro_newState out = rl_current (reduce_loop s root ps th m)"
    and "ro_accepted out = rl_accepted (reduce_loop s root ps th m)"
    and "ro_rejected out = rl_rejected (reduce_loop s root ps th m)"
    and "merkleizeState (ro_newState out) = Inr (ro_newStateRoot out)"
    and "ro_patchSetRoot out = computePatchSetRoot (map ap_patchBytes (ro_accepted out))"
  using assms by (auto simp: reduce_eq bind_res_eq_Inr Let_def)

lemma reduce_loop_accepted:
  assumes "a \<in> set (rl_accepted (reduce_loop s root ps th m))"
  shows "\<exists>i \<in> set ps. ri_patch i = ap_patch a \<and> ri_patchBytes i = ap_patchBytes a \<and> parentStateRoot (ap_patch a) = root"
proof -
  let ?xs = "sort_key priority_key (filter (\<lambda>i. parentStateRoot (ri_patch i) = root) ps)"
  obtain items where sub: "subseq items ?xs" and
    eq: "map in_wire items = map acc_wire (rl_accepted (reduce_loop s root ps th m))"
    using run_loop_priority [of ?xs] unfolding reduce_loop_def by blast
  have "acc_wire a \<in> set (map in_wire items)" unfolding eq using assms by simp
  then obtain i where i: "i \<in> set items" "in_wire i = acc_wire a" by auto
  then have "i \<in> set ?xs" using sub by (auto elim: list_emb_set)
  with i(2) show ?thesis by (auto simp: wires)
qed

lemma reduce_accepted_facts:
  assumes "reduce s ps th m = Inr out" and "a \<in> set (ro_accepted out)"
  shows "ap_patch a \<in> ri_patch ` set ps" and "merkleizeState s = Inr (parentStateRoot (ap_patch a))"
proof -
  obtain root where root: "merkleizeState s = Inr root" "ro_accepted out = rl_accepted (reduce_loop s root ps th m)"
    using reduce_Inr [OF assms(1)] by metis
  then obtain i where "i \<in> set ps" "ri_patch i = ap_patch a" "parentStateRoot (ap_patch a) = root"
    using reduce_loop_accepted assms(2) by metis
  then show "ap_patch a \<in> ri_patch ` set ps" "merkleizeState s = Inr (parentStateRoot (ap_patch a))"
    using root(1) by (auto intro: image_eqI [of _ _ i])
qed

text \<open>
  Fact: the reducer accounts for every patch exactly once.  Its accepted and rejected lists
  together are the input patches, with their multiplicity.  A patch is rejected for its parent
  root exactly if it names another root than that of the epoch's parent state, and as a target
  overlap only if it shares a target with an accepted patch.
\<close>

theorem reduce_accounts_for_all:
  assumes "reduce s ps th m = Inr out"
  shows "mset (map acc_wire (ro_accepted out)) + mset (map rej_wire (ro_rejected out)) = mset (map in_wire ps) \<and>
    list_all (\<lambda>r. (rj_reason r = R03_WRONG_PARENT_ROOT) = (merkleizeState s \<noteq> Inr (parentStateRoot (rj_patch r))) \<and>
      (if rj_reason r = R01_TARGET_OVERLAP
       then list_ex (\<lambda>a. \<not> targets_disjoint (rj_patch r) (ap_patch a)) (ro_accepted out) else True)) (ro_rejected out) \<and>
    list_all (\<lambda>a. merkleizeState s = Inr (parentStateRoot (ap_patch a))) (ro_accepted out)"
proof -
  obtain root where root: "merkleizeState s = Inr root"
    and out: "ro_accepted out = rl_accepted (reduce_loop s root ps th m)" "ro_rejected out = rl_rejected (reduce_loop s root ps th m)"
    using reduce_Inr [OF assms] by metis
  let ?good = "filter (\<lambda>i. parentStateRoot (ri_patch i) = root) ps"
    and ?bad = "filter (\<lambda>i. parentStateRoot (ri_patch i) \<noteq> root) ps"
  have "mset (map rej_wire (map (\<lambda>i. reject_item i R03_WRONG_PARENT_ROOT) ?bad)) + mset (map in_wire (sort_key priority_key ?good)) =
      image_mset in_wire (mset ?bad + mset ?good)"
    by (simp only: map_map comp_def rej_wire_reject mset_map mset_sort image_mset_union)
  also have "mset ?bad + mset ?good = mset ps" 
    using multiset_partition [of "mset ps" "\<lambda>i. parentStateRoot (ri_patch i) = root"] by (simp add: add.commute)
  finally have 1: "mset (map acc_wire (ro_accepted out)) + mset (map rej_wire (ro_rejected out)) = mset (map in_wire ps)"
    unfolding out reduce_loop_def run_loop_partition by simp
  obtain rs where "rl_rejected (reduce_loop s root ps th m) = map (\<lambda>i. reject_item i R03_WRONG_PARENT_ROOT) ?bad @ rs"
    "list_all (\<lambda>r. rj_reason r \<noteq> R03_WRONG_PARENT_ROOT \<and> rj_patch r \<in> ri_patch ` set (sort_key priority_key ?good) \<and>
       (if rj_reason r = R01_TARGET_OVERLAP
        then list_ex (\<lambda>a. \<not> targets_disjoint (rj_patch r) (ap_patch a)) (rl_accepted (reduce_loop s root ps th m)) else True)) rs"
    unfolding reduce_loop_def using run_loop_reasons by blast
  then have 2: "list_all (\<lambda>r. (rj_reason r = R03_WRONG_PARENT_ROOT) = (merkleizeState s \<noteq> Inr (parentStateRoot (rj_patch r))) \<and>
      (if rj_reason r = R01_TARGET_OVERLAP
       then list_ex (\<lambda>a. \<not> targets_disjoint (rj_patch r) (ap_patch a)) (ro_accepted out) else True)) (ro_rejected out)"
    unfolding out by (auto simp: list_all_iff root reject_item_def)
  have 3: "list_all (\<lambda>a. merkleizeState s = Inr (parentStateRoot (ap_patch a))) (ro_accepted out)"
    using reduce_accepted_facts(2) [OF assms] by (simp add: list_all_iff)
  from 1 2 3 show ?thesis by blast
qed

text \<open>
  Fact: the patch-set root commits to the ordered list of accepted wire bytes: equal roots come
  from equal lists, or two of the listed patches collide under Keccak-256, or the two strings
  of leaf hashes do.
\<close>

theorem patch_set_root_binding:
  assumes "computePatchSetRoot xs = computePatchSetRoot ys"
  shows "xs = ys \<or> list_ex (\<lambda>x. list_ex (\<lambda>y. x \<noteq> y \<and> keccak256 x = keccak256 y) ys) xs \<or>
    (concat (map keccak256 xs) \<noteq> concat (map keccak256 ys) \<and>
     keccak256 (concat (map keccak256 xs)) = keccak256 (concat (map keccak256 ys)))"
proof -
  let ?c = "\<lambda>zs. concat (map keccak256 zs)"
  have root: "computePatchSetRoot zs = keccak256 (?c zs)" for zs
    by (simp add: computePatchSetRoot_def)
  have len: "length (?c zs) = 32 * length zs" for zs by (induction zs) simp_all
  show ?thesis
  proof (cases "?c xs = ?c ys")
    case True
    then have l: "length xs = length ys" using len [of xs] len [of ys] by simp
    then have "map keccak256 xs = map keccak256 ys"
      using True by (intro concat_injective) (auto dest!: set_zip_leftD set_zip_rightD simp: zip_map1 zip_map2)
    then have hash: "keccak256 (xs ! k) = keccak256 (ys ! k)" if "k < length xs" for k
      using that l by (metis nth_map)
    show ?thesis
    proof (cases "xs = ys")
      case False
      then obtain k where k: "k < length xs" "xs ! k \<noteq> ys ! k" using l nth_equalityI by blast
      moreover have "xs ! k \<in> set xs" "ys ! k \<in> set ys" using k l by simp_all
      ultimately have "list_ex (\<lambda>x. list_ex (\<lambda>y. x \<noteq> y \<and> keccak256 x = keccak256 y) ys) xs"
        using hash [OF k(1)] unfolding list_ex_iff by blast
      then show ?thesis by blast
    qed simp
  next
    case False
    with assms show ?thesis by (simp add: root)
  qed
qed

theorem patch_set_root_binding_witness:
  "[[1, 2], [3 :: byte]] = [[1, 2], [3]] \<or> list_ex (\<lambda>x. list_ex (\<lambda>y. x \<noteq> y \<and> keccak256 x = keccak256 y) [[1, 2], [3]]) [[1, 2], [3]] \<or>
    (concat (map keccak256 [[1, 2], [3]]) \<noteq> concat (map keccak256 [[1, 2], [3]]) \<and>
     keccak256 (concat (map keccak256 [[1, 2], [3]])) = keccak256 (concat (map keccak256 [[1, 2], [3]])))"
  by (rule patch_set_root_binding) (rule refl)

section \<open>The state of a reduction\<close>

definition inputs_ok :: "reducer_input_patch list \<Rightarrow> bool" where
  "inputs_ok ps \<longleftrightarrow> list_all (\<lambda>i. patch_ok (ri_patch i)) ps"

text \<open>The word the accepted patches leave at j: that of the one which targets it.\<close>

definition final_word :: "cortex_state \<Rightarrow> patch list \<Rightarrow> nat \<Rightarrow> int" where
  "final_word s ps j = (case List.find (\<lambda>p. write_target p j \<noteq> None) ps of
     None \<Rightarrow> words s ! j | Some p \<Rightarrow> the (write_target p j))"

lemma merkleize_total: "wf_state s \<Longrightarrow> \<exists>root. merkleizeState s = Inr root"
  by (simp add: merkleizeState_tree wf_state_length)

lemma disjoint_sequence_word:
  assumes "fold_res (\<lambda>s p. applyPatchOntoCurrent s p m) s ps = Inr t" and "wf_state s"
    and "list_all patch_ok ps" and "sorted_wrt targets_disjoint ps" and "j < 1024"
  shows "words t ! j = final_word s ps j"
proof -
  have ok: "list_all words_ok ps" using assms(3) by (auto simp: list_all_iff patch_ok_words)
  have wf: "wf_state t" by (rule epoch.sequence_inv [OF assms(1,2) ok])
  have rd: "read_word s j = words s ! j" "read_word t j = words t ! j"
    using assms(2,5) wf by (simp_all add: read_word_def wf_state_length)
  show ?thesis
  proof (cases "List.find (\<lambda>p. write_target p j \<noteq> None) ps")
    case None
    then have "list_all (\<lambda>p. write_target p j = None) ps" by (simp add: find_None_iff list_all_iff)
    then show ?thesis using epoch.sequence_frame [OF assms(1,2) ok] None rd by (simp add: final_word_def)
  next
    case (Some p)
    then obtain v where v: "write_target p j = Some v" and "p \<in> set ps" by (auto simp: find_Some_iff)
    then obtain as bs where ps: "ps = as @ p # bs" by (auto simp: in_set_conv_decomp)
    have "list_all (\<lambda>q. write_target q j = None) bs"
      unfolding list_all_iff
    proof
      fix q assume "q \<in> set bs"
      then have "targets_disjoint p q" using assms(4) by (simp add: ps sorted_wrt_append)
      then show "write_target q j = None"
        using write_target_in [OF v] write_target_in [of q j] by (cases "write_target q j") (auto simp: targets_disjoint_def)
    qed
    then have "read_word t j = v"
      using epoch.sequence_write [of m s as p bs t, OF _ assms(2) _ v] assms(1) ok by (simp add: ps)
    then show ?thesis using rd v Some by (simp add: final_word_def)
  qed
qed

lemma reduce_loop_sequence:
  fixes s root ps th m
  defines "st \<equiv> reduce_loop s root ps th m"
  assumes "wf_state s" and "inputs_ok ps"
  shows "fold_res (\<lambda>s p. applyPatchOntoCurrent s p m) s (map ap_patch (rl_accepted st)) = Inr (rl_current st)"
    and "list_all patch_ok (map ap_patch (rl_accepted st))" and "wf_state (rl_current st)"
proof -
  show run: "fold_res (\<lambda>s p. applyPatchOntoCurrent s p m) s (map ap_patch (rl_accepted st)) = Inr (rl_current st)"
    unfolding st_def reduce_loop_def by (rule run_loop_applied)
  show pok: "list_all patch_ok (map ap_patch (rl_accepted st))"
    using reduce_loop_accepted [of _ s root ps th m] assms(3) by (fastforce simp: st_def list_all_iff inputs_ok_def)
  then have wok: "list_all words_ok (map ap_patch (rl_accepted st))" by (auto simp: list_all_iff patch_ok_words)
  show "wf_state (rl_current st)" by (rule epoch.sequence_inv [OF run assms(2) wok])
qed

lemma reduce_total:
  assumes "wf_state s" and "inputs_ok ps"
  shows "\<exists>out. reduce s ps th m = Inr out"
proof -
  obtain root where root: "merkleizeState s = Inr root" using merkleize_total [OF assms(1)] by blast
  show ?thesis using root merkleize_total [OF reduce_loop_sequence(3) [OF assms, where root = root and th = th and m = m]]
    by (auto simp: reduce_eq Let_def)
qed

text \<open>
  C1: reducing an epoch succeeds from every well-formed state and every list of valid patches.
  The accepted patches have pairwise disjoint targets, each has at least the threshold as
  marginal gain, and they are numbered in order.  The new state is well formed and holds, at
  every word, the value of the accepted patch that targets it, or the parent's value if none
  does; the new root is its Merkle root.
\<close>

theorem reduce_state:
  assumes "wf_state s" and "inputs_ok ps"
  shows "\<exists>out. reduce s ps th m = Inr out \<and> wf_state (ro_newState out) \<and>
    merkleizeState (ro_newState out) = Inr (ro_newStateRoot out) \<and>
    sorted_wrt targets_disjoint (map ap_patch (ro_accepted out)) \<and>
    list_all (\<lambda>a. th \<le> ap_marginalGain a) (ro_accepted out) \<and>
    map ap_acceptanceIndex (ro_accepted out) = [0..<length (ro_accepted out)] \<and>
    map (\<lambda>j. words (ro_newState out) ! j) [0..<1024] =
      map (final_word s (map ap_patch (ro_accepted out))) [0..<1024]"
proof -
  obtain root where root: "merkleizeState s = Inr root" using merkleize_total [OF assms(1)] by blast
  let ?st = "reduce_loop s root ps th m"
  let ?acc = "map ap_patch (rl_accepted ?st)"
  note seq = reduce_loop_sequence [OF assms, where root = root and th = th and m = m]
  have dis: "sorted_wrt targets_disjoint ?acc"
    and gain: "list_all (\<lambda>a. th \<le> ap_marginalGain a) (rl_accepted ?st)"
      "map ap_acceptanceIndex (rl_accepted ?st) = [0..<length (rl_accepted ?st)]"
    unfolding reduce_loop_def using run_loop_disjoint run_loop_gains by blast+
  obtain new where new: "merkleizeState (rl_current ?st) = Inr new" using merkleize_total [OF seq(3)] by blast
  obtain out where out: "reduce s ps th m = Inr out" "ro_newState out = rl_current ?st"
    "ro_accepted out = rl_accepted ?st" "ro_newStateRoot out = new"
    using root new by (simp add: reduce_eq Let_def)
  have "map (\<lambda>j. words (rl_current ?st) ! j) [0..<1024] = map (final_word s ?acc) [0..<1024]"
    using disjoint_sequence_word [OF seq(1) assms(1) seq(2) dis] by (intro map_cong) simp_all
  then show ?thesis using out seq(3) new dis gain by (intro exI [of _ out]) simp
qed

lemma sorted_subseq: "subseq xs ys \<Longrightarrow> sorted ys \<Longrightarrow> sorted (xs :: 'a :: linorder list)"
proof (induction rule: list_emb.induct)
  case (list_emb_Cons2 x y xs ys)
  then show ?case by (auto elim: list_emb_set)
qed auto

lemma subseq_imp_subset_mset: "subseq xs ys \<Longrightarrow> mset xs \<subseteq># mset ys"
proof (induction rule: list_emb.induct)
  case (list_emb_Cons xs ys y)
  then show ?case by (metis mset.simps(2) add_mset_add_single mset_subset_eq_add_left subset_mset.trans)
qed auto

text \<open>
  Fact: the reducer is greedy by priority.  The accepted patches, in order, are those of a list of
  inputs sorted by descending claimed score, then ascending word count, then ascending patch
  hash; each input is accepted at most as often as it is given.
\<close>

theorem reduce_priority_order:
  assumes "reduce s ps th m = Inr out"
  shows "\<exists>items. map in_wire items = map acc_wire (ro_accepted out) \<and>
    sorted (map priority_key items) \<and> mset items \<subseteq># mset ps"
proof -
  obtain root where out: "ro_accepted out = rl_accepted (reduce_loop s root ps th m)"
    using reduce_Inr [OF assms] by metis
  let ?xs = "sort_key priority_key (filter (\<lambda>i. parentStateRoot (ri_patch i) = root) ps)"
  obtain items where sub: "subseq items ?xs" and
    eq: "map in_wire items = map acc_wire (rl_accepted (reduce_loop s root ps th m))"
    using run_loop_priority [of ?xs] unfolding reduce_loop_def by blast
  have "subseq (map priority_key items) (map priority_key ?xs)" using sub by (rule subseq_map)
  then have 1: "sorted (map priority_key items)" by (rule sorted_subseq) simp
  have "mset items \<subseteq># mset ?xs" using sub by (rule subseq_imp_subset_mset)
  also have "mset ?xs \<subseteq># mset ps" by simp
  finally show ?thesis using 1 eq out by auto
qed

lemma priority_key_wire:
  assumes "priority_key i = priority_key j" and "ri_patchBytes i \<noteq> ri_patchBytes j"
  shows "computePatchHash (ri_patchBytes i) = computePatchHash (ri_patchBytes j)"
  using assms by (simp add: priority_key_def)


section \<open>A sample epoch\<close>

text \<open>Two patches on the zero state which write the same word, one with the higher score.\<close>

definition zero_root :: bytes where
  "zero_root = tree_level (replicate 1024 0) 10 ! 0"

definition sample_input :: "int \<Rightarrow> reducer_input_patch" where
  "sample_input score = \<lparr> ri_patch = sample_patch\<lparr>parentStateRoot := zero_root, scoreDelta := score\<rparr>,
     ri_patchBytes = [word_of_int score], ri_scoreDelta = score, ri_marginalEvaluator = stubMarginalEvaluator \<rparr>"

lemma zero_root: "merkleizeState zero_state = Inr zero_root"
  by (simp add: merkleizeState_tree wf_state_length [OF wf_zero_state] zero_root_def) (simp add: zero_state_def)

lemma sample_inputs_ok: "inputs_ok [sample_input 7, sample_input 9]"
proof -
  have "length zero_root = 32" by (simp add: zero_root_def length_node)
  then show ?thesis
    by (simp add: inputs_ok_def sample_input_def sample_patch_def patch_ok_def validatePatchType_None type_allows_def uint256_def)
qed

lemma sample_reduction:
  "\<exists>out. reduce zero_state ps th m = Inr out" if "inputs_ok ps"
  using reduce_total [OF wf_zero_state that] .

theorem reduce_accounts_for_all_witness:
  "\<exists>out. reduce zero_state [sample_input 7, sample_input 9] 0 False = Inr out \<and>
    length (ro_accepted out) + length (ro_rejected out) = 2"
proof -
  obtain out where out: "reduce zero_state [sample_input 7, sample_input 9] 0 False = Inr out"
    using sample_reduction [OF sample_inputs_ok] by blast
  have "mset (map acc_wire (ro_accepted out)) + mset (map rej_wire (ro_rejected out)) =
      mset (map in_wire [sample_input 7, sample_input 9])"
    using reduce_accounts_for_all [OF out] by blast
  then have "size (mset (map acc_wire (ro_accepted out)) + mset (map rej_wire (ro_rejected out))) = 2" by simp
  then show ?thesis using out by (intro exI [of _ out]) simp
qed

theorem reduce_state_witness:
  "\<exists>out. reduce zero_state [sample_input 7, sample_input 9] 0 False = Inr out \<and> wf_state (ro_newState out)"
  using reduce_state [OF wf_zero_state sample_inputs_ok, of 0 False] by blast

theorem reduce_priority_order_witness:
  "\<exists>out. reduce zero_state [sample_input 7, sample_input 9] 0 False = Inr out \<and>
    (\<exists>items. map in_wire items = map acc_wire (ro_accepted out) \<and> sorted (map priority_key items))"
proof -
  obtain out where out: "reduce zero_state [sample_input 7, sample_input 9] 0 False = Inr out"
    using sample_reduction [OF sample_inputs_ok] by blast
  then show ?thesis using reduce_priority_order [OF out] by blast
qed


end
