(* ===== verification/Work_Units.thy ===== *)
theory Work_Units
  imports Prelude Complex_Main
begin

text \<open>
  \<open>src/rewards/work-units.ts\<close>: the work-credit policy, its validation, the work units of an
  outcome, the screener threshold and the qualification of a receipt.  \<open>bigint\<close> division is
  between non-negative numbers here, where truncation is \<open>div\<close>.  The hash of the policy is
  left out (canonical JSON).  Error messages leave out the numbers they interpolate.
\<close>

section \<open>Numeric arguments\<close>

text \<open>\<open>string | bigint | number\<close>; a number is a finite double, which is a rational, or one of
  NaN and the infinities.\<close>

datatype numeric = Str string | Big int | Num rat | Non_Finite

definition is_digit :: "char \<Rightarrow> bool" where
  "is_digit c \<longleftrightarrow> 48 \<le> (of_char c :: nat) \<and> (of_char c :: nat) \<le> 57"

text \<open>\<open>/^(0|[1-9][0-9]*)$/\<close>\<close>

definition decimal_pattern :: "string \<Rightarrow> bool" where
  "decimal_pattern s \<longleftrightarrow> s = ''0'' \<or> (s \<noteq> [] \<and> hd s \<noteq> CHR ''0'' \<and> list_all is_digit s)"

definition decimal_value :: "string \<Rightarrow> int" where
  "decimal_value s = foldl (\<lambda>n c. 10 * n + int (of_char c - 48)) 0 s"

definition is_safe_integer :: "rat \<Rightarrow> bool" where
  "is_safe_integer q \<longleftrightarrow> snd (quotient_of q) = 1 \<and> \<bar>fst (quotient_of q)\<bar> \<le> 2 ^ 53 - 1"

definition toBigInt :: "numeric \<Rightarrow> string \<Rightarrow> js_error + int" where
  "toBigInt value label = (case value of
     Big n \<Rightarrow> if n < 0 then Inl (RangeError (label @ '' must be non-negative'')) else Inr n
   | Num q \<Rightarrow> if \<not> is_safe_integer q \<or> q < 0
       then Inl (RangeError (label @ '' must be a non-negative safe integer'')) else Inr (fst (quotient_of q))
   | Non_Finite \<Rightarrow> Inl (RangeError (label @ '' must be a non-negative safe integer''))
   | Str s \<Rightarrow> if \<not> decimal_pattern s
       then Inl (RangeError (label @ '' must be a non-negative decimal string'')) else Inr (decimal_value s))"

definition toSignedBigInt :: "numeric \<Rightarrow> string \<Rightarrow> js_error + int" where
  "toSignedBigInt value label = (case value of
     Big n \<Rightarrow> Inr n
   | Num q \<Rightarrow> if \<not> is_safe_integer q
       then Inl (RangeError (label @ '' must be a safe integer'')) else Inr (fst (quotient_of q))
   | Non_Finite \<Rightarrow> Inl (RangeError (label @ '' must be a safe integer''))
   | Str s \<Rightarrow> let neg = take 1 s = ''-''; digits = (if neg then drop 1 s else s) in
       if \<not> decimal_pattern digits then Inl (RangeError (label @ '' must be a signed decimal string''))
       else Inr (if neg then - decimal_value digits else decimal_value digits))"

text \<open>\<open>toBigInt(x ?? 0n, label)\<close>\<close>

definition opt_big :: "numeric option \<Rightarrow> string \<Rightarrow> js_error + int" where
  "opt_big x label = toBigInt (case x of None \<Rightarrow> Big 0 | Some v \<Rightarrow> v) label"

definition clamp :: "int \<Rightarrow> int \<Rightarrow> int \<Rightarrow> int" where
  "clamp value lo hi = min (max value lo) hi"

definition ceilDiv :: "int \<Rightarrow> int \<Rightarrow> js_error + int" where
  "ceilDiv numerator denominator =
     (if denominator \<le> 0 then Inl (RangeError ''ceilDiv denominator must be positive'')
      else Inr ((numerator + denominator - 1) div denominator))"

section \<open>Policies\<close>

definition WORK_BPS_DIVISOR :: int where "WORK_BPS_DIVISOR = 10000"
definition LANE_CORETEX :: int where "LANE_CORETEX = 2"
definition OUTCOME_CORETEX_SCREENER_PASS :: int where "OUTCOME_CORETEX_SCREENER_PASS = 1"
definition OUTCOME_CORETEX_STATE_ADVANCE :: int where "OUTCOME_CORETEX_STATE_ADVANCE = 2"
definition CORTEX_RULES_VERSION :: int where "CORTEX_RULES_VERSION = 0xC0"

lemmas WORK_CONSTS = WORK_BPS_DIVISOR_def LANE_CORETEX_def OUTCOME_CORETEX_SCREENER_PASS_def
  OUTCOME_CORETEX_STATE_ADVANCE_def CORTEX_RULES_VERSION_def

record state_advance_work_tier =
  ti_minPasses :: numeric
  ti_workUnitsBps :: numeric

record screener_calibration =
  ca_scoreScalePpm :: numeric
  ca_minDeltaPpm :: numeric
  ca_remainingHeadroomBps :: numeric
  ca_noiseFloorMultiplierBps :: numeric
  ca_plateauEasingMaxBps :: numeric
  ca_stateAdvanceThresholdFloorBps :: "numeric option"
  ca_antiGamingProbeMultiplierBps :: numeric
  ca_maxAntiGamingPenaltyBps :: numeric
  ca_maxThresholdPpm :: numeric

record screener_pass_policy =
  sp_outcome :: int
  sp_minLocalModelDeltaPpm :: numeric
  sp_maxRelevantNearCollisionPpm :: numeric
  sp_workUnitsBps :: numeric
  sp_calibration :: screener_calibration

record state_advance_policy =
  sa_outcome :: int
  sa_minDeterministicDeltaPpm :: numeric
  sa_minLocalModelDeltaPpm :: numeric
  sa_requireLiveStateAdvance :: bool
  sa_tiers :: "state_advance_work_tier list"

record coretex_work_policy =
  wp_name :: string
  wp_version :: int
  wp_rulesVersion :: int
  wp_lane :: int
  wp_bpsDivisor :: numeric
  wp_screenerPass :: screener_pass_policy
  wp_stateAdvance :: state_advance_policy

definition DEFAULT_CORETEX_WORK_POLICY :: coretex_work_policy where
  "DEFAULT_CORETEX_WORK_POLICY = \<lparr> wp_name = ''botcoin-coretex-work-policy'', wp_version = 3,
     wp_rulesVersion = CORTEX_RULES_VERSION, wp_lane = LANE_CORETEX, wp_bpsDivisor = Str ''10000'',
     wp_screenerPass = \<lparr> sp_outcome = OUTCOME_CORETEX_SCREENER_PASS, sp_minLocalModelDeltaPpm = Str ''0'',
       sp_maxRelevantNearCollisionPpm = Str ''250000'', sp_workUnitsBps = Str ''10000'',
       sp_calibration = \<lparr> ca_scoreScalePpm = Str ''1000000'', ca_minDeltaPpm = Str ''50'',
         ca_remainingHeadroomBps = Str ''5'', ca_noiseFloorMultiplierBps = Str ''20000'',
         ca_plateauEasingMaxBps = Str ''5000'', ca_stateAdvanceThresholdFloorBps = Some (Str ''5000''),
         ca_antiGamingProbeMultiplierBps = Str ''20000'', ca_maxAntiGamingPenaltyBps = Str ''50000'',
         ca_maxThresholdPpm = Str ''150000'' \<rparr> \<rparr>,
     wp_stateAdvance = \<lparr> sa_outcome = OUTCOME_CORETEX_STATE_ADVANCE, sa_minDeterministicDeltaPpm = Str ''1'',
       sa_minLocalModelDeltaPpm = Str ''0'', sa_requireLiveStateAdvance = True,
       sa_tiers = [\<lparr> ti_minPasses = Str ''0'', ti_workUnitsBps = Str ''30000'' \<rparr>,
         \<lparr> ti_minPasses = Str ''25'', ti_workUnitsBps = Str ''40000'' \<rparr>,
         \<lparr> ti_minPasses = Str ''100'', ti_workUnitsBps = Str ''60000'' \<rparr>,
         \<lparr> ti_minPasses = Str ''250'', ti_workUnitsBps = Str ''90000'' \<rparr>,
         \<lparr> ti_minPasses = Str ''500'', ti_workUnitsBps = Str ''120000'' \<rparr>] \<rparr> \<rparr>"

text \<open>One round of the tier check, on the previous minimum and bps.\<close>

definition check_tier :: "int \<times> int \<Rightarrow> state_advance_work_tier \<Rightarrow> js_error + int \<times> int" where
  "check_tier = (\<lambda>(prevMin, prevBps) tier.
     bind_res (toBigInt (ti_minPasses tier) ''stateAdvance.tiers.minQualifiedScreenerPassesSinceLastStateAdvance'') (\<lambda>mn.
     bind_res (toBigInt (ti_workUnitsBps tier) ''stateAdvance.tiers.workUnitsBps'') (\<lambda>bps.
     if mn \<le> prevMin then Inl (RangeError ''stateAdvance.tiers must have strictly increasing min counts'')
     else if bps < 3 * WORK_BPS_DIVISOR then Inl (RangeError ''state advance must be at least 3x'')
     else if bps < prevBps then Inl (RangeError ''stateAdvance.tiers bps must be nondecreasing'')
     else Inr (mn, bps))))"

definition assertValidCoreTexWorkPolicy :: "coretex_work_policy \<Rightarrow> js_error + unit" where
  "assertValidCoreTexWorkPolicy policy =
     (let screener = wp_screenerPass policy; advance = wp_stateAdvance policy; calibration = sp_calibration screener in
     bind_res (guard_res (wp_name policy \<noteq> []) (RangeError ''policy.name is required'')) (\<lambda>_.
     bind_res (guard_res (wp_version policy > 0) (RangeError ''policy.version must be positive'')) (\<lambda>_.
     bind_res (guard_res (wp_rulesVersion policy = CORTEX_RULES_VERSION) (RangeError ''policy.rulesVersion must be 0xC0'')) (\<lambda>_.
     bind_res (guard_res (wp_lane policy = LANE_CORETEX) (RangeError ''policy.lane must be CoreTex'')) (\<lambda>_.
     bind_res (toBigInt (wp_bpsDivisor policy) ''bpsDivisor'') (\<lambda>bpsDivisor.
     bind_res (guard_res (bpsDivisor = WORK_BPS_DIVISOR) (RangeError ''policy.bpsDivisor must be 10000'')) (\<lambda>_.
     bind_res (guard_res (sp_outcome screener = OUTCOME_CORETEX_SCREENER_PASS) (RangeError ''policy.screenerPass.outcome must be 1'')) (\<lambda>_.
     bind_res (toBigInt (ca_scoreScalePpm calibration) ''screenerPass.calibration.scoreScalePpm'') (\<lambda>scoreScale.
     bind_res (toBigInt (ca_minDeltaPpm calibration) ''screenerPass.calibration.minDeltaPpm'') (\<lambda>minDelta.
     bind_res (toBigInt (ca_maxThresholdPpm calibration) ''screenerPass.calibration.maxThresholdPpm'') (\<lambda>maxThreshold.
     bind_res (toBigInt (ca_plateauEasingMaxBps calibration) ''screenerPass.calibration.plateauEasingMaxBps'') (\<lambda>plateauEasingMaxBps.
     bind_res (opt_big (ca_stateAdvanceThresholdFloorBps calibration)
       ''screenerPass.calibration.stateAdvanceThresholdFloorBps'') (\<lambda>stateAdvanceThresholdFloorBps.
     bind_res (toBigInt (ca_maxAntiGamingPenaltyBps calibration) ''screenerPass.calibration.maxAntiGamingPenaltyBps'') (\<lambda>maxAntiGamingPenaltyBps.
     bind_res (guard_res (scoreScale = 1000000) (RangeError ''scoreScalePpm must be 1000000'')) (\<lambda>_.
     bind_res (guard_res (\<not> minDelta < 10) (RangeError ''screener minimum delta is too low'')) (\<lambda>_.
     bind_res (guard_res (\<not> maxThreshold < minDelta) (RangeError ''screener max threshold must be >= min delta'')) (\<lambda>_.
     bind_res (toBigInt (ca_remainingHeadroomBps calibration) ''screenerPass.calibration.remainingHeadroomBps'') (\<lambda>remainingHeadroomBps.
     bind_res (guard_res (remainingHeadroomBps \<noteq> 0) (RangeError ''remainingHeadroomBps must be positive'')) (\<lambda>_.
     bind_res (toBigInt (ca_noiseFloorMultiplierBps calibration) ''screenerPass.calibration.noiseFloorMultiplierBps'') (\<lambda>noiseFloorMultiplierBps.
     bind_res (guard_res (\<not> noiseFloorMultiplierBps < WORK_BPS_DIVISOR) (RangeError ''noiseFloorMultiplierBps must be at least 1x'')) (\<lambda>_.
     bind_res (guard_res (\<not> plateauEasingMaxBps > WORK_BPS_DIVISOR) (RangeError ''plateauEasingMaxBps must be <= 10000'')) (\<lambda>_.
     bind_res (guard_res (\<not> stateAdvanceThresholdFloorBps > WORK_BPS_DIVISOR) (RangeError ''stateAdvanceThresholdFloorBps must be <= 10000'')) (\<lambda>_.
     bind_res (toBigInt (ca_antiGamingProbeMultiplierBps calibration) ''screenerPass.calibration.antiGamingProbeMultiplierBps'') (\<lambda>probeMultiplier.
     bind_res (guard_res (probeMultiplier \<noteq> 0) (RangeError ''antiGamingProbeMultiplierBps must be positive'')) (\<lambda>_.
     bind_res (guard_res (\<not> maxAntiGamingPenaltyBps > 10 * WORK_BPS_DIVISOR) (RangeError ''maxAntiGamingPenaltyBps must be <= 100000'')) (\<lambda>_.
     bind_res (guard_res (sa_outcome advance = OUTCOME_CORETEX_STATE_ADVANCE) (RangeError ''policy.stateAdvance.outcome must be 2'')) (\<lambda>_.
     bind_res (toBigInt (sp_workUnitsBps screener) ''screenerPass.workUnitsBps'') (\<lambda>screenerBps.
     bind_res (guard_res (screenerBps = WORK_BPS_DIVISOR) (RangeError ''screener pass must stay exactly 1x'')) (\<lambda>_.
     case sa_tiers advance of [] \<Rightarrow> Inl (RangeError ''stateAdvance.tiers must not be empty'')
     | first # _ \<Rightarrow>
       bind_res (fold_res check_tier (-1, 0) (sa_tiers advance)) (\<lambda>_.
       bind_res (toBigInt (ti_minPasses first) ''stateAdvance.tiers[0].min'') (\<lambda>firstMin.
       guard_res (firstMin = 0) (RangeError ''first stateAdvance tier must start at 0'')
     )))))))))))))))))))))))))))))))"

section \<open>Work units\<close>

definition select_tier :: "int \<Rightarrow> int \<Rightarrow> state_advance_work_tier \<Rightarrow> js_error + int" where
  "select_tier count selected tier =
     bind_res (toBigInt (ti_minPasses tier) ''stateAdvance.tiers.minQualifiedScreenerPassesSinceLastStateAdvance'') (\<lambda>mn.
     if count \<ge> mn then toBigInt (ti_workUnitsBps tier) ''stateAdvance.tiers.workUnitsBps'' else Inr selected)"

definition computeCoreTexWorkUnitsBps :: "int \<Rightarrow> numeric option \<Rightarrow> coretex_work_policy option \<Rightarrow> js_error + int" where
  "computeCoreTexWorkUnitsBps outcome qualifiedScreenerPasses pol =
     (let policy = (case pol of None \<Rightarrow> DEFAULT_CORETEX_WORK_POLICY | Some p \<Rightarrow> p) in
     bind_res (assertValidCoreTexWorkPolicy policy) (\<lambda>_.
     if outcome = sp_outcome (wp_screenerPass policy)
     then toBigInt (sp_workUnitsBps (wp_screenerPass policy)) ''screenerPass.workUnitsBps''
     else if outcome \<noteq> sa_outcome (wp_stateAdvance policy) then Inl (RangeError ''unknown CoreTex outcome'')
     else
     bind_res (opt_big qualifiedScreenerPasses ''qualifiedScreenerPassesSinceLastStateAdvance'') (\<lambda>count.
     case sa_tiers (wp_stateAdvance policy) of [] \<Rightarrow> Inl (TypeError ''tiers[0] is undefined'')
     | first # _ \<Rightarrow>
       bind_res (toBigInt (ti_workUnitsBps first) ''stateAdvance.tiers[0].workUnitsBps'') (\<lambda>selected.
       fold_res (select_tier count) selected (sa_tiers (wp_stateAdvance policy))))))"

section \<open>The screener threshold\<close>

record threshold_input =
  th_baselineScorePpm :: "numeric option"
  th_recentNoiseFloorPpm :: "numeric option"
  th_recentScreenerPasses :: "numeric option"
  th_recentStateAdvances :: "numeric option"
  th_targetStateAdvances :: "numeric option"
  th_recentProbePassRatePpm :: "numeric option"
  th_stateAdvanceThresholdPpm :: "numeric option"
  th_policy :: "coretex_work_policy option"

definition computeCoreTexScreenerThresholdPpm :: "threshold_input \<Rightarrow> js_error + int" where
  "computeCoreTexScreenerThresholdPpm i =
     (let policy = (case th_policy i of None \<Rightarrow> DEFAULT_CORETEX_WORK_POLICY | Some p \<Rightarrow> p);
          calibration = sp_calibration (wp_screenerPass policy) in
     bind_res (assertValidCoreTexWorkPolicy policy) (\<lambda>_.
     bind_res (toBigInt (ca_scoreScalePpm calibration) ''screenerPass.calibration.scoreScalePpm'') (\<lambda>scale.
     bind_res (opt_big (th_baselineScorePpm i) ''baselineScorePpm'') (\<lambda>baselineScore.
     let baseline = clamp baselineScore 0 scale; remaining = scale - baseline in
     bind_res (toBigInt (ca_minDeltaPpm calibration) ''screenerPass.calibration.minDeltaPpm'') (\<lambda>minDelta.
     bind_res (toBigInt (ca_remainingHeadroomBps calibration) ''screenerPass.calibration.remainingHeadroomBps'') (\<lambda>headroomBps.
     let headroomDelta = (remaining * headroomBps) div WORK_BPS_DIVISOR in
     bind_res (opt_big (th_recentNoiseFloorPpm i) ''recentNoiseFloorPpm'') (\<lambda>noiseFloor.
     bind_res (toBigInt (ca_noiseFloorMultiplierBps calibration) ''screenerPass.calibration.noiseFloorMultiplierBps'') (\<lambda>noiseBps.
     let noiseDelta = (noiseFloor * noiseBps) div WORK_BPS_DIVISOR in
     bind_res (opt_big (ca_stateAdvanceThresholdFloorBps calibration)
       ''screenerPass.calibration.stateAdvanceThresholdFloorBps'') (\<lambda>floorBps.
     bind_res (guard_res (\<not> (floorBps > 0 \<and> th_stateAdvanceThresholdPpm i = None))
       (RangeError ''stateAdvanceThresholdPpm is required when stateAdvanceThresholdFloorBps is enabled'')) (\<lambda>_.
     bind_res (opt_big (th_stateAdvanceThresholdPpm i) ''stateAdvanceThresholdPpm'') (\<lambda>stateAdvanceThreshold.
     bind_res (guard_res (\<not> (floorBps > 0 \<and> stateAdvanceThreshold \<le> 0))
       (RangeError ''stateAdvanceThresholdPpm must be positive when stateAdvanceThresholdFloorBps is enabled'')) (\<lambda>_.
     bind_res (if stateAdvanceThreshold > 0 \<and> floorBps > 0
         then ceilDiv (stateAdvanceThreshold * floorBps) WORK_BPS_DIVISOR else Inr 0) (\<lambda>stateAdvanceFloorDelta.
     bind_res (toBigInt (ca_plateauEasingMaxBps calibration) ''screenerPass.calibration.plateauEasingMaxBps'') (\<lambda>plateauEasingMaxBps.
     bind_res (opt_big (th_targetStateAdvances i) ''targetStateAdvances'') (\<lambda>targetStateAdvances.
     bind_res (if targetStateAdvances > 0
       then
         bind_res (opt_big (th_recentStateAdvances i) ''recentStateAdvances'') (\<lambda>recentAdvances.
         bind_res (opt_big (th_recentScreenerPasses i) ''recentScreenerPasses'') (\<lambda>recentScreenerPasses.
         let recentStateAdvances = min recentAdvances targetStateAdvances;
             stateAdvanceGap = targetStateAdvances - recentStateAdvances;
             supportedGap = min recentScreenerPasses stateAdvanceGap;
             easingBps = min plateauEasingMaxBps ((plateauEasingMaxBps * supportedGap) div targetStateAdvances)
         in Inr ((headroomDelta * (WORK_BPS_DIVISOR - easingBps)) div WORK_BPS_DIVISOR)))
       else Inr headroomDelta) (\<lambda>adjustedHeadroomDelta.
     bind_res (opt_big (th_recentProbePassRatePpm i) ''recentProbePassRatePpm'') (\<lambda>probeRate.
     let probePassRate = clamp probeRate 0 scale in
     bind_res (toBigInt (ca_maxAntiGamingPenaltyBps calibration) ''screenerPass.calibration.maxAntiGamingPenaltyBps'') (\<lambda>maxPenalty.
     bind_res (toBigInt (ca_antiGamingProbeMultiplierBps calibration) ''screenerPass.calibration.antiGamingProbeMultiplierBps'') (\<lambda>probeMultiplier.
     let antiGamingPenaltyBps = min maxPenalty ((probePassRate * probeMultiplier) div scale) in
     bind_res (toBigInt (ca_maxThresholdPpm calibration) ''screenerPass.calibration.maxThresholdPpm'') (\<lambda>maxThreshold.
     let rawThreshold = max (max minDelta stateAdvanceFloorDelta) (max adjustedHeadroomDelta noiseDelta);
         penalizedThreshold = (rawThreshold * (WORK_BPS_DIVISOR + antiGamingPenaltyBps)) div WORK_BPS_DIVISOR;
         dynamicCeiling = (if stateAdvanceThreshold > 0 then min maxThreshold stateAdvanceThreshold else maxThreshold)
     in Inr (min penalizedThreshold dynamicCeiling)))))))))))))))))))))"

section \<open>Qualification\<close>

datatype work_reason = OK | W01_UNKNOWN_OUTCOME | W02_STALE_PARENT | W03_DETERMINISTIC_DELTA_TOO_LOW
  | W04_LOCAL_MODEL_REGRESSION | W05_RELEVANT_NEAR_COLLISION | W06_STATE_NOT_ADVANCED

record work_qualification_input =
  qi_outcome :: int
  qi_qualifiedScreenerPasses :: "numeric option"
  qi_deterministicDeltaPpm :: numeric
  qi_localModelDeltaPpm :: "numeric option"
  qi_relevantNearCollisionPpm :: "numeric option"
  qi_parentMatchesLiveRoot :: bool
  qi_liveStateAdvanced :: "bool option"
  qi_threshold :: threshold_input

record work_qualification =
  wq_qualified :: bool
  wq_reason :: work_reason
  wq_workUnitsBps :: int
  wq_requiredDeterministicDeltaPpm :: int

definition not_qualified :: "work_reason \<Rightarrow> int \<Rightarrow> work_qualification" where
  "not_qualified reason required = \<lparr> wq_qualified = False, wq_reason = reason, wq_workUnitsBps = 0,
     wq_requiredDeterministicDeltaPpm = required \<rparr>"

text \<open>The threshold fields and the policy are those of \<open>qi_threshold\<close>, passed on as they are.\<close>

definition evaluateCoreTexWorkQualification :: "work_qualification_input \<Rightarrow> js_error + work_qualification" where
  "evaluateCoreTexWorkQualification q =
     (let policy = (case th_policy (qi_threshold q) of None \<Rightarrow> DEFAULT_CORETEX_WORK_POLICY | Some p \<Rightarrow> p);
          screener = wp_screenerPass policy; advance = wp_stateAdvance policy in
     bind_res (assertValidCoreTexWorkPolicy policy) (\<lambda>_.
     if qi_outcome q \<noteq> sp_outcome screener \<and> qi_outcome q \<noteq> sa_outcome advance
     then Inr (not_qualified W01_UNKNOWN_OUTCOME 0)
     else if \<not> qi_parentMatchesLiveRoot q then Inr (not_qualified W02_STALE_PARENT 0)
     else
     bind_res (toSignedBigInt (qi_deterministicDeltaPpm q) ''deterministicDeltaPpm'') (\<lambda>deterministicDelta.
     bind_res (toSignedBigInt (case qi_localModelDeltaPpm q of None \<Rightarrow> Big 0 | Some v \<Rightarrow> v) ''localModelDeltaPpm'') (\<lambda>localModelDelta.
     let isStateAdvance = (qi_outcome q = sa_outcome advance) in
     bind_res (computeCoreTexScreenerThresholdPpm ((qi_threshold q)\<lparr>th_policy := Some policy\<rparr>)) (\<lambda>screenerThreshold.
     bind_res (case th_stateAdvanceThresholdPpm (qi_threshold q) of None \<Rightarrow> Inr 0
       | Some v \<Rightarrow> toBigInt v ''stateAdvanceThresholdPpm'') (\<lambda>stateAdvanceThreshold.
     bind_res (if isStateAdvance
       then bind_res (toBigInt (sa_minDeterministicDeltaPpm advance) ''stateAdvance.minDeterministicDeltaPpm'') (\<lambda>mn.
         Inr (max (max mn screenerThreshold) stateAdvanceThreshold))
       else Inr screenerThreshold) (\<lambda>minDeterministic.
     bind_res (if isStateAdvance then toBigInt (sa_minLocalModelDeltaPpm advance) ''stateAdvance.minLocalModelDeltaPpm''
       else toBigInt (sp_minLocalModelDeltaPpm screener) ''screenerPass.minLocalModelDeltaPpm'') (\<lambda>minLocal.
     if deterministicDelta < minDeterministic then Inr (not_qualified W03_DETERMINISTIC_DELTA_TOO_LOW minDeterministic)
     else if localModelDelta < minLocal then Inr (not_qualified W04_LOCAL_MODEL_REGRESSION minDeterministic)
     else
     bind_res (case qi_relevantNearCollisionPpm q of None \<Rightarrow> Inr False
       | Some nearCollision \<Rightarrow>
         bind_res (toBigInt (sp_maxRelevantNearCollisionPpm screener) ''screenerPass.maxRelevantNearCollisionPpm'') (\<lambda>maxCollision.
         bind_res (toBigInt nearCollision ''relevantNearCollisionPpm'') (\<lambda>near. Inr (near > maxCollision)))) (\<lambda>collides.
     if collides then Inr (not_qualified W05_RELEVANT_NEAR_COLLISION minDeterministic)
     else if isStateAdvance \<and> sa_requireLiveStateAdvance advance \<and> qi_liveStateAdvanced q \<noteq> Some True
     then Inr (not_qualified W06_STATE_NOT_ADVANCED minDeterministic)
     else
     bind_res (computeCoreTexWorkUnitsBps (qi_outcome q) (qi_qualifiedScreenerPasses q) (th_policy (qi_threshold q))) (\<lambda>workUnits.
     Inr \<lparr> wq_qualified = True, wq_reason = OK, wq_workUnitsBps = workUnits,
       wq_requiredDeterministicDeltaPpm = minDeterministic \<rparr>))))))))))"

section \<open>Values of accepted arguments\<close>

definition nval :: "numeric \<Rightarrow> int" where
  "nval v = (case toBigInt v [] of Inl e \<Rightarrow> 0 | Inr n \<Rightarrow> n)"

definition oval :: "numeric option \<Rightarrow> int" where
  "oval x = nval (case x of None \<Rightarrow> Big 0 | Some v \<Rightarrow> v)"

lemma decimal_value_nonneg: "0 \<le> decimal_value s"
proof -
  have "0 \<le> n \<Longrightarrow> 0 \<le> foldl (\<lambda>n c. 10 * n + int (of_char c - 48)) n s" for n
    by (induction s arbitrary: n) simp_all
  then show ?thesis by (simp add: decimal_value_def)
qed

lemma toBigInt_nval: "toBigInt v l = Inr n \<Longrightarrow> n = nval v \<and> 0 \<le> n"
proof -
  assume a: "toBigInt v l = Inr n"
  have "0 \<le> fst (quotient_of q)" if "\<not> q < 0" for q :: rat
  proof -
    obtain m d where q: "quotient_of q = (m, d)" by force
    then have "q = of_int m / of_int d" "0 < d" by (auto dest: quotient_of_div quotient_of_denom_pos)
    then show ?thesis using that q by (simp add: divide_less_0_iff)
  qed
  with a show ?thesis
    by (auto simp: nval_def toBigInt_def decimal_value_nonneg split: numeric.splits if_splits)
qed

lemma opt_big_oval: "opt_big x l = Inr n \<Longrightarrow> n = oval x \<and> 0 \<le> n"
  unfolding opt_big_def oval_def by (rule toBigInt_nval)

lemma toBigInt_label: "toBigInt v l = Inr n \<Longrightarrow> toBigInt v l' = Inr n"
  by (auto simp: toBigInt_def split: numeric.splits if_splits)

section \<open>Valid policies\<close>

definition tier_pair :: "state_advance_work_tier \<Rightarrow> int \<times> int" where
  "tier_pair t = (nval (ti_minPasses t), nval (ti_workUnitsBps t))"

definition tiers_of :: "coretex_work_policy \<Rightarrow> (int \<times> int) list" where
  "tiers_of p = map tier_pair (sa_tiers (wp_stateAdvance p))"

definition tier_below :: "int \<times> int \<Rightarrow> int \<times> int \<Rightarrow> bool" where
  "tier_below s t \<longleftrightarrow> fst s < fst t \<and> snd s \<le> snd t"

lemma check_tier_Inr:
  "check_tier s t = Inr z \<Longrightarrow> z = tier_pair t \<and> tier_below s z \<and> 30000 \<le> snd z \<and>
    (\<forall>l. toBigInt (ti_minPasses t) l = Inr (fst z)) \<and> (\<forall>l. toBigInt (ti_workUnitsBps t) l = Inr (snd z))"
  by (auto simp: check_tier_def bind_res_eq_Inr tier_pair_def tier_below_def WORK_CONSTS split: if_splits prod.splits
      dest: toBigInt_nval toBigInt_label)

lemma transp_tier_below: "transp tier_below"
  by (auto simp: transp_def tier_below_def)

lemma check_tiers:
  assumes "fold_res check_tier s ts = Inr z"
  shows "sorted_wrt tier_below (s # map tier_pair ts)"
    and "list_all (\<lambda>t. 30000 \<le> snd (tier_pair t) \<and> (\<forall>l. toBigInt (ti_minPasses t) l = Inr (fst (tier_pair t))) \<and>
      (\<forall>l. toBigInt (ti_workUnitsBps t) l = Inr (snd (tier_pair t)))) ts"
  using assms
proof (induction ts arbitrary: s)
  case (Cons t ts)
  {
    case 1
    then obtain y where "check_tier s t = Inr y" "fold_res check_tier y ts = Inr z" by (auto simp: bind_res_eq_Inr)
    with Cons(1) [of y] check_tier_Inr [of s t y] show ?case
      by (auto intro: transpD [OF transp_tier_below])
  next
    case 2
    then obtain y where "check_tier s t = Inr y" "fold_res check_tier y ts = Inr z" by (auto simp: bind_res_eq_Inr)
    with Cons(2) [of y] check_tier_Inr [of s t y] show ?case by auto
  }
qed simp_all

text \<open>What the validation of a policy establishes.\<close>

definition policy_ok :: "coretex_work_policy \<Rightarrow> bool" where
  "policy_ok p \<longleftrightarrow> assertValidCoreTexWorkPolicy p = Inr ()"

definition cal :: "coretex_work_policy \<Rightarrow> screener_calibration" where
  "cal p = sp_calibration (wp_screenerPass p)"

lemma policy_ok_facts:
  assumes "policy_ok p"
  shows "sp_outcome (wp_screenerPass p) = 1" and "sa_outcome (wp_stateAdvance p) = 2"
    and "nval (ca_scoreScalePpm (cal p)) = 1000000"
    and "10 \<le> nval (ca_minDeltaPpm (cal p))" and "nval (ca_minDeltaPpm (cal p)) \<le> nval (ca_maxThresholdPpm (cal p))"
    and "nval (ca_plateauEasingMaxBps (cal p)) \<le> 10000" and "oval (ca_stateAdvanceThresholdFloorBps (cal p)) \<le> 10000"
    and "sa_tiers (wp_stateAdvance p) \<noteq> []" and "\<exists>z. fold_res check_tier (-1, 0) (sa_tiers (wp_stateAdvance p)) = Inr z"
    and "fst (hd (tiers_of p)) = 0"
  using assms unfolding policy_ok_def assertValidCoreTexWorkPolicy_def Let_def bind_res_eq_Inr
  by (auto simp: WORK_CONSTS cal_def tiers_of_def tier_pair_def bind_res_eq_Inr split: list.splits
      dest!: toBigInt_nval opt_big_oval)

lemma policy_ok_screener: "policy_ok p \<Longrightarrow> toBigInt (sp_workUnitsBps (wp_screenerPass p)) l = Inr 10000"
  unfolding policy_ok_def assertValidCoreTexWorkPolicy_def Let_def bind_res_eq_Inr
  by (auto simp: WORK_CONSTS intro: toBigInt_label)

lemma policy_ok_tiers:
  assumes "policy_ok p"
  shows "sorted_wrt tier_below (tiers_of p)" and "tiers_of p \<noteq> []"
    and "list_all (\<lambda>t. (\<forall>l. toBigInt (ti_minPasses t) l = Inr (fst (tier_pair t))) \<and>
      (\<forall>l. toBigInt (ti_workUnitsBps t) l = Inr (snd (tier_pair t)))) (sa_tiers (wp_stateAdvance p))"
    and "list_all (\<lambda>t. 30000 \<le> snd t) (tiers_of p)"
  using policy_ok_facts(8,9) [OF assms] check_tiers [of "(-1, 0)" "sa_tiers (wp_stateAdvance p)"]
  by (auto simp: tiers_of_def list_all_iff)

lemma DEFAULT_policy_ok: "policy_ok DEFAULT_CORETEX_WORK_POLICY"
  by code_simp

section \<open>The tier of a count\<close>

definition tier_bps :: "int \<Rightarrow> int \<Rightarrow> (int \<times> int) list \<Rightarrow> int" where
  "tier_bps count start ts = foldl (\<lambda>b t. if fst t \<le> count then snd t else b) start ts"

lemma select_tiers:
  assumes "list_all (\<lambda>t. (\<forall>l. toBigInt (ti_minPasses t) l = Inr (fst (tier_pair t))) \<and>
      (\<forall>l. toBigInt (ti_workUnitsBps t) l = Inr (snd (tier_pair t)))) ts"
  shows "fold_res (select_tier count) b ts = Inr (tier_bps count b (map tier_pair ts))"
  using assms by (induction ts arbitrary: b) (auto simp: select_tier_def tier_bps_def)

lemma tier_bps_last:
  "tier_bps count b ts = (let us = filter (\<lambda>t. fst t \<le> count) ts in if us = [] then b else snd (last us))"
  unfolding tier_bps_def by (induction ts rule: rev_induct) (auto simp: Let_def)

lemma tier_bps_snoc [simp]:
  "tier_bps n b (ts @ [t]) = (if fst t \<le> n then snd t else tier_bps n b ts)"
  by (simp add: tier_bps_def)

lemma tier_bps_mono:
  assumes "sorted_wrt tier_below ts" and "list_all (\<lambda>t. b \<le> snd t) ts" and "n \<le> n'"
  shows "tier_bps n b ts \<le> tier_bps n' b ts \<and> b \<le> tier_bps n b ts"
  using assms(1,2)
proof (induction ts rule: rev_induct)
  case (snoc t ts)
  have "tier_bps n b ts \<le> snd t"
  proof -
    have "tier_bps n b ts = b \<or> (\<exists>u \<in> set ts. tier_bps n b ts = snd u)"
      by (induction ts rule: rev_induct) (auto simp: tier_bps_def)
    then show ?thesis using snoc.prems by (auto simp: sorted_wrt_append tier_below_def)
  qed
  with snoc show ?case using assms(3) by (auto simp: sorted_wrt_append)
qed (simp add: tier_bps_def)

lemma work_units_advance:
  assumes "policy_ok p" and "opt_big c ''qualifiedScreenerPassesSinceLastStateAdvance'' = Inr n"
  shows "computeCoreTexWorkUnitsBps 2 c (Some p) = Inr (tier_bps n (snd (hd (tiers_of p))) (tiers_of p))"
proof -
  note f = policy_ok_facts [OF assms(1)] policy_ok_tiers [OF assms(1)]
  obtain t ts where t: "sa_tiers (wp_stateAdvance p) = t # ts" using f(8) by (cases "sa_tiers (wp_stateAdvance p)") auto
  have "toBigInt (ti_workUnitsBps t) l = Inr (snd (tier_pair t))" for l using f(13) t by simp
  then show ?thesis
    using f(1,2) assms(2) select_tiers [OF f(13), of n] assms(1)
    by (simp add: computeCoreTexWorkUnitsBps_def policy_ok_def t tiers_of_def)
qed

lemma tiers_start:
  assumes "policy_ok p"
  shows "list_all (\<lambda>t. snd (hd (tiers_of p)) \<le> snd t) (tiers_of p)" and "30000 \<le> snd (hd (tiers_of p))"
  using policy_ok_tiers [OF assms] by (cases "tiers_of p"; auto simp: list_all_iff tier_below_def)+

text \<open>
  Fact: under every valid policy a screener pass earns exactly one work unit (10000 bps), and a
  state advance the bps of the last tier whose minimum the count of screener passes reaches.
  That is at least three units, and it never falls as the count grows.
\<close>

theorem work_units_by_tier:
  assumes "policy_ok p" and "opt_big c ''qualifiedScreenerPassesSinceLastStateAdvance'' = Inr n"
    and "opt_big c' ''qualifiedScreenerPassesSinceLastStateAdvance'' = Inr n'" and "n \<le> n'"
  shows "computeCoreTexWorkUnitsBps 1 c (Some p) = Inr 10000 \<and>
    (\<exists>b b'. computeCoreTexWorkUnitsBps 2 c (Some p) = Inr b \<and> computeCoreTexWorkUnitsBps 2 c' (Some p) = Inr b' \<and>
      30000 \<le> b \<and> b \<le> b' \<and> b = snd (last (filter (\<lambda>t. fst t \<le> n) (tiers_of p))))"
proof -
  let ?b = "snd (hd (tiers_of p))"
  note t = policy_ok_tiers [OF assms(1)] tiers_start [OF assms(1)]
  have 1: "computeCoreTexWorkUnitsBps 1 c (Some p) = Inr 10000"
    using policy_ok_facts(1) [OF assms(1)] policy_ok_screener [OF assms(1)] assms(1)
    by (simp add: computeCoreTexWorkUnitsBps_def policy_ok_def)
  have "0 \<le> n" using opt_big_oval [OF assms(2)] by simp
  then have "filter (\<lambda>t. fst t \<le> n) (tiers_of p) \<noteq> []"
    using t(2) policy_ok_facts(10) [OF assms(1)] by (cases "tiers_of p") auto
  then show ?thesis
    using 1 work_units_advance [OF assms(1,2)] work_units_advance [OF assms(1,3)]
      tier_bps_mono [OF t(1,5) assms(4)] t(6) tier_bps_last [of n ?b "tiers_of p"] by (auto simp: Let_def)
qed

theorem work_units_by_tier_witness:
  "\<exists>b b'. computeCoreTexWorkUnitsBps 2 (Some (Big 30)) (Some DEFAULT_CORETEX_WORK_POLICY) = Inr b \<and>
    computeCoreTexWorkUnitsBps 2 (Some (Str ''100'')) (Some DEFAULT_CORETEX_WORK_POLICY) = Inr b' \<and> 30000 \<le> b \<and> b \<le> b'"
proof -
  have "opt_big (Some (Big 30)) l = Inr 30" "opt_big (Some (Str ''100'')) l = Inr 100" for l
    by (simp_all add: opt_big_def toBigInt_def decimal_pattern_def decimal_value_def is_digit_def)
  from work_units_by_tier [OF DEFAULT_policy_ok this] show ?thesis by auto
qed

section \<open>The threshold in closed form\<close>

text \<open>The quantities of the computation, over the values of accepted arguments.\<close>

definition floor_delta :: "coretex_work_policy \<Rightarrow> threshold_input \<Rightarrow> int" where
  "floor_delta p i =
     (let sat = oval (th_stateAdvanceThresholdPpm i); bps = oval (ca_stateAdvanceThresholdFloorBps (cal p))
      in if sat > 0 \<and> bps > 0 then (sat * bps + 9999) div 10000 else 0)"

definition headroom_delta :: "coretex_work_policy \<Rightarrow> threshold_input \<Rightarrow> int" where
  "headroom_delta p i = ((1000000 - clamp (oval (th_baselineScorePpm i)) 0 1000000) * nval (ca_remainingHeadroomBps (cal p))) div 10000"

definition noise_delta :: "coretex_work_policy \<Rightarrow> threshold_input \<Rightarrow> int" where
  "noise_delta p i = (oval (th_recentNoiseFloorPpm i) * nval (ca_noiseFloorMultiplierBps (cal p))) div 10000"

definition easing_bps :: "coretex_work_policy \<Rightarrow> threshold_input \<Rightarrow> int" where
  "easing_bps p i =
     (let target = oval (th_targetStateAdvances i); mx = nval (ca_plateauEasingMaxBps (cal p));
          gap = target - min (oval (th_recentStateAdvances i)) target
      in min mx ((mx * min (oval (th_recentScreenerPasses i)) gap) div target))"

definition adjusted_headroom :: "coretex_work_policy \<Rightarrow> threshold_input \<Rightarrow> int" where
  "adjusted_headroom p i = (if oval (th_targetStateAdvances i) > 0
     then (headroom_delta p i * (10000 - easing_bps p i)) div 10000 else headroom_delta p i)"

definition penalty_bps :: "coretex_work_policy \<Rightarrow> threshold_input \<Rightarrow> int" where
  "penalty_bps p i = min (nval (ca_maxAntiGamingPenaltyBps (cal p)))
     ((clamp (oval (th_recentProbePassRatePpm i)) 0 1000000 * nval (ca_antiGamingProbeMultiplierBps (cal p))) div 1000000)"

definition raw_threshold :: "coretex_work_policy \<Rightarrow> threshold_input \<Rightarrow> int" where
  "raw_threshold p i = max (max (nval (ca_minDeltaPpm (cal p))) (floor_delta p i)) (max (adjusted_headroom p i) (noise_delta p i))"

definition ceiling_ppm :: "coretex_work_policy \<Rightarrow> threshold_input \<Rightarrow> int" where
  "ceiling_ppm p i = (let sat = oval (th_stateAdvanceThresholdPpm i); mx = nval (ca_maxThresholdPpm (cal p))
     in if sat > 0 then min mx sat else mx)"

definition threshold_value :: "coretex_work_policy \<Rightarrow> threshold_input \<Rightarrow> int" where
  "threshold_value p i = min ((raw_threshold p i * (10000 + penalty_bps p i)) div 10000) (ceiling_ppm p i)"

lemmas threshold_parts = floor_delta_def headroom_delta_def noise_delta_def easing_bps_def adjusted_headroom_def
  penalty_bps_def raw_threshold_def ceiling_ppm_def threshold_value_def

text \<open>Elimination rules that walk down the binds of a computation that returned.\<close>

lemma peel:
  "bind_res (toBigInt v l) f = Inr z \<Longrightarrow> (0 \<le> nval v \<Longrightarrow> f (nval v) = Inr z \<Longrightarrow> R) \<Longrightarrow> R"
  "bind_res (opt_big x l) f = Inr z \<Longrightarrow> (0 \<le> oval x \<Longrightarrow> f (oval x) = Inr z \<Longrightarrow> R) \<Longrightarrow> R"
  "bind_res (guard_res (\<not> (c \<and> n \<le> (0 :: int))) e) g = Inr z \<Longrightarrow> ((c \<longrightarrow> 0 < n) \<Longrightarrow> g () = Inr z \<Longrightarrow> R) \<Longrightarrow> R"
  "bind_res (guard_res b e) g = Inr z \<Longrightarrow> (b \<Longrightarrow> g () = Inr z \<Longrightarrow> R) \<Longrightarrow> R"
  "bind_res (if c then ceilDiv a 10000 else Inr d) f = Inr z \<Longrightarrow>
     (f (if c then (a + 9999) div 10000 else d) = Inr z \<Longrightarrow> R) \<Longrightarrow> R"
  "bind_res (if c then bind_res (opt_big x l) (\<lambda>u. bind_res (opt_big y m) (\<lambda>v. Inr (h u v))) else Inr d) f = Inr z \<Longrightarrow>
     (f (if c then h (oval x) (oval y) else d) = Inr z \<Longrightarrow> R) \<Longrightarrow> R"
  by (auto simp: bind_res_eq_Inr ceilDiv_def add.commute dest!: toBigInt_nval opt_big_oval split: if_splits)

text \<open>A computed threshold is the closed form, whose parts are not negative.\<close>

lemma threshold_computed:
  assumes "computeCoreTexScreenerThresholdPpm i = Inr t" and "th_policy i = Some p"
  shows "policy_ok p" and "t = threshold_value p i"
    and "0 \<le> nval (ca_maxAntiGamingPenaltyBps (cal p)) \<and> 0 \<le> nval (ca_antiGamingProbeMultiplierBps (cal p))"
    and "0 \<le> oval (th_stateAdvanceThresholdPpm i)"
    and "oval (ca_stateAdvanceThresholdFloorBps (cal p)) > 0 \<Longrightarrow> oval (th_stateAdvanceThresholdPpm i) > 0"
proof -
  have "\<exists>u. assertValidCoreTexWorkPolicy p = Inr u"
    using assms(1) unfolding computeCoreTexScreenerThresholdPpm_def Let_def assms(2) option.case bind_res_eq_Inr
    by blast
  then have ok: "policy_ok p" by (simp add: policy_ok_def)
  note f = policy_ok_facts [OF ok]
  have c: "assertValidCoreTexWorkPolicy p = Inr ()" using ok by (simp add: policy_ok_def)
  have all: "t = threshold_value p i \<and>
    (0 \<le> nval (ca_maxAntiGamingPenaltyBps (cal p)) \<and> 0 \<le> nval (ca_antiGamingProbeMultiplierBps (cal p))) \<and>
    0 \<le> oval (th_stateAdvanceThresholdPpm i) \<and>
    (oval (ca_stateAdvanceThresholdFloorBps (cal p)) > 0 \<longrightarrow> oval (th_stateAdvanceThresholdPpm i) > 0)"
    using assms(1)
    unfolding computeCoreTexScreenerThresholdPpm_def assms(2) Let_def option.case c bind_res_simps
      WORK_BPS_DIVISOR_def cal_def [symmetric]
    apply -
    apply (erule peel)+
    apply (simp (no_asm_use) only: f(3) sum.inject)
    apply (unfold threshold_parts Let_def)
    apply (intro conjI impI)
        apply (erule sym)
       apply assumption+
    apply (erule mp, assumption)
    done
  from ok all show "policy_ok p" and "t = threshold_value p i"
    and "0 \<le> nval (ca_maxAntiGamingPenaltyBps (cal p)) \<and> 0 \<le> nval (ca_antiGamingProbeMultiplierBps (cal p))"
    and "0 \<le> oval (th_stateAdvanceThresholdPpm i)"
    and "oval (ca_stateAdvanceThresholdFloorBps (cal p)) > 0 \<Longrightarrow> oval (th_stateAdvanceThresholdPpm i) > 0"
    by auto
qed

section \<open>Bounds of the threshold\<close>

lemma le_scaled: "0 \<le> r \<Longrightarrow> 0 \<le> k \<Longrightarrow> r \<le> (r * (10000 + k)) div (10000 :: int)"
proof -
  assume "0 \<le> r" "0 \<le> k"
  then have "r * 10000 \<le> r * (10000 + k)" by (intro mult_left_mono) simp_all
  then have "(r * 10000) div 10000 \<le> (r * (10000 + k)) div 10000" by (rule zdiv_mono1) simp
  then show ?thesis by simp
qed

lemma penalty_nonneg:
  assumes "0 \<le> nval (ca_maxAntiGamingPenaltyBps (cal p)) \<and> 0 \<le> nval (ca_antiGamingProbeMultiplierBps (cal p))"
  shows "0 \<le> penalty_bps p i"
  using assms by (auto simp: penalty_bps_def clamp_def intro!: mult_nonneg_nonneg div_int_pos_iff [THEN iffD2])

lemma threshold_positive:
  assumes "computeCoreTexScreenerThresholdPpm i = Inr t" and "th_policy i = Some p"
  shows "0 < t"
proof -
  note f = threshold_computed [OF assms]
  note ok = policy_ok_facts(4,5) [OF f(1)]
  have "nval (ca_minDeltaPpm (cal p)) \<le> raw_threshold p i" by (simp add: raw_threshold_def)
  then have "0 < (raw_threshold p i * (10000 + penalty_bps p i)) div 10000"
    using le_scaled [OF _ penalty_nonneg [OF f(3), of i], of "raw_threshold p i"] ok(1) by linarith
  moreover have "0 < ceiling_ppm p i" using ok by (auto simp: ceiling_ppm_def Let_def)
  ultimately show ?thesis using f(2) by (simp add: threshold_value_def)
qed

lemma floor_covers: "0 < s \<Longrightarrow> 0 < b \<Longrightarrow> s * b \<le> 10000 * ((s * b + 9999) div (10000 :: int))"
  by linarith

text \<open>
  Fact: bounds of the screener threshold.  Whatever the inputs and the valid policy, a computed
  threshold is positive and at most the policy's maximum and the state-advance threshold, if
  there is one; below those two it is at least the minimum delta and at least the configured
  share of the state-advance threshold.
\<close>

theorem screener_threshold_bounds:
  assumes "computeCoreTexScreenerThresholdPpm i = Inr t" and "th_policy i = Some p"
  defines "sat \<equiv> oval (th_stateAdvanceThresholdPpm i)" and "mx \<equiv> nval (ca_maxThresholdPpm (cal p))"
  shows "0 < t \<and> t \<le> mx \<and> (if 0 < sat then t \<le> sat else True) \<and>
    (t = mx \<or> t = sat \<or>
     nval (ca_minDeltaPpm (cal p)) \<le> t \<and> sat * oval (ca_stateAdvanceThresholdFloorBps (cal p)) \<le> 10000 * t)"
proof -
  note f = threshold_computed [OF assms(1,2)]
  note ok = policy_ok_facts [OF f(1)]
  let ?r = "raw_threshold p i"
  let ?pt = "(?r * (10000 + penalty_bps p i)) div 10000"
  have t: "t = min ?pt (ceiling_ppm p i)" using f(2) by (simp add: threshold_value_def)
  have r: "nval (ca_minDeltaPpm (cal p)) \<le> ?r" "floor_delta p i \<le> ?r" by (simp_all add: raw_threshold_def)
  then have rp: "?r \<le> ?pt" using le_scaled penalty_nonneg [OF f(3)] ok(4) by simp
  have c: "0 < ceiling_ppm p i" "ceiling_ppm p i \<le> mx" "ceiling_ppm p i = mx \<or> ceiling_ppm p i = sat"
      "0 < sat \<Longrightarrow> ceiling_ppm p i \<le> sat"
    using ok(4,5) by (auto simp: ceiling_ppm_def Let_def sat_def mx_def)
  have fl: "sat * oval (ca_stateAdvanceThresholdFloorBps (cal p)) \<le> 10000 * floor_delta p i"
  proof (cases "0 < sat \<and> 0 < oval (ca_stateAdvanceThresholdFloorBps (cal p))")
    case True
    then show ?thesis using floor_covers by (simp add: floor_delta_def Let_def sat_def)
  next
    case False
    then have "sat * oval (ca_stateAdvanceThresholdFloorBps (cal p)) \<le> 0"
      using f(4) by (auto simp: sat_def mult_le_0_iff)
    then show ?thesis using False by (simp add: floor_delta_def Let_def sat_def)
  qed
  have "t = ceiling_ppm p i \<or> t = ?pt" using t by (simp add: min_def)
  then show ?thesis using t c r rp fl ok(4) by (auto simp: min_def)
qed

definition sample_threshold_input :: threshold_input where
  "sample_threshold_input = \<lparr> th_baselineScorePpm = Some (Big 400000), th_recentNoiseFloorPpm = None,
     th_recentScreenerPasses = None, th_recentStateAdvances = None, th_targetStateAdvances = None,
     th_recentProbePassRatePpm = Some (Str ''1000''), th_stateAdvanceThresholdPpm = Some (Big 20000),
     th_policy = Some DEFAULT_CORETEX_WORK_POLICY \<rparr>"

lemma sample_threshold:
  "computeCoreTexScreenerThresholdPpm sample_threshold_input = Inr 10020"
  by code_simp

theorem screener_threshold_bounds_witness:
  "0 < (10020 :: int) \<and> 10020 \<le> nval (ca_maxThresholdPpm (cal DEFAULT_CORETEX_WORK_POLICY))"
  using screener_threshold_bounds [OF sample_threshold, of DEFAULT_CORETEX_WORK_POLICY]
  by (simp add: sample_threshold_input_def)

section \<open>Soundness of the qualification\<close>

definition signed_val :: "numeric \<Rightarrow> int" where
  "signed_val v = (case toSignedBigInt v [] of Inl e \<Rightarrow> 0 | Inr n \<Rightarrow> n)"

lemma toSignedBigInt_val: "toSignedBigInt v l = Inr n \<Longrightarrow> n = signed_val v"
  by (auto simp: signed_val_def toSignedBigInt_def Let_def split: numeric.splits if_splits)

lemma work_units_values:
  assumes "policy_ok p" and "computeCoreTexWorkUnitsBps oc c (Some p) = Inr b"
  shows "oc = 1 \<and> b = 10000 \<or> oc = 2 \<and> 30000 \<le> b"
proof -
  note f = policy_ok_facts(1,2) [OF assms(1)] policy_ok_screener [OF assms(1)]
  have oc: "oc = 1 \<or> oc = 2"
    using assms f by (auto simp: computeCoreTexWorkUnitsBps_def policy_ok_def bind_res_eq_Inr split: if_splits)
  show ?thesis
  proof (cases "oc = 1")
    case True
    then show ?thesis using assms f by (simp add: computeCoreTexWorkUnitsBps_def policy_ok_def)
  next
    case False
    then have two: "oc = 2" using oc by simp
    then obtain n where n: "opt_big c ''qualifiedScreenerPassesSinceLastStateAdvance'' = Inr n"
      using assms f by (cases "opt_big c ''qualifiedScreenerPassesSinceLastStateAdvance''")
        (auto simp: computeCoreTexWorkUnitsBps_def policy_ok_def)
    then show ?thesis
      using work_units_advance [OF assms(1) n] assms(2) two policy_ok_tiers [OF assms(1)] tiers_start [OF assms(1)]
        tier_bps_mono [OF policy_ok_tiers(1) [OF assms(1)] tiers_start(1) [OF assms(1)] order.refl, of n] by simp
  qed
qed

lemma nval_0: "nval (Big 0) = 0"
  by (simp add: nval_def toBigInt_def)

lemma peel_more:
  "bind_res (toSignedBigInt v l) f = Inr z \<Longrightarrow> (f (signed_val v) = Inr z \<Longrightarrow> R) \<Longrightarrow> R"
  "(if c then Inr (x :: work_qualification) else y) = Inr z \<Longrightarrow>
     (\<not> c \<Longrightarrow> y = Inr z \<Longrightarrow> R) \<Longrightarrow> (x = z \<Longrightarrow> R) \<Longrightarrow> R"
  "bind_res (computeCoreTexScreenerThresholdPpm i) f = Inr z \<Longrightarrow>
     (\<And>t. computeCoreTexScreenerThresholdPpm i = Inr t \<Longrightarrow> f t = Inr z \<Longrightarrow> R) \<Longrightarrow> R"
  "bind_res (case ov of None \<Rightarrow> Inr 0 | Some v \<Rightarrow> toBigInt v l) f = Inr z \<Longrightarrow> (f (oval ov) = Inr z \<Longrightarrow> R) \<Longrightarrow> R"
  "bind_res (if c then bind_res (toBigInt u l) (\<lambda>m. Inr (h m)) else Inr w) f = Inr z \<Longrightarrow>
     (f (if c then h (nval u) else w) = Inr z \<Longrightarrow> R) \<Longrightarrow> R"
  "bind_res (if c then toBigInt u l else toBigInt v l') f = Inr z \<Longrightarrow>
     (f (if c then nval u else nval v) = Inr z \<Longrightarrow> R) \<Longrightarrow> R"
  "bind_res (case ov of None \<Rightarrow> Inr False | Some v \<Rightarrow> g v) k = Inr z \<Longrightarrow> (\<And>b. k b = Inr z \<Longrightarrow> R) \<Longrightarrow> R"
  "bind_res (computeCoreTexWorkUnitsBps oc cnt pol) f = Inr z \<Longrightarrow>
     (\<And>b. computeCoreTexWorkUnitsBps oc cnt pol = Inr b \<Longrightarrow> f b = Inr z \<Longrightarrow> R) \<Longrightarrow> R"
  by (auto simp: bind_res_eq_Inr oval_def nval_0 dest!: toBigInt_nval toSignedBigInt_val split: if_splits option.splits)

text \<open>A returned qualification is a refusal, or the record at the end, behind every check.\<close>

lemma qualification_cases:
  assumes "evaluateCoreTexWorkQualification q = Inr r" and "th_policy (qi_threshold q) = Some p"
  obtains (refused) reason n where "r = not_qualified reason n" and "reason \<noteq> OK"
  | (granted) t b where "policy_ok p" and "qi_parentMatchesLiveRoot q"
      and "computeCoreTexScreenerThresholdPpm ((qi_threshold q)\<lparr>th_policy := Some p\<rparr>) = Inr t"
      and "computeCoreTexWorkUnitsBps (qi_outcome q) (qi_qualifiedScreenerPasses q) (Some p) = Inr b"
      and "r = \<lparr> wq_qualified = True, wq_reason = OK, wq_workUnitsBps = b,
        wq_requiredDeterministicDeltaPpm = (if qi_outcome q = sa_outcome (wp_stateAdvance p)
          then max (max (nval (sa_minDeterministicDeltaPpm (wp_stateAdvance p))) t)
            (oval (th_stateAdvanceThresholdPpm (qi_threshold q))) else t) \<rparr>"
      and "wq_requiredDeterministicDeltaPpm r \<le> signed_val (qi_deterministicDeltaPpm q)"
      and "\<not> (qi_outcome q = sa_outcome (wp_stateAdvance p) \<and> sa_requireLiveStateAdvance (wp_stateAdvance p) \<and>
        qi_liveStateAdvanced q \<noteq> Some True)"
proof -
  have ok: "assertValidCoreTexWorkPolicy p = Inr ()" using assms
    by (cases "assertValidCoreTexWorkPolicy p") (auto simp: evaluateCoreTexWorkQualification_def)
  then have pok: "policy_ok p" by (simp add: policy_ok_def)
  show thesis
    using assms(1)
    unfolding evaluateCoreTexWorkQualification_def assms(2) Let_def option.case ok bind_res_simps
    apply -
    apply (erule peel peel_more)+
          apply (rule granted)
                apply (rule pok)
               apply (simp only: not_not)
              apply assumption
             apply assumption
            apply (simp only: sum.inject)
           apply (simp only: sum.inject not_less, drule sym, simp only: work_qualification.simps)
          apply assumption
         apply (rule refused, erule sym, simp)+
    done
qed

text \<open>
  C32: a receipt that qualifies was made against the live root, has a positive deterministic
  delta of at least the required one, earns exactly one unit as a screener pass and at least
  three as a state advance; a state advance is held to the state-advance threshold and, where the
  policy asks for it, to a live advance.  A receipt that does not qualify earns nothing.
\<close>

theorem work_qualification_sound:
  assumes "evaluateCoreTexWorkQualification q = Inr r" and "th_policy (qi_threshold q) = Some p"
  shows "if wq_qualified r then
      wq_reason r = OK \<and> qi_parentMatchesLiveRoot q \<and> 0 < wq_requiredDeterministicDeltaPpm r \<and>
      wq_requiredDeterministicDeltaPpm r \<le> signed_val (qi_deterministicDeltaPpm q) \<and>
      (qi_outcome q = 1 \<and> wq_workUnitsBps r = 10000 \<or>
       qi_outcome q = 2 \<and> 30000 \<le> wq_workUnitsBps r \<and>
       oval (th_stateAdvanceThresholdPpm (qi_threshold q)) \<le> wq_requiredDeterministicDeltaPpm r \<and>
       (if sa_requireLiveStateAdvance (wp_stateAdvance p) then qi_liveStateAdvanced q = Some True else True))
    else wq_reason r \<noteq> OK \<and> wq_workUnitsBps r = 0"
  using assms
proof (cases rule: qualification_cases)
  case (refused reason n)
  then show ?thesis by (simp add: not_qualified_def)
next
  case (granted t b)
  have "0 < t" using threshold_positive [OF granted(3), of p] by simp
  then show ?thesis
    using granted work_units_values [OF granted(1,4)] policy_ok_facts(1,2) [OF granted(1)] by auto
qed

definition sample_receipt :: work_qualification_input where
  "sample_receipt = \<lparr> qi_outcome = 2, qi_qualifiedScreenerPasses = Some (Big 120), qi_deterministicDeltaPpm = Big 25000,
     qi_localModelDeltaPpm = None, qi_relevantNearCollisionPpm = None, qi_parentMatchesLiveRoot = True,
     qi_liveStateAdvanced = Some True, qi_threshold = sample_threshold_input \<rparr>"

lemma sample_qualification:
  "evaluateCoreTexWorkQualification sample_receipt = Inr \<lparr> wq_qualified = True, wq_reason = OK,
     wq_workUnitsBps = 60000, wq_requiredDeterministicDeltaPpm = 20000 \<rparr>"
  by code_simp

theorem work_qualification_sound_witness:
  "30000 \<le> (60000 :: int) \<and> 20000 \<le> signed_val (qi_deterministicDeltaPpm sample_receipt) \<and>
   qi_liveStateAdvanced sample_receipt = Some True"
  using work_qualification_sound [OF sample_qualification, of DEFAULT_CORETEX_WORK_POLICY]
  by (simp add: sample_receipt_def sample_threshold_input_def)

end
