(* ===== verification/Live_Epoch.thy ===== *)
theory Live_Epoch
  imports Reducer Work_Units
begin

text \<open>
  \<open>src/reducer/live-epoch.ts\<close>: the live conveyor, which applies verified improvements in
  arrival order and keeps a Merkle cache of the running state.  The abstract view of a run, the
  history of its advances, is an inductive relation below.
\<close>

section \<open>Data\<close>

datatype live_rejection_code = Batch rejection_code | L01_NOT_IMPROVEMENT

record live_epoch_input_patch =
  li_miner :: string
  li_patch :: patch
  li_patchBytes :: bytes
  li_scoreDelta :: int
  li_marginalEvaluator :: marginal_evaluator

record state_advance =
  sv_miner :: string
  sv_patch :: patch
  sv_patchBytes :: bytes
  sv_patchHash :: string
  sv_parentStateRoot :: string
  sv_newStateRoot :: string
  sv_marginalGain :: int
  sv_workUnitsBps :: int
  sv_creditUnits :: int
  sv_advanceIndex :: nat

record live_rejected_patch =
  lr_miner :: string
  lr_patch :: patch
  lr_patchBytes :: bytes
  lr_reason :: live_rejection_code

record live_epoch_output =
  lo_newState :: cortex_state
  lo_patchSetRoot :: bytes
  lo_patchSetRootHex :: string
  lo_newStateRoot :: bytes
  lo_newStateRootHex :: string
  lo_advances :: "state_advance list"
  lo_rejected :: "live_rejected_patch list"

record live_reward_options =
  lp_qualifiedScreenerPasses :: "numeric option"
  lp_workPolicy :: "coretex_work_policy option"
  lp_policyAtomsMode :: "bool option"

section \<open>The conveyor\<close>

text \<open>This file's own \<open>toBigInt\<close>: a bigint is passed on even if it is negative.\<close>

definition counterToBigInt :: "numeric \<Rightarrow> js_error + int" where
  "counterToBigInt value = (case value of
     Big n \<Rightarrow> Inr n
   | Num q \<Rightarrow> if \<not> is_safe_integer q \<or> q < 0
       then Inl (RangeError ''reward counter must be a non-negative safe integer'') else Inr (fst (quotient_of q))
   | Non_Finite \<Rightarrow> Inl (RangeError ''reward counter must be a non-negative safe integer'')
   | Str s \<Rightarrow> if \<not> decimal_pattern s
       then Inl (RangeError ''reward counter must be a non-negative decimal string'') else Inr (decimal_value s))"

definition live_codes :: "live_rejection_code accept_step_codes" where
  "live_codes = \<lparr> ac_notImprovement = L01_NOT_IMPROVEMENT, ac_wrongParent = Batch R03_WRONG_PARENT_ROOT,
     ac_reservedBit = Batch R05_RESERVED_BIT_SET, ac_invalidTarget = Batch R04_INVALID_TARGET \<rparr>"

record live_loop =
  lv_current :: cortex_state
  lv_merkle :: merkle_cache
  lv_advances :: "state_advance list"
  lv_rejected :: "live_rejected_patch list"

definition live_reject :: "live_loop \<Rightarrow> live_epoch_input_patch \<Rightarrow> live_rejection_code \<Rightarrow> live_loop" where
  "live_reject st item reason = st\<lparr>lv_rejected := lv_rejected st @
     [\<lparr> lr_miner = li_miner item, lr_patch = li_patch item, lr_patchBytes = li_patchBytes item, lr_reason = reason \<rparr>]\<rparr>"

definition patch_updates :: "patch \<Rightarrow> merkle_word_update list" where
  "patch_updates p = map (\<lambda>i. \<lparr> upd_index = indices p ! i, upd_word = at_or 0 (newWords p) i \<rparr>) [0..<length (indices p)]"

definition live_step :: "int \<Rightarrow> live_reward_options \<Rightarrow> live_loop \<Rightarrow> live_epoch_input_patch \<Rightarrow> js_error + live_loop" where
  "live_step threshold opts st item =
     (let parentRootBytes = mc_root (lv_merkle st); parentRootHex = bytesToHex parentRootBytes in
      if parentStateRoot (li_patch item) \<noteq> parentRootBytes
      then Inr (live_reject st item (Batch R03_WRONG_PARENT_ROOT))
      else case evaluateAndApplyOntoCurrent (lv_current st) (li_patch item) (li_marginalEvaluator item)
             threshold True (lp_policyAtomsMode opts = Some True) live_codes of
        Inl reason \<Rightarrow> Inr (live_reject st item reason)
      | Inr (state, marginalGain) \<Rightarrow>
          bind_res (updateMerkleCache (lv_merkle st) (patch_updates (li_patch item))) (\<lambda>currentMerkle.
          bind_res (case lp_qualifiedScreenerPasses opts of None \<Rightarrow> Inr 0 | Some v \<Rightarrow> counterToBigInt v) (\<lambda>passes.
          bind_res (computeCoreTexWorkUnitsBps OUTCOME_CORETEX_STATE_ADVANCE
            (Some (Big (passes + int (length (lv_advances st))))) (lp_workPolicy opts)) (\<lambda>workUnitsBps.
          Inr (st\<lparr>lv_current := state, lv_merkle := currentMerkle,
            lv_advances := lv_advances st @ [\<lparr> sv_miner = toLowerCase (li_miner item), sv_patch = li_patch item,
              sv_patchBytes = li_patchBytes item, sv_patchHash = computePatchHash (li_patchBytes item),
              sv_parentStateRoot = parentRootHex, sv_newStateRoot = bytesToHex (mc_root currentMerkle),
              sv_marginalGain = marginalGain, sv_workUnitsBps = workUnitsBps, sv_creditUnits = workUnitsBps,
              sv_advanceIndex = length (lv_advances st) \<rparr>]\<rparr>)))))"

definition advanceEpochState ::
  "cortex_state \<Rightarrow> live_epoch_input_patch list \<Rightarrow> int \<Rightarrow> live_reward_options \<Rightarrow> js_error + live_epoch_output" where
  "advanceEpochState parentState patches threshold opts =
     bind_res (buildMerkleCache parentState) (\<lambda>cache.
     bind_res (fold_res (live_step threshold opts)
       \<lparr> lv_current = parentState, lv_merkle = cache, lv_advances = [], lv_rejected = [] \<rparr> patches) (\<lambda>st.
     let patchSetRoot = computePatchSetRoot (map sv_patchBytes (lv_advances st));
         newStateRoot = mc_root (lv_merkle st)
     in Inr \<lparr> lo_newState = lv_current st, lo_patchSetRoot = patchSetRoot, lo_patchSetRootHex = bytesToHex patchSetRoot,
          lo_newStateRoot = newStateRoot, lo_newStateRootHex = bytesToHex newStateRoot,
          lo_advances = lv_advances st, lo_rejected = lv_rejected st \<rparr>))"

definition makeLiveEpochInput ::
  "string \<Rightarrow> patch \<Rightarrow> bytes option \<Rightarrow> marginal_evaluator option \<Rightarrow> js_error + live_epoch_input_patch" where
  "makeLiveEpochInput miner p patchBytes evaluator =
     bind_res (case patchBytes of Some bs \<Rightarrow> Inr bs | None \<Rightarrow> encodePatch p) (\<lambda>bs.
     Inr \<lparr> li_miner = toLowerCase miner, li_patch = p, li_patchBytes = bs, li_scoreDelta = scoreDelta p,
       li_marginalEvaluator = (case evaluator of Some e \<Rightarrow> e | None \<Rightarrow> stubMarginalEvaluator) \<rparr>)"

section \<open>Histories of advances\<close>

text \<open>
  The abstract conveyor: a history starts at the parent state, and each advance names the root
  of the state it was made against, applies to that state with a gain above the threshold, and
  names the root of the result.
\<close>

inductive live_history :: "int \<Rightarrow> bool \<Rightarrow> cortex_state \<Rightarrow> state_advance list \<Rightarrow> cortex_state \<Rightarrow> bool"
  for th m s0 where
  start: "live_history th m s0 [] s0"
| advance: "live_history th m s0 as s \<Longrightarrow> merkleizeState s = Inr r \<Longrightarrow>
    parentStateRoot (sv_patch a) = r \<Longrightarrow> sv_parentStateRoot a = bytesToHex r \<Longrightarrow>
    applyPatchOntoCurrent s (sv_patch a) m = Inr t \<Longrightarrow> th < sv_marginalGain a \<Longrightarrow>
    merkleizeState t = Inr r' \<Longrightarrow> sv_newStateRoot a = bytesToHex r' \<Longrightarrow>
    sv_advanceIndex a = length as \<Longrightarrow> live_history th m s0 (as @ [a]) t"

inductive_cases live_history_snocE: "live_history th m s0 (as @ [a]) t"
inductive_cases live_history_NilE: "live_history th m s0 [] t"

section \<open>The cache follows the state\<close>

lemma patch_updates_written:
  assumes "patch_ok p"
  shows "apply_updates ws (patch_updates p) = written ws p"
proof -
  have l: "length (indices p) = nat (wordCount p)" by (rule patch_len [OF assms])
  have "foldl (\<lambda>ws i. ws[nat (indices p ! i) := at_or 0 (newWords p) i]) ws xs = foldl (write_one p) ws xs"
    if "set xs \<subseteq> {..<length (indices p)}" for xs
    using that by (induction xs arbitrary: ws) (simp_all add: write_one_def elem_at_def)
  then show ?thesis
    by (simp add: apply_updates_def patch_updates_def written_def foldl_map l [symmetric] lessThan_atLeast0)
qed

lemma patch_updates_range:
  assumes "patch_ok p"
  shows "list_all in_range (patch_updates p)"
  using write_target_nth(2,3) [OF assms] by (fastforce simp: patch_updates_def list_all_iff in_range_def)

lemma cache_after_patch:
  assumes "wf_state s" and "patch_ok p" and "applyPatchOntoCurrent s p m = Inr t"
  shows "updateMerkleCache (tree_of (words s)) (patch_updates p) = Inr (tree_of (words t))" and "wf_state t"
proof -
  have l: "length (words s) = 1024" using assms(1) by (rule wf_state_length)
  have "words t = written (words s) p" using apply_Inr(1) [OF l assms(3)] by (simp add: patched_def)
  then show "updateMerkleCache (tree_of (words s)) (patch_updates p) = Inr (tree_of (words t))"
    using updateMerkleCache_tree [OF l patch_updates_range [OF assms(2)]] patch_updates_written [OF assms(2)] by simp
  show "wf_state t" by (rule patched_wf [OF assms(1) patch_ok_words [OF assms(2)] assms(3)])
qed

lemma merkleizeState_tree_of: "wf_state s \<Longrightarrow> merkleizeState s = Inr (mc_root (tree_of (words s)))"
  by (simp add: merkleizeState_def buildMerkleCache_tree wf_state_length)

text \<open>The invariant of the loop: the cache is the tree of the state, and the advances so far are
  a history that ends in it.\<close>

definition live_inv :: "int \<Rightarrow> live_reward_options \<Rightarrow> cortex_state \<Rightarrow> live_loop \<Rightarrow> bool" where
  "live_inv th opts s0 st \<longleftrightarrow> wf_state (lv_current st) \<and> lv_merkle st = tree_of (words (lv_current st)) \<and>
     live_history th (lp_policyAtomsMode opts = Some True) s0 (lv_advances st) (lv_current st)"

lemma live_inv_reject: "live_inv th opts s0 (live_reject st item r) = live_inv th opts s0 st"
  by (simp add: live_inv_def live_reject_def)

lemma live_step_inv:
  assumes "live_inv th opts s0 st" and "patch_ok (li_patch item)" and "live_step th opts st item = Inr st'"
  shows "live_inv th opts s0 st'"
proof (cases "parentStateRoot (li_patch item) \<noteq> mc_root (lv_merkle st)")
  case True
  then show ?thesis using assms by (auto simp: live_step_def live_inv_reject)
next
  case root: False
  let ?m = "lp_policyAtomsMode opts = Some True"
  show ?thesis
  proof (cases "evaluateAndApplyOntoCurrent (lv_current st) (li_patch item) (li_marginalEvaluator item) th True ?m live_codes")
    case (Inl r)
    then show ?thesis using assms root by (auto simp: live_step_def live_inv_reject)
  next
    case (Inr x)
    obtain t g where x: "x = (t, g)" by force
    note a = Inr [unfolded x accept_Inr]
    have wf: "wf_state (lv_current st)" and tr: "lv_merkle st = tree_of (words (lv_current st))"
      and h: "live_history th ?m s0 (lv_advances st) (lv_current st)"
      using assms(1) by (simp_all add: live_inv_def)
    note c = cache_after_patch [OF wf assms(2), of ?m t]
    have up: "updateMerkleCache (lv_merkle st) (patch_updates (li_patch item)) = Inr (tree_of (words t))"
      using a c(1) tr by simp
    obtain adv where st': "lv_current st' = t" "lv_merkle st' = tree_of (words t)" "lv_advances st' = lv_advances st @ [adv]"
      "sv_patch adv = li_patch item" "sv_parentStateRoot adv = bytesToHex (mc_root (lv_merkle st))"
      "sv_newStateRoot adv = bytesToHex (mc_root (tree_of (words t)))" "sv_marginalGain adv = g"
      "sv_advanceIndex adv = length (lv_advances st)"
      using assms(3) root Inr x up by (auto simp: live_step_def bind_res_eq_Inr Let_def)
    have "live_history th ?m s0 (lv_advances st @ [adv]) t"
      by (rule live_history.advance [OF h merkleizeState_tree_of [OF wf]])
        (use st' a root tr c(2) merkleizeState_tree_of in auto)
    then show ?thesis using st' a c(2) by (simp add: live_inv_def)
  qed
qed

definition live_inputs_ok :: "live_epoch_input_patch list \<Rightarrow> bool" where
  "live_inputs_ok items \<longleftrightarrow> list_all (\<lambda>i. patch_ok (li_patch i)) items"

definition live_start :: "cortex_state \<Rightarrow> live_loop" where
  "live_start s = \<lparr> lv_current = s, lv_merkle = tree_of (words s), lv_advances = [], lv_rejected = [] \<rparr>"

lemma live_start_inv: "wf_state s \<Longrightarrow> live_inv th opts s (live_start s)"
  by (simp add: live_inv_def live_start_def live_history.start)

lemma live_run_inv:
  assumes "fold_res (live_step th opts) st items = Inr st'" and "live_inv th opts s0 st" and "live_inputs_ok items"
  shows "live_inv th opts s0 st'"
  using assms(1,2)
  by (rule fold_res_invariant) (use assms(3) live_step_inv in \<open>auto simp: live_inputs_ok_def list_all_iff\<close>)

lemma advance_eq:
  "wf_state s \<Longrightarrow> advanceEpochState s items th opts = bind_res (fold_res (live_step th opts) (live_start s) items) (\<lambda>st.
     let setRoot = computePatchSetRoot (map sv_patchBytes (lv_advances st)); newRoot = mc_root (lv_merkle st)
     in Inr \<lparr> lo_newState = lv_current st, lo_patchSetRoot = setRoot, lo_patchSetRootHex = bytesToHex setRoot,
          lo_newStateRoot = newRoot, lo_newStateRootHex = bytesToHex newRoot,
          lo_advances = lv_advances st, lo_rejected = lv_rejected st \<rparr>)"
  by (simp add: advanceEpochState_def live_start_def buildMerkleCache_tree wf_state_length)

lemma advance_Inr:
  assumes "wf_state s" and "live_inputs_ok items" and "advanceEpochState s items th opts = Inr out"
  shows "live_history th (lp_policyAtomsMode opts = Some True) s (lo_advances out) (lo_newState out)"
    and "wf_state (lo_newState out)" and "merkleizeState (lo_newState out) = Inr (lo_newStateRoot out)"
    and "lo_newStateRootHex out = bytesToHex (lo_newStateRoot out)"
proof -
  obtain st where run: "fold_res (live_step th opts) (live_start s) items = Inr st"
    and out: "lo_newState out = lv_current st" "lo_newStateRoot out = mc_root (lv_merkle st)"
      "lo_newStateRootHex out = bytesToHex (lo_newStateRoot out)" "lo_advances out = lv_advances st"
    using assms(3) by (auto simp: advance_eq [OF assms(1)] bind_res_eq_Inr Let_def)
  have inv: "live_inv th opts s st" by (rule live_run_inv [OF run live_start_inv [OF assms(1)] assms(2)])
  then show "live_history th (lp_policyAtomsMode opts = Some True) s (lo_advances out) (lo_newState out)"
    "wf_state (lo_newState out)" "merkleizeState (lo_newState out) = Inr (lo_newStateRoot out)"
    using merkleizeState_tree_of by (simp_all add: live_inv_def out)
  show "lo_newStateRootHex out = bytesToHex (lo_newStateRoot out)" by (rule out(3))
qed

section \<open>Facts of a history\<close>

lemma history_chain:
  "live_history th m s0 as t \<Longrightarrow> merkleizeState s0 = Inr r0 \<Longrightarrow>
   \<exists>r. merkleizeState t = Inr r \<and> map sv_parentStateRoot as @ [bytesToHex r] = bytesToHex r0 # map sv_newStateRoot as"
proof (induction rule: live_history.induct)
  case (advance as s r a t r')
  then show ?case by auto
qed simp

lemma history_applied:
  "live_history th m s0 as t \<Longrightarrow>
   fold_res (\<lambda>s p. applyPatchOntoCurrent s p m) s0 (map sv_patch as) = Inr t \<and>
   list_all (\<lambda>a. th < sv_marginalGain a) as \<and> map sv_advanceIndex as = [0..<length as]"
  by (induction rule: live_history.induct) (auto simp: fold_res_append)

text \<open>
  C3: the live conveyor implements the history relation.  From a well-formed parent state and
  valid patches, whatever is returned is a history: every advance applies to the state whose
  root it names, with a gain strictly above the threshold, and the cached root of the output is
  the Merkle root of the output state.
\<close>

theorem live_epoch_refines_history:
  assumes "wf_state s" and "live_inputs_ok items" and "advanceEpochState s items th opts = Inr out"
  shows "live_history th (lp_policyAtomsMode opts = Some True) s (lo_advances out) (lo_newState out) \<and>
    wf_state (lo_newState out) \<and> merkleizeState (lo_newState out) = Inr (lo_newStateRoot out) \<and>
    fold_res (\<lambda>s p. applyPatchOntoCurrent s p (lp_policyAtomsMode opts = Some True)) s (map sv_patch (lo_advances out)) =
      Inr (lo_newState out)"
  using advance_Inr [OF assms] history_applied by blast

text \<open>
  Fact: the roots of the advances form an unbroken chain.  The first advance names the parent
  state's root, each later one the root its predecessor produced, and the last root produced is
  the new state root of the output; the advances are numbered in order and each gain exceeds
  the threshold.
\<close>

theorem live_epoch_root_chain:
  assumes "wf_state s" and "live_inputs_ok items" and "advanceEpochState s items th opts = Inr out"
    and "merkleizeState s = Inr r0"
  shows "map sv_parentStateRoot (lo_advances out) @ [lo_newStateRootHex out] =
      bytesToHex r0 # map sv_newStateRoot (lo_advances out) \<and>
    list_all (\<lambda>a. th < sv_marginalGain a) (lo_advances out) \<and>
    map sv_advanceIndex (lo_advances out) = [0..<length (lo_advances out)]"
proof -
  note a = advance_Inr [OF assms(1-3)]
  show ?thesis using history_chain [OF a(1) assms(4)] history_applied [OF a(1)] a(3,4) by auto
qed

section \<open>Rewards\<close>

definition live_policy :: "live_reward_options \<Rightarrow> coretex_work_policy" where
  "live_policy opts = (case lp_workPolicy opts of None \<Rightarrow> DEFAULT_CORETEX_WORK_POLICY | Some p \<Rightarrow> p)"

definition live_passes :: "live_reward_options \<Rightarrow> js_error + int" where
  "live_passes opts = (case lp_qualifiedScreenerPasses opts of None \<Rightarrow> Inr 0 | Some v \<Rightarrow> counterToBigInt v)"

definition live_bps :: "live_reward_options \<Rightarrow> int \<Rightarrow> int" where
  "live_bps opts n = tier_bps n (snd (hd (tiers_of (live_policy opts)))) (tiers_of (live_policy opts))"

lemma live_work_units:
  assumes "policy_ok (live_policy opts)" and "0 \<le> n"
  shows "computeCoreTexWorkUnitsBps OUTCOME_CORETEX_STATE_ADVANCE (Some (Big n)) (lp_workPolicy opts) = Inr (live_bps opts n)"
proof -
  have "opt_big (Some (Big n)) l = Inr n" for l using assms(2) by (simp add: opt_big_def toBigInt_def)
  from work_units_advance [OF assms(1) this] show ?thesis
    by (cases "lp_workPolicy opts")
      (simp_all add: live_policy_def live_bps_def computeCoreTexWorkUnitsBps_def OUTCOME_CORETEX_STATE_ADVANCE_def)
qed

lemma live_bps_mono:
  assumes "policy_ok (live_policy opts)" and "n \<le> n'"
  shows "live_bps opts n \<le> live_bps opts n' \<and> 30000 \<le> live_bps opts n"
  using tier_bps_mono [OF policy_ok_tiers(1) [OF assms(1)] tiers_start(1) [OF assms(1)] assms(2)] tiers_start(2) [OF assms(1)]
  by (auto simp: live_bps_def)

definition paid_by_tier :: "live_reward_options \<Rightarrow> int \<Rightarrow> live_loop \<Rightarrow> bool" where
  "paid_by_tier opts n st \<longleftrightarrow> map sv_workUnitsBps (lv_advances st) =
     map (\<lambda>k. live_bps opts (n + int k)) [0..<length (lv_advances st)]"

lemma live_step_total:
  assumes "live_inv th opts s0 st" and "patch_ok (li_patch item)" and "policy_ok (live_policy opts)"
    and "live_passes opts = Inr n" and "0 \<le> n" and "paid_by_tier opts n st"
  shows "\<exists>st'. live_step th opts st item = Inr st' \<and> paid_by_tier opts n st'"
proof (cases "parentStateRoot (li_patch item) \<noteq> mc_root (lv_merkle st)")
  case True
  then show ?thesis using assms(6) by (auto simp: live_step_def live_reject_def paid_by_tier_def)
next
  case root: False
  let ?m = "lp_policyAtomsMode opts = Some True"
  show ?thesis
  proof (cases "evaluateAndApplyOntoCurrent (lv_current st) (li_patch item) (li_marginalEvaluator item) th True ?m live_codes")
    case (Inl r)
    then show ?thesis using assms(6) root by (auto simp: live_step_def live_reject_def paid_by_tier_def)
  next
    case (Inr x)
    obtain t g where x: "x = (t, g)" by force
    note a = Inr [unfolded x accept_Inr]
    have "updateMerkleCache (lv_merkle st) (patch_updates (li_patch item)) = Inr (tree_of (words t))"
      using cache_after_patch(1) [of "lv_current st" "li_patch item" ?m t] assms(1,2) a by (simp add: live_inv_def)
    moreover have "computeCoreTexWorkUnitsBps OUTCOME_CORETEX_STATE_ADVANCE (Some (Big (n + int (length (lv_advances st)))))
        (lp_workPolicy opts) = Inr (live_bps opts (n + int (length (lv_advances st))))"
      using live_work_units [OF assms(3)] assms(5) by simp
    ultimately show ?thesis
      using assms(4,6) root Inr x by (simp add: live_step_def live_passes_def paid_by_tier_def Let_def)
  qed
qed

lemma live_run_total:
  assumes "live_inv th opts s0 st" and "live_inputs_ok items" and "policy_ok (live_policy opts)"
    and "live_passes opts = Inr n" and "0 \<le> n" and "paid_by_tier opts n st"
  shows "\<exists>st'. fold_res (live_step th opts) st items = Inr st' \<and> paid_by_tier opts n st'"
  using assms(1,2,6)
proof (induction items arbitrary: st)
  case (Cons item items)
  have ok: "patch_ok (li_patch item)" "live_inputs_ok items" using Cons.prems(2) by (simp_all add: live_inputs_ok_def)
  obtain st' where st': "live_step th opts st item = Inr st'" "paid_by_tier opts n st'"
    using live_step_total [OF Cons.prems(1) ok(1) assms(3-5) Cons.prems(3)] by blast
  then show ?case using Cons.IH [OF live_step_inv [OF Cons.prems(1) ok(1) st'(1)] ok(2) st'(2)] by simp
qed simp

lemma advance_total:
  assumes "wf_state s" and "live_inputs_ok items" and "policy_ok (live_policy opts)" and "live_passes opts = Inr n" and "0 \<le> n"
  shows "\<exists>out. advanceEpochState s items th opts = Inr out \<and>
    map sv_workUnitsBps (lo_advances out) = map (\<lambda>k. live_bps opts (n + int k)) [0..<length (lo_advances out)]"
proof -
  have "paid_by_tier opts n (live_start s)" by (simp add: paid_by_tier_def live_start_def)
  with live_run_total [OF live_start_inv [OF assms(1)] assms(2-5)]
  obtain st where "fold_res (live_step th opts) (live_start s) items = Inr st" "paid_by_tier opts n st" by blast
  then show ?thesis by (simp add: advance_eq [OF assms(1)] paid_by_tier_def Let_def)
qed

text \<open>
  C31: the live conveyor always returns, given a valid work policy and a non-negative counter,
  and it pays the k-th advance the tier of the counter plus k: at least three units, and never
  less than the advance before.
\<close>

theorem live_epoch_rewards:
  assumes "wf_state s" and "live_inputs_ok items" and "policy_ok (live_policy opts)" and "live_passes opts = Inr n" and "0 \<le> n"
  shows "\<exists>out. advanceEpochState s items th opts = Inr out \<and>
    map sv_workUnitsBps (lo_advances out) = map (\<lambda>k. live_bps opts (n + int k)) [0..<length (lo_advances out)] \<and>
    sorted (map sv_workUnitsBps (lo_advances out)) \<and> list_all (\<lambda>a. 30000 \<le> sv_workUnitsBps a) (lo_advances out)"
proof -
  obtain out where out: "advanceEpochState s items th opts = Inr out"
    "map sv_workUnitsBps (lo_advances out) = map (\<lambda>k. live_bps opts (n + int k)) [0..<length (lo_advances out)]"
    using advance_total [OF assms] by blast
  have "sorted (map sv_workUnitsBps (lo_advances out))"
    unfolding out(2) using live_bps_mono [OF assms(3)] by (intro sorted_iff_nth_mono [THEN iffD2]) simp
  moreover have "list_all (\<lambda>b. 30000 \<le> b) (map sv_workUnitsBps (lo_advances out))"
    unfolding out(2) using live_bps_mono [OF assms(3) order.refl] by (simp add: list_all_iff)
  then have "list_all (\<lambda>a. 30000 \<le> sv_workUnitsBps a) (lo_advances out)" by (simp add: list.pred_map comp_def)
  ultimately show ?thesis using out by blast
qed

section \<open>A sample conveyor\<close>

definition sample_live_input :: live_epoch_input_patch where
  "sample_live_input = \<lparr> li_miner = ''0xAb'', li_patch = sample_patch\<lparr>parentStateRoot := zero_root\<rparr>,
     li_patchBytes = [1, 2], li_scoreDelta = 1000, li_marginalEvaluator = stubMarginalEvaluator \<rparr>"

definition default_options :: live_reward_options where
  "default_options = \<lparr> lp_qualifiedScreenerPasses = None, lp_workPolicy = None, lp_policyAtomsMode = None \<rparr>"

lemma sample_live_ok: "live_inputs_ok [sample_live_input]"
proof -
  have "length zero_root = 32" by (simp add: zero_root_def length_node)
  then show ?thesis using sample_patch_ok by (simp add: live_inputs_ok_def sample_live_input_def patch_ok_def)
qed

lemma default_options_ok: "policy_ok (live_policy default_options)" "live_passes default_options = Inr 0"
  using DEFAULT_policy_ok by (simp_all add: live_policy_def live_passes_def default_options_def)

lemma sample_live_run: "\<exists>out. advanceEpochState zero_state [sample_live_input] 0 default_options = Inr out"
  using advance_total [OF wf_zero_state sample_live_ok default_options_ok] by blast

theorem live_epoch_rewards_witness:
  "\<exists>out. advanceEpochState zero_state [sample_live_input] 0 default_options = Inr out \<and>
    list_all (\<lambda>a. 30000 \<le> sv_workUnitsBps a) (lo_advances out)"
  using live_epoch_rewards [OF wf_zero_state sample_live_ok default_options_ok, of 0] by auto

theorem live_epoch_refines_history_witness:
  "\<exists>out. advanceEpochState zero_state [sample_live_input] 0 default_options = Inr out \<and>
    live_history 0 False zero_state (lo_advances out) (lo_newState out)"
proof -
  obtain out where out: "advanceEpochState zero_state [sample_live_input] 0 default_options = Inr out"
    using sample_live_run by blast
  then show ?thesis using live_epoch_refines_history [OF wf_zero_state sample_live_ok out] by (auto simp: default_options_def)
qed

theorem live_epoch_root_chain_witness:
  "\<exists>out. advanceEpochState zero_state [sample_live_input] 0 default_options = Inr out \<and>
    map sv_parentStateRoot (lo_advances out) @ [lo_newStateRootHex out] =
      bytesToHex zero_root # map sv_newStateRoot (lo_advances out)"
proof -
  obtain out where out: "advanceEpochState zero_state [sample_live_input] 0 default_options = Inr out"
    using sample_live_run by blast
  then show ?thesis using live_epoch_root_chain [OF wf_zero_state sample_live_ok out zero_root] by auto
qed

text \<open>
  Fact: the state takes the words up to \<open>wordCount\<close>, the cache takes every index.  A patch object
  with one declared word and two listed ones changes one word of the state, while the cached
  root is that of a state with both words changed.
\<close>

definition overlong_input :: live_epoch_input_patch where
  "overlong_input = sample_live_input\<lparr>li_patch := (li_patch sample_live_input)\<lparr>wordCount := 1, scoreDelta := 9\<rparr>\<rparr>"

theorem live_cache_ignores_word_count:
  "\<exists>st. live_step 0 default_options (live_start zero_state) overlong_input = Inr st \<and>
    lv_current st = \<lparr> words = (replicate 1024 0)[40 := 5] \<rparr> \<and>
    lv_merkle st = tree_of ((replicate 1024 0)[40 := 5, 200 := 6])"
proof -
  let ?p = "li_patch overlong_input"
  have p: "patchType ?p = 2" "wordCount ?p = 1" "indices ?p = [40, 200]" "newWords ?p = [5, 6]" "scoreDelta ?p = 9"
    "parentStateRoot ?p = zero_root"
    by (simp_all add: overlong_input_def sample_live_input_def sample_patch_def)
  have v: "validatePatchType (patchType ?p) (indices ?p) = None"
    using sample_patch_ok by (simp add: p) (simp add: patch_ok_def sample_patch_def)
  have z: "length (words zero_state) = 1024" by (rule wf_state_length [OF wf_zero_state])
  have w: "write_words zero_state ?p = Inr ((replicate 1024 0)[40 := 5])"
    using write_words_ok [OF v z] by (simp add: written_def p write_one_def elem_at_def zero_state_def)
  have "\<not> hasNonZeroReservedBits \<lparr> words = (replicate 1024 0)[40 := 5] \<rparr>"
    by (subst hasNonZeroReservedBits_iff)
      (auto simp: reserved_clear_def nth_list_update reservedMask_def RANGES memoryIndexSlotReservedMask_def)
  then have a: "applyPatchOntoCurrent zero_state ?p False = Inr \<lparr> words = (replicate 1024 0)[40 := 5] \<rparr>"
    by (simp add: applyPatchOntoCurrent_def p v [unfolded p] w check_result_def anyChange_def elem_at_def word_at_def)
      (simp add: zero_state_def)
  have u: "patch_updates ?p = [\<lparr> upd_index = 40, upd_word = 5 \<rparr>, \<lparr> upd_index = 200, upd_word = 6 \<rparr>]"
    by (simp add: patch_updates_def p upt_rec)
  have c: "updateMerkleCache (tree_of (words zero_state)) (patch_updates ?p) = Inr (tree_of ((replicate 1024 0)[40 := 5, 200 := 6]))"
    using updateMerkleCache_tree [OF z, of "patch_updates ?p"] by (simp add: u in_range_def apply_updates_def zero_state_def)
  have r: "zero_root = mc_root (tree_of (words zero_state))"
    using zero_root merkleizeState_tree_of [OF wf_zero_state] by simp
  have e: "li_marginalEvaluator overlong_input = stubMarginalEvaluator"
    by (simp add: overlong_input_def sample_live_input_def)
  show ?thesis
    using live_work_units [OF default_options_ok(1), of 0]
    by (simp add: live_step_def live_start_def p r [symmetric] evaluateAndApplyOntoCurrent_def e stubMarginalEvaluator_def
      default_options_def a c Let_def)
qed

end
