(* ===== verification/Eligibility.thy ===== *)
theory Eligibility
  imports Prelude Hex_Codec "HOL-Library.Multiset"
begin

text \<open>
  \<open>src/reducer/eligibility.ts\<close>: the ledger of an epoch, which issues at most one credit per
  epoch, miner and patch hash, and at most one merge accrual among those.
\<close>

section \<open>Events and records\<close>

text \<open>Screener and merge events have the same three fields.\<close>

record eligibility_event =
  ev_epoch :: int
  ev_miner :: string
  ev_patchHash :: string

record credit_issuance =
  ci_epoch :: int
  ci_miner :: string
  ci_patchHash :: string
  ci_tierCredits :: int

record multiplier_accrual =
  ma_epoch :: int
  ma_miner :: string
  ma_patchHash :: string

datatype skip_kind = Screener | Merger

record skipped_event =
  sk_event :: skip_kind
  sk_epoch :: int
  sk_miner :: string
  sk_patchHash :: string

record epoch_eligibility =
  ee_creditIssuances :: "credit_issuance list"
  ee_multiplierAccruals :: "multiplier_accrual list"
  ee_duplicatesSkipped :: "skipped_event list"

section \<open>Keys\<close>

text \<open>\<open>n.toString()\<close> of a bigint.\<close>

function nat_digits :: "nat \<Rightarrow> string" where
  "nat_digits n = (if n < 10 then [char_of (48 + n)] else nat_digits (n div 10) @ [char_of (48 + n mod 10)])"
  by pat_completeness auto
termination by (relation "measure id") auto

declare nat_digits.simps [simp del]

definition bigint_to_string :: "int \<Rightarrow> string" where
  "bigint_to_string n = (if n < 0 then CHR ''-'' # nat_digits (nat (- n)) else nat_digits (nat n))"

definition eligibilityKey :: "int \<Rightarrow> string \<Rightarrow> string \<Rightarrow> string" where
  "eligibilityKey epoch miner patchHash =
     bigint_to_string epoch @ '':'' @ toLowerCase miner @ '':'' @ toLowerCase patchHash"

section \<open>The ledger\<close>

record ledger =
  lg_seenScreener :: "string list"
  lg_seenMerger :: "string list"
  lg_out :: epoch_eligibility

definition skip_event :: "skip_kind \<Rightarrow> eligibility_event \<Rightarrow> ledger \<Rightarrow> ledger" where
  "skip_event kind ev st = st\<lparr>lg_out := (lg_out st)\<lparr>ee_duplicatesSkipped := ee_duplicatesSkipped (lg_out st) @
     [\<lparr> sk_event = kind, sk_epoch = ev_epoch ev, sk_miner = ev_miner ev, sk_patchHash = ev_patchHash ev \<rparr>]\<rparr>\<rparr>"

definition screener_step :: "(string \<Rightarrow> int) \<Rightarrow> ledger \<Rightarrow> eligibility_event \<Rightarrow> ledger" where
  "screener_step tierCreditsFor st ev =
     (let key = eligibilityKey (ev_epoch ev) (ev_miner ev) (ev_patchHash ev) in
      if key \<in> set (lg_seenScreener st) then skip_event Screener ev st
      else st\<lparr>lg_seenScreener := set_add (lg_seenScreener st) key,
        lg_out := (lg_out st)\<lparr>ee_creditIssuances := ee_creditIssuances (lg_out st) @
          [\<lparr> ci_epoch = ev_epoch ev, ci_miner = ev_miner ev, ci_patchHash = ev_patchHash ev,
             ci_tierCredits = tierCreditsFor (ev_miner ev) \<rparr>]\<rparr>\<rparr>)"

definition merger_step :: "ledger \<Rightarrow> eligibility_event \<Rightarrow> ledger" where
  "merger_step st ev =
     (let key = eligibilityKey (ev_epoch ev) (ev_miner ev) (ev_patchHash ev) in
      if key \<notin> set (lg_seenScreener st) then skip_event Merger ev st
      else if key \<in> set (lg_seenMerger st) then skip_event Merger ev st
      else st\<lparr>lg_seenMerger := set_add (lg_seenMerger st) key,
        lg_out := (lg_out st)\<lparr>ee_multiplierAccruals := ee_multiplierAccruals (lg_out st) @
          [\<lparr> ma_epoch = ev_epoch ev, ma_miner = ev_miner ev, ma_patchHash = ev_patchHash ev \<rparr>]\<rparr>\<rparr>)"

definition empty_ledger :: ledger where
  "empty_ledger = \<lparr> lg_seenScreener = [], lg_seenMerger = [],
     lg_out = \<lparr> ee_creditIssuances = [], ee_multiplierAccruals = [], ee_duplicatesSkipped = [] \<rparr> \<rparr>"

definition buildEpochEligibility ::
  "eligibility_event list \<Rightarrow> eligibility_event list \<Rightarrow> (string \<Rightarrow> int) \<Rightarrow> epoch_eligibility" where
  "buildEpochEligibility screenerEvents mergedEvents tierCreditsFor =
     lg_out (foldl merger_step (foldl (screener_step tierCreditsFor) empty_ledger screenerEvents) mergedEvents)"

definition minerScreenerCredits :: "epoch_eligibility \<Rightarrow> string \<Rightarrow> int" where
  "minerScreenerCredits eligibility miner =
     (let m = toLowerCase miner in
      foldl (\<lambda>total ci. if toLowerCase (ci_miner ci) = m then total + ci_tierCredits ci else total) 0
        (ee_creditIssuances eligibility))"

definition minerHasMerge :: "epoch_eligibility \<Rightarrow> string \<Rightarrow> bool" where
  "minerHasMerge eligibility miner =
     (let m = toLowerCase miner in
      list_ex (\<lambda>a. toLowerCase (ma_miner a) = m) (ee_multiplierAccruals eligibility))"

section \<open>What the ledger holds\<close>

definition ev_key :: "eligibility_event \<Rightarrow> string" where
  "ev_key ev = eligibilityKey (ev_epoch ev) (ev_miner ev) (ev_patchHash ev)"

definition ci_key :: "credit_issuance \<Rightarrow> string" where
  "ci_key c = eligibilityKey (ci_epoch c) (ci_miner c) (ci_patchHash c)"

definition ma_key :: "multiplier_accrual \<Rightarrow> string" where
  "ma_key a = eligibilityKey (ma_epoch a) (ma_miner a) (ma_patchHash a)"

lemma keys:
  "eligibilityKey (ev_epoch ev) (ev_miner ev) (ev_patchHash ev) = ev_key ev"
  "ci_key \<lparr> ci_epoch = ev_epoch ev, ci_miner = ev_miner ev, ci_patchHash = ev_patchHash ev, ci_tierCredits = c \<rparr> = ev_key ev"
  "ma_key \<lparr> ma_epoch = ev_epoch ev, ma_miner = ev_miner ev, ma_patchHash = ev_patchHash ev \<rparr> = ev_key ev"
  by (simp_all add: ev_key_def ci_key_def ma_key_def)

lemmas ledger_defs = screener_step_def merger_step_def skip_event_def empty_ledger_def Let_def

definition ledger_inv :: "(string \<Rightarrow> int) \<Rightarrow> eligibility_event list \<Rightarrow> eligibility_event list \<Rightarrow> ledger \<Rightarrow> bool" where
  "ledger_inv tier ss ms st \<longleftrightarrow>
     lg_seenScreener st = map ci_key (ee_creditIssuances (lg_out st)) \<and> distinct (lg_seenScreener st) \<and>
     set (lg_seenScreener st) = ev_key ` set ss \<and>
     list_all (\<lambda>c. ci_tierCredits c = tier (ci_miner c)) (ee_creditIssuances (lg_out st)) \<and>
     lg_seenMerger st = map ma_key (ee_multiplierAccruals (lg_out st)) \<and> distinct (lg_seenMerger st) \<and>
     set (lg_seenMerger st) = (ev_key ` set ms) \<inter> (ev_key ` set ss) \<and>
     length (ee_creditIssuances (lg_out st)) + length (ee_multiplierAccruals (lg_out st)) +
       length (ee_duplicatesSkipped (lg_out st)) = length ss + length ms"

lemma ledger_inv_empty: "ledger_inv tier [] [] empty_ledger"
  by (simp add: ledger_inv_def empty_ledger_def)

lemma ledger_inv_screener: "ledger_inv tier ss [] st \<Longrightarrow> ledger_inv tier (ss @ [ev]) [] (screener_step tier st ev)"
  unfolding ledger_inv_def
  by (elim conjE) (cases "ev_key ev \<in> ev_key ` set ss"; simp add: ledger_defs keys set_add_def insert_absorb flip: set_map)

lemma ledger_inv_merger: "ledger_inv tier ss ms st \<Longrightarrow> ledger_inv tier ss (ms @ [ev]) (merger_step st ev)"
  unfolding ledger_inv_def
  by (elim conjE) (cases "ev_key ev \<in> ev_key ` set ss"; cases "ev_key ev \<in> ev_key ` set ms";
    simp add: ledger_defs keys set_add_def Int_insert_left insert_absorb flip: set_map)

lemma ledger_inv_run:
  "ledger_inv tier ss ms (foldl merger_step (foldl (screener_step tier) empty_ledger ss) ms)"
proof -
  have "ledger_inv tier ss [] (foldl (screener_step tier) empty_ledger ss)"
    by (induction ss rule: rev_induct) (simp_all add: ledger_inv_empty ledger_inv_screener)
  then show ?thesis by (induction ms rule: rev_induct) (simp_all add: ledger_inv_merger)
qed

lemma ledger_inv_out:
  assumes "ledger_inv tier ss ms st"
  shows "distinct (map ci_key (ee_creditIssuances (lg_out st))) \<and>
    ci_key ` set (ee_creditIssuances (lg_out st)) = ev_key ` set ss \<and>
    list_all (\<lambda>c. ci_tierCredits c = tier (ci_miner c)) (ee_creditIssuances (lg_out st)) \<and>
    distinct (map ma_key (ee_multiplierAccruals (lg_out st))) \<and>
    ma_key ` set (ee_multiplierAccruals (lg_out st)) = ev_key ` set ms \<inter> ev_key ` set ss \<and>
    length (ee_creditIssuances (lg_out st)) + length (ee_multiplierAccruals (lg_out st)) +
      length (ee_duplicatesSkipped (lg_out st)) = length ss + length ms"
  using assms unfolding ledger_inv_def by (elim conjE, intro conjI) (simp_all flip: set_map)


section \<open>Keys separate tuples\<close>

lemma nat_digits_not_colon: "CHR '':'' \<notin> set (nat_digits n)"
proof (induction n rule: nat_digits.induct)
  case (1 n)
  have "char_of (48 + k) \<noteq> CHR '':''" if "k < 10" for k :: nat
  proof
    assume "char_of (48 + k) = CHR '':''"
    then have "of_char (char_of (48 + k)) = (of_char CHR '':'' :: nat)" by simp
    then show False using that by simp
  qed
  from this [THEN not_sym] 1 show ?case by (subst nat_digits.simps) auto
qed

lemma nat_digits_inject: "nat_digits m = nat_digits n \<longleftrightarrow> m = n"
proof (induction m arbitrary: n rule: nat_digits.induct)
  case (1 m)
  have ne: "nat_digits k \<noteq> []" "[] \<noteq> nat_digits k" for k by (subst nat_digits.simps, simp)+
  have c: "char_of (48 + a) = (char_of (48 + b) :: char) \<longleftrightarrow> a = b" if "a < 10" "b < 10" for a b :: nat
  proof
    assume "char_of (48 + a) = (char_of (48 + b) :: char)"
    then have "of_char (char_of (48 + a)) = (of_char (char_of (48 + b)) :: nat)" by simp
    then show "a = b" using that by simp
  qed simp
  show ?case
  proof (cases "m < 10")
    case True
    then show ?thesis
      by (subst nat_digits.simps, subst (2) nat_digits.simps) (auto simp: c ne append_eq_Cons_conv)
  next
    case False
    have IH: "nat_digits (m div 10) = nat_digits k \<longleftrightarrow> m div 10 = k" for k using 1 False by simp
    show ?thesis
    proof (cases "n < 10")
      case True
      then show ?thesis using False
        by (subst nat_digits.simps, subst (2) nat_digits.simps) (auto simp: ne append_eq_Cons_conv)
    next
      case n: False
      have "m div 10 = n div 10 \<and> m mod 10 = n mod 10 \<longleftrightarrow> m = n" by (metis div_mult_mod_eq)
      then show ?thesis using False n
        by (subst nat_digits.simps, subst (2) nat_digits.simps) (simp add: IH c)
    qed
  qed
qed

lemma bigint_to_string_not_colon: "CHR '':'' \<notin> set (bigint_to_string n)"
  by (simp add: bigint_to_string_def nat_digits_not_colon)

lemma bigint_to_string_inject: "bigint_to_string m = bigint_to_string n \<longleftrightarrow> m = n"
proof -
  have minus: "CHR ''-'' # x \<noteq> nat_digits k" for x k
  proof -
    have "CHR ''-'' \<notin> set (nat_digits k)"
    proof (induction k rule: nat_digits.induct)
      case (1 k)
      have "char_of (48 + j) \<noteq> CHR ''-''" if "j < 10" for j :: nat
      proof
        assume "char_of (48 + j) = CHR ''-''"
        then have "of_char (char_of (48 + j)) = (of_char CHR ''-'' :: nat)" by simp
        then show False using that by simp
      qed
      from this [THEN not_sym] 1 show ?case by (subst nat_digits.simps) auto
    qed
    then show ?thesis by (metis list.set_intros(1))
  qed
  from minus [THEN not_sym] minus show ?thesis
    by (auto simp: bigint_to_string_def nat_digits_inject)
qed

lemma split_at_char:
  assumes "a @ c # x = b @ c # y" and "c \<notin> set a" and "c \<notin> set b"
  shows "a = b \<and> x = y"
proof -
  have "takeWhile (\<lambda>d. d \<noteq> c) (a @ c # x) = a" using assms(2) by (auto simp: takeWhile_append)
  moreover have "takeWhile (\<lambda>d. d \<noteq> c) (b @ c # y) = b" using assms(3) by (auto simp: takeWhile_append)
  ultimately have "a = b" using assms(1) by simp
  with assms(1) show ?thesis by simp
qed

text \<open>
  Fact: the deduplication key separates the tuples.  For miners without a colon in their
  address two tuples share a key only when the epochs are equal and the addresses and
  patch hashes are equal up to case.
\<close>

theorem eligibilityKey_inject:
  assumes "CHR '':'' \<notin> set (toLowerCase m)" and "CHR '':'' \<notin> set (toLowerCase m')"
    and "eligibilityKey e m p = eligibilityKey e' m' p'"
  shows "e = e' \<and> toLowerCase m = toLowerCase m' \<and> toLowerCase p = toLowerCase p'"
proof -
  have "bigint_to_string e = bigint_to_string e' \<and>
      toLowerCase m @ CHR '':'' # toLowerCase p = toLowerCase m' @ CHR '':'' # toLowerCase p'"
    by (rule split_at_char) (use assms(3) bigint_to_string_not_colon in \<open>simp_all add: eligibilityKey_def\<close>)
  then show ?thesis using split_at_char [OF _ assms(1,2)] by (auto simp: bigint_to_string_inject)
qed

theorem eligibilityKey_inject_witness:
  "eligibilityKey 12 ''0xAb'' ''0x1'' = eligibilityKey 12 ''0xaB'' ''0x1'' \<and> toLowerCase ''0xAb'' = toLowerCase ''0xaB''"
proof -
  have "eligibilityKey 12 ''0xAb'' ''0x1'' = eligibilityKey 12 ''0xaB'' ''0x1''" by code_simp
  moreover have "CHR '':'' \<notin> set (toLowerCase ''0xAb'')" "CHR '':'' \<notin> set (toLowerCase ''0xaB'')" by code_simp+
  ultimately show ?thesis using eligibilityKey_inject by blast
qed

end
