(* ===== verification/Funding.thy ===== *)
theory Funding
  imports Eligibility Codec Keccak Seed_Derivation "HOL-Library.Signed_Division"
begin

text \<open>
  \<open>src/reducer/multiplier-cap.ts\<close> and \<open>src/reducer/funding-tx.ts\<close>: the bonus leaves of an
  epoch, the binary Merkle tree over them, the funding calldata, and the claim proof of a
  miner with its check.  \<open>String.prototype.localeCompare\<close>, whose order depends on the
  locale, is a parameter of \<open>buildEpochBonusLeaves\<close>.
\<close>

section \<open>Bonus leaves\<close>

definition MERGE_MULTIPLIER_BPS :: int where "MERGE_MULTIPLIER_BPS = 10000"
definition BPS_DIVISOR :: int where "BPS_DIVISOR = 10000"

record miner_bonus_leaf =
  bl_miner :: string
  bl_bonusBotcoin :: int
  bl_capBotcoin :: int

record miner_claim_base =
  cb_miner :: string
  cb_claimBase :: int

text \<open>The division of \<open>bigint\<close>s rounds towards zero, as \<open>sdiv\<close> does.\<close>

definition computeMinerBonus :: "string \<Rightarrow> int \<Rightarrow> int \<Rightarrow> js_error + miner_bonus_leaf" where
  "computeMinerBonus miner claimBase multiplierBps =
     (if claimBase < 0 then Inl (RangeError ''computeMinerBonus: claimBase must be non-negative'')
      else
        (let upliftBps = multiplierBps - BPS_DIVISOR;
             bonusBotcoin = (upliftBps * claimBase) sdiv BPS_DIVISOR
         in Inr \<lparr> bl_miner = toLowerCase miner, bl_bonusBotcoin = bonusBotcoin, bl_capBotcoin = bonusBotcoin \<rparr>))"

definition claim_base_map :: "miner_claim_base list \<Rightarrow> (string \<times> int) list" where
  "claim_base_map claimBases =
     foldl (\<lambda>m cb. AList.update (toLowerCase (cb_miner cb)) (cb_claimBase cb) m) [] claimBases"

definition bonus_step ::
  "(string \<times> int) list \<Rightarrow> int \<Rightarrow> string list \<times> miner_bonus_leaf list \<Rightarrow> multiplier_accrual \<Rightarrow>
   js_error + string list \<times> miner_bonus_leaf list" where
  "bonus_step claimBaseMap multiplierBps = (\<lambda>(seenMiners, leaves) accrual.
     (let miner = toLowerCase (ma_miner accrual) in
      if miner \<in> set seenMiners then Inr (seenMiners, leaves)
      else
        (let seenMiners = set_add seenMiners miner;
             claimBase = (case map_of claimBaseMap miner of Some b \<Rightarrow> b | None \<Rightarrow> 0)
         in if claimBase = 0 then Inr (seenMiners, leaves)
            else bind_res (computeMinerBonus miner claimBase multiplierBps) (\<lambda>leaf.
              if bl_bonusBotcoin leaf = 0 then Inr (seenMiners, leaves)
              else Inr (seenMiners, leaves @ [leaf])))))"

definition buildEpochBonusLeaves ::
  "(string \<Rightarrow> string \<Rightarrow> int) \<Rightarrow> epoch_eligibility \<Rightarrow> miner_claim_base list \<Rightarrow> int \<Rightarrow>
   js_error + miner_bonus_leaf list" where
  "buildEpochBonusLeaves localeCompare eligibility claimBases multiplierBps =
     bind_res (fold_res (bonus_step (claim_base_map claimBases) multiplierBps) ([], [])
        (ee_multiplierAccruals eligibility)) (\<lambda>(seenMiners, leaves).
     Inr (js_sort (\<lambda>a b. localeCompare (bl_miner a) (bl_miner b)) leaves))"

definition computeEpochTotalBonus :: "miner_bonus_leaf list \<Rightarrow> int" where
  "computeEpochTotalBonus leaves = foldl (\<lambda>sum leaf. sum + bl_bonusBotcoin leaf) 0 leaves"

definition assertBonusWithinCap :: "miner_bonus_leaf \<Rightarrow> js_error + unit" where
  "assertBonusWithinCap leaf =
     (if bl_bonusBotcoin leaf > bl_capBotcoin leaf then Inl (Error ''multiplier cap violation'') else Inr ())"

section \<open>ABI encoding\<close>

definition encodeUint256 :: "int \<Rightarrow> bytes" where
  "encodeUint256 value =
     fst (fold (\<lambda>i (out, v). (out[i := word_of_int (v AND 0xff)], drop_bit 8 v))
       (rev [0..<32]) (replicate 32 0, take_bit 256 value))"

definition encodeUint64 :: "int \<Rightarrow> bytes" where
  "encodeUint64 value = encodeUint256 (take_bit 64 value)"

definition encodeBytes32 :: "bytes \<Rightarrow> js_error + bytes" where
  "encodeBytes32 value =
     (if length value \<noteq> 32 then Inl (RangeError ''encodeBytes32: expected 32 bytes'') else Inr value)"

text \<open>The loop of \<open>bytesLessOrEq\<close>; a missing byte of \<open>b\<close> reads as 0.\<close>

fun bytesLessOrEq :: "bytes \<Rightarrow> bytes \<Rightarrow> bool" where
  "bytesLessOrEq [] b = True"
| "bytesLessOrEq (av # a) b =
     (let bv = at_or 0 b 0 in if av \<noteq> bv then av < bv else bytesLessOrEq a (drop 1 b))"

definition hashPair :: "bytes \<Rightarrow> bytes \<Rightarrow> bytes" where
  "hashPair a b = (let (lo, hi) = (if bytesLessOrEq a b then (a, b) else (b, a)) in keccak256 (lo @ hi))"

section \<open>The Merkle tree\<close>

definition computeLeafHash :: "miner_bonus_leaf \<Rightarrow> js_error + bytes" where
  "computeLeafHash leaf =
     bind_res (hexToBytes (if take 2 (bl_miner leaf) = ''0x'' then bl_miner leaf else ''0x'' @ bl_miner leaf)) (\<lambda>addrBytes.
     if length addrBytes \<noteq> 20 then Inl (RangeError ''computeLeafHash: address must be 20 bytes'')
     else
       (let bonusBytes = encodeUint256 (bl_bonusBotcoin leaf);
            capBytes = encodeUint256 (bl_capBotcoin leaf);
            packed = addrBytes @ bonusBytes @ capBytes
        in Inr (keccak256 packed)))"

text \<open>One round of the \<open>while\<close> loop of \<open>buildLevels\<close>, and the loop.\<close>

definition pair_level :: "bytes list \<Rightarrow> bytes list" where
  "pair_level cur = map (\<lambda>k. if k * 2 + 1 = length cur then cur ! (k * 2)
     else hashPair (cur ! (k * 2)) (cur ! (k * 2 + 1))) [0..<(length cur + 1) div 2]"

lemma length_pair_level [simp]: "length (pair_level cur) = (length cur + 1) div 2"
  by (simp add: pair_level_def)

lemma pair_level_nth:
  "k < length (pair_level cur) \<Longrightarrow> pair_level cur ! k =
     (if k * 2 + 1 = length cur then cur ! (k * 2) else hashPair (cur ! (k * 2)) (cur ! (k * 2 + 1)))"
  by (simp add: pair_level_def)

function levels_from :: "bytes list \<Rightarrow> bytes list list" where
  "levels_from cur = (if length cur > 1 then cur # levels_from (pair_level cur) else [cur])"
  by pat_completeness auto
termination by (relation "measure length") auto

declare levels_from.simps [simp del]

definition buildLevels :: "bytes list \<Rightarrow> bytes list list" where
  "buildLevels leafHashes =
     (if length leafHashes = 0 then [[keccak256 []]] else levels_from leafHashes)"

definition computeBonusMerkleRoot :: "miner_bonus_leaf list \<Rightarrow> js_error + bytes" where
  "computeBonusMerkleRoot leaves =
     bind_res (map_res computeLeafHash leaves) (\<lambda>leafHashes.
     (let levels = buildLevels leafHashes in Inr (levels ! (length levels - 1) ! 0)))"

section \<open>Funding calldata\<close>

record fund_epoch_calldata =
  fc_calldata :: bytes
  fc_calldataHex :: string
  fc_merkleRoot :: bytes
  fc_merkleRootHex :: string
  fc_totalBonus :: int

definition buildFundEpochCalldata :: "int \<Rightarrow> miner_bonus_leaf list \<Rightarrow> js_error + fund_epoch_calldata" where
  "buildFundEpochCalldata epoch leaves =
     bind_res (computeBonusMerkleRoot leaves) (\<lambda>merkleRoot.
     (let totalBonus = foldl (\<lambda>sum l. sum + bl_bonusBotcoin l) 0 leaves;
          selectorFull = keccak256 (encode_ascii ''fundEpoch(uint64,bytes32,uint256)'');
          selector = take 4 selectorFull
      in bind_res (encodeBytes32 merkleRoot) (\<lambda>rootBytes.
         (let calldata = selector @ encodeUint64 epoch @ rootBytes @ encodeUint256 totalBonus
          in Inr \<lparr> fc_calldata = calldata, fc_calldataHex = bytesToHex calldata, fc_merkleRoot = merkleRoot,
               fc_merkleRootHex = bytesToHex merkleRoot, fc_totalBonus = totalBonus \<rparr>))))"

section \<open>Claim proofs\<close>

record miner_claim_proof =
  cp_miner :: string
  cp_bonusBotcoin :: int
  cp_capBotcoin :: int
  cp_proof :: "string list"
  cp_leafIndex :: nat

definition proof_step :: "string list \<times> nat \<Rightarrow> bytes list \<Rightarrow> string list \<times> nat" where
  "proof_step = (\<lambda>(proof, pos) level.
     if pos = length level - 1 \<and> pos mod 2 = 0 then (proof, pos div 2)
     else
       (let sibling = (if pos mod 2 = 0 then level ! (pos + 1) else level ! (pos - 1))
        in (proof @ [bytesToHex sibling], pos div 2)))"

definition findIndex :: "('a \<Rightarrow> bool) \<Rightarrow> 'a list \<Rightarrow> nat option" where
  "findIndex P xs = (let i = length (takeWhile (\<lambda>x. \<not> P x) xs) in if i < length xs then Some i else None)"

definition buildMinerClaimProof :: "miner_bonus_leaf list \<Rightarrow> string \<Rightarrow> js_error + miner_claim_proof option" where
  "buildMinerClaimProof leaves miner =
     (case findIndex (\<lambda>l. toLowerCase (bl_miner l) = toLowerCase miner) leaves of
        None \<Rightarrow> Inr None
      | Some idx \<Rightarrow>
          (let leaf = leaves ! idx in
           bind_res (map_res computeLeafHash leaves) (\<lambda>leafHashes.
           (let levels = buildLevels leafHashes;
                (proof, pos) = foldl proof_step ([], idx) (butlast levels)
            in Inr (Some \<lparr> cp_miner = toLowerCase (bl_miner leaf), cp_bonusBotcoin = bl_bonusBotcoin leaf,
                 cp_capBotcoin = bl_capBotcoin leaf, cp_proof = proof, cp_leafIndex = idx \<rparr>)))))"

definition verifyMinerClaimProof :: "miner_bonus_leaf \<Rightarrow> string list \<Rightarrow> bytes \<Rightarrow> js_error + bool" where
  "verifyMinerClaimProof leaf proof merkleRoot =
     bind_res (computeLeafHash leaf) (\<lambda>leafHash.
     bind_res (fold_res (\<lambda>computed sib. map_sum id (\<lambda>sibling. hashPair computed sibling) (hexToBytes sib)) leafHash proof)
       (\<lambda>computed. Inr (if length computed \<noteq> length merkleRoot then False
          else list_all (\<lambda>i. computed ! i = merkleRoot ! i) [0..<length computed])))"

section \<open>The encoders\<close>

lemma encodeUint256_eq: "encodeUint256 v = be_bytes 32 v"
  using write_loop [of 0 32 "replicate 32 0" "take_bit 256 v"]
  by (simp add: encodeUint256_def be_bytes_take_bit)

lemma encodeUint64_eq: "encodeUint64 v = be_bytes 32 (take_bit 64 v)"
  by (simp add: encodeUint64_def encodeUint256_eq)

lemma length_hashPair [simp]: "length (hashPair a b) = 32"
  by (simp add: hashPair_def split: prod.split)

lemma computeLeafHash_length: "computeLeafHash leaf = Inr h \<Longrightarrow> length h = 32"
  by (auto simp: computeLeafHash_def bind_res_eq_Inr Let_def split: if_splits)

section \<open>Pairs are hashed without regard to their order\<close>

lemma bytesLessOrEq_refl: "bytesLessOrEq a a"
  by (induction a) (simp_all add: at_or_def)

lemma bytesLessOrEq_total: "length a = length b \<Longrightarrow> bytesLessOrEq a b \<or> bytesLessOrEq b a"
  by (induction a b rule: list_induct2) (auto simp: at_or_def)

lemma bytesLessOrEq_antisym:
  "length a = length b \<Longrightarrow> bytesLessOrEq a b \<Longrightarrow> bytesLessOrEq b a \<Longrightarrow> a = b"
  by (induction a b rule: list_induct2) (auto simp: at_or_def split: if_splits)

lemma hashPair_commute: "length a = length b \<Longrightarrow> hashPair a b = hashPair b a"
  using bytesLessOrEq_total [of a b] bytesLessOrEq_antisym [of a b] by (auto simp: hashPair_def)

section \<open>The path of a leaf\<close>

lemma levels_from_ne [simp]: "levels_from cur \<noteq> []"
  by (subst levels_from.simps) simp

definition path_root :: "bytes list \<Rightarrow> bytes" where
  "path_root cur = last (levels_from cur) ! 0"

lemma path_root_small: "length cur \<le> 1 \<Longrightarrow> path_root cur = cur ! 0"
  unfolding path_root_def by (subst levels_from.simps) simp

lemma path_root_step: "length cur > 1 \<Longrightarrow> path_root cur = path_root (pair_level cur)"
  unfolding path_root_def by (subst levels_from.simps) simp

lemma foldl_proof_step_prefix:
  "foldl proof_step (pr, pos) ls = (pr @ fst (foldl proof_step ([], pos) ls), snd (foldl proof_step ([], pos) ls))"
proof (induction ls arbitrary: pr pos)
  case (Cons l ls)
  obtain pr' pos' where st: "proof_step ([], pos) l = (pr', pos')" by fastforce
  then have "proof_step (pr, pos) l = (pr @ pr', pos')"
    by (auto simp: proof_step_def Let_def split: if_splits)
  then show ?case using Cons [of "pr @ pr'" pos'] Cons [of pr' pos'] st by simp
qed simp

definition fold_proof :: "bytes \<Rightarrow> string list \<Rightarrow> js_error + bytes" where
  "fold_proof = fold_res (\<lambda>computed sib. map_sum id (\<lambda>sibling. hashPair computed sibling) (hexToBytes sib))"

lemma fold_proof_step:
  assumes "pos < length cur" and "length cur > 1" and "\<And>h. h \<in> set cur \<Longrightarrow> length h = 32"
  shows "fold_proof (cur ! pos) (fst (proof_step ([], pos) cur)) = Inr (pair_level cur ! (pos div 2)) \<and>
    snd (proof_step ([], pos) cur) = pos div 2"
proof (cases "pos = length cur - 1 \<and> pos mod 2 = 0")
  case True
  then have pos: "pos div 2 * 2 = pos" "pos mod 2 = 0" and len: "length cur = pos + 1" using assms(1) by auto
  then have "pos div 2 < length (pair_level cur)" by simp
  then have "pair_level cur ! (pos div 2) = cur ! pos" by (simp add: pair_level_nth pos len)
  then show ?thesis by (simp add: proof_step_def fold_proof_def pos len)
next
  case False
  show ?thesis
  proof (cases "pos mod 2 = 0")
    case True
    then have "pos div 2 * 2 = pos" by auto
    moreover from this False True assms(1) have "pos + 1 < length cur" by auto
    moreover from this have "pos div 2 < length (pair_level cur)" by simp
    ultimately show ?thesis using False True
      by (simp add: proof_step_def fold_proof_def pair_level_nth hexToBytes_bytesToHex Let_def)
  next
    case odd: False
    then have "pos div 2 * 2 + 1 = pos" by presburger
    moreover from this have "pos div 2 * 2 = pos - 1" "0 < pos" by linarith+
    moreover from this have "pos div 2 < length (pair_level cur)" using assms(1) by simp
    moreover have "hashPair (cur ! pos) (cur ! (pos - 1)) = hashPair (cur ! (pos - 1)) (cur ! pos)"
      by (rule hashPair_commute) (simp add: assms(1,3) less_imp_diff_less)
    ultimately show ?thesis using odd assms
      by (simp add: proof_step_def fold_proof_def pair_level_nth hexToBytes_bytesToHex Let_def)
  qed
qed

lemma pair_level_digests:
  assumes "\<And>h. h \<in> set cur \<Longrightarrow> length h = 32" and "h \<in> set (pair_level cur)"
  shows "length h = 32"
  using assms by (auto simp: pair_level_def)

lemma fold_proof_levels:
  assumes "pos < length cur" and "\<And>h. h \<in> set cur \<Longrightarrow> length h = 32"
  shows "fold_proof (cur ! pos) (fst (foldl proof_step ([], pos) (butlast (levels_from cur)))) = Inr (path_root cur)"
  using assms
proof (induction cur arbitrary: pos rule: levels_from.induct)
  case (1 cur)
  show ?case
  proof (cases "length cur > 1")
    case False
    then have "levels_from cur = [cur]" by (subst levels_from.simps) simp
    moreover from False 1(2) have "pos = 0" by simp
    ultimately show ?thesis using False by (simp add: fold_proof_def path_root_small)
  next
    case True
    obtain pr pos' where st: "proof_step ([], pos) cur = (pr, pos')" by fastforce
    note step = fold_proof_step [OF 1(2) True 1(3), unfolded st]
    have IH: "fold_proof (pair_level cur ! (pos div 2))
        (fst (foldl proof_step ([], pos div 2) (butlast (levels_from (pair_level cur))))) = Inr (path_root (pair_level cur))"
      using 1(1) [OF True, of "pos div 2"] 1(2) True pair_level_digests [OF 1(3)] by fastforce
    have "butlast (levels_from cur) = cur # butlast (levels_from (pair_level cur))"
      using True by (subst levels_from.simps) simp
    with step IH True show ?thesis
      by (simp add: st foldl_proof_step_prefix [of pr] path_root_step fold_proof_def fold_res_append)
  qed
qed

section \<open>Claim proofs verify\<close>

lemma findIndex_Some: "findIndex P xs = Some i \<Longrightarrow> i < length xs \<and> P (xs ! i)"
  using nth_length_takeWhile [of "\<lambda>x. \<not> P x" xs] by (auto simp: findIndex_def Let_def split: if_splits)

lemma findIndex_None: "findIndex P xs = None \<longleftrightarrow> list_all (\<lambda>x. \<not> P x) xs"
  by (induction xs) (auto simp: findIndex_def Let_def)

lemma map_res_nth: "map_res f xs = Inr ys \<Longrightarrow> i < length xs \<Longrightarrow> f (xs ! i) = Inr (ys ! i)"
proof (induction xs arbitrary: ys i)
  case (Cons x xs)
  then show ?case by (cases i) (auto simp: bind_res_eq_Inr)
qed simp

lemma computeBonusMerkleRoot_eq:
  assumes "map_res computeLeafHash leaves = Inr hs" and "leaves \<noteq> []"
  shows "computeBonusMerkleRoot leaves = Inr (path_root hs)"
proof -
  have "hs \<noteq> []" using assms map_res_length [OF assms(1)] by auto
  then show ?thesis using assms
    by (simp add: computeBonusMerkleRoot_def buildLevels_def path_root_def last_conv_nth Let_def)
qed

lemma bytes_compared:
  "(if length c \<noteq> length r then False else list_all (\<lambda>i. c ! i = r ! i) [0..<length c]) \<longleftrightarrow> c = r"
  unfolding list_eq_iff_nth_eq [of c r] by (auto simp: list_all_iff)

lemma verifyMinerClaimProof_iff:
  "verifyMinerClaimProof leaf proof r = Inr True \<longleftrightarrow>
     (\<exists>h. computeLeafHash leaf = Inr h \<and> fold_proof h proof = Inr r)"
  unfolding verifyMinerClaimProof_def fold_proof_def [symmetric] bytes_compared
  by (cases "computeLeafHash leaf") (simp_all add: bind_res_eq_Inr)

text \<open>The address of a leaf, and what is hashed for it.\<close>

definition leaf_address :: "miner_bonus_leaf \<Rightarrow> js_error + bytes" where
  "leaf_address leaf = hexToBytes (if take 2 (bl_miner leaf) = ''0x'' then bl_miner leaf else ''0x'' @ bl_miner leaf)"

definition leaf_ok :: "miner_bonus_leaf \<Rightarrow> bool" where
  "leaf_ok leaf \<longleftrightarrow> (case leaf_address leaf of Inl e \<Rightarrow> False | Inr a \<Rightarrow> length a = 20)"

definition packed_leaf :: "miner_bonus_leaf \<Rightarrow> bytes" where
  "packed_leaf leaf = projr (leaf_address leaf) @ be_bytes 32 (bl_bonusBotcoin leaf) @ be_bytes 32 (bl_capBotcoin leaf)"

lemma computeLeafHash_ok: "leaf_ok leaf \<Longrightarrow> computeLeafHash leaf = Inr (keccak256 (packed_leaf leaf))"
  by (auto simp: leaf_ok_def computeLeafHash_def packed_leaf_def leaf_address_def [symmetric] encodeUint256_eq
    split: sum.splits)

lemma computeLeafHash_iff_ok: "computeLeafHash leaf = Inr h \<longleftrightarrow> leaf_ok leaf \<and> h = keccak256 (packed_leaf leaf)"
proof
  assume "computeLeafHash leaf = Inr h"
  then have "leaf_ok leaf"
    by (auto simp: leaf_ok_def computeLeafHash_def leaf_address_def [symmetric] bind_res_eq_Inr Let_def split: if_splits)
  with \<open>computeLeafHash leaf = Inr h\<close> show "leaf_ok leaf \<and> h = keccak256 (packed_leaf leaf)"
    by (simp add: computeLeafHash_ok)
qed (simp add: computeLeafHash_ok)

lemma length_packed_leaf: "leaf_ok leaf \<Longrightarrow> length (packed_leaf leaf) = 84"
  by (auto simp: leaf_ok_def packed_leaf_def split: sum.splits)

definition leaf_hashes :: "miner_bonus_leaf list \<Rightarrow> bytes list" where
  "leaf_hashes leaves = map (\<lambda>l. keccak256 (packed_leaf l)) leaves"

lemma map_res_leaves: "list_all leaf_ok leaves \<Longrightarrow> map_res computeLeafHash leaves = Inr (leaf_hashes leaves)"
  unfolding leaf_hashes_def by (rule map_res_all_Inr) (simp add: computeLeafHash_ok list_all_iff)

text \<open>
  Fact: claim proofs verify.  When the addresses of the leaves are 20 bytes long, a claim proof
  is built for exactly the miners that have a leaf (addresses compared without regard to
  case); it carries the amounts of the first such leaf, and checking it against the funded
  root answers true.  Trees with an odd number of nodes on some level are included.
\<close>

theorem claim_proof_verifies:
  assumes "list_all leaf_ok leaves"
  shows "if list_ex (\<lambda>l. toLowerCase (bl_miner l) = toLowerCase miner) leaves
    then \<exists>p r i. buildMinerClaimProof leaves miner = Inr (Some p) \<and> computeBonusMerkleRoot leaves = Inr r \<and>
      i = cp_leafIndex p \<and> i < length leaves \<and> cp_miner p = toLowerCase miner \<and>
      toLowerCase (bl_miner (leaves ! i)) = toLowerCase miner \<and>
      cp_bonusBotcoin p = bl_bonusBotcoin (leaves ! i) \<and> cp_capBotcoin p = bl_capBotcoin (leaves ! i) \<and>
      verifyMinerClaimProof (leaves ! i) (cp_proof p) r = Inr True
    else buildMinerClaimProof leaves miner = Inr None"
proof (cases "findIndex (\<lambda>l. toLowerCase (bl_miner l) = toLowerCase miner) leaves")
  case None
  then have "\<not> list_ex (\<lambda>l. toLowerCase (bl_miner l) = toLowerCase miner) leaves"
    by (simp add: findIndex_None list_all_iff list_ex_iff)
  with None show ?thesis by (simp add: buildMinerClaimProof_def)
next
  case (Some i)
  have i: "i < length leaves" "toLowerCase (bl_miner (leaves ! i)) = toLowerCase miner"
    using findIndex_Some [OF Some] by simp_all
  define hs where "hs = leaf_hashes leaves"
  have hs: "map_res computeLeafHash leaves = Inr hs" using map_res_leaves [OF assms] by (simp add: hs_def)
  have len: "length hs = length leaves" and digests: "\<And>h. h \<in> set hs \<Longrightarrow> length h = 32"
    by (auto simp: hs_def leaf_hashes_def)
  have "fold_proof (hs ! i) (fst (foldl proof_step ([], i) (butlast (levels_from hs)))) = Inr (path_root hs)"
    by (rule fold_proof_levels) (use i len digests in auto)
  moreover have "computeLeafHash (leaves ! i) = Inr (hs ! i)" using map_res_nth [OF hs i(1)] .
  moreover have "hs \<noteq> []" "leaves \<noteq> []" using i(1) len by auto
  moreover have "list_ex (\<lambda>l. toLowerCase (bl_miner l) = toLowerCase miner) leaves"
    using i by (auto simp: list_ex_iff)
  ultimately show ?thesis using Some i hs computeBonusMerkleRoot_eq [OF hs]
    by (simp add: buildMinerClaimProof_def verifyMinerClaimProof_iff buildLevels_def case_prod_beta Let_def)
qed

definition sample_leaves :: "miner_bonus_leaf list" where
  "sample_leaves = map (\<lambda>b. \<lparr> bl_miner = bytesToHex (replicate 20 b), bl_bonusBotcoin = 5, bl_capBotcoin = 5 \<rparr>) [10, 11, 12]"

lemma take_bytesToHex [simp]: "take 2 (bytesToHex bs) = ''0x''"
  by (simp add: bytesToHex_eq)

lemma sample_leaves_ok: "list_all leaf_ok sample_leaves"
  by (simp add: sample_leaves_def leaf_ok_def leaf_address_def hexToBytes_bytesToHex)

theorem claim_proof_verifies_witness:
  "\<exists>p r. buildMinerClaimProof sample_leaves (bytesToHex (replicate 20 12)) = Inr (Some p) \<and>
    computeBonusMerkleRoot sample_leaves = Inr r \<and>
    verifyMinerClaimProof (sample_leaves ! cp_leafIndex p) (cp_proof p) r = Inr True"
proof -
  have "list_ex (\<lambda>l. toLowerCase (bl_miner l) = toLowerCase (bytesToHex (replicate 20 12))) sample_leaves"
    by (simp add: sample_leaves_def)
  with claim_proof_verifies [OF sample_leaves_ok, of "bytesToHex (replicate 20 12)"] show ?thesis by auto
qed

section \<open>Only funded leaves verify\<close>

text \<open>What the tree and a proof check hash.\<close>

definition pair_input :: "bytes \<Rightarrow> bytes \<Rightarrow> bytes" where
  "pair_input a b = (if bytesLessOrEq a b then a @ b else b @ a)"

definition level_inputs :: "bytes list \<Rightarrow> bytes list" where
  "level_inputs cur = concat (map (\<lambda>k. if k * 2 + 1 = length cur then [] else [pair_input (cur ! (k * 2)) (cur ! (k * 2 + 1))])
     [0..<(length cur + 1) div 2])"

definition tree_inputs :: "miner_bonus_leaf list \<Rightarrow> bytes list" where
  "tree_inputs leaves = (if leaves = [] then [[]]
     else map packed_leaf leaves @ concat (map level_inputs (butlast (levels_from (leaf_hashes leaves)))))"

fun path_inputs :: "bytes \<Rightarrow> string list \<Rightarrow> bytes list" where
  "path_inputs h [] = []"
| "path_inputs h (s # proof) = pair_input h (projr (hexToBytes s)) # path_inputs (hashPair h (projr (hexToBytes s))) proof"

definition check_inputs :: "miner_bonus_leaf \<Rightarrow> string list \<Rightarrow> bytes list" where
  "check_inputs leaf proof = packed_leaf leaf # path_inputs (keccak256 (packed_leaf leaf)) proof"

lemma hashPair_input: "hashPair a b = keccak256 (pair_input a b)"
  by (simp add: hashPair_def pair_input_def)

lemma pair_input_eq:
  assumes "pair_input a b = pair_input c d" and "length a = 32" and "length c = 32" and "length d = 32"
  shows "a = c \<or> a = d"
proof -
  from arg_cong [OF assms(1), of length] have "length b = 32"
    using assms(2-) by (simp add: pair_input_def split: if_splits)
  with assms show ?thesis by (auto simp: pair_input_def split: if_splits)
qed

definition nodes :: "bytes list \<Rightarrow> bytes set" where
  "nodes cur = set (concat (levels_from cur))"

definition inputs :: "bytes list \<Rightarrow> bytes set" where
  "inputs cur = set (concat (map level_inputs (butlast (levels_from cur))))"

lemma nodes_inputs_step:
  "length cur > 1 \<Longrightarrow> nodes cur = set cur \<union> nodes (pair_level cur)"
  "length cur > 1 \<Longrightarrow> inputs cur = set (level_inputs cur) \<union> inputs (pair_level cur)"
  unfolding nodes_def inputs_def by (subst levels_from.simps, simp)+

lemma nodes_small: "\<not> length cur > 1 \<Longrightarrow> nodes cur = set cur"
  unfolding nodes_def by (subst levels_from.simps) simp

lemma pair_level_cases:
  assumes "v \<in> set (pair_level cur)"
  obtains "v \<in> set cur"
  | a b where "a \<in> set cur" "b \<in> set cur" "v = hashPair a b" "pair_input a b \<in> set (level_inputs cur)"
proof -
  from assms obtain k where k: "k < (length cur + 1) div 2" "v = pair_level cur ! k"
    by (auto simp: in_set_conv_nth)
  then have v: "v = (if k * 2 + 1 = length cur then cur ! (k * 2) else hashPair (cur ! (k * 2)) (cur ! (k * 2 + 1)))"
    by (simp add: pair_level_nth)
  show thesis
  proof (cases "k * 2 + 1 = length cur")
    case True
    then show thesis using v that(1) by simp
  next
    case False
    with k have l: "k * 2 + 1 < length cur" by linarith
    have "pair_input (cur ! (k * 2)) (cur ! (k * 2 + 1)) \<in> set (level_inputs cur)"
      unfolding level_inputs_def using k False by auto
    then show thesis using that(2) [of "cur ! (k * 2)" "cur ! (k * 2 + 1)"] v False l by simp
  qed
qed

lemma node_cases:
  "v \<in> nodes cur \<Longrightarrow>
   v \<in> set cur \<or> (\<exists>a b. a \<in> nodes cur \<and> b \<in> nodes cur \<and> v = hashPair a b \<and> pair_input a b \<in> inputs cur)"
proof (induction cur rule: levels_from.induct)
  case (1 cur)
  show ?case
  proof (cases "length cur > 1")
    case True
    then consider "v \<in> set cur" | "v \<in> nodes (pair_level cur)" using 1(2) by (auto simp: nodes_inputs_step)
    then show ?thesis
    proof cases
      case 2
      from 1(1) [OF True 2] show ?thesis
      proof
        assume "v \<in> set (pair_level cur)"
        then show ?thesis by (cases rule: pair_level_cases) (use True in \<open>auto simp: nodes_inputs_step\<close>)
      qed (use True in \<open>auto simp: nodes_inputs_step\<close>)
    qed simp
  qed (use 1(2) in \<open>simp add: nodes_small\<close>)
qed

lemma node_length: "v \<in> nodes cur \<Longrightarrow> (\<And>h. h \<in> set cur \<Longrightarrow> length h = 32) \<Longrightarrow> length v = 32"
  using node_cases [of v cur] by auto

lemma path_root_node: "cur \<noteq> [] \<Longrightarrow> path_root cur \<in> nodes cur"
proof (induction cur rule: levels_from.induct)
  case (1 cur)
  show ?case
  proof (cases "length cur > 1")
    case True
    moreover from True have "pair_level cur \<noteq> []" by (auto simp flip: length_greater_0_conv)
    ultimately show ?thesis using 1(1) by (simp add: path_root_step nodes_inputs_step)
  qed (use 1(2) in \<open>simp add: path_root_small nodes_small\<close>)
qed

lemma map_sum_eq_Inr: "map_sum id f r = Inr y \<longleftrightarrow> (\<exists>x. r = Inr x \<and> y = f x)"
  by (cases r) auto

lemma packed_leaf_inject:
  assumes "packed_leaf k = packed_leaf l" and "leaf_ok k" and "leaf_ok l"
  shows "leaf_address k = leaf_address l \<and> take_bit 256 (bl_bonusBotcoin k) = take_bit 256 (bl_bonusBotcoin l) \<and>
    take_bit 256 (bl_capBotcoin k) = take_bit 256 (bl_capBotcoin l)"
proof -
  obtain a b where ab: "leaf_address k = Inr a" "length a = 20" "leaf_address l = Inr b" "length b = 20"
    using assms(2,3) by (auto simp: leaf_ok_def split: sum.splits)
  have inj: "take_bit 256 v = take_bit 256 w" if "be_bytes 32 v = be_bytes 32 w" for v w
    using arg_cong [OF that, of be_val] by (simp add: be_val_be_bytes)
  from ab assms(1) have "a @ be_bytes 32 (bl_bonusBotcoin k) @ be_bytes 32 (bl_capBotcoin k) =
      b @ be_bytes 32 (bl_bonusBotcoin l) @ be_bytes 32 (bl_capBotcoin l)"
    by (simp add: packed_leaf_def)
  then have eqs: "a = b" "be_bytes 32 (bl_bonusBotcoin k) = be_bytes 32 (bl_bonusBotcoin l)"
    "be_bytes 32 (bl_capBotcoin k) = be_bytes 32 (bl_capBotcoin l)"
    using ab by (simp_all add: append_eq_append_conv)
  from ab eqs(1) inj [OF eqs(2)] inj [OF eqs(3)] show ?thesis by simp
qed

lemma fold_proof_snoc:
  "fold_proof h (pf @ [s]) = Inr v \<longleftrightarrow>
     (\<exists>c b. fold_proof h pf = Inr c \<and> hexToBytes s = Inr b \<and> v = hashPair c b)"
  by (auto simp: fold_proof_def fold_res_append bind_res_eq_Inr map_sum_eq_Inr)

lemma path_inputs_snoc:
  "fold_proof h pf = Inr c \<Longrightarrow>
   path_inputs h (pf @ [s]) = path_inputs h pf @ [pair_input c (projr (hexToBytes s))]"
  by (induction pf arbitrary: h) (auto simp: fold_proof_def bind_res_eq_Inr map_sum_eq_Inr)

lemma fold_proof_length: "fold_proof h pf = Inr v \<Longrightarrow> length h = 32 \<Longrightarrow> length v = 32"
  by (cases pf rule: rev_cases) (auto simp: fold_proof_snoc, simp add: fold_proof_def)

text \<open>A sibling of 32 bytes, as the \<open>bytes32[]\<close> of the contract has them.\<close>

definition sibling_ok :: "string \<Rightarrow> bool" where
  "sibling_ok s \<longleftrightarrow> (case hexToBytes s of Inl e \<Rightarrow> False | Inr b \<Rightarrow> length b = 32)"

text \<open>A node reached from the hash of a leaf.\<close>

lemma check_reaches:
  assumes ok: "list_all leaf_ok leaves" and leaf: "leaf_ok leaf" and ne: "leaves \<noteq> []"
    and "fold_proof (keccak256 (packed_leaf leaf)) pf = Inr v" and "v \<in> nodes (leaf_hashes leaves)"
    and "list_all sibling_ok pf"
  shows "packed_leaf leaf \<in> packed_leaf ` set leaves \<or> collide (check_inputs leaf pf) (tree_inputs leaves)"
  using assms(4,5,6)
proof (induction pf arbitrary: v rule: rev_induct)
  case Nil
  then have v: "v = keccak256 (packed_leaf leaf)" by (simp add: fold_proof_def)
  from node_cases [OF Nil(2)] show ?case
  proof (elim disjE exE conjE)
    assume "v \<in> set (leaf_hashes leaves)"
    then obtain l where l: "l \<in> set leaves" "v = keccak256 (packed_leaf l)" by (auto simp: leaf_hashes_def)
    show ?thesis
    proof (cases "packed_leaf leaf = packed_leaf l")
      case False
      with l v ne show ?thesis
        by (intro disjI2 collideI [of "packed_leaf leaf" _ "packed_leaf l"]) (simp_all add: check_inputs_def tree_inputs_def)
    qed (use l in auto)
  next
    fix a b assume ab: "a \<in> nodes (leaf_hashes leaves)" "b \<in> nodes (leaf_hashes leaves)" "v = hashPair a b"
      "pair_input a b \<in> inputs (leaf_hashes leaves)"
    have "length (pair_input a b) = 64"
      using ab(1,2) by (auto simp: pair_input_def leaf_hashes_def dest!: node_length)
    then have "packed_leaf leaf \<noteq> pair_input a b" using length_packed_leaf [OF leaf] by auto
    with ab(3,4) v ne show ?thesis
      by (intro disjI2 collideI [of "packed_leaf leaf" _ "pair_input a b"])
        (simp_all add: check_inputs_def tree_inputs_def inputs_def hashPair_input)
  qed
next
  case (snoc s pf)
  then obtain c b where c: "fold_proof (keccak256 (packed_leaf leaf)) pf = Inr c" "hexToBytes s = Inr b" "v = hashPair c b"
    by (auto simp: fold_proof_snoc)
  have c32: "length c = 32" using fold_proof_length [OF c(1)] by simp
  have b32: "length b = 32" using snoc(4) c(2) by (simp add: sibling_ok_def)
  with c32 have len: "length (pair_input c b) = 64" by (simp add: pair_input_def)
  have mem: "pair_input c b \<in> set (check_inputs leaf (pf @ [s]))" and
    sub: "set (check_inputs leaf pf) \<subseteq> set (check_inputs leaf (pf @ [s]))"
    using c by (auto simp: check_inputs_def path_inputs_snoc)
  from node_cases [OF snoc(3)] show ?case
  proof (elim disjE exE conjE)
    assume "v \<in> set (leaf_hashes leaves)"
    then obtain l where l: "l \<in> set leaves" "v = keccak256 (packed_leaf l)" by (auto simp: leaf_hashes_def)
    then have "length (packed_leaf l) = 84" using ok by (simp add: list_all_iff length_packed_leaf)
    then have "pair_input c b \<noteq> packed_leaf l" using len by auto
    with l c ne mem show ?thesis
      by (intro disjI2 collideI [of "pair_input c b" _ "packed_leaf l"]) (simp_all add: tree_inputs_def hashPair_input)
  next
    fix a d assume ab: "a \<in> nodes (leaf_hashes leaves)" "d \<in> nodes (leaf_hashes leaves)" "v = hashPair a d"
      "pair_input a d \<in> inputs (leaf_hashes leaves)"
    show ?thesis
    proof (cases "pair_input c b = pair_input a d")
      case True
      have "length a = 32" "length d = 32" using ab(1,2) by (auto simp: leaf_hashes_def dest!: node_length)
      then have "c \<in> nodes (leaf_hashes leaves)" using pair_input_eq [OF True c32] ab by auto
      with snoc(1) c(1) snoc(4) have "packed_leaf leaf \<in> packed_leaf ` set leaves \<or> collide (check_inputs leaf pf) (tree_inputs leaves)"
        by simp
      then show ?thesis using collide_mono [OF _ sub subset_refl] by blast
    next
      case False
      with ab c ne mem show ?thesis
        by (intro disjI2 collideI [of "pair_input c b" _ "pair_input a d"])
          (simp_all add: tree_inputs_def inputs_def hashPair_input)
    qed
  qed
qed

text \<open>
  C33: only funded leaves verify.  When a leaf passes the check against the root of a set of
  leaves, with siblings of 32 bytes as the contract takes them, then its packed encoding is
  that of one of the funded leaves, so the address and both amounts modulo \<open>2 ^ 256\<close> are
  funded; or two different strings, one hashed by the check and one hashed when the tree was
  built, have the same hash.  In particular an inner node cannot pass for a leaf.
\<close>

theorem claim_proof_sound:
  assumes "list_all leaf_ok leaves" and "computeBonusMerkleRoot leaves = Inr r"
    and "verifyMinerClaimProof leaf pf r = Inr True" and "list_all sibling_ok pf"
    and "\<not> collide (check_inputs leaf pf) (tree_inputs leaves)"
  shows "\<exists>l \<in> set leaves. leaf_address l = leaf_address leaf \<and>
    take_bit 256 (bl_bonusBotcoin l) = take_bit 256 (bl_bonusBotcoin leaf) \<and>
    take_bit 256 (bl_capBotcoin l) = take_bit 256 (bl_capBotcoin leaf)"
proof -
  from assms(3) have leaf: "leaf_ok leaf" and fold: "fold_proof (keccak256 (packed_leaf leaf)) pf = Inr r"
    by (auto simp: verifyMinerClaimProof_iff computeLeafHash_iff_ok)
  have "leaves \<noteq> []"
  proof
    assume [simp]: "leaves = []"
    then have r: "r = keccak256 []" using assms(2) by (simp add: computeBonusMerkleRoot_def buildLevels_def)
    have "\<exists>x \<in> set (check_inputs leaf pf). x \<noteq> [] \<and> r = keccak256 x"
    proof (cases pf rule: rev_cases)
      case Nil
      with fold length_packed_leaf [OF leaf] show ?thesis by (auto simp: check_inputs_def fold_proof_def)
    next
      case (snoc pf' s)
      with fold obtain c b where c: "fold_proof (keccak256 (packed_leaf leaf)) pf' = Inr c" "hexToBytes s = Inr b" "r = hashPair c b"
        by (auto simp: fold_proof_snoc)
      then have "length c = 32" using fold_proof_length by auto
      then have "pair_input c b \<noteq> []" by (auto simp: pair_input_def)
      with c snoc show ?thesis by (auto simp: check_inputs_def path_inputs_snoc hashPair_input)
    qed
    with r assms(5) show False by (auto simp: tree_inputs_def dest!: collideI)
  qed
  moreover from this have "leaf_hashes leaves \<noteq> []" by (simp add: leaf_hashes_def)
  then have "r \<in> nodes (leaf_hashes leaves)"
    using assms(2) computeBonusMerkleRoot_eq [OF map_res_leaves [OF assms(1)] \<open>leaves \<noteq> []\<close>] path_root_node by auto
  ultimately obtain l where l: "l \<in> set leaves" "packed_leaf leaf = packed_leaf l"
    using check_reaches [OF assms(1) leaf _ fold _ assms(4)] assms(5) by blast
  from assms(1) l(1) have "leaf_ok l" by (simp add: list_all_iff)
  from packed_leaf_inject [OF l(2) leaf this] l(1) show ?thesis by metis
qed

theorem claim_proof_sound_witness:
  "\<exists>l \<in> set (take 1 sample_leaves). leaf_address l = leaf_address (hd sample_leaves) \<and>
    take_bit 256 (bl_bonusBotcoin l) = take_bit 256 (bl_bonusBotcoin (hd sample_leaves)) \<and>
    take_bit 256 (bl_capBotcoin l) = take_bit 256 (bl_capBotcoin (hd sample_leaves))"
proof -
  define l where "l = hd sample_leaves"
  have one: "take 1 sample_leaves = [l]" by (simp add: l_def sample_leaves_def)
  have ok: "leaf_ok l" using sample_leaves_ok by (simp add: l_def sample_leaves_def)
  have small: "levels_from [h] = [[h]]" for h by (subst levels_from.simps) simp
  have "computeBonusMerkleRoot [l] = Inr (keccak256 (packed_leaf l))"
    by (simp add: computeBonusMerkleRoot_def computeLeafHash_ok [OF ok] buildLevels_def small)
  moreover have "verifyMinerClaimProof l [] (keccak256 (packed_leaf l)) = Inr True"
    by (simp add: verifyMinerClaimProof_iff computeLeafHash_ok [OF ok] fold_proof_def)
  moreover have "\<not> collide (check_inputs l []) (tree_inputs [l])"
    by (simp add: collide_def check_inputs_def tree_inputs_def leaf_hashes_def small)
  ultimately show ?thesis unfolding l_def [symmetric] one
    using claim_proof_sound [of "[l]" "keccak256 (packed_leaf l)" l "[]"] ok by simp
qed

section \<open>Bonuses\<close>

definition base_of :: "miner_claim_base list \<Rightarrow> string \<Rightarrow> int" where
  "base_of cbs miner = (case map_of (claim_base_map cbs) miner of Some b \<Rightarrow> b | None \<Rightarrow> 0)"

definition bonus_inv :: "epoch_eligibility \<Rightarrow> miner_claim_base list \<Rightarrow> int \<Rightarrow> string list \<times> miner_bonus_leaf list \<Rightarrow> bool" where
  "bonus_inv e cbs m = (\<lambda>(seen, leaves). distinct (map bl_miner leaves) \<and> set (map bl_miner leaves) \<subseteq> set seen \<and>
     list_all (\<lambda>l. minerHasMerge e (bl_miner l) \<and> 0 < base_of cbs (bl_miner l) \<and> bl_bonusBotcoin l \<noteq> 0 \<and>
       bl_capBotcoin l = bl_bonusBotcoin l \<and>
       bl_bonusBotcoin l = ((m - 10000) * base_of cbs (bl_miner l)) sdiv 10000) leaves)"

lemma bonus_step_inv:
  assumes "bonus_inv e cbs m st" and "a \<in> set (ee_multiplierAccruals e)"
    and "bonus_step (claim_base_map cbs) m st a = Inr st'"
  shows "bonus_inv e cbs m st'"
proof -
  obtain seen leaves where st: "st = (seen, leaves)" by fastforce
  have "minerHasMerge e (toLowerCase (ma_miner a))"
    using assms(2) by (auto simp: minerHasMerge_def list_ex_iff)
  then show ?thesis
    using assms(1,3) unfolding st bonus_step_def bonus_inv_def base_of_def [symmetric]
    by (auto simp: Let_def bind_res_eq_Inr computeMinerBonus_def BPS_DIVISOR_def set_add_def image_subset_iff split: if_splits)
qed

text \<open>
  Fact: bonus leaves.  Every leaf belongs to a miner with a merge accrual, no miner has two
  leaves whatever the case of the addresses and the number of merges, and the amount of a
  leaf is the uplift over 1.0x of the claim base, rounded towards zero, never zero, and
  within its cap; for a multiplier of at least 1.0x it is positive.
\<close>

theorem bonus_leaves_capped:
  assumes "buildEpochBonusLeaves localeCompare e cbs m = Inr leaves"
  shows "distinct (map bl_miner leaves) \<and>
    list_all (\<lambda>l. minerHasMerge e (bl_miner l) \<and> bl_bonusBotcoin l \<noteq> 0 \<and> assertBonusWithinCap l = Inr () \<and>
      bl_bonusBotcoin l = ((m - 10000) * base_of cbs (bl_miner l)) sdiv 10000) leaves \<and>
    (10000 \<le> m \<longrightarrow> list_all (\<lambda>l. 0 < bl_bonusBotcoin l \<and>
      bl_bonusBotcoin l * 10000 \<le> (m - 10000) * base_of cbs (bl_miner l)) leaves)"
proof -
  obtain seen ls where run: "fold_res (bonus_step (claim_base_map cbs) m) ([], []) (ee_multiplierAccruals e) = Inr (seen, ls)"
    and leaves: "leaves = js_sort (\<lambda>a b. localeCompare (bl_miner a) (bl_miner b)) ls"
    using assms by (auto simp: buildEpochBonusLeaves_def bind_res_eq_Inr)
  have all: "list_all P leaves \<longleftrightarrow> list_all P ls" for P by (simp add: leaves list_all_iff)
  have "bonus_inv e cbs m (seen, ls)"
    by (rule fold_res_invariant [OF run]) (simp add: bonus_inv_def, rule bonus_step_inv)
  then have d: "distinct (map bl_miner ls)" and inv: "list_all (\<lambda>l. minerHasMerge e (bl_miner l) \<and>
      0 < base_of cbs (bl_miner l) \<and> bl_bonusBotcoin l \<noteq> 0 \<and> bl_capBotcoin l = bl_bonusBotcoin l \<and>
      bl_bonusBotcoin l = ((m - 10000) * base_of cbs (bl_miner l)) sdiv 10000) leaves"
    unfolding all by (simp_all add: bonus_inv_def)
  have "0 < bl_bonusBotcoin l \<and> bl_bonusBotcoin l * 10000 \<le> (m - 10000) * base_of cbs (bl_miner l)"
    if "10000 \<le> m" "l \<in> set leaves" for l
  proof -
    from inv that(2) have l: "0 < base_of cbs (bl_miner l)" "bl_bonusBotcoin l \<noteq> 0"
      "bl_bonusBotcoin l = ((m - 10000) * base_of cbs (bl_miner l)) sdiv 10000" unfolding list_all_iff by blast+
    then have "0 \<le> (m - 10000) * base_of cbs (bl_miner l)" using that(1) by simp
    then have "bl_bonusBotcoin l = ((m - 10000) * base_of cbs (bl_miner l)) div 10000"
      using l(3) by (simp add: signed_divide_int_def sgn_if)
    with l(2) \<open>0 \<le> _\<close> show ?thesis by linarith
  qed
  then have "10000 \<le> m \<longrightarrow> list_all (\<lambda>l. 0 < bl_bonusBotcoin l \<and>
      bl_bonusBotcoin l * 10000 \<le> (m - 10000) * base_of cbs (bl_miner l)) leaves" unfolding list_all_iff by blast
  moreover have "list_all (\<lambda>l. minerHasMerge e (bl_miner l) \<and> bl_bonusBotcoin l \<noteq> 0 \<and> assertBonusWithinCap l = Inr () \<and>
      bl_bonusBotcoin l = ((m - 10000) * base_of cbs (bl_miner l)) sdiv 10000) leaves"
    by (rule list.pred_mono_strong [OF inv]) (unfold assertBonusWithinCap_def, metis less_irrefl)
  moreover have "distinct (map bl_miner leaves)" using d by (simp add: leaves distinct_map)
  ultimately show ?thesis by blast
qed

lemma base_of_nonneg:
  assumes "list_all (\<lambda>cb. 0 \<le> cb_claimBase cb) cbs"
  shows "0 \<le> base_of cbs miner"
proof -
  have "0 \<le> (case map_of (foldl (\<lambda>m cb. AList.update (toLowerCase (cb_miner cb)) (cb_claimBase cb) m) m0 cbs) miner of Some b \<Rightarrow> b | None \<Rightarrow> 0)"
    if "0 \<le> (case map_of m0 miner of Some b \<Rightarrow> b | None \<Rightarrow> 0)" for m0
    using assms that by (induction cbs arbitrary: m0) (simp_all add: update_conv')
  from this [of "[]"] show ?thesis by (simp add: base_of_def claim_base_map_def)
qed

text \<open>
  Fact: the production multiplier funds nothing.  At 1.0x no epoch with non-negative claim
  bases has a bonus leaf, so nothing is paid beside the normal credits.
\<close>

theorem default_multiplier_no_leaves:
  assumes "list_all (\<lambda>cb. 0 \<le> cb_claimBase cb) cbs"
  shows "buildEpochBonusLeaves localeCompare e cbs MERGE_MULTIPLIER_BPS = Inr []"
proof -
  have "\<exists>s. fold_res (bonus_step (claim_base_map cbs) MERGE_MULTIPLIER_BPS) (seen, []) as = Inr (s, [])" for seen as
  proof (induction as arbitrary: seen)
    case (Cons a as)
    have "\<not> base_of cbs (toLowerCase (ma_miner a)) < 0" using base_of_nonneg [OF assms] by (simp add: not_less)
    then have "\<exists>s. bonus_step (claim_base_map cbs) MERGE_MULTIPLIER_BPS (seen, []) a = Inr (s, [])"
      by (simp add: bonus_step_def base_of_def [symmetric] Let_def computeMinerBonus_def MERGE_MULTIPLIER_BPS_def
        BPS_DIVISOR_def signed_divide_int_def)
    then show ?case using Cons by auto
  qed simp
  from this [of "[]" "ee_multiplierAccruals e"] show ?thesis
    by (auto simp: buildEpochBonusLeaves_def js_sort_def)
qed

definition sample_eligibility :: epoch_eligibility where
  "sample_eligibility = buildEpochEligibility
     [\<lparr> ev_epoch = 1, ev_miner = ''0xAa'', ev_patchHash = ''0x01'' \<rparr>, \<lparr> ev_epoch = 1, ev_miner = ''0xaA'', ev_patchHash = ''0x02'' \<rparr>]
     [\<lparr> ev_epoch = 1, ev_miner = ''0xaa'', ev_patchHash = ''0x02'' \<rparr>, \<lparr> ev_epoch = 1, ev_miner = ''0xAA'', ev_patchHash = ''0x01'' \<rparr>]
     (\<lambda>_. 1)"

theorem bonus_leaves_capped_witness:
  "buildEpochBonusLeaves (\<lambda>a b. 0) sample_eligibility [\<lparr> cb_miner = ''0xAA'', cb_claimBase = 333 \<rparr>] 12500 =
     Inr [\<lparr> bl_miner = ''0xaa'', bl_bonusBotcoin = 83, bl_capBotcoin = 83 \<rparr>] \<and>
   83 = ((12500 - 10000) * base_of [\<lparr> cb_miner = ''0xAA'', cb_claimBase = 333 \<rparr>] ''0xaa'') sdiv 10000"
proof -
  have "buildEpochBonusLeaves (\<lambda>a b. 0) sample_eligibility [\<lparr> cb_miner = ''0xAA'', cb_claimBase = 333 \<rparr>] 12500 =
     Inr [\<lparr> bl_miner = ''0xaa'', bl_bonusBotcoin = 83, bl_capBotcoin = 83 \<rparr>]"
    by code_simp
  with bonus_leaves_capped [OF this] show ?thesis by simp
qed

theorem default_multiplier_no_leaves_witness:
  "buildEpochBonusLeaves (\<lambda>a b. 0) sample_eligibility [\<lparr> cb_miner = ''0xAA'', cb_claimBase = 333 \<rparr>] MERGE_MULTIPLIER_BPS = Inr []"
  by (rule default_multiplier_no_leaves) simp

section \<open>The calldata\<close>

lemma root_length: "list_all leaf_ok leaves \<Longrightarrow> \<exists>r. computeBonusMerkleRoot leaves = Inr r \<and> length r = 32"
proof (cases "leaves = []")
  case False
  assume ok: "list_all leaf_ok leaves"
  have "length (path_root (leaf_hashes leaves)) = 32"
    by (rule node_length [OF path_root_node]) (use False in \<open>auto simp: leaf_hashes_def\<close>)
  then show ?thesis using computeBonusMerkleRoot_eq [OF map_res_leaves [OF ok] False] by simp
qed (simp add: computeBonusMerkleRoot_def buildLevels_def)

text \<open>
  Fact: the funding calldata.  For leaves with well-formed addresses the calldata is built, is
  100 bytes long, and decodes to the epoch modulo \<open>2 ^ 64\<close>, the Merkle root of the leaves
  and the sum of their bonuses modulo \<open>2 ^ 256\<close>, after a four-byte selector.
\<close>

theorem fund_calldata_decodes:
  assumes "list_all leaf_ok leaves"
  shows "\<exists>c. buildFundEpochCalldata epoch leaves = Inr c \<and> length (fc_calldata c) = 100 \<and>
    take 4 (fc_calldata c) = take 4 (keccak256 (encode_ascii ''fundEpoch(uint64,bytes32,uint256)'')) \<and>
    be_val (take 32 (drop 4 (fc_calldata c))) = epoch mod 2 ^ 64 \<and>
    computeBonusMerkleRoot leaves = Inr (take 32 (drop 36 (fc_calldata c))) \<and>
    be_val (drop 68 (fc_calldata c)) = computeEpochTotalBonus leaves mod 2 ^ 256 \<and>
    hexToBytes (fc_calldataHex c) = Inr (fc_calldata c)"
proof -
  obtain r where r: "computeBonusMerkleRoot leaves = Inr r" "length r = 32"
    using root_length [OF assms] by blast
  then show ?thesis
    by (simp add: buildFundEpochCalldata_def encodeBytes32_def Let_def encodeUint64_eq encodeUint256_eq
      be_val_be_bytes take_bit_eq_mod computeEpochTotalBonus_def hexToBytes_bytesToHex)
qed

theorem fund_calldata_decodes_witness:
  "\<exists>c. buildFundEpochCalldata 7 sample_leaves = Inr c \<and> length (fc_calldata c) = 100 \<and>
    be_val (take 32 (drop 4 (fc_calldata c))) = 7 \<and> be_val (drop 68 (fc_calldata c)) = 15"
proof -
  have "computeEpochTotalBonus sample_leaves = 15"
    by (simp add: computeEpochTotalBonus_def sample_leaves_def)
  with fund_calldata_decodes [OF sample_leaves_ok, of 7] show ?thesis by auto
qed

end
