(* ===== verification/Doubles.thy ===== *)
theory Doubles
  imports Prelude Complex_Main
begin

text \<open>
  Numbers that are not integers.  A \<open>number\<close> is a double; a finite one is a rational, and an
  arithmetic operation rounds the exact result to the nearest double, ties to even.  \<open>dbl\<close> is
  that rounding, subnormals included; results beyond the largest double, which the modelled
  code does not reach on its inputs, are not turned into an infinity.  Where an infinity is a
  meaningful input (\<open>maxAge\<close>), it is a value of its own.
\<close>

section \<open>Rounding\<close>

fun nbits :: "nat \<Rightarrow> nat" where
  "nbits n = (if n = 0 then 0 else Suc (nbits (n div 2)))"

declare nbits.simps [simp del]

text \<open>The largest \<open>e\<close> with \<open>2 ^ e \<le> q\<close>.\<close>

definition binexp :: "rat \<Rightarrow> int" where
  "binexp q =
     (let (a, b) = quotient_of q; e = int (nbits (nat a)) - int (nbits (nat b))
      in if 2 powi e \<le> q then e else e - 1)"

definition round_even :: "rat \<Rightarrow> int" where
  "round_even x =
     (let f = \<lfloor>x\<rfloor>; r = x - of_int f
      in if r < 1 / 2 then f else if r > 1 / 2 then f + 1 else if even f then f else f + 1)"

definition unit_of :: "rat \<Rightarrow> rat" where
  "unit_of q = 2 powi (max (binexp \<bar>q\<bar> - 52) (- 1074))"

definition dbl :: "rat \<Rightarrow> rat" where
  "dbl q = (if q = 0 then 0 else of_int (round_even (q / unit_of q)) * unit_of q)"

text \<open>\<open>Math.round\<close>: the nearest integer, ties towards positive infinity.\<close>

definition js_round :: "rat \<Rightarrow> int" where
  "js_round x = \<lfloor>x + 1 / 2\<rfloor>"

text \<open>\<open>x ?? d\<close>\<close>

definition or_else :: "'a option \<Rightarrow> 'a \<Rightarrow> 'a" where
  "or_else x d = (case x of Some v \<Rightarrow> v | None \<Rightarrow> d)"

section \<open>What rounding keeps\<close>

lemma nbits_bounds: "0 < n \<Longrightarrow> 2 ^ nbits n \<le> 2 * n \<and> n < 2 ^ nbits n"
proof (induction n rule: nbits.induct)
  case (1 n)
  show ?case
  proof (cases "n div 2 = 0")
    case True
    with 1 have "n = 1" by simp
    then show ?thesis by (simp add: nbits.simps)
  next
    case False
    with 1 have "2 ^ nbits (n div 2) \<le> 2 * (n div 2) \<and> n div 2 < 2 ^ nbits (n div 2)" by simp
    then show ?thesis using 1(2) by (subst (1 2) nbits.simps) auto
  qed
qed

lemma nbits_rat:
  assumes "0 < a"
  shows "(2 :: rat) ^ nbits (nat a) \<le> 2 * of_int a \<and> of_int a < (2 :: rat) ^ nbits (nat a)"
proof -
  obtain n where n: "a = int n" "0 < n" using assms by (metis zero_less_imp_eq_int)
  from nbits_bounds [OF n(2)] have "(of_nat (2 ^ nbits n) :: rat) \<le> of_nat (2 * n)" "(of_nat n :: rat) < of_nat (2 ^ nbits n)"
    unfolding of_nat_le_iff of_nat_less_iff by simp_all
  then show ?thesis by (simp add: n)
qed

lemma powi_less: "(2 :: rat) powi m < 2 powi n \<Longrightarrow> m < n"
  using power_int_increasing [of n m "2 :: rat"] by linarith

lemma binexp_bounds:
  assumes "0 < q"
  shows "2 powi (binexp q) \<le> q \<and> q < 2 powi (binexp q + 1)"
proof -
  obtain a b where ab: "quotient_of q = (a, b)" by fastforce
  have b: "0 < b" and q: "q = of_int a / of_int b"
    using quotient_of_denom_pos [OF ab] quotient_of_div [OF ab] by simp_all
  then have a: "0 < a" using assms by (simp add: zero_less_divide_iff)
  define A B :: rat where "A = 2 ^ nbits (nat a)" and "B = 2 ^ nbits (nat b)"
  define e where "e = int (nbits (nat a)) - int (nbits (nat b))"
  note bounds = nbits_rat [OF a, folded A_def] nbits_rat [OF b, folded B_def]
  have pos: "0 < A" "0 < B" "0 < (of_int b :: rat)" using b by (simp_all add: A_def B_def)
  have pe: "2 powi e = A / B" by (simp add: e_def A_def B_def power_int_diff)
  then have pe1: "2 powi (e + 1) = 2 * A / B" "2 powi (e - 1) = A / B / 2"
    by (simp_all add: power_int_add power_int_diff)
  have "of_int a * B < A * (2 * of_int b)" "A * of_int b \<le> (2 * of_int a) * B"
    using bounds pos by (intro mult_less_le_imp_less mult_mono; simp)+
  then have "q < 2 powi (e + 1)" "2 powi (e - 1) \<le> q"
    unfolding pe1 q using pos by (simp_all add: field_simps)
  then show ?thesis
    by (cases "2 powi e \<le> q") (simp_all add: binexp_def ab e_def [symmetric])
qed

lemma round_even_ge: "of_int c \<le> x \<Longrightarrow> c \<le> round_even x"
  unfolding round_even_def by (auto simp: Let_def le_floor_iff intro: add_increasing2 order_trans [of _ "\<lfloor>x\<rfloor>"])

lemma round_even_le:
  assumes "x \<le> of_int c"
  shows "round_even x \<le> c"
proof (cases "x = of_int c")
  case False
  with assms have "\<lfloor>x\<rfloor> < c" by (simp add: floor_less_iff)
  then show ?thesis by (simp add: round_even_def Let_def)
qed (simp add: round_even_def)

lemma round_even_int [simp]: "round_even (of_int c) = c"
  by (simp add: round_even_def)

lemma round_even_error: "\<bar>of_int (round_even x) - x\<bar> \<le> 1 / 2"
proof -
  have "of_int \<lfloor>x\<rfloor> \<le> x" "x < of_int \<lfloor>x\<rfloor> + 1" by linarith+
  then show ?thesis unfolding round_even_def Let_def by (auto simp: abs_le_iff) 
qed

lemma unit_of_pos: "0 < unit_of q"
  by (simp add: unit_of_def)

text \<open>An integer below \<open>2 ^ 53\<close> is not stepped over.\<close>

lemma unit_divides:
  assumes "q \<noteq> 0" and "\<bar>q\<bar> < 2 ^ 53"
  obtains k where "1 = of_int k * unit_of q"
proof -
  from assms(1) have "2 powi (binexp \<bar>q\<bar>) \<le> \<bar>q\<bar>" using binexp_bounds [of "\<bar>q\<bar>"] by simp
  also note assms(2)
  also have "(2 :: rat) ^ 53 = 2 powi 53" by simp
  finally have "binexp \<bar>q\<bar> < 53" by (rule powi_less)
  then have "max (binexp \<bar>q\<bar> - 52) (- 1074) \<le> 0" by simp
  then obtain n where "max (binexp \<bar>q\<bar> - 52) (- 1074) = - int n" by (metis minus_minus neg_0_le_iff_le nonneg_int_cases)
  then have "unit_of q = inverse (2 ^ n)" by (simp add: unit_of_def power_int_minus)
  then have "1 = of_int (2 ^ n) * unit_of q" by simp
  then show thesis by (rule that)
qed

lemma dbl_0 [simp]: "dbl 0 = 0"
  by (simp add: dbl_def)

lemma dbl_between:
  assumes "\<bar>x\<bar> < 2 ^ 53"
  shows "of_int c \<le> x \<Longrightarrow> of_int c \<le> dbl x" and "x \<le> of_int c \<Longrightarrow> dbl x \<le> of_int c"
proof -
  have "(of_int c \<le> x \<longrightarrow> of_int c \<le> dbl x) \<and> (x \<le> of_int c \<longrightarrow> dbl x \<le> of_int c)"
  proof (cases "x = 0")
    case False
    obtain k where k: "1 = of_int k * unit_of x" using unit_divides [OF False assms] .
    have c: "of_int c = of_int (c * k) * unit_of x" using k by (simp add: mult.assoc flip: k)
    have "of_int (c * k) \<le> x / unit_of x" if "of_int c \<le> x"
      using that unit_of_pos [of x] by (simp add: c pos_le_divide_eq del: of_int_mult)
    moreover have "x / unit_of x \<le> of_int (c * k)" if "x \<le> of_int c"
      using that unit_of_pos [of x] by (simp add: c pos_divide_le_eq del: of_int_mult)
    ultimately show ?thesis using False unit_of_pos [of x]
      by (auto simp: c dbl_def simp del: of_int_mult intro!: mult_right_mono round_even_ge round_even_le)
  qed simp
  then show "of_int c \<le> x \<Longrightarrow> of_int c \<le> dbl x" and "x \<le> of_int c \<Longrightarrow> dbl x \<le> of_int c" by blast+
qed

lemma dbl_int [simp]: "\<bar>c\<bar> < 2 ^ 53 \<Longrightarrow> dbl (of_int c) = of_int c"
proof -
  assume "\<bar>c\<bar> < 2 ^ 53"
  then have "\<bar>of_int c :: rat\<bar> < 2 ^ 53"
    by (metis of_int_abs of_int_less_iff of_int_numeral of_int_power)
  from dbl_between [OF this, of c] show ?thesis by simp
qed

lemma dbl_big:
  assumes "2 ^ 53 \<le> x"
  shows "2 ^ 53 \<le> dbl x"
proof -
  have "(0 :: rat) < 2 ^ 53" by simp
  with assms have x: "0 < x" by linarith
  note b = binexp_bounds [OF x]
  have "(2 :: rat) powi 53 < 2 powi (binexp x + 1)" using assms b by simp
  then have e: "53 \<le> binexp x" using powi_less [of 53 "binexp x + 1"] by simp
  then have u: "unit_of x = 2 powi (binexp x - 52)" using x by (simp add: unit_of_def)
  have "2 powi (binexp x) = 2 powi 52 * unit_of x" by (simp add: u power_int_diff)
  then have "of_int (2 ^ 52) \<le> x / unit_of x" using b unit_of_pos [of x] by (simp add: pos_le_divide_eq)
  then have "(2 :: rat) ^ 52 \<le> of_int (round_even (x / unit_of x))"
    using round_even_ge [of "2 ^ 52"] by (metis of_int_le_iff of_int_numeral of_int_power)
  moreover have "(2 :: rat) powi 1 \<le> unit_of x" unfolding u using e by (intro power_int_increasing) auto
  ultimately have "(2 :: rat) ^ 52 * 2 \<le> of_int (round_even (x / unit_of x)) * unit_of x"
    by (intro mult_mono) auto
  with x show ?thesis by (simp add: dbl_def)
qed

lemma dbl_ge_int:
  assumes "of_int c \<le> x" and "\<bar>c\<bar> < 2 ^ 53" and "0 \<le> x"
  shows "of_int c \<le> dbl x"
proof (cases "x < 2 ^ 53")
  case True
  with assms show ?thesis by (intro dbl_between) simp_all
next
  case False
  have "(of_int c :: rat) < of_int (2 ^ 53)" using assms(2) unfolding of_int_less_iff by linarith
  with False dbl_big [of x] show ?thesis by simp
qed

lemma js_round_ge: "of_int c \<le> x \<Longrightarrow> c \<le> js_round x"
  unfolding js_round_def by (simp add: le_floor_iff)

lemma js_round_le: "x \<le> of_int c \<Longrightarrow> js_round x \<le> c"
  unfolding js_round_def by (simp add: floor_le_iff)

lemma js_round_int [simp]: "js_round (of_int c) = c"
  by (rule antisym; rule js_round_le js_round_ge) simp_all

end
