(* ===== verification/Difficulty.thy ===== *)
theory Difficulty
  imports Doubles
begin

text \<open>
  \<open>src/rewards/difficulty.ts\<close> and \<open>isMajorDelta\<close> of \<open>src/rewards/baseline.ts\<close>: the
  improvement threshold of the next epoch.  Thresholds are \<open>bigint\<close>s, counts and ratios
  doubles, rounded by \<open>dbl\<close>.
\<close>

section \<open>The controller\<close>

definition MIN_IMPROVEMENT_PPM :: int where "MIN_IMPROVEMENT_PPM = 2500"
definition MAX_IMPROVEMENT_PPM :: int where "MAX_IMPROVEMENT_PPM = 150000"

record difficulty_inputs =
  di_current :: int
  di_observedAdvances :: rat
  di_targetAdvances :: rat
  di_qualityAttempts :: rat
  di_qualityHighThreshold :: "rat option"
  di_rampUpMaxRatio :: "rat option"
  di_decayRatio :: "rat option"
  di_smallDriftRatio :: "rat option"
  di_underTargetRecoveryRatio :: "rat option"
  di_majorDeltaActive :: "bool option"
  di_minClampPpm :: "int option"
  di_maxClampPpm :: "int option"

datatype difficulty_reason =
  ramp_up | decay | no_change | small_drift_up | small_drift_down | under_target_recovery | major_delta_grace

record difficulty_output =
  do_next :: int
  do_reason :: difficulty_reason
  do_ratioApplied :: rat
  do_clamped :: bool

definition clampPpm :: "int \<Rightarrow> int \<Rightarrow> int \<Rightarrow> int" where
  "clampPpm value lo hi = (if value < lo then lo else if value > hi then hi else value)"

text \<open>The clamp bounds in effect.\<close>

definition min_clamp :: "difficulty_inputs \<Rightarrow> int" where
  "min_clamp inputs =
     (case di_minClampPpm inputs of Some v \<Rightarrow> if v > 0 then v else MIN_IMPROVEMENT_PPM | None \<Rightarrow> MIN_IMPROVEMENT_PPM)"

definition max_clamp :: "difficulty_inputs \<Rightarrow> int" where
  "max_clamp inputs =
     (case di_maxClampPpm inputs of
        Some v \<Rightarrow> if v > min_clamp inputs then v else MAX_IMPROVEMENT_PPM | None \<Rightarrow> MAX_IMPROVEMENT_PPM)"

text \<open>The branches that choose the ratio.\<close>

definition choose_ratio :: "difficulty_inputs \<Rightarrow> rat \<times> difficulty_reason" where
  "choose_ratio inputs =
     (let observedAdvances = di_observedAdvances inputs;
          targetAdvances = di_targetAdvances inputs;
          qualityAttempts = di_qualityAttempts inputs;
          rampUpMaxRatio = or_else (di_rampUpMaxRatio inputs) (dbl (15 / 10));
          decayRatio = or_else (di_decayRatio inputs) (dbl (85 / 100));
          underTargetRecoveryRatio = or_else (di_underTargetRecoveryRatio inputs) (dbl (95 / 100));
          qualityHighThreshold = or_else (di_qualityHighThreshold inputs) (dbl (4 * targetAdvances))
      in if targetAdvances \<le> 0 then (1, no_change)
         else if observedAdvances > targetAdvances then
           (let raw = dbl (observedAdvances / targetAdvances);
                bounded = min (max raw 1) rampUpMaxRatio
            in (bounded, ramp_up))
         else if observedAdvances = 0 \<and> qualityAttempts \<ge> qualityHighThreshold then (decayRatio, decay)
         else if observedAdvances = 0 \<and> qualityAttempts = 0 then (dbl (95 / 100), small_drift_down)
         else if observedAdvances < targetAdvances \<and> qualityAttempts > 0 then
           (underTargetRecoveryRatio, under_target_recovery)
         else (1, no_change))"

definition nextMinImprovementPpm :: "difficulty_inputs \<Rightarrow> difficulty_output" where
  "nextMinImprovementPpm inputs =
     (let minClamp = min_clamp inputs; maxClamp = max_clamp inputs in
      if di_majorDeltaActive inputs = Some True
      then \<lparr> do_next = clampPpm (di_current inputs) minClamp maxClamp, do_reason = major_delta_grace,
             do_ratioApplied = 1, do_clamped = False \<rparr>
      else
        (let (ratio, reason) = choose_ratio inputs;
             unclamped = js_round (dbl (dbl (of_int (di_current inputs)) * ratio));
             next' = clampPpm unclamped minClamp maxClamp;
             clamped = (unclamped < minClamp \<or> unclamped > maxClamp)
         in \<lparr> do_next = next', do_reason = reason, do_ratioApplied = ratio, do_clamped = clamped \<rparr>))"

section \<open>The histogram\<close>

record difficulty_entry =
  dh_epoch :: rat
  dh_current :: int
  dh_next :: int
  dh_reason :: difficulty_reason

record difficulty_histogram =
  dh_byEpoch :: "difficulty_entry list"
  dh_rampUps :: int
  dh_decays :: int
  dh_clampHits :: int

definition histogram_step :: "difficulty_histogram \<Rightarrow> rat \<times> difficulty_inputs \<Rightarrow> difficulty_histogram" where
  "histogram_step h = (\<lambda>(epoch, inputs).
     (let output = nextMinImprovementPpm inputs in
      \<lparr> dh_byEpoch = dh_byEpoch h @ [\<lparr> dh_epoch = epoch, dh_current = di_current inputs,
          dh_next = do_next output, dh_reason = do_reason output \<rparr>],
        dh_rampUps = (if do_reason output = ramp_up then dh_rampUps h + 1 else dh_rampUps h),
        dh_decays = (if do_reason output = decay then dh_decays h + 1 else dh_decays h),
        dh_clampHits = (if do_clamped output then dh_clampHits h + 1 else dh_clampHits h) \<rparr>))"

definition difficultyHistogram :: "(rat \<times> difficulty_inputs) list \<Rightarrow> difficulty_histogram" where
  "difficultyHistogram snapshots =
     foldl histogram_step \<lparr> dh_byEpoch = [], dh_rampUps = 0, dh_decays = 0, dh_clampHits = 0 \<rparr> snapshots"

definition isMajorDelta :: "rat \<Rightarrow> rat \<Rightarrow> rat \<Rightarrow> bool" where
  "isMajorDelta newEvalHiddenCount prevEvalHiddenCount majorDeltaThreshold =
     (dbl (newEvalHiddenCount - prevEvalHiddenCount) \<ge> majorDeltaThreshold)"

section \<open>The window\<close>

text \<open>A call as production makes it: no calibration overrides, and ratios on the right side of 1.\<close>

definition production_inputs :: "difficulty_inputs \<Rightarrow> bool" where
  "production_inputs i \<longleftrightarrow> di_minClampPpm i = None \<and> di_maxClampPpm i = None \<and>
     1 \<le> or_else (di_rampUpMaxRatio i) (dbl (15 / 10)) \<and>
     0 \<le> or_else (di_decayRatio i) (dbl (85 / 100)) \<and> or_else (di_decayRatio i) (dbl (85 / 100)) \<le> 1 \<and>
     0 \<le> or_else (di_underTargetRecoveryRatio i) (dbl (95 / 100)) \<and>
     or_else (di_underTargetRecoveryRatio i) (dbl (95 / 100)) \<le> 1"

lemma clampPpm_range: "lo \<le> hi \<Longrightarrow> lo \<le> clampPpm v lo hi \<and> clampPpm v lo hi \<le> hi"
  by (simp add: clampPpm_def)

lemma clampPpm_id: "lo \<le> v \<Longrightarrow> v \<le> hi \<Longrightarrow> clampPpm v lo hi = v"
  by (simp add: clampPpm_def)

lemma clampPpm_mono: "lo \<le> hi \<Longrightarrow> v \<le> w \<Longrightarrow> clampPpm v lo hi \<le> clampPpm w lo hi"
  by (simp add: clampPpm_def)

lemma next_clamped: "\<exists>v. do_next (nextMinImprovementPpm i) = clampPpm v (min_clamp i) (max_clamp i)"
  by (auto simp: nextMinImprovementPpm_def Let_def split: prod.split)

text \<open>
  Fact: the threshold stays in its window.  Without calibration overrides the next threshold is
  between 2,500 and 150,000 ppm on every branch and for all inputs, and an override of the
  floor alone is respected up to the pinned ceiling.
\<close>

theorem threshold_window:
  assumes "di_maxClampPpm i = None" and "min_clamp i \<le> 150000"
  shows "min_clamp i \<le> do_next (nextMinImprovementPpm i) \<and> do_next (nextMinImprovementPpm i) \<le> 150000"
proof -
  have "max_clamp i = 150000" using assms(1) by (simp add: max_clamp_def MAX_IMPROVEMENT_PPM_def)
  with next_clamped [of i] assms(2) show ?thesis by (auto simp: clampPpm_range)
qed

section \<open>Direction\<close>

text \<open>The exact product is compared with the current threshold before it is rounded.\<close>

lemma scaled_up:
  assumes "0 \<le> c" and "c \<le> 150000" and "1 \<le> ratio"
  shows "c \<le> js_round (dbl (dbl (of_int c) * ratio))"
proof -
  have "(of_int c :: rat) * 1 \<le> of_int c * ratio" using assms by (intro mult_left_mono) simp_all
  then show ?thesis using assms by (intro js_round_ge dbl_ge_int) simp_all
qed

lemma small_double: "\<lbrakk>0 \<le> c; c \<le> 150000; 0 \<le> r; r \<le> (1 :: rat)\<rbrakk> \<Longrightarrow> \<bar>of_int c * r\<bar> < 2 ^ 53"
proof -
  assume a: "0 \<le> c" "c \<le> 150000" "0 \<le> r" "r \<le> (1 :: rat)"
  then have "of_int c * r \<le> (of_int 150000 :: rat) * 1" by (intro mult_mono) simp_all
  with a show ?thesis by simp
qed

lemma scaled_down:
  assumes "0 \<le> c" and "c \<le> 150000" and "0 \<le> r" and "r \<le> 1" and "of_int c * r \<le> of_int b"
  shows "js_round (dbl (dbl (of_int c) * r)) \<le> b"
  using assms small_double [OF assms(1-4)] by (intro js_round_le dbl_between(2)) simp_all

lemma drift_literal: "0 \<le> dbl (95 / 100)" "dbl (95 / 100) \<le> 951 / 1000"
  by code_simp+

text \<open>
  C36: the controller moves the right way.  For a threshold in the window and sane ratios: more
  advances than the target never lower it, no more than the target never raise it, exactly
  the target leaves it alone, and during the grace epoch it is frozen.  The rounding of the
  product to a double does not turn any of these around.
\<close>

theorem threshold_direction:
  assumes "production_inputs i" and "2500 \<le> di_current i" and "di_current i \<le> 150000"
  defines "nxt \<equiv> do_next (nextMinImprovementPpm i)"
  shows "(di_targetAdvances i < di_observedAdvances i \<longrightarrow> di_current i \<le> nxt) \<and>
    (di_observedAdvances i \<le> di_targetAdvances i \<longrightarrow> nxt \<le> di_current i) \<and>
    (di_observedAdvances i = di_targetAdvances i \<and> di_observedAdvances i \<noteq> 0 \<or> di_majorDeltaActive i = Some True \<or>
      di_targetAdvances i \<le> 0 \<longrightarrow> nxt = di_current i)"
proof -
  define v where "v = js_round (dbl (dbl (of_int (di_current i)) * fst (choose_ratio i)))"
  have clamps: "min_clamp i = 2500" "max_clamp i = 150000"
    using assms(1) by (simp_all add: production_inputs_def min_clamp_def max_clamp_def MIN_IMPROVEMENT_PPM_def MAX_IMPROVEMENT_PPM_def)
  have nxt: "nxt = (if di_majorDeltaActive i = Some True then di_current i else clampPpm v 2500 150000)"
    using assms(2,3) by (simp add: nxt_def nextMinImprovementPpm_def clamps v_def case_prod_beta Let_def clampPpm_id)
  have up: "1 \<le> fst (choose_ratio i)" if "di_targetAdvances i < di_observedAdvances i"
    using that assms(1) by (simp add: choose_ratio_def production_inputs_def Let_def)
  have down: "0 \<le> fst (choose_ratio i) \<and> fst (choose_ratio i) \<le> 1" if "di_observedAdvances i \<le> di_targetAdvances i"
    using that assms(1) drift_literal by (simp add: choose_ratio_def production_inputs_def Let_def)
  have same: "fst (choose_ratio i) = 1" if "di_observedAdvances i = di_targetAdvances i \<and> di_observedAdvances i \<noteq> 0 \<or> di_targetAdvances i \<le> 0"
    using that by (auto simp: choose_ratio_def Let_def)
  have "di_current i \<le> v" if "1 \<le> fst (choose_ratio i)"
    unfolding v_def using assms(2,3) that by (intro scaled_up) simp_all
  moreover have "v \<le> di_current i" if "0 \<le> fst (choose_ratio i)" "fst (choose_ratio i) \<le> 1"
  proof -
    have "(of_int (di_current i) :: rat) * fst (choose_ratio i) \<le> of_int (di_current i) * 1"
      using assms(2) that by (intro mult_left_mono) simp_all
    then show ?thesis unfolding v_def using assms(2,3) that by (intro scaled_down) simp_all
  qed
  ultimately show ?thesis using up down same assms(2,3)
    by (auto simp: nxt clampPpm_def)
qed

definition sample_inputs :: difficulty_inputs where
  "sample_inputs = \<lparr> di_current = 20000, di_observedAdvances = 7, di_targetAdvances = 5, di_qualityAttempts = 9,
     di_qualityHighThreshold = None, di_rampUpMaxRatio = None, di_decayRatio = None, di_smallDriftRatio = None,
     di_underTargetRecoveryRatio = None, di_majorDeltaActive = None, di_minClampPpm = None, di_maxClampPpm = None \<rparr>"

lemma default_ratios: "1 \<le> dbl (15 / 10)" "0 \<le> dbl (85 / 100)" "dbl (85 / 100) \<le> 1" "0 \<le> dbl (95 / 100)" "dbl (95 / 100) \<le> 1"
  by code_simp+

lemma sample_production: "production_inputs sample_inputs"
  by (simp add: production_inputs_def sample_inputs_def or_else_def default_ratios [simplified])

theorem threshold_window_witness:
  "2500 \<le> do_next (nextMinImprovementPpm sample_inputs) \<and> do_next (nextMinImprovementPpm sample_inputs) \<le> 150000"
  using threshold_window [of sample_inputs]
  by (simp add: sample_inputs_def min_clamp_def MIN_IMPROVEMENT_PPM_def)

theorem threshold_direction_witness:
  "20000 \<le> do_next (nextMinImprovementPpm sample_inputs) \<and>
   do_next (nextMinImprovementPpm (sample_inputs\<lparr>di_observedAdvances := 2\<rparr>)) \<le> 20000"
proof -
  have "production_inputs (sample_inputs\<lparr>di_observedAdvances := 2\<rparr>)"
    using sample_production by (simp add: production_inputs_def)
  with threshold_direction [OF sample_production] threshold_direction [of "sample_inputs\<lparr>di_observedAdvances := 2\<rparr>"]
  show ?thesis by (simp add: sample_inputs_def)
qed

section \<open>Idle epochs\<close>

definition idle_step :: "difficulty_inputs \<Rightarrow> int \<Rightarrow> int" where
  "idle_step i c = do_next (nextMinImprovementPpm
     (i\<lparr>di_current := c, di_observedAdvances := 0, di_qualityAttempts := 0\<rparr>))"

lemma idle_step_lower:
  assumes "production_inputs i" and "1 \<le> di_targetAdvances i" and "di_qualityHighThreshold i = None"
    and "di_majorDeltaActive i \<noteq> Some True" and "2500 \<le> c" and "c \<le> 150000"
  shows "2500 \<le> idle_step i c \<and> idle_step i c \<le> max 2500 (c - 122)"
proof -
  have "(1 :: rat) \<le> dbl (4 * di_targetAdvances i)" using dbl_ge_int [of 1 "4 * di_targetAdvances i"] assms(2) by simp
  then have ratio: "choose_ratio (i\<lparr>di_current := c, di_observedAdvances := 0, di_qualityAttempts := 0\<rparr>) = (dbl (95 / 100), small_drift_down)"
    using assms(2,3) by (simp add: choose_ratio_def or_else_def Let_def)
  have clamps: "min_clamp (i\<lparr>di_current := c, di_observedAdvances := 0, di_qualityAttempts := 0\<rparr>) = 2500"
    "max_clamp (i\<lparr>di_current := c, di_observedAdvances := 0, di_qualityAttempts := 0\<rparr>) = 150000"
    using assms(1) by (simp_all add: production_inputs_def min_clamp_def max_clamp_def MIN_IMPROVEMENT_PPM_def MAX_IMPROVEMENT_PPM_def)
  have "of_int c * dbl (95 / 100) \<le> of_int c * (951 / 1000)"
    using assms(5) drift_literal(2) by (intro mult_left_mono) simp_all
  also have "\<dots> \<le> of_int (c - 122)" using assms(5) by (simp add: field_simps)
  finally have "of_int c * dbl (95 / 100) \<le> of_int (c - 122)" .
  moreover have "dbl (95 / 100) \<le> 1" using drift_literal(2) by linarith
  ultimately have "js_round (dbl (dbl (of_int c) * dbl (95 / 100))) \<le> c - 122"
    using assms(5,6) drift_literal(1) by (intro scaled_down) simp_all
  then show ?thesis using assms(4)
    by (simp add: idle_step_def nextMinImprovementPpm_def ratio clamps clampPpm_def Let_def)
qed

text \<open>
  Fact: idle epochs end at the floor.  With no advances and no attempts the threshold falls by at
  least 122 ppm an epoch, so from anywhere in the window it is at the floor after 1,210 idle
  epochs, and stays there.
\<close>

theorem idle_reaches_floor:
  assumes "production_inputs i" and "1 \<le> di_targetAdvances i" and "di_qualityHighThreshold i = None"
    and "di_majorDeltaActive i \<noteq> Some True" and "2500 \<le> c" and "c \<le> 150000" and "1210 \<le> n"
  shows "(idle_step i ^^ n) c = 2500"
proof -
  have "2500 \<le> (idle_step i ^^ k) c \<and> (idle_step i ^^ k) c \<le> max 2500 (c - 122 * int k)" for k
  proof (induction k)
    case (Suc k)
    then have "(idle_step i ^^ k) c \<le> 150000" using assms(5,6) by linarith
    with idle_step_lower [OF assms(1-4), of "(idle_step i ^^ k) c"] Suc show ?case by (auto simp: max_def split: if_splits)
  qed (use assms(5) in simp)
  from this [of n] assms(6,7) show ?thesis by linarith
qed

theorem idle_reaches_floor_witness: "(idle_step sample_inputs ^^ 1500) 20000 = 2500"
  by (rule idle_reaches_floor [OF sample_production]) (simp_all add: sample_inputs_def)

section \<open>What the histogram counts\<close>

lemma histogram_counts:
  "length (dh_byEpoch (difficultyHistogram xs)) = length xs \<and>
   dh_rampUps (difficultyHistogram xs) = int (length (filter (\<lambda>e. dh_reason e = ramp_up) (dh_byEpoch (difficultyHistogram xs)))) \<and>
   dh_decays (difficultyHistogram xs) = int (length (filter (\<lambda>e. dh_reason e = decay) (dh_byEpoch (difficultyHistogram xs))))"
  unfolding difficultyHistogram_def
  by (induction xs rule: rev_induct) (auto simp: histogram_step_def Let_def split: prod.split)

text \<open>
  Fact: the grace epoch hides a clamp.  During the grace epoch a current value above the window
  is moved into it, and the output still says that nothing was clamped.
\<close>

theorem grace_hides_clamp:
  "do_next (nextMinImprovementPpm (sample_inputs\<lparr>di_current := 200000, di_majorDeltaActive := Some True\<rparr>)) = 150000 \<and>
   \<not> do_clamped (nextMinImprovementPpm (sample_inputs\<lparr>di_current := 200000, di_majorDeltaActive := Some True\<rparr>))"
  by (simp add: nextMinImprovementPpm_def sample_inputs_def min_clamp_def max_clamp_def clampPpm_def
    MIN_IMPROVEMENT_PPM_def MAX_IMPROVEMENT_PPM_def)

text \<open>
  Fact: a floor override above the pinned ceiling inverts the clamp.  The result for a large
  threshold is then the pinned ceiling, below the requested floor.
\<close>

theorem floor_override_inverted:
  "do_next (nextMinImprovementPpm (sample_inputs\<lparr>di_current := 400000, di_minClampPpm := Some 200000, di_observedAdvances := 5\<rparr>)) = 150000"
proof -
  have "dbl 400000 = 400000" using dbl_int [of 400000] by simp
  moreover have "js_round 400000 = 400000" using js_round_int [of 400000] by simp
  ultimately show ?thesis
    by (simp add: nextMinImprovementPpm_def choose_ratio_def sample_inputs_def min_clamp_def max_clamp_def clampPpm_def
      MIN_IMPROVEMENT_PPM_def MAX_IMPROVEMENT_PPM_def Let_def)
qed

end
