(* ===== verification/Epoch_Frontier.thy ===== *)
theory Epoch_Frontier
  imports Doubles Hex_Codec Seed_Derivation "HOL-Library.List_Lexorder" "HOL-Library.Char_ord" "HOL-Library.Multiset"
begin

text \<open>
  \<open>src/coordinator/epoch-frontier.ts\<close>: the frontier of active hidden queries, which retires
  old identifiers and activates reserve identifiers from epoch to epoch.  SHA-256 of
  \<open>node:crypto\<close> and \<open>Math.pow\<close> are parameters.  \<open>None\<close> as the maximal age is \<open>Infinity\<close>; the
  other numbers are finite.
\<close>

section \<open>Parameters and state\<close>

datatype frontier_mode = Off | C0 | C1 | C2 | C3 | C4

record frontier_runtime_state =
  rs_schemaVersion :: string
  rs_order :: "string list"
  rs_reservePtr :: nat
  rs_active :: "(string \<times> rat) list"
  rs_retired :: "string list"
  rs_cumulativeActivated :: int
  rs_cumulativeRetired :: int
  rs_initialized :: bool
  rs_injectedSinceLastStep :: nat
  rs_ewmaAccepts :: "rat option"

record frontier_params =
  fp_evalHiddenIds :: "string list"
  fp_familyOf :: "string \<Rightarrow> string option"
  fp_mode :: "frontier_mode option"
  fp_activeWindow :: "rat option"
  fp_churnRate :: "rat option"
  fp_maxAge :: "rat option"
  fp_lowAdvancesThreshold :: "rat option"
  fp_lowAdvancesBumpRate :: "rat option"
  fp_seed :: "string option"
  fp_minChurn :: "rat option"
  fp_maxChurn :: "rat option"
  fp_targetAccepts :: "rat option"
  fp_headroomLowWatermark :: "rat option"
  fp_headroomHighWatermark :: "rat option"
  fp_ewmaHalfLife :: "rat option"
  fp_expectedYieldPerUnit :: "rat option"
  fp_maxRootDeltaPerEpoch :: "rat option"
  fp_initialState :: "frontier_runtime_state option"

text \<open>What the closure of \<open>makeEpochFrontier\<close> holds fixed, the defaults applied.\<close>

record frontier_config =
  fc_mode :: frontier_mode
  fc_churnRate :: rat
  fc_maxAge :: "rat option"
  fc_lowAdvancesThreshold :: rat
  fc_lowAdvancesBumpRate :: "rat option"
  fc_seed :: string
  fc_minChurn :: rat
  fc_maxChurn :: rat
  fc_targetAccepts :: rat
  fc_headroomLowWatermark :: rat
  fc_headroomHighWatermark :: rat
  fc_ewmaAlpha :: rat
  fc_expectedYieldPerUnit :: rat
  fc_maxRootDeltaPerEpoch :: rat
  fc_K :: rat

text \<open>What it changes.\<close>

record frontier =
  fr_order :: "string list"
  fr_orderIdx :: "string \<Rightarrow> nat option"
  fr_groups :: "(string \<times> string list) list"
  fr_famNames :: "string list"
  fr_reservePtr :: nat
  fr_active :: "(string \<times> rat) list"
  fr_retired :: "string list"
  fr_cumulativeActivated :: int
  fr_cumulativeRetired :: int
  fr_initialized :: bool
  fr_injectedSinceLastStep :: nat
  fr_ewmaAccepts :: "rat option"

record frontier_snapshot =
  fs_epochId :: rat
  fs_activationSeed :: string
  fs_activeEvalHiddenCount :: nat
  fs_activated :: nat
  fs_retired :: nat
  fs_churnRate :: rat
  fs_reserveRemaining :: int
  fs_cumulativeActivated :: int
  fs_cumulativeRetired :: int
  fs_activeIds :: "string list"
  fs_activeRoot :: string
  fs_reserveRoot :: string
  fs_retiredRoot :: string

section \<open>The order of the reserve\<close>

type_synonym digest = "bytes \<Rightarrow> bytes"

definition hex_digest :: "digest \<Rightarrow> string \<Rightarrow> string" where
  "hex_digest sha256 s = drop 2 (bytesToHex (sha256 (encode_ascii s)))"

definition h12 :: "digest \<Rightarrow> string \<Rightarrow> int" where
  "h12 sha256 s = (case parse_int_16 (take 12 (hex_digest sha256 s)) of Some n \<Rightarrow> n | None \<Rightarrow> 0)"

fun join_with :: "string \<Rightarrow> string list \<Rightarrow> string" where
  "join_with sep [] = ''''"
| "join_with sep [s] = s"
| "join_with sep (s # ss) = s @ sep @ join_with sep ss"

definition rootHash :: "digest \<Rightarrow> string list \<Rightarrow> string" where
  "rootHash sha256 ids = ''0x'' @ hex_digest sha256 (join_with ''|'' (sort ids))"

text \<open>\<open>groups.get(f)!.push(id)\<close>, with the empty group set first when there is none.\<close>

definition group_add :: "(string \<Rightarrow> string option) \<Rightarrow> (string \<times> string list) list \<Rightarrow> string \<Rightarrow> (string \<times> string list) list" where
  "group_add familyOf groups i =
     (let f = (case familyOf i of Some f \<Rightarrow> f | None \<Rightarrow> ''unknown'');
          arr = (case map_of groups f of Some arr \<Rightarrow> arr | None \<Rightarrow> [])
      in AList.update f (arr @ [i]) groups)"

definition seed_cmp :: "digest \<Rightarrow> string \<Rightarrow> string \<Rightarrow> string \<Rightarrow> int" where
  "seed_cmp sha256 seed a b =
     (let d = h12 sha256 (seed @ '':'' @ a) - h12 sha256 (seed @ '':'' @ b)
      in if d \<noteq> 0 then d else if a < b then - 1 else 1)"

definition seed_sorted :: "digest \<Rightarrow> string \<Rightarrow> (string \<times> string list) list \<Rightarrow> (string \<times> string list) list" where
  "seed_sorted sha256 seed groups = map (\<lambda>(f, arr). (f, js_sort (seed_cmp sha256 seed) arr)) groups"

text \<open>The loop that takes the \<open>i\<close>-th member of each family in turn, until no family has one.\<close>

definition ith_members :: "string list list \<Rightarrow> nat \<Rightarrow> string list" where
  "ith_members arrs i = map (\<lambda>arr. arr ! i) (filter (\<lambda>arr. i < length arr) arrs)"

function interleave :: "string list list \<Rightarrow> nat \<Rightarrow> string list" where
  "interleave arrs i = (if ith_members arrs i = [] then [] else ith_members arrs i @ interleave arrs (i + 1))"
  by pat_completeness auto
termination
proof (relation "measure (\<lambda>(arrs, i). foldr max (map length arrs) 0 - i)")
  fix arrs :: "string list list" and i
  assume "ith_members arrs i \<noteq> []"
  then obtain arr where "arr \<in> set arrs" "i < length arr"
    by (auto simp: ith_members_def filter_empty_conv)
  then have "i < foldr max (map length arrs) 0" by (induction arrs) auto
  then show "((arrs, i + 1), arrs, i) \<in> measure (\<lambda>(arrs, i). foldr max (map length arrs) 0 - i)" by simp
qed simp

declare interleave.simps [simp del]

definition fam_order :: "(string \<times> string list) list \<Rightarrow> string list \<Rightarrow> string list" where
  "fam_order groups famNames =
     interleave (map (\<lambda>f. case map_of groups f of Some arr \<Rightarrow> arr | None \<Rightarrow> []) famNames) 0"

definition index_map :: "string list \<Rightarrow> string \<Rightarrow> nat option" where
  "index_map order = map_of (rev (zip order [0..<length order]))"

section \<open>Steps\<close>

definition has_key :: "('k \<times> 'v) list \<Rightarrow> 'k \<Rightarrow> bool" where
  "has_key m k \<longleftrightarrow> k \<in> fst ` set m"

function activate_loop :: "rat \<Rightarrow> rat \<Rightarrow> nat \<Rightarrow> frontier \<Rightarrow> nat \<times> frontier" where
  "activate_loop n epoch a fr =
     (if of_nat a < n \<and> fr_reservePtr fr < length (fr_order fr)
      then
        (let i = fr_order fr ! fr_reservePtr fr;
             fr = fr\<lparr>fr_reservePtr := fr_reservePtr fr + 1\<rparr>
         in if \<not> has_key (fr_active fr) i \<and> i \<notin> set (fr_retired fr)
            then activate_loop n epoch (a + 1)
              (fr\<lparr>fr_active := AList.update i epoch (fr_active fr), fr_cumulativeActivated := fr_cumulativeActivated fr + 1\<rparr>)
            else activate_loop n epoch a fr)
      else (a, fr))"
  by pat_completeness auto
termination
  by (relation "measure (\<lambda>(n, epoch, a, fr). length (fr_order fr) - fr_reservePtr fr)") auto

declare activate_loop.simps [simp del]

definition activateNext :: "rat \<Rightarrow> rat \<Rightarrow> frontier \<Rightarrow> nat \<times> frontier" where
  "activateNext n epoch fr = activate_loop n epoch 0 fr"

text \<open>\<open>active.delete(id); retired.add(id); cumulativeRetired++\<close>\<close>

definition retire_one :: "frontier \<Rightarrow> string \<Rightarrow> frontier" where
  "retire_one fr i = fr\<lparr>fr_active := AList.delete i (fr_active fr), fr_retired := set_add (fr_retired fr) i,
     fr_cumulativeRetired := fr_cumulativeRetired fr + 1\<rparr>"

text \<open>The comparison of two active entries: by epoch of activation, then by position; a missing
  position makes it \<open>NaN\<close>, which sorting takes for 0.\<close>

definition age_cmp :: "(string \<Rightarrow> nat option) \<Rightarrow> string \<times> rat \<Rightarrow> string \<times> rat \<Rightarrow> int" where
  "age_cmp orderIdx x y =
     (if snd x < snd y then - 1 else if snd x > snd y then 1
      else (case (orderIdx (fst x), orderIdx (fst y)) of
          (Some a, Some b) \<Rightarrow> int a - int b
        | _ \<Rightarrow> 0))"

definition retireOldest :: "rat \<Rightarrow> frontier \<Rightarrow> nat \<times> frontier" where
  "retireOldest n fr =
     (let sorted = js_sort (age_cmp (fr_orderIdx fr)) (fr_active fr);
          gone = map fst (take (nat \<lceil>n\<rceil>) sorted)
      in (length gone, foldl retire_one fr gone))"

definition snapshot :: "digest \<Rightarrow> frontier_config \<Rightarrow> frontier \<Rightarrow> rat \<Rightarrow> nat \<Rightarrow> nat \<Rightarrow> rat \<Rightarrow> frontier_snapshot" where
  "snapshot sha256 cfg fr epoch activated ret rate =
     \<lparr> fs_epochId = epoch, fs_activationSeed = fc_seed cfg, fs_activeEvalHiddenCount = length (fr_active fr),
       fs_activated = activated, fs_retired = ret, fs_churnRate = rate,
       fs_reserveRemaining = int (length (fr_order fr)) - int (fr_reservePtr fr),
       fs_cumulativeActivated = fr_cumulativeActivated fr, fs_cumulativeRetired = fr_cumulativeRetired fr,
       fs_activeIds = map fst (fr_active fr),
       fs_activeRoot = rootHash sha256 (map fst (fr_active fr)),
       fs_reserveRoot = rootHash sha256 (drop (fr_reservePtr fr) (fr_order fr)),
       fs_retiredRoot = rootHash sha256 (fr_retired fr) \<rparr>"

text \<open>The retirement by age at the start of a step.\<close>

definition retire_aged :: "frontier_config \<Rightarrow> rat \<Rightarrow> frontier \<Rightarrow> nat \<times> frontier" where
  "retire_aged cfg epoch fr =
     (case fc_maxAge cfg of None \<Rightarrow> (0, fr)
      | Some maxAge \<Rightarrow>
          (let aged = map fst (filter (\<lambda>(i, ae). dbl (epoch - ae) \<ge> maxAge) (fr_active fr))
           in (length aged, foldl retire_one fr aged)))"

definition update_ewma :: "frontier_config \<Rightarrow> rat option \<Rightarrow> frontier \<Rightarrow> frontier" where
  "update_ewma cfg prevHonestAccepts fr =
     (case prevHonestAccepts of None \<Rightarrow> fr
      | Some p \<Rightarrow> fr\<lparr>fr_ewmaAccepts :=
          (case fr_ewmaAccepts fr of None \<Rightarrow> Some p
           | Some e \<Rightarrow> Some (dbl (dbl (fc_ewmaAlpha cfg * p) + dbl (dbl (1 - fc_ewmaAlpha cfg) * e))))\<rparr>)"

definition churn_rate :: "frontier_config \<Rightarrow> rat option \<Rightarrow> rat option \<Rightarrow> frontier \<Rightarrow> rat" where
  "churn_rate cfg prevHonestAccepts prevQualityAttempts fr =
     (let injected = of_nat (fr_injectedSinceLastStep fr) :: rat;
          clamp = (\<lambda>x. min (fc_maxChurn cfg) (max (fc_minChurn cfg) x));
          rate =
            (if fc_mode cfg = C1 then fc_churnRate cfg
             else if fc_mode cfg = C2 then
               (case prevHonestAccepts of
                  Some p \<Rightarrow> if p < fc_lowAdvancesThreshold cfg
                    then (case fc_lowAdvancesBumpRate cfg of Some b \<Rightarrow> b | None \<Rightarrow> dbl (fc_churnRate cfg * 2))
                    else fc_churnRate cfg
                | None \<Rightarrow> fc_churnRate cfg)
             else if fc_mode cfg = C4 then fc_minChurn cfg
             else if fc_mode cfg = C3 \<and> prevQualityAttempts = Some 0 then
               (if injected > 0 then clamp injected else 0)
             else
               (let recent = (case fr_ewmaAccepts fr of Some e \<Rightarrow> e | None \<Rightarrow> fc_targetAccepts cfg);
                    deficit = dbl (fc_targetAccepts cfg - recent)
                in if recent \<le> fc_headroomLowWatermark cfg
                   then clamp (of_int \<lceil>dbl (max 0 deficit / max (dbl (1 / 10 ^ 6)) (fc_expectedYieldPerUnit cfg))\<rceil>)
                   else if recent \<ge> fc_headroomHighWatermark cfg then 0
                   else fc_minChurn cfg));
          rate = (if fc_mode cfg = C3 \<and> injected > 0 then max rate (clamp injected) else rate);
          rate = min rate (fc_maxRootDeltaPerEpoch cfg)
      in min rate (max 0 (of_int (int (length (fr_order fr)) - int (fr_reservePtr fr)))))"

definition stepEpoch ::
  "digest \<Rightarrow> frontier_config \<Rightarrow> rat \<Rightarrow> rat option \<Rightarrow> rat option \<Rightarrow> frontier \<Rightarrow> frontier_snapshot \<times> frontier" where
  "stepEpoch sha256 cfg epoch prevHonestAccepts prevQualityAttempts fr =
     (if \<not> fr_initialized fr
      then
        (let (a, fr) = activateNext (fc_K cfg) epoch (fr\<lparr>fr_initialized := True\<rparr>);
             fr = fr\<lparr>fr_injectedSinceLastStep := 0\<rparr>
         in (snapshot sha256 cfg fr epoch a 0 0, fr))
      else
        (let (ret, fr) = retire_aged cfg epoch fr in
         if fc_mode cfg = Off \<or> fc_mode cfg = C0
         then
           (let (a, fr) = activateNext (of_nat ret) epoch fr;
                fr = fr\<lparr>fr_injectedSinceLastStep := 0\<rparr>
            in (snapshot sha256 cfg fr epoch a ret 0, fr))
         else
           (let fr = update_ewma cfg prevHonestAccepts fr;
                rate = churn_rate cfg prevHonestAccepts prevQualityAttempts fr;
                (r, fr) = retireOldest rate fr;
                ret = ret + r;
                (a, fr) = activateNext (of_nat ret) epoch fr;
                fr = fr\<lparr>fr_injectedSinceLastStep := 0\<rparr>
            in (snapshot sha256 cfg fr epoch a ret rate, fr))))"

section \<open>Injection, export and construction\<close>

definition addReserveIds :: "digest \<Rightarrow> frontier_config \<Rightarrow> string list \<Rightarrow> (string \<Rightarrow> string option) \<Rightarrow> frontier \<Rightarrow> nat \<times> frontier" where
  "addReserveIds sha256 cfg newIds familyOfFn fr =
     (let unseen = filter (\<lambda>i. \<not> has_key (fr_active fr) i \<and> i \<notin> set (fr_retired fr) \<and> fr_orderIdx fr i = None) newIds in
      if length unseen = 0 then (0, fr)
      else
        (let newByFam = seed_sorted sha256 (fc_seed cfg) (foldl (group_add familyOfFn) [] unseen);
             newFamNames = sort (map fst newByFam);
             newOrderSegment = fam_order newByFam newFamNames;
             order = take (fr_reservePtr fr) (fr_order fr) @ newOrderSegment @ drop (fr_reservePtr fr) (fr_order fr);
             famNames = sort (foldl set_add (fr_famNames fr) newFamNames);
             groups = foldl (\<lambda>g (f, ids). AList.update f
               ((case map_of g f of Some arr \<Rightarrow> arr | None \<Rightarrow> []) @ ids) g) (fr_groups fr) newByFam
         in (length unseen, fr\<lparr>fr_order := order, fr_orderIdx := index_map order, fr_groups := groups,
              fr_famNames := famNames, fr_injectedSinceLastStep := fr_injectedSinceLastStep fr + length unseen\<rparr>)))"

definition SCHEMA_VERSION :: string where
  "SCHEMA_VERSION = ''coretex.epoch-frontier-state.v1''"

definition exportState :: "frontier \<Rightarrow> frontier_runtime_state" where
  "exportState fr =
     \<lparr> rs_schemaVersion = SCHEMA_VERSION, rs_order = fr_order fr, rs_reservePtr = fr_reservePtr fr,
       rs_active = fr_active fr, rs_retired = fr_retired fr, rs_cumulativeActivated = fr_cumulativeActivated fr,
       rs_cumulativeRetired = fr_cumulativeRetired fr, rs_initialized = fr_initialized fr,
       rs_injectedSinceLastStep = fr_injectedSinceLastStep fr, rs_ewmaAccepts = fr_ewmaAccepts fr \<rparr>"

definition check_initial_state :: "string list \<Rightarrow> frontier_runtime_state \<Rightarrow> js_error + unit" where
  "check_initial_state evalHiddenIds s =
     (if rs_schemaVersion s \<noteq> SCHEMA_VERSION then Inl (Error ''makeEpochFrontier: unsupported initialState schema'')
      else if \<not> list_all (\<lambda>i. i \<in> set evalHiddenIds) (rs_order s)
      then Inl (Error ''makeEpochFrontier: initialState order contains unknown id'')
      else if \<not> list_all (\<lambda>(i, e). i \<in> set evalHiddenIds) (rs_active s)
      then Inl (Error ''makeEpochFrontier: initialState active contains unknown id'')
      else if \<not> list_all (\<lambda>i. i \<in> set evalHiddenIds) (rs_retired s)
      then Inl (Error ''makeEpochFrontier: initialState retired contains unknown id'')
      else Inr ())"

definition frontier_defaults :: "(rat \<Rightarrow> rat \<Rightarrow> rat) \<Rightarrow> frontier_params \<Rightarrow> nat \<Rightarrow> frontier_config" where
  "frontier_defaults math_pow p order_length =
     \<lparr> fc_mode = or_else (fp_mode p) Off, fc_churnRate = or_else (fp_churnRate p) 4, fc_maxAge = fp_maxAge p,
       fc_lowAdvancesThreshold = or_else (fp_lowAdvancesThreshold p) 1,
       fc_lowAdvancesBumpRate = fp_lowAdvancesBumpRate p, fc_seed = or_else (fp_seed p) ''frontier'',
       fc_minChurn = or_else (fp_minChurn p) 2, fc_maxChurn = or_else (fp_maxChurn p) 12,
       fc_targetAccepts = or_else (fp_targetAccepts p) 2,
       fc_headroomLowWatermark = or_else (fp_headroomLowWatermark p) 1,
       fc_headroomHighWatermark = or_else (fp_headroomHighWatermark p) 3,
       fc_ewmaAlpha = dbl (1 - math_pow (1 / 2) (dbl (1 / max (1 / 2) (or_else (fp_ewmaHalfLife p) 3)))),
       fc_expectedYieldPerUnit = or_else (fp_expectedYieldPerUnit p) (dbl (17 / 100)),
       fc_maxRootDeltaPerEpoch = or_else (fp_maxRootDeltaPerEpoch p) 24,
       fc_K = min (or_else (fp_activeWindow p) (of_nat order_length)) (of_nat order_length) \<rparr>"

definition makeEpochFrontier ::
  "digest \<Rightarrow> (rat \<Rightarrow> rat \<Rightarrow> rat) \<Rightarrow> frontier_params \<Rightarrow> js_error + frontier_config \<times> frontier" where
  "makeEpochFrontier sha256 math_pow p =
     (let seed = or_else (fp_seed p) ''frontier'';
          groups = seed_sorted sha256 seed (foldl (group_add (fp_familyOf p)) [] (fp_evalHiddenIds p));
          famNames = sort (map fst groups);
          order = fam_order groups famNames
      in case fp_initialState p of
        None \<Rightarrow> Inr (frontier_defaults math_pow p (length order),
          \<lparr> fr_order = order, fr_orderIdx = index_map order, fr_groups = groups, fr_famNames = famNames,
            fr_reservePtr = 0, fr_active = [], fr_retired = [], fr_cumulativeActivated = 0, fr_cumulativeRetired = 0,
            fr_initialized = False, fr_injectedSinceLastStep = 0, fr_ewmaAccepts = None \<rparr>)
      | Some s \<Rightarrow> bind_res (check_initial_state (fp_evalHiddenIds p) s) (\<lambda>_.
          Inr (frontier_defaults math_pow p (length (rs_order s)),
          \<lparr> fr_order = rs_order s, fr_orderIdx = index_map (rs_order s), fr_groups = groups, fr_famNames = famNames,
            fr_reservePtr = rs_reservePtr s, fr_active = foldl (\<lambda>m (i, e). AList.update i e m) [] (rs_active s),
            fr_retired = foldl set_add [] (rs_retired s), fr_cumulativeActivated = rs_cumulativeActivated s,
            fr_cumulativeRetired = rs_cumulativeRetired s, fr_initialized = rs_initialized s,
            fr_injectedSinceLastStep = rs_injectedSinceLastStep s, fr_ewmaAccepts = rs_ewmaAccepts s \<rparr>)))"

section \<open>The launch frontier\<close>

record frontier_event =
  fe_id :: string
  fe_split :: "string option"
  fe_logicalFamily :: "string option"
  fe_family :: "string option"

definition makeLaunchFrontier ::
  "digest \<Rightarrow> (rat \<Rightarrow> rat \<Rightarrow> rat) \<Rightarrow> frontier_params option \<Rightarrow> frontier_event list \<Rightarrow>
   (js_error + frontier_config \<times> frontier) option" where
  "makeLaunchFrontier sha256 math_pow profile events =
     (case profile of None \<Rightarrow> None
      | Some fp \<Rightarrow>
          if fp_mode fp = Some Off then None
          else
            (let evalHidden = filter (\<lambda>e. fe_split e = Some ''eval_hidden'') events;
                 evalHiddenIds = map fe_id evalHidden;
                 famById = map_of (rev (map (\<lambda>e. (fe_id e, or_else (fe_logicalFamily e)
                   (or_else (fe_family e) ''unknown''))) evalHidden));
                 familyOf = (\<lambda>i. Some (or_else (famById i) ''unknown''))
             in Some (makeEpochFrontier sha256 math_pow
               \<lparr> fp_evalHiddenIds = evalHiddenIds, fp_familyOf = familyOf, fp_mode = fp_mode fp,
                 fp_activeWindow = fp_activeWindow fp, fp_churnRate = None, fp_maxAge = fp_maxAge fp,
                 fp_lowAdvancesThreshold = None, fp_lowAdvancesBumpRate = None, fp_seed = fp_seed fp,
                 fp_minChurn = fp_minChurn fp, fp_maxChurn = fp_maxChurn fp, fp_targetAccepts = fp_targetAccepts fp,
                 fp_headroomLowWatermark = fp_headroomLowWatermark fp,
                 fp_headroomHighWatermark = fp_headroomHighWatermark fp, fp_ewmaHalfLife = fp_ewmaHalfLife fp,
                 fp_expectedYieldPerUnit = fp_expectedYieldPerUnit fp,
                 fp_maxRootDeltaPerEpoch = fp_maxRootDeltaPerEpoch fp, fp_initialState = None \<rparr>)))"

section \<open>The invariant\<close>

text \<open>
  What has left the reserve is active or retired and not both, nothing is listed twice, and the
  counters count it.
\<close>

definition frontier_inv :: "frontier \<Rightarrow> bool" where
  "frontier_inv fr \<longleftrightarrow>
     fr_reservePtr fr \<le> length (fr_order fr) \<and> fr_orderIdx fr = index_map (fr_order fr) \<and>
     distinct (map fst (fr_active fr)) \<and> distinct (fr_retired fr) \<and>
     fst ` set (fr_active fr) \<inter> set (fr_retired fr) = {} \<and>
     set (take (fr_reservePtr fr) (fr_order fr)) = fst ` set (fr_active fr) \<union> set (fr_retired fr) \<and>
     fr_cumulativeActivated fr = int (length (fr_active fr) + length (fr_retired fr)) \<and>
     fr_cumulativeRetired fr = int (length (fr_retired fr))"

lemma update_fresh: "i \<notin> fst ` set m \<Longrightarrow> AList.update i e m = m @ [(i, e)]"
  by (induction m) auto

lemma frontier_inv_frame:
  "frontier_inv (fr\<lparr>fr_initialized := b\<rparr>) = frontier_inv fr"
  "frontier_inv (fr\<lparr>fr_injectedSinceLastStep := n\<rparr>) = frontier_inv fr"
  "frontier_inv (fr\<lparr>fr_ewmaAccepts := e\<rparr>) = frontier_inv fr"
  by (simp_all add: frontier_inv_def)

lemma activate_advance:
  assumes "frontier_inv fr" and "fr_reservePtr fr < length (fr_order fr)"
  defines "i \<equiv> fr_order fr ! fr_reservePtr fr" and "fr1 \<equiv> fr\<lparr>fr_reservePtr := fr_reservePtr fr + 1\<rparr>"
  shows "i \<notin> fst ` set (fr_active fr) \<Longrightarrow> i \<notin> set (fr_retired fr) \<Longrightarrow>
      frontier_inv (fr1\<lparr>fr_active := AList.update i e (fr_active fr1), fr_cumulativeActivated := fr_cumulativeActivated fr1 + 1\<rparr>)"
    and "\<not> (i \<notin> fst ` set (fr_active fr) \<and> i \<notin> set (fr_retired fr)) \<Longrightarrow> frontier_inv fr1"
  using assms(1,2) by (auto simp: frontier_inv_def i_def fr1_def update_fresh take_Suc_conv_app_nth)

text \<open>What a run of activations does: it keeps the order, the retired set and the invariant, and
  appends entries activated now.\<close>

lemma activate_loop_inv:
  assumes "frontier_inv fr" and "activate_loop n epoch a fr = (a', fr')"
  shows "frontier_inv fr' \<and> fr_order fr' = fr_order fr \<and> fr_retired fr' = fr_retired fr \<and> a \<le> a' \<and>
    (\<exists>new. fr_active fr' = fr_active fr @ map (\<lambda>i. (i, epoch)) new \<and> length new = a' - a) \<and>
    fr_reservePtr fr \<le> fr_reservePtr fr' \<and> a' \<le> max a (nat \<lceil>n\<rceil>) \<and> fr_initialized fr' = fr_initialized fr"
  using assms
proof (induction n epoch a fr rule: activate_loop.induct)
  case (1 n epoch a fr)
  define i where "i = fr_order fr ! fr_reservePtr fr"
  define fr1 where "fr1 = fr\<lparr>fr_reservePtr := fr_reservePtr fr + 1\<rparr>"
  define fr2 where "fr2 = fr1\<lparr>fr_active := AList.update i epoch (fr_active fr1), fr_cumulativeActivated := fr_cumulativeActivated fr1 + 1\<rparr>"
  show ?case
  proof (cases "of_nat a < n \<and> fr_reservePtr fr < length (fr_order fr)")
    case False
    with 1(4) have "a' = a" "fr' = fr" by (simp_all add: activate_loop.simps [of n epoch a fr] split: if_splits)
    then show ?thesis using 1(3) by simp
  next
    case True
    note adv = activate_advance [OF 1(3) conjunct2 [OF True], folded i_def, folded fr1_def]
    show ?thesis
    proof (cases "i \<notin> fst ` set (fr_active fr) \<and> i \<notin> set (fr_retired fr)")
      case fresh: True
      have "activate_loop n epoch (a + 1) fr2 = (a', fr')"
        using 1(4) True fresh by (subst (asm) activate_loop.simps) (simp add: i_def fr1_def fr2_def Let_def has_key_def)
      moreover have "frontier_inv fr2" using adv(1) fresh by (simp add: fr2_def)
      ultimately have IH: "frontier_inv fr' \<and> fr_order fr' = fr_order fr2 \<and> fr_retired fr' = fr_retired fr2 \<and> a + 1 \<le> a' \<and>
          (\<exists>new. fr_active fr' = fr_active fr2 @ map (\<lambda>i. (i, epoch)) new \<and> length new = a' - (a + 1)) \<and>
          fr_reservePtr fr2 \<le> fr_reservePtr fr' \<and> a' \<le> max (a + 1) (nat \<lceil>n\<rceil>) \<and> fr_initialized fr' = fr_initialized fr2"
        using 1(1) [of i fr1] True fresh unfolding i_def [symmetric] fr1_def [symmetric] fr2_def [symmetric]
        by (simp add: has_key_def fr1_def)
      then obtain new where "fr_active fr' = fr_active fr2 @ map (\<lambda>i. (i, epoch)) new" "length new = a' - (a + 1)" by blast
      then have "fr_active fr' = fr_active fr @ map (\<lambda>i. (i, epoch)) (i # new)" "length (i # new) = a' - a"
        using fresh IH by (auto simp: fr2_def fr1_def update_fresh)
      then have "\<exists>new. fr_active fr' = fr_active fr @ map (\<lambda>i. (i, epoch)) new \<and> length new = a' - a" by blast
      moreover have "a + 1 \<le> nat \<lceil>n\<rceil>" using True by linarith
      moreover have "fr_order fr' = fr_order fr \<and> fr_retired fr' = fr_retired fr \<and> a \<le> a' \<and>
          fr_reservePtr fr \<le> fr_reservePtr fr' \<and> fr_initialized fr' = fr_initialized fr"
        using IH by (simp add: fr2_def fr1_def)
      ultimately show ?thesis using IH by (simp add: max_def split: if_splits)
    next
      case seen: False
      have "activate_loop n epoch a fr1 = (a', fr')"
        using 1(4) True seen by (subst (asm) activate_loop.simps) (simp add: i_def [symmetric] Let_def has_key_def, simp add: fr1_def)
      then show ?thesis using 1(2) [of i fr1] True seen adv(2)
        unfolding i_def [symmetric] fr1_def [symmetric] by (auto simp: has_key_def fr1_def)
    qed
  qed
qed

lemmas activateNext_inv = activate_loop_inv [where a = 0, folded activateNext_def]

section \<open>Retirement\<close>

lemma delete_notin_keys: "k \<notin> fst ` set m \<Longrightarrow> AList.delete k m = m"
  by (induction m) auto

lemma keys_delete: "fst ` set (AList.delete k m) = fst ` set m - {k}"
  by (auto simp: AList.delete_eq image_iff)

lemma length_delete:
  "distinct (map fst m) \<Longrightarrow> k \<in> fst ` set m \<Longrightarrow> Suc (length (AList.delete k m)) = length m"
proof (induction m)
  case (Cons x m)
  show ?case
  proof (cases "fst x = k")
    case True
    with Cons.prems have "k \<notin> fst ` set m" by simp
    then have "AList.delete k m = m" by (rule delete_notin_keys)
    with True show ?thesis by (cases x) (simp add: AList.delete_eq)
  qed (use Cons in \<open>auto simp: AList.delete_eq\<close>)
qed simp

lemma retire_one_inv:
  assumes "frontier_inv fr" and "i \<in> fst ` set (fr_active fr)"
  shows "frontier_inv (retire_one fr i)"
proof -
  have "length (fr_active fr) = Suc (length (AList.delete i (fr_active fr)))"
    using assms length_delete [of "fr_active fr" i] by (simp add: frontier_inv_def)
  moreover have "i \<notin> set (fr_retired fr)" using assms by (auto simp: frontier_inv_def)
  ultimately show ?thesis using assms
    by (auto simp: frontier_inv_def retire_one_def set_add_def distinct_delete keys_delete)
qed

lemma retire_one_frame:
  "fr_order (retire_one fr i) = fr_order fr" "fr_reservePtr (retire_one fr i) = fr_reservePtr fr"
  "fr_initialized (retire_one fr i) = fr_initialized fr"
  by (simp_all add: retire_one_def)

lemma retire_many:
  assumes "frontier_inv fr" and "distinct gone" and "set gone \<subseteq> fst ` set (fr_active fr)"
  shows "frontier_inv (foldl retire_one fr gone) \<and>
    fr_retired (foldl retire_one fr gone) = fr_retired fr @ gone \<and>
    fst ` set (fr_active (foldl retire_one fr gone)) = fst ` set (fr_active fr) - set gone \<and>
    set (fr_active (foldl retire_one fr gone)) \<subseteq> set (fr_active fr) \<and>
    length (fr_active (foldl retire_one fr gone)) + length gone = length (fr_active fr) \<and>
    fr_order (foldl retire_one fr gone) = fr_order fr \<and>
    fr_reservePtr (foldl retire_one fr gone) = fr_reservePtr fr \<and>
    fr_initialized (foldl retire_one fr gone) = fr_initialized fr"
  using assms
proof (induction gone arbitrary: fr)
  case (Cons i gone)
  have i: "i \<in> fst ` set (fr_active fr)" "i \<notin> set (fr_retired fr)" and d: "distinct (map fst (fr_active fr))"
    using Cons.prems by (auto simp: frontier_inv_def)
  have one: "fr_retired (retire_one fr i) = fr_retired fr @ [i]"
    "fst ` set (fr_active (retire_one fr i)) = fst ` set (fr_active fr) - {i}"
    "Suc (length (fr_active (retire_one fr i))) = length (fr_active fr)"
    "set (fr_active (retire_one fr i)) \<subseteq> set (fr_active fr)"
    using i(2) length_delete [OF d i(1)] by (simp_all add: retire_one_def set_add_def keys_delete, auto simp: AList.delete_eq)
  have "set gone \<subseteq> fst ` set (fr_active (retire_one fr i))" using Cons.prems by (auto simp: one)
  with Cons.IH [OF retire_one_inv [OF Cons.prems(1) i(1)]] Cons.prems(2) show ?case
    by (auto simp: one(1-3) retire_one_frame dest: subsetD [OF one(4)])
qed simp

definition retired_step :: "frontier \<Rightarrow> nat \<times> frontier \<Rightarrow> bool" where
  "retired_step fr res \<longleftrightarrow> frontier_inv (snd res) \<and>
     (\<exists>gone. fr_retired (snd res) = fr_retired fr @ gone \<and> fst res = length gone) \<and>
     set (fr_active (snd res)) \<subseteq> set (fr_active fr) \<and>
     length (fr_active (snd res)) + fst res = length (fr_active fr) \<and>
     fr_order (snd res) = fr_order fr \<and> fr_reservePtr (snd res) = fr_reservePtr fr \<and>
     fr_initialized (snd res) = fr_initialized fr"

lemma retire_many_step:
  "frontier_inv fr \<Longrightarrow> distinct gone \<Longrightarrow> set gone \<subseteq> fst ` set (fr_active fr) \<Longrightarrow>
   retired_step fr (length gone, foldl retire_one fr gone)"
  using retire_many [of fr gone] by (simp add: retired_step_def)

lemma retire_aged_step:
  assumes "frontier_inv fr"
  shows "retired_step fr (retire_aged cfg epoch fr)"
proof (cases "fc_maxAge cfg")
  case (Some maxAge)
  have "distinct (map fst (fr_active fr))" using assms by (simp add: frontier_inv_def)
  then have "distinct (map fst (filter (\<lambda>(i, ae). dbl (epoch - ae) \<ge> maxAge) (fr_active fr)))"
    by (simp add: distinct_map inj_on_def)
  with Some retire_many_step [OF assms this] show ?thesis
    by (auto simp: retire_aged_def Let_def)
qed (simp add: retire_aged_def retired_step_def assms)

lemma retireOldest_step:
  assumes "frontier_inv fr"
  shows "retired_step fr (retireOldest n fr)"
proof -
  let ?sorted = "js_sort (age_cmp (fr_orderIdx fr)) (fr_active fr)"
  have "distinct (map fst (fr_active fr))" using assms by (simp add: frontier_inv_def)
  then have "distinct (map fst ?sorted)" by (simp add: distinct_map)
  then have "distinct (map fst (take k ?sorted))" for k by (simp add: distinct_take flip: take_map)
  moreover have "set (take k ?sorted) \<subseteq> set (fr_active fr)" for k using set_take_subset [of k ?sorted] by simp
  ultimately show ?thesis
    unfolding retireOldest_def Let_def by (intro retire_many_step assms) (auto dest!: subsetD)
qed

section \<open>A step keeps the invariant\<close>

lemma stepEpoch_cases:
  assumes "stepEpoch sha cfg epoch acc qual fr = (sn, fr')"
  obtains
    (start) a fr1 where "\<not> fr_initialized fr" "activateNext (fc_K cfg) epoch (fr\<lparr>fr_initialized := True\<rparr>) = (a, fr1)"
      "fr' = fr1\<lparr>fr_injectedSinceLastStep := 0\<rparr>" "sn = snapshot sha cfg fr' epoch a 0 0"
  | (quiet) ret fr1 a fr2 where "fr_initialized fr" "fc_mode cfg = Off \<or> fc_mode cfg = C0"
      "retire_aged cfg epoch fr = (ret, fr1)" "activateNext (of_nat ret) epoch fr1 = (a, fr2)"
      "fr' = fr2\<lparr>fr_injectedSinceLastStep := 0\<rparr>" "sn = snapshot sha cfg fr' epoch a ret 0"
  | (churn) ret fr1 fr2 r fr3 a fr4 where "fr_initialized fr" "\<not> (fc_mode cfg = Off \<or> fc_mode cfg = C0)"
      "retire_aged cfg epoch fr = (ret, fr1)" "fr2 = update_ewma cfg acc fr1"
      "retireOldest (churn_rate cfg acc qual fr2) fr2 = (r, fr3)" "activateNext (of_nat (ret + r)) epoch fr3 = (a, fr4)"
      "fr' = fr4\<lparr>fr_injectedSinceLastStep := 0\<rparr>"
      "sn = snapshot sha cfg fr' epoch a (ret + r) (churn_rate cfg acc qual fr2)"
proof (cases "fr_initialized fr")
  case False
  obtain a fr1 where act: "activateNext (fc_K cfg) epoch (fr\<lparr>fr_initialized := True\<rparr>) = (a, fr1)" by fastforce
  show thesis by (rule start [OF False act]) (use assms False act in \<open>auto simp: stepEpoch_def Let_def\<close>)
next
  case True
  obtain ret fr1 where aged: "retire_aged cfg epoch fr = (ret, fr1)" by fastforce
  show thesis
  proof (cases "fc_mode cfg = Off \<or> fc_mode cfg = C0")
    case off: True
    obtain a fr2 where act: "activateNext (of_nat ret) epoch fr1 = (a, fr2)" by fastforce
    show thesis by (rule quiet [OF True off aged act]) (use assms True off aged act in \<open>auto simp: stepEpoch_def Let_def\<close>)
  next
    case on: False
    obtain r fr3 where old: "retireOldest (churn_rate cfg acc qual (update_ewma cfg acc fr1)) (update_ewma cfg acc fr1) = (r, fr3)"
      by fastforce
    obtain a fr4 where act: "activateNext (of_nat (ret + r)) epoch fr3 = (a, fr4)" by fastforce
    show thesis
      by (rule churn [OF True on aged refl old act]) (use assms True on aged old act in \<open>auto simp: stepEpoch_def Let_def\<close>)
  qed
qed

lemma update_ewma_frame:
  "fr_active (update_ewma cfg acc fr) = fr_active fr" "fr_retired (update_ewma cfg acc fr) = fr_retired fr"
  "fr_order (update_ewma cfg acc fr) = fr_order fr" "fr_reservePtr (update_ewma cfg acc fr) = fr_reservePtr fr"
  "fr_initialized (update_ewma cfg acc fr) = fr_initialized fr" "frontier_inv (update_ewma cfg acc fr) = frontier_inv fr"
  by (simp_all add: update_ewma_def frontier_inv_frame split: option.split)

lemma stepEpoch_keeps:
  assumes "frontier_inv fr" and "stepEpoch sha cfg epoch acc qual fr = (sn, fr')"
  shows "frontier_inv fr' \<and> fr_order fr' = fr_order fr \<and> (\<exists>gone. fr_retired fr' = fr_retired fr @ gone) \<and>
    fr_initialized fr' \<and> fr_injectedSinceLastStep fr' = 0"
  using assms(2)
proof (cases rule: stepEpoch_cases)
  case (start a fr1)
  from activateNext_inv [OF _ start(2)] assms(1) show ?thesis by (simp add: start(3) frontier_inv_frame)
next
  case (quiet ret fr1 a fr2)
  have r1: "retired_step fr (ret, fr1)" using retire_aged_step [OF assms(1), of cfg epoch] by (simp add: quiet(3))
  then have "frontier_inv fr1" by (simp add: retired_step_def)
  from activateNext_inv [OF this quiet(4)] r1 show ?thesis
    using quiet(1) by (auto simp: quiet(5) frontier_inv_frame retired_step_def)
next
  case (churn ret fr1 fr2 r fr3 a fr4)
  have r1: "retired_step fr (ret, fr1)" using retire_aged_step [OF assms(1), of cfg epoch] by (simp add: churn(3))
  then have "frontier_inv fr2" by (simp add: churn(4) update_ewma_frame retired_step_def)
  from retireOldest_step [OF this] churn(5) have r2: "retired_step fr2 (r, fr3)" by metis
  then have "frontier_inv fr3" by (simp add: retired_step_def)
  from activateNext_inv [OF this churn(6)] r1 r2 show ?thesis
    using churn(1) by (auto simp: churn(4,7) frontier_inv_frame retired_step_def update_ewma_frame)
qed

section \<open>The genesis order and injected segments\<close>

lemma mset_js_insert [simp]: "mset (js_insert cmp x ys) = add_mset x (mset ys)"
  by (induction ys) auto

lemma mset_js_sort [simp]: "mset (js_sort cmp xs) = mset xs"
  unfolding js_sort_def by (induction xs) auto

lemma mset_ith_members:
  "mset (ith_members arrs i) + (\<Sum>arr\<leftarrow>arrs. mset (drop (i + 1) arr)) = (\<Sum>arr\<leftarrow>arrs. mset (drop i arr))"
proof (induction arrs)
  case (Cons arr arrs)
  have "i < length arr \<Longrightarrow> mset (drop i arr) = add_mset (arr ! i) (mset (drop (i + 1) arr))"
    by (simp add: Cons_nth_drop_Suc [symmetric])
  with Cons show ?case by (auto simp: ith_members_def ac_simps)
qed (simp add: ith_members_def)

lemma mset_interleave: "mset (interleave arrs i) = (\<Sum>arr\<leftarrow>arrs. mset (drop i arr))"
proof (induction arrs i rule: interleave.induct)
  case (1 arrs i)
  show ?case
  proof (cases "ith_members arrs i = []")
    case True
    then have "\<forall>arr \<in> set arrs. length arr \<le> i" by (auto simp: ith_members_def filter_empty_conv)
    then have "(\<Sum>arr\<leftarrow>arrs. mset (drop i arr)) = (\<Sum>arr\<leftarrow>arrs. {#})"
      by (intro arg_cong [where f = sum_list] map_cong) simp_all
    with True show ?thesis by (subst interleave.simps) simp
  next
    case False
    with 1 mset_ith_members [of arrs i] show ?thesis by (subst interleave.simps) simp
  qed
qed

definition group_ids :: "(string \<times> string list) list \<Rightarrow> string multiset" where
  "group_ids groups = (\<Sum>g\<leftarrow>groups. mset (snd g))"

lemma group_ids_update:
  assumes "distinct (map fst g)" and "(case map_of g f of Some arr \<Rightarrow> arr | None \<Rightarrow> []) = v"
  shows "group_ids (AList.update f (v @ w) g) = group_ids g + mset w"
  using assms
proof (induction g)
  case (Cons x g)
  have "f \<notin> fst ` set g \<Longrightarrow> map_of g f = None" by (simp add: map_of_eq_None_iff)
  with Cons show ?case by (cases x) (auto simp: group_ids_def ac_simps)
qed (simp add: group_ids_def)

lemma group_add_inv:
  "distinct (map fst g) \<Longrightarrow> distinct (map fst (group_add fam g i)) \<and> group_ids (group_add fam g i) = add_mset i (group_ids g)"
  by (simp add: group_add_def Let_def distinct_update group_ids_update [OF _ refl])

lemma group_fold_inv:
  "distinct (map fst g) \<Longrightarrow> distinct (map fst (foldl (group_add fam) g ids)) \<and>
   group_ids (foldl (group_add fam) g ids) = group_ids g + mset ids"
  by (induction ids arbitrary: g) (simp_all add: group_add_inv)

lemma seed_sorted_inv:
  "map fst (seed_sorted sha seed g) = map fst g" "group_ids (seed_sorted sha seed g) = group_ids g"
  by (simp_all add: seed_sorted_def group_ids_def case_prod_beta comp_def)

lemma mset_fam_order:
  assumes "distinct (map fst g)"
  shows "mset (fam_order g (sort (map fst g))) = group_ids g"
proof -
  let ?arr = "\<lambda>f. case map_of g f of Some arr \<Rightarrow> arr | None \<Rightarrow> []"
  have "mset (fam_order g (sort (map fst g))) = (\<Sum>f\<leftarrow>sort (map fst g). mset (?arr f))"
    by (simp add: fam_order_def mset_interleave comp_def)
  also have "\<dots> = (\<Sum>f\<leftarrow>map fst g. mset (?arr f))" by (simp add: multiset.map_comp flip: sum_mset_sum_list)
  also have "\<dots> = group_ids g"
  proof -
    have "?arr (fst x) = snd x" if "x \<in> set g" for x
      using map_of_is_SomeI [OF assms, of "fst x" "snd x"] that by simp
    then show ?thesis unfolding group_ids_def map_map
      by (intro arg_cong [where f = sum_list] map_cong refl) simp
  qed
  finally show ?thesis .
qed

lemma segment_mset:
  fixes sha seed fam ids
  defines "g \<equiv> seed_sorted sha seed (foldl (group_add fam) [] ids)"
  shows "mset (fam_order g (sort (map fst g))) = mset ids"
  using group_fold_inv [of "[]" fam ids] mset_fam_order [of g]
  by (simp add: g_def seed_sorted_inv) (simp add: group_ids_def)

lemma index_map_None: "index_map xs i = None \<longleftrightarrow> i \<notin> set xs"
  by (simp add: index_map_def map_of_eq_None_iff) (simp flip: set_map)

text \<open>What an injection does.\<close>

lemma addReserveIds_shape:
  assumes "frontier_inv fr" and "addReserveIds sha cfg newIds fam fr = (n, fr')"
  shows "\<exists>segment. mset segment = filter_mset (\<lambda>i. i \<notin> set (fr_order fr)) (mset newIds) \<and> n = length segment \<and>
    fr_order fr' = take (fr_reservePtr fr) (fr_order fr) @ segment @ drop (fr_reservePtr fr) (fr_order fr) \<and>
    fr_orderIdx fr' = index_map (fr_order fr') \<and>
    fr_active fr' = fr_active fr \<and> fr_retired fr' = fr_retired fr \<and> fr_reservePtr fr' = fr_reservePtr fr \<and>
    fr_cumulativeActivated fr' = fr_cumulativeActivated fr \<and> fr_cumulativeRetired fr' = fr_cumulativeRetired fr \<and>
    fr_initialized fr' = fr_initialized fr \<and> fr_injectedSinceLastStep fr' = fr_injectedSinceLastStep fr + n"
proof -
  define unseen where "unseen = filter (\<lambda>i. \<not> has_key (fr_active fr) i \<and> i \<notin> set (fr_retired fr) \<and> fr_orderIdx fr i = None) newIds"
  have "has_key (fr_active fr) i \<or> i \<in> set (fr_retired fr) \<longrightarrow> i \<in> set (fr_order fr)" for i
    using assms(1) set_take_subset [of "fr_reservePtr fr" "fr_order fr"] by (auto simp: frontier_inv_def has_key_def)
  then have "unseen = filter (\<lambda>i. i \<notin> set (fr_order fr)) newIds"
    using assms(1) by (auto simp: unseen_def frontier_inv_def index_map_None intro!: filter_cong)
  then have un: "mset unseen = filter_mset (\<lambda>i. i \<notin> set (fr_order fr)) (mset newIds)" by simp
  show ?thesis
  proof (cases "unseen = []")
    case True
    with assms(2) have "n = 0 \<and> fr' = fr" by (simp add: addReserveIds_def unseen_def)
    moreover from True have "filter_mset (\<lambda>i. i \<notin> set (fr_order fr)) (mset newIds) = {#}" by (simp flip: un)
    ultimately show ?thesis using assms(1) by (intro exI [of _ "[]"]) (simp add: frontier_inv_def)
  next
    case False
    define g where "g = seed_sorted sha (fc_seed cfg) (foldl (group_add fam) [] unseen)"
    have seg: "mset (fam_order g (sort (map fst g))) = mset unseen" unfolding g_def by (rule segment_mset)
    then have "length (fam_order g (sort (map fst g))) = length unseen" by (metis size_mset)
    with assms(2) False seg un show ?thesis
      by (intro exI [of _ "fam_order g (sort (map fst g))"])
        (auto simp: addReserveIds_def unseen_def [symmetric] g_def [symmetric] Let_def)
  qed
qed

lemma addReserveIds_keeps:
  assumes "frontier_inv fr" and "addReserveIds sha cfg newIds fam fr = (n, fr')"
  shows "frontier_inv fr' \<and> fr_retired fr' = fr_retired fr \<and> set (fr_order fr') = set (fr_order fr) \<union> set newIds"
proof -
  obtain seg where seg: "mset seg = filter_mset (\<lambda>i. i \<notin> set (fr_order fr)) (mset newIds)"
    "fr_order fr' = take (fr_reservePtr fr) (fr_order fr) @ seg @ drop (fr_reservePtr fr) (fr_order fr)"
    and rest: "fr_orderIdx fr' = index_map (fr_order fr')" "fr_active fr' = fr_active fr" "fr_retired fr' = fr_retired fr"
    "fr_reservePtr fr' = fr_reservePtr fr" "fr_cumulativeActivated fr' = fr_cumulativeActivated fr"
    "fr_cumulativeRetired fr' = fr_cumulativeRetired fr"
    using addReserveIds_shape [OF assms] by blast
  have "set seg = set newIds - set (fr_order fr)"
    using arg_cong [OF seg(1), of set_mset] by auto
  moreover have "set (fr_order fr) = set (take (fr_reservePtr fr) (fr_order fr)) \<union> set (drop (fr_reservePtr fr) (fr_order fr))"
    by (metis append_take_drop_id set_append)
  ultimately have "set (fr_order fr') = set (fr_order fr) \<union> set newIds" unfolding seg(2) by auto
  moreover have "frontier_inv fr'" using assms(1) by (simp add: frontier_inv_def rest seg(2))
  ultimately show ?thesis by (simp add: rest)
qed

section \<open>Runs\<close>

inductive frontier_run :: "digest \<Rightarrow> frontier_config \<Rightarrow> frontier \<Rightarrow> frontier \<Rightarrow> bool" for sha cfg fr0 where
  run_start: "frontier_run sha cfg fr0 fr0"
| run_step: "frontier_run sha cfg fr0 fr \<Longrightarrow> stepEpoch sha cfg epoch acc qual fr = (sn, fr') \<Longrightarrow> frontier_run sha cfg fr0 fr'"
| run_inject: "frontier_run sha cfg fr0 fr \<Longrightarrow> addReserveIds sha cfg newIds fam fr = (n, fr') \<Longrightarrow> frontier_run sha cfg fr0 fr'"

lemma genesis:
  assumes "makeEpochFrontier sha pow p = Inr (cfg, fr)" and "fp_initialState p = None"
  shows "frontier_inv fr \<and> mset (fr_order fr) = mset (fp_evalHiddenIds p) \<and> \<not> fr_initialized fr"
  using assms segment_mset by (auto simp: makeEpochFrontier_def frontier_inv_def Let_def)

lemma run_keeps:
  assumes "frontier_run sha cfg fr0 fr" and "frontier_inv fr0"
  shows "frontier_inv fr \<and> set (fr_order fr0) \<subseteq> set (fr_order fr) \<and> (\<exists>gone. fr_retired fr = fr_retired fr0 @ gone)"
  using assms(1)
proof induction
  case (run_step fr epoch acc qual sn fr')
  with stepEpoch_keeps [of fr sha cfg epoch acc qual sn fr'] show ?case by fastforce
next
  case (run_inject fr newIds fam n fr')
  with addReserveIds_keeps [of fr sha cfg newIds fam n fr'] show ?case by auto
qed (use assms(2) in auto)

text \<open>
  C35: the frontier never loses or repeats an identifier.  Through every sequence of epoch
  steps and injections from a genesis frontier, in every mode and whatever the observed
  counts: an identifier that has left the reserve is active or retired and not both, none is
  active or retired twice, the two cumulative counters count them, and every identifier of the
  corpus is still in the order.
\<close>

theorem frontier_partition:
  assumes "makeEpochFrontier sha pow p = Inr (cfg, fr0)" and "fp_initialState p = None"
    and "frontier_run sha cfg fr0 fr"
  shows "distinct (map fst (fr_active fr) @ fr_retired fr) \<and>
    set (take (fr_reservePtr fr) (fr_order fr)) = fst ` set (fr_active fr) \<union> set (fr_retired fr) \<and>
    fr_cumulativeRetired fr = int (length (fr_retired fr)) \<and>
    fr_cumulativeActivated fr - fr_cumulativeRetired fr = int (length (fr_active fr)) \<and>
    set (fp_evalHiddenIds p) \<subseteq> set (fr_order fr)"
proof -
  note g = genesis [OF assms(1,2)]
  from run_keeps [OF assms(3)] g have inv: "frontier_inv fr" "set (fr_order fr0) \<subseteq> set (fr_order fr)" by auto
  moreover have "set (fr_order fr0) = set (fp_evalHiddenIds p)" using g mset_eq_setD by blast
  ultimately show ?thesis by (auto simp: frontier_inv_def)
qed

text \<open>
  Fact: retirement is final.  From any frontier that satisfies the invariant (every reachable one
  does), a retired identifier is retired for ever after, whatever is injected, and never
  active again.
\<close>

theorem retirement_final:
  assumes "frontier_inv fr" and "frontier_run sha cfg fr fr'" and "i \<in> set (fr_retired fr)"
  shows "i \<in> set (fr_retired fr') \<and> i \<notin> fst ` set (fr_active fr')"
  using run_keeps [OF assms(2,1)] assms(3) by (auto simp: frontier_inv_def)

section \<open>The size of the active set\<close>

text \<open>With a reserve free of duplicates every activation finds a new identifier.\<close>

lemma activate_loop_full:
  assumes "frontier_inv fr" and "distinct (fr_order fr)" and "m - a \<le> length (fr_order fr) - fr_reservePtr fr"
    and "a \<le> m" and "activate_loop (of_nat m) epoch a fr = (a', fr')"
  shows "a' = m"
  using assms
proof (induction "of_nat m :: rat" epoch a fr rule: activate_loop.induct)
  case (1 epoch a fr)
  show ?case
  proof (cases "a = m")
    case True
    then show ?thesis using 1(7) by (subst (asm) activate_loop.simps) simp
  next
    case False
    with 1 have lt: "a < m" "fr_reservePtr fr < length (fr_order fr)" by linarith+
    define i where "i = fr_order fr ! fr_reservePtr fr"
    define fr1 where "fr1 = fr\<lparr>fr_reservePtr := fr_reservePtr fr + 1\<rparr>"
    define fr2 where "fr2 = fr1\<lparr>fr_active := AList.update i epoch (fr_active fr1), fr_cumulativeActivated := fr_cumulativeActivated fr1 + 1\<rparr>"
    have "i \<notin> set (take (fr_reservePtr fr) (fr_order fr))"
      using 1(4) lt(2) by (auto simp: i_def in_set_conv_nth distinct_conv_nth)
    then have fresh: "i \<notin> fst ` set (fr_active fr)" "i \<notin> set (fr_retired fr)" using 1(3) by (auto simp: frontier_inv_def)
    have "frontier_inv fr2" using activate_advance(1) [OF 1(3) lt(2)] fresh by (simp add: fr2_def fr1_def i_def)
    moreover have "activate_loop (of_nat m) epoch (a + 1) fr2 = (a', fr')"
      using 1(7) lt fresh by (subst (asm) activate_loop.simps) (simp add: i_def fr1_def fr2_def Let_def has_key_def)
    ultimately show ?thesis
      using 1(1) [of i fr1] 1(4,5) lt fresh unfolding i_def [symmetric] fr1_def [symmetric] fr2_def [symmetric]
      by (simp add: has_key_def fr1_def fr2_def)
  qed
qed

text \<open>
  Fact: the active window does not shrink.  With no maximal age and an order free of
  duplicates, every step after the first activates exactly as many identifiers as it retires,
  so the active set keeps its size; and it retires at most the root-delta limit and at most
  what the reserve can replace, whatever the churn mode and the observed counts.
\<close>

theorem window_kept:
  assumes "frontier_inv fr" and "distinct (fr_order fr)" and "fr_initialized fr" and "fc_maxAge cfg = None"
    and "stepEpoch sha cfg epoch acc qual fr = (sn, fr')"
  shows "length (fr_active fr') = length (fr_active fr) \<and> fs_activated sn = fs_retired sn \<and>
    fs_retired sn \<le> nat \<lceil>max 0 (fc_maxRootDeltaPerEpoch cfg)\<rceil> \<and>
    fs_retired sn \<le> length (fr_order fr) - fr_reservePtr fr"
  using assms(5)
proof (cases rule: stepEpoch_cases)
  case (start a fr1)
  with assms(3) show ?thesis by simp
next
  case (quiet ret fr1 a fr2)
  then have r: "ret = 0" "fr1 = fr" using assms(4) by (simp_all add: retire_aged_def)
  with quiet(4) have "a = 0" "fr2 = fr" by (simp_all add: activateNext_def activate_loop.simps [of 0])
  then show ?thesis by (simp add: quiet(5,6) r snapshot_def)
next
  case (churn ret fr1 fr2 r fr3 a fr4)
  have ret: "ret = 0" "fr1 = fr" using churn(3) assms(4) by (simp_all add: retire_aged_def)
  have inv2: "frontier_inv fr2" using assms(1) by (simp add: churn(4) ret update_ewma_frame)
  from retireOldest_step [OF this] churn(5) have "retired_step fr2 (r, fr3)" by metis
  then have r: "frontier_inv fr3" "length (fr_active fr3) + r = length (fr_active fr)" "fr_order fr3 = fr_order fr"
    "fr_reservePtr fr3 = fr_reservePtr fr"
    by (simp_all add: retired_step_def churn(4) ret update_ewma_frame)
  define rate where "rate = churn_rate cfg acc qual fr2"
  have "rate \<le> fc_maxRootDeltaPerEpoch cfg" "rate \<le> max 0 (of_int (int (length (fr_order fr2)) - int (fr_reservePtr fr2)))"
    unfolding rate_def churn_rate_def Let_def by (meson min.cobounded1 min.cobounded2 order_trans)+
  moreover have "r \<le> nat \<lceil>rate\<rceil>" using churn(5) by (auto simp: retireOldest_def rate_def Let_def)
  moreover have "fr_reservePtr fr \<le> length (fr_order fr)" using assms(1) by (simp add: frontier_inv_def)
  ultimately have bounds: "r \<le> nat \<lceil>max 0 (fc_maxRootDeltaPerEpoch cfg)\<rceil>" "r \<le> length (fr_order fr) - fr_reservePtr fr"
    by (auto simp: churn(4) ret update_ewma_frame nat_le_iff of_nat_diff ceiling_le_iff) linarith+
  have "a = r" using activate_loop_full [OF r(1), of r 0 epoch a fr4] churn(6) bounds(2) assms(2)
    by (simp add: activateNext_def ret r)
  moreover obtain new where "fr_active fr4 = fr_active fr3 @ map (\<lambda>i. (i, epoch)) new" "length new = a"
    using activateNext_inv [OF r(1) churn(6)] by auto
  ultimately show ?thesis using bounds r(2) by (simp add: churn(7,8) ret snapshot_def)
qed

text \<open>
  Fact: mode off is a strict no-op.  Without a maximal age, once initialised, a step in mode off
  or C0 changes nothing but the injection counter, and reports the same roots.
\<close>

theorem off_is_noop:
  assumes "fr_initialized fr" and "fc_maxAge cfg = None" and "fc_mode cfg = Off \<or> fc_mode cfg = C0"
  shows "stepEpoch sha cfg epoch acc qual fr =
    (snapshot sha cfg fr epoch 0 0 0, fr\<lparr>fr_injectedSinceLastStep := 0\<rparr>)"
  using assms by (auto simp: stepEpoch_def retire_aged_def activateNext_def activate_loop.simps [of 0] snapshot_def Let_def)

section \<open>Restart\<close>

definition regroup :: "(string \<times> string list) list \<Rightarrow> string list \<Rightarrow> frontier \<Rightarrow> frontier" where
  "regroup g n fr = fr\<lparr>fr_groups := g, fr_famNames := n\<rparr>"

lemma regroup_frame:
  "fr_order (regroup g n fr) = fr_order fr" "fr_orderIdx (regroup g n fr) = fr_orderIdx fr"
  "fr_reservePtr (regroup g n fr) = fr_reservePtr fr" "fr_active (regroup g n fr) = fr_active fr"
  "fr_retired (regroup g n fr) = fr_retired fr" "fr_initialized (regroup g n fr) = fr_initialized fr"
  "fr_injectedSinceLastStep (regroup g n fr) = fr_injectedSinceLastStep fr"
  "fr_ewmaAccepts (regroup g n fr) = fr_ewmaAccepts fr"
  "fr_cumulativeActivated (regroup g n fr) = fr_cumulativeActivated fr"
  "fr_cumulativeRetired (regroup g n fr) = fr_cumulativeRetired fr"
  by (simp_all add: regroup_def)

lemma regroup_update:
  "(regroup g m fr)\<lparr>fr_reservePtr := k\<rparr> = regroup g m (fr\<lparr>fr_reservePtr := k\<rparr>)"
  "(regroup g m fr)\<lparr>fr_active := ac\<rparr> = regroup g m (fr\<lparr>fr_active := ac\<rparr>)"
  "(regroup g m fr)\<lparr>fr_retired := ret\<rparr> = regroup g m (fr\<lparr>fr_retired := ret\<rparr>)"
  "(regroup g m fr)\<lparr>fr_cumulativeActivated := c\<rparr> = regroup g m (fr\<lparr>fr_cumulativeActivated := c\<rparr>)"
  "(regroup g m fr)\<lparr>fr_cumulativeRetired := c\<rparr> = regroup g m (fr\<lparr>fr_cumulativeRetired := c\<rparr>)"
  "(regroup g m fr)\<lparr>fr_initialized := b\<rparr> = regroup g m (fr\<lparr>fr_initialized := b\<rparr>)"
  "(regroup g m fr)\<lparr>fr_injectedSinceLastStep := n\<rparr> = regroup g m (fr\<lparr>fr_injectedSinceLastStep := n\<rparr>)"
  "(regroup g m fr)\<lparr>fr_ewmaAccepts := e\<rparr> = regroup g m (fr\<lparr>fr_ewmaAccepts := e\<rparr>)"
  by (cases fr; simp add: regroup_def)+

lemma activate_loop_regroup:
  "activate_loop n e a (regroup g m fr) = map_prod id (regroup g m) (activate_loop n e a fr)"
proof (induction n e a fr rule: activate_loop.induct)
  case (1 n e a fr)
  then show ?case
    by (subst (1 2) activate_loop.simps) (simp add: Let_def regroup_frame regroup_update id_def)
qed

lemma retire_many_regroup: "foldl retire_one (regroup g m fr) gone = regroup g m (foldl retire_one fr gone)"
  by (induction gone arbitrary: fr) (simp_all add: retire_one_def regroup_frame regroup_update)

lemma parts_regroup:
  "retire_aged cfg epoch (regroup g m fr) = map_prod id (regroup g m) (retire_aged cfg epoch fr)"
  "retireOldest n (regroup g m fr) = map_prod id (regroup g m) (retireOldest n fr)"
  "update_ewma cfg acc (regroup g m fr) = regroup g m (update_ewma cfg acc fr)"
  "churn_rate cfg acc qual (regroup g m fr) = churn_rate cfg acc qual fr"
  "snapshot sha cfg (regroup g m fr) e a b c = snapshot sha cfg fr e a b c"
  "activateNext n e (regroup g m fr) = map_prod id (regroup g m) (activateNext n e fr)"
proof -
  show "retire_aged cfg epoch (regroup g m fr) = map_prod id (regroup g m) (retire_aged cfg epoch fr)"
    by (simp add: retire_aged_def retire_many_regroup regroup_frame Let_def split: option.split)
  show "retireOldest n (regroup g m fr) = map_prod id (regroup g m) (retireOldest n fr)"
    by (simp add: retireOldest_def retire_many_regroup regroup_frame Let_def)
  show "update_ewma cfg acc (regroup g m fr) = regroup g m (update_ewma cfg acc fr)"
    by (simp add: update_ewma_def regroup_frame regroup_update split: option.split)
  show "churn_rate cfg acc qual (regroup g m fr) = churn_rate cfg acc qual fr"
    by (simp only: churn_rate_def regroup_frame)
  show "snapshot sha cfg (regroup g m fr) e a b c = snapshot sha cfg fr e a b c"
    by (simp only: snapshot_def regroup_frame)
  show "activateNext n e (regroup g m fr) = map_prod id (regroup g m) (activateNext n e fr)"
    by (simp only: activateNext_def activate_loop_regroup)
qed

lemma step_regroup:
  "stepEpoch sha cfg epoch acc qual (regroup g m fr) =
   map_prod id (regroup g m) (stepEpoch sha cfg epoch acc qual fr)"
proof (cases "stepEpoch sha cfg epoch acc qual fr")
  case (Pair sn fr')
  then show ?thesis
  proof (cases rule: stepEpoch_cases)
    case (start a fr1)
    then show ?thesis unfolding Pair
      by (simp add: stepEpoch_def regroup_frame regroup_update parts_regroup)
  next
    case (quiet ret fr1 a fr2)
    then show ?thesis unfolding Pair
      by (simp add: stepEpoch_def regroup_frame regroup_update parts_regroup)
  next
    case (churn ret fr1 fr2 r fr3 a fr4)
    then show ?thesis unfolding Pair
      by (simp add: stepEpoch_def regroup_frame regroup_update parts_regroup Let_def)
  qed
qed

lemma update_all_fresh: "distinct (map fst (m @ xs)) \<Longrightarrow> foldl (\<lambda>m (i, e). AList.update i e m) m xs = m @ xs"
proof (induction xs arbitrary: m)
  case (Cons x xs)
  then have "AList.update (fst x) (snd x) m = m @ [x]" by (simp add: update_fresh)
  moreover have "distinct (map fst ((m @ [x]) @ xs))" using Cons.prems by simp
  ultimately show ?case using Cons.IH by (simp add: case_prod_beta)
qed simp

lemma set_add_all_fresh: "distinct (xs @ ys) \<Longrightarrow> foldl set_add xs ys = xs @ ys"
  by (induction ys arbitrary: xs) (simp_all add: set_add_def)

text \<open>
  Fact: a restart is transparent.  A frontier rebuilt from the exported state, with the corpus
  identifiers among those given, is the exported frontier except for its record of families,
  and under the same configuration takes every step exactly as the original would, with the
  same snapshot.
\<close>

theorem restart_transparent:
  assumes "frontier_inv fr" and "set (fr_order fr) \<subseteq> set (fp_evalHiddenIds p)"
    and "fp_initialState p = Some (exportState fr)"
  shows "\<exists>cfg g n. makeEpochFrontier sha pow p = Inr (cfg, regroup g n fr) \<and>
    stepEpoch sha cfg epoch acc qual (regroup g n fr) = map_prod id (regroup g n) (stepEpoch sha cfg epoch acc qual fr)"
proof -
  have "set (take (fr_reservePtr fr) (fr_order fr)) \<subseteq> set (fp_evalHiddenIds p)"
    using set_take_subset assms(2) by fast
  then have known: "fst ` set (fr_active fr) \<subseteq> set (fp_evalHiddenIds p)" "set (fr_retired fr) \<subseteq> set (fp_evalHiddenIds p)"
    using assms(1) by (simp_all add: frontier_inv_def)
  then have "check_initial_state (fp_evalHiddenIds p) (exportState fr) = Inr ()"
    using assms(2) by (auto simp: check_initial_state_def exportState_def list_all_iff)
  moreover have "foldl (\<lambda>m (i, e). AList.update i e m) [] (fr_active fr) = fr_active fr" "foldl set_add [] (fr_retired fr) = fr_retired fr"
    using update_all_fresh [of "[]" "fr_active fr"] set_add_all_fresh [of "[]" "fr_retired fr"] assms(1)
    by (simp_all add: frontier_inv_def)
  ultimately have "\<exists>cfg g n. makeEpochFrontier sha pow p = Inr (cfg, regroup g n fr)"
    using assms(1,3) by (cases fr) (auto simp: makeEpochFrontier_def exportState_def regroup_def frontier_inv_def Let_def)
  then show ?thesis using step_regroup by blast
qed

section \<open>Concrete runs\<close>

definition sample_sha :: digest where
  "sample_sha data = replicate 32 (word_of_nat (length data))"

definition sample_pow :: "rat \<Rightarrow> rat \<Rightarrow> rat" where
  "sample_pow x y = 1 / 2"

definition sample_params :: frontier_params where
  "sample_params = \<lparr> fp_evalHiddenIds = [''q1'', ''q2'', ''q3''], fp_familyOf = (\<lambda>i. Some ''f''), fp_mode = Some C4,
     fp_activeWindow = Some 1, fp_churnRate = None, fp_maxAge = None, fp_lowAdvancesThreshold = None,
     fp_lowAdvancesBumpRate = None, fp_seed = None, fp_minChurn = Some 1, fp_maxChurn = None, fp_targetAccepts = None,
     fp_headroomLowWatermark = None, fp_headroomHighWatermark = None, fp_ewmaHalfLife = None,
     fp_expectedYieldPerUnit = None, fp_maxRootDeltaPerEpoch = None, fp_initialState = None \<rparr>"

definition sample_cfg :: frontier_config where
  "sample_cfg = fst (projr (makeEpochFrontier sample_sha sample_pow sample_params))"

definition sample_frontier :: frontier where
  "sample_frontier = \<lparr> fr_order = [''q1'', ''q2'', ''q3''], fr_orderIdx = index_map [''q1'', ''q2'', ''q3''],
     fr_groups = [], fr_famNames = [], fr_reservePtr = 2, fr_active = [(''q2'', 1)], fr_retired = [''q1''],
     fr_cumulativeActivated = 2, fr_cumulativeRetired = 1, fr_initialized = True, fr_injectedSinceLastStep = 0,
     fr_ewmaAccepts = None \<rparr>"

lemma sample_frontier_inv: "frontier_inv sample_frontier"
  by (simp add: frontier_inv_def sample_frontier_def)

definition sample_step :: "frontier \<Rightarrow> frontier" where
  "sample_step fr = snd (stepEpoch sample_sha sample_cfg 5 (Some 0) (Some 3) fr)"

lemma sample_step_run: "frontier_run sample_sha sample_cfg fr (sample_step fr)"
  by (rule run_step [OF run_start, where epoch = 5 and acc = "Some 0" and qual = "Some 3"]) (simp add: sample_step_def prod_eq_iff)

lemma sample_make:
  "\<exists>fr. makeEpochFrontier sample_sha sample_pow sample_params = Inr (sample_cfg, fr)"
  by (simp add: sample_cfg_def makeEpochFrontier_def sample_params_def Let_def)

theorem frontier_partition_witness:
  "\<exists>fr. makeEpochFrontier sample_sha sample_pow sample_params = Inr (sample_cfg, fr) \<and>
    distinct (map fst (fr_active (sample_step fr)) @ fr_retired (sample_step fr)) \<and>
    set [''q1'', ''q2'', ''q3''] \<subseteq> set (fr_order (sample_step fr))"
proof -
  obtain fr where fr: "makeEpochFrontier sample_sha sample_pow sample_params = Inr (sample_cfg, fr)"
    using sample_make by blast
  from frontier_partition [OF fr _ sample_step_run] fr show ?thesis by (auto simp: sample_params_def)
qed

theorem retirement_final_witness: "''q1'' \<notin> fst ` set (fr_active (sample_step sample_frontier))"
  using retirement_final [OF sample_frontier_inv sample_step_run, of "''q1''"] by (simp add: sample_frontier_def)

theorem window_kept_witness: "length (fr_active (sample_step sample_frontier)) = 1"
proof -
  have "fc_maxAge sample_cfg = None"
    by (simp add: sample_cfg_def makeEpochFrontier_def sample_params_def frontier_defaults_def Let_def)
  with window_kept [OF sample_frontier_inv, of sample_cfg sample_sha 5 "Some 0" "Some 3"] show ?thesis
    by (simp add: sample_step_def sample_frontier_def prod_eq_iff)
qed

theorem off_is_noop_witness:
  "snd (stepEpoch sample_sha (sample_cfg\<lparr>fc_mode := Off\<rparr>) 9 (Some 0) None sample_frontier) = sample_frontier"
proof -
  have "fc_maxAge sample_cfg = None"
    by (simp add: sample_cfg_def makeEpochFrontier_def sample_params_def frontier_defaults_def Let_def)
  then show ?thesis
    using off_is_noop [of sample_frontier "sample_cfg\<lparr>fc_mode := Off\<rparr>" sample_sha 9 "Some 0" None]
    by (simp add: sample_frontier_def)
qed

theorem restart_transparent_witness:
  "\<exists>cfg g n. makeEpochFrontier sample_sha sample_pow (sample_params\<lparr>fp_initialState := Some (exportState sample_frontier)\<rparr>) =
    Inr (cfg, regroup g n sample_frontier)"
proof -
  let ?p = "sample_params\<lparr>fp_initialState := Some (exportState sample_frontier)\<rparr>"
  have "set (fr_order sample_frontier) \<subseteq> set (fp_evalHiddenIds ?p)"
    by (simp add: sample_frontier_def sample_params_def)
  moreover have "fp_initialState ?p = Some (exportState sample_frontier)" by simp
  ultimately show ?thesis using restart_transparent [OF sample_frontier_inv] by blast
qed

text \<open>
  Fact: a repeated identifier is injected twice.  \<open>addReserveIds\<close> filters the new identifiers
  against what it already has, not against each other: a list with a repetition enters the
  reserve with it, and the returned count and the injection counter count both.
\<close>

theorem injection_keeps_repetitions:
  assumes "frontier_inv fr" and "i \<notin> set (fr_order fr)"
  shows "\<exists>fr'. addReserveIds sha cfg [i, i] fam fr = (2, fr') \<and> count (mset (fr_order fr')) i = 2 \<and>
    fr_injectedSinceLastStep fr' = fr_injectedSinceLastStep fr + 2"
proof -
  obtain n fr' where eq: "addReserveIds sha cfg [i, i] fam fr = (n, fr')" by fastforce
  obtain seg where seg: "mset seg = filter_mset (\<lambda>i. i \<notin> set (fr_order fr)) (mset [i, i])" "n = length seg"
    "fr_order fr' = take (fr_reservePtr fr) (fr_order fr) @ seg @ drop (fr_reservePtr fr) (fr_order fr)"
    "fr_injectedSinceLastStep fr' = fr_injectedSinceLastStep fr + n"
    using addReserveIds_shape [OF assms(1) eq] by blast
  from seg(1) assms(2) have m: "mset seg = {#i, i#}" by simp
  then have n: "n = 2" using seg(2) by (metis size_add_mset size_empty size_mset numeral_2_eq_2)
  have "i \<notin> set (take (fr_reservePtr fr) (fr_order fr))" "i \<notin> set (drop (fr_reservePtr fr) (fr_order fr))"
    using assms(2) by (auto dest: in_set_takeD in_set_dropD)
  then have "count (mset (fr_order fr')) i = 2" by (simp add: seg(3) m not_in_iff [symmetric])
  with eq n seg(4) show ?thesis by blast
qed

text \<open>
  Fact: the launch frontier ignores the churn rate of its profile.  \<open>makeLaunchFrontier\<close> does not
  pass \<open>churnRate\<close>, \<open>lowAdvancesThreshold\<close> and \<open>lowAdvancesBumpRate\<close> on: a profile in mode C1
  that sets a churn rate runs with the default of four.
\<close>

theorem launch_ignores_churn_rate:
  assumes "fp_mode fp = Some C1" and "makeLaunchFrontier sha pow (Some fp) events = Some (Inr (cfg, fr))"
  shows "fc_mode cfg = C1 \<and> fc_churnRate cfg = 4"
  using assms by (auto simp: makeLaunchFrontier_def makeEpochFrontier_def frontier_defaults_def or_else_def Let_def)

end
