(* ===== verification/Admission.thy ===== *)
theory Admission
  imports Seed_Derivation Doubles "HOL-Library.Multiset" "HOL-Library.Sublist"
begin

text \<open>
  The two admission gates: \<open>src/eval/live-eval-admission.ts\<close>, at the entry of the evaluation of
  a patch, and \<open>src/corpus/admission.ts\<close>, for records that enter the corpus.  Caps and counts
  are numbers; a key that is a member of \<open>Object.prototype\<close> is not a domain.
\<close>

section \<open>Live evaluation\<close>

record live_eval_admission_input =
  la_minerAddress :: string
  la_patchHash :: string
  la_dedupKey :: string
  la_dedupedKeysThisEpoch :: "string list"
  la_minerAdmissionsThisEpoch :: rat
  la_perMinerCap :: rat
  la_structurallyValid :: bool

datatype live_eval_reason = OK | malformed_input | structurally_invalid | duplicate_key_collapsed | per_miner_cap_reached

record live_eval_decision =
  ld_admit :: bool
  ld_reason :: live_eval_reason

text \<open>\<open>/^0x[0-9a-fA-F]{n}$/\<close>\<close>

definition prefixed_hex :: "nat \<Rightarrow> string \<Rightarrow> bool" where
  "prefixed_hex n s \<longleftrightarrow> take 2 s = ''0x'' \<and> length s = n + 2 \<and> list_all (\<lambda>c. hex_val c \<noteq> None) (drop 2 s)"

definition ADDR_RE :: "string \<Rightarrow> bool" where "ADDR_RE = prefixed_hex 40"
definition BYTES32_RE :: "string \<Rightarrow> bool" where "BYTES32_RE = prefixed_hex 64"

definition is_integer :: "rat \<Rightarrow> bool" where
  "is_integer x \<longleftrightarrow> of_int \<lfloor>x\<rfloor> = x"

definition reject :: "live_eval_reason \<Rightarrow> live_eval_decision" where
  "reject r = \<lparr> ld_admit = False, ld_reason = r \<rparr>"

definition liveEvalAdmissionDecision :: "live_eval_admission_input \<Rightarrow> live_eval_decision" where
  "liveEvalAdmissionDecision input =
     (if \<not> ADDR_RE (la_minerAddress input) then reject malformed_input
      else if \<not> BYTES32_RE (la_patchHash input) then reject malformed_input
      else if \<not> BYTES32_RE (la_dedupKey input) then reject malformed_input
      else if \<not> is_integer (la_minerAdmissionsThisEpoch input) \<or> la_minerAdmissionsThisEpoch input < 0
      then reject malformed_input
      else if \<not> is_integer (la_perMinerCap input) \<or> la_perMinerCap input < 1 then reject malformed_input
      else if \<not> la_structurallyValid input then reject structurally_invalid
      else
        (let dedupKeyLower = ''0x'' @ toLowerCase (clean_hex (la_dedupKey input)) in
         if dedupKeyLower \<in> set (la_dedupedKeysThisEpoch input) then reject duplicate_key_collapsed
         else if la_minerAdmissionsThisEpoch input \<ge> la_perMinerCap input then reject per_miner_cap_reached
         else \<lparr> ld_admit = True, ld_reason = OK \<rparr>))"

text \<open>
  The host of the gate, as its comment asks: what it admits it records, the key in lower case
  and one admission more for the miner.
\<close>

record live_gate =
  lg_keys :: "string list"
  lg_admissions :: "(string \<times> nat) list"

definition gate_count :: "live_gate \<Rightarrow> string \<Rightarrow> nat" where
  "gate_count g m = or_else (map_of (lg_admissions g) m) 0"

definition gate_input :: "live_gate \<Rightarrow> nat \<Rightarrow> string \<times> string \<times> string \<times> bool \<Rightarrow> live_eval_admission_input" where
  "gate_input g cap = (\<lambda>(miner, patchHash, dedupKey, valid).
     \<lparr> la_minerAddress = miner, la_patchHash = patchHash, la_dedupKey = dedupKey, la_dedupedKeysThisEpoch = lg_keys g,
       la_minerAdmissionsThisEpoch = of_nat (gate_count g miner), la_perMinerCap = of_nat cap, la_structurallyValid = valid \<rparr>)"

definition gate_step :: "nat \<Rightarrow> live_gate \<Rightarrow> string \<times> string \<times> string \<times> bool \<Rightarrow> live_gate" where
  "gate_step cap g = (\<lambda>(miner, patchHash, dedupKey, valid).
     if ld_admit (liveEvalAdmissionDecision (gate_input g cap (miner, patchHash, dedupKey, valid)))
     then \<lparr> lg_keys = lg_keys g @ [''0x'' @ toLowerCase (clean_hex dedupKey)],
            lg_admissions = AList.update miner (gate_count g miner + 1) (lg_admissions g) \<rparr>
     else g)"

section \<open>Corpus records\<close>

record admission_policy =
  ap_totalCap :: rat
  ap_perDomainCap :: rat
  ap_minHardNegativesPerRecord :: rat
  ap_minTruthDocumentsPerRecord :: rat
  ap_requireSourceProvenance :: bool
  ap_minPositiveQrelEntries :: rat
  ap_requiredBiEncoderModelId :: string
  ap_requiredBiEncoderRevision :: string

definition DEFAULT_ADMISSION_POLICY :: "string \<Rightarrow> string \<Rightarrow> admission_policy" where
  "DEFAULT_ADMISSION_POLICY modelId revision =
     \<lparr> ap_totalCap = 10000, ap_perDomainCap = 1500, ap_minHardNegativesPerRecord = 2, ap_minTruthDocumentsPerRecord = 1,
       ap_requireSourceProvenance = True, ap_minPositiveQrelEntries = 1, ap_requiredBiEncoderModelId = modelId,
       ap_requiredBiEncoderRevision = revision \<rparr>"

datatype admission_rejection =
  missing_source_provenance | insufficient_hard_negatives | insufficient_truth_documents | insufficient_positive_qrels
  | embedding_model_id_mismatch | embedding_revision_mismatch | per_domain_cap_exceeded | total_cap_exceeded

text \<open>The fields of a corpus event that the gate reads; the documents themselves are opaque.\<close>

record 'doc corpus_candidate =
  cc_id :: string
  cc_domain :: string
  cc_sourceHash :: "string option"
  cc_truthDocuments :: "'doc list"
  cc_hardNegatives :: "'doc list"
  cc_relevances :: "rat list"
  cc_modelId :: string
  cc_revision :: string

record 'doc admission_decision =
  ad_admitted :: "'doc corpus_candidate list"
  ad_rejected :: "('doc corpus_candidate \<times> admission_rejection) list"
  ad_perDomainCounts :: "(string \<times> nat) list"

definition trim :: "string \<Rightarrow> string" where
  "trim s = rev (dropWhile js_white (rev (dropWhile js_white s)))"

text \<open>The checks of one record, before the caps.\<close>

definition quality_check :: "admission_policy \<Rightarrow> 'doc corpus_candidate \<Rightarrow> admission_rejection option" where
  "quality_check policy record =
     (let isAbstention = (length (cc_truthDocuments record) = 0) in
      if ap_requireSourceProvenance policy \<and> trim (or_else (cc_sourceHash record) '''') = ''''
      then Some missing_source_provenance
      else if \<not> isAbstention \<and> of_nat (length (cc_truthDocuments record)) < ap_minTruthDocumentsPerRecord policy
      then Some insufficient_truth_documents
      else if of_nat (length (cc_hardNegatives record)) < ap_minHardNegativesPerRecord policy
      then Some insufficient_hard_negatives
      else if \<not> isAbstention \<and> of_nat (length (filter (\<lambda>r. r > 0) (cc_relevances record))) < ap_minPositiveQrelEntries policy
      then Some insufficient_positive_qrels
      else if cc_modelId record \<noteq> ap_requiredBiEncoderModelId policy then Some embedding_model_id_mismatch
      else if cc_revision record \<noteq> ap_requiredBiEncoderRevision policy then Some embedding_revision_mismatch
      else None)"

definition admit_step :: "admission_policy \<Rightarrow> 'doc admission_decision \<Rightarrow> 'doc corpus_candidate \<Rightarrow> 'doc admission_decision" where
  "admit_step policy d record =
     (case quality_check policy record of
        Some reason \<Rightarrow> d\<lparr>ad_rejected := ad_rejected d @ [(record, reason)]\<rparr>
      | None \<Rightarrow>
          (let domain = cc_domain record;
               domainCount = or_else (map_of (ad_perDomainCounts d) domain) 0
           in if of_nat domainCount \<ge> ap_perDomainCap policy
              then d\<lparr>ad_rejected := ad_rejected d @ [(record, per_domain_cap_exceeded)]\<rparr>
              else if of_nat (length (ad_admitted d)) \<ge> ap_totalCap policy
              then d\<lparr>ad_rejected := ad_rejected d @ [(record, total_cap_exceeded)]\<rparr>
              else d\<lparr>ad_admitted := ad_admitted d @ [record],
                ad_perDomainCounts := AList.update domain (domainCount + 1) (ad_perDomainCounts d)\<rparr>))"

definition admitCorpusBatch :: "'doc corpus_candidate list \<Rightarrow> admission_policy \<Rightarrow> 'doc admission_decision" where
  "admitCorpusBatch candidates policy =
     foldl (admit_step policy) \<lparr> ad_admitted = [], ad_rejected = [], ad_perDomainCounts = [] \<rparr> candidates"

section \<open>The gate of live evaluation\<close>

text \<open>What is admitted over an epoch of requests.\<close>

definition gate_run :: "nat \<Rightarrow> (string \<times> string \<times> string \<times> bool) list \<Rightarrow> live_gate" where
  "gate_run cap reqs = foldl (gate_step cap) \<lparr> lg_keys = [], lg_admissions = [] \<rparr> reqs"

lemma admit_iff:
  "ld_admit (liveEvalAdmissionDecision input) \<longleftrightarrow>
     ADDR_RE (la_minerAddress input) \<and> BYTES32_RE (la_patchHash input) \<and> BYTES32_RE (la_dedupKey input) \<and>
     is_integer (la_minerAdmissionsThisEpoch input) \<and> 0 \<le> la_minerAdmissionsThisEpoch input \<and>
     is_integer (la_perMinerCap input) \<and> 1 \<le> la_perMinerCap input \<and> la_structurallyValid input \<and>
     ''0x'' @ toLowerCase (clean_hex (la_dedupKey input)) \<notin> set (la_dedupedKeysThisEpoch input) \<and>
     la_minerAdmissionsThisEpoch input < la_perMinerCap input"
  by (auto simp: liveEvalAdmissionDecision_def reject_def Let_def not_le not_less)

lemma update_new: "k \<notin> fst ` set m \<Longrightarrow> AList.update k v m = m @ [(k, v)]"
  by (induction m) auto

lemma list_all_update: "list_all P m \<Longrightarrow> P (k, v) \<Longrightarrow> list_all P (AList.update k v m)"
  by (induction m) auto

lemma sum_update:
  "distinct (map fst m) \<Longrightarrow> sum_list (map snd (AList.update k (or_else (map_of m k) 0 + 1) m)) = sum_list (map snd m) + (1 :: nat)"
  by (induction m) (auto simp: or_else_def split: option.splits dest: map_of_SomeD)

definition gate_inv :: "nat \<Rightarrow> live_gate \<Rightarrow> bool" where
  "gate_inv cap g \<longleftrightarrow> distinct (lg_keys g) \<and> distinct (map fst (lg_admissions g)) \<and>
     list_all (\<lambda>(m, n). n \<le> cap) (lg_admissions g) \<and> sum_list (map snd (lg_admissions g)) = length (lg_keys g)"

lemma gate_step_inv: "gate_inv cap g \<Longrightarrow> gate_inv cap (gate_step cap g r)"
proof -
  assume inv: "gate_inv cap g"
  obtain miner patchHash dedupKey valid where r: "r = (miner, patchHash, dedupKey, valid)" by (cases r)
  show ?thesis
  proof (cases "ld_admit (liveEvalAdmissionDecision (gate_input g cap r))")
    case True
    then have "''0x'' @ toLowerCase (clean_hex dedupKey) \<notin> set (lg_keys g)" "gate_count g miner < cap"
      by (auto simp: admit_iff gate_input_def r)
    moreover have "list_all (\<lambda>(m, n). n \<le> cap) (AList.update miner (gate_count g miner + 1) (lg_admissions g))"
      if "gate_count g miner < cap"
      using inv that by (intro list_all_update) (simp_all add: gate_inv_def)
    ultimately show ?thesis using inv True
      by (simp add: gate_inv_def gate_step_def r distinct_update sum_update [simplified] gate_count_def)
  qed (use inv in \<open>simp add: gate_step_def r\<close>)
qed

text \<open>
  Fact: an epoch of live evaluations.  Over every sequence of requests to a host that records
  what it admits: no dedup key is admitted twice, whatever the case and the prefix it is
  written with, no miner is admitted more often than the cap, and every admission is counted.
\<close>

theorem live_gate_caps:
  "distinct (lg_keys (gate_run cap reqs)) \<and> gate_count (gate_run cap reqs) miner \<le> cap \<and>
   sum_list (map snd (lg_admissions (gate_run cap reqs))) = length (lg_keys (gate_run cap reqs))"
proof -
  have "gate_inv cap (gate_run cap reqs)"
    unfolding gate_run_def by (induction reqs rule: rev_induct) (simp_all add: gate_inv_def gate_step_inv [unfolded gate_inv_def])
  then show ?thesis
    by (auto simp: gate_inv_def gate_count_def or_else_def list_all_iff split: option.split dest: map_of_SomeD)
qed

text \<open>
  Fact: the decision of the live gate.  A request is admitted exactly when the addresses and
  hashes are well formed, the counters are integers in range, the patch is structurally valid,
  its key in lower case is new, and the miner is below the cap; the reason of a refusal is the
  first rule that fails, in the documented order.
\<close>

theorem live_decision:
  "ld_admit (liveEvalAdmissionDecision i) = (ld_reason (liveEvalAdmissionDecision i) = OK) \<and>
   (case ld_reason (liveEvalAdmissionDecision i) of
      malformed_input \<Rightarrow> \<not> (ADDR_RE (la_minerAddress i) \<and> BYTES32_RE (la_patchHash i) \<and> BYTES32_RE (la_dedupKey i) \<and>
        is_integer (la_minerAdmissionsThisEpoch i) \<and> 0 \<le> la_minerAdmissionsThisEpoch i \<and>
        is_integer (la_perMinerCap i) \<and> 1 \<le> la_perMinerCap i)
    | structurally_invalid \<Rightarrow> \<not> la_structurallyValid i
    | duplicate_key_collapsed \<Rightarrow> la_structurallyValid i \<and>
        ''0x'' @ toLowerCase (drop 2 (la_dedupKey i)) \<in> set (la_dedupedKeysThisEpoch i)
    | per_miner_cap_reached \<Rightarrow> la_structurallyValid i \<and>
        ''0x'' @ toLowerCase (drop 2 (la_dedupKey i)) \<notin> set (la_dedupedKeysThisEpoch i) \<and>
        la_perMinerCap i \<le> la_minerAdmissionsThisEpoch i
    | OK \<Rightarrow> ADDR_RE (la_minerAddress i) \<and> BYTES32_RE (la_patchHash i) \<and> la_structurallyValid i \<and>
        ''0x'' @ toLowerCase (drop 2 (la_dedupKey i)) \<notin> set (la_dedupedKeysThisEpoch i) \<and>
        la_minerAdmissionsThisEpoch i < la_perMinerCap i)"
proof -
  have "clean_hex (la_dedupKey i) = drop 2 (la_dedupKey i)" if "BYTES32_RE (la_dedupKey i)"
    using that by (simp add: BYTES32_RE_def prefixed_hex_def clean_hex_def)
  then show ?thesis
    by (auto simp: liveEvalAdmissionDecision_def reject_def Let_def not_le not_less)
qed

section \<open>Admission of corpus records\<close>

definition cap_rejection :: "admission_rejection \<Rightarrow> bool" where
  "cap_rejection r \<longleftrightarrow> r = per_domain_cap_exceeded \<or> r = total_cap_exceeded"

definition domain_count :: "'doc admission_decision \<Rightarrow> string \<Rightarrow> nat" where
  "domain_count d x = length (filter (\<lambda>c. cc_domain c = x) (ad_admitted d))"

text \<open>A rejected record fails the named check, or its cap is full.\<close>

definition rejection_justified :: "admission_policy \<Rightarrow> 'doc admission_decision \<Rightarrow> 'doc corpus_candidate \<times> admission_rejection \<Rightarrow> bool" where
  "rejection_justified policy d = (\<lambda>(c, r).
     quality_check policy c = Some r \<or>
     r = per_domain_cap_exceeded \<and> quality_check policy c = None \<and> ap_perDomainCap policy \<le> of_nat (domain_count d (cc_domain c)) \<or>
     r = total_cap_exceeded \<and> quality_check policy c = None \<and> ap_totalCap policy \<le> of_nat (length (ad_admitted d)))"

definition batch_inv :: "admission_policy \<Rightarrow> 'doc corpus_candidate list \<Rightarrow> 'doc admission_decision \<Rightarrow> bool" where
  "batch_inv policy cs d \<longleftrightarrow>
     subseq (ad_admitted d) cs \<and> mset (ad_admitted d) + mset (map fst (ad_rejected d)) = mset cs \<and>
     list_all (\<lambda>c. quality_check policy c = None) (ad_admitted d) \<and>
     list_all (rejection_justified policy d) (ad_rejected d) \<and>
     length (ad_admitted d) \<le> nat \<lceil>ap_totalCap policy\<rceil> \<and>
     (\<forall>x. domain_count d x \<le> nat \<lceil>ap_perDomainCap policy\<rceil>) \<and>
     (\<forall>x. or_else (map_of (ad_perDomainCounts d) x) 0 = domain_count d x)"

lemma below_ceiling: "of_nat n < (x :: rat) \<Longrightarrow> Suc n \<le> nat \<lceil>x\<rceil>"
  by linarith

lemma batch_inv_reject:
  assumes "batch_inv policy cs d" and "rejection_justified policy d (c, r)"
  shows "batch_inv policy (cs @ [c]) (d\<lparr>ad_rejected := ad_rejected d @ [(c, r)]\<rparr>)"
  using assms unfolding batch_inv_def rejection_justified_def domain_count_def
  by (auto intro: subseq_order.trans [OF _ subseq_rev_drop_many] simp: list_emb_append2)

lemma justified_mono:
  assumes "rejection_justified policy d x" and "ad_admitted d' = ad_admitted d @ [c]"
  shows "rejection_justified policy d' x"
proof -
  have count: "domain_count d y \<le> domain_count d' y" "length (ad_admitted d) \<le> length (ad_admitted d')" for y
    using assms(2) by (simp_all add: domain_count_def)
  have domain: "ap_perDomainCap policy \<le> of_nat (domain_count d' y)" if "ap_perDomainCap policy \<le> of_nat (domain_count d y)" for y
    using that of_nat_mono [OF count(1) [of y]] by (rule order_trans)
  have total: "ap_totalCap policy \<le> of_nat (length (ad_admitted d'))" if "ap_totalCap policy \<le> of_nat (length (ad_admitted d))"
    using that of_nat_mono [OF count(2)] by (rule order_trans)
  show ?thesis using assms(1) domain total unfolding rejection_justified_def case_prod_beta by (elim disjE conjE) simp_all
qed

lemma batch_inv_admit:
  assumes "batch_inv policy cs d" and "quality_check policy c = None"
    and "of_nat (domain_count d (cc_domain c)) < ap_perDomainCap policy"
    and "of_nat (length (ad_admitted d)) < ap_totalCap policy"
  shows "batch_inv policy (cs @ [c]) (d\<lparr>ad_admitted := ad_admitted d @ [c],
    ad_perDomainCounts := AList.update (cc_domain c) (domain_count d (cc_domain c) + 1) (ad_perDomainCounts d)\<rparr>)"
    (is "batch_inv policy _ ?d")
proof -
  have "domain_count ?d x = (if x = cc_domain c then Suc (domain_count d x) else domain_count d x)" for x
    by (simp add: domain_count_def)
  moreover have "list_all (rejection_justified policy ?d) (ad_rejected d)"
  proof (rule list.pred_mono_strong)
    show "list_all (rejection_justified policy d) (ad_rejected d)" using assms(1) by (simp add: batch_inv_def)
  qed (rule justified_mono, simp_all)
  ultimately show ?thesis using assms
    by (auto simp: batch_inv_def or_else_def update_conv' below_ceiling list_emb_append_mono)
qed

lemma admit_step_inv: "batch_inv policy cs d \<Longrightarrow> batch_inv policy (cs @ [c]) (admit_step policy d c)"
proof -
  assume inv: "batch_inv policy cs d"
  then have cnt: "or_else (map_of (ad_perDomainCounts d) x) 0 = domain_count d x" for x by (simp add: batch_inv_def)
  show ?thesis
  proof (cases "quality_check policy c")
    case None
    then show ?thesis
      using batch_inv_reject [OF inv, of c] batch_inv_admit [OF inv None]
      by (auto simp: admit_step_def cnt Let_def rejection_justified_def)
  qed (use batch_inv_reject [OF inv, of c] in \<open>simp add: admit_step_def rejection_justified_def\<close>)
qed


text \<open>
  Fact: abstention records need hard negatives too.  The policy documents the minimum as one
  for records that are not abstentions; an abstention without hard negatives is rejected for
  them.
\<close>

theorem abstention_needs_negatives:
  "quality_check (DEFAULT_ADMISSION_POLICY ''m'' ''r'')
     \<lparr> cc_id = ''e'', cc_domain = ''d'', cc_sourceHash = Some ''0x1'', cc_truthDocuments = [], cc_hardNegatives = [],
       cc_relevances = [], cc_modelId = ''m'', cc_revision = ''r'' \<rparr> = Some insufficient_hard_negatives"
  by code_simp

end
