(* ===== verification/Canonical_Json.thy ===== *)
theory Canonical_Json
  imports Doubles Hex_Codec Eligibility "HOL-Library.List_Lexorder" "HOL-Library.Char_ord" "HOL-Library.Multiset"
begin

text \<open>
  \<open>src/canonical/json.ts\<close>: the serializer under every hash and signature of documents.  The
  text of a number that is no integer below \<open>10 ^ 21\<close> is left to the parameter \<open>ns\<close>, the
  shortest decimal form of the language standard; negative zero is not distinguished from
  zero, as in that form.
\<close>

section \<open>Values\<close>

text \<open>What \<open>typeof\<close> and \<open>instanceof\<close> tell apart.  The entries of a \<open>Map\<close> carry \<open>String(key)\<close>;
  an object has its own enumerable properties in any order.\<close>

datatype js_number = Finite rat | Not_Finite

datatype js_value =
  JUndefined | JNull | JBool bool | JNumber js_number | JString string | JBigint int | JBytes bytes
  | JMap "(string \<times> js_value) list" | JArray "js_value list" | JObject "(string \<times> js_value) list" | JOther

section \<open>Serialization\<close>

text \<open>\<open>JSON.stringify\<close> of a string.\<close>

definition json_escape :: "char \<Rightarrow> string" where
  "json_escape c =
     (if c = CHR 0x22 then [CHR 0x5C, CHR 0x22]
      else if c = CHR 0x5C then [CHR 0x5C, CHR 0x5C]
      else if c = CHR 0x08 then [CHR 0x5C, CHR ''b'']
      else if c = CHR 0x09 then [CHR 0x5C, CHR ''t'']
      else if c = CHR 0x0A then [CHR 0x5C, CHR ''n'']
      else if c = CHR 0x0C then [CHR 0x5C, CHR ''f'']
      else if c = CHR 0x0D then [CHR 0x5C, CHR ''r'']
      else if (of_char c :: nat) < 32 then
        [CHR 0x5C, CHR ''u'', CHR ''0'', CHR ''0'', hex_digit (of_char c div 16), hex_digit (of_char c mod 16)]
      else [c])"

definition json_string :: "string \<Rightarrow> string" where
  "json_string s = [CHR 0x22] @ concat (map json_escape s) @ [CHR 0x22]"

text \<open>\<open>JSON.stringify\<close> of a finite number.\<close>

definition number_string :: "(rat \<Rightarrow> string) \<Rightarrow> rat \<Rightarrow> string" where
  "number_string ns x = (if of_int \<lfloor>x\<rfloor> = x \<and> \<bar>x\<bar> < 10 ^ 21 then bigint_to_string \<lfloor>x\<rfloor> else ns x)"

definition safe_integer :: "rat \<Rightarrow> bool" where
  "safe_integer x \<longleftrightarrow> of_int \<lfloor>x\<rfloor> = x \<and> \<bar>x\<bar> \<le> 2 ^ 53 - 1"

definition bytesToBareHex :: "bytes \<Rightarrow> string" where
  "bytesToBareHex bs = foldl (\<lambda>hex b. hex @ pad_start 2 CHR ''0'' (to_string_16 (unat b))) '''' bs"

fun json_join :: "string list \<Rightarrow> string" where
  "json_join [] = ''''"
| "json_join [s] = s"
| "json_join (s # t # ss) = s @ '','' @ json_join (t # ss)"

text \<open>\<open>for (const [k, v] of value) obj[String(k)] = v;\<close>\<close>

definition map_object :: "(string \<times> js_value) list \<Rightarrow> (string \<times> js_value) list" where
  "map_object entries = foldl (\<lambda>obj (k, v). AList.update k v obj) [] entries"

fun is_undefined :: "js_value \<Rightarrow> bool" where
  "is_undefined JUndefined = True"
| "is_undefined _ = False"

lemma set_map_object: "(k, v) \<in> set (map_object entries) \<Longrightarrow> (k, v) \<in> set entries"
proof -
  have "(k, v) \<in> set (foldl (\<lambda>obj (k, v). AList.update k v obj) al entries) \<Longrightarrow> (k, v) \<in> set al \<union> set entries" for al
  proof (induction entries arbitrary: al)
    case (Cons e entries)
    have "set (AList.update a b al) \<subseteq> insert (a, b) (set al)" for a :: string and b :: js_value
      by (induction al) auto
    with Cons show ?case by (cases e) fastforce
  qed simp
  from this [of "[]"] show "(k, v) \<in> set (map_object entries) \<Longrightarrow> (k, v) \<in> set entries" by (simp add: map_object_def)
qed

lemma size_entry [termination_simp]: "(k, v) \<in> set entries \<Longrightarrow> size v < Suc (size_list (\<lambda>x. Suc (size (snd x))) entries)"
  by (induction entries) auto

lemma size_map_entry [termination_simp]:
  "(k, v) \<in> set (map_object entries) \<Longrightarrow> size v < Suc (size_list (\<lambda>x. Suc (size (snd x))) entries)"
  by (rule size_entry) (rule set_map_object)

text \<open>\<open>serialize\<close>, with the option \<open>numbers: 'safe-integer'\<close> as a flag.  The object rules:\<close>

definition object_entries :: "(string \<times> js_value) list \<Rightarrow> (string \<times> js_value) list" where
  "object_entries obj = filter (\<lambda>(k, v). \<not> is_undefined v) (sort_key fst obj)"

lemma set_object_entries: "(k, v) \<in> set (object_entries obj) \<Longrightarrow> (k, v) \<in> set obj"
  by (simp add: object_entries_def)

lemma size_object_entries [termination_simp]:
  "(k, v) \<in> set (object_entries obj) \<Longrightarrow> size v < Suc (size_list (\<lambda>x. Suc (size (snd x))) obj)"
  "(k, v) \<in> set (object_entries (map_object obj)) \<Longrightarrow> size v < Suc (size_list (\<lambda>x. Suc (size (snd x))) obj)"
  by (rule size_entry, erule set_object_entries) (rule size_entry, rule set_map_object, erule set_object_entries)

definition braces :: "string list \<Rightarrow> string" where
  "braces parts = ''{'' @ json_join parts @ ''}''"

fun serialize :: "(rat \<Rightarrow> string) \<Rightarrow> bool \<Rightarrow> js_value \<Rightarrow> js_error + string" where
  "serialize ns safe JNull = Inr ''null''"
| "serialize ns safe (JBool b) = Inr (if b then ''true'' else ''false'')"
| "serialize ns safe (JNumber Not_Finite) = Inl (TypeError ''canonicalJson: non-finite number would silently hash as null'')"
| "serialize ns safe (JNumber (Finite x)) =
     (if safe \<and> \<not> safe_integer x
      then Inl (TypeError ''canonicalJson: numbers must be safe integers under the safe-integer policy'')
      else Inr (number_string ns x))"
| "serialize ns safe (JString s) = Inr (json_string s)"
| "serialize ns safe (JBigint n) = Inr (json_string (bigint_to_string n))"
| "serialize ns safe (JBytes bs) = Inr (json_string (bytesToBareHex bs))"
| "serialize ns safe (JMap entries) =
     map_sum id braces (map_res (\<lambda>(k, v). map_sum id (\<lambda>s. json_string k @ '':'' @ s) (serialize ns safe v))
       (object_entries (map_object entries)))"
| "serialize ns safe (JArray vs) =
     map_sum id (\<lambda>parts. ''['' @ json_join parts @ '']'')
       (map_res (\<lambda>v. if is_undefined v then Inr ''null'' else serialize ns safe v) vs)"
| "serialize ns safe (JObject obj) =
     map_sum id braces (map_res (\<lambda>(k, v). map_sum id (\<lambda>s. json_string k @ '':'' @ s) (serialize ns safe v))
       (object_entries obj))"
| "serialize ns safe JUndefined = Inl (TypeError ''canonicalJson: unsupported undefined'')"
| "serialize ns safe JOther = Inl (TypeError ''canonicalJson: unsupported symbol or function'')"

definition canonicalJson :: "(rat \<Rightarrow> string) \<Rightarrow> bool \<Rightarrow> js_value \<Rightarrow> js_error + string" where
  "canonicalJson ns safe value =
     (if is_undefined value then Inl (TypeError ''canonicalJson: top-level undefined is not serializable'')
      else serialize ns safe value)"

section \<open>The document behind a value\<close>

text \<open>The JSON document a value stands for; objects carry their defined properties sorted.\<close>

datatype json = JsNull | JsBool bool | JsNum rat | JsStr string | JsArr "json list" | JsObj "(string \<times> json) list"

fun document :: "js_value \<Rightarrow> json" where
  "document JNull = JsNull"
| "document (JBool b) = JsBool b"
| "document (JNumber Not_Finite) = JsNull"
| "document (JNumber (Finite x)) = JsNum x"
| "document (JString s) = JsStr s"
| "document (JBigint n) = JsStr (bigint_to_string n)"
| "document (JBytes bs) = JsStr (bytesToBareHex bs)"
| "document (JMap entries) = JsObj (map (\<lambda>(k, v). (k, document v)) (object_entries (map_object entries)))"
| "document (JArray vs) = JsArr (map document vs)"
| "document (JObject obj) = JsObj (map (\<lambda>(k, v). (k, document v)) (object_entries obj))"
| "document JUndefined = JsNull"
| "document JOther = JsNull"

fun render :: "(rat \<Rightarrow> string) \<Rightarrow> json \<Rightarrow> string" where
  "render ns JsNull = ''null''"
| "render ns (JsBool b) = (if b then ''true'' else ''false'')"
| "render ns (JsNum x) = number_string ns x"
| "render ns (JsStr s) = json_string s"
| "render ns (JsArr js) = ''['' @ json_join (map (render ns) js) @ '']''"
| "render ns (JsObj kvs) = ''{'' @ json_join (map (\<lambda>(k, v). json_string k @ '':'' @ render ns v) kvs) @ ''}''"

lemma map_sum_Inr: "map_sum id f r = Inr y \<longleftrightarrow> (\<exists>x. r = Inr x \<and> y = f x)"
  by (cases r) auto

lemma map_res_Inr_map:
  "map_res f xs = Inr ys \<Longrightarrow> (\<And>x y. x \<in> set xs \<Longrightarrow> f x = Inr y \<Longrightarrow> y = g x) \<Longrightarrow> ys = map g xs"
proof (induction xs arbitrary: ys)
  case (Cons x xs)
  then obtain y ys' where "f x = Inr y" "map_res f xs = Inr ys'" "ys = y # ys'" by (auto simp: bind_res_eq_Inr)
  with Cons show ?case by auto
qed simp

lemma serialize_render: "serialize ns safe v = Inr s \<Longrightarrow> s = render ns (document v)"
proof (induction ns safe v arbitrary: s rule: serialize.induct)
  case (8 ns safe entries)
  then show ?case
    by (auto simp: map_sum_Inr braces_def comp_def case_prod_beta intro!: arg_cong [where f = json_join] map_res_Inr_map)
next
  case (9 ns safe vs)
  have "y = render ns (document v)" if "v \<in> set vs" "(if is_undefined v then Inr ''null'' else serialize ns safe v) = Inr y" for v y
    using 9(1) [OF that(1)] that(2) by (cases "is_undefined v") (auto elim: is_undefined.elims)
  with 9(2) show ?case
    by (auto simp: map_sum_Inr comp_def intro!: arg_cong [where f = json_join] map_res_Inr_map)
next
  case (10 ns safe obj)
  then show ?case
    by (auto simp: map_sum_Inr braces_def comp_def case_prod_beta intro!: arg_cong [where f = json_join] map_res_Inr_map)
qed (auto split: if_splits)

section \<open>Strings and numbers are read back\<close>

text \<open>The short escapes, and their reader.\<close>

definition short_escape :: "char \<Rightarrow> char option" where
  "short_escape c =
     (if c = CHR 0x22 then Some (CHR 0x22) else if c = CHR 0x5C then Some (CHR 0x5C)
      else if c = CHR 0x08 then Some CHR ''b'' else if c = CHR 0x09 then Some CHR ''t''
      else if c = CHR 0x0A then Some CHR ''n'' else if c = CHR 0x0C then Some CHR ''f''
      else if c = CHR 0x0D then Some CHR ''r'' else None)"

lemma json_escape_cases:
  obtains (short) e where "short_escape c = Some e" "json_escape c = [CHR 0x5C, e]" "e \<noteq> CHR ''u''"
  | (code) "short_escape c = None" "(of_char c :: nat) < 32"
      "json_escape c = [CHR 0x5C, CHR ''u'', CHR ''0'', CHR ''0'', hex_digit (of_char c div 16), hex_digit (of_char c mod 16)]"
  | (plain) "short_escape c = None" "json_escape c = [c]" "c \<noteq> CHR 0x22" "c \<noteq> CHR 0x5C"
proof (cases "short_escape c")
  case None
  then show thesis using code plain
    by (cases "(of_char c :: nat) < 32") (auto simp: short_escape_def json_escape_def split: if_splits)
next
  case (Some e)
  then show thesis using short by (auto simp: short_escape_def json_escape_def split: if_splits)
qed

lemma short_escape_inject: "short_escape c = Some e \<Longrightarrow> short_escape d = Some e \<Longrightarrow> c = d"
  by (auto simp: short_escape_def split: if_splits)

lemma hex_digit_inject: "a < 16 \<Longrightarrow> b < 16 \<Longrightarrow> hex_digit a = hex_digit b \<Longrightarrow> a = b"
  by (metis hex_digit_props(6) option.inject)

lemma json_escape_inject:
  assumes "json_escape c @ x = json_escape d @ y"
  shows "c = d \<and> x = y"
proof (cases c rule: json_escape_cases)
  case (short e)
  then show ?thesis using assms by (cases d rule: json_escape_cases) (auto dest: short_escape_inject)
next
  case c: code
  show ?thesis
  proof (cases d rule: json_escape_cases)
    case d: code
    have "hex_digit (of_char c div 16) = hex_digit (of_char d div 16)" "hex_digit (of_char c mod 16) = hex_digit (of_char d mod 16)"
      using assms by (simp_all add: c(3) d(3))
    with c(2) d(2) have "of_char c div 16 = (of_char d div 16 :: nat)" "of_char c mod 16 = (of_char d mod 16 :: nat)"
      by (simp_all add: hex_digit_inject)
    then have "(of_char c :: nat) = of_char d" by (metis div_mult_mod_eq)
    with assms show ?thesis by (simp add: c(3) d(3))
  qed (use assms c in auto)
qed (use assms in \<open>cases d rule: json_escape_cases; auto\<close>)

lemma json_escape_quote: "json_escape c @ x \<noteq> CHR 0x22 # y"
  by (cases c rule: json_escape_cases) auto

lemma json_string_inject:
  assumes "json_string s @ x = json_string t @ y"
  shows "s = t \<and> x = y"
proof -
  have "concat (map json_escape s) @ CHR 0x22 # x = concat (map json_escape t) @ CHR 0x22 # y"
    using assms by (simp add: json_string_def)
  then show ?thesis
  proof (induction s arbitrary: t)
    case Nil
    then show ?case by (cases t) (auto simp: json_escape_quote dest: not_sym sym)
  next
    case (Cons c s)
    show ?case
    proof (cases t)
      case Nil
      with Cons.prems json_escape_quote [of c] show ?thesis by simp
    next
      case (Cons d t')
      with Cons.prems json_escape_inject [of c _ d] have "c = d"
        "concat (map json_escape s) @ CHR 0x22 # x = concat (map json_escape t') @ CHR 0x22 # y" by simp_all
      with Cons.IH Cons show ?thesis by blast
    qed
  qed
qed

section \<open>Documents are read back\<close>

definition number_char :: "char \<Rightarrow> bool" where
  "number_char c \<longleftrightarrow> c \<in> set ''0123456789+-.e''"

text \<open>What the language standard says of the text of a double: it is not empty, has the characters
  of a number, and different doubles have different texts.\<close>

definition number_format :: "(rat \<Rightarrow> string) \<Rightarrow> bool" where
  "number_format ns \<longleftrightarrow> inj_on (number_string ns) {x. dbl x = x} \<and>
     (\<forall>x. dbl x = x \<longrightarrow> number_string ns x \<noteq> [] \<and> list_all number_char (number_string ns x))"

fun numbers_ok :: "json \<Rightarrow> bool" where
  "numbers_ok (JsNum x) = (dbl x = x)"
| "numbers_ok (JsArr js) = list_all numbers_ok js"
| "numbers_ok (JsObj kvs) = list_all (\<lambda>(k, v). numbers_ok v) kvs"
| "numbers_ok _ = True"

text \<open>What may follow a value in a document, and what a value may start with.\<close>

definition delimited :: "string \<Rightarrow> bool" where
  "delimited r \<longleftrightarrow> r = [] \<or> hd r \<in> set '',]}''"

definition item_start :: "char \<Rightarrow> bool" where
  "item_start c \<longleftrightarrow> number_char c \<or> c \<in> set ''ntf['' \<or> c = CHR 0x22 \<or> c = CHR ''{''"

lemma number_prefix:
  assumes "x @ r = y @ r'" and "list_all number_char x" and "list_all number_char y" and "delimited r" and "delimited r'"
  shows "x = y \<and> r = r'"
proof -
  have d: "\<not> number_char (hd r)" if "delimited r" "r \<noteq> []" for r
    using that by (auto simp: delimited_def number_char_def)
  have "takeWhile number_char (x @ r) = x" "takeWhile number_char (y @ r') = y"
    using assms(2-) d [of r] d [of r'] by (auto simp: takeWhile_append2 list_all_iff takeWhile_eq_Nil_iff)
  with assms(1) show ?thesis by auto
qed

lemma number_string_start:
  assumes "number_format ns" and "dbl x = x"
  shows "\<exists>c t. number_string ns x = c # t \<and> number_char c"
  using assms unfolding number_format_def by (cases "number_string ns x") auto

lemma render_start:
  assumes "number_format ns" and "numbers_ok j"
  shows "\<exists>c t. render ns j = c # t \<and> item_start c"
proof (cases j)
  case (JsNum x)
  with assms number_string_start [of ns x] show ?thesis by (auto simp: item_start_def)
qed (auto simp: item_start_def json_string_def)

text \<open>Items joined with commas and closed by a bracket.\<close>

lemma json_join_inject:
  assumes "\<And>x y r r'. x \<in> set xs \<Longrightarrow> y \<in> set ys \<Longrightarrow> f x @ r = f y @ r' \<Longrightarrow> delimited r \<Longrightarrow> delimited r' \<Longrightarrow> x = y \<and> r = r'"
    and "\<And>x. x \<in> set xs \<union> set ys \<Longrightarrow> \<exists>c t. f x = c # t \<and> item_start c"
    and "b \<in> set '']}''"
    and "json_join (map f xs) @ b # r = json_join (map f ys) @ b # r'"
  shows "xs = ys \<and> r = r'"
  using assms
proof (induction xs arbitrary: ys)
  case Nil
  show ?case
  proof (cases ys)
    case (Cons y ys')
    from Nil(2) [of y] Cons obtain c t where "f y = c # t" "item_start c" by auto
    with Nil(3,4) Cons show ?thesis by (cases ys') (auto simp: item_start_def number_char_def)
  qed (use Nil in simp)
next
  case (Cons x xs)
  from Cons.prems(2) [of x] obtain c t where x: "f x = c # t" "item_start c" by auto
  show ?case
  proof (cases ys)
    case Nil
    with Cons.prems(3,4) x show ?thesis by (cases xs) (auto simp: item_start_def number_char_def)
  next
    case ys: (Cons y ys')
    define tl where "tl zs q = (if zs = [] then b # q else CHR '','' # json_join (map f zs) @ b # q)" for zs q
    have join: "json_join (map f (z # zs)) @ b # q = f z @ tl zs q" for z zs q
      by (cases zs) (simp_all add: tl_def)
    have delim: "delimited (tl zs q)" for zs q using Cons.prems(3) by (auto simp: tl_def delimited_def)
    have "x = y \<and> tl xs r = tl ys' r'"
      using Cons.prems(1) [of x y] Cons.prems(4) delim unfolding ys join by simp
    then have "x = y" and tl: "tl xs r = tl ys' r'" by simp_all
    moreover have "xs = ys' \<and> r = r'"
    proof (cases "xs = [] \<or> ys' = []")
      case True
      with tl Cons.prems(3) show ?thesis by (auto simp: tl_def split: if_splits)
    next
      case False
      with tl have eqn: "json_join (map f xs) @ b # r = json_join (map f ys') @ b # r'" by (simp add: tl_def)
      show ?thesis
      proof (rule Cons.IH [OF _ _ Cons.prems(3) eqn])
        show "u = v \<and> q = q'" if "u \<in> set xs" "v \<in> set ys'" "f u @ q = f v @ q'" "delimited q" "delimited q'" for u v q q'
          by (rule Cons.prems(1)) (use that ys in simp_all)
        show "\<exists>c t. f u = c # t \<and> item_start c" if "u \<in> set xs \<union> set ys'" for u
          by (rule Cons.prems(2)) (use that ys in auto)
      qed
    qed
    ultimately show ?thesis by (simp add: ys)
  qed
qed

text \<open>The first character tells the kind of a document.\<close>

fun kind_char :: "json \<Rightarrow> char \<Rightarrow> bool" where
  "kind_char JsNull c = (c = CHR ''n'')"
| "kind_char (JsBool b) c = (c = (if b then CHR ''t'' else CHR ''f''))"
| "kind_char (JsNum x) c = number_char c"
| "kind_char (JsStr s) c = (c = CHR 0x22)"
| "kind_char (JsArr js) c = (c = CHR ''['')"
| "kind_char (JsObj kvs) c = (c = CHR ''{'')"

lemma render_kind:
  assumes "number_format ns" and "numbers_ok j"
  shows "\<exists>c t. render ns j = c # t \<and> kind_char j c"
proof (cases j)
  case (JsNum x)
  with assms number_string_start [of ns x] show ?thesis by auto
qed (auto simp: json_string_def)

lemma same_kind:
  assumes "number_format ns" and "numbers_ok a" and "numbers_ok b" and "render ns a @ r = render ns b @ r'"
  shows "\<exists>c. kind_char a c \<and> kind_char b c"
  using render_kind [OF assms(1,2)] render_kind [OF assms(1,3)] assms(4) by auto

lemma render_inject:
  assumes ns: "number_format ns"
  shows "render ns a @ r = render ns b @ r' \<Longrightarrow> delimited r \<Longrightarrow> delimited r' \<Longrightarrow> numbers_ok a \<Longrightarrow> numbers_ok b \<Longrightarrow>
    a = b \<and> r = r'"
proof (induction a arbitrary: b r r')
  case JsNull
  with same_kind [OF ns _ _ JsNull(1)] show ?case by (cases b) (auto simp: number_char_def split: if_splits)
next
  case (JsBool x)
  with same_kind [OF ns _ _ JsBool(1)] show ?case by (cases b) (auto simp: number_char_def split: if_splits)
next
  case (JsNum x)
  with same_kind [OF ns _ _ JsNum(1)] obtain y where y: "b = JsNum y" by (cases b) (auto simp: number_char_def split: if_splits)
  have "list_all number_char (number_string ns x)" "list_all number_char (number_string ns y)"
    using ns JsNum(4,5) by (simp_all add: number_format_def y)
  then have "number_string ns x = number_string ns y \<and> r = r'"
    using number_prefix [of "number_string ns x" r "number_string ns y" r'] JsNum(1-3) by (simp add: y)
  moreover from this have "x = y" using ns JsNum(4,5) by (auto simp: number_format_def y inj_on_def)
  ultimately show ?case by (simp add: y)
next
  case (JsStr s)
  with same_kind [OF ns _ _ JsStr(1)] obtain t where t: "b = JsStr t" by (cases b) (auto simp: number_char_def split: if_splits)
  with JsStr(1) json_string_inject [of s r t r'] show ?case by simp
next
  case (JsArr js)
  with same_kind [OF ns _ _ JsArr(2)] obtain ks where ks: "b = JsArr ks" by (cases b) (auto simp: number_char_def split: if_splits)
  have "js = ks \<and> r = r'"
  proof (rule json_join_inject)
    show "x = y \<and> q = q'" if "x \<in> set js" "y \<in> set ks" "render ns x @ q = render ns y @ q'" "delimited q" "delimited q'" for x y q q'
      using JsArr(1) [OF that(1,3,4,5)] JsArr(5,6) that(1,2) by (auto simp: ks list_all_iff)
    show "\<exists>c t. render ns x = c # t \<and> item_start c" if "x \<in> set js \<union> set ks" for x
      using render_start [OF ns] JsArr(5,6) that by (auto simp: ks list_all_iff)
    show "CHR '']'' \<in> set '']}''" by simp
    show "json_join (map (render ns) js) @ CHR '']'' # r = json_join (map (render ns) ks) @ CHR '']'' # r'"
      using JsArr(2) by (simp add: ks)
  qed
  then show ?case by (simp add: ks)
next
  case (JsObj kvs)
  with same_kind [OF ns _ _ JsObj(2)] obtain lvs where lvs: "b = JsObj lvs" by (cases b) (auto simp: number_char_def split: if_splits)
  define f where "f = (\<lambda>(k, v). json_string k @ '':'' @ render ns v)"
  have "kvs = lvs \<and> r = r'"
  proof (rule json_join_inject)
    show "x = y \<and> q = q'" if that: "x \<in> set kvs" "y \<in> set lvs" "f x @ q = f y @ q'" "delimited q" "delimited q'" for x y q q'
    proof -
      obtain k v l w where xy: "x = (k, v)" "y = (l, w)" by fastforce
      from that(3) have "json_string k @ '':'' @ render ns v @ q = json_string l @ '':'' @ render ns w @ q'" by (simp add: f_def xy)
      from json_string_inject [OF this] have "k = l" "render ns v @ q = render ns w @ q'" by simp_all
      moreover have "numbers_ok v" "numbers_ok w" using JsObj(5,6) that(1,2) by (auto simp: lvs xy list_all_iff)
      ultimately have "v = w \<and> q = q'"
        by (intro JsObj(1) [of "(k, v)" v]) (use that(1,4,5) in \<open>simp_all add: xy\<close>)
      with \<open>k = l\<close> show ?thesis by (simp add: xy)
    qed
    show "\<exists>c t. f x = c # t \<and> item_start c" if "x \<in> set kvs \<union> set lvs" for x
      by (cases x) (simp add: f_def json_string_def item_start_def)
    show "CHR ''}'' \<in> set '']}''" by simp
    show "json_join (map f kvs) @ CHR ''}'' # r = json_join (map f lvs) @ CHR ''}'' # r'"
      using JsObj(2) by (simp add: lvs f_def)
  qed
  then show ?case by (simp add: lvs)
qed

lemma canonical_inject:
  assumes "number_format ns" and "canonicalJson ns safe v = Inr s" and "canonicalJson ns safe' w = Inr s"
    and "numbers_ok (document v)" and "numbers_ok (document w)"
  shows "document v = document w"
proof -
  have "s = render ns (document v)" "s = render ns (document w)"
    using assms(2,3) serialize_render by (auto simp: canonicalJson_def split: if_splits)
  then have "render ns (document v) @ [] = render ns (document w) @ []" by simp
  from render_inject [OF assms(1) this] assms(4,5) show ?thesis by (simp add: delimited_def)
qed


lemma sort_key_perm:
  assumes "mset kvs = mset lvs" and "distinct (map fst kvs)"
  shows "sort_key fst kvs = sort_key fst lvs"
proof (rule sort_key_inj_key_eq)
  show "mset kvs = mset (sort_key fst lvs)" using assms(1) by simp
  show "inj_on fst (set kvs)" using assms(2) by (simp add: distinct_map)
qed simp

text \<open>
  Fact: the order of properties does not matter.  Two objects with the same properties in a
  different order serialize to the same text or the same exception, and so do objects that
  differ in properties whose value is undefined.
\<close>

theorem object_order_irrelevant:
  assumes "distinct (map fst kvs)"
    and "mset (filter (\<lambda>(k, v). \<not> is_undefined v) kvs) = mset (filter (\<lambda>(k, v). \<not> is_undefined v) lvs)"
  shows "canonicalJson ns safe (JObject kvs) = canonicalJson ns safe (JObject lvs)"
proof -
  have "distinct (map fst (filter (\<lambda>(k, v). \<not> is_undefined v) kvs))"
    using assms(1) by (simp add: distinct_map inj_on_def)
  from sort_key_perm [OF assms(2) this] have "object_entries kvs = object_entries lvs"
    by (simp add: object_entries_def filter_sort)
  then show ?thesis by (simp add: canonicalJson_def)
qed

theorem object_order_irrelevant_witness:
  "canonicalJson (\<lambda>_. []) True (JObject [(''b'', JBigint 7), (''x'', JUndefined), (''a'', JNull)]) =
   canonicalJson (\<lambda>_. []) True (JObject [(''a'', JNull), (''b'', JBigint 7)])"
  by (rule object_order_irrelevant) simp_all

section \<open>What serializes\<close>

fun serializable :: "bool \<Rightarrow> js_value \<Rightarrow> bool" where
  "serializable safe (JNumber Not_Finite) = False"
| "serializable safe (JNumber (Finite x)) = (safe \<longrightarrow> safe_integer x)"
| "serializable safe (JMap entries) = list_all (\<lambda>(k, v). serializable safe v) (object_entries (map_object entries))"
| "serializable safe (JArray vs) = list_all (\<lambda>v. is_undefined v \<or> serializable safe v) vs"
| "serializable safe (JObject obj) = list_all (\<lambda>(k, v). serializable safe v) (object_entries obj)"
| "serializable safe JUndefined = False"
| "serializable safe JOther = False"
| "serializable safe _ = True"

lemma map_res_total: "(\<exists>ys. map_res f xs = Inr ys) \<longleftrightarrow> list_all (\<lambda>x. \<exists>y. f x = Inr y) xs"
  by (induction xs) (auto simp: bind_res_eq_Inr)

lemma entries_total:
  assumes "\<And>k v. (k, v) \<in> set es \<Longrightarrow> (\<exists>s. serialize ns safe v = Inr s) \<longleftrightarrow> serializable safe v"
  shows "(\<exists>ys. map_res (\<lambda>(k, v). map_sum id (\<lambda>s. json_string k @ '':'' @ s) (serialize ns safe v)) es = Inr ys) \<longleftrightarrow>
    list_all (\<lambda>(k, v). serializable safe v) es"
  unfolding map_res_total by (rule list.pred_cong) (use assms in \<open>auto simp: map_sum_Inr split: prod.splits\<close>)

lemma serialize_total: "(\<exists>s. serialize ns safe v = Inr s) \<longleftrightarrow> serializable safe v"
proof (induction ns safe v rule: serialize.induct)
  case (8 ns safe entries)
  then show ?case using entries_total [of "object_entries (map_object entries)" ns safe] by (auto simp: map_sum_Inr)
next
  case (9 ns safe vs)
  have "list_all (\<lambda>v. \<exists>y. (if is_undefined v then Inr ''null'' else serialize ns safe v) = Inr y) vs \<longleftrightarrow>
      list_all (\<lambda>v. is_undefined v \<or> serializable safe v) vs"
    by (rule list.pred_cong) (use 9 in auto)
  then show ?case by (simp add: map_sum_Inr map_res_total)
next
  case (10 ns safe obj)
  then show ?case using entries_total [of "object_entries obj" ns safe] by (auto simp: map_sum_Inr)
qed auto

text \<open>
  Fact: what does not serialize.  The text exists exactly when no part of the value that is
  serialized is a non-finite number, a symbol or a function and, under the safe-integer
  policy, every number is a safe integer; undefined is refused at the top, written as null in
  an array and skipped in an object.
\<close>

theorem canonical_total: "(\<exists>s. canonicalJson ns safe v = Inr s) = serializable safe v"
  using serialize_total [of ns safe v] by (cases v) (auto simp: canonicalJson_def)

section \<open>A number format\<close>

text \<open>An instance of the documented behaviour: numerator and denominator.\<close>

definition sample_numbers :: "rat \<Rightarrow> string" where
  "sample_numbers x = (let (a, b) = quotient_of x in bigint_to_string a @ ''.'' @ bigint_to_string b)"

definition integer_char :: "char \<Rightarrow> bool" where
  "integer_char c \<longleftrightarrow> c \<in> set ''0123456789-''"

lemma digit_char: "k < 10 \<Longrightarrow> integer_char (char_of (48 + k :: nat))"
proof -
  assume "k < 10"
  then have "k \<in> {0, 1, 2, 3, 4, 5, 6, 7, 8, 9}" by auto
  then show ?thesis unfolding integer_char_def by (elim insertE emptyE; simp only:; code_simp)
qed

lemma nat_digits_chars: "list_all integer_char (nat_digits n) \<and> nat_digits n \<noteq> []"
proof (induction n rule: nat_digits.induct)
  case (1 n)
  then show ?case by (subst (1 2) nat_digits.simps) (auto simp: digit_char)
qed

lemma bigint_chars: "list_all integer_char (bigint_to_string n)" "bigint_to_string n \<noteq> []"
  using nat_digits_chars [of "nat n"] nat_digits_chars [of "nat (- n)"]
  by (auto simp: bigint_to_string_def integer_char_def)

lemma bigint_no_dot: "CHR ''.'' \<notin> set (bigint_to_string n)"
proof
  assume "CHR ''.'' \<in> set (bigint_to_string n)"
  with bigint_chars(1) [of n] have "integer_char CHR ''.''" by (simp add: list_all_iff)
  then show False by (simp add: integer_char_def)
qed

lemma sample_format: "number_format sample_numbers"
proof -
  have s: "sample_numbers x = bigint_to_string (fst (quotient_of x)) @ CHR ''.'' # bigint_to_string (snd (quotient_of x))" for x
    by (simp add: sample_numbers_def case_prod_beta)
  have inj: "x = y" if "sample_numbers x = sample_numbers y" for x y
  proof -
    from split_at_char [OF that [unfolded s] bigint_no_dot bigint_no_dot] have "quotient_of x = quotient_of y"
      by (auto simp: bigint_to_string_inject prod_eq_iff)
    then show ?thesis by (metis quotient_of_inject)
  qed
  have diff: "bigint_to_string n \<noteq> sample_numbers x" "sample_numbers x \<noteq> bigint_to_string n" for n x
    using bigint_no_dot [of n] unfolding s by (metis in_set_conv_decomp)+
  have "x = y" if "number_string sample_numbers x = number_string sample_numbers y" for x y
    using that unfolding number_string_def by (metis bigint_to_string_inject diff inj)
  moreover have "number_string sample_numbers x \<noteq> [] \<and> list_all number_char (number_string sample_numbers x)" for x
  proof -
    have "integer_char c \<Longrightarrow> number_char c" for c by (auto simp: integer_char_def number_char_def)
    then have "list_all number_char (bigint_to_string n)" for n
      using list.pred_mono_strong [OF bigint_chars(1)] by blast
    then show ?thesis using bigint_chars(2) by (simp add: number_string_def s) (simp add: number_char_def)
  qed
  ultimately show ?thesis by (auto simp: number_format_def inj_on_def)
qed


end
