(* ===== verification/Corpus_Root.thy ===== *)
theory Corpus_Root
  imports Canonical_Json Keccak Seed_Derivation "HOL-Library.List_Lexorder" "HOL-Library.Char_ord" "HOL-Library.Multiset"
begin

text \<open>
  The corpus root of \<open>src/eval/retrieval-corpus.ts\<close>: the Merkle root over the events of a
  corpus, kept as a forest of perfect subtrees so that later events can be appended, and the
  deterministic split of a record.
\<close>

section \<open>Leaves\<close>

text \<open>An event is its identifier and the object that is serialized.  \<open>TextEncoder\<close> writes a
  character above 127 as two bytes.\<close>

record corpus_event =
  ce_id :: string
  ce_value :: js_value

record corpus_leaf =
  cl_id :: string
  cl_hash :: bytes

definition codePointCompare :: "string \<Rightarrow> string \<Rightarrow> int" where
  "codePointCompare a b = (if a < b then - 1 else if a > b then 1 else 0)"

definition computeCorpusEventLeafHash :: "(rat \<Rightarrow> string) \<Rightarrow> corpus_event \<Rightarrow> js_error + bytes" where
  "computeCorpusEventLeafHash ns event = map_sum id (\<lambda>s. keccak256 (utf8 s)) (canonicalJson ns False (ce_value event))"

section \<open>The forest\<close>

datatype corpus_node = Corpus_Node (cn_size: nat) (cn_root: bytes) (cn_children: "(corpus_node \<times> corpus_node) option")

text \<open>\<open>Uint8Array.set\<close> throws when the source does not fit.\<close>

definition combineRoots :: "bytes \<Rightarrow> bytes \<Rightarrow> js_error + bytes" where
  "combineRoots left right =
     (if length left > 64 \<or> length right > 32 then Inl (RangeError ''offset is out of bounds'')
      else
        (let pair = left @ replicate (64 - length left) 0
         in Inr (keccak256 (take 32 pair @ right @ drop (32 + length right) pair))))"

definition combineNodes :: "corpus_node \<Rightarrow> corpus_node \<Rightarrow> js_error + corpus_node" where
  "combineNodes left right =
     (if cn_size left \<noteq> cn_size right then Inl (Error ''combineNodes: size mismatch'')
      else map_sum id (\<lambda>r. Corpus_Node (cn_size left + cn_size right) r (Some (left, right)))
        (combineRoots (cn_root left) (cn_root right)))"

function appendNodeToForest :: "corpus_node list \<Rightarrow> corpus_node \<Rightarrow> js_error + corpus_node list" where
  "appendNodeToForest forest carry =
     (if length forest > 0 \<and> cn_size (last forest) = cn_size carry
      then bind_res (combineNodes (last forest) carry) (\<lambda>carry. appendNodeToForest (butlast forest) carry)
      else Inr (forest @ [carry]))"
  by pat_completeness auto
termination by (relation "measure (\<lambda>(forest, carry). length forest)") auto

declare appendNodeToForest.simps [simp del]

definition leaf_node :: "corpus_leaf \<Rightarrow> corpus_node" where
  "leaf_node leaf = Corpus_Node 1 (cl_hash leaf) None"

definition buildForestFromLeaves :: "corpus_leaf list \<Rightarrow> js_error + corpus_node list" where
  "buildForestFromLeaves leaves = fold_res (\<lambda>forest leaf. appendNodeToForest forest (leaf_node leaf)) [] leaves"

text \<open>The padding nodes, without their cache, which only saves work.  The sizes are powers of two,
  so the halving ends at 1.\<close>

function zeroNode :: "nat \<Rightarrow> js_error + corpus_node" where
  "zeroNode sz =
     (if sz \<le> 1 then Inr (Corpus_Node sz (replicate 32 0) None)
      else bind_res (zeroNode (sz div 2)) (\<lambda>child.
        map_sum id (\<lambda>r. Corpus_Node sz r (Some (child, child))) (combineRoots (cn_root child) (cn_root child))))"
  by pat_completeness auto
termination by (relation "measure id") auto

declare zeroNode.simps [simp del]

text \<open>The loop of \<open>largestAlignedBlock\<close>, which starts at size 1.\<close>

function aligned_loop :: "nat \<Rightarrow> nat \<Rightarrow> nat \<Rightarrow> nat" where
  "aligned_loop position remaining sz =
     (if 0 < sz \<and> sz * 2 \<le> remaining \<and> position mod (sz * 2) = 0 then aligned_loop position remaining (sz * 2)
      else sz)"
  by pat_completeness auto
termination by (relation "measure (\<lambda>(position, remaining, sz). remaining - sz)") auto

declare aligned_loop.simps [simp del]

definition largestAlignedBlock :: "nat \<Rightarrow> nat \<Rightarrow> nat" where
  "largestAlignedBlock position remaining = aligned_loop position remaining 1"

text \<open>\<open>target <<= 1\<close> on a number is a shift of a signed 32-bit integer.  After 32 shifts it is 0 for
  ever, so a loop that has not stopped by then does not stop: \<open>None\<close>.\<close>

definition shift_left_32 :: "int \<Rightarrow> int" where
  "shift_left_32 t = sint (push_bit 1 (word_of_int t) :: 32 word)"

fun target_loop :: "nat \<Rightarrow> int \<Rightarrow> int \<Rightarrow> int option" where
  "target_loop 0 target eventCount = (if target < eventCount then None else Some target)"
| "target_loop (Suc fuel) target eventCount =
     (if target < eventCount then target_loop fuel (shift_left_32 target) eventCount else Some target)"

definition padded_target :: "nat \<Rightarrow> nat option" where
  "padded_target eventCount = map_option nat (target_loop 32 1 (int eventCount))"

lemma aligned_loop_ge: "sz \<le> aligned_loop position remaining sz"
proof (induction position remaining sz rule: aligned_loop.induct)
  case (1 position remaining sz)
  then show ?case by (subst aligned_loop.simps) auto
qed

function pad_loop :: "corpus_node list \<Rightarrow> nat \<Rightarrow> nat \<Rightarrow> js_error + corpus_node list" where
  "pad_loop work position remaining =
     (if remaining > 0
      then
        (let sz = largestAlignedBlock position remaining in
         bind_res (zeroNode sz) (\<lambda>z. bind_res (appendNodeToForest work z) (\<lambda>work.
           pad_loop work (position + sz) (remaining - sz))))
      else Inr work)"
  by pat_completeness auto
termination
proof (relation "measure (\<lambda>(work, position, remaining). remaining)")
  fix work position remaining z x and sz :: nat
  assume "0 < (remaining :: nat)" "sz = largestAlignedBlock position remaining"
  moreover have "1 \<le> largestAlignedBlock position remaining" by (simp add: largestAlignedBlock_def aligned_loop_ge)
  ultimately show "((x :: corpus_node list, position + sz, remaining - sz), work :: corpus_node list, position, remaining) \<in>
      measure (\<lambda>(work, position, remaining). remaining)" by simp
qed simp

declare pad_loop.simps [simp del]

definition rootFromForest :: "corpus_node list \<Rightarrow> nat \<Rightarrow> (js_error + string) option" where
  "rootFromForest forest eventCount =
     (if eventCount = 0 then Some (Inr (''0x'' @ concat (replicate 32 ''00'')))
      else (case padded_target eventCount of None \<Rightarrow> None
        | Some target \<Rightarrow> Some (bind_res (pad_loop forest eventCount (target - eventCount)) (\<lambda>work.
            if length work \<noteq> 1 then Inl (Error ''rootFromForest: forest did not reduce to one root'')
            else Inr (bytesToHex (cn_root (work ! 0)))))))"

section \<open>The cache\<close>

record corpus_root_cache =
  rc_eventCount :: nat
  rc_root :: string
  rc_leaves :: "corpus_leaf list"
  rc_forest :: "corpus_node list"

definition leaf_cmp :: "corpus_leaf \<Rightarrow> corpus_leaf \<Rightarrow> int" where
  "leaf_cmp a b = codePointCompare (cl_id a) (cl_id b)"

text \<open>A result whose computation may not return (the outer \<open>None\<close>) or may throw.\<close>

definition with_root :: "(js_error + string) option \<Rightarrow> (string \<Rightarrow> corpus_root_cache) \<Rightarrow> (js_error + corpus_root_cache) option" where
  "with_root r f = map_option (map_sum id f) r"

definition buildCorpusRootLeafCacheFromLeaves :: "corpus_leaf list \<Rightarrow> (js_error + corpus_root_cache) option" where
  "buildCorpusRootLeafCacheFromLeaves inputLeaves =
     (let leaves = js_sort leaf_cmp inputLeaves in
      case buildForestFromLeaves leaves of
        Inl e \<Rightarrow> Some (Inl e)
      | Inr forest \<Rightarrow> with_root (rootFromForest forest (length leaves)) (\<lambda>r.
          \<lparr> rc_eventCount = length leaves, rc_root = r, rc_leaves = leaves, rc_forest = forest \<rparr>))"

definition leaf_of :: "(rat \<Rightarrow> string) \<Rightarrow> corpus_event \<Rightarrow> js_error + corpus_leaf" where
  "leaf_of ns event = map_sum id (\<lambda>h. \<lparr> cl_id = ce_id event, cl_hash = h \<rparr>) (computeCorpusEventLeafHash ns event)"

definition buildCorpusRootLeafCache :: "(rat \<Rightarrow> string) \<Rightarrow> corpus_event list \<Rightarrow> (js_error + corpus_root_cache) option" where
  "buildCorpusRootLeafCache ns events =
     (let sorted' = js_sort (\<lambda>a b. codePointCompare (ce_id a) (ce_id b)) events in
      case map_res (leaf_of ns) sorted' of
        Inl e \<Rightarrow> Some (Inl e)
      | Inr leaves \<Rightarrow> buildCorpusRootLeafCacheFromLeaves leaves)"

definition computeCorpusRoot :: "(rat \<Rightarrow> string) \<Rightarrow> corpus_event list \<Rightarrow> (js_error + string) option" where
  "computeCorpusRoot ns events = map_option (map_sum id rc_root) (buildCorpusRootLeafCache ns events)"

text \<open>The merge loop of \<open>updateCorpusRootLeafCache\<close>, on what is left of the two lists.\<close>

fun merge_leaves :: "string set \<Rightarrow> corpus_leaf list \<Rightarrow> corpus_leaf list \<Rightarrow> corpus_leaf list" where
  "merge_leaves replacedIds [] added = added"
| "merge_leaves replacedIds (old # olds) added =
     (if cl_id old \<in> replacedIds then merge_leaves replacedIds olds added
      else (case added of
          [] \<Rightarrow> old # filter (\<lambda>l. cl_id l \<notin> replacedIds) olds
        | new # news \<Rightarrow>
            if leaf_cmp old new \<le> 0 then old # merge_leaves replacedIds olds added
            else new # merge_leaves replacedIds (old # olds) news))"

definition updateCorpusRootLeafCache ::
  "(rat \<Rightarrow> string) \<Rightarrow> corpus_root_cache \<Rightarrow> corpus_event list \<Rightarrow> string list \<Rightarrow> (js_error + corpus_root_cache) option" where
  "updateCorpusRootLeafCache ns cache additions removals =
     (if length additions = 0 \<and> length removals = 0 then Some (Inr cache)
      else
        (let replacedIds = set removals \<union> set (map ce_id additions) in
         case map_res (leaf_of ns) additions of
           Inl e \<Rightarrow> Some (Inl e)
         | Inr hashed \<Rightarrow>
             (let added = js_sort leaf_cmp hashed;
                  isTailAppend = (length removals = 0 \<and> (rc_leaves cache = [] \<or>
                    list_all (\<lambda>leaf. codePointCompare (cl_id (last (rc_leaves cache))) (cl_id leaf) < 0) added))
              in if isTailAppend
                 then
                   (let leaves = rc_leaves cache @ added in
                    case fold_res (\<lambda>forest leaf. appendNodeToForest forest (leaf_node leaf)) (rc_forest cache) added of
                      Inl e \<Rightarrow> Some (Inl e)
                    | Inr forest \<Rightarrow> with_root (rootFromForest forest (length leaves)) (\<lambda>r.
                        \<lparr> rc_eventCount = length leaves, rc_root = r, rc_leaves = leaves, rc_forest = forest \<rparr>))
                 else buildCorpusRootLeafCacheFromLeaves (merge_leaves replacedIds (rc_leaves cache) added))))"

section \<open>The reference root\<close>

text \<open>The root of a perfect binary tree over \<open>2 ^ d\<close> hashes.\<close>

fun perfect :: "nat \<Rightarrow> bytes list \<Rightarrow> bytes" where
  "perfect 0 hs = hs ! 0"
| "perfect (Suc d) hs = keccak256 (perfect d (take (2 ^ d) hs) @ perfect d (drop (2 ^ d) hs))"

definition zero_leaf :: bytes where
  "zero_leaf = replicate 32 0"

text \<open>The least depth of a tree that holds \<open>n\<close> leaves, and the root over the padded leaves.\<close>

definition depth_for :: "nat \<Rightarrow> nat" where
  "depth_for n = nbits (n - 1)"

definition padded_root :: "bytes list \<Rightarrow> bytes" where
  "padded_root hs =
     (if hs = [] then zero_leaf
      else perfect (depth_for (length hs)) (hs @ replicate (2 ^ depth_for (length hs) - length hs) zero_leaf))"

definition digests :: "bytes list \<Rightarrow> bool" where
  "digests hs \<longleftrightarrow> list_all (\<lambda>h. length h = 32) hs"

lemma depth_for_bounds: "0 < n \<Longrightarrow> n \<le> 2 ^ depth_for n \<and> (d < depth_for n \<longrightarrow> 2 ^ d < n)"
proof -
  assume "0 < n"
  show ?thesis
  proof (cases "n = 1")
    case True
    then show ?thesis by (simp add: depth_for_def nbits.simps)
  next
    case False
    with \<open>0 < n\<close> nbits_bounds [of "n - 1"] have b: "2 ^ depth_for n \<le> 2 * (n - 1)" "n - 1 < 2 ^ depth_for n"
      by (simp_all add: depth_for_def)
    have "2 ^ d < n" if "d < depth_for n"
    proof -
      have "(2 :: nat) * 2 ^ d \<le> 2 ^ depth_for n" using that power_increasing [of "Suc d" "depth_for n" "2 :: nat"] by simp
      with b \<open>0 < n\<close> show ?thesis by linarith
    qed
    with b show ?thesis by linarith
  qed
qed

section \<open>A forest is a binary numeral\<close>

text \<open>The trees of a forest with their depths and leaves, the depths strictly decreasing.\<close>

definition tree_ok :: "corpus_node \<Rightarrow> nat \<times> bytes list \<Rightarrow> bool" where
  "tree_ok n = (\<lambda>(k, c). cn_size n = 2 ^ k \<and> cn_root n = perfect k c \<and> length c = 2 ^ k \<and> digests c)"

definition forest_ok :: "corpus_node list \<Rightarrow> (nat \<times> bytes list) list \<Rightarrow> bool" where
  "forest_ok forest bs \<longleftrightarrow> list_all2 tree_ok forest bs \<and> sorted_wrt (>) (map fst bs)"

definition forest_leaves :: "(nat \<times> bytes list) list \<Rightarrow> bytes list" where
  "forest_leaves bs = concat (map snd bs)"

lemma length_perfect: "length c = 2 ^ k \<Longrightarrow> digests c \<Longrightarrow> length (perfect k c) = 32"
  by (cases k) (auto simp: digests_def list_all_length)

lemma combineRoots_digests: "length l = 32 \<Longrightarrow> length r = 32 \<Longrightarrow> combineRoots l r = Inr (keccak256 (l @ r))"
  by (simp add: combineRoots_def Let_def)

lemma combine_trees:
  assumes "tree_ok m (k, d)" and "tree_ok n (k, c)"
  shows "\<exists>x. combineNodes m n = Inr x \<and> tree_ok x (Suc k, d @ c)"
  using assms length_perfect [of d k] length_perfect [of c k]
  by (simp add: tree_ok_def combineNodes_def combineRoots_digests digests_def)

lemma append_tree:
  assumes "forest_ok forest bs" and "tree_ok n (k, c)" and "bs = [] \<or> k \<le> fst (last bs)"
  shows "\<exists>forest' bs'. appendNodeToForest forest n = Inr forest' \<and> forest_ok forest' bs' \<and>
    forest_leaves bs' = forest_leaves bs @ c"
  using assms
proof (induction bs arbitrary: forest n k c rule: rev_induct)
  case Nil
  then show ?case
    by (intro exI [of _ "[n]"] exI [of _ "[(k, c)]"]) (simp add: forest_ok_def forest_leaves_def appendNodeToForest.simps)
next
  case (snoc b bs)
  obtain j d where b: "b = (j, d)" by fastforce
  from snoc.prems(1) obtain f0 m where f: "forest = f0 @ [m]" "list_all2 tree_ok f0 bs" "tree_ok m (j, d)"
    unfolding forest_ok_def list_all2_append2 by (auto simp: b list_all2_Cons2)
  have dec: "sorted_wrt (>) (map fst bs)" "\<And>x. x \<in> set bs \<Longrightarrow> j < fst x"
    using snoc.prems(1) by (auto simp: forest_ok_def b sorted_wrt_append)
  have sizes: "cn_size m = 2 ^ j" "cn_size n = 2 ^ k" using f(3) snoc.prems(2) by (simp_all add: tree_ok_def)
  show ?case
  proof (cases "j = k")
    case True
    obtain x where x: "combineNodes m n = Inr x" "tree_ok x (Suc k, d @ c)"
      using combine_trees [of m k d n c] f(3) snoc.prems(2) True by auto
    have "forest_ok f0 bs" using f(2) dec(1) by (simp add: forest_ok_def)
    moreover have "bs = [] \<or> Suc k \<le> fst (last bs)"
      using dec(2) [of "last bs"] last_in_set True by (cases "bs = []") auto
    ultimately obtain forest' bs' where r: "appendNodeToForest f0 x = Inr forest'" "forest_ok forest' bs'"
      "forest_leaves bs' = forest_leaves bs @ d @ c" using snoc.IH x(2) by blast
    have "appendNodeToForest forest n = Inr forest'"
      by (subst appendNodeToForest.simps) (simp add: f(1) sizes True x(1) r(1))
    then show ?thesis using r(2,3) by (intro exI [of _ forest'] exI [of _ bs']) (simp add: forest_leaves_def b)
  next
    case False
    with snoc.prems(3) have "k < j" by (simp add: b)
    then have "appendNodeToForest forest n = Inr (forest @ [n])"
      by (subst appendNodeToForest.simps) (simp add: f(1) sizes)
    moreover have below: "k < fst x" if "x \<in> set bs" for x using dec(2) [OF that] \<open>k < j\<close> by simp
    moreover have "forest_ok (forest @ [n]) (bs @ [(j, d), (k, c)])"
      unfolding forest_ok_def
    proof
      show "list_all2 tree_ok (forest @ [n]) (bs @ [(j, d), (k, c)])"
        using list_all2_appendI [OF f(2), of "[m, n]" "[(j, d), (k, c)]"] f(1,3) snoc.prems(2) by simp
      show "sorted_wrt (>) (map fst (bs @ [(j, d), (k, c)]))"
        using dec \<open>k < j\<close> below by (auto simp: sorted_wrt_append)
    qed
    ultimately show ?thesis by (auto simp: forest_leaves_def b intro!: exI [of _ "bs @ [(j, d), (k, c)]"])
  qed
qed

lemma build_forest:
  assumes "forest_ok forest bs" and "digests (map cl_hash leaves)"
  shows "\<exists>forest' bs'. fold_res (\<lambda>forest leaf. appendNodeToForest forest (leaf_node leaf)) forest leaves = Inr forest' \<and>
    forest_ok forest' bs' \<and> forest_leaves bs' = forest_leaves bs @ map cl_hash leaves"
  using assms
proof (induction leaves arbitrary: forest bs)
  case (Cons l leaves)
  have "tree_ok (leaf_node l) (0, [cl_hash l])" using Cons.prems(2) by (simp add: tree_ok_def leaf_node_def digests_def)
  then obtain f1 b1 where 1: "appendNodeToForest forest (leaf_node l) = Inr f1" "forest_ok f1 b1" "forest_leaves b1 = forest_leaves bs @ [cl_hash l]"
    using append_tree [OF Cons.prems(1)] by blast
  from Cons.IH [OF 1(2)] Cons.prems(2) 1 show ?case by (auto simp: digests_def)
qed (auto simp: forest_leaves_def)

section \<open>Padding\<close>

lemma aligned_loop_power:
  assumes "sz = 2 ^ i" and "2 ^ i dvd position" and "2 ^ i \<le> remaining"
  shows "\<exists>j. aligned_loop position remaining sz = 2 ^ j \<and> 2 ^ j dvd position \<and> 2 ^ j \<le> remaining"
  using assms
proof (induction position remaining sz arbitrary: i rule: aligned_loop.induct)
  case (1 position remaining sz)
  show ?case
  proof (cases "0 < sz \<and> sz * 2 \<le> remaining \<and> position mod (sz * 2) = 0")
    case True
    then have "sz * 2 = 2 ^ Suc i" "2 ^ Suc i dvd position" using 1(2) by (simp_all add: mult.commute dvd_eq_mod_eq_0)
    with 1(1) [OF True, of "Suc i"] True show ?thesis by (subst aligned_loop.simps) (simp add: 1(2))
  next
    case False
    with 1(2-4) show ?thesis by (subst aligned_loop.simps) (auto intro!: exI [of _ i])
  qed
qed

lemma largestAlignedBlock_power:
  "0 < remaining \<Longrightarrow> \<exists>j. largestAlignedBlock position remaining = 2 ^ j \<and> 2 ^ j dvd position \<and> 2 ^ j \<le> remaining"
  unfolding largestAlignedBlock_def using aligned_loop_power [of 1 0 position remaining] by simp

lemma zeroNode_power: "\<exists>z. zeroNode (2 ^ j) = Inr z \<and> tree_ok z (j, replicate (2 ^ j) zero_leaf)"
proof (induction j)
  case 0
  then show ?case by (subst zeroNode.simps) (simp add: tree_ok_def digests_def zero_leaf_def)
next
  case (Suc j)
  then obtain z where z: "zeroNode (2 ^ j) = Inr z" "tree_ok z (j, replicate (2 ^ j) zero_leaf)" by blast
  then have "length (cn_root z) = 32" using length_perfect by (auto simp: tree_ok_def)
  moreover have "\<not> (2 :: nat) ^ Suc j \<le> 1" unfolding not_le by (rule one_less_power) simp_all
  moreover have "(2 :: nat) ^ Suc j div 2 = 2 ^ j" by simp
  ultimately show ?case using z
    by (subst zeroNode.simps) (auto simp: combineRoots_digests tree_ok_def digests_def list_all_iff)
qed

lemma forest_total: "forest_ok forest bs \<Longrightarrow> length (forest_leaves bs) = (\<Sum>b\<leftarrow>bs. 2 ^ fst b)"
proof -
  assume "forest_ok forest bs"
  then have "list_all2 tree_ok forest bs" by (simp add: forest_ok_def)
  then show ?thesis by (induction rule: list_all2_induct) (auto simp: forest_leaves_def tree_ok_def)
qed

lemma smallest_tree:
  assumes "sorted_wrt (>) (map fst (bs @ [(k, c)]))" and "2 ^ j dvd (\<Sum>b\<leftarrow>bs @ [(k, c)]. 2 ^ fst b :: nat)"
  shows "j \<le> k"
proof (rule ccontr)
  assume "\<not> j \<le> k"
  then have "(2 :: nat) ^ Suc k dvd 2 ^ j" by (intro le_imp_power_dvd) simp
  then have "2 ^ Suc k dvd (\<Sum>b\<leftarrow>bs. 2 ^ fst b) + (2 ^ k :: nat)" using assms(2) dvd_trans by fastforce
  moreover have "2 ^ Suc k dvd (\<Sum>b\<leftarrow>bs. 2 ^ fst b :: nat)"
    using assms(1) by (induction bs) (auto simp: sorted_wrt_append simp del: power_Suc intro!: dvd_add le_imp_power_dvd)
  ultimately have "(2 :: nat) ^ Suc k dvd 2 ^ k" by (simp add: dvd_add_right_iff)
  then show False by (simp add: dvd_def)
qed

lemma pad_forest:
  assumes "forest_ok work bs" and "position = length (forest_leaves bs)"
  shows "\<exists>work' bs'. pad_loop work position remaining = Inr work' \<and> forest_ok work' bs' \<and>
    forest_leaves bs' = forest_leaves bs @ replicate remaining zero_leaf"
  using assms
proof (induction remaining arbitrary: work bs position rule: less_induct)
  case (less remaining)
  show ?case
  proof (cases "remaining > 0")
    case False
    then show ?thesis using less.prems by (subst pad_loop.simps) auto
  next
    case True
    obtain j where j: "largestAlignedBlock position remaining = 2 ^ j" "2 ^ j dvd position" "2 ^ j \<le> remaining"
      using largestAlignedBlock_power [OF True] by blast
    obtain z where z: "zeroNode (2 ^ j) = Inr z" "tree_ok z (j, replicate (2 ^ j) zero_leaf)" using zeroNode_power by blast
    have "bs = [] \<or> j \<le> fst (last bs)"
    proof (cases bs rule: rev_cases)
      case (snoc as b)
      obtain k c where b: "b = (k, c)" by fastforce
      have "sorted_wrt (>) (map fst (as @ [(k, c)]))" using less.prems(1) by (simp add: forest_ok_def snoc b)
      moreover have "2 ^ j dvd (\<Sum>b\<leftarrow>as @ [(k, c)]. 2 ^ fst b :: nat)"
        using j(2) less.prems(2) forest_total [OF less.prems(1)] by (simp add: snoc b)
      ultimately show ?thesis using smallest_tree by (simp add: snoc b)
    qed simp
    then obtain w b' where w: "appendNodeToForest work z = Inr w" "forest_ok w b'"
      "forest_leaves b' = forest_leaves bs @ replicate (2 ^ j) zero_leaf"
      using append_tree [OF less.prems(1) z(2)] by blast
    have "remaining - 2 ^ j < remaining" using True by simp
    moreover have "position + 2 ^ j = length (forest_leaves b')" using w(3) less.prems(2) by simp
    ultimately obtain work' bs' where r: "pad_loop w (position + 2 ^ j) (remaining - 2 ^ j) = Inr work'" "forest_ok work' bs'"
      "forest_leaves bs' = forest_leaves b' @ replicate (remaining - 2 ^ j) zero_leaf"
      using less.IH w(2) by blast
    have "pad_loop work position remaining = Inr work'"
      using True by (subst pad_loop.simps) (simp add: j(1) z(1) w(1) r(1) Let_def)
    moreover have "replicate (2 ^ j) zero_leaf @ replicate (remaining - 2 ^ j) zero_leaf = replicate remaining zero_leaf"
      using j(3) by (simp flip: replicate_add)
    ultimately show ?thesis using r(2,3) w(3) by (intro exI [of _ work'] exI [of _ bs']) simp
  qed
qed

text \<open>A forest with a power of two of leaves is one tree.\<close>

lemma single_tree:
  assumes "forest_ok work bs" and "length (forest_leaves bs) = 2 ^ d"
  shows "\<exists>n. work = [n] \<and> cn_root n = perfect d (forest_leaves bs)"
proof (cases bs rule: rev_cases)
  case Nil
  with assms show ?thesis by (simp add: forest_leaves_def)
next
  case (snoc as b)
  obtain k c where b: "b = (k, c)" by fastforce
  have sum: "(\<Sum>b\<leftarrow>as. 2 ^ fst b) + 2 ^ k = (2 :: nat) ^ d"
    using forest_total [OF assms(1)] assms(2) by (simp add: snoc b)
  have "d \<le> k"
    by (rule smallest_tree [of as k c]) (use assms(1) sum in \<open>simp_all add: forest_ok_def snoc b\<close>)
  then have "(2 :: nat) ^ d \<le> 2 ^ k" by (rule power_increasing) simp
  with sum have 0: "(\<Sum>b\<leftarrow>as. 2 ^ fst b) = (0 :: nat)" and k: "(2 :: nat) ^ k = 2 ^ d" by linarith+
  then have "as = []" by (cases as) auto
  moreover from k have "k = d" by simp
  moreover obtain n where "work = [n]" "tree_ok n (k, c)"
    using assms(1) \<open>as = []\<close> by (auto simp: forest_ok_def snoc b list_all2_Cons2)
  ultimately show ?thesis by (simp add: tree_ok_def forest_leaves_def snoc b)
qed

section \<open>The shift loop\<close>

lemma shift_left_32_small: "0 \<le> t \<Longrightarrow> t < 2 ^ 30 \<Longrightarrow> shift_left_32 t = 2 * t"
proof -
  assume t: "0 \<le> t" "t < 2 ^ 30"
  have "push_bit 1 (word_of_int t) = (word_of_int (2 * t) :: 32 word)" by (simp add: push_bit_eq_mult)
  moreover have "sint (word_of_int (2 * t) :: 32 word) = 2 * t"
    unfolding sint_sbintrunc' using t by (simp add: signed_take_bit_int_eq_self_iff)
  ultimately show ?thesis by (simp only: shift_left_32_def)
qed

lemma target_loop_power:
  assumes "D \<le> 30" and "i \<le> D" and "D - i \<le> fuel" and "int n \<le> 2 ^ D" and "\<And>d. d < D \<Longrightarrow> 2 ^ d < int n"
  shows "target_loop fuel (2 ^ i) (int n) = Some (2 ^ D)"
  using assms(2,3)
proof (induction fuel arbitrary: i)
  case (Suc fuel)
  show ?case
  proof (cases "i = D")
    case False
    with Suc.prems assms(1) have i: "i < D" "i < 30" by linarith+
    then have "(2 :: int) ^ i < 2 ^ 30" by (intro power_strict_increasing) simp_all
    then have "shift_left_32 (2 ^ i) = 2 ^ Suc i" by (simp add: shift_left_32_small)
    with Suc.IH [of "Suc i"] Suc.prems i assms(5) [OF i(1)] show ?thesis by simp
  qed (use assms(4) in simp)
qed (use assms(4) in auto)

lemma padded_target_depth:
  assumes "0 < n" and "n \<le> 2 ^ 30"
  shows "padded_target n = Some (2 ^ depth_for n)"
proof -
  note b = depth_for_bounds [OF assms(1)]
  have "depth_for n \<le> 30" using b [of 30] assms(2) by (meson not_le)
  moreover have "int n \<le> 2 ^ depth_for n" using b by (metis of_nat_le_iff of_nat_numeral of_nat_power)
  moreover have "2 ^ d < int n" if "d < depth_for n" for d
    using b [of d] that by (metis of_nat_less_iff of_nat_numeral of_nat_power)
  ultimately have "target_loop 32 (2 ^ 0) (int n) = Some (2 ^ depth_for n)"
    by (intro target_loop_power) simp_all
  then show ?thesis by (simp add: padded_target_def nat_power_eq)
qed

section \<open>The corpus root is the padded tree\<close>

lemma rootFromForest_padded:
  assumes "forest_ok forest bs" and "length (forest_leaves bs) \<le> 2 ^ 30"
  shows "rootFromForest forest (length (forest_leaves bs)) = Some (Inr (bytesToHex (padded_root (forest_leaves bs))))"
proof (cases "forest_leaves bs = []")
  case True
  have "bytesToHex zero_leaf = ''0x'' @ concat (replicate 32 ''00'')" unfolding zero_leaf_def by code_simp
  with True show ?thesis by (simp add: rootFromForest_def padded_root_def)
next
  case False
  define n where "n = length (forest_leaves bs)"
  then have n: "0 < n" "n \<le> 2 ^ 30" using False assms(2) by simp_all
  obtain work bs' where w: "pad_loop forest n (2 ^ depth_for n - n) = Inr work" "forest_ok work bs'"
    "forest_leaves bs' = forest_leaves bs @ replicate (2 ^ depth_for n - n) zero_leaf"
    using pad_forest [OF assms(1) n_def] by blast
  have "length (forest_leaves bs') = 2 ^ depth_for n" using w(3) depth_for_bounds [OF n(1)] by (simp flip: n_def)
  from single_tree [OF w(2) this] obtain r where "work = [r]" "cn_root r = perfect (depth_for n) (forest_leaves bs')" by blast
  with w n show ?thesis
    by (simp add: rootFromForest_def padded_target_depth padded_root_def False flip: n_def)
qed

lemma corpus_root_padded:
  assumes "list_all (\<lambda>l. length (cl_hash l) = 32) leaves" and "length leaves \<le> 2 ^ 30"
  shows "\<exists>cache. buildCorpusRootLeafCacheFromLeaves leaves = Some (Inr cache) \<and>
    rc_leaves cache = sort_key cl_id leaves \<and> rc_eventCount cache = length leaves \<and>
    rc_root cache = bytesToHex (padded_root (map cl_hash (sort_key cl_id leaves)))"
proof -
  have cmp: "leaf_cmp x y \<le> 0 \<longleftrightarrow> cl_id x \<le> cl_id y" for x y by (auto simp: leaf_cmp_def codePointCompare_def)
  have sorted: "js_sort leaf_cmp leaves = sort_key cl_id leaves" by (rule js_sort_key [OF cmp])
  have "digests (map cl_hash (sort_key cl_id leaves))" using assms(1) by (simp add: digests_def list_all_iff)
  moreover have "forest_ok [] []" by (simp add: forest_ok_def)
  ultimately obtain forest bs where f: "buildForestFromLeaves (sort_key cl_id leaves) = Inr forest" "forest_ok forest bs"
    "forest_leaves bs = map cl_hash (sort_key cl_id leaves)"
    using build_forest unfolding buildForestFromLeaves_def by (fastforce simp: forest_leaves_def)
  have "length (forest_leaves bs) = length leaves" by (simp add: f(3))
  with rootFromForest_padded [OF f(2)] assms(2) show ?thesis
    by (simp add: buildCorpusRootLeafCacheFromLeaves_def sorted f(1,3) with_root_def Let_def)
qed

text \<open>
  C8: the corpus root.  For leaves of 32 bytes, at most \<open>2 ^ 30\<close> of them, building the cache
  returns and does not throw, its leaves are the given ones by identifier, and its root is the
  root of the binary tree over their hashes padded with zero leaves to the next power of two:
  the carries of the forest and the aligned padding blocks leave no trace.
\<close>

theorem corpus_root_correct:
  assumes "list_all (\<lambda>l. length (cl_hash l) = 32) leaves" and "length leaves \<le> 2 ^ 30"
  shows "\<exists>cache. buildCorpusRootLeafCacheFromLeaves leaves = Some (Inr cache) \<and>
    rc_leaves cache = sort_key cl_id leaves \<and> rc_eventCount cache = length leaves \<and>
    rc_root cache = bytesToHex (padded_root (map cl_hash (sort_key cl_id leaves)))"
  using assms by (rule corpus_root_padded)

section \<open>Updates equal rebuilds\<close>

lemma leaf_cmp_le: "leaf_cmp x y \<le> 0 \<longleftrightarrow> cl_id x \<le> cl_id y"
  by (auto simp: leaf_cmp_def codePointCompare_def)

lemma js_sort_leaves: "js_sort leaf_cmp leaves = sort_key cl_id leaves"
  by (rule js_sort_key [OF leaf_cmp_le])

lemma mset_merge:
  "mset (merge_leaves R olds added) = mset (filter (\<lambda>l. cl_id l \<notin> R) olds) + mset added"
  by (induction R olds added rule: merge_leaves.induct) (auto split: list.split)

lemma sort_key_unique:
  "mset xs = mset ys \<Longrightarrow> distinct (map cl_id xs) \<Longrightarrow> sort_key cl_id xs = sort_key cl_id ys"
  by (rule sort_key_inj_key_eq) (simp_all add: distinct_map)

lemma build_from_leaves_perm:
  "mset xs = mset ys \<Longrightarrow> distinct (map cl_id xs) \<Longrightarrow>
   buildCorpusRootLeafCacheFromLeaves xs = buildCorpusRootLeafCacheFromLeaves ys"
proof -
  assume a: "mset xs = mset ys" "distinct (map cl_id xs)"
  then have "length xs = length ys" by (metis size_mset)
  with sort_key_unique [OF a] show ?thesis
    by (simp add: buildCorpusRootLeafCacheFromLeaves_def js_sort_leaves)
qed

lemma built_cache:
  assumes "buildCorpusRootLeafCacheFromLeaves leaves = Some (Inr cache)"
  shows "rc_leaves cache = sort_key cl_id leaves \<and> buildForestFromLeaves (rc_leaves cache) = Inr (rc_forest cache)"
  using assms by (auto simp: buildCorpusRootLeafCacheFromLeaves_def js_sort_leaves with_root_def Let_def map_sum_Inr
    split: sum.splits)

lemma sort_key_append:
  assumes "\<And>x y. x \<in> set xs \<Longrightarrow> y \<in> set ys \<Longrightarrow> cl_id x < cl_id y" and "distinct (map cl_id xs)" and "distinct (map cl_id ys)"
  shows "sort_key cl_id (xs @ ys) = sort_key cl_id xs @ sort_key cl_id ys"
proof (rule sort_key_inj_key_eq)
  show "inj_on cl_id (set (xs @ ys))" using assms by (fastforce simp: inj_on_def distinct_map)
  show "sorted (map cl_id (sort_key cl_id xs @ sort_key cl_id ys))"
    using assms(1) by (auto simp: sorted_append less_imp_le)
qed simp

lemma sorted_last: "sorted (map f xs) \<Longrightarrow> x \<in> set xs \<Longrightarrow> f x \<le> f (last xs)"
  by (cases xs rule: rev_cases) (auto simp: sorted_append)

text \<open>
  C9: an incremental update equals a rebuild.  For a cache built from leaves with distinct
  identifiers, removing and adding events gives exactly the cache, the exception, or the lack
  of a result of a rebuild from the leaves that stay and the new ones, on both paths: the tail
  append that reuses the forest, and the merge.
\<close>

theorem corpus_update_equals_rebuild:
  assumes "buildCorpusRootLeafCacheFromLeaves leaves = Some (Inr cache)" and "distinct (map cl_id leaves)"
    and "map_res (leaf_of ns) additions = Inr hashed" and "distinct (map cl_id hashed)"
    and "map cl_id hashed = map ce_id additions"
  shows "updateCorpusRootLeafCache ns cache additions removals =
    buildCorpusRootLeafCacheFromLeaves
      (filter (\<lambda>l. cl_id l \<notin> set removals \<union> set (map ce_id additions)) leaves @ hashed)"
proof -
  note cache = built_cache [OF assms(1)]
  define R where "R = set removals \<union> set (map ce_id additions)"
  define added where "added = sort_key cl_id hashed"
  define kept where "kept = filter (\<lambda>l. cl_id l \<notin> R) leaves"
  have R: "cl_id l \<in> R" if "l \<in> set hashed" for l
    using that assms(5) unfolding R_def by (metis UnCI image_eqI list.set_map)
  have ids: "distinct (map cl_id (kept @ hashed))"
  proof -
    have "distinct (map cl_id kept)" by (simp add: kept_def distinct_map_filter assms(2))
    moreover have "cl_id ` set kept \<inter> cl_id ` set hashed = {}" using R by (auto simp: kept_def)
    ultimately show ?thesis using assms(4) by simp
  qed
  define tail where "tail \<longleftrightarrow> length removals = 0 \<and> (rc_leaves cache = [] \<or>
      list_all (\<lambda>leaf. codePointCompare (cl_id (last (rc_leaves cache))) (cl_id leaf) < 0) added)"
  have "updateCorpusRootLeafCache ns cache additions removals = buildCorpusRootLeafCacheFromLeaves (kept @ hashed)"
  proof (cases "length additions = 0 \<and> length removals = 0")
    case True
    with assms(1,3) show ?thesis by (simp add: updateCorpusRootLeafCache_def kept_def R_def)
  next
    case False
    note upd = False [folded length_0_conv]
    show ?thesis
    proof (cases tail)
      case True
      have below: "cl_id x < cl_id y" if "x \<in> set leaves" "y \<in> set hashed" for x y
      proof -
        have "x \<in> set (sort_key cl_id leaves)" using that(1) by simp
        then have "cl_id x \<le> cl_id (last (sort_key cl_id leaves))"
          by (intro sorted_last) simp_all
        moreover have "y \<in> set added" using that(2) by (simp add: added_def)
        moreover have "rc_leaves cache \<noteq> []" using that(1) cache by (metis empty_iff list.set(1) set_sort)
        ultimately show ?thesis using True cache
          by (auto simp: tail_def list_all_iff codePointCompare_def split: if_splits)
      qed
      have "kept = leaves"
      proof -
        have "R = cl_id ` set hashed" using True unfolding R_def assms(5) [symmetric] by (simp add: tail_def)
        then show ?thesis using below by (fastforce simp: kept_def filter_id_conv)
      qed
      moreover have "sort_key cl_id (leaves @ hashed) = rc_leaves cache @ added"
        using sort_key_append [OF below assms(2,4)] cache by (simp add: added_def)
      moreover have "buildForestFromLeaves (rc_leaves cache @ added) =
          fold_res (\<lambda>forest leaf. appendNodeToForest forest (leaf_node leaf)) (rc_forest cache) added"
        using conjunct2 [OF cache] unfolding buildForestFromLeaves_def by (simp add: fold_res_append)
      moreover have "length (rc_leaves cache @ added) = length (leaves @ hashed)" using cache by (simp add: added_def)
      moreover have "updateCorpusRootLeafCache ns cache additions removals =
          (case fold_res (\<lambda>forest leaf. appendNodeToForest forest (leaf_node leaf)) (rc_forest cache) added of
             Inl e \<Rightarrow> Some (Inl e)
           | Inr forest \<Rightarrow> with_root (rootFromForest forest (length (rc_leaves cache @ added))) (\<lambda>r.
               \<lparr> rc_eventCount = length (rc_leaves cache @ added), rc_root = r, rc_leaves = rc_leaves cache @ added, rc_forest = forest \<rparr>))"
        using upd True unfolding updateCorpusRootLeafCache_def Let_def assms(3) sum.case js_sort_leaves
          added_def [symmetric] tail_def [symmetric] by (simp only: if_False if_True)
      ultimately show ?thesis unfolding buildCorpusRootLeafCacheFromLeaves_def js_sort_leaves Let_def
        by (simp cong: sum.case_cong del: length_append)
    next
      case False
      have "mset (merge_leaves R (rc_leaves cache) added) = mset (kept @ hashed)"
        using cache by (simp add: mset_merge added_def kept_def)
      then have "buildCorpusRootLeafCacheFromLeaves (merge_leaves R (rc_leaves cache) added) =
          buildCorpusRootLeafCacheFromLeaves (kept @ hashed)"
        using build_from_leaves_perm [OF _ ids] by metis
      moreover have "updateCorpusRootLeafCache ns cache additions removals =
          buildCorpusRootLeafCacheFromLeaves (merge_leaves R (rc_leaves cache) added)"
        using upd False unfolding updateCorpusRootLeafCache_def Let_def assms(3) sum.case js_sort_leaves
          added_def [symmetric] tail_def [symmetric] R_def [symmetric] by (simp only: if_False)
      ultimately show ?thesis by (rule trans [rotated])
    qed
  qed
  then show ?thesis by (simp add: kept_def R_def)
qed

definition sample_leaf :: "char \<Rightarrow> byte \<Rightarrow> corpus_leaf" where
  "sample_leaf c b = \<lparr> cl_id = [c], cl_hash = replicate 32 b \<rparr>"

lemma sample_cache:
  "\<exists>cache. buildCorpusRootLeafCacheFromLeaves [sample_leaf CHR ''b'' 2, sample_leaf CHR ''a'' 1] = Some (Inr cache)"
  using corpus_root_padded [of "[sample_leaf CHR ''b'' 2, sample_leaf CHR ''a'' 1]"] by (auto simp: sample_leaf_def)

theorem corpus_root_correct_witness:
  "\<exists>cache. buildCorpusRootLeafCacheFromLeaves [sample_leaf CHR ''c'' 3, sample_leaf CHR ''a'' 1, sample_leaf CHR ''b'' 2] = Some (Inr cache) \<and>
    rc_leaves cache = [sample_leaf CHR ''a'' 1, sample_leaf CHR ''b'' 2, sample_leaf CHR ''c'' 3] \<and>
    rc_root cache = bytesToHex (padded_root [replicate 32 1, replicate 32 2, replicate 32 3])"
proof -
  have "sort_key cl_id [sample_leaf CHR ''c'' 3, sample_leaf CHR ''a'' 1, sample_leaf CHR ''b'' 2] =
      [sample_leaf CHR ''a'' 1, sample_leaf CHR ''b'' 2, sample_leaf CHR ''c'' 3]"
    by code_simp
  with corpus_root_correct [of "[sample_leaf CHR ''c'' 3, sample_leaf CHR ''a'' 1, sample_leaf CHR ''b'' 2]"]
  show ?thesis by (auto simp: sample_leaf_def)
qed

definition sample_event :: corpus_event where
  "sample_event = \<lparr> ce_id = ''a'', ce_value = JObject [(''id'', JString ''a'')] \<rparr>"

theorem corpus_update_equals_rebuild_witness:
  "\<exists>cache h. buildCorpusRootLeafCacheFromLeaves [sample_leaf CHR ''b'' 2, sample_leaf CHR ''a'' 1] = Some (Inr cache) \<and>
    updateCorpusRootLeafCache sample_numbers cache [sample_event] [''b''] =
      buildCorpusRootLeafCacheFromLeaves [\<lparr> cl_id = ''a'', cl_hash = h \<rparr>]"
proof -
  obtain cache where cache: "buildCorpusRootLeafCacheFromLeaves [sample_leaf CHR ''b'' 2, sample_leaf CHR ''a'' 1] = Some (Inr cache)"
    using sample_cache by blast
  obtain s where "canonicalJson sample_numbers False (ce_value sample_event) = Inr s"
    by (simp add: sample_event_def canonicalJson_def object_entries_def)
  then have leaf: "map_res (leaf_of sample_numbers) [sample_event] = Inr [\<lparr> cl_id = ''a'', cl_hash = keccak256 (utf8 s) \<rparr>]"
    by (simp add: leaf_of_def computeCorpusEventLeafHash_def) (simp add: sample_event_def)
  have "updateCorpusRootLeafCache sample_numbers cache [sample_event] [''b''] =
      buildCorpusRootLeafCacheFromLeaves [\<lparr> cl_id = ''a'', cl_hash = keccak256 (utf8 s) \<rparr>]"
    using corpus_update_equals_rebuild [OF cache _ leaf, of "[''b'']"] by (simp add: sample_leaf_def sample_event_def)
  with cache show ?thesis by blast
qed

text \<open>
  Fact: more than \<open>2 ^ 30\<close> events do not return.  The doubling of the target is a 32-bit shift: past
  \<open>2 ^ 30\<close> it turns negative and then stays 0, and the loop never ends.
\<close>

theorem corpus_root_diverges: "rootFromForest forest (2 ^ 30 + 1) = None"
proof -
  have "target_loop 32 1 (2 ^ 30 + 1) = None" by code_simp
  then show ?thesis by (simp add: rootFromForest_def padded_target_def)
qed

section \<open>The root identifies the corpus\<close>

text \<open>What is hashed inside a tree.\<close>

fun perfect_inputs :: "nat \<Rightarrow> bytes list \<Rightarrow> bytes list" where
  "perfect_inputs 0 hs = []"
| "perfect_inputs (Suc d) hs = (perfect d (take (2 ^ d) hs) @ perfect d (drop (2 ^ d) hs)) #
     perfect_inputs d (take (2 ^ d) hs) @ perfect_inputs d (drop (2 ^ d) hs)"

lemma perfect_binding:
  assumes "perfect d xs = perfect d ys" and "length xs = 2 ^ d" and "length ys = 2 ^ d" and "digests xs" and "digests ys"
    and "\<not> collide (perfect_inputs d xs) (perfect_inputs d ys)"
  shows "xs = ys"
  using assms
proof (induction d arbitrary: xs ys)
  case 0
  then show ?case by (cases xs; cases ys) auto
next
  case (Suc d)
  let ?a = "take (2 ^ d) xs" and ?b = "drop (2 ^ d) xs" and ?c = "take (2 ^ d) ys" and ?e = "drop (2 ^ d) ys"
  have l: "length ?a = 2 ^ d" "length ?b = 2 ^ d" "length ?c = 2 ^ d" "length ?e = 2 ^ d" using Suc.prems(2,3) by simp_all
  have dg: "digests ?a" "digests ?b" "digests ?c" "digests ?e"
    using Suc.prems(4,5) by (auto simp: digests_def list_all_iff dest: in_set_takeD in_set_dropD)
  have "perfect d ?a @ perfect d ?b = perfect d ?c @ perfect d ?e"
  proof (rule ccontr)
    assume "perfect d ?a @ perfect d ?b \<noteq> perfect d ?c @ perfect d ?e"
    with Suc.prems(1) have "collide (perfect_inputs (Suc d) xs) (perfect_inputs (Suc d) ys)"
      by (intro collideI [of "perfect d ?a @ perfect d ?b" _ "perfect d ?c @ perfect d ?e"]) simp_all
    with Suc.prems(6) show False ..
  qed
  then have "perfect d ?a = perfect d ?c \<and> perfect d ?b = perfect d ?e"
    using length_perfect [OF l(1) dg(1)] length_perfect [OF l(3) dg(3)] by (simp add: append_eq_append_conv)
  moreover have "\<not> collide (perfect_inputs d ?a) (perfect_inputs d ?c)" "\<not> collide (perfect_inputs d ?b) (perfect_inputs d ?e)"
    using Suc.prems(6) by (auto elim!: contrapos_nn collide_mono)
  ultimately have "?a = ?c" "?b = ?e" using Suc.IH l dg by blast+
  then show ?case by (metis append_take_drop_id)
qed

section \<open>The split of a record\<close>

datatype corpus_split = train_visible | calibration | eval_hidden | canary

record split_ratios =
  sr_trainVisiblePct :: int
  sr_calibrationPct :: int
  sr_evalHiddenPct :: int
  sr_canaryPct :: int

definition DEFAULT_SPLIT_RATIOS :: split_ratios where
  "DEFAULT_SPLIT_RATIOS = \<lparr> sr_trainVisiblePct = 70, sr_calibrationPct = 10, sr_evalHiddenPct = 15, sr_canaryPct = 5 \<rparr>"

definition splitForRecord :: "string \<Rightarrow> int \<Rightarrow> split_ratios \<Rightarrow> js_error + corpus_split" where
  "splitForRecord i corpusEpoch ratios =
     (let total = sr_trainVisiblePct ratios + sr_calibrationPct ratios + sr_evalHiddenPct ratios + sr_canaryPct ratios in
      if total \<noteq> 100 then Inl (Error ''SplitRatios must sum to 100'')
      else
        (let digest = keccak256 (utf8 i @ u64BE corpusEpoch);
             h = foldl (\<lambda>h k. push_bit 8 h OR uint (digest ! k)) 0 [0..<8];
             bucket = h mod 100
         in if bucket < sr_trainVisiblePct ratios then Inr train_visible
            else if bucket < sr_trainVisiblePct ratios + sr_calibrationPct ratios then Inr calibration
            else if bucket < sr_trainVisiblePct ratios + sr_calibrationPct ratios + sr_evalHiddenPct ratios then Inr eval_hidden
            else Inr canary))"

definition starts_with :: "string \<Rightarrow> string \<Rightarrow> bool" where
  "starts_with p s \<longleftrightarrow> take (length p) s = p"

definition decimal_digit :: "char \<Rightarrow> bool" where
  "decimal_digit c \<longleftrightarrow> c \<in> set ''0123456789''"

text \<open>\<open>/^zz_e\d+_mem_/\<close>: the digits are followed by an underscore, so the match is unique.\<close>

definition epoch_memory_pattern :: "string \<Rightarrow> bool" where
  "epoch_memory_pattern s \<longleftrightarrow> starts_with ''zz_e'' s \<and> takeWhile decimal_digit (drop 4 s) \<noteq> [] \<and>
     starts_with ''_mem_'' (dropWhile decimal_digit (drop 4 s))"

definition isMemoryDocumentEventId :: "string \<Rightarrow> bool" where
  "isMemoryDocumentEventId i \<longleftrightarrow> starts_with ''mem_'' i \<or> starts_with ''zz_mem_'' i \<or> epoch_memory_pattern i"

definition expectedSplitForRecord :: "string \<Rightarrow> int \<Rightarrow> split_ratios \<Rightarrow> js_error + corpus_split" where
  "expectedSplitForRecord i corpusEpoch ratios =
     (if isMemoryDocumentEventId i then Inr train_visible else splitForRecord i corpusEpoch ratios)"

definition assertGradedRelevance :: "rat \<Rightarrow> js_error + rat" where
  "assertGradedRelevance v =
     (if v \<notin> {0, dbl (2 / 10), dbl (4 / 10), dbl (6 / 10), dbl (8 / 10), 1}
      then Inl (RangeError ''relevance is off the GradedRelevance scale'') else Inr v)"

text \<open>
  Fact: the epoch is read modulo \<open>2 ^ 64\<close>, and a split exists exactly when the ratios sum to 100 or
  the event is a memory document, which is always visible.
\<close>

theorem expected_split_total:
  "(\<exists>s. expectedSplitForRecord i e r = Inr s) \<longleftrightarrow>
     isMemoryDocumentEventId i \<or> sr_trainVisiblePct r + sr_calibrationPct r + sr_evalHiddenPct r + sr_canaryPct r = 100"
  by (simp add: expectedSplitForRecord_def splitForRecord_def Let_def)

end
