(* ===== verification/Js_Io.thy ===== *)
theory Js_Io
  imports Doubles Hex_Codec
begin

text \<open>
  Asynchronous code.  An \<open>async\<close> function is awaited where it is called, so a run is a
  sequence: it takes the world (network, clock, storage) to a result or a thrown error and a
  new world, and \<open>None\<close> is a run that never returns.  What is outside of the repository
  (\<open>fetch\<close>, \<open>Date.now\<close>, timers, scorers) are functions of this type given as arguments.
\<close>

type_synonym ('a, 'w) io = "'w \<Rightarrow> ((js_error + 'a) \<times> 'w) option"

definition return_io :: "'a \<Rightarrow> ('a, 'w) io" where
  "return_io x w = Some (Inr x, w)"

definition lift_res :: "js_error + 'a \<Rightarrow> ('a, 'w) io" where
  "lift_res r w = Some (r, w)"

abbreviation throw_io :: "js_error \<Rightarrow> ('a, 'w) io" where
  "throw_io e \<equiv> lift_res (Inl e)"

definition bind_io :: "('a, 'w) io \<Rightarrow> ('a \<Rightarrow> ('b, 'w) io) \<Rightarrow> ('b, 'w) io" where
  "bind_io m f w = Option.bind (m w) (\<lambda>(r, w'). case r of Inl e \<Rightarrow> Some (Inl e, w') | Inr x \<Rightarrow> f x w')"

text \<open>\<open>try { return await m } catch (e) { return h(e) }\<close>, with both continuations.\<close>

definition try_io :: "('a, 'w) io \<Rightarrow> (js_error \<Rightarrow> ('b, 'w) io) \<Rightarrow> ('a \<Rightarrow> ('b, 'w) io) \<Rightarrow> ('b, 'w) io" where
  "try_io m h f w = Option.bind (m w) (\<lambda>(r, w'). case r of Inl e \<Rightarrow> h e w' | Inr x \<Rightarrow> f x w')"

lemma io_simps [simp]:
  "bind_io (return_io x) f = f x"
  "bind_io (lift_res (Inr x)) f = f x"
  "bind_io (lift_res (Inl e)) f = lift_res (Inl e)"
  "lift_res (Inr x) = return_io x"
  by (auto simp: fun_eq_iff bind_io_def return_io_def lift_res_def)

lemma bind_io_Inr:
  "bind_io m f w = Some (Inr y, w') \<longleftrightarrow> (\<exists>x v. m w = Some (Inr x, v) \<and> f x v = Some (Inr y, w'))"
proof (cases "m w")
  case (Some p)
  then show ?thesis by (cases p; cases "fst p") (auto simp: bind_io_def)
qed (simp add: bind_io_def)

lemma return_io_eq [simp]: "return_io x w = Some (r, w') \<longleftrightarrow> r = Inr x \<and> w' = w"
  by (auto simp: return_io_def)

lemma lift_res_eq [simp]: "lift_res r w = Some (r', w') \<longleftrightarrow> r' = r \<and> w' = w"
  by (auto simp: lift_res_def)

lemma try_io_Inr:
  "try_io m h f w = Some (Inr y, w') \<longleftrightarrow>
     (\<exists>e v. m w = Some (Inl e, v) \<and> h e v = Some (Inr y, w')) \<or> (\<exists>x v. m w = Some (Inr x, v) \<and> f x v = Some (Inr y, w'))"
proof (cases "m w")
  case (Some p)
  then show ?thesis by (cases p; cases "fst p") (auto simp: try_io_def)
qed (simp add: try_io_def)

lemma bind_io_step: "m w = Some (Inr x, v) \<Longrightarrow> bind_io m f w = f x v"
  by (simp add: bind_io_def)

lemma try_io_step: "m w = Some (Inr x, v) \<Longrightarrow> try_io m h f w = f x v"
  by (simp add: try_io_def)

lemma bind_io_cong [fundef_cong]:
  "m = m' \<Longrightarrow> w = w' \<Longrightarrow> (\<And>x v. m' w' = Some (Inr x, v) \<Longrightarrow> f x v = g x v) \<Longrightarrow> bind_io m f w = bind_io m' g w'"
  by (auto simp: bind_io_def split: sum.split option.split Option.bind_split)

lemma bind_io_assoc: "bind_io (bind_io m f) g = bind_io m (\<lambda>x. bind_io (f x) g)"
  by (auto simp: fun_eq_iff bind_io_def split: sum.split Option.bind_split)

text \<open>A computation that returns, whatever the world, and is a function of its arguments.\<close>

definition yields :: "('a, 'w) io \<Rightarrow> 'a \<Rightarrow> bool" where
  "yields m x \<longleftrightarrow> (\<forall>w. \<exists>v. m w = Some (Inr x, v))"

lemma yieldsD: "yields m x \<Longrightarrow> m w = Some (r, v) \<Longrightarrow> r = Inr x"
  unfolding yields_def by (metis Pair_inject option.inject)

lemma yieldsE: "yields m x \<Longrightarrow> \<exists>v. m w = Some (Inr x, v)"
  by (simp add: yields_def)

lemma yields_return [simp]: "yields (return_io x) x"
  by (simp add: yields_def)

lemma yields_bind: "yields m x \<Longrightarrow> yields (f x) y \<Longrightarrow> yields (bind_io m f) y"
  unfolding yields_def by (metis bind_io_step)

section \<open>Numbers that may be NaN\<close>

text \<open>A number that comes from outside.  Every comparison with \<open>NaN\<close> is false, every operation
  on it is \<open>NaN\<close>.\<close>

datatype js_num = NaN | Num rat

fun num_ge :: "js_num \<Rightarrow> js_num \<Rightarrow> bool" where
  "num_ge (Num x) (Num y) = (x \<ge> y)"
| "num_ge _ _ = False"

fun num_gt :: "js_num \<Rightarrow> js_num \<Rightarrow> bool" where
  "num_gt (Num x) (Num y) = (x > y)"
| "num_gt _ _ = False"

fun num_same :: "js_num \<Rightarrow> js_num \<Rightarrow> bool" where
  "num_same (Num x) (Num y) = (x = y)"
| "num_same _ _ = False"

fun num_add :: "js_num \<Rightarrow> js_num \<Rightarrow> js_num" where
  "num_add (Num x) (Num y) = Num (dbl (x + y))"
| "num_add _ _ = NaN"

fun num_abs_diff :: "js_num \<Rightarrow> js_num \<Rightarrow> js_num" where
  "num_abs_diff (Num x) (Num y) = Num \<bar>dbl (x - y)\<bar>"
| "num_abs_diff _ _ = NaN"

lemma dbl_numeral [simp]: "(numeral k :: int) < 2 ^ 53 \<Longrightarrow> dbl (numeral k) = numeral k"
  using dbl_int [of "numeral k"] by (simp del: dbl_int)

text \<open>\<open>Number.isInteger\<close>\<close>

fun num_is_integer :: "js_num \<Rightarrow> bool" where
  "num_is_integer (Num x) = (of_int \<lfloor>x\<rfloor> = x)"
| "num_is_integer NaN = False"

text \<open>\<open>n.toString(16)\<close> for a natural number.\<close>

fun nat_to_string_16 :: "nat \<Rightarrow> string" where
  "nat_to_string_16 n = (if n < 16 then [hex_digit n] else nat_to_string_16 (n div 16) @ [hex_digit (n mod 16)])"

declare nat_to_string_16.simps [simp del]

definition num_to_string_16 :: "js_num \<Rightarrow> string" where
  "num_to_string_16 n = (case n of NaN \<Rightarrow> ''NaN''
     | Num x \<Rightarrow> (if x < 0 then ''-'' else '''') @ nat_to_string_16 (nat \<bar>\<lfloor>x\<rfloor>\<bar>))"

section \<open>Case-insensitive comparison\<close>

text \<open>\<open>a.toLowerCase() === b.toLowerCase()\<close>\<close>

definition hexEq :: "string \<Rightarrow> string \<Rightarrow> bool" where
  "hexEq a b \<longleftrightarrow> toLowerCase a = toLowerCase b"

lemma hexEq_refl [simp]: "hexEq a a"
  by (simp add: hexEq_def)

lemma hexEq_sym: "hexEq a b = hexEq b a"
  by (auto simp: hexEq_def)

end
