(* ===== verification/Base_Rpc.thy ===== *)
theory Base_Rpc
  imports Js_Io Canonical_Json
begin

text \<open>
  \<open>src/coordinator/base-blockhash.ts\<close>: the chain client of the coordinator and of the
  watchers.  \<open>fetch\<close>, the clock and the timer are a record of arguments; what a node answers
  is data, with every shape the client tests for.
\<close>

section \<open>The network\<close>

text \<open>The value of \<open>result\<close>: a string, null, an object with its \<open>hash\<close> and \<open>timestamp\<close> when
  those are strings, or anything else.\<close>

datatype rpc_value = RString string | RNull | RObject (rpc_hash: "string option") (rpc_timestamp: "string option") | ROther

record rpc_answer =
  ra_ok :: bool
  ra_status :: int
  ra_error :: "(int \<times> string) option"
  ra_result :: "rpc_value option"

record 'w rpc_network =
  net_fetch :: "string \<Rightarrow> string \<Rightarrow> js_value list \<Rightarrow> (rpc_answer, 'w) io"
  net_now :: "'w \<Rightarrow> rat"
  net_sleep :: "rat \<Rightarrow> (unit, 'w) io"

record base_block_response =
  bb_number :: js_num
  bb_blockhash :: string
  bb_timestamp :: js_num

record 'w base_rpc_client =
  rpc_getLatestBlockNumber :: "(js_num, 'w) io"
  rpc_getBlockHash :: "js_num \<Rightarrow> (string, 'w) io"
  rpc_waitForBlock :: "js_num \<Rightarrow> rat \<Rightarrow> (base_block_response, 'w) io"

record rpc_options =
  ro_requestTimeoutMs :: "rat option"
  ro_pollIntervalMs :: "rat option"

section \<open>The client\<close>

text \<open>One call.  The abort timer of a request is part of \<open>fetch\<close>: a request that is cut off throws.\<close>

definition base_rpc :: "'w rpc_network \<Rightarrow> string \<Rightarrow> string \<Rightarrow> js_value list \<Rightarrow> (rpc_value, 'w) io" where
  "base_rpc net rpcUrl meth params =
     bind_io (net_fetch net rpcUrl meth params) (\<lambda>res.
     if \<not> ra_ok res then throw_io (Error (''base-rpc: '' @ meth @ '' HTTP '' @ bigint_to_string (ra_status res)))
     else case ra_error res of
       Some (code, message) \<Rightarrow> throw_io (Error (''base-rpc: '' @ meth @ '' '' @ bigint_to_string code @ '' '' @ message))
     | None \<Rightarrow> (case ra_result res of
         None \<Rightarrow> throw_io (Error (''base-rpc: '' @ meth @ '' returned no result''))
       | Some v \<Rightarrow> return_io v))"

definition parseHexNumber :: "rpc_value \<Rightarrow> js_error + js_num" where
  "parseHexNumber hex =
     (case hex of
        RString s \<Rightarrow>
          if take 2 s \<noteq> ''0x'' then Inl (Error ''base-rpc: expected hex string, got string'')
          else Inr (case parse_int_16 (drop 2 s) of None \<Rightarrow> NaN | Some n \<Rightarrow> Num (dbl (of_int n)))
      | _ \<Rightarrow> Inl (Error ''base-rpc: expected hex string, got object''))"

definition getLatestBlockNumber :: "'w rpc_network \<Rightarrow> string \<Rightarrow> (js_num, 'w) io" where
  "getLatestBlockNumber net rpcUrl =
     bind_io (base_rpc net rpcUrl ''eth_blockNumber'' []) (\<lambda>hex. lift_res (parseHexNumber hex))"

definition block_params :: "js_num \<Rightarrow> js_value list" where
  "block_params n = [JString (''0x'' @ num_to_string_16 n), JBool False]"

definition getBlockHash :: "'w rpc_network \<Rightarrow> string \<Rightarrow> js_num \<Rightarrow> (string, 'w) io" where
  "getBlockHash net rpcUrl blockNumber =
     (if \<not> num_is_integer blockNumber \<or> num_gt (Num 0) blockNumber
      then throw_io (Error ''getBlockHash: invalid block number'')
      else bind_io (base_rpc net rpcUrl ''eth_getBlockByNumber'' (block_params blockNumber)) (\<lambda>block.
        case block of
          RObject (Some hash) _ \<Rightarrow> return_io (toLowerCase hash)
        | _ \<Rightarrow> throw_io (Error ''getBlockHash: block not found'')))"

text \<open>What \<open>waitForBlock\<close> does once the head has reached the block.\<close>

definition fetch_block :: "'w rpc_network \<Rightarrow> string \<Rightarrow> js_num \<Rightarrow> (base_block_response, 'w) io" where
  "fetch_block net rpcUrl blockNumber =
     bind_io (base_rpc net rpcUrl ''eth_getBlockByNumber'' (block_params blockNumber)) (\<lambda>block.
       case block of
         RObject (Some hash) (Some timestamp) \<Rightarrow>
           bind_io (lift_res (parseHexNumber (RString timestamp))) (\<lambda>t.
             return_io \<lparr> bb_number = blockNumber, bb_blockhash = toLowerCase hash, bb_timestamp = t \<rparr>)
       | _ \<Rightarrow> throw_io (Error ''waitForBlock: block not found after head reached it''))"

partial_function (option) wait_loop ::
  "'w rpc_network \<Rightarrow> string \<Rightarrow> js_num \<Rightarrow> rat \<Rightarrow> rat \<Rightarrow> 'w \<Rightarrow> ((js_error + base_block_response) \<times> 'w) option" where
  "wait_loop net rpcUrl blockNumber deadline pollIntervalMs w =
     (if net_now net w < deadline
      then Option.bind (getLatestBlockNumber net rpcUrl w) (\<lambda>(r, w).
        case r of
          Inl e \<Rightarrow> Some (Inl e, w)
        | Inr head \<Rightarrow>
            if num_ge head blockNumber then fetch_block net rpcUrl blockNumber w
            else Option.bind (net_sleep net pollIntervalMs w) (\<lambda>(r, w).
              case r of Inl e \<Rightarrow> Some (Inl e, w) | Inr _ \<Rightarrow> wait_loop net rpcUrl blockNumber deadline pollIntervalMs w))
      else Some (Inl (Error ''waitForBlock: timed out''), w))"

definition waitForBlock :: "'w rpc_network \<Rightarrow> string \<Rightarrow> rat \<Rightarrow> js_num \<Rightarrow> rat \<Rightarrow> (base_block_response, 'w) io" where
  "waitForBlock net rpcUrl pollIntervalMs blockNumber timeoutMs w =
     wait_loop net rpcUrl blockNumber (dbl (net_now net w + timeoutMs)) pollIntervalMs w"

definition createBaseRpcClient :: "'w rpc_network \<Rightarrow> string \<Rightarrow> rpc_options \<Rightarrow> js_error + 'w base_rpc_client" where
  "createBaseRpcClient net rpcUrl opts =
     (if length rpcUrl = 0 then Inl (Error ''createBaseRpcClient: rpcUrl is required'')
      else
        (let pollIntervalMs = or_else (ro_pollIntervalMs opts) 1000
         in Inr \<lparr> rpc_getLatestBlockNumber = getLatestBlockNumber net rpcUrl, rpc_getBlockHash = getBlockHash net rpcUrl,
              rpc_waitForBlock = waitForBlock net rpcUrl pollIntervalMs \<rparr>))"

section \<open>Waiting ends\<close>

text \<open>
  The clock a run needs: calls return and do not turn the clock back, and a timer takes at
  least \<open>tick\<close>.
\<close>

definition clock_ok :: "'w rpc_network \<Rightarrow> rat \<Rightarrow> rat \<Rightarrow> bool" where
  "clock_ok net poll tick \<longleftrightarrow> 0 < tick \<and>
     (\<forall>url meth params w. \<exists>r v. net_fetch net url meth params w = Some (r, v) \<and> net_now net w \<le> net_now net v) \<and>
     (\<forall>w. \<exists>r v. net_sleep net poll w = Some (r, v) \<and> net_now net w + tick \<le> net_now net v)"

lemma base_rpc_returns:
  assumes "clock_ok net poll tick"
  shows "\<exists>r v. base_rpc net url meth params w = Some (r, v) \<and> net_now net w \<le> net_now net v"
proof -
  from assms obtain r v where "net_fetch net url meth params w = Some (r, v)" "net_now net w \<le> net_now net v"
    unfolding clock_ok_def by blast
  then show ?thesis
    by (cases r) (auto simp: base_rpc_def bind_io_def return_io_def lift_res_def split: option.split)
qed

lemma head_returns:
  assumes "clock_ok net poll tick"
  shows "\<exists>r v. getLatestBlockNumber net url w = Some (r, v) \<and> net_now net w \<le> net_now net v"
  using base_rpc_returns [OF assms, of url "''eth_blockNumber''" "[]" w]
  by (auto simp: getLatestBlockNumber_def bind_io_def lift_res_def split: sum.split)

lemma fetch_block_returns:
  assumes "clock_ok net poll tick"
  shows "\<exists>r v. fetch_block net url n w = Some (r, v)"
proof -
  obtain r v where "base_rpc net url ''eth_getBlockByNumber'' (block_params n) w = Some (r, v)"
    using base_rpc_returns [OF assms] by blast
  then show ?thesis
    by (auto simp: fetch_block_def bind_io_def lift_res_def return_io_def split: sum.split rpc_value.split option.split)
qed

lemma wait_loop_returns:
  assumes "clock_ok net poll tick" and "deadline \<le> net_now net w + of_nat k * tick"
  shows "\<exists>r v. wait_loop net url n deadline poll w = Some (r, v)"
  using assms(2)
proof (induction k arbitrary: w)
  case 0
  then show ?case by (simp add: wait_loop.simps [of net url n deadline poll w])
next
  case (Suc k)
  show ?case
  proof (cases "net_now net w < deadline")
    case True
    obtain r v where head: "getLatestBlockNumber net url w = Some (r, v)" "net_now net w \<le> net_now net v"
      using head_returns [OF assms(1)] by blast
    obtain s u where sleep: "net_sleep net poll v = Some (s, u)" "net_now net v + tick \<le> net_now net u"
      using assms(1) unfolding clock_ok_def by blast
    have "deadline \<le> net_now net u + of_nat k * tick" using Suc.prems head(2) sleep(2) by (simp add: algebra_simps)
    from Suc.IH [OF this] fetch_block_returns [OF assms(1), of url n v] True head(1) sleep(1) show ?thesis
      by (subst wait_loop.simps) (auto split: sum.split)
  qed (simp add: wait_loop.simps [of net url n deadline poll w])
qed

text \<open>
  Fact: waiting for a block ends.  When requests return and every poll takes at least \<open>tick\<close> of
  the clock, \<open>waitForBlock\<close> returns or throws for every block number and every timeout, even
  when the head never gets there or is no number.
\<close>

theorem waitForBlock_returns:
  assumes "clock_ok net pollIntervalMs tick"
  shows "\<exists>r v. waitForBlock net rpcUrl pollIntervalMs blockNumber timeoutMs w = Some (r, v)"
proof -
  define d where "d = dbl (net_now net w + timeoutMs) - net_now net w"
  have tick: "0 < tick" using assms by (simp add: clock_ok_def)
  have "d / tick \<le> of_int \<lceil>d / tick\<rceil>" by simp
  also have "\<dots> \<le> of_nat (nat \<lceil>d / tick\<rceil>)" by simp
  finally have "d \<le> of_nat (nat \<lceil>d / tick\<rceil>) * tick" using tick by (simp add: pos_divide_le_eq)
  then show ?thesis unfolding waitForBlock_def
    by (intro wait_loop_returns [OF assms, of _ _ "nat \<lceil>d / tick\<rceil>"]) (simp add: d_def algebra_simps)
qed

text \<open>A chain whose head never moves, with a clock in milliseconds.\<close>

definition stuck_network :: "rat rpc_network" where
  "stuck_network = \<lparr> net_fetch = (\<lambda>url meth params. return_io \<lparr> ra_ok = True, ra_status = 200, ra_error = None,
       ra_result = Some (RString ''0x10'') \<rparr>), net_now = (\<lambda>w. w), net_sleep = (\<lambda>ms w. Some (Inr (), w + ms)) \<rparr>"

theorem waitForBlock_returns_witness:
  "\<exists>r v. waitForBlock stuck_network ''http://node'' 1000 (Num 17) 120000 0 = Some (r, v)"
proof (rule waitForBlock_returns)
  show "clock_ok stuck_network 1000 1" by (auto simp: clock_ok_def stuck_network_def return_io_def)
qed

end
