(* ===== verification/Per_Patch.thy ===== *)
theory Per_Patch
  imports Base_Rpc Admission Seed_Derivation
begin

text \<open>
  The evaluation of one patch, \<open>src/coordinator/per-patch-evaluator.ts\<close>, and its check by a
  watcher, \<open>src/replay/per-patch.ts\<close>.  The scorer, the chain client and the hook that records
  a draw are given by the host; both sides derive seeds and hashes with the same functions.
\<close>

section \<open>Data\<close>

record per_patch_request =
  pq_normalizedPatchBytes :: bytes
  pq_parentRoot :: string
  pq_minerAddress :: string
  pq_epochId :: int
  pq_structurallyValid :: bool

datatype pack = gate_pack | confirm_pack

record per_patch_score =
  ps_scorePpm :: js_num
  ps_accepted :: bool

record scorer_args =
  ar_normalizedPatchBytes :: bytes
  ar_parentRoot :: string
  ar_evalSeed :: string
  ar_which :: pack

type_synonym 'w per_patch_scorer = "scorer_args \<Rightarrow> (per_patch_score, 'w) io"

record seed_context =
  sc_receivedAtBlock :: js_num
  sc_targetBlock :: js_num
  sc_blockhash :: string

datatype patch_rejection =
  RJ_cached | RJ_structurally_invalid | RJ_duplicate_key_collapsed | RJ_per_miner_cap_reached | RJ_gate_below_threshold
  | RJ_confirm_below_threshold | RJ_gate_acceptance_floor | RJ_confirm_acceptance_floor | RJ_admit_malformed_input

record per_patch_receipt =
  pr_patchHash :: string
  pr_dedupKey :: string
  pr_parentRoot :: string
  pr_minerAddress :: string
  pr_epochId :: int
  pr_receivedAtBlock :: js_num
  pr_targetBlock :: js_num
  pr_blockhash :: string
  pr_gateSeed :: string
  pr_confirmSeed :: string
  pr_gateScorePpm :: js_num
  pr_confirmScorePpm :: js_num
  pr_accepted :: bool
  pr_rejectionReason :: "patch_rejection option"

record 'w per_patch_deps =
  pd_rpcClient :: "'w base_rpc_client"
  pd_scorer :: "'w per_patch_scorer"
  pd_targetBlockOffset :: js_num
  pd_thresholdPpm :: js_num
  pd_perMinerCap :: rat
  pd_epochSecret :: "string option"
  pd_corpusRoot :: string
  pd_bundleHash :: string
  pd_dedupCache :: "(string \<times> per_patch_receipt) list"
  pd_minerAdmissions :: "(string \<times> rat) list"
  pd_waitTimeoutMs :: "rat option"
  pd_seedContext :: "seed_context option"
  pd_onSeedDerived :: "(seed_context \<Rightarrow> (unit, 'w) io) option"
  pd_injectedSeeds :: "(string \<times> string) option"

section \<open>The evaluation\<close>

definition zero_bytes32 :: string where
  "zero_bytes32 = ''0x'' @ concat (replicate 32 ''00'')"

definition mapAdmissionReason :: "live_eval_reason \<Rightarrow> patch_rejection" where
  "mapAdmissionReason reason =
     (case reason of
        structurally_invalid \<Rightarrow> RJ_structurally_invalid
      | duplicate_key_collapsed \<Rightarrow> RJ_duplicate_key_collapsed
      | per_miner_cap_reached \<Rightarrow> RJ_per_miner_cap_reached
      | _ \<Rightarrow> RJ_admit_malformed_input)"

definition patch_admission :: "per_patch_request \<Rightarrow> 'w per_patch_deps \<Rightarrow> string \<Rightarrow> string \<Rightarrow> live_eval_decision" where
  "patch_admission request deps patchHash dedupKey =
     (let minerAddress = toLowerCase (pq_minerAddress request) in
      liveEvalAdmissionDecision
        \<lparr> la_minerAddress = minerAddress, la_patchHash = patchHash, la_dedupKey = dedupKey,
          la_dedupedKeysThisEpoch = map fst (pd_dedupCache deps),
          la_minerAdmissionsThisEpoch = or_else (map_of (pd_minerAdmissions deps) minerAddress) 0,
          la_perMinerCap = pd_perMinerCap deps, la_structurallyValid = pq_structurallyValid request \<rparr>)"

text \<open>The receipt of a refused admission: no seed, no blockhash.\<close>

definition rejected_receipt :: "per_patch_request \<Rightarrow> string \<Rightarrow> string \<Rightarrow> live_eval_reason \<Rightarrow> per_patch_receipt" where
  "rejected_receipt request patchHash dedupKey reason =
     \<lparr> pr_patchHash = patchHash, pr_dedupKey = dedupKey, pr_parentRoot = pq_parentRoot request,
       pr_minerAddress = toLowerCase (pq_minerAddress request), pr_epochId = pq_epochId request,
       pr_receivedAtBlock = Num 0, pr_targetBlock = Num 0, pr_blockhash = zero_bytes32,
       pr_gateSeed = zero_bytes32, pr_confirmSeed = zero_bytes32, pr_gateScorePpm = Num 0, pr_confirmScorePpm = Num 0,
       pr_accepted = False, pr_rejectionReason = Some (mapAdmissionReason reason) \<rparr>"

text \<open>The binding to a future block, drawn or pinned.\<close>

definition draw_seed_context :: "'w per_patch_deps \<Rightarrow> (seed_context, 'w) io" where
  "draw_seed_context deps =
     (case pd_seedContext deps of
        Some ctx \<Rightarrow> return_io ctx
      | None \<Rightarrow>
          bind_io (rpc_getLatestBlockNumber (pd_rpcClient deps)) (\<lambda>receivedAtBlock.
          let targetBlock = num_add receivedAtBlock (pd_targetBlockOffset deps) in
          bind_io (rpc_waitForBlock (pd_rpcClient deps) targetBlock (or_else (pd_waitTimeoutMs deps) 120000)) (\<lambda>block.
          return_io \<lparr> sc_receivedAtBlock = receivedAtBlock, sc_targetBlock = targetBlock,
            sc_blockhash = bb_blockhash block \<rparr>)))"

definition record_draw :: "'w per_patch_deps \<Rightarrow> seed_context \<Rightarrow> (unit, 'w) io" where
  "record_draw deps ctx = (case pd_onSeedDerived deps of None \<Rightarrow> return_io () | Some hook \<Rightarrow> hook ctx)"

definition seed_input_of :: "string \<Rightarrow> string \<Rightarrow> int \<Rightarrow> string \<Rightarrow> string \<Rightarrow> string \<Rightarrow> string \<Rightarrow> eval_seed_input" where
  "seed_input_of epochSecret blockhash epochId patchHash parentRoot corpusRoot bundleHash =
     \<lparr> es_epochSecret = epochSecret, es_blockhash = blockhash, es_epochId = epochId, es_patchHash = patchHash,
       es_parentRoot = parentRoot, es_corpusRoot = corpusRoot, es_bundleHash = bundleHash \<rparr>"

definition derive_seeds ::
  "per_patch_request \<Rightarrow> 'w per_patch_deps \<Rightarrow> string \<Rightarrow> seed_context \<Rightarrow> js_error + string \<times> string" where
  "derive_seeds request deps patchHash ctx =
     (case pd_injectedSeeds deps of
        Some (gate, confirm) \<Rightarrow>
          if pd_seedContext deps = None
          then Inl (Error ''runPerPatchEvaluation: injectedSeeds require a pinned seedContext'')
          else if \<not> BYTES32_RE gate then Inl (Error ''runPerPatchEvaluation: injectedSeeds.gateSeed must be bytes32'')
          else if \<not> BYTES32_RE confirm then Inl (Error ''runPerPatchEvaluation: injectedSeeds.confirmSeed must be bytes32'')
          else Inr (toLowerCase gate, toLowerCase confirm)
      | None \<Rightarrow>
          let epochSecret = or_else (pd_epochSecret deps) '''' in
          if epochSecret = ''''
          then Inl (Error ''runPerPatchEvaluation: epochSecret is required when no injectedSeeds are supplied'')
          else
            (let seedInput = seed_input_of epochSecret (sc_blockhash ctx) (pq_epochId request) patchHash
                 (pq_parentRoot request) (pd_corpusRoot deps) (pd_bundleHash deps)
             in bind_res (deriveGateEvalSeed seedInput) (\<lambda>gateSeed.
                bind_res (deriveConfirmEvalSeed seedInput) (\<lambda>confirmSeed. Inr (gateSeed, confirmSeed)))))"

text \<open>The two packs, one after the other; a failed gate ends the evaluation.\<close>

definition pack_args :: "per_patch_request \<Rightarrow> string \<Rightarrow> pack \<Rightarrow> scorer_args" where
  "pack_args request evalSeed which =
     \<lparr> ar_normalizedPatchBytes = pq_normalizedPatchBytes request, ar_parentRoot = pq_parentRoot request,
       ar_evalSeed = evalSeed, ar_which = which \<rparr>"

definition scored_receipt ::
  "per_patch_request \<Rightarrow> string \<Rightarrow> string \<Rightarrow> seed_context \<Rightarrow> string \<times> string \<Rightarrow> js_num \<Rightarrow> js_num \<Rightarrow>
   patch_rejection option \<Rightarrow> per_patch_receipt" where
  "scored_receipt request patchHash dedupKey ctx seeds gateScorePpm confirmScorePpm reason =
     \<lparr> pr_patchHash = patchHash, pr_dedupKey = dedupKey, pr_parentRoot = pq_parentRoot request,
       pr_minerAddress = toLowerCase (pq_minerAddress request), pr_epochId = pq_epochId request,
       pr_receivedAtBlock = sc_receivedAtBlock ctx, pr_targetBlock = sc_targetBlock ctx,
       pr_blockhash = sc_blockhash ctx, pr_gateSeed = fst seeds, pr_confirmSeed = snd seeds,
       pr_gateScorePpm = gateScorePpm, pr_confirmScorePpm = confirmScorePpm, pr_accepted = (reason = None),
       pr_rejectionReason = reason \<rparr>"

definition score_packs ::
  "per_patch_request \<Rightarrow> 'w per_patch_deps \<Rightarrow> string \<Rightarrow> string \<Rightarrow> seed_context \<Rightarrow> string \<times> string \<Rightarrow> (per_patch_receipt, 'w) io" where
  "score_packs request deps patchHash dedupKey ctx seeds =
     bind_io (pd_scorer deps (pack_args request (fst seeds) gate_pack)) (\<lambda>gate.
     let gateScorePpm = ps_scorePpm gate;
         gatePass = (num_ge gateScorePpm (pd_thresholdPpm deps) \<and> ps_accepted gate)
     in if \<not> gatePass
        then return_io (scored_receipt request patchHash dedupKey ctx seeds gateScorePpm (Num 0)
          (Some (if \<not> ps_accepted gate then RJ_gate_acceptance_floor else RJ_gate_below_threshold)))
        else
          bind_io (pd_scorer deps (pack_args request (snd seeds) confirm_pack)) (\<lambda>confirm.
          let confirmScorePpm = ps_scorePpm confirm;
              confirmPass = (num_ge confirmScorePpm (pd_thresholdPpm deps) \<and> ps_accepted confirm)
          in return_io (scored_receipt request patchHash dedupKey ctx seeds gateScorePpm confirmScorePpm
            (if confirmPass then None
             else Some (if \<not> ps_accepted confirm then RJ_confirm_acceptance_floor else RJ_confirm_below_threshold)))))"

definition runPerPatchEvaluation :: "per_patch_request \<Rightarrow> 'w per_patch_deps \<Rightarrow> (per_patch_receipt, 'w) io" where
  "runPerPatchEvaluation request deps =
     (let patchHash = computePatchHash (pq_normalizedPatchBytes request) in
      bind_io (lift_res (computeDedupKey (pq_parentRoot request) (pq_normalizedPatchBytes request))) (\<lambda>dedupKey.
      case map_of (pd_dedupCache deps) dedupKey of
        Some hit \<Rightarrow> return_io (hit\<lparr>pr_rejectionReason := Some RJ_cached\<rparr>)
      | None \<Rightarrow>
          let admission = patch_admission request deps patchHash dedupKey in
          if \<not> ld_admit admission then return_io (rejected_receipt request patchHash dedupKey (ld_reason admission))
          else
            bind_io (draw_seed_context deps) (\<lambda>ctx.
            bind_io (record_draw deps ctx) (\<lambda>_.
            bind_io (lift_res (derive_seeds request deps patchHash ctx)) (\<lambda>seeds.
            score_packs request deps patchHash dedupKey ctx seeds)))))"

section \<open>The dual-pack proof\<close>

record pack_proof =
  pp_seedCommit :: string
  pp_scorePpm :: js_num

record dual_pack_proof =
  dp_epochId :: int
  dp_receivedAtBlock :: js_num
  dp_targetBlock :: js_num
  dp_targetBlockOffset :: js_num
  dp_blockhash :: string
  dp_patchHash :: string
  dp_parentStateRoot :: string
  dp_corpusRoot :: string
  dp_coreVersionHash :: string
  dp_hiddenSeedCommit :: string
  dp_epochSecretCommit :: string
  dp_gate :: pack_proof
  dp_confirm :: pack_proof

definition hexToBytes_checked :: "string \<Rightarrow> js_error + bytes" where
  "hexToBytes_checked hex =
     (let clean = clean_hex hex in
      if \<not> list_all (\<lambda>c. hex_val c \<noteq> None) clean \<or> length clean mod 2 \<noteq> 0 then Inl (Error ''hexToBytes: malformed hex'')
      else Inr (map (\<lambda>i. to_uint8 (parse_int_16 (take 2 (drop (i * 2) clean)))) [0..<length clean div 2]))"

definition seedCommit :: "string \<Rightarrow> js_error + string" where
  "seedCommit seed = bind_res (hexToBytes_checked seed) (\<lambda>bs. Inr (toLowerCase (bytesToHex (keccak256 bs))))"

definition dualPackProofFromPerPatchReceipt ::
  "per_patch_receipt \<Rightarrow> string \<Rightarrow> string \<Rightarrow> string \<Rightarrow> js_num \<Rightarrow> js_error + dual_pack_proof" where
  "dualPackProofFromPerPatchReceipt receipt corpusRoot coreVersionHash hiddenSeedCommit targetBlockOffset =
     (if \<not> pr_accepted receipt then Inl (Error ''dualPackProofFromPerPatchReceipt: receipt was not accepted'')
      else
        bind_res (seedCommit (pr_gateSeed receipt)) (\<lambda>gateCommit.
        bind_res (seedCommit (pr_confirmSeed receipt)) (\<lambda>confirmCommit.
        Inr \<lparr> dp_epochId = pr_epochId receipt, dp_receivedAtBlock = pr_receivedAtBlock receipt,
          dp_targetBlock = pr_targetBlock receipt, dp_targetBlockOffset = targetBlockOffset,
          dp_blockhash = toLowerCase (pr_blockhash receipt), dp_patchHash = toLowerCase (pr_patchHash receipt),
          dp_parentStateRoot = toLowerCase (pr_parentRoot receipt), dp_corpusRoot = toLowerCase corpusRoot,
          dp_coreVersionHash = toLowerCase coreVersionHash, dp_hiddenSeedCommit = toLowerCase hiddenSeedCommit,
          dp_epochSecretCommit = toLowerCase hiddenSeedCommit,
          dp_gate = \<lparr> pp_seedCommit = gateCommit, pp_scorePpm = pr_gateScorePpm receipt \<rparr>,
          dp_confirm = \<lparr> pp_seedCommit = confirmCommit, pp_scorePpm = pr_confirmScorePpm receipt \<rparr> \<rparr>)))"

section \<open>The watcher\<close>

record 'w verification_deps =
  vd_rpcClient :: "'w base_rpc_client"
  vd_replayTolerancePpm :: js_num
  vd_scorer :: "'w per_patch_scorer"
  vd_epochSecret :: string
  vd_corpusRoot :: string
  vd_bundleHash :: string
  vd_normalizedPatchBytes :: bytes

datatype verification_failure =
  BLOCKHASH_MISMATCH | GATE_SEED_MISMATCH | CONFIRM_SEED_MISMATCH | PATCH_HASH_MISMATCH | DEDUP_KEY_MISMATCH
  | GATE_SCORE_BEYOND_TOLERANCE | CONFIRM_SCORE_BEYOND_TOLERANCE | RPC_ERROR

text \<open>The detail text of a failure is left out.\<close>

datatype verification_result = Verified (gateDeltaPpm: js_num) (confirmDeltaPpm: js_num) | Failed verification_failure

definition watcher_args :: "per_patch_receipt \<Rightarrow> 'w verification_deps \<Rightarrow> string \<Rightarrow> pack \<Rightarrow> scorer_args" where
  "watcher_args receipt deps evalSeed which =
     \<lparr> ar_normalizedPatchBytes = vd_normalizedPatchBytes deps, ar_parentRoot = pr_parentRoot receipt,
       ar_evalSeed = evalSeed, ar_which = which \<rparr>"

definition rescore :: "per_patch_receipt \<Rightarrow> 'w verification_deps \<Rightarrow> (verification_result, 'w) io" where
  "rescore receipt deps =
     bind_io (vd_scorer deps (watcher_args receipt deps (pr_gateSeed receipt) gate_pack)) (\<lambda>gateScoreReplay.
     let gateDelta = num_abs_diff (ps_scorePpm gateScoreReplay) (pr_gateScorePpm receipt) in
     if num_gt gateDelta (vd_replayTolerancePpm deps) then return_io (Failed GATE_SCORE_BEYOND_TOLERANCE)
     else
       bind_io (vd_scorer deps (watcher_args receipt deps (pr_confirmSeed receipt) confirm_pack)) (\<lambda>confirmScoreReplay.
       let confirmDelta = num_abs_diff (ps_scorePpm confirmScoreReplay) (pr_confirmScorePpm receipt) in
       if num_gt confirmDelta (vd_replayTolerancePpm deps) then return_io (Failed CONFIRM_SCORE_BEYOND_TOLERANCE)
       else return_io (Verified gateDelta confirmDelta)))"

definition verifyPerPatchReceipt :: "per_patch_receipt \<Rightarrow> 'w verification_deps \<Rightarrow> (verification_result, 'w) io" where
  "verifyPerPatchReceipt receipt deps =
     (if \<not> hexEq (computePatchHash (vd_normalizedPatchBytes deps)) (pr_patchHash receipt)
      then return_io (Failed PATCH_HASH_MISMATCH)
      else
        bind_io (lift_res (computeDedupKey (pr_parentRoot receipt) (vd_normalizedPatchBytes deps))) (\<lambda>replayDedupKey.
        if \<not> hexEq replayDedupKey (pr_dedupKey receipt) then return_io (Failed DEDUP_KEY_MISMATCH)
        else if num_same (pr_receivedAtBlock receipt) (Num 0) then return_io (Verified (Num 0) (Num 0))
        else
          try_io (rpc_getBlockHash (vd_rpcClient deps) (pr_targetBlock receipt)) (\<lambda>_. return_io (Failed RPC_ERROR))
            (\<lambda>chainBlockhash.
             if \<not> hexEq chainBlockhash (pr_blockhash receipt) then return_io (Failed BLOCKHASH_MISMATCH)
             else
               (let seedInput = seed_input_of (vd_epochSecret deps) (pr_blockhash receipt) (pr_epochId receipt)
                    (pr_patchHash receipt) (pr_parentRoot receipt) (vd_corpusRoot deps) (vd_bundleHash deps)
                in bind_io (lift_res (deriveGateEvalSeed seedInput)) (\<lambda>replayGateSeed.
                   if \<not> hexEq replayGateSeed (pr_gateSeed receipt) then return_io (Failed GATE_SEED_MISMATCH)
                   else
                     bind_io (lift_res (deriveConfirmEvalSeed seedInput)) (\<lambda>replayConfirmSeed.
                     if \<not> hexEq replayConfirmSeed (pr_confirmSeed receipt) then return_io (Failed CONFIRM_SEED_MISMATCH)
                     else rescore receipt deps))))))"

section \<open>What an evaluation returns\<close>

definition dedup_key_of :: "per_patch_request \<Rightarrow> js_error + string" where
  "dedup_key_of request = computeDedupKey (pq_parentRoot request) (pq_normalizedPatchBytes request)"

definition patch_hash_of :: "per_patch_request \<Rightarrow> string" where
  "patch_hash_of request = computePatchHash (pq_normalizedPatchBytes request)"

lemma score_packs_cases:
  assumes "score_packs request deps ph key ctx seeds w = Some (Inr r, v)"
  obtains (gate_fails) g where "pd_scorer deps (pack_args request (fst seeds) gate_pack) w = Some (Inr g, v)"
      "\<not> (num_ge (ps_scorePpm g) (pd_thresholdPpm deps) \<and> ps_accepted g)"
      "r = scored_receipt request ph key ctx seeds (ps_scorePpm g) (Num 0)
        (Some (if \<not> ps_accepted g then RJ_gate_acceptance_floor else RJ_gate_below_threshold))"
  | (both) g u c where "pd_scorer deps (pack_args request (fst seeds) gate_pack) w = Some (Inr g, u)"
      "num_ge (ps_scorePpm g) (pd_thresholdPpm deps)" "ps_accepted g"
      "pd_scorer deps (pack_args request (snd seeds) confirm_pack) u = Some (Inr c, v)"
      "r = scored_receipt request ph key ctx seeds (ps_scorePpm g) (ps_scorePpm c)
        (if num_ge (ps_scorePpm c) (pd_thresholdPpm deps) \<and> ps_accepted c then None
         else Some (if \<not> ps_accepted c then RJ_confirm_acceptance_floor else RJ_confirm_below_threshold))"
proof -
  from assms obtain g u where g: "pd_scorer deps (pack_args request (fst seeds) gate_pack) w = Some (Inr g, u)"
    and rest: "(let gateScorePpm = ps_scorePpm g; gatePass = (num_ge gateScorePpm (pd_thresholdPpm deps) \<and> ps_accepted g)
     in if \<not> gatePass
        then return_io (scored_receipt request ph key ctx seeds gateScorePpm (Num 0)
          (Some (if \<not> ps_accepted g then RJ_gate_acceptance_floor else RJ_gate_below_threshold)))
        else
          bind_io (pd_scorer deps (pack_args request (snd seeds) confirm_pack)) (\<lambda>confirm.
          let confirmScorePpm = ps_scorePpm confirm;
              confirmPass = (num_ge confirmScorePpm (pd_thresholdPpm deps) \<and> ps_accepted confirm)
          in return_io (scored_receipt request ph key ctx seeds gateScorePpm confirmScorePpm
            (if confirmPass then None
             else Some (if \<not> ps_accepted confirm then RJ_confirm_acceptance_floor else RJ_confirm_below_threshold))))) u
      = Some (Inr r, v)"
    unfolding score_packs_def bind_io_Inr by blast
  show ?thesis
  proof (cases "num_ge (ps_scorePpm g) (pd_thresholdPpm deps) \<and> ps_accepted g")
    case True
    with rest show ?thesis using both [OF g] by (auto simp: bind_io_Inr Let_def)
  next
    case False
    with rest g show ?thesis using gate_fails [of g] by (auto simp: Let_def)
  qed
qed

lemma run_cases:
  assumes "runPerPatchEvaluation request deps w = Some (Inr r, v)"
  obtains (hit) key entry where "dedup_key_of request = Inr key" "map_of (pd_dedupCache deps) key = Some entry"
      "r = entry\<lparr>pr_rejectionReason := Some RJ_cached\<rparr>" "v = w"
  | (refused) key where "dedup_key_of request = Inr key" "map_of (pd_dedupCache deps) key = None"
      "\<not> ld_admit (patch_admission request deps (patch_hash_of request) key)"
      "r = rejected_receipt request (patch_hash_of request) key
        (ld_reason (patch_admission request deps (patch_hash_of request) key))" "v = w"
  | (scored) key ctx u1 u2 seeds where "dedup_key_of request = Inr key" "map_of (pd_dedupCache deps) key = None"
      "ld_admit (patch_admission request deps (patch_hash_of request) key)"
      "draw_seed_context deps w = Some (Inr ctx, u1)" "record_draw deps ctx u1 = Some (Inr (), u2)"
      "derive_seeds request deps (patch_hash_of request) ctx = Inr seeds"
      "score_packs request deps (patch_hash_of request) key ctx seeds u2 = Some (Inr r, v)"
proof (cases "dedup_key_of request")
  case (Inl e)
  with assms show ?thesis by (simp add: runPerPatchEvaluation_def dedup_key_of_def Let_def)
next
  case (Inr key)
  note run = assms [unfolded runPerPatchEvaluation_def Let_def Inr [unfolded dedup_key_of_def] io_simps,
    folded patch_hash_of_def]
  show ?thesis
  proof (cases "map_of (pd_dedupCache deps) key")
    case None
    show ?thesis
    proof (cases "ld_admit (patch_admission request deps (patch_hash_of request) key)")
      case True
      with run None obtain ctx u1 u2 seeds u3 where
        "draw_seed_context deps w = Some (Inr ctx, u1)" "record_draw deps ctx u1 = Some (Inr (), u2)"
        "lift_res (derive_seeds request deps (patch_hash_of request) ctx) u2 = Some (Inr seeds, u3)"
        "score_packs request deps (patch_hash_of request) key ctx seeds u3 = Some (Inr r, v)"
        by (auto simp: bind_io_Inr)
      moreover from this(3) have "derive_seeds request deps (patch_hash_of request) ctx = Inr seeds" "u3 = u2" by simp_all
      ultimately show ?thesis using scored [OF Inr None True] by blast
    qed (use run None refused [OF Inr None] in simp)
  qed (use run hit [OF Inr] in simp)
qed

lemma run_scored:
  assumes "dedup_key_of request = Inr key" and "map_of (pd_dedupCache deps) key = None"
    and "ld_admit (patch_admission request deps (patch_hash_of request) key)"
    and "draw_seed_context deps w = Some (Inr ctx, u1)" and "record_draw deps ctx u1 = Some (Inr (), u2)"
    and "derive_seeds request deps (patch_hash_of request) ctx = Inr seeds"
  shows "runPerPatchEvaluation request deps w = score_packs request deps (patch_hash_of request) key ctx seeds u2"
  using assms(1-3) assms(6)
  by (simp add: runPerPatchEvaluation_def dedup_key_of_def patch_hash_of_def Let_def
    bind_io_step [where m = "draw_seed_context deps", OF assms(4)] bind_io_step [where m = "record_draw deps ctx", OF assms(5)])

lemma seed_context_eta [simp]:
  "\<lparr> sc_receivedAtBlock = sc_receivedAtBlock ctx, sc_targetBlock = sc_targetBlock ctx, sc_blockhash = sc_blockhash ctx \<rparr> = ctx"
  by (cases ctx) simp

text \<open>The fields of a scored receipt.\<close>

lemma scored_receipt_simps [simp]:
  "pr_patchHash (scored_receipt request ph key ctx seeds g c reason) = ph"
  "pr_dedupKey (scored_receipt request ph key ctx seeds g c reason) = key"
  "pr_parentRoot (scored_receipt request ph key ctx seeds g c reason) = pq_parentRoot request"
  "pr_epochId (scored_receipt request ph key ctx seeds g c reason) = pq_epochId request"
  "pr_receivedAtBlock (scored_receipt request ph key ctx seeds g c reason) = sc_receivedAtBlock ctx"
  "pr_targetBlock (scored_receipt request ph key ctx seeds g c reason) = sc_targetBlock ctx"
  "pr_blockhash (scored_receipt request ph key ctx seeds g c reason) = sc_blockhash ctx"
  "pr_gateSeed (scored_receipt request ph key ctx seeds g c reason) = fst seeds"
  "pr_confirmSeed (scored_receipt request ph key ctx seeds g c reason) = snd seeds"
  "pr_gateScorePpm (scored_receipt request ph key ctx seeds g c reason) = g"
  "pr_confirmScorePpm (scored_receipt request ph key ctx seeds g c reason) = c"
  "pr_accepted (scored_receipt request ph key ctx seeds g c reason) = (reason = None)"
  "pr_rejectionReason (scored_receipt request ph key ctx seeds g c reason) = reason"
  by (simp_all add: scored_receipt_def)

lemma accepted_facts:
  assumes "runPerPatchEvaluation request deps w = Some (Inr r, v)" and "pr_rejectionReason r = None"
  shows "pr_accepted r \<and> ld_admit (patch_admission request deps (pr_patchHash r) (pr_dedupKey r)) \<and>
    derive_seeds request deps (pr_patchHash r) \<lparr> sc_receivedAtBlock = pr_receivedAtBlock r,
      sc_targetBlock = pr_targetBlock r, sc_blockhash = pr_blockhash r \<rparr> = Inr (pr_gateSeed r, pr_confirmSeed r) \<and>
    (\<exists>g u1 u2 c. pd_scorer deps (pack_args request (pr_gateSeed r) gate_pack) u1 = Some (Inr g, u2) \<and>
      ps_accepted g \<and> ps_scorePpm g = pr_gateScorePpm r \<and> num_ge (pr_gateScorePpm r) (pd_thresholdPpm deps) \<and>
      pd_scorer deps (pack_args request (pr_confirmSeed r) confirm_pack) u2 = Some (Inr c, v) \<and>
      ps_accepted c \<and> ps_scorePpm c = pr_confirmScorePpm r \<and> num_ge (pr_confirmScorePpm r) (pd_thresholdPpm deps)) \<and>
    (pd_seedContext deps = None \<longrightarrow> pr_targetBlock r = num_add (pr_receivedAtBlock r) (pd_targetBlockOffset deps) \<and>
      (\<exists>b u3 u4. rpc_waitForBlock (pd_rpcClient deps) (pr_targetBlock r) (or_else (pd_waitTimeoutMs deps) 120000) u3 =
        Some (Inr b, u4) \<and> pr_blockhash r = bb_blockhash b))"
  using assms(1)
proof (cases rule: run_cases)
  case (hit key entry)
  with assms(2) show ?thesis by simp
next
  case (refused key)
  with assms(2) show ?thesis by (simp add: rejected_receipt_def)
next
  case (scored key ctx u1 u2 seeds)
  have drawn: "pd_seedContext deps = None \<longrightarrow> sc_targetBlock ctx = num_add (sc_receivedAtBlock ctx) (pd_targetBlockOffset deps) \<and>
      (\<exists>b u3 u4. rpc_waitForBlock (pd_rpcClient deps) (sc_targetBlock ctx) (or_else (pd_waitTimeoutMs deps) 120000) u3 =
        Some (Inr b, u4) \<and> sc_blockhash ctx = bb_blockhash b)"
    using scored(4) by (fastforce simp: draw_seed_context_def bind_io_Inr Let_def)
  from scored(7) show ?thesis
  proof (cases rule: score_packs_cases)
    case (gate_fails g)
    with assms(2) show ?thesis by simp
  next
    case (both g u c)
    then have "num_ge (ps_scorePpm c) (pd_thresholdPpm deps)" "ps_accepted c"
      using assms(2) by (auto split: if_splits)
    with both(5) have r: "r = scored_receipt request (patch_hash_of request) key ctx seeds (ps_scorePpm g) (ps_scorePpm c) None"
      by simp
    have d: "pd_seedContext deps = None \<longrightarrow> pr_targetBlock r = num_add (pr_receivedAtBlock r) (pd_targetBlockOffset deps) \<and>
      (\<exists>b u3 u4. rpc_waitForBlock (pd_rpcClient deps) (pr_targetBlock r) (or_else (pd_waitTimeoutMs deps) 120000) u3 =
        Some (Inr b, u4) \<and> pr_blockhash r = bb_blockhash b)"
      unfolding r scored_receipt_simps by (rule drawn)
    have "pr_accepted r" "ld_admit (patch_admission request deps (pr_patchHash r) (pr_dedupKey r))"
      "derive_seeds request deps (pr_patchHash r) \<lparr> sc_receivedAtBlock = pr_receivedAtBlock r,
        sc_targetBlock = pr_targetBlock r, sc_blockhash = pr_blockhash r \<rparr> = Inr (pr_gateSeed r, pr_confirmSeed r)"
      using scored(3,6) by (simp_all add: r)
    moreover have "\<exists>g u1 u2 c. pd_scorer deps (pack_args request (pr_gateSeed r) gate_pack) u1 = Some (Inr g, u2) \<and>
      ps_accepted g \<and> ps_scorePpm g = pr_gateScorePpm r \<and> num_ge (pr_gateScorePpm r) (pd_thresholdPpm deps) \<and>
      pd_scorer deps (pack_args request (pr_confirmSeed r) confirm_pack) u2 = Some (Inr c, v) \<and>
      ps_accepted c \<and> ps_scorePpm c = pr_confirmScorePpm r \<and> num_ge (pr_confirmScorePpm r) (pd_thresholdPpm deps)"
      using both \<open>ps_accepted c\<close> \<open>num_ge (ps_scorePpm c) (pd_thresholdPpm deps)\<close> unfolding r scored_receipt_simps by blast
    ultimately show ?thesis using d by blast
  qed
qed

text \<open>
  C13: an acceptance rests on both packs.  A receipt without a rejection reason is an accepted
  one that the admission gate let through, whose two seeds come from the recorded context, and
  for which the scorer, asked first for the gate and then for the confirm pack, accepted both
  with the recorded scores, each at the threshold or above.  Without a pinned context, the
  block is the one the chain client waited for, \<open>targetBlockOffset\<close> after the head.
\<close>

theorem acceptance_needs_both_packs:
  assumes "runPerPatchEvaluation request deps w = Some (Inr r, v)" and "pr_rejectionReason r = None"
  shows "pr_accepted r \<and> ld_admit (patch_admission request deps (pr_patchHash r) (pr_dedupKey r)) \<and>
    derive_seeds request deps (pr_patchHash r) \<lparr> sc_receivedAtBlock = pr_receivedAtBlock r,
      sc_targetBlock = pr_targetBlock r, sc_blockhash = pr_blockhash r \<rparr> = Inr (pr_gateSeed r, pr_confirmSeed r) \<and>
    (\<exists>g u1 u2 c. pd_scorer deps (pack_args request (pr_gateSeed r) gate_pack) u1 = Some (Inr g, u2) \<and>
      ps_accepted g \<and> ps_scorePpm g = pr_gateScorePpm r \<and> num_ge (pr_gateScorePpm r) (pd_thresholdPpm deps) \<and>
      pd_scorer deps (pack_args request (pr_confirmSeed r) confirm_pack) u2 = Some (Inr c, v) \<and>
      ps_accepted c \<and> ps_scorePpm c = pr_confirmScorePpm r \<and> num_ge (pr_confirmScorePpm r) (pd_thresholdPpm deps)) \<and>
    (pd_seedContext deps = None \<longrightarrow> pr_targetBlock r = num_add (pr_receivedAtBlock r) (pd_targetBlockOffset deps) \<and>
      (\<exists>b u3 u4. rpc_waitForBlock (pd_rpcClient deps) (pr_targetBlock r) (or_else (pd_waitTimeoutMs deps) 120000) u3 =
        Some (Inr b, u4) \<and> pr_blockhash r = bb_blockhash b))"
  using assms by (rule accepted_facts)

lemma retry_run:
  assumes "runPerPatchEvaluation request deps w = Some (Inr r, v)"
    and "\<And>a. yields (pd_scorer deps a) (f a)" and "\<And>ctx. yields (record_draw deps ctx) ()"
    and "ctx = \<lparr> sc_receivedAtBlock = pr_receivedAtBlock r, sc_targetBlock = pr_targetBlock r, sc_blockhash = pr_blockhash r \<rparr>"
  shows "\<exists>v'. runPerPatchEvaluation request (deps\<lparr>pd_seedContext := Some ctx, pd_rpcClient := client\<rparr>) w' = Some (Inr r, v')"
proof -
  let ?d = "deps\<lparr>pd_seedContext := Some ctx, pd_rpcClient := client\<rparr>"
  have admission: "patch_admission request ?d ph key = patch_admission request deps ph key" for ph key
    by (simp add: patch_admission_def)
  from assms(1) show ?thesis
  proof (cases rule: run_cases)
    case (hit key entry)
    then show ?thesis by (auto simp: runPerPatchEvaluation_def dedup_key_of_def)
  next
    case (refused key)
    then show ?thesis
      by (auto simp: runPerPatchEvaluation_def dedup_key_of_def admission patch_hash_of_def Let_def)
  next
    case (scored key ctx' u1 u2 seeds)
    have ctx: "ctx = ctx'" using scored(7) by (cases rule: score_packs_cases) (auto simp: assms(4))
    have draw: "draw_seed_context ?d w' = Some (Inr ctx, w')" by (simp add: draw_seed_context_def)
    have rec: "record_draw ?d c = record_draw deps c" for c by (simp add: record_draw_def)
    obtain u where u: "record_draw ?d ctx w' = Some (Inr (), u)" using yieldsE [OF assms(3)] rec by metis
    have seeds: "derive_seeds request ?d (patch_hash_of request) ctx = Inr seeds"
      using scored(6) by (auto simp: derive_seeds_def ctx Let_def split: option.splits prod.splits if_splits)
    have "runPerPatchEvaluation request ?d w' = score_packs request ?d (patch_hash_of request) key ctx seeds u"
      by (rule run_scored [OF scored(1) _ _ draw u seeds]) (use scored(2,3) admission in simp_all)
    moreover have "\<exists>v'. score_packs request ?d (patch_hash_of request) key ctx seeds u = Some (Inr r, v')"
    proof -
      define g where "g = f (pack_args request (fst seeds) gate_pack)"
      define c where "c = f (pack_args request (snd seeds) confirm_pack)"
      obtain u3 where g: "pd_scorer deps (pack_args request (fst seeds) gate_pack) u = Some (Inr g, u3)"
        using yieldsE [OF assms(2)] by (auto simp: g_def)
      obtain u4 where c: "pd_scorer deps (pack_args request (snd seeds) confirm_pack) u3 = Some (Inr c, u4)"
        using yieldsE [OF assms(2)] by (auto simp: c_def)
      from scored(7) show ?thesis
      proof (cases rule: score_packs_cases)
        case (gate_fails g')
        then have "g' = g" using yieldsD [OF assms(2)] by (auto simp: g_def)
        with gate_fails show ?thesis
          by (auto simp: score_packs_def bind_io_step [where m = "pd_scorer deps _", OF g] ctx Let_def)
      next
        case (both g' u' c')
        then have "g' = g" "c' = c" using yieldsD [OF assms(2)] by (auto simp: g_def c_def)
        with both show ?thesis
          by (auto simp: score_packs_def bind_io_step [where m = "pd_scorer deps _", OF g]
            bind_io_step [where m = "pd_scorer deps _", OF c] ctx Let_def)
      qed
    qed
    ultimately show ?thesis by simp
  qed
qed

text \<open>
  Fact: a retry cannot draw again.  Given the context that the first attempt recorded, a second
  evaluation of the request, at any later time and with any chain client, returns the same
  receipt: same block, same seeds, same packs, same decision.  The scorer is a function of its
  arguments, and recording succeeds.
\<close>

theorem retry_same_receipt:
  assumes "runPerPatchEvaluation request deps w = Some (Inr r, v)"
    and "\<And>a. yields (pd_scorer deps a) (f a)" and "\<And>ctx. yields (record_draw deps ctx) ()"
    and "ctx = \<lparr> sc_receivedAtBlock = pr_receivedAtBlock r, sc_targetBlock = pr_targetBlock r, sc_blockhash = pr_blockhash r \<rparr>"
  shows "\<exists>v'. runPerPatchEvaluation request (deps\<lparr>pd_seedContext := Some ctx, pd_rpcClient := client\<rparr>) w' = Some (Inr r, v')"
  using assms by (rule retry_run)

section \<open>What a watcher checks\<close>

definition receipt_seed_input :: "per_patch_receipt \<Rightarrow> 'w verification_deps \<Rightarrow> eval_seed_input" where
  "receipt_seed_input r deps = seed_input_of (vd_epochSecret deps) (pr_blockhash r) (pr_epochId r) (pr_patchHash r)
     (pr_parentRoot r) (vd_corpusRoot deps) (vd_bundleHash deps)"

lemma verified_facts:
  assumes "verifyPerPatchReceipt r deps w = Some (Inr (Verified dg dc), v)" and "\<not> num_same (pr_receivedAtBlock r) (Num 0)"
  shows "hexEq (computePatchHash (vd_normalizedPatchBytes deps)) (pr_patchHash r) \<and>
    (\<exists>key. computeDedupKey (pr_parentRoot r) (vd_normalizedPatchBytes deps) = Inr key \<and> hexEq key (pr_dedupKey r)) \<and>
    (\<exists>h u. rpc_getBlockHash (vd_rpcClient deps) (pr_targetBlock r) w = Some (Inr h, u) \<and> hexEq h (pr_blockhash r)) \<and>
    (\<exists>s. deriveGateEvalSeed (receipt_seed_input r deps) = Inr s \<and> hexEq s (pr_gateSeed r)) \<and>
    (\<exists>s. deriveConfirmEvalSeed (receipt_seed_input r deps) = Inr s \<and> hexEq s (pr_confirmSeed r)) \<and>
    (\<exists>g u1 u2 c. vd_scorer deps (watcher_args r deps (pr_gateSeed r) gate_pack) u1 = Some (Inr g, u2) \<and>
      dg = num_abs_diff (ps_scorePpm g) (pr_gateScorePpm r) \<and> \<not> num_gt dg (vd_replayTolerancePpm deps) \<and>
      vd_scorer deps (watcher_args r deps (pr_confirmSeed r) confirm_pack) u2 = Some (Inr c, v) \<and>
      dc = num_abs_diff (ps_scorePpm c) (pr_confirmScorePpm r) \<and> \<not> num_gt dc (vd_replayTolerancePpm deps))"
proof -
  have hash: "hexEq (computePatchHash (vd_normalizedPatchBytes deps)) (pr_patchHash r)"
    using assms(1) by (auto simp: verifyPerPatchReceipt_def split: if_splits)
  obtain key where key: "computeDedupKey (pr_parentRoot r) (vd_normalizedPatchBytes deps) = Inr key" "hexEq key (pr_dedupKey r)"
    using assms(1) hash by (cases "computeDedupKey (pr_parentRoot r) (vd_normalizedPatchBytes deps)")
      (auto simp: verifyPerPatchReceipt_def split: if_splits)
  note run = assms(1) [unfolded verifyPerPatchReceipt_def key(1) io_simps, simplified hash key(2) assms(2), simplified,
    folded receipt_seed_input_def]
  obtain h u where h: "rpc_getBlockHash (vd_rpcClient deps) (pr_targetBlock r) w = Some (Inr h, u)" "hexEq h (pr_blockhash r)"
    using run by (auto simp: try_io_Inr Let_def split: if_splits)
  obtain s where s: "deriveGateEvalSeed (receipt_seed_input r deps) = Inr s" "hexEq s (pr_gateSeed r)"
    using run h by (cases "deriveGateEvalSeed (receipt_seed_input r deps)") (auto simp: try_io_Inr Let_def split: if_splits)
  obtain s' where s': "deriveConfirmEvalSeed (receipt_seed_input r deps) = Inr s'" "hexEq s' (pr_confirmSeed r)"
    using run h s by (cases "deriveConfirmEvalSeed (receipt_seed_input r deps)") (auto simp: try_io_Inr Let_def split: if_splits)
  have "rescore r deps u = Some (Inr (Verified dg dc), v)"
    using run h s s' by (auto simp: try_io_Inr Let_def)
  then have "\<exists>g u1 u2 c. vd_scorer deps (watcher_args r deps (pr_gateSeed r) gate_pack) u1 = Some (Inr g, u2) \<and>
      dg = num_abs_diff (ps_scorePpm g) (pr_gateScorePpm r) \<and> \<not> num_gt dg (vd_replayTolerancePpm deps) \<and>
      vd_scorer deps (watcher_args r deps (pr_confirmSeed r) confirm_pack) u2 = Some (Inr c, v) \<and>
      dc = num_abs_diff (ps_scorePpm c) (pr_confirmScorePpm r) \<and> \<not> num_gt dc (vd_replayTolerancePpm deps)"
    unfolding rescore_def bind_io_Inr Let_def by (auto simp: bind_io_Inr split: if_splits)
  with hash key h s s' show ?thesis by blast
qed


lemma rescore_pure:
  assumes "\<And>a. yields (vd_scorer deps a) (f a)"
    and "g = num_abs_diff (ps_scorePpm (f (watcher_args r deps (pr_gateSeed r) gate_pack))) (pr_gateScorePpm r)"
    and "c = num_abs_diff (ps_scorePpm (f (watcher_args r deps (pr_confirmSeed r) confirm_pack))) (pr_confirmScorePpm r)"
    and "\<not> num_gt g (vd_replayTolerancePpm deps)"
  shows "\<exists>v. rescore r deps w = Some (Inr (if num_gt c (vd_replayTolerancePpm deps) then Failed CONFIRM_SCORE_BEYOND_TOLERANCE
    else Verified g c), v)"
proof -
  obtain u where u: "vd_scorer deps (watcher_args r deps (pr_gateSeed r) gate_pack) w =
      Some (Inr (f (watcher_args r deps (pr_gateSeed r) gate_pack)), u)"
    using yieldsE [OF assms(1)] by blast
  obtain u' where u': "vd_scorer deps (watcher_args r deps (pr_confirmSeed r) confirm_pack) u =
      Some (Inr (f (watcher_args r deps (pr_confirmSeed r) confirm_pack)), u')"
    using yieldsE [OF assms(1)] by blast
  show ?thesis using assms(4)
    by (auto simp: rescore_def bind_io_step [where m = "vd_scorer deps _", OF u]
      bind_io_step [where m = "vd_scorer deps _", OF u'] assms(2,3) Let_def)
qed

text \<open>Up to the scores, an honest receipt passes.\<close>

lemma honest_up_to_scores:
  assumes "runPerPatchEvaluation request deps w = Some (Inr r, v)" and "pr_rejectionReason r \<noteq> Some RJ_cached"
    and "pd_injectedSeeds deps = None" and "vd_epochSecret vdeps = or_else (pd_epochSecret deps) ''''"
    and "vd_corpusRoot vdeps = pd_corpusRoot deps" and "vd_bundleHash vdeps = pd_bundleHash deps"
    and "vd_normalizedPatchBytes vdeps = pq_normalizedPatchBytes request"
    and "yields (rpc_getBlockHash (vd_rpcClient vdeps) (pr_targetBlock r)) h" and "hexEq h (pr_blockhash r)"
  shows "\<exists>u. verifyPerPatchReceipt r vdeps w' =
    (if num_same (pr_receivedAtBlock r) (Num 0) then Some (Inr (Verified (Num 0) (Num 0)), w') else rescore r vdeps u)"
  using assms(1)
proof (cases rule: run_cases)
  case (hit key entry)
  with assms(2) show ?thesis by simp
next
  case (refused key)
  then show ?thesis
    by (simp add: verifyPerPatchReceipt_def rejected_receipt_def assms(7) patch_hash_of_def dedup_key_of_def return_io_def)
next
  case (scored key ctx u1 u2 seeds)
  then have r: "pr_patchHash r = patch_hash_of request" "pr_dedupKey r = key" "pr_parentRoot r = pq_parentRoot request"
    "pr_epochId r = pq_epochId request" "pr_blockhash r = sc_blockhash ctx" "pr_gateSeed r = fst seeds"
    "pr_confirmSeed r = snd seeds"
    by (auto elim!: score_packs_cases)
  let ?i = "seed_input_of (vd_epochSecret vdeps) (pr_blockhash r) (pr_epochId r) (pr_patchHash r) (pr_parentRoot r)
      (vd_corpusRoot vdeps) (vd_bundleHash vdeps)"
  have seeds: "deriveGateEvalSeed ?i = Inr (fst seeds)" "deriveConfirmEvalSeed ?i = Inr (snd seeds)"
    using scored(6) assms(3-6) by (auto simp: derive_seeds_def r Let_def bind_res_eq_Inr split: if_splits)
  have dedup: "computeDedupKey (pr_parentRoot r) (vd_normalizedPatchBytes vdeps) = Inr key"
    using scored(1) by (simp add: dedup_key_of_def r assms(7))
  obtain u where u: "rpc_getBlockHash (vd_rpcClient vdeps) (pr_targetBlock r) w' = Some (Inr h, u)"
    using yieldsE [OF assms(8)] by blast
  show ?thesis
    using seeds assms(9)
    by (auto simp: verifyPerPatchReceipt_def dedup [unfolded assms(7)] Let_def try_io_step [where m = "rpc_getBlockHash _ _", OF u] r(6,7)
      r(1,2) patch_hash_of_def assms(7) return_io_def)
qed

lemma num_abs_diff_same: "num_ge x y \<Longrightarrow> num_abs_diff x x = Num 0"
  by (cases x) (simp_all add: dbl_def)

lemma honest_verified:
  assumes "runPerPatchEvaluation request deps w = Some (Inr r, v)" and "pr_rejectionReason r = None"
    and "pd_injectedSeeds deps = None" and "vd_epochSecret vdeps = or_else (pd_epochSecret deps) ''''"
    and "vd_corpusRoot vdeps = pd_corpusRoot deps" and "vd_bundleHash vdeps = pd_bundleHash deps"
    and "vd_normalizedPatchBytes vdeps = pq_normalizedPatchBytes request"
    and "yields (rpc_getBlockHash (vd_rpcClient vdeps) (pr_targetBlock r)) h" and "hexEq h (pr_blockhash r)"
    and "\<And>a. yields (pd_scorer deps a) (f a)" and "\<And>a. yields (vd_scorer vdeps a) (f a)"
    and "num_ge (vd_replayTolerancePpm vdeps) (Num 0)"
  shows "\<exists>v'. verifyPerPatchReceipt r vdeps w' = Some (Inr (Verified (Num 0) (Num 0)), v')"
  using assms(1)
proof (cases rule: run_cases)
  case (hit key entry)
  with assms(2) show ?thesis by simp
next
  case (refused key)
  with assms(2) show ?thesis by (simp add: rejected_receipt_def)
next
  case (scored key ctx u1 u2 seeds)
  from scored(7) show ?thesis
  proof (cases rule: score_packs_cases)
    case (gate_fails g)
    with assms(2) show ?thesis by simp
  next
    case (both g u c)
    have c: "num_ge (ps_scorePpm c) (pd_thresholdPpm deps)" using assms(2) both(5) by (auto split: if_splits)
    have rs: "pr_gateSeed r = fst seeds" "pr_confirmSeed r = snd seeds" using both(5) by simp_all
    have args: "watcher_args r vdeps s which = pack_args request s which" for s which
      using both(5) by (simp add: watcher_args_def pack_args_def assms(7))
    have f: "g = f (watcher_args r vdeps (pr_gateSeed r) gate_pack)" "c = f (watcher_args r vdeps (pr_confirmSeed r) confirm_pack)"
      using yieldsD [OF assms(10) both(1)] yieldsD [OF assms(10) both(4)] by (simp_all add: args rs)
    have z: "num_abs_diff (ps_scorePpm g) (pr_gateScorePpm r) = Num 0" "num_abs_diff (ps_scorePpm c) (pr_confirmScorePpm r) = Num 0"
      using num_abs_diff_same [OF both(2)] num_abs_diff_same [OF c] both(5) by simp_all
    have tol: "\<not> num_gt (Num 0) (vd_replayTolerancePpm vdeps)"
      using assms(12) by (cases "vd_replayTolerancePpm vdeps") auto
    have "\<exists>v. rescore r vdeps u = Some (Inr (Verified (Num 0) (Num 0)), v)" for u
      using rescore_pure [OF assms(11) z(1) [unfolded f, symmetric] z(2) [unfolded f, symmetric] tol, of u] tol by simp
    moreover obtain u' where "verifyPerPatchReceipt r vdeps w' =
      (if num_same (pr_receivedAtBlock r) (Num 0) then Some (Inr (Verified (Num 0) (Num 0)), w') else rescore r vdeps u')"
      using honest_up_to_scores [OF assms(1) _ assms(3-9), of w'] assms(2) by auto
    ultimately show ?thesis by auto
  qed
qed

text \<open>
  C11: coordinator and watcher agree.  A receipt that an honest coordinator accepted passes the
  check of every watcher with the revealed secret, the same roots and patch bytes, a chain that
  still has the block, and the same deterministic scorer, with no deviation at all; so a
  failure proves that the coordinator deviated.
\<close>

theorem honest_receipt_verifies:
  assumes "runPerPatchEvaluation request deps w = Some (Inr r, v)" and "pr_rejectionReason r = None"
    and "pd_injectedSeeds deps = None" and "vd_epochSecret vdeps = or_else (pd_epochSecret deps) ''''"
    and "vd_corpusRoot vdeps = pd_corpusRoot deps" and "vd_bundleHash vdeps = pd_bundleHash deps"
    and "vd_normalizedPatchBytes vdeps = pq_normalizedPatchBytes request"
    and "yields (rpc_getBlockHash (vd_rpcClient vdeps) (pr_targetBlock r)) h" and "hexEq h (pr_blockhash r)"
    and "\<And>a. yields (pd_scorer deps a) (f a)" and "\<And>a. yields (vd_scorer vdeps a) (f a)"
    and "num_ge (vd_replayTolerancePpm vdeps) (Num 0)"
  shows "\<exists>v'. verifyPerPatchReceipt r vdeps w' = Some (Inr (Verified (Num 0) (Num 0)), v')"
  using assms by (rule honest_verified)


text \<open>
  Fact: a receipt that claims block 0 is not checked.  An accepted receipt with any scores, seeds
  and blockhash passes, as long as its hashes match the patch, when its received block is 0.
\<close>

theorem block_zero_not_checked:
  "computeDedupKey (pr_parentRoot r) bs = Inr key \<Longrightarrow> vd_normalizedPatchBytes deps = bs \<Longrightarrow>
   verifyPerPatchReceipt (r\<lparr>pr_patchHash := computePatchHash bs, pr_dedupKey := key, pr_receivedAtBlock := Num 0,
     pr_accepted := True, pr_gateScorePpm := g, pr_confirmScorePpm := c\<rparr>) deps w =
   Some (Inr (Verified (Num 0) (Num 0)), w)"
  by (simp add: verifyPerPatchReceipt_def return_io_def)

section \<open>A sample evaluation\<close>

definition sample_client :: "unit base_rpc_client" where
  "sample_client = \<lparr> rpc_getLatestBlockNumber = return_io (Num 100), rpc_getBlockHash = (\<lambda>n. return_io sample_hash),
     rpc_waitForBlock = (\<lambda>n ms. return_io \<lparr> bb_number = n, bb_blockhash = sample_hash, bb_timestamp = Num 0 \<rparr>) \<rparr>"

definition sample_request :: per_patch_request where
  "sample_request = \<lparr> pq_normalizedPatchBytes = [1, 2], pq_parentRoot = sample_hash,
     pq_minerAddress = ''0x'' @ replicate 40 CHR ''A'', pq_epochId = 7, pq_structurallyValid = True \<rparr>"

text \<open>A scorer that likes the confirm pack and has an opinion on the gate.\<close>

definition sample_scores :: "rat \<Rightarrow> scorer_args \<Rightarrow> per_patch_score" where
  "sample_scores gate a = \<lparr> ps_scorePpm = (case ar_which a of gate_pack \<Rightarrow> Num gate | confirm_pack \<Rightarrow> Num 5000),
     ps_accepted = True \<rparr>"

definition sample_deps :: "rat \<Rightarrow> unit per_patch_deps" where
  "sample_deps gate = \<lparr> pd_rpcClient = sample_client, pd_scorer = (\<lambda>a. return_io (sample_scores gate a)),
     pd_targetBlockOffset = Num 30, pd_thresholdPpm = Num 4000, pd_perMinerCap = 10, pd_epochSecret = Some sample_hash,
     pd_corpusRoot = sample_hash, pd_bundleHash = sample_hash, pd_dedupCache = [], pd_minerAdmissions = [],
     pd_waitTimeoutMs = None, pd_seedContext = None, pd_onSeedDerived = None, pd_injectedSeeds = None \<rparr>"

definition sample_watcher :: "rat \<Rightarrow> unit verification_deps" where
  "sample_watcher gate = \<lparr> vd_rpcClient = sample_client, vd_replayTolerancePpm = Num 1500,
     vd_scorer = (\<lambda>a. return_io (sample_scores gate a)), vd_epochSecret = sample_hash, vd_corpusRoot = sample_hash,
     vd_bundleHash = sample_hash, vd_normalizedPatchBytes = [1, 2] \<rparr>"

lemma byte_hex_val: "list_all (\<lambda>c. hex_val c \<noteq> None) (concat (map byte_hex bs))"
proof (induction bs)
  case (Cons b bs)
  have "unat b div 16 < 16" "unat b mod 16 < 16" using unsigned_less [where ?'a = nat, of b] by (simp_all add: less_mult_imp_div_less)
  then have "hex_val (hex_digit (unat b div 16)) \<noteq> None" "hex_val (hex_digit (unat b mod 16)) \<noteq> None"
    by (auto simp: hex_val_def of_hex_digit Let_def split: if_splits)
  with Cons show ?case by (simp add: byte_hex_digits)
qed simp

lemma hash_ok: "length bs = 32 \<Longrightarrow> BYTES32_RE (bytesToHex bs) \<and> bytes32_hex (bytesToHex bs)"
  using byte_hex_val [of bs] by (simp add: BYTES32_RE_def prefixed_hex_def bytes32_hex_def clean_hex_def bytesToHex_eq)

lemma hash_receipts:
  "BYTES32_RE (computePatchHash bs)" "bytes32_hex (computePatchHash bs)"
  "bytes32_hex parent \<Longrightarrow> \<exists>key. computeDedupKey parent bs = Inr key \<and> BYTES32_RE key"
  using hash_ok [OF length_keccak256]
  by (auto simp: computePatchHash_def computeDedupKey_def bind_res_eq_Inr assertBytes32Hex_ok hexToBytes_strict_ok)

lemma sample_run:
  assumes "g = 3000 \<or> g = 5000"
  shows "\<exists>r v. runPerPatchEvaluation sample_request (sample_deps g) () = Some (Inr r, v) \<and> pr_targetBlock r = Num 130 \<and>
    pr_blockhash r = sample_hash \<and> pr_receivedAtBlock r = Num 100 \<and>
    pr_rejectionReason r = (if g = 3000 then Some RJ_gate_below_threshold else None)"
proof -
  define ctx where "ctx = \<lparr> sc_receivedAtBlock = Num 100, sc_targetBlock = Num 130, sc_blockhash = sample_hash \<rparr>"
  obtain key where key: "dedup_key_of sample_request = Inr key" "BYTES32_RE key"
    using hash_receipts(3) [OF sample_hash_ok(1)] by (auto simp: dedup_key_of_def sample_request_def)
  have admit: "ld_admit (patch_admission sample_request (sample_deps g) (patch_hash_of sample_request) key)"
  proof -
    have "ADDR_RE (toLowerCase (pq_minerAddress sample_request))" by code_simp
    then show ?thesis using key(2) hash_receipts(1)
      by (simp add: patch_admission_def admit_iff patch_hash_of_def is_integer_def or_else_def sample_deps_def)
        (simp add: sample_request_def)
  qed
  have d: "dbl (100 + 30) = 130" by simp
  have draw: "draw_seed_context (sample_deps g) () = Some (Inr ctx, ())"
    by (simp add: draw_seed_context_def sample_deps_def sample_client_def ctx_def d return_io_def bind_io_def)
  have rec: "record_draw (sample_deps g) ctx () = Some (Inr (), ())"
    by (simp add: record_draw_def sample_deps_def return_io_def)
  let ?i = "seed_input_of sample_hash sample_hash 7 (patch_hash_of sample_request) sample_hash sample_hash sample_hash"
  have "seed_input_ok ?i"
    using sample_hash_ok hash_receipts(2) by (simp add: seed_input_ok_def seed_input_of_def patch_hash_of_def)
  then obtain s s' where "deriveGateEvalSeed ?i = Inr s" "deriveConfirmEvalSeed ?i = Inr s'"
    by (auto simp: deriveGateEvalSeed_def deriveConfirmEvalSeed_def deriveEvalSeed_eq)
  moreover have "sample_hash \<noteq> []" using sample_hash_ok(1) by (auto simp: bytes32_hex_def clean_hex_def)
  ultimately have seeds: "derive_seeds sample_request (sample_deps g) (patch_hash_of sample_request) ctx = Inr (s, s')"
    by (simp add: derive_seeds_def sample_deps_def or_else_def ctx_def sample_request_def)
  have "runPerPatchEvaluation sample_request (sample_deps g) () =
      score_packs sample_request (sample_deps g) (patch_hash_of sample_request) key ctx (s, s') ()"
    by (rule run_scored [OF key(1) _ admit draw rec seeds]) (simp add: sample_deps_def)
  then show ?thesis using assms
    by (auto simp: score_packs_def sample_deps_def sample_scores_def pack_args_def ctx_def Let_def)
qed

theorem acceptance_needs_both_packs_witness:
  "\<exists>r :: per_patch_receipt. pr_rejectionReason r = None \<and> pr_accepted r \<and> pr_targetBlock r = num_add (pr_receivedAtBlock r) (Num 30)"
proof -
  obtain r v where r: "runPerPatchEvaluation sample_request (sample_deps 5000) () = Some (Inr r, v)" "pr_rejectionReason r = None"
    using sample_run [of 5000] by auto
  from acceptance_needs_both_packs [OF r] have "pr_accepted r"
    "pd_seedContext (sample_deps 5000) = None \<longrightarrow> pr_targetBlock r = num_add (pr_receivedAtBlock r) (pd_targetBlockOffset (sample_deps 5000))"
    by blast+
  with r(2) have "pr_rejectionReason r = None \<and> pr_accepted r \<and> pr_targetBlock r = num_add (pr_receivedAtBlock r) (Num 30)"
    by (simp add: sample_deps_def)
  then show ?thesis by (rule exI [of _ r])
qed

theorem retry_same_receipt_witness:
  "\<exists>r v v'. runPerPatchEvaluation sample_request (sample_deps 5000) () = Some (Inr r, v) \<and>
    runPerPatchEvaluation sample_request ((sample_deps 5000)\<lparr>pd_seedContext := Some \<lparr> sc_receivedAtBlock = Num 100,
      sc_targetBlock = Num 130, sc_blockhash = sample_hash \<rparr>, pd_rpcClient := undefined\<rparr>) () = Some (Inr r, v')"
proof -
  obtain r v where r: "runPerPatchEvaluation sample_request (sample_deps 5000) () = Some (Inr r, v)"
    "pr_targetBlock r = Num 130" "pr_blockhash r = sample_hash" "pr_receivedAtBlock r = Num 100"
    using sample_run [of 5000] by auto
  have "\<exists>v'. runPerPatchEvaluation sample_request ((sample_deps 5000)\<lparr>pd_seedContext := Some \<lparr> sc_receivedAtBlock = Num 100,
      sc_targetBlock = Num 130, sc_blockhash = sample_hash \<rparr>, pd_rpcClient := undefined\<rparr>) () = Some (Inr r, v')"
    by (rule retry_same_receipt [OF r(1), where f = "sample_scores 5000"])
      (simp_all add: r sample_deps_def record_draw_def)
  with r(1) show ?thesis by blast
qed

theorem honest_receipt_verifies_witness:
  "\<exists>r v v'. runPerPatchEvaluation sample_request (sample_deps 5000) () = Some (Inr r, v) \<and>
    verifyPerPatchReceipt r (sample_watcher 5000) () = Some (Inr (Verified (Num 0) (Num 0)), v')"
proof -
  obtain r v where r: "runPerPatchEvaluation sample_request (sample_deps 5000) () = Some (Inr r, v)"
    "pr_rejectionReason r = None" "pr_blockhash r = sample_hash"
    using sample_run [of 5000] by auto
  have "\<exists>v'. verifyPerPatchReceipt r (sample_watcher 5000) () = Some (Inr (Verified (Num 0) (Num 0)), v')"
    by (rule honest_receipt_verifies [OF r(1,2), where f = "sample_scores 5000" and h = sample_hash])
      (simp_all add: r(3) sample_deps_def sample_watcher_def sample_client_def or_else_def sample_request_def)
  with r(1) show ?thesis by blast
qed



end
