(* ===== verification/Runs.thy ===== *)
theory Runs
  imports Js_Io
begin

text \<open>
  Methods of an object that await: runs over the state of the object and the world, and the
  rules that an invariant of the state follows from its operations.
\<close>

section \<open>Methods that await\<close>

type_synonym ('a, 's, 'w) run = "('a, 's \<times> 'w) io"

definition call :: "('a, 'w) io \<Rightarrow> ('a, 's, 'w) run" where
  "call m = (\<lambda>(s, w). map_option (\<lambda>(r, w'). (r, s, w')) (m w))"

definition modify :: "('s \<Rightarrow> 's) \<Rightarrow> (unit, 's, 'w) run" where
  "modify f = (\<lambda>(s, w). Some (Inr (), f s, w))"

definition modify_res :: "('s \<Rightarrow> js_error + 's) \<Rightarrow> (unit, 's, 'w) run" where
  "modify_res f = (\<lambda>(s, w). case f s of Inl e \<Rightarrow> Some (Inl e, s, w) | Inr s' \<Rightarrow> Some (Inr (), s', w))"

definition with_state :: "('s \<Rightarrow> ('a, 's, 'w) run) \<Rightarrow> ('a, 's, 'w) run" where
  "with_state f = (\<lambda>(s, w). f s (s, w))"

fun for_each :: "('x \<Rightarrow> (unit, 's) io) \<Rightarrow> 'x list \<Rightarrow> (unit, 's) io" where
  "for_each f [] = return_io ()"
| "for_each f (x # xs) = bind_io (f x) (\<lambda>_. for_each f xs)"

text \<open>\<open>try { return await m } finally { f }\<close> for an \<open>f\<close> that only changes the state.\<close>

definition finally_io :: "('a, 's, 'w) run \<Rightarrow> ('s \<Rightarrow> 's) \<Rightarrow> ('a, 's, 'w) run" where
  "finally_io m f = (\<lambda>p. map_option (\<lambda>(r, s, w). (r, f s, w)) (m p))"

text \<open>A property of the state that a run keeps, whether it returns or throws.\<close>

definition keeps :: "('s \<Rightarrow> bool) \<Rightarrow> ('a, 's, 'w) run \<Rightarrow> bool" where
  "keeps P m \<longleftrightarrow> (\<forall>s w r s' w'. m (s, w) = Some (r, s', w') \<longrightarrow> P s \<longrightarrow> P s')"

named_theorems keeps_rules \<open>runs that keep an invariant, by their construction\<close>

lemma keepsD: "keeps P m \<Longrightarrow> m (s, w) = Some (r, s', w') \<Longrightarrow> P s \<Longrightarrow> P s'"
  unfolding keeps_def by blast

lemma keeps_return [keeps_rules]: "keeps P (return_io x)"
  by (simp add: keeps_def)

lemma keeps_lift [keeps_rules]: "keeps P (lift_res r)"
  by (simp add: keeps_def)

lemma keeps_call [keeps_rules]: "keeps P (call m)"
  by (auto simp: keeps_def call_def)

lemma keeps_modify [keeps_rules]: "(\<And>s. P s \<Longrightarrow> P (f s)) \<Longrightarrow> keeps P (modify f)"
  by (auto simp: keeps_def modify_def)

lemma keeps_modify_res [keeps_rules]: "(\<And>s s'. P s \<Longrightarrow> f s = Inr s' \<Longrightarrow> P s') \<Longrightarrow> keeps P (modify_res f)"
  by (auto simp: keeps_def modify_res_def split: sum.splits)

lemma keeps_bind [keeps_rules]:
  assumes "keeps P m" and "\<And>x. keeps P (f x)"
  shows "keeps P (bind_io m f)"
  unfolding keeps_def
proof (intro allI impI)
  fix s w r s' w'
  assume run: "bind_io m f (s, w) = Some (r, s', w')" and "P s"
  then obtain a t u where "m (s, w) = Some (a, t, u)" by (auto simp: bind_io_def Option.bind_eq_Some_conv)
  moreover from keepsD [OF assms(1) this \<open>P s\<close>] have "P t" .
  ultimately show "P s'" using run by (cases a) (auto simp: bind_io_def intro: keepsD [OF assms(2)])
qed

lemma keeps_try [keeps_rules]:
  assumes "keeps P m" and "\<And>e. keeps P (h e)" and "\<And>x. keeps P (f x)"
  shows "keeps P (try_io m h f)"
  unfolding keeps_def
proof (intro allI impI)
  fix s w r s' w'
  assume run: "try_io m h f (s, w) = Some (r, s', w')" and "P s"
  then obtain a t u where "m (s, w) = Some (a, t, u)" by (auto simp: try_io_def Option.bind_eq_Some_conv)
  moreover from keepsD [OF assms(1) this \<open>P s\<close>] have "P t" .
  ultimately show "P s'" using run
    by (cases a) (auto simp: try_io_def intro: keepsD [OF assms(2)] keepsD [OF assms(3)])
qed

lemma keeps_finally [keeps_rules]: "keeps P m \<Longrightarrow> (\<And>s. P s \<Longrightarrow> P (f s)) \<Longrightarrow> keeps P (finally_io m f)"
  unfolding keeps_def finally_io_def by (auto; blast)

lemma keeps_with_state [keeps_rules]: "(\<And>s. P s \<Longrightarrow> keeps P (f s)) \<Longrightarrow> keeps P (with_state f)"
  unfolding keeps_def with_state_def by (auto; blast)

lemma keeps_if [keeps_rules]: "keeps P m \<Longrightarrow> keeps P n \<Longrightarrow> keeps P (if b then m else n)"
  by simp

lemma keeps_for_each [keeps_rules]: "(\<And>x. x \<in> set xs \<Longrightarrow> keeps P (f x)) \<Longrightarrow> keeps P (for_each f xs)"
  by (induction xs) (auto intro!: keeps_return keeps_bind)

section \<open>What a run returns\<close>

definition ensures :: "('a, 'w) io \<Rightarrow> ('a \<Rightarrow> bool) \<Rightarrow> bool" where
  "ensures m Q \<longleftrightarrow> (\<forall>w x w'. m w = Some (Inr x, w') \<longrightarrow> Q x)"

lemma ensuresD: "ensures m Q \<Longrightarrow> m w = Some (Inr x, w') \<Longrightarrow> Q x"
  unfolding ensures_def by blast

lemma ensures_bind: "(\<And>x. ensures (f x) Q) \<Longrightarrow> ensures (bind_io m f) Q"
  by (auto simp: ensures_def bind_io_Inr)

lemma ensures_lift: "(\<And>x. r = Inr x \<Longrightarrow> ensures (f x) Q) \<Longrightarrow> ensures (bind_io (lift_res r) f) Q"
  by (cases r) (auto simp: ensures_def)

text \<open>A run that does not stop waiting.\<close>

definition returns :: "('a, 'w) io \<Rightarrow> bool" where
  "returns m \<longleftrightarrow> (\<forall>w. m w \<noteq> None)"

named_theorems returns_rules \<open>runs that return, by their construction\<close>

lemma returns_return [returns_rules]: "returns (return_io x)"
  by (simp add: returns_def return_io_def)

lemma returns_lift [returns_rules]: "returns (lift_res r)"
  by (simp add: returns_def lift_res_def)

lemma returns_call [returns_rules]: "returns m \<Longrightarrow> returns (call m)"
  by (auto simp: returns_def call_def)

lemma returns_modify [returns_rules]: "returns (modify f)"
  by (auto simp: returns_def modify_def)

lemma returns_modify_res [returns_rules]: "returns (modify_res f)"
  by (auto simp: returns_def modify_res_def split: sum.splits)

lemma returns_with_state [returns_rules]: "(\<And>s. returns (f s)) \<Longrightarrow> returns (with_state f)"
  by (auto simp: returns_def with_state_def)

lemma returns_bind [returns_rules]: "returns m \<Longrightarrow> (\<And>x. returns (f x)) \<Longrightarrow> returns (bind_io m f)"
  by (fastforce simp: returns_def bind_io_def split: sum.splits Option.bind_splits)

lemma returns_try [returns_rules]:
  "returns m \<Longrightarrow> (\<And>e. returns (h e)) \<Longrightarrow> (\<And>x. returns (f x)) \<Longrightarrow> returns (try_io m h f)"
  by (fastforce simp: returns_def try_io_def split: sum.splits Option.bind_splits)

lemma returns_finally [returns_rules]: "returns m \<Longrightarrow> returns (finally_io m f)"
  by (auto simp: returns_def finally_io_def)

lemma returns_if [returns_rules]: "returns m \<Longrightarrow> returns n \<Longrightarrow> returns (if b then m else n)"
  by simp

lemma returns_for_each [returns_rules]: "(\<And>x. returns (f x)) \<Longrightarrow> returns (for_each f xs)"
  by (induction xs) (auto intro!: returns_return returns_bind)

section \<open>What a run does to the world\<close>

text \<open>A relation between the worlds before and after a run, however it ends.\<close>

definition confined :: "('w \<Rightarrow> 'w \<Rightarrow> bool) \<Rightarrow> ('a, 'w) io \<Rightarrow> bool" where
  "confined R m \<longleftrightarrow> (\<forall>w r w'. m w = Some (r, w') \<longrightarrow> R w w')"

named_theorems confined_rules \<open>runs confined to a relation, by their construction\<close>

lemma confinedD: "confined R m \<Longrightarrow> m w = Some (r, w') \<Longrightarrow> R w w'"
  unfolding confined_def by blast

lemma confined_mono: "confined R m \<Longrightarrow> (\<And>w w'. R w w' \<Longrightarrow> S w w') \<Longrightarrow> confined S m"
  unfolding confined_def by blast

lemma confined_return [confined_rules]: "reflp R \<Longrightarrow> confined R (return_io x)"
  by (auto simp: confined_def reflp_def)

lemma confined_lift [confined_rules]: "reflp R \<Longrightarrow> confined R (lift_res r)"
  by (auto simp: confined_def reflp_def)

lemma confined_bind [confined_rules]:
  assumes "transp R" and "confined R m" and "\<And>x. confined R (f x)"
  shows "confined R (bind_io m f)"
  unfolding confined_def
proof (intro allI impI)
  fix w r w' assume run: "bind_io m f w = Some (r, w')"
  then obtain a u where m: "m w = Some (a, u)" by (auto simp: bind_io_def Option.bind_eq_Some_conv)
  with assms(2) have "R w u" by (rule confinedD)
  moreover have "a = r' \<Longrightarrow> R u w'" if "f x u = Some (r, w')" for x r' using confinedD [OF assms(3) that] by simp
  ultimately show "R w w'" using run m transpD [OF assms(1)] by (cases a) (auto simp: bind_io_def)
qed

lemma confined_call [confined_rules]: "confined R m \<Longrightarrow> confined (\<lambda>(s, w) (s', w'). R w w') (call m)"
  by (auto simp: confined_def call_def)

lemma confined_modify [confined_rules]: "reflp R \<Longrightarrow> confined (\<lambda>(s, w) (s', w'). R w w') (modify f)"
  by (auto simp: confined_def modify_def reflp_def)

lemma confined_if [confined_rules]: "confined R m \<Longrightarrow> confined R n \<Longrightarrow> confined R (if b then m else n)"
  by simp

lemma reflp_second: "reflp R \<Longrightarrow> reflp (\<lambda>(s, w) (s', w'). R w w')"
  by (auto simp: reflp_def)

lemma transp_second: "transp R \<Longrightarrow> transp (\<lambda>(s, w) (s', w'). R w w')"
  unfolding transp_def by blast

end
