(* ===== verification/Coordinator.thy ===== *)
theory Coordinator
  imports Runs Patch Merkle Seed_Derivation Work_Units Admission
begin

text \<open>
  The coordinator of \<open>src/coordinator/coretex-coordinator-core.ts\<close>: its state, the watcher that
  follows the chain (events, reorganisations, parity), the life of a signed receipt, baselines
  and the freeze of a cutover.  Submissions are in \<open>Coordinator_Submit\<close>.

  A method that awaits is a run over the state of the coordinator and the world; what it
  changed before it throws stays changed.  A number of the code is a rational (its integers are
  far below \<open>2 ^ 53\<close>), a bigint an integer, a \<open>Map\<close> an association list in insertion order.
  Free-text reasons are constructors; log lines are left out.
\<close>

section \<open>The chain\<close>

record state_advanced_event =
  se_blockNumber :: int
  se_blockHash :: string
  se_logIndex :: int
  se_epoch :: int
  se_transitionIndex :: int
  se_miner :: string
  se_parent :: string
  se_newRoot :: string
  se_patchHash :: string
  se_evalReportHash :: string
  se_coreV :: string
  se_corpus :: string
  se_frontier :: string
  se_credits :: int
  se_wordCount :: rat
  se_compactPatchBytes :: string

record miner_counters =
  mc_screenersThisEpoch :: rat
  mc_nextIndex :: int
  mc_lastReceiptHash :: string

record registry_epoch_pins =
  pn_parentStateRoot :: string
  pn_coreVersionHash :: string
  pn_corpusRoot :: string
  pn_activeFrontierRoot :: string
  pn_baselineManifestHash :: string
  pn_hiddenSeedCommit :: string

record 'w chain_client =
  ch_getBlockNumber :: "(rat, 'w) io"
  ch_getBlockHashAt :: "rat \<Rightarrow> (string option, 'w) io"
  ch_getStateAdvancedEvents :: "rat \<Rightarrow> rat \<Rightarrow> (state_advanced_event list, 'w) io"
  ch_getRegistryEpoch :: "int \<Rightarrow> (string \<times> rat, 'w) io"
  ch_getRegistryEpochPins :: "int \<Rightarrow> (registry_epoch_pins, 'w) io"
  ch_getV4CurrentEpoch :: "(int, 'w) io"
  ch_getV4EpochCommit :: "int \<Rightarrow> (string, 'w) io"
  ch_getV4CoordinatorSigner :: "(string, 'w) io"
  ch_getV4CoreTexRegistry :: "(string, 'w) io"
  ch_getChainId :: "(int, 'w) io"
  ch_getMinerCoreTexCounters :: "int \<Rightarrow> string \<Rightarrow> (miner_counters, 'w) io"
  ch_getQualifiedScreenerPasses :: "int \<Rightarrow> (rat, 'w) io"
  ch_nowMs :: "'w \<Rightarrow> int"

text \<open>\<open>Math.floor(Date.now() / 1000)\<close>\<close>

definition now_sec :: "'w chain_client \<Rightarrow> (rat, 's, 'w) run" where
  "now_sec ch = call (\<lambda>w. Some (Inr (of_int (ch_nowMs ch w div 1000)), w))"

section \<open>Configuration and state\<close>

datatype variance_source = rotating_pack | broad_sampling | variance_unavailable

record coordinator_config =
  cf_maxQueuedSubmits :: "rat option"
  cf_maxQueuedSubmitsPerMiner :: "rat option"
  cf_epoch :: int
  cf_expectedChainId :: int
  cf_miningContractAddress :: "string option"
  cf_v4Address :: "string option"
  cf_registryAddress :: string
  cf_expectedCoordinatorSigner :: string
  cf_expectedEpochPins :: registry_epoch_pins
  cf_confirmationDepth :: rat
  cf_replayFromBlock :: "rat option"
  cf_receiptTtlSec :: rat
  cf_perMinerScreenerCap :: "rat option"
  cf_screenerThresholdPpm :: "rat option"
  cf_minImprovementPpm :: "rat option"
  cf_replayTolerancePpm :: "rat option"
  cf_maxPatchBytes :: "rat option"
  cf_baselineScorePpm :: "rat option"
  cf_baselineParentScorePpm :: "rat option"
  cf_baselineVariancePpm :: "rat option"
  cf_baselineVarianceSource :: "variance_source option"
  cf_fixedPackRepeatabilityPpm :: "rat option"
  cf_recentNoiseFloorPpm :: "rat option"
  cf_targetBlockOffset :: "rat option"
  cf_rulesVersion :: "rat option"
  cf_workPolicyHash :: "string option"
  cf_workPolicy :: "coretex_work_policy option"

datatype pending_state = Pending | Confirmed | Stale | Expired

record pending_receipt =
  pe_originalPatchHash :: string
  pe_signedPatchHash :: string
  pe_parentRoot :: string
  pe_expectedNewRoot :: string
  pe_compactPatchBytes :: string
  pe_miner :: string
  pe_issuedAt :: rat
  pe_expiresAt :: rat
  pe_scoreAfterPpm :: "rat option"
  pe_state :: pending_state

record receipt_payload =
  rp_epochId :: int
  rp_solveIndex :: int
  rp_prevReceiptHash :: string
  rp_outcome :: int
  rp_challengeId :: string
  rp_parentStateRoot :: string
  rp_newStateRoot :: string
  rp_corpusRoot :: string
  rp_activeFrontierRoot :: string
  rp_coreVersionHash :: string
  rp_evalReportHash :: string
  rp_patchHash :: string
  rp_artifactHash :: string
  rp_worldSeed :: int
  rp_rulesVersion :: rat
  rp_workPolicyHash :: string
  rp_workUnitsBps :: int
  rp_difficultyCountSnapshot :: int
  rp_stateWordCount :: int
  rp_scoreBeforePpm :: rat
  rp_scoreAfterPpm :: rat
  rp_issuedAt :: rat
  rp_expiresAt :: rat
  rp_compactPatchBytes :: string

text \<open>The envelope of an accepted submission, with the payload that was signed.\<close>

record receipt_envelope =
  re_stateAdvance :: bool
  re_patchHash :: string
  re_evalReportHash :: string
  re_workUnitsBps :: int
  re_newStateRoot :: string
  re_perMinerScreenerCount :: rat
  re_perMinerScreenerRemaining :: rat
  re_receipt :: receipt_payload
  re_signature :: string
  re_transactionTo :: string
  re_transactionData :: string
  re_issuedAt :: rat
  re_expiresAt :: rat

record coordinator_metrics =
  me_reorgRollbackCount :: nat
  me_parityMismatchCount :: nat
  me_epochMismatchCount :: nat
  me_receiptExpiryCount :: nat
  me_staleReceiptCount :: nat
  me_evalFailureCount :: nat
  me_signerFailureCount :: nat
  me_watcherFaultCount :: nat
  me_submitRejectedByCode :: "(string \<times> nat) list"

record state_snapshot =
  sn_transitionIndex :: int
  sn_blockNumber :: int
  sn_blockHash :: string
  sn_parent :: string
  sn_root :: string
  sn_patchHash :: string
  sn_state :: cortex_state

record chain_reservation =
  rv_nextIndex :: int
  rv_lastReceiptHash :: "string option"
  rv_expiresAt :: rat

datatype unhealthy_reason =
  Startup_replay_pending | Reorg_unrecoverable | Reorg_reconciling | Watcher_fault | Parity_count rat rat
  | CoordAwaitingFinality rat rat | Parity_root string string | Coord_epoch_mismatch int | Epoch_check_failed
  | Forced string

definition MAX_SNAPSHOTS :: nat where "MAX_SNAPSHOTS = 64"

record coordinator_state =
  cs_liveState :: cortex_state
  cs_liveRoot :: string
  cs_parentState :: cortex_state
  cs_parentRoot :: string
  cs_lastTransitionIndex :: int
  cs_stateByRoot :: "(string \<times> cortex_state) list"
  cs_snapshots :: "state_snapshot list"
  cs_signingEnabled :: bool
  cs_unhealthyReason :: "unhealthy_reason option"
  cs_chainLiveRoot :: string
  cs_chainTransitionCount :: rat
  cs_lastScannedBlock :: rat
  cs_replayFromBlock :: rat
  cs_finalityLagBlocks :: rat
  cs_lastEpochMismatch :: "int option"
  cs_currentBaselineVariancePpm :: "rat option"
  cs_frozen :: bool
  cs_freezeGeneration :: nat
  cs_minerChainReservations :: "(string \<times> chain_reservation) list"
  cs_baselineByRoot :: "(string \<times> rat) list"
  cs_pendingByPatchHash :: "(string \<times> pending_receipt) list"
  cs_receiptCache :: "(string \<times> receipt_envelope) list"
  cs_expiredReceiptTombstones :: "(string \<times> rat) list"
  cs_submitDedup :: "(string \<times> rat) list"
  cs_metrics :: coordinator_metrics
  cs_submitQueueDepth :: nat
  cs_pendingSubmitsByMiner :: "(string \<times> int) list"

definition new_coordinator :: "coordinator_config \<Rightarrow> coordinator_state" where
  "new_coordinator cfg =
     \<lparr> cs_liveState = \<lparr> words = [] \<rparr>, cs_liveRoot = '''', cs_parentState = \<lparr> words = [] \<rparr>, cs_parentRoot = '''',
       cs_lastTransitionIndex = - 1, cs_stateByRoot = [], cs_snapshots = [], cs_signingEnabled = False,
       cs_unhealthyReason = Some Startup_replay_pending, cs_chainLiveRoot = '''', cs_chainTransitionCount = 0,
       cs_lastScannedBlock = 0, cs_replayFromBlock = 0, cs_finalityLagBlocks = 0, cs_lastEpochMismatch = None,
       cs_currentBaselineVariancePpm =
         (case or_else (cf_baselineVarianceSource cfg) variance_unavailable of
            variance_unavailable \<Rightarrow> None | _ \<Rightarrow> cf_baselineVariancePpm cfg),
       cs_frozen = False, cs_freezeGeneration = 0, cs_minerChainReservations = [], cs_baselineByRoot = [],
       cs_pendingByPatchHash = [], cs_receiptCache = [], cs_expiredReceiptTombstones = [], cs_submitDedup = [],
       cs_metrics = \<lparr> me_reorgRollbackCount = 0, me_parityMismatchCount = 0, me_epochMismatchCount = 0,
         me_receiptExpiryCount = 0, me_staleReceiptCount = 0, me_evalFailureCount = 0, me_signerFailureCount = 0,
         me_watcherFaultCount = 0, me_submitRejectedByCode = [] \<rparr>,
       cs_submitQueueDepth = 0, cs_pendingSubmitsByMiner = [] \<rparr>"

section \<open>Baselines\<close>

definition isAddress :: "string \<Rightarrow> bool" where "isAddress = prefixed_hex 40"
definition isBytes32 :: "string \<Rightarrow> bool" where "isBytes32 = prefixed_hex 64"

definition launchBaselinePpm :: "coordinator_config \<Rightarrow> js_error + rat" where
  "launchBaselinePpm cfg =
     (case (case cf_baselineParentScorePpm cfg of Some b \<Rightarrow> Some b | None \<Rightarrow> cf_baselineScorePpm cfg) of
        None \<Rightarrow> Inl (Error ''coord: launch baselineParentScorePpm must be configured'')
      | Some baseline \<Rightarrow>
          if \<not> is_safe_integer baseline \<or> baseline < 0
          then Inl (Error ''coord: launch baselineParentScorePpm must be configured'') else Inr baseline)"

definition effectiveBaselinePpm :: "coordinator_state \<Rightarrow> rat option" where
  "effectiveBaselinePpm s = map_of (cs_baselineByRoot s) (toLowerCase (cs_liveRoot s))"

text \<open>\<open>Number(DEFAULT_CORETEX_WORK_POLICY.stateAdvance.minDeterministicDeltaPpm)\<close>\<close>

definition default_min_improvement :: rat where
  "default_min_improvement =
     (case toSignedBigInt (sa_minDeterministicDeltaPpm (wp_stateAdvance DEFAULT_CORETEX_WORK_POLICY)) '''' of
        Inr n \<Rightarrow> of_int n | Inl _ \<Rightarrow> 0)"

definition effectiveStateAdvanceThresholdPpm :: "coordinator_config \<Rightarrow> coordinator_state \<Rightarrow> rat" where
  "effectiveStateAdvanceThresholdPpm cfg s =
     (let minImprovementPpm = or_else (cf_minImprovementPpm cfg) default_min_improvement
      in dbl (dbl (minImprovementPpm + or_else (cf_replayTolerancePpm cfg) 0) + or_else (cs_currentBaselineVariancePpm s) 0))"

definition effectiveScreenerThresholdPpm :: "coordinator_config \<Rightarrow> coordinator_state \<Rightarrow> rat \<Rightarrow> js_error + rat" where
  "effectiveScreenerThresholdPpm cfg s baselinePpm =
     bind_res (computeCoreTexScreenerThresholdPpm
       \<lparr> th_baselineScorePpm = Some (numeric.Num baselinePpm),
         th_recentNoiseFloorPpm = Some (numeric.Num (or_else (cf_recentNoiseFloorPpm cfg) 0)),
         th_recentScreenerPasses = None, th_recentStateAdvances = None, th_targetStateAdvances = None,
         th_recentProbePassRatePpm = None,
         th_stateAdvanceThresholdPpm = Some (numeric.Num (effectiveStateAdvanceThresholdPpm cfg s)),
         th_policy = Some (or_else (cf_workPolicy cfg) DEFAULT_CORETEX_WORK_POLICY) \<rparr>) (\<lambda>computed.
     Inr (max (or_else (cf_screenerThresholdPpm cfg) 0) (of_int computed)))"

definition isAcceptingSubmissions :: "coordinator_state \<Rightarrow> bool" where
  "isAcceptingSubmissions s \<longleftrightarrow> cs_signingEnabled s \<and> \<not> cs_frozen s \<and> effectiveBaselinePpm s \<noteq> None"

text \<open>The baseline is stored before the variance is checked, so a bad variance throws after it.\<close>

definition setRecomputedBaseline :: "string \<Rightarrow> rat \<Rightarrow> rat option \<Rightarrow> (unit, coordinator_state, 'w) run" where
  "setRecomputedBaseline stateRoot baseline variance =
     (if \<not> isBytes32 stateRoot then throw_io (Error ''coord: setRecomputedBaseline stateRoot must be bytes32'')
      else if \<not> is_safe_integer baseline \<or> baseline < 0
      then throw_io (Error ''coord: setRecomputedBaseline baselineParentScorePpm must be a non-negative integer'')
      else
        bind_io (modify (\<lambda>s. s\<lparr>cs_baselineByRoot := AList.update (toLowerCase stateRoot) baseline (cs_baselineByRoot s)\<rparr>)) (\<lambda>_.
        case variance of
          None \<Rightarrow> return_io ()
        | Some v \<Rightarrow>
            if \<not> is_safe_integer v \<or> v < 0
            then throw_io (Error ''coord: setRecomputedBaseline baselineVariancePpm must be non-negative'')
            else modify (\<lambda>s. s\<lparr>cs_currentBaselineVariancePpm := Some v\<rparr>)))"

definition invalidateBaselines :: "coordinator_state \<Rightarrow> coordinator_state" where
  "invalidateBaselines s = s\<lparr>cs_baselineByRoot := [], cs_currentBaselineVariancePpm := None\<rparr>"

text \<open>A freeze takes effect at once and then waits for the running phase.\<close>

definition freeze :: "coordinator_state \<Rightarrow> coordinator_state" where
  "freeze s = s\<lparr>cs_frozen := True, cs_freezeGeneration := cs_freezeGeneration s + 1\<rparr>"

definition unfreeze :: "coordinator_state \<Rightarrow> coordinator_state" where
  "unfreeze s = s\<lparr>cs_frozen := False\<rparr>"

section \<open>Chain events\<close>

text \<open>The \<open>hexToBytes\<close> of this file: a leading \<open>0x\<close> is dropped, an odd string is padded, and a
  pair that is no number is stored as 0.\<close>

definition hexToBytes_padded :: "string \<Rightarrow> bytes" where
  "hexToBytes_padded h =
     (let s = (if take 2 h = ''0x'' then drop 2 h else h);
          padded = (if length s mod 2 \<noteq> 0 then ''0'' @ s else s)
      in map (\<lambda>i. to_uint8 (parse_int_16 (take 2 (drop (i * 2) padded)))) [0..<length padded div 2])"

definition root_hex :: "cortex_state \<Rightarrow> js_error + string" where
  "root_hex state = map_sum id bytesToHex (merkleizeState state)"

text \<open>What a pending receipt becomes when a transition lands.\<close>

definition settle_pending :: "string \<Rightarrow> string \<Rightarrow> pending_receipt \<Rightarrow> pending_receipt" where
  "settle_pending parent patchHash p =
     (if pe_state p \<noteq> Pending then p
      else if toLowerCase (pe_parentRoot p) = toLowerCase parent \<and> toLowerCase (pe_signedPatchHash p) = toLowerCase patchHash
      then p\<lparr>pe_state := Confirmed\<rparr>
      else if toLowerCase (pe_parentRoot p) = toLowerCase parent then p\<lparr>pe_state := Stale\<rparr>
      else p)"

definition settle_baseline :: "string \<Rightarrow> string \<Rightarrow> string \<Rightarrow> (string \<times> rat) list \<Rightarrow> pending_receipt \<Rightarrow> (string \<times> rat) list" where
  "settle_baseline parent patchHash newRoot baselines p =
     (if pe_state p = Pending \<and> pe_state (settle_pending parent patchHash p) = Confirmed
      then (case pe_scoreAfterPpm p of None \<Rightarrow> baselines | Some score \<Rightarrow> AList.update newRoot score baselines)
      else baselines)"

definition newly_stale :: "string \<Rightarrow> string \<Rightarrow> pending_receipt \<Rightarrow> bool" where
  "newly_stale parent patchHash p \<longleftrightarrow> pe_state p = Pending \<and> pe_state (settle_pending parent patchHash p) = Stale"

definition push_snapshot :: "state_snapshot \<Rightarrow> state_snapshot list \<Rightarrow> state_snapshot list" where
  "push_snapshot sn snaps = (let snaps = snaps @ [sn] in if length snaps > MAX_SNAPSHOTS then tl snaps else snaps)"

text \<open>The checks of an event, which do not change the state, and the state it leads to.\<close>

definition check_pins :: "coordinator_config \<Rightarrow> coordinator_state \<Rightarrow> state_advanced_event \<Rightarrow> js_error + unit" where
  "check_pins cfg s ev =
     (let pins = cf_expectedEpochPins cfg in
      if se_epoch ev \<noteq> cf_epoch cfg then Inl (Error ''watcher: event epoch'')
      else if se_transitionIndex ev \<noteq> cs_lastTransitionIndex s + 1 then Inl (Error ''watcher: non-contiguous transitionIndex'')
      else if toLowerCase (se_parent ev) \<noteq> toLowerCase (cs_liveRoot s) then Inl (Error ''watcher: event parent'')
      else if toLowerCase (se_coreV ev) \<noteq> toLowerCase (pn_coreVersionHash pins) then Inl (Error ''watcher: event coreVersionHash'')
      else if toLowerCase (se_corpus ev) \<noteq> toLowerCase (pn_corpusRoot pins) then Inl (Error ''watcher: event corpusRoot'')
      else if toLowerCase (se_frontier ev) \<noteq> toLowerCase (pn_activeFrontierRoot pins)
      then Inl (Error ''watcher: event activeFrontierRoot'')
      else Inr ())"

definition replay_event :: "cortex_state \<Rightarrow> state_advanced_event \<Rightarrow> js_error + cortex_state \<times> string" where
  "replay_event liveState ev =
     (if toLowerCase (computePatchHash (hexToBytes_padded (se_compactPatchBytes ev))) \<noteq> toLowerCase (se_patchHash ev)
      then Inl (Error ''watcher: patchHash mismatch'')
      else
        bind_res (decodePatch (hexToBytes_padded (se_compactPatchBytes ev))) (\<lambda>decoded.
        bind_res (applyPatch liveState decoded True) (\<lambda>next.
        case next of
          Inl code \<Rightarrow> Inl (Error ''watcher: applyPatch failed'')
        | Inr state \<Rightarrow>
            if se_wordCount ev \<noteq> of_int (wordCount decoded) then Inl (Error ''watcher: event wordCount'')
            else
              bind_res (root_hex state) (\<lambda>r.
              let newRoot = toLowerCase r in
              if newRoot \<noteq> toLowerCase (se_newRoot ev) then Inl (Error ''watcher: newStateRoot mismatch'')
              else Inr (state, newRoot)))))"

definition commit_event :: "coordinator_state \<Rightarrow> state_advanced_event \<Rightarrow> cortex_state \<Rightarrow> string \<Rightarrow> coordinator_state" where
  "commit_event s ev state newRoot =
     (let parent = se_parent ev; patchHash = se_patchHash ev; pendings = map snd (cs_pendingByPatchHash s) in
      s\<lparr>cs_liveState := state, cs_liveRoot := newRoot, cs_lastTransitionIndex := se_transitionIndex ev,
        cs_stateByRoot := AList.update newRoot state (cs_stateByRoot s),
        cs_snapshots := push_snapshot \<lparr> sn_transitionIndex = se_transitionIndex ev, sn_blockNumber = se_blockNumber ev,
          sn_blockHash = se_blockHash ev, sn_parent = toLowerCase parent, sn_root = newRoot,
          sn_patchHash = toLowerCase patchHash, sn_state = state \<rparr> (cs_snapshots s),
        cs_pendingByPatchHash := map (map_prod id (settle_pending parent patchHash)) (cs_pendingByPatchHash s),
        cs_baselineByRoot := foldl (settle_baseline parent patchHash newRoot) (cs_baselineByRoot s) pendings,
        cs_metrics := (cs_metrics s)\<lparr>me_staleReceiptCount :=
          me_staleReceiptCount (cs_metrics s) + length (filter (newly_stale parent patchHash) pendings)\<rparr>\<rparr>)"

definition applyChainEvent :: "coordinator_config \<Rightarrow> state_advanced_event \<Rightarrow> coordinator_state \<Rightarrow> js_error + coordinator_state" where
  "applyChainEvent cfg ev s =
     bind_res (check_pins cfg s ev) (\<lambda>_.
     bind_res (replay_event (cs_liveState s) ev) (\<lambda>(state, newRoot). Inr (commit_event s ev state newRoot)))"

definition event_cmp :: "state_advanced_event \<Rightarrow> state_advanced_event \<Rightarrow> int" where
  "event_cmp a b =
     (let db = se_blockNumber a - se_blockNumber b in if db \<noteq> 0 then db else se_logIndex a - se_logIndex b)"

definition apply_events :: "coordinator_config \<Rightarrow> state_advanced_event list \<Rightarrow> (unit, coordinator_state, 'w) run" where
  "apply_events cfg events = for_each (\<lambda>ev. modify_res (applyChainEvent cfg ev)) (js_sort event_cmp events)"

section \<open>Expiry\<close>

definition markExpiredReceiptHash :: "coordinator_config \<Rightarrow> rat \<Rightarrow> string \<Rightarrow> coordinator_state \<Rightarrow> coordinator_state" where
  "markExpiredReceiptHash cfg nowSec hash s =
     s\<lparr>cs_expiredReceiptTombstones :=
       AList.update (toLowerCase hash) (nowSec + cf_receiptTtlSec cfg) (cs_expiredReceiptTombstones s)\<rparr>"

definition dedup_key :: "string \<Rightarrow> string \<Rightarrow> string" where
  "dedup_key parent originalPatchHash = toLowerCase parent @ ''|'' @ toLowerCase originalPatchHash"

definition drop_receipts :: "pending_receipt \<Rightarrow> (string \<times> receipt_envelope) list \<Rightarrow> (string \<times> receipt_envelope) list" where
  "drop_receipts p cache =
     AList.delete (toLowerCase (pe_originalPatchHash p)) (AList.delete (toLowerCase (pe_signedPatchHash p)) cache)"

definition gc_pending_one :: "coordinator_config \<Rightarrow> rat \<Rightarrow> coordinator_state \<Rightarrow> string \<times> pending_receipt \<Rightarrow> coordinator_state" where
  "gc_pending_one cfg nowSec s = (\<lambda>(key, p).
     if pe_state p = Pending \<and> pe_expiresAt p \<le> nowSec
     then
       (let s = markExpiredReceiptHash cfg nowSec (pe_originalPatchHash p)
                  (markExpiredReceiptHash cfg nowSec (pe_signedPatchHash p) s)
        in s\<lparr>cs_metrics := (cs_metrics s)\<lparr>me_receiptExpiryCount := me_receiptExpiryCount (cs_metrics s) + 1\<rparr>,
             cs_submitDedup := AList.delete (dedup_key (pe_parentRoot p) (pe_originalPatchHash p)) (cs_submitDedup s),
             cs_receiptCache := drop_receipts p (cs_receiptCache s),
             cs_pendingByPatchHash := AList.delete (toLowerCase (pe_signedPatchHash p))
               (AList.update key (p\<lparr>pe_state := Expired\<rparr>) (cs_pendingByPatchHash s))\<rparr>)
     else s)"

definition gc_receipt_one :: "coordinator_config \<Rightarrow> rat \<Rightarrow> coordinator_state \<Rightarrow> string \<times> receipt_envelope \<Rightarrow> coordinator_state" where
  "gc_receipt_one cfg nowSec s = (\<lambda>(hash, envelope).
     case map_of (cs_pendingByPatchHash s) (toLowerCase (re_patchHash envelope)) of
       Some p \<Rightarrow>
         if pe_state p = Expired
         then (let s = markExpiredReceiptHash cfg nowSec (pe_originalPatchHash p)
                         (markExpiredReceiptHash cfg nowSec (pe_signedPatchHash p) s)
               in s\<lparr>cs_receiptCache := drop_receipts p (cs_receiptCache s)\<rparr>)
         else s
     | None \<Rightarrow>
         if is_integer (re_expiresAt envelope) \<and> re_expiresAt envelope \<le> nowSec
         then (let s = markExpiredReceiptHash cfg nowSec hash s
               in s\<lparr>cs_receiptCache := AList.delete hash (cs_receiptCache s),
                    cs_metrics := (cs_metrics s)\<lparr>me_receiptExpiryCount := me_receiptExpiryCount (cs_metrics s) + 1\<rparr>\<rparr>)
         else s)"

definition gcPending :: "coordinator_config \<Rightarrow> rat \<Rightarrow> coordinator_state \<Rightarrow> coordinator_state" where
  "gcPending cfg nowSec s =
     (let s = foldl (gc_pending_one cfg nowSec) s (cs_pendingByPatchHash s);
          s = foldl (gc_receipt_one cfg nowSec) s (cs_receiptCache s)
      in s\<lparr>cs_submitDedup := filter (\<lambda>(key, expiresAt). expiresAt > nowSec) (cs_submitDedup s),
           cs_expiredReceiptTombstones := filter (\<lambda>(hash, tombstoneUntil). tombstoneUntil > nowSec) (cs_expiredReceiptTombstones s),
           cs_minerChainReservations := filter (\<lambda>(miner, r). rv_expiresAt r > nowSec) (cs_minerChainReservations s)\<rparr>)"

section \<open>Reorganisations\<close>

text \<open>\<open>canonical && canonical.toLowerCase() === blockHash.toLowerCase()\<close>\<close>

definition canonical_match :: "string option \<Rightarrow> string \<Rightarrow> bool" where
  "canonical_match canonical blockHash = (case canonical of None \<Rightarrow> False | Some h \<Rightarrow> h \<noteq> '''' \<and> hexEq h blockHash)"

text \<open>The number of snapshots to keep: up to the last one whose block is still canonical.\<close>

fun find_canonical :: "'w chain_client \<Rightarrow> state_snapshot list \<Rightarrow> (nat, 'w) io" where
  "find_canonical ch [] = return_io 0"
| "find_canonical ch (snap # older) =
     bind_io (ch_getBlockHashAt ch (of_int (sn_blockNumber snap))) (\<lambda>canonical.
       if canonical_match canonical (sn_blockHash snap) then return_io (length older + 1) else find_canonical ch older)"

definition rollback :: "nat \<Rightarrow> coordinator_state \<Rightarrow> coordinator_state" where
  "rollback keep s =
     (if keep > 0
      then
        (let snap = cs_snapshots s ! (keep - 1)
         in s\<lparr>cs_snapshots := take keep (cs_snapshots s), cs_liveState := sn_state snap, cs_liveRoot := toLowerCase (sn_root snap),
              cs_lastTransitionIndex := sn_transitionIndex snap, cs_lastScannedBlock := of_int (sn_blockNumber snap)\<rparr>)
      else
        s\<lparr>cs_snapshots := [], cs_liveState := cs_parentState s, cs_liveRoot := toLowerCase (cs_parentRoot s),
          cs_lastTransitionIndex := - 1, cs_lastScannedBlock := max 0 (cs_replayFromBlock s - 1)\<rparr>)"

definition prune_states :: "coordinator_state \<Rightarrow> coordinator_state" where
  "prune_states s =
     (let keep = map (\<lambda>sn. toLowerCase (sn_root sn)) (cs_snapshots s) @ [toLowerCase (cs_parentRoot s)]
      in s\<lparr>cs_stateByRoot := filter (\<lambda>(key, st). key \<in> set keep) (cs_stateByRoot s)\<rparr>)"

definition reconcile_one :: "state_snapshot \<Rightarrow> pending_receipt \<Rightarrow> pending_receipt" where
  "reconcile_one snap p =
     (if pe_state p \<noteq> Pending then p
      else if toLowerCase (pe_parentRoot p) \<noteq> toLowerCase (sn_parent snap) then p
      else p\<lparr>pe_state := (if toLowerCase (pe_signedPatchHash p) = toLowerCase (sn_patchHash snap) then Confirmed else Stale)\<rparr>)"

definition reconcilePendingFromCanonicalSnapshots :: "coordinator_state \<Rightarrow> coordinator_state" where
  "reconcilePendingFromCanonicalSnapshots s =
     (let reset = (\<lambda>p. if pe_state p \<noteq> Expired then p\<lparr>pe_state := Pending\<rparr> else p)
      in s\<lparr>cs_pendingByPatchHash :=
        map (map_prod id (\<lambda>p. foldl (\<lambda>p snap. reconcile_one snap p) (reset p) (cs_snapshots s))) (cs_pendingByPatchHash s)\<rparr>)"

text \<open>A pending receipt whose parent is no known root can not land.\<close>

definition orphaned :: "coordinator_state \<Rightarrow> pending_receipt \<Rightarrow> bool" where
  "orphaned s p \<longleftrightarrow> pe_state p = Pending \<and> map_of (cs_stateByRoot s) (toLowerCase (pe_parentRoot p)) = None"

definition auditReceiptCacheAgainstCanonicalRoots :: "coordinator_state \<Rightarrow> coordinator_state" where
  "auditReceiptCacheAgainstCanonicalRoots s =
     s\<lparr>cs_pendingByPatchHash :=
         map (map_prod id (\<lambda>p. if orphaned s p then p\<lparr>pe_state := Stale\<rparr> else p)) (cs_pendingByPatchHash s),
       cs_metrics := (cs_metrics s)\<lparr>me_staleReceiptCount := me_staleReceiptCount (cs_metrics s) +
         length (filter (orphaned s) (map snd (cs_pendingByPatchHash s)))\<rparr>\<rparr>"

definition handleReorg :: "'w chain_client \<Rightarrow> (bool, coordinator_state, 'w) run" where
  "handleReorg ch =
     with_state (\<lambda>s. bind_io (call (find_canonical ch (rev (cs_snapshots s)))) (\<lambda>keep.
       bind_io (modify (\<lambda>s.
         let s = auditReceiptCacheAgainstCanonicalRoots (reconcilePendingFromCanonicalSnapshots (prune_states (rollback keep s)))
         in s\<lparr>cs_signingEnabled := False, cs_unhealthyReason := Some Reorg_reconciling,
              cs_metrics := (cs_metrics s)\<lparr>me_reorgRollbackCount := me_reorgRollbackCount (cs_metrics s) + 1\<rparr>\<rparr>)) (\<lambda>_.
       return_io True)))"

section \<open>Parity and epoch\<close>

definition unhealthy :: "unhealthy_reason \<Rightarrow> coordinator_state \<Rightarrow> coordinator_state" where
  "unhealthy reason s = s\<lparr>cs_signingEnabled := False, cs_unhealthyReason := Some reason\<rparr>"

definition count_parity_mismatch :: "coordinator_state \<Rightarrow> coordinator_state" where
  "count_parity_mismatch s =
     s\<lparr>cs_metrics := (cs_metrics s)\<lparr>me_parityMismatchCount := me_parityMismatchCount (cs_metrics s) + 1\<rparr>\<rparr>"

definition parity_result :: "string \<Rightarrow> rat \<Rightarrow> coordinator_state \<Rightarrow> bool \<times> coordinator_state" where
  "parity_result liveStateRoot transitionCount s =
     (let s = s\<lparr>cs_chainLiveRoot := toLowerCase liveStateRoot, cs_chainTransitionCount := transitionCount\<rparr>;
          coordCount = of_int (cs_lastTransitionIndex s + 1)
      in if coordCount > transitionCount
         then (False, count_parity_mismatch (unhealthy (Parity_count coordCount transitionCount) s))
         else if coordCount < transitionCount then (False, unhealthy (CoordAwaitingFinality coordCount transitionCount) s)
         else if toLowerCase liveStateRoot \<noteq> toLowerCase (cs_liveRoot s)
         then (False, count_parity_mismatch (unhealthy (Parity_root liveStateRoot (cs_liveRoot s)) s))
         else (True, s))"

definition parityCheck :: "coordinator_config \<Rightarrow> 'w chain_client \<Rightarrow> (bool, coordinator_state, 'w) run" where
  "parityCheck cfg ch =
     bind_io (call (ch_getRegistryEpoch ch (cf_epoch cfg))) (\<lambda>(liveStateRoot, transitionCount).
     with_state (\<lambda>s. bind_io (modify (\<lambda>s. snd (parity_result liveStateRoot transitionCount s))) (\<lambda>_.
       return_io (fst (parity_result liveStateRoot transitionCount s)))))"

definition epoch_mismatch :: "int \<Rightarrow> coordinator_state \<Rightarrow> coordinator_state" where
  "epoch_mismatch v4Epoch s =
     (let s = unhealthy (Coord_epoch_mismatch v4Epoch) s in
      if cs_lastEpochMismatch s \<noteq> Some v4Epoch
      then s\<lparr>cs_metrics := (cs_metrics s)\<lparr>me_epochMismatchCount := me_epochMismatchCount (cs_metrics s) + 1\<rparr>,
             cs_lastEpochMismatch := Some v4Epoch\<rparr>
      else s)"

definition checkEpochStillCurrent :: "coordinator_config \<Rightarrow> 'w chain_client \<Rightarrow> (bool, coordinator_state, 'w) run" where
  "checkEpochStillCurrent cfg ch =
     bind_io (call (ch_getV4CurrentEpoch ch)) (\<lambda>v4Epoch.
       if v4Epoch = cf_epoch cfg
       then bind_io (modify (\<lambda>s. s\<lparr>cs_lastEpochMismatch := None\<rparr>)) (\<lambda>_. return_io True)
       else bind_io (modify (epoch_mismatch v4Epoch)) (\<lambda>_. return_io False))"

definition isAwaitingFinality :: "coordinator_state \<Rightarrow> bool" where
  "isAwaitingFinality s =
     (case cs_unhealthyReason s of
        Some (CoordAwaitingFinality _ _) \<Rightarrow> True
      | Some (Forced reason) \<Rightarrow> take 21 reason = ''CoordAwaitingFinality''
      | _ \<Rightarrow> False)"

section \<open>Boot\<close>

definition positive_int_opt :: "rat \<Rightarrow> rat option \<Rightarrow> bool" where
  "positive_int_opt lo x = (case x of None \<Rightarrow> True | Some v \<Rightarrow> is_integer v \<and> v \<ge> lo)"

definition miningContractAddress :: "coordinator_config \<Rightarrow> string" where
  "miningContractAddress cfg =
     (case cf_miningContractAddress cfg of Some a \<Rightarrow> a | None \<Rightarrow> or_else (cf_v4Address cfg) '''')"

definition validateStaticConfig :: "coordinator_config \<Rightarrow> js_error + unit" where
  "validateStaticConfig cfg =
     (if \<not> isAddress (miningContractAddress cfg) then Inl (Error ''coord: miningContractAddress'')
      else if \<not> isAddress (cf_registryAddress cfg) then Inl (Error ''coord: registryAddress'')
      else if \<not> (is_integer (cf_confirmationDepth cfg) \<and> cf_confirmationDepth cfg \<ge> 0)
      then Inl (Error ''coord: confirmationDepth must be a non-negative integer'')
      else if \<not> (is_integer (cf_receiptTtlSec cfg) \<and> cf_receiptTtlSec cfg > 0)
      then Inl (Error ''coord: receiptTtlSec must be a positive integer'')
      else if \<not> (case cf_rulesVersion cfg of None \<Rightarrow> False | Some v \<Rightarrow> is_integer v \<and> v > 0)
      then Inl (Error ''coord: rulesVersion must be configured'')
      else if \<not> (case cf_workPolicyHash cfg of None \<Rightarrow> False | Some h \<Rightarrow> isBytes32 h)
      then Inl (Error ''coord: workPolicyHash bytes32 must be configured'')
      else if \<not> positive_int_opt 1 (cf_perMinerScreenerCap cfg) then Inl (Error ''coord: perMinerScreenerCap'')
      else if \<not> positive_int_opt 42 (cf_maxPatchBytes cfg) then Inl (Error ''coord: maxPatchBytes'')
      else if \<not> positive_int_opt 1 (cf_targetBlockOffset cfg) then Inl (Error ''coord: targetBlockOffset'')
      else
        bind_res (launchBaselinePpm cfg) (\<lambda>_.
        if \<not> positive_int_opt 0 (cf_screenerThresholdPpm cfg) then Inl (Error ''coord: screenerThresholdPpm'')
        else if \<not> positive_int_opt 0 (cf_baselineVariancePpm cfg) then Inl (Error ''coord: baselineVariancePpm'')
        else if \<not> positive_int_opt 0 (cf_fixedPackRepeatabilityPpm cfg) then Inl (Error ''coord: fixedPackRepeatabilityPpm'')
        else Inr ()))"

definition pins_match :: "registry_epoch_pins \<Rightarrow> registry_epoch_pins \<Rightarrow> bool" where
  "pins_match a b \<longleftrightarrow> list_all (\<lambda>f. hexEq (f a) (f b)) [pn_parentStateRoot, pn_coreVersionHash, pn_corpusRoot,
     pn_activeFrontierRoot, pn_baselineManifestHash, pn_hiddenSeedCommit]"

definition check_that :: "bool \<Rightarrow> string \<Rightarrow> (unit, 'w) io" where
  "check_that ok message = lift_res (if ok then Inr () else Inl (Error message))"

text \<open>The parent state, which must hash to the root the registry pins.\<close>

definition load_parent :: "(string \<Rightarrow> (cortex_state, 'w) io) \<Rightarrow> string \<Rightarrow> (string \<times> cortex_state, 'w) io" where
  "load_parent parentLoader pinnedRoot =
     bind_io (parentLoader pinnedRoot) (\<lambda>parent.
     bind_io (lift_res (root_hex parent)) (\<lambda>recomputed.
     bind_io (check_that (hexEq recomputed pinnedRoot) ''coord: parent substrate'') (\<lambda>_.
     return_io (pinnedRoot, parent))))"

text \<open>The wiring gates of \<open>boot\<close>, up to the parent state.\<close>

definition boot_gates :: "coordinator_config \<Rightarrow> 'w chain_client \<Rightarrow> (string \<Rightarrow> (cortex_state, 'w) io) \<Rightarrow> (string \<times> cortex_state, 'w) io" where
  "boot_gates cfg ch parentLoader =
     bind_io (lift_res (validateStaticConfig cfg)) (\<lambda>_.
     bind_io (ch_getChainId ch) (\<lambda>chainId. bind_io (check_that (chainId = cf_expectedChainId cfg) ''coord: chainId'') (\<lambda>_.
     bind_io (ch_getV4CurrentEpoch ch) (\<lambda>v4Epoch. bind_io (check_that (v4Epoch = cf_epoch cfg) ''coord: V4.currentEpoch'') (\<lambda>_.
     bind_io (ch_getV4EpochCommit ch (cf_epoch cfg)) (\<lambda>epochCommit.
     bind_io (check_that (epochCommit \<noteq> ''0x'' @ concat (replicate 32 ''00'')) ''coord: V4.epochCommit is zero'') (\<lambda>_.
     bind_io (ch_getV4CoordinatorSigner ch) (\<lambda>signer.
     bind_io (check_that (hexEq signer (cf_expectedCoordinatorSigner cfg)) ''coord: V4.coordinatorSigner'') (\<lambda>_.
     bind_io (ch_getV4CoreTexRegistry ch) (\<lambda>registry.
     bind_io (check_that (hexEq registry (cf_registryAddress cfg)) ''coord: V4.coreTexRegistry'') (\<lambda>_.
     bind_io (ch_getRegistryEpochPins ch (cf_epoch cfg)) (\<lambda>pins.
     bind_io (check_that (pins_match pins (cf_expectedEpochPins cfg)) ''coord: registry pins'') (\<lambda>_.
     load_parent parentLoader (pn_parentStateRoot pins))))))))))))))"

definition adopt_parent :: "coordinator_config \<Rightarrow> string \<Rightarrow> cortex_state \<Rightarrow> coordinator_state \<Rightarrow> js_error + coordinator_state" where
  "adopt_parent cfg pinnedRoot parent s =
     (let r = toLowerCase pinnedRoot in
      bind_res (launchBaselinePpm cfg) (\<lambda>baseline.
      Inr (s\<lparr>cs_liveState := parent, cs_liveRoot := r, cs_parentState := parent, cs_parentRoot := r,
        cs_stateByRoot := AList.update r parent (cs_stateByRoot s),
        cs_baselineByRoot := AList.update r baseline (cs_baselineByRoot s)\<rparr>)))"

text \<open>The replay of the epoch up to the confirmed head, and the parity with the chain after it.\<close>

definition replay_chain :: "coordinator_config \<Rightarrow> 'w chain_client \<Rightarrow> (unit, coordinator_state, 'w) run" where
  "replay_chain cfg ch =
     (let replayFromBlock = max 0 (of_int \<lfloor>or_else (cf_replayFromBlock cfg) 0\<rfloor>) in
     bind_io (modify (\<lambda>s. s\<lparr>cs_replayFromBlock := replayFromBlock\<rparr>)) (\<lambda>_.
     bind_io (call (ch_getBlockNumber ch)) (\<lambda>replayHead.
     let safeHead = max replayFromBlock (replayHead - cf_confirmationDepth cfg) in
     bind_io (call (ch_getStateAdvancedEvents ch replayFromBlock safeHead)) (\<lambda>events.
     bind_io (apply_events cfg events) (\<lambda>_.
     bind_io (modify (\<lambda>s. s\<lparr>cs_lastScannedBlock := safeHead\<rparr>)) (\<lambda>_.
     bind_io (parityCheck cfg ch) (\<lambda>available.
     with_state (\<lambda>s.
       if \<not> available \<and> \<not> isAwaitingFinality s then throw_io (Error ''coord: HARD-FAIL post-replay parity'')
       else if available then modify (\<lambda>s. s\<lparr>cs_signingEnabled := True, cs_unhealthyReason := None\<rparr>)
       else return_io ()))))))))"

definition boot :: "coordinator_config \<Rightarrow> 'w chain_client \<Rightarrow> (string \<Rightarrow> (cortex_state, 'w) io) \<Rightarrow> (unit, coordinator_state, 'w) run" where
  "boot cfg ch parentLoader =
     bind_io (call (boot_gates cfg ch parentLoader)) (\<lambda>(pinnedRoot, parent).
     bind_io (modify_res (adopt_parent cfg pinnedRoot parent)) (\<lambda>_. replay_chain cfg ch))"

section \<open>The watcher\<close>

definition gc_now :: "coordinator_config \<Rightarrow> 'w chain_client \<Rightarrow> (unit, coordinator_state, 'w) run" where
  "gc_now cfg ch = bind_io (now_sec ch) (\<lambda>nowSec. modify (gcPending cfg nowSec))"

text \<open>The check of the newest snapshot; \<open>False\<close> ends the tick.\<close>

definition detect_reorg :: "'w chain_client \<Rightarrow> (bool, coordinator_state, 'w) run" where
  "detect_reorg ch = with_state (\<lambda>s.
     if cs_snapshots s = [] then return_io True
     else
       (let deepest = last (cs_snapshots s) in
        bind_io (call (ch_getBlockHashAt ch (of_int (sn_blockNumber deepest)))) (\<lambda>canonical.
          if (case canonical of None \<Rightarrow> False | Some h \<Rightarrow> h \<noteq> '''' \<and> \<not> hexEq h (sn_blockHash deepest))
          then
            bind_io (handleReorg ch) (\<lambda>recovered.
              if recovered then return_io True
              else bind_io (modify (unhealthy Reorg_unrecoverable)) (\<lambda>_. return_io False))
          else return_io True)))"

definition scan_events :: "coordinator_config \<Rightarrow> 'w chain_client \<Rightarrow> rat \<Rightarrow> (unit, coordinator_state, 'w) run" where
  "scan_events cfg ch safeHead = with_state (\<lambda>s.
     if safeHead > cs_lastScannedBlock s
     then
       bind_io (call (ch_getStateAdvancedEvents ch (cs_lastScannedBlock s + 1) safeHead)) (\<lambda>events.
       bind_io (apply_events cfg events) (\<lambda>_.
       modify (\<lambda>s. s\<lparr>cs_lastScannedBlock := safeHead\<rparr>)))
     else return_io ())"

definition watch :: "coordinator_config \<Rightarrow> 'w chain_client \<Rightarrow> (unit, coordinator_state, 'w) run" where
  "watch cfg ch =
     bind_io (checkEpochStillCurrent cfg ch) (\<lambda>current.
     if \<not> current then gc_now cfg ch
     else
       bind_io (call (ch_getBlockNumber ch)) (\<lambda>head.
       let safeHead = head - cf_confirmationDepth cfg in
       bind_io (modify (\<lambda>s. s\<lparr>cs_finalityLagBlocks := head - cs_lastScannedBlock s\<rparr>)) (\<lambda>_.
       bind_io (detect_reorg ch) (\<lambda>go_on.
       if \<not> go_on then return_io ()
       else
         bind_io (scan_events cfg ch safeHead) (\<lambda>_.
         bind_io (parityCheck cfg ch) (\<lambda>available.
         bind_io (if available
           then modify (\<lambda>s. (auditReceiptCacheAgainstCanonicalRoots s)\<lparr>cs_signingEnabled := True, cs_unhealthyReason := None\<rparr>)
           else return_io ()) (\<lambda>_.
         gc_now cfg ch)))))))"

definition watcher_fault :: "coordinator_state \<Rightarrow> coordinator_state" where
  "watcher_fault s =
     (let s = unhealthy Watcher_fault s
      in s\<lparr>cs_metrics := (cs_metrics s)\<lparr>me_watcherFaultCount := me_watcherFaultCount (cs_metrics s) + 1\<rparr>\<rparr>)"

definition tick :: "coordinator_config \<Rightarrow> 'w chain_client \<Rightarrow> (unit, coordinator_state, 'w) run" where
  "tick cfg ch = with_state (\<lambda>s.
     if cs_frozen s then return_io ()
     else try_io (watch cfg ch) (\<lambda>_. modify watcher_fault) return_io)"

section \<open>Status\<close>

record miner_status =
  mt_address :: string
  mt_screenersThisEpoch :: rat
  mt_remaining :: rat
  mt_nextIndex :: rat
  mt_lastReceiptHash :: string

text \<open>The part of the status that depends on the state or the chain; the rest copies the configuration.\<close>

record coordinator_status =
  su_currentStateRoot :: string
  su_confirmedTransitionCount :: rat
  su_chainTransitionCount :: rat
  su_stateAdvanceThresholdPpm :: rat
  su_screenerThresholdPpm :: "rat option"
  su_baselineParentScorePpm :: "rat option"
  su_baselineVariancePpm :: "rat option"
  su_perMinerScreenerCap :: rat
  su_qualifiedScreenerPasses :: rat
  su_nextStateAdvanceWorkBps :: rat
  su_acceptingSubmissions :: bool
  su_frozen :: bool
  su_perMiner :: "miner_status option"

definition perMinerStatus :: "coordinator_config \<Rightarrow> 'w chain_client \<Rightarrow> string \<Rightarrow> rat \<Rightarrow> (miner_status, 'w) io" where
  "perMinerStatus cfg ch miner cap =
     bind_io (ch_getMinerCoreTexCounters ch (cf_epoch cfg) miner) (\<lambda>counters.
     return_io \<lparr> mt_address = miner, mt_screenersThisEpoch = mc_screenersThisEpoch counters,
       mt_remaining = max 0 (cap - mc_screenersThisEpoch counters), mt_nextIndex = dbl (of_int (mc_nextIndex counters)),
       mt_lastReceiptHash = toLowerCase (mc_lastReceiptHash counters) \<rparr>)"

text \<open>The threshold and the work units of the next advance, which may throw.\<close>

definition status_numbers :: "coordinator_config \<Rightarrow> coordinator_state \<Rightarrow> rat \<Rightarrow> js_error + rat option \<times> rat" where
  "status_numbers cfg s qualifiedPasses =
     bind_res (case effectiveBaselinePpm s of None \<Rightarrow> Inr None
               | Some b \<Rightarrow> map_sum id Some (effectiveScreenerThresholdPpm cfg s b)) (\<lambda>screenerThreshold.
     bind_res (computeCoreTexWorkUnitsBps OUTCOME_CORETEX_STATE_ADVANCE (Some (numeric.Num qualifiedPasses)) (cf_workPolicy cfg)) (\<lambda>bps.
     Inr (screenerThreshold, dbl (of_int bps))))"

definition status_of :: "coordinator_config \<Rightarrow> coordinator_state \<Rightarrow> rat \<Rightarrow> rat option \<Rightarrow> rat \<Rightarrow> miner_status option \<Rightarrow> coordinator_status" where
  "status_of cfg s qualifiedPasses screenerThreshold bps perMiner =
     \<lparr> su_currentStateRoot = cs_liveRoot s, su_confirmedTransitionCount = dbl (of_int (cs_lastTransitionIndex s + 1)),
       su_chainTransitionCount = cs_chainTransitionCount s,
       su_stateAdvanceThresholdPpm = effectiveStateAdvanceThresholdPpm cfg s, su_screenerThresholdPpm = screenerThreshold,
       su_baselineParentScorePpm = effectiveBaselinePpm s, su_baselineVariancePpm = cs_currentBaselineVariancePpm s,
       su_perMinerScreenerCap = or_else (cf_perMinerScreenerCap cfg) 50, su_qualifiedScreenerPasses = qualifiedPasses,
       su_nextStateAdvanceWorkBps = bps, su_acceptingSubmissions = isAcceptingSubmissions s, su_frozen = cs_frozen s,
       su_perMiner = perMiner \<rparr>"

text \<open>The miner is the first query value, if it is an address.\<close>

definition getStatus :: "coordinator_config \<Rightarrow> 'w chain_client \<Rightarrow> string list \<Rightarrow> (coordinator_status, coordinator_state, 'w) run" where
  "getStatus cfg ch minerQuery =
     bind_io (checkEpochStillCurrent cfg ch) (\<lambda>_.
     bind_io (call (ch_getQualifiedScreenerPasses ch (cf_epoch cfg))) (\<lambda>qualifiedPasses. with_state (\<lambda>s.
     bind_io (lift_res (status_numbers cfg s qualifiedPasses)) (\<lambda>(screenerThreshold, bps).
     bind_io (case minerQuery of
         m # _ \<Rightarrow> if isAddress m
           then bind_io (call (perMinerStatus cfg ch (toLowerCase m) (or_else (cf_perMinerScreenerCap cfg) 50))) (\<lambda>p. return_io (Some p))
           else return_io None
       | [] \<Rightarrow> return_io None) (\<lambda>perMiner.
     return_io (status_of cfg s qualifiedPasses screenerThreshold bps perMiner))))))"

section \<open>Lookups\<close>

datatype lookup_result = Not_found | Receipt_expired | Receipt_stale | Receipt_ok receipt_envelope "pending_state option"

text \<open>\<open>getReceiptByHash\<close>: the status is 404 for the first two, 409 for a stale receipt, 200 with
  the envelope otherwise.\<close>

definition getReceiptByHash :: "coordinator_config \<Rightarrow> rat \<Rightarrow> string \<Rightarrow> coordinator_state \<Rightarrow> lookup_result \<times> coordinator_state" where
  "getReceiptByHash cfg now hash s =
     (let s = gcPending cfg now s; normalizedHash = toLowerCase hash in
      case map_of (cs_receiptCache s) normalizedHash of
        None \<Rightarrow>
          (case map_of (cs_expiredReceiptTombstones s) normalizedHash of
             Some tombstoneUntil \<Rightarrow> if tombstoneUntil \<noteq> 0 \<and> tombstoneUntil > now then (Receipt_expired, s) else (Not_found, s)
           | None \<Rightarrow> (Not_found, s))
      | Some hit \<Rightarrow>
          let p = map_of (cs_pendingByPatchHash s) (toLowerCase (re_patchHash hit)) in
          if map_option pe_state p = Some Stale then (Receipt_stale, s)
          else if map_option pe_state p = Some Expired
          then (Receipt_expired, s\<lparr>cs_receiptCache := drop_receipts (the p) (cs_receiptCache s)\<rparr>)
          else if p = None \<and> re_expiresAt hit \<le> now
          then (Receipt_expired, markExpiredReceiptHash cfg now normalizedHash
            (s\<lparr>cs_receiptCache := AList.delete normalizedHash (cs_receiptCache s)\<rparr>))
          else (Receipt_ok hit (map_option pe_state p), s))"

definition getSubstrate :: "string \<Rightarrow> coordinator_state \<Rightarrow> (string \<times> cortex_state) option" where
  "getSubstrate stateRoot s = map_option (Pair (toLowerCase stateRoot)) (map_of (cs_stateByRoot s) (toLowerCase stateRoot))"

end
