(* ===== verification/Coordinator_Submit.thy ===== *)
theory Coordinator_Submit
  imports Coordinator Per_Patch
begin

text \<open>
  Submissions of \<open>src/coordinator/coretex-coordinator-core.ts\<close>: the body, the checks before the
  scorer, the checks of what the scorer returned, the receipt and its signature.  The scorer,
  the chain and the signer are arguments.
\<close>

section \<open>The request body\<close>

definition normalizeHexBytes :: "js_value \<Rightarrow> (string \<times> bytes) option" where
  "normalizeHexBytes value =
     (case value of
        JString s \<Rightarrow>
          if \<not> hex_string s then None
          else (let hex = toLowerCase s in
            if (length hex - 2) mod 2 \<noteq> 0 then None else Some (hex, hexToBytes_padded hex))
      | _ \<Rightarrow> None)"

record parsed_submit =
  sb_patchBytes :: bytes
  sb_parentStateRoot :: string
  sb_miner :: string

definition submit_fields :: "js_value \<Rightarrow> (string \<times> js_value) list option" where
  "submit_fields body =
     (case body of
        JObject obj \<Rightarrow> Some obj
      | JArray vs \<Rightarrow> Some (map (\<lambda>i. (bigint_to_string (int i), vs ! i)) [0..<length vs])
      | JBytes bs \<Rightarrow> Some (map (\<lambda>i. (bigint_to_string (int i), JNumber (Finite (of_int (uint (bs ! i)))))) [0..<length bs])
      | JMap entries \<Rightarrow> Some []
      | _ \<Rightarrow> None)"

definition string_field :: "(string \<times> js_value) list \<Rightarrow> string \<Rightarrow> string option" where
  "string_field obj key = (case map_of obj key of Some (JString s) \<Rightarrow> Some s | _ \<Rightarrow> None)"

definition parseSubmitBody :: "js_value \<Rightarrow> rat \<Rightarrow> string + parsed_submit" where
  "parseSubmitBody body maxPatchBytes =
     (case submit_fields body of
        None \<Rightarrow> Inl ''BODY''
      | Some r \<Rightarrow>
          if \<not> list_all (\<lambda>(k, v). k \<in> set [''patchBytesHex'', ''parentStateRoot'', ''minerAddress'']) r
          then Inl ''BODY_UNKNOWN_KEY''
          else (case normalizeHexBytes (or_else (map_of r ''patchBytesHex'') JUndefined) of
            None \<Rightarrow> Inl ''BODY''
          | Some (hex, patch) \<Rightarrow>
              if length patch = 0 then Inl ''BODY''
              else if of_nat (length patch) > maxPatchBytes then Inl ''PATCH_TOO_LARGE''
              else (case (string_field r ''parentStateRoot'', string_field r ''minerAddress'') of
                (Some parent, Some miner) \<Rightarrow>
                  if \<not> isBytes32 parent then Inl ''BODY''
                  else if \<not> isAddress miner then Inl ''BODY''
                  else Inr \<lparr> sb_patchBytes = patch, sb_parentStateRoot = toLowerCase parent, sb_miner = toLowerCase miner \<rparr>
              | _ \<Rightarrow> Inl ''BODY'')))"

section \<open>What the scorer returns\<close>

record proof_pack =
  pk_domain :: string
  pk_seedCommit :: string
  pk_accepted :: bool
  pk_scorePpm :: js_num

record evaluation_proof =
  ep_kind :: string
  ep_mode :: string
  ep_epochId :: js_num
  ep_receivedAtBlock :: js_num
  ep_targetBlock :: js_num
  ep_targetBlockOffset :: js_num
  ep_blockhash :: string
  ep_patchHash :: string
  ep_parentStateRoot :: string
  ep_corpusRoot :: string
  ep_coreVersionHash :: string
  ep_hiddenSeedCommit :: string
  ep_epochSecretCommit :: string
  ep_gate :: "proof_pack option"
  ep_confirm :: "proof_pack option"

record accepted_eval =
  ea_deterministicDeltaPpm :: js_num
  ea_evalReportHash :: string
  ea_artifactHash :: string
  ea_evaluationProof :: "evaluation_proof option"

text \<open>The scores before and after and the rewritten patch of a state advance.\<close>

datatype eval_result =
  Eval_reject string
| Screener_pass accepted_eval
| State_advance accepted_eval js_num js_num js_value

text \<open>\<open>Number.isSafeInteger(x) && x >= 0\<close>\<close>

definition safe_nat :: "js_num \<Rightarrow> bool" where
  "safe_nat x = (case x of NaN \<Rightarrow> False | js_num.Num q \<Rightarrow> is_safe_integer q \<and> q \<ge> 0)"

fun num_minus :: "js_num \<Rightarrow> js_num \<Rightarrow> js_num" where
  "num_minus (js_num.Num x) (js_num.Num y) = js_num.Num (dbl (x - y))"
| "num_minus _ _ = NaN"

definition validate_hashes :: "accepted_eval \<Rightarrow> string option" where
  "validate_hashes r =
     (if \<not> safe_nat (ea_deterministicDeltaPpm r) then Some ''EVAL_DELTA_INVALID''
      else if \<not> isBytes32 (ea_evalReportHash r) \<or> \<not> isBytes32 (ea_artifactHash r) then Some ''EVAL_HASH_INVALID''
      else None)"

definition validateAcceptedEvalResult :: "eval_result \<Rightarrow> string option" where
  "validateAcceptedEvalResult result =
     (case result of
        Eval_reject code \<Rightarrow> None
      | Screener_pass r \<Rightarrow> validate_hashes r
      | State_advance r scoreBefore scoreAfter rewritten \<Rightarrow>
          (case validate_hashes r of
             Some code \<Rightarrow> Some code
           | None \<Rightarrow>
               if \<not> safe_nat scoreBefore \<or> \<not> safe_nat scoreAfter then Some ''EVAL_SCORE_INVALID''
               else (let scoreDelta = num_minus scoreAfter scoreBefore in
                 if num_ge (js_num.Num 0) scoreDelta then Some ''EVAL_SCORE_INVALID''
                 else if \<not> num_same (ea_deterministicDeltaPpm r) scoreDelta then Some ''EVAL_DELTA_INVALID''
                 else None)))"

record expected_proof =
  xp_epoch :: rat
  xp_targetBlockOffset :: "rat option"
  xp_patchHash :: string
  xp_parentStateRoot :: string
  xp_corpusRoot :: string
  xp_coreVersionHash :: string
  xp_hiddenSeedCommit :: string
  xp_minDualPackScorePpm :: "rat option"
  xp_gateSeedCommit :: "string option"
  xp_confirmSeedCommit :: "string option"

definition zero_hash :: string where
  "zero_hash = ''0x'' @ concat (replicate 32 ''00'')"

definition bound_hash :: "string \<Rightarrow> string \<Rightarrow> bool" where
  "bound_hash actual expected \<longleftrightarrow> isBytes32 actual \<and> hexEq actual expected"

definition check_pack :: "rat option \<Rightarrow> proof_pack \<Rightarrow> string option" where
  "check_pack minScore p =
     (if \<not> isBytes32 (pk_seedCommit p) \<or> toLowerCase (pk_seedCommit p) = zero_hash then Some ''seedCommit invalid''
      else if \<not> pk_accepted p then Some ''not accepted''
      else if \<not> safe_nat (pk_scorePpm p) \<or> num_gt (pk_scorePpm p) (js_num.Num 1000000) then Some ''score invalid''
      else (case minScore of
        Some m \<Rightarrow> if num_gt (js_num.Num m) (pk_scorePpm p) then Some ''score below live threshold'' else None
      | None \<Rightarrow> None))"

text \<open>\<open>None\<close> when the proof is accepted, otherwise what is wrong with it.\<close>

definition validateDualPackProof :: "accepted_eval \<Rightarrow> expected_proof \<Rightarrow> string option" where
  "validateDualPackProof result x =
     (case ea_evaluationProof result of
        None \<Rightarrow> Some ''accepted evaluation missing dual-pack proof''
      | Some p \<Rightarrow>
          if ep_kind p \<noteq> ''coretex-dual-pack-v1'' then Some ''dual-pack proof kind mismatch''
          else if ep_mode p \<noteq> ''future_blockhash_dual_pack'' then Some ''dual-pack proof mode mismatch''
          else if \<not> num_same (ep_epochId p) (js_num.Num (xp_epoch x)) then Some ''dual-pack proof epoch mismatch''
          else if \<not> safe_nat (ep_receivedAtBlock p) then Some ''dual-pack proof receivedAtBlock invalid''
          else if \<not> safe_nat (ep_targetBlock p) \<or> num_ge (ep_receivedAtBlock p) (ep_targetBlock p)
          then Some ''dual-pack proof targetBlock invalid''
          else if \<not> safe_nat (ep_targetBlockOffset p) \<or> num_ge (js_num.Num 0) (ep_targetBlockOffset p)
          then Some ''dual-pack proof targetBlockOffset invalid''
          else if \<not> num_same (ep_targetBlock p) (num_add (ep_receivedAtBlock p) (ep_targetBlockOffset p))
          then Some ''dual-pack proof targetBlock offset mismatch''
          else if (case xp_targetBlockOffset x of None \<Rightarrow> False | Some k \<Rightarrow> \<not> num_same (ep_targetBlockOffset p) (js_num.Num k))
          then Some ''dual-pack proof targetBlockOffset config mismatch''
          else if \<not> isBytes32 (ep_blockhash p) \<or> toLowerCase (ep_blockhash p) = zero_hash
          then Some ''dual-pack proof blockhash invalid''
          else if \<not> bound_hash (ep_patchHash p) (xp_patchHash x) then Some ''dual-pack proof patchHash mismatch''
          else if \<not> bound_hash (ep_parentStateRoot p) (xp_parentStateRoot x) then Some ''dual-pack proof parentStateRoot mismatch''
          else if \<not> bound_hash (ep_corpusRoot p) (xp_corpusRoot x) then Some ''dual-pack proof corpusRoot mismatch''
          else if \<not> bound_hash (ep_coreVersionHash p) (xp_coreVersionHash x) then Some ''dual-pack proof coreVersionHash mismatch''
          else if \<not> bound_hash (ep_hiddenSeedCommit p) (xp_hiddenSeedCommit x) then Some ''dual-pack proof hiddenSeedCommit mismatch''
          else if \<not> bound_hash (ep_epochSecretCommit p) (xp_hiddenSeedCommit x) then Some ''dual-pack proof epochSecretCommit mismatch''
          else (case (ep_gate p, ep_confirm p) of
            (Some gate, Some confirm) \<Rightarrow>
              if pk_domain gate \<noteq> ''gate'' then Some ''dual-pack proof gate domain missing''
              else if pk_domain confirm \<noteq> ''confirm'' then Some ''dual-pack proof confirm domain missing''
              else (case check_pack (xp_minDualPackScorePpm x) gate of
                Some e \<Rightarrow> Some (''dual-pack proof gate '' @ e)
              | None \<Rightarrow> (case check_pack (xp_minDualPackScorePpm x) confirm of
                  Some e \<Rightarrow> Some (''dual-pack proof confirm '' @ e)
                | None \<Rightarrow>
                    if hexEq (pk_seedCommit gate) (pk_seedCommit confirm)
                    then Some ''dual-pack proof gate/confirm seeds are not domain-separated''
                    else if (case xp_gateSeedCommit x of None \<Rightarrow> False | Some c \<Rightarrow> \<not> isBytes32 c \<or> \<not> hexEq (pk_seedCommit gate) c)
                    then Some ''dual-pack proof gate seedCommit mismatch''
                    else if (case xp_confirmSeedCommit x of None \<Rightarrow> False | Some c \<Rightarrow> \<not> isBytes32 c \<or> \<not> hexEq (pk_seedCommit confirm) c)
                    then Some ''dual-pack proof confirm seedCommit mismatch''
                    else None))
          | (None, _) \<Rightarrow> Some ''dual-pack proof gate domain missing''
          | _ \<Rightarrow> if pk_domain (the (ep_gate p)) \<noteq> ''gate'' then Some ''dual-pack proof gate domain missing''
              else Some ''dual-pack proof confirm domain missing''))"

fun indices_agree :: "int list \<Rightarrow> int list \<Rightarrow> int list \<Rightarrow> int list \<Rightarrow> bool" where
  "indices_agree (i # is) (j # js) ws vs =
     (i = j \<and> at_or None (map Some ws) 0 = at_or None (map Some vs) 0 \<and> indices_agree is js (tl ws) (tl vs))"
| "indices_agree _ _ _ _ = True"

text \<open>The loop of the last comparison runs over the indices.\<close>

definition patchSemanticsMatchExceptScoreDelta :: "patch \<Rightarrow> patch \<Rightarrow> bool" where
  "patchSemanticsMatchExceptScoreDelta a b \<longleftrightarrow>
     patchType a = patchType b \<and> wordCount a = wordCount b \<and>
     hexEq (bytesToHex (parentStateRoot a)) (bytesToHex (parentStateRoot b)) \<and>
     length (indices a) = length (indices b) \<and> length (newWords a) = length (newWords b) \<and>
     indices_agree (indices a) (indices b) (newWords a) (newWords b)"

end
