(* ===== verification/Coordinator_Flow.thy ===== *)
theory Coordinator_Flow
  imports Coordinator_Submit
begin

text \<open>
  A submission of \<open>src/coordinator/coretex-coordinator-core.ts\<close> from the queue to the signed
  receipt: the checks before the scorer (\<open>prepareSubmitEvaluation\<close>), the checks after it and the
  signature (\<open>finishSubmitAfterEvaluation\<close>), and the queue around them.  Each of the two phases
  runs under the mutex of the coordinator; the scorer runs between them.
\<close>

section \<open>Rejections\<close>

datatype submit_response = Rejected string | Accepted receipt_envelope

definition rejectSubmission :: "string \<Rightarrow> coordinator_state \<Rightarrow> coordinator_state" where
  "rejectSubmission code s =
     (let counts = me_submitRejectedByCode (cs_metrics s)
      in s\<lparr>cs_metrics := (cs_metrics s)\<lparr>me_submitRejectedByCode :=
            AList.update code (or_else (map_of counts code) 0 + 1) counts\<rparr>\<rparr>)"

definition reject_run :: "string \<Rightarrow> (submit_response, coordinator_state, 'w) run" where
  "reject_run code = bind_io (modify (rejectSubmission code)) (\<lambda>_. return_io (Rejected code))"

definition patch_code :: "patch_error_code \<Rightarrow> string" where
  "patch_code code =
     (case code of E01 \<Rightarrow> ''E01'' | E02 \<Rightarrow> ''E02'' | E03 \<Rightarrow> ''E03'' | E04 \<Rightarrow> ''E04'' | E05 \<Rightarrow> ''E05'')"

section \<open>Before the scorer\<close>

record prepared_submit =
  pz_now :: rat
  pz_parsed :: parsed_submit
  pz_decoded :: patch
  pz_canonicalHex :: string
  pz_originalPatchHash :: string
  pz_dedupKey :: string
  pz_screenerThresholdPpm :: rat
  pz_rootAtEvaluation :: string
  pz_parentStateSnapshot :: cortex_state
  pz_freezeGeneration :: nat

definition maxPatchBytes :: "coordinator_config \<Rightarrow> rat" where
  "maxPatchBytes cfg = or_else (cf_maxPatchBytes cfg) 256"

text \<open>What a submission is checked for once the chain and the signer are known to be there; the
  outer error is one that is not caught.\<close>

definition prepare_patch :: "coordinator_config \<Rightarrow> rat \<Rightarrow> rat \<Rightarrow> js_value \<Rightarrow> coordinator_state \<Rightarrow> js_error + string + prepared_submit" where
  "prepare_patch cfg now threshold body s =
     (case parseSubmitBody body (maxPatchBytes cfg) of
        Inl code \<Rightarrow> Inr (Inl code)
      | Inr parsed \<Rightarrow>
          if sb_parentStateRoot parsed \<noteq> toLowerCase (cs_liveRoot s) then Inr (Inl ''E01'')
          else (case decodePatch (sb_patchBytes parsed) of
            Inl e \<Rightarrow> Inr (Inl ''DECODE'')
          | Inr decoded \<Rightarrow>
              if toLowerCase (bytesToHex (parentStateRoot decoded)) \<noteq> sb_parentStateRoot parsed then Inr (Inl ''E01'')
              else
                bind_res (applyPatch (cs_liveState s) decoded True) (\<lambda>preApplied.
                case preApplied of
                  Inl code \<Rightarrow> Inr (Inl (patch_code code))
                | Inr st \<Rightarrow>
                    bind_res (encodePatch (decoded\<lparr>scoreDelta := 0\<rparr>)) (\<lambda>canonicalBytes.
                    let originalPatchHash = toLowerCase (computePatchHash canonicalBytes);
                        dedupKey = sb_parentStateRoot parsed @ ''|'' @ originalPatchHash
                    in if map_of (cs_submitDedup s) dedupKey \<noteq> None then Inr (Inl ''DuplicateCoreTexPatch'')
                       else Inr (Inr \<lparr> pz_now = now, pz_parsed = parsed, pz_decoded = decoded,
                         pz_canonicalHex = toLowerCase (bytesToHex canonicalBytes), pz_originalPatchHash = originalPatchHash,
                         pz_dedupKey = dedupKey, pz_screenerThresholdPpm = threshold,
                         pz_rootAtEvaluation = toLowerCase (cs_liveRoot s),
                         pz_parentStateSnapshot = \<lparr> words = words (cs_liveState s) \<rparr>,
                         pz_freezeGeneration = cs_freezeGeneration s \<rparr>)))))"

text \<open>\<open>this.signer\<close> may be missing.\<close>

definition prepare_with_chain :: "coordinator_config \<Rightarrow> bool \<Rightarrow> rat \<Rightarrow> js_value \<Rightarrow> (submit_response + prepared_submit, coordinator_state, 'w) run" where
  "prepare_with_chain cfg has_signer now body = with_state (\<lambda>s.
     let reject = (\<lambda>code. bind_io (reject_run code) (\<lambda>r. return_io (Inl r))) in
     if \<not> cs_signingEnabled s
     then reject (if isAwaitingFinality s then ''CoordAwaitingFinality'' else ''CoordUnhealthy'')
     else if \<not> has_signer then reject ''CoordSignerUnavailable''
     else (case effectiveBaselinePpm s of
       None \<Rightarrow> reject ''awaiting_baseline_recompute''
     | Some baselinePpm \<Rightarrow>
         bind_io (lift_res (effectiveScreenerThresholdPpm cfg s baselinePpm)) (\<lambda>threshold.
         bind_io (lift_res (prepare_patch cfg now threshold body s)) (\<lambda>outcome.
         case outcome of Inl code \<Rightarrow> reject code | Inr prepared \<Rightarrow> return_io (Inr prepared)))))"

definition prepareSubmitEvaluation :: "coordinator_config \<Rightarrow> 'w chain_client \<Rightarrow> bool \<Rightarrow> js_value \<Rightarrow>
    (submit_response + prepared_submit, coordinator_state, 'w) run" where
  "prepareSubmitEvaluation cfg ch has_signer body =
     bind_io (now_sec ch) (\<lambda>now. bind_io (modify (gcPending cfg now)) (\<lambda>_. with_state (\<lambda>s.
     let reject = (\<lambda>code. bind_io (reject_run code) (\<lambda>r. return_io (Inl r))) in
     if cs_frozen s then reject ''epoch_cutover_in_progress''
     else
       try_io (checkEpochStillCurrent cfg ch)
         (\<lambda>_. bind_io (modify (unhealthy Epoch_check_failed)) (\<lambda>_. reject ''CoordUnhealthy''))
         (\<lambda>epochCurrent.
            if \<not> epochCurrent then reject ''CoordEpochMismatch''
            else prepare_with_chain cfg has_signer now body))))"

section \<open>What the scorer returned\<close>

definition expectedProof :: "coordinator_config \<Rightarrow> prepared_submit \<Rightarrow> rat \<Rightarrow> expected_proof" where
  "expectedProof cfg prepared minScore =
     \<lparr> xp_epoch = dbl (of_int (cf_epoch cfg)), xp_targetBlockOffset = cf_targetBlockOffset cfg,
       xp_patchHash = pz_originalPatchHash prepared, xp_parentStateRoot = sb_parentStateRoot (pz_parsed prepared),
       xp_corpusRoot = pn_corpusRoot (cf_expectedEpochPins cfg),
       xp_coreVersionHash = pn_coreVersionHash (cf_expectedEpochPins cfg),
       xp_hiddenSeedCommit = pn_hiddenSeedCommit (cf_expectedEpochPins cfg),
       xp_minDualPackScorePpm = Some minScore, xp_gateSeedCommit = None, xp_confirmSeedCommit = None \<rparr>"

fun accepted_part :: "eval_result \<Rightarrow> accepted_eval option" where
  "accepted_part (Eval_reject code) = None"
| "accepted_part (Screener_pass r) = Some r"
| "accepted_part (State_advance r _ _ _) = Some r"

fun outcome_of :: "eval_result \<Rightarrow> int" where
  "outcome_of (State_advance _ _ _ _) = OUTCOME_CORETEX_STATE_ADVANCE"
| "outcome_of _ = OUTCOME_CORETEX_SCREENER_PASS"

text \<open>The code of a rejection, or the accepted result.\<close>

definition check_eval :: "coordinator_config \<Rightarrow> prepared_submit \<Rightarrow> eval_result \<Rightarrow> string + accepted_eval" where
  "check_eval cfg prepared evalResult =
     (case evalResult of Eval_reject code \<Rightarrow> Inl code
      | _ \<Rightarrow>
        (case validateAcceptedEvalResult evalResult of Some code \<Rightarrow> Inl code
         | None \<Rightarrow>
           let r = the (accepted_part evalResult) in
           if validateDualPackProof r (expectedProof cfg prepared (pz_screenerThresholdPpm prepared)) \<noteq> None
           then Inl ''DUAL_PACK_PROOF_INVALID'' else Inr r))"

text \<open>The live context may have changed while the scorer ran.\<close>

definition check_live_context :: "coordinator_state \<Rightarrow> prepared_submit \<Rightarrow> string + rat" where
  "check_live_context s prepared =
     (if map_of (cs_submitDedup s) (pz_dedupKey prepared) \<noteq> None then Inl ''DuplicateCoreTexPatch''
      else if cs_frozen s \<or> cs_freezeGeneration s \<noteq> pz_freezeGeneration prepared then Inl ''epoch_cutover_in_progress''
      else if toLowerCase (cs_liveRoot s) \<noteq> pz_rootAtEvaluation prepared then Inl ''W02_STALE_PARENT_AT_SIGNING''
      else (case effectiveBaselinePpm s of None \<Rightarrow> Inl ''awaiting_baseline_recompute'' | Some b \<Rightarrow> Inr b))"

section \<open>The chain of receipts of a miner\<close>

text \<open>The index and the previous hash of the next receipt, and whether the reservation has landed.\<close>

datatype chain_slot = Busy | Slot (slot_index: int) (slot_prev: string) (slot_landed: bool)

definition next_slot :: "miner_counters \<Rightarrow> chain_reservation option \<Rightarrow> chain_slot" where
  "next_slot counters reservation =
     (let prev = toLowerCase (mc_lastReceiptHash counters) in
      case reservation of
        None \<Rightarrow> Slot (mc_nextIndex counters) prev False
      | Some rv \<Rightarrow>
          if mc_nextIndex counters \<ge> rv_nextIndex rv then Slot (mc_nextIndex counters) prev True
          else (case rv_lastReceiptHash rv of
            Some h \<Rightarrow> if h \<noteq> '''' then Slot (rv_nextIndex rv) h False else Busy
          | None \<Rightarrow> Busy))"

definition in_flight :: "miner_counters \<Rightarrow> chain_reservation option \<Rightarrow> rat" where
  "in_flight counters reservation =
     (case reservation of None \<Rightarrow> 0 | Some rv \<Rightarrow> max 0 (dbl (of_int (rv_nextIndex rv - mc_nextIndex counters))))"

section \<open>The transition that is signed\<close>

record signed_transition =
  tr_compactPatchBytes :: string
  tr_signedPatchHash :: string
  tr_newStateRoot :: string
  tr_stateWordCount :: int
  tr_scoreBeforePpm :: rat
  tr_scoreAfterPpm :: rat

text \<open>The value of a score that has been checked.\<close>

fun num_value :: "js_num \<Rightarrow> rat" where
  "num_value (js_num.Num q) = q"
| "num_value NaN = 0"

definition below :: "js_num \<Rightarrow> rat \<Rightarrow> bool" where
  "below x q = num_gt (js_num.Num q) x"

text \<open>A state advance: the patch is encoded again with the score it earned, and applied to the
  state it was evaluated on.\<close>

definition rewrite_advance :: "coordinator_config \<Rightarrow> prepared_submit \<Rightarrow> rat \<Rightarrow> js_num \<Rightarrow> js_num \<Rightarrow> js_value \<Rightarrow>
    js_error + string + signed_transition" where
  "rewrite_advance cfg prepared delta scoreBefore scoreAfter rewritten =
     (case normalizeHexBytes rewritten of
        None \<Rightarrow> Inr (Inl ''EVAL_REWRITE_INVALID'')
      | Some (hex, bs) \<Rightarrow>
          if of_nat (length bs) > maxPatchBytes cfg then Inr (Inl ''EVAL_REWRITE_INVALID'')
          else (case decodePatch bs of
            Inl e \<Rightarrow> Inr (Inl ''EVAL_REWRITE_INVALID'')
          | Inr rewrittenDecoded \<Rightarrow>
              if \<not> patchSemanticsMatchExceptScoreDelta (pz_decoded prepared) rewrittenDecoded
              then Inr (Inl ''EVAL_REWRITE_INVALID'')
              else
                bind_res (encodePatch ((pz_decoded prepared)\<lparr>scoreDelta := \<lfloor>delta\<rfloor>\<rparr>)) (\<lambda>finalBytes.
                let compactPatchBytes = toLowerCase (bytesToHex finalBytes) in
                bind_res (decodePatch (hexToBytes_padded compactPatchBytes)) (\<lambda>finalDecoded.
                bind_res (applyPatch (pz_parentStateSnapshot prepared) finalDecoded True) (\<lambda>finalApplied.
                case finalApplied of
                  Inl code \<Rightarrow> Inr (Inl (patch_code code))
                | Inr st \<Rightarrow>
                    bind_res (root_hex st) (\<lambda>newRoot.
                    Inr (Inr \<lparr> tr_compactPatchBytes = compactPatchBytes,
                      tr_signedPatchHash = toLowerCase (computePatchHash (hexToBytes_padded compactPatchBytes)),
                      tr_newStateRoot = toLowerCase newRoot, tr_stateWordCount = wordCount finalDecoded,
                      tr_scoreBeforePpm = num_value scoreBefore, tr_scoreAfterPpm = num_value scoreAfter \<rparr>)))))))"

definition screener_transition :: "prepared_submit \<Rightarrow> signed_transition" where
  "screener_transition prepared =
     \<lparr> tr_compactPatchBytes = pz_canonicalHex prepared, tr_signedPatchHash = pz_originalPatchHash prepared,
       tr_newStateRoot = sb_parentStateRoot (pz_parsed prepared), tr_stateWordCount = 0,
       tr_scoreBeforePpm = 0, tr_scoreAfterPpm = 0 \<rparr>"

definition min_advance_delta :: "coordinator_config \<Rightarrow> coordinator_state \<Rightarrow> rat \<Rightarrow> rat" where
  "min_advance_delta cfg s liveThreshold = max (effectiveStateAdvanceThresholdPpm cfg s) liveThreshold"

definition build_transition :: "coordinator_config \<Rightarrow> coordinator_state \<Rightarrow> prepared_submit \<Rightarrow> eval_result \<Rightarrow> accepted_eval \<Rightarrow> rat \<Rightarrow>
    js_error + string + signed_transition" where
  "build_transition cfg s prepared evalResult r liveThreshold =
     (if below (ea_deterministicDeltaPpm r) liveThreshold then Inr (Inl ''W03_DETERMINISTIC_DELTA_TOO_LOW'')
      else (case evalResult of
        State_advance _ scoreBefore scoreAfter rewritten \<Rightarrow>
          let delta = num_minus scoreAfter scoreBefore; minDelta = min_advance_delta cfg s liveThreshold in
          if below delta minDelta then Inr (Inl ''W03_DETERMINISTIC_DELTA_TOO_LOW'')
          else if validateDualPackProof r (expectedProof cfg prepared minDelta) \<noteq> None
          then Inr (Inl ''DUAL_PACK_PROOF_INVALID'')
          else rewrite_advance cfg prepared (num_value delta) scoreBefore scoreAfter rewritten
      | _ \<Rightarrow> Inr (Inr (screener_transition prepared))))"

section \<open>The receipt\<close>

fun join_bar :: "string list \<Rightarrow> string" where
  "join_bar [] = ''''"
| "join_bar [s] = s"
| "join_bar (s # t # ss) = s @ ''|'' @ join_bar (t # ss)"

definition hashText :: "string list \<Rightarrow> string" where
  "hashText parts = toLowerCase (bytesToHex (keccak256 (encode_ascii (join_bar parts))))"

text \<open>\<open>BigInt('0x' + h.slice(2, 34))\<close>: the first 16 bytes of the hash.\<close>

definition worldSeed :: "string \<Rightarrow> int \<Rightarrow> string \<Rightarrow> int" where
  "worldSeed miner solveIndex patchHash =
     (let h = hashText [''coretex-world-v1'', toLowerCase miner, bigint_to_string solveIndex, toLowerCase patchHash]
      in or_else (parse_int_16 (take 32 (drop 2 h))) 0)"

text \<open>\<open>BigInt(x)\<close> of a number\<close>

definition to_bigint :: "rat \<Rightarrow> js_error + int" where
  "to_bigint x = (if is_integer x then Inr \<lfloor>x\<rfloor> else Inl (RangeError ''not an integer''))"

record receipt_context =
  rx_solveIndex :: int
  rx_prevReceiptHash :: string
  rx_workUnitsBps :: int
  rx_difficultyCount :: int
  rx_workPolicyHash :: string

definition receipt_of :: "coordinator_config \<Rightarrow> prepared_submit \<Rightarrow> int \<Rightarrow> accepted_eval \<Rightarrow> signed_transition \<Rightarrow> receipt_context \<Rightarrow>
    receipt_payload" where
  "receipt_of cfg prepared outcome r tr rx =
     (let pins = cf_expectedEpochPins cfg; parsed = pz_parsed prepared in
      \<lparr> rp_epochId = cf_epoch cfg, rp_solveIndex = rx_solveIndex rx, rp_prevReceiptHash = rx_prevReceiptHash rx,
        rp_outcome = outcome,
        rp_challengeId = hashText [''coretex-challenge-v1'', bigint_to_string (cf_epoch cfg), sb_parentStateRoot parsed, tr_signedPatchHash tr],
        rp_parentStateRoot = sb_parentStateRoot parsed, rp_newStateRoot = tr_newStateRoot tr,
        rp_corpusRoot = toLowerCase (pn_corpusRoot pins), rp_activeFrontierRoot = toLowerCase (pn_activeFrontierRoot pins),
        rp_coreVersionHash = toLowerCase (pn_coreVersionHash pins), rp_evalReportHash = toLowerCase (ea_evalReportHash r),
        rp_patchHash = tr_signedPatchHash tr, rp_artifactHash = toLowerCase (ea_artifactHash r),
        rp_worldSeed = worldSeed (sb_miner parsed) (rx_solveIndex rx) (tr_signedPatchHash tr),
        rp_rulesVersion = or_else (cf_rulesVersion cfg) (of_int (wp_rulesVersion DEFAULT_CORETEX_WORK_POLICY)),
        rp_workPolicyHash = rx_workPolicyHash rx, rp_workUnitsBps = rx_workUnitsBps rx,
        rp_difficultyCountSnapshot = rx_difficultyCount rx, rp_stateWordCount = tr_stateWordCount tr,
        rp_scoreBeforePpm = tr_scoreBeforePpm tr, rp_scoreAfterPpm = tr_scoreAfterPpm tr,
        rp_issuedAt = pz_now prepared, rp_expiresAt = pz_now prepared + cf_receiptTtlSec cfg,
        rp_compactPatchBytes = tr_compactPatchBytes tr \<rparr>)"

definition lower_bytes32 :: "string \<Rightarrow> bool" where
  "lower_bytes32 s \<longleftrightarrow> isBytes32 s \<and> toLowerCase s = s"

record signed_receipt =
  sg_signature :: string
  sg_transactionData :: string
  sg_receiptHash :: "string option"

type_synonym 'w receipt_signer = "string \<Rightarrow> receipt_payload \<Rightarrow> (signed_receipt, 'w) io"

definition signed_ok :: "signed_receipt \<Rightarrow> bool" where
  "signed_ok sig \<longleftrightarrow> hex_string (sg_signature sig) \<and> hex_string (sg_transactionData sig) \<and>
     (case sg_receiptHash sig of None \<Rightarrow> True | Some h \<Rightarrow> isBytes32 h)"

definition cacheReceipt :: "receipt_envelope \<Rightarrow> string \<Rightarrow> coordinator_state \<Rightarrow> coordinator_state" where
  "cacheReceipt envelope originalPatchHash s =
     (let sig = toLowerCase (re_patchHash envelope);
          cache = AList.update sig envelope (cs_receiptCache s)
      in s\<lparr>cs_receiptCache :=
           (if toLowerCase originalPatchHash \<noteq> sig then AList.update (toLowerCase originalPatchHash) envelope cache else cache)\<rparr>)"

definition envelope_of :: "coordinator_config \<Rightarrow> receipt_payload \<Rightarrow> signed_receipt \<Rightarrow> rat \<Rightarrow> receipt_envelope" where
  "envelope_of cfg receipt sig screenerCount =
     (let count = (if rp_outcome receipt = OUTCOME_CORETEX_SCREENER_PASS then screenerCount + 1 else screenerCount) in
      \<lparr> re_stateAdvance = (rp_outcome receipt = OUTCOME_CORETEX_STATE_ADVANCE), re_patchHash = rp_patchHash receipt,
        re_evalReportHash = rp_evalReportHash receipt, re_workUnitsBps = rp_workUnitsBps receipt,
        re_newStateRoot = rp_newStateRoot receipt, re_perMinerScreenerCount = count,
        re_perMinerScreenerRemaining = max 0 (or_else (cf_perMinerScreenerCap cfg) 50 - count),
        re_receipt = receipt, re_signature = toLowerCase (sg_signature sig),
        re_transactionTo = toLowerCase (miningContractAddress cfg), re_transactionData = toLowerCase (sg_transactionData sig),
        re_issuedAt = rp_issuedAt receipt, re_expiresAt = rp_expiresAt receipt \<rparr>)"

text \<open>What a signed receipt leaves in the state: the reservation of the miner's chain, the
  deduplication key, the pending transition and the cached envelope.\<close>

definition pending_of :: "prepared_submit \<Rightarrow> receipt_payload \<Rightarrow> pending_receipt" where
  "pending_of prepared receipt =
     \<lparr> pe_originalPatchHash = pz_originalPatchHash prepared, pe_signedPatchHash = rp_patchHash receipt,
       pe_parentRoot = rp_parentStateRoot receipt, pe_expectedNewRoot = rp_newStateRoot receipt,
       pe_compactPatchBytes = rp_compactPatchBytes receipt, pe_miner = sb_miner (pz_parsed prepared),
       pe_issuedAt = rp_issuedAt receipt, pe_expiresAt = rp_expiresAt receipt,
       pe_scoreAfterPpm = Some (rp_scoreAfterPpm receipt), pe_state = Pending \<rparr>"

definition record_receipt :: "prepared_submit \<Rightarrow> receipt_payload \<Rightarrow> signed_receipt \<Rightarrow> receipt_envelope \<Rightarrow> coordinator_state \<Rightarrow> coordinator_state" where
  "record_receipt prepared receipt sig envelope s =
     cacheReceipt envelope (pz_originalPatchHash prepared)
       (s\<lparr>cs_minerChainReservations := AList.update (sb_miner (pz_parsed prepared))
            \<lparr> rv_nextIndex = rp_solveIndex receipt + 1, rv_lastReceiptHash = map_option toLowerCase (sg_receiptHash sig),
              rv_expiresAt = rp_expiresAt receipt \<rparr> (cs_minerChainReservations s),
          cs_submitDedup := AList.update (pz_dedupKey prepared) (rp_expiresAt receipt) (cs_submitDedup s),
          cs_pendingByPatchHash :=
            (if rp_outcome receipt = OUTCOME_CORETEX_STATE_ADVANCE
             then AList.update (rp_patchHash receipt) (pending_of prepared receipt) (cs_pendingByPatchHash s)
             else cs_pendingByPatchHash s)\<rparr>)"

section \<open>After the scorer\<close>

text \<open>From the accepted evaluation and the place in the miner's chain to the signature.\<close>

definition sign_and_record :: "coordinator_config \<Rightarrow> 'w receipt_signer option \<Rightarrow> prepared_submit \<Rightarrow> receipt_payload \<Rightarrow> rat \<Rightarrow>
    (submit_response, coordinator_state, 'w) run" where
  "sign_and_record cfg signer prepared receipt screenerCount =
     (if \<not> lower_bytes32 (rp_evalReportHash receipt) \<or> \<not> lower_bytes32 (rp_artifactHash receipt)
      then reject_run ''EVAL_HASH_INVALID''
      else (case signer of
        None \<Rightarrow> reject_run ''CoordSignerUnavailable''
      | Some sign \<Rightarrow>
          try_io (call (sign (sb_miner (pz_parsed prepared)) receipt))
            (\<lambda>_. bind_io (modify (\<lambda>s. s\<lparr>cs_metrics := (cs_metrics s)\<lparr>me_signerFailureCount := me_signerFailureCount (cs_metrics s) + 1\<rparr>\<rparr>))
              (\<lambda>_. reject_run ''SignerFailure''))
            (\<lambda>sig.
              if \<not> signed_ok sig then reject_run ''SIGNER_INVALID''
              else (let envelope = envelope_of cfg receipt sig screenerCount in
                bind_io (modify (record_receipt prepared receipt sig envelope)) (\<lambda>_. return_io (Accepted envelope))))))"

definition effective_screener_count :: "miner_counters \<Rightarrow> chain_reservation option \<Rightarrow> rat" where
  "effective_screener_count counters reservation = mc_screenersThisEpoch counters + in_flight counters reservation"

text \<open>The difficulty count and the work units it earns.\<close>

definition work_context :: "coordinator_config \<Rightarrow> int \<Rightarrow> int \<Rightarrow> string \<Rightarrow> rat \<Rightarrow> js_error + receipt_context" where
  "work_context cfg outcome solveIndex prev difficultyCount =
     bind_res (computeCoreTexWorkUnitsBps outcome (Some (numeric.Num difficultyCount)) (cf_workPolicy cfg)) (\<lambda>workUnitsBps.
     case cf_workPolicyHash cfg of
       None \<Rightarrow> Inl (TypeError ''workPolicyHash is undefined'')
     | Some h \<Rightarrow>
         bind_res (to_bigint difficultyCount) (\<lambda>count.
         Inr \<lparr> rx_solveIndex = solveIndex, rx_prevReceiptHash = prev, rx_workUnitsBps = workUnitsBps,
           rx_difficultyCount = count, rx_workPolicyHash = toLowerCase h \<rparr>))"

definition issue_receipt :: "coordinator_config \<Rightarrow> 'w chain_client \<Rightarrow> 'w receipt_signer option \<Rightarrow> prepared_submit \<Rightarrow> eval_result \<Rightarrow>
    accepted_eval \<Rightarrow> rat \<Rightarrow> int \<Rightarrow> string \<Rightarrow> rat \<Rightarrow> (submit_response, coordinator_state, 'w) run" where
  "issue_receipt cfg ch signer prepared evalResult r baselinePpm solveIndex prev screenerCount = with_state (\<lambda>s.
     bind_io (lift_res (effectiveScreenerThresholdPpm cfg s baselinePpm)) (\<lambda>liveThreshold.
     bind_io (lift_res (build_transition cfg s prepared evalResult r liveThreshold)) (\<lambda>outcome.
     case outcome of
       Inl code \<Rightarrow> reject_run code
     | Inr tr \<Rightarrow>
         bind_io (call (ch_getQualifiedScreenerPasses ch (cf_epoch cfg))) (\<lambda>difficultyCount.
         bind_io (lift_res (work_context cfg (outcome_of evalResult) solveIndex prev difficultyCount)) (\<lambda>rx.
         sign_and_record cfg signer prepared (receipt_of cfg prepared (outcome_of evalResult) r tr rx) screenerCount)))))"

text \<open>A reservation that has landed is dropped at once, also when the receipt is then refused.\<close>

definition after_slot :: "string \<Rightarrow> bool \<Rightarrow> coordinator_state \<Rightarrow> coordinator_state" where
  "after_slot miner landed s =
     (if landed then s\<lparr>cs_minerChainReservations := AList.delete miner (cs_minerChainReservations s)\<rparr> else s)"

definition take_slot :: "coordinator_config \<Rightarrow> 'w chain_client \<Rightarrow> 'w receipt_signer option \<Rightarrow> prepared_submit \<Rightarrow> eval_result \<Rightarrow>
    accepted_eval \<Rightarrow> rat \<Rightarrow> (submit_response, coordinator_state, 'w) run" where
  "take_slot cfg ch signer prepared evalResult r baselinePpm =
     (let miner = sb_miner (pz_parsed prepared) in
      bind_io (call (ch_getMinerCoreTexCounters ch (cf_epoch cfg) miner)) (\<lambda>counters. with_state (\<lambda>s.
      let reservation = map_of (cs_minerChainReservations s) miner;
          screenerCount = effective_screener_count counters reservation
      in case next_slot counters reservation of
           Busy \<Rightarrow> reject_run ''MinerReceiptChainBusy''
         | Slot solveIndex prev landed \<Rightarrow>
             bind_io (modify (after_slot miner landed)) (\<lambda>_.
             if outcome_of evalResult = OUTCOME_CORETEX_SCREENER_PASS \<and> screenerCount \<ge> or_else (cf_perMinerScreenerCap cfg) 50
             then reject_run ''CoreTexScreenerCapExceeded''
             else issue_receipt cfg ch signer prepared evalResult r baselinePpm solveIndex prev screenerCount))))"

definition finishSubmitAfterEvaluation :: "coordinator_config \<Rightarrow> 'w chain_client \<Rightarrow> 'w receipt_signer option \<Rightarrow> prepared_submit \<Rightarrow>
    eval_result \<Rightarrow> (submit_response, coordinator_state, 'w) run" where
  "finishSubmitAfterEvaluation cfg ch signer prepared evalResult = with_state (\<lambda>s.
     case check_eval cfg prepared evalResult of
       Inl code \<Rightarrow> reject_run code
     | Inr r \<Rightarrow>
         (case check_live_context s prepared of
            Inl code \<Rightarrow> reject_run code
          | Inr baselinePpm \<Rightarrow>
              try_io (call (ch_getV4CurrentEpoch ch))
                (\<lambda>_. bind_io (modify (unhealthy Epoch_check_failed)) (\<lambda>_. reject_run ''CoordUnhealthy''))
                (\<lambda>epochAtSigning.
                   if epochAtSigning \<noteq> cf_epoch cfg then reject_run ''CoordEpochMismatch''
                   else take_slot cfg ch signer prepared evalResult r baselinePpm)))"

section \<open>One submission\<close>

record scorer_request =
  sq_patchBytesHex :: string
  sq_parentStateRoot :: string
  sq_miner :: string
  sq_parentState :: cortex_state
  sq_screenerThresholdPpm :: rat

type_synonym 'w patch_scorer = "scorer_request \<Rightarrow> (eval_result, 'w) io"

definition scorer_request_of :: "prepared_submit \<Rightarrow> scorer_request" where
  "scorer_request_of prepared =
     \<lparr> sq_patchBytesHex = pz_canonicalHex prepared, sq_parentStateRoot = sb_parentStateRoot (pz_parsed prepared),
       sq_miner = sb_miner (pz_parsed prepared), sq_parentState = pz_parentStateSnapshot prepared,
       sq_screenerThresholdPpm = pz_screenerThresholdPpm prepared \<rparr>"

definition eval_failure :: "coordinator_state \<Rightarrow> coordinator_state" where
  "eval_failure s = s\<lparr>cs_metrics := (cs_metrics s)\<lparr>me_evalFailureCount := me_evalFailureCount (cs_metrics s) + 1\<rparr>\<rparr>"

text \<open>A submission that nothing else interleaves with.\<close>

definition processSubmit :: "coordinator_config \<Rightarrow> 'w chain_client \<Rightarrow> 'w receipt_signer option \<Rightarrow> 'w patch_scorer \<Rightarrow> js_value \<Rightarrow>
    (submit_response, coordinator_state, 'w) run" where
  "processSubmit cfg ch signer scorer body =
     bind_io (prepareSubmitEvaluation cfg ch (signer \<noteq> None) body) (\<lambda>outcome.
     case outcome of
       Inl response \<Rightarrow> return_io response
     | Inr prepared \<Rightarrow>
         try_io (call (scorer (scorer_request_of prepared)))
           (\<lambda>_. bind_io (modify eval_failure) (\<lambda>_. reject_run ''EvalFailure''))
           (\<lambda>evalResult. finishSubmitAfterEvaluation cfg ch signer prepared evalResult))"

section \<open>The queue\<close>

text \<open>\<open>body?.minerAddress\<close> when it is a string that is not empty\<close>

definition submit_miner :: "js_value \<Rightarrow> string option" where
  "submit_miner body =
     (case body of
        JObject obj \<Rightarrow>
          (case string_field obj ''minerAddress'' of
             Some m \<Rightarrow> if m = '''' then None else Some (toLowerCase m)
           | None \<Rightarrow> None)
      | _ \<Rightarrow> None)"

definition queue_guard :: "coordinator_config \<Rightarrow> string option \<Rightarrow> coordinator_state \<Rightarrow> string option" where
  "queue_guard cfg miner s =
     (if of_nat (cs_submitQueueDepth s) \<ge> or_else (cf_maxQueuedSubmits cfg) 16 then Some ''QueueFull''
      else (case miner of
        None \<Rightarrow> None
      | Some m \<Rightarrow>
          if of_int (or_else (map_of (cs_pendingSubmitsByMiner s) m) 0) \<ge> or_else (cf_maxQueuedSubmitsPerMiner cfg) 4
          then Some ''MinerQueueFull'' else None))"

definition enter_queue :: "string option \<Rightarrow> coordinator_state \<Rightarrow> coordinator_state" where
  "enter_queue miner s =
     (let s = s\<lparr>cs_submitQueueDepth := cs_submitQueueDepth s + 1\<rparr>; counts = cs_pendingSubmitsByMiner s in
      case miner of None \<Rightarrow> s | Some m \<Rightarrow> s\<lparr>cs_pendingSubmitsByMiner := AList.update m (or_else (map_of counts m) 0 + 1) counts\<rparr>)"

definition leave_queue :: "string option \<Rightarrow> coordinator_state \<Rightarrow> coordinator_state" where
  "leave_queue miner s =
     (let s = s\<lparr>cs_submitQueueDepth := cs_submitQueueDepth s - 1\<rparr>; counts = cs_pendingSubmitsByMiner s in
      case miner of
        None \<Rightarrow> s
      | Some m \<Rightarrow>
          (let left = or_else (map_of counts m) 1 - 1
           in s\<lparr>cs_pendingSubmitsByMiner := (if left \<le> 0 then AList.delete m counts else AList.update m left counts)\<rparr>))"

definition submit :: "coordinator_config \<Rightarrow> 'w chain_client \<Rightarrow> 'w receipt_signer option \<Rightarrow> 'w patch_scorer \<Rightarrow> bool \<Rightarrow> js_value \<Rightarrow>
    (submit_response, coordinator_state, 'w) run" where
  "submit cfg ch signer scorer aborted body = with_state (\<lambda>s.
     let miner = submit_miner body in
     case queue_guard cfg miner s of
       Some code \<Rightarrow> reject_run code
     | None \<Rightarrow>
         bind_io (modify (enter_queue miner)) (\<lambda>_.
         finally_io (if aborted then reject_run ''ClientDisconnected'' else processSubmit cfg ch signer scorer body)
           (leave_queue miner)))"

text \<open>Two entries for tests.\<close>

definition registerPending :: "pending_receipt \<Rightarrow> receipt_envelope \<Rightarrow> coordinator_state \<Rightarrow> coordinator_state" where
  "registerPending p envelope s =
     (let s = cacheReceipt envelope (pe_originalPatchHash p)
                (s\<lparr>cs_pendingByPatchHash := AList.update (toLowerCase (pe_signedPatchHash p)) p (cs_pendingByPatchHash s)\<rparr>)
      in s\<lparr>cs_submitDedup := AList.update (dedup_key (pe_parentRoot p) (pe_originalPatchHash p)) (pe_expiresAt p) (cs_submitDedup s)\<rparr>)"

definition forceUnhealthy :: "string \<Rightarrow> coordinator_state \<Rightarrow> coordinator_state" where
  "forceUnhealthy reason s = unhealthy (Forced reason) s"

end
