(* ===== verification/Coordinator_System.thy ===== *)
theory Coordinator_System
  imports Coordinator_Flow
begin

text \<open>
  The coordinator as a transition system: the phases of a submission interleaved with ticks of
  the watcher, freezes, baselines and lookups.  What every reachable state keeps, what a signed
  receipt stands for, and what a freeze, a reorganisation and an expiry do to it.
\<close>

section \<open>The confirmed chain\<close>

text \<open>The Merkle root of a state, as the coordinator writes it.\<close>

definition rooted :: "cortex_state \<Rightarrow> string \<Rightarrow> bool" where
  "rooted st r \<longleftrightarrow> (case root_hex st of Inl e \<Rightarrow> False | Inr h \<Rightarrow> toLowerCase h = r)"

text \<open>The states the parent of the epoch reaches over events that carry its pins: the number of
  transitions and the state after them.\<close>

inductive confirmed :: "coordinator_config \<Rightarrow> cortex_state \<Rightarrow> int \<Rightarrow> cortex_state \<Rightarrow> bool" for cfg parent where
  confirmed_parent: "confirmed cfg parent 0 parent"
| confirmed_event: "\<lbrakk>confirmed cfg parent n st; se_epoch ev = cf_epoch cfg; se_transitionIndex ev = n;
    rooted st (toLowerCase (se_parent ev)); hexEq (se_corpus ev) (pn_corpusRoot (cf_expectedEpochPins cfg));
    hexEq (se_coreV ev) (pn_coreVersionHash (cf_expectedEpochPins cfg));
    hexEq (se_frontier ev) (pn_activeFrontierRoot (cf_expectedEpochPins cfg));
    replay_event st ev = Inr (st', r)\<rbrakk> \<Longrightarrow> confirmed cfg parent (n + 1) st'"

definition follows :: "state_snapshot \<Rightarrow> state_snapshot \<Rightarrow> bool" where
  "follows a b \<longleftrightarrow> sn_transitionIndex b = sn_transitionIndex a + 1 \<and> sn_parent b = sn_root a"

definition snapshot_ok :: "coordinator_config \<Rightarrow> cortex_state \<Rightarrow> state_snapshot \<Rightarrow> bool" where
  "snapshot_ok cfg parent sn \<longleftrightarrow>
     rooted (sn_state sn) (sn_root sn) \<and> confirmed cfg parent (sn_transitionIndex sn + 1) (sn_state sn)"

definition tip_ok :: "coordinator_state \<Rightarrow> bool" where
  "tip_ok s \<longleftrightarrow>
     (if cs_snapshots s = []
      then cs_liveState s = cs_parentState s \<and> cs_liveRoot s = cs_parentRoot s \<and> cs_lastTransitionIndex s = - 1
      else (let sn = last (cs_snapshots s) in
        cs_liveState s = sn_state sn \<and> cs_liveRoot s = sn_root sn \<and> cs_lastTransitionIndex s = sn_transitionIndex sn))"

definition known_ok :: "coordinator_config \<Rightarrow> cortex_state \<Rightarrow> string \<times> cortex_state \<Rightarrow> bool" where
  "known_ok cfg parent = (\<lambda>(key, st). rooted st key \<and> (\<exists>n. confirmed cfg parent n st))"

definition core_ok :: "coordinator_config \<Rightarrow> coordinator_state \<Rightarrow> bool" where
  "core_ok cfg s \<longleftrightarrow>
     rooted (cs_parentState s) (cs_parentRoot s) \<and> tip_ok s \<and> length (cs_snapshots s) \<le> MAX_SNAPSHOTS \<and>
     list_all (snapshot_ok cfg (cs_parentState s)) (cs_snapshots s) \<and> successively follows (cs_snapshots s) \<and>
     list_all (known_ok cfg (cs_parentState s)) (cs_stateByRoot s)"

text \<open>The part of the state it is about.\<close>

definition chain_view :: "coordinator_state \<Rightarrow> cortex_state \<times> string \<times> cortex_state \<times> string \<times> int \<times>
    (string \<times> cortex_state) list \<times> state_snapshot list" where
  "chain_view s = (cs_liveState s, cs_liveRoot s, cs_parentState s, cs_parentRoot s, cs_lastTransitionIndex s,
     cs_stateByRoot s, cs_snapshots s)"

lemma core_ok_view: "chain_view s = chain_view t \<Longrightarrow> core_ok cfg s = core_ok cfg t"
  by (simp add: chain_view_def core_ok_def tip_ok_def)

lemma known_states_update: "list_all P al \<Longrightarrow> P (k, v) \<Longrightarrow> list_all P (AList.update k v al)"
  by (induction al) auto

lemma rooted_lower: "rooted st r \<Longrightarrow> toLowerCase r = r"
  by (auto simp: rooted_def split: sum.splits)

lemma core_live:
  assumes "core_ok cfg s"
  shows "rooted (cs_liveState s) (cs_liveRoot s)"
    and "confirmed cfg (cs_parentState s) (cs_lastTransitionIndex s + 1) (cs_liveState s)"
  using assms last_in_set [of "cs_snapshots s"]
  by (auto simp: core_ok_def tip_ok_def snapshot_ok_def list_all_iff Let_def split: if_splits intro: confirmed_parent)

section \<open>What changes the chain view\<close>

text \<open>Everything but events, rollbacks and the boot leaves it alone.\<close>

lemma view_simps [simp]:
  "chain_view (rejectSubmission code s) = chain_view s"
  "chain_view (unhealthy reason s) = chain_view s"
  "chain_view (count_parity_mismatch s) = chain_view s"
  "chain_view (epoch_mismatch v s) = chain_view s"
  "chain_view (watcher_fault s) = chain_view s"
  "chain_view (eval_failure s) = chain_view s"
  "chain_view (freeze s) = chain_view s"
  "chain_view (unfreeze s) = chain_view s"
  "chain_view (invalidateBaselines s) = chain_view s"
  "chain_view (auditReceiptCacheAgainstCanonicalRoots s) = chain_view s"
  "chain_view (reconcilePendingFromCanonicalSnapshots s) = chain_view s"
  "chain_view (markExpiredReceiptHash cfg n h s) = chain_view s"
  "chain_view (cacheReceipt e h s) = chain_view s"
  "chain_view (enter_queue m s) = chain_view s"
  "chain_view (leave_queue m s) = chain_view s"
  "chain_view (after_slot m' l s) = chain_view s"
  by (simp_all add: chain_view_def rejectSubmission_def unhealthy_def count_parity_mismatch_def epoch_mismatch_def
      watcher_fault_def eval_failure_def freeze_def unfreeze_def invalidateBaselines_def
      auditReceiptCacheAgainstCanonicalRoots_def reconcilePendingFromCanonicalSnapshots_def markExpiredReceiptHash_def
      cacheReceipt_def enter_queue_def leave_queue_def after_slot_def Let_def split: option.splits)

lemma view_update_simps [simp]:
  "chain_view (s\<lparr>cs_metrics := m\<rparr>) = chain_view s"
  "chain_view (s\<lparr>cs_signingEnabled := b\<rparr>) = chain_view s"
  "chain_view (s\<lparr>cs_unhealthyReason := u\<rparr>) = chain_view s"
  "chain_view (s\<lparr>cs_lastScannedBlock := n\<rparr>) = chain_view s"
  "chain_view (s\<lparr>cs_finalityLagBlocks := n\<rparr>) = chain_view s"
  "chain_view (s\<lparr>cs_replayFromBlock := n\<rparr>) = chain_view s"
  "chain_view (s\<lparr>cs_lastEpochMismatch := e\<rparr>) = chain_view s"
  "chain_view (s\<lparr>cs_chainLiveRoot := r\<rparr>) = chain_view s"
  "chain_view (s\<lparr>cs_chainTransitionCount := n\<rparr>) = chain_view s"
  "chain_view (s\<lparr>cs_baselineByRoot := bs\<rparr>) = chain_view s"
  "chain_view (s\<lparr>cs_currentBaselineVariancePpm := v\<rparr>) = chain_view s"
  "chain_view (s\<lparr>cs_minerChainReservations := rs\<rparr>) = chain_view s"
  "chain_view (s\<lparr>cs_submitDedup := ds\<rparr>) = chain_view s"
  "chain_view (s\<lparr>cs_pendingByPatchHash := ps\<rparr>) = chain_view s"
  "chain_view (s\<lparr>cs_receiptCache := c\<rparr>) = chain_view s"
  "chain_view (s\<lparr>cs_expiredReceiptTombstones := ts\<rparr>) = chain_view s"
  by (simp_all add: chain_view_def)

lemma view_gc_one [simp]:
  "chain_view (gc_pending_one cfg n s kp) = chain_view s" "chain_view (gc_receipt_one cfg n s he) = chain_view s"
  by (auto simp: gc_pending_one_def gc_receipt_one_def Let_def split: prod.splits option.splits)

lemma view_fold: "(\<And>s x. chain_view (f s x) = chain_view s) \<Longrightarrow> chain_view (foldl f s xs) = chain_view s"
  by (induction xs arbitrary: s) auto

lemma view_gc [simp]: "chain_view (gcPending cfg n s) = chain_view s"
  by (simp add: gcPending_def Let_def view_fold)

lemma view_parity [simp]: "chain_view (snd (parity_result r n s)) = chain_view s"
  by (simp add: parity_result_def Let_def)

lemma view_record [simp]: "chain_view (record_receipt p receipt sig e s) = chain_view s"
  by (simp add: record_receipt_def)

lemma view_lookup [simp]: "chain_view (snd (getReceiptByHash cfg n h s)) = chain_view s"
  by (simp add: getReceiptByHash_def Let_def split: option.splits)

section \<open>Events and rollbacks keep the chain\<close>

lemma core_ok_modify:
  "(\<And>s. chain_view (f s) = chain_view s) \<Longrightarrow> keeps (core_ok cfg) (modify f)"
  by (rule keeps_modify) (metis core_ok_view)

lemma push_snapshot_ok:
  assumes "list_all P snaps" and "P sn" and "successively R snaps" and "snaps \<noteq> [] \<longrightarrow> R (last snaps) sn"
    and "length snaps \<le> MAX_SNAPSHOTS"
  shows "list_all P (push_snapshot sn snaps)" and "successively R (push_snapshot sn snaps)"
    and "length (push_snapshot sn snaps) \<le> MAX_SNAPSHOTS"
    and "push_snapshot sn snaps \<noteq> []" and "last (push_snapshot sn snaps) = sn"
proof -
  have all: "list_all P (snaps @ [sn])" using assms by simp
  have succ: "successively R (snaps @ [sn])" using assms by (auto simp: successively_append_iff)
  have tl: "snaps @ [sn] = hd (snaps @ [sn]) # tl (snaps @ [sn])" by simp
  have "list_all P (tl (snaps @ [sn])) \<and> successively R (tl (snaps @ [sn]))"
    using all succ by (cases snaps) (auto simp: successively_Cons)
  then show "list_all P (push_snapshot sn snaps)" "successively R (push_snapshot sn snaps)"
    using all succ by (auto simp: push_snapshot_def Let_def)
  show "length (push_snapshot sn snaps) \<le> MAX_SNAPSHOTS" using assms by (simp add: push_snapshot_def Let_def)
  have long: "MAX_SNAPSHOTS < length snaps + 1 \<Longrightarrow> snaps \<noteq> []" by (auto simp: MAX_SNAPSHOTS_def)
  then show "push_snapshot sn snaps \<noteq> []" "last (push_snapshot sn snaps) = sn"
    by (auto simp: push_snapshot_def Let_def last_tl)
qed

lemma replay_event_iff:
  "replay_event st ev = Inr (st', r) \<longleftrightarrow>
     hexEq (computePatchHash (hexToBytes_padded (se_compactPatchBytes ev))) (se_patchHash ev) \<and>
     (\<exists>decoded. decodePatch (hexToBytes_padded (se_compactPatchBytes ev)) = Inr decoded \<and>
        applyPatch st decoded True = Inr (Inr st') \<and> se_wordCount ev = of_int (wordCount decoded)) \<and>
     rooted st' r \<and> r = toLowerCase (se_newRoot ev)"
proof -
  have last: "bind_res (root_hex st'') (\<lambda>h. let newRoot = toLowerCase h in
      if newRoot \<noteq> toLowerCase (se_newRoot ev) then Inl (Error ''watcher: newStateRoot mismatch'') else Inr (st'', newRoot)) = Inr (st', r) \<longleftrightarrow>
    st'' = st' \<and> rooted st' r \<and> r = toLowerCase (se_newRoot ev)" for st''
    by (cases "root_hex st''") (auto simp: rooted_def Let_def)
  have next_part: "(case next of Inl code \<Rightarrow> Inl (Error ''watcher: applyPatch failed'')
      | Inr state \<Rightarrow> if se_wordCount ev \<noteq> of_int (wordCount d) then Inl (Error ''watcher: event wordCount'')
          else bind_res (root_hex state) (\<lambda>h. let newRoot = toLowerCase h in
            if newRoot \<noteq> toLowerCase (se_newRoot ev) then Inl (Error ''watcher: newStateRoot mismatch'') else Inr (state, newRoot))) = Inr (st', r) \<longleftrightarrow>
    next = Inr st' \<and> se_wordCount ev = of_int (wordCount d) \<and> rooted st' r \<and> r = toLowerCase (se_newRoot ev)" for "next" d
    by (cases "next") (auto simp: last)
  show ?thesis unfolding replay_event_def by (auto simp: bind_res_eq_Inr next_part hexEq_def)
qed

lemma replay_event_rooted:
  assumes "replay_event st ev = Inr (st', r)"
  shows "rooted st' r" and "r = toLowerCase (se_newRoot ev)"
  using assms unfolding replay_event_iff by blast+

lemma check_pinsD:
  assumes "check_pins cfg s ev = Inr u"
  shows "se_epoch ev = cf_epoch cfg" and "se_transitionIndex ev = cs_lastTransitionIndex s + 1"
    and "toLowerCase (se_parent ev) = toLowerCase (cs_liveRoot s)"
    and "hexEq (se_coreV ev) (pn_coreVersionHash (cf_expectedEpochPins cfg))"
    and "hexEq (se_corpus ev) (pn_corpusRoot (cf_expectedEpochPins cfg))"
    and "hexEq (se_frontier ev) (pn_activeFrontierRoot (cf_expectedEpochPins cfg))"
  using assms by (simp_all add: check_pins_def hexEq_def Let_def split: if_splits)

lemma applyChainEvent_core_ok:
  assumes ok: "core_ok cfg s" and run: "applyChainEvent cfg ev s = Inr s'"
  shows "core_ok cfg s'"
proof -
  from run obtain u st r where pins: "check_pins cfg s ev = Inr u" and rep: "replay_event (cs_liveState s) ev = Inr (st, r)"
    and s': "s' = commit_event s ev st r" by (auto simp: applyChainEvent_def bind_res_eq_Inr)
  note live = core_live [OF ok] and check = check_pinsD [OF pins] and rooted = replay_event_rooted [OF rep]
  have parent: "toLowerCase (se_parent ev) = cs_liveRoot s" using check(3) rooted_lower [OF live(1)] by simp
  have conf: "confirmed cfg (cs_parentState s) (se_transitionIndex ev + 1) st"
    using confirmed_event [OF live(2) check(1,2) _ check(5,4,6) rep] live(1) parent check(2) by simp
  define sn where "sn = \<lparr> sn_transitionIndex = se_transitionIndex ev, sn_blockNumber = se_blockNumber ev,
     sn_blockHash = se_blockHash ev, sn_parent = toLowerCase (se_parent ev), sn_root = r,
     sn_patchHash = toLowerCase (se_patchHash ev), sn_state = st \<rparr>"
  have new: "snapshot_ok cfg (cs_parentState s) sn" using rooted(1) conf by (simp add: snapshot_ok_def sn_def)
  have "cs_snapshots s \<noteq> [] \<longrightarrow> follows (last (cs_snapshots s)) sn"
    using ok check(2) parent by (auto simp: follows_def sn_def core_ok_def tip_ok_def Let_def)
  note push_sn = push_snapshot_ok [where P = "snapshot_ok cfg (cs_parentState s)" and R = follows, OF _ new _ this]
  have push: "list_all (snapshot_ok cfg (cs_parentState s)) (push_snapshot sn (cs_snapshots s))"
    "successively follows (push_snapshot sn (cs_snapshots s))" "length (push_snapshot sn (cs_snapshots s)) \<le> MAX_SNAPSHOTS"
    "push_snapshot sn (cs_snapshots s) \<noteq> []" "last (push_snapshot sn (cs_snapshots s)) = sn"
    using ok push_sn by (simp_all add: core_ok_def)
  have "known_ok cfg (cs_parentState s) (r, st)" using rooted(1) conf by (auto simp: known_ok_def)
  then have known: "list_all (known_ok cfg (cs_parentState s)) (AList.update r st (cs_stateByRoot s))"
    using ok by (auto simp: core_ok_def intro: known_states_update)
  have fields: "cs_parentState s' = cs_parentState s" "cs_parentRoot s' = cs_parentRoot s" "cs_liveState s' = st" "cs_liveRoot s' = r"
    "cs_lastTransitionIndex s' = se_transitionIndex ev" "cs_stateByRoot s' = AList.update r st (cs_stateByRoot s)"
    "cs_snapshots s' = push_snapshot sn (cs_snapshots s)"
    by (simp_all add: s' commit_event_def sn_def Let_def)
  have "rooted (cs_parentState s) (cs_parentRoot s)" using ok by (simp add: core_ok_def)
  then show ?thesis unfolding core_ok_def tip_ok_def fields using push known by (simp add: sn_def)
qed

lemma successively_take: "successively R xs \<Longrightarrow> successively R (take n xs)"
  using successively_append_iff [of R "take n xs" "drop n xs"] by simp

lemma rollback_core_ok:
  assumes ok: "core_ok cfg s" and "keep \<le> length (cs_snapshots s)"
  shows "core_ok cfg (rollback keep s)"
proof (cases "keep > 0")
  case True
  define sn where "sn = cs_snapshots s ! (keep - 1)"
  from True assms(2) have "sn \<in> set (cs_snapshots s)" by (auto simp: sn_def intro!: nth_mem)
  then have "rooted (sn_state sn) (sn_root sn)" using ok by (auto simp: core_ok_def list_all_iff snapshot_ok_def)
  then have lower: "toLowerCase (sn_root sn) = sn_root sn" by (rule rooted_lower)
  have "length (take keep (cs_snapshots s)) = keep" using assms(2) by simp
  with True have last: "take keep (cs_snapshots s) \<noteq> []" "last (take keep (cs_snapshots s)) = sn"
    by (simp_all only: last_conv_nth sn_def length_greater_0_conv [symmetric]) simp_all
  have fields: "cs_snapshots (rollback keep s) = take keep (cs_snapshots s)" "cs_liveState (rollback keep s) = sn_state sn"
    "cs_liveRoot (rollback keep s) = sn_root sn" "cs_lastTransitionIndex (rollback keep s) = sn_transitionIndex sn"
    "cs_parentState (rollback keep s) = cs_parentState s" "cs_parentRoot (rollback keep s) = cs_parentRoot s"
    "cs_stateByRoot (rollback keep s) = cs_stateByRoot s"
    using True lower [unfolded sn_def] by (simp_all add: rollback_def sn_def Let_def)
  have "list_all (snapshot_ok cfg (cs_parentState s)) (take keep (cs_snapshots s))"
    using ok by (auto simp: core_ok_def list_all_iff dest: in_set_takeD)
  then show ?thesis using ok last unfolding core_ok_def tip_ok_def fields by (simp add: successively_take min_def)
next
  case False
  have "toLowerCase (cs_parentRoot s) = cs_parentRoot s" using ok by (auto simp: core_ok_def intro: rooted_lower)
  then show ?thesis using False ok by (simp add: core_ok_def tip_ok_def rollback_def)
qed

lemma prune_states_core_ok: "core_ok cfg s \<Longrightarrow> core_ok cfg (prune_states s)"
  by (auto simp: core_ok_def tip_ok_def prune_states_def Let_def list_all_iff)

lemma find_canonical_bound: "find_canonical ch snaps w = Some (Inr keep, w') \<Longrightarrow> keep \<le> length snaps"
  by (induction snaps arbitrary: w) (auto simp: bind_io_Inr split: if_splits, meson le_SucI)

lemma handleReorg_core_ok: "keeps (core_ok cfg) (handleReorg ch)"
proof -
  have step: "core_ok cfg (let s = auditReceiptCacheAgainstCanonicalRoots (reconcilePendingFromCanonicalSnapshots (prune_states (rollback keep s)))
       in s\<lparr>cs_signingEnabled := False, cs_unhealthyReason := Some Reorg_reconciling, cs_metrics := f s\<rparr>)"
    if "core_ok cfg s" and "keep \<le> length (cs_snapshots s)" for s keep f
    using prune_states_core_ok [OF rollback_core_ok [OF that]]
    by (elim core_ok_view [THEN iffD1, rotated]) (simp add: Let_def)
  show ?thesis
    unfolding keeps_def
  proof (intro allI impI)
    fix s w r s' w'
    assume run: "handleReorg ch (s, w) = Some (r, s', w')" and ok: "core_ok cfg s"
    obtain a v where find: "find_canonical ch (rev (cs_snapshots s)) w = Some (a, v)"
      using run by (cases "find_canonical ch (rev (cs_snapshots s)) w")
        (auto simp: handleReorg_def with_state_def bind_io_def call_def)
    show "core_ok cfg s'"
    proof (cases a)
      case (Inl e)
      then show ?thesis using run find ok by (simp add: handleReorg_def with_state_def bind_io_def call_def)
    next
      case (Inr keep)
      then have "keep \<le> length (cs_snapshots s)" using find_canonical_bound [of ch "rev (cs_snapshots s)" w keep v] find by simp
      then show ?thesis using run find Inr step [OF ok, of keep]
        by (auto simp: handleReorg_def with_state_def bind_io_def call_def modify_def return_io_def)
    qed
  qed
qed

section \<open>Runs\<close>

lemma keeps_view: "(\<And>v. keeps (\<lambda>s. chain_view s = v) m) \<Longrightarrow> keeps (core_ok cfg) m"
  unfolding keeps_def by (metis core_ok_view)

lemma apply_events_core_ok: "keeps (core_ok cfg) (apply_events cfg events)"
  unfolding apply_events_def by (intro keeps_for_each keeps_modify_res) (rule applyChainEvent_core_ok)

lemmas run_defs = parityCheck_def checkEpochStillCurrent_def gc_now_def now_sec_def reject_run_def

lemma parityCheck_core_ok: "keeps (core_ok cfg) (parityCheck cfg' ch)"
  unfolding parityCheck_def
  by (intro keeps_bind keeps_call keeps_with_state keeps_return core_ok_modify) (auto intro!: keeps_bind keeps_with_state keeps_return core_ok_modify)

lemma watch_core_ok: "keeps (core_ok cfg) (watch cfg ch)"
  unfolding watch_def checkEpochStillCurrent_def gc_now_def now_sec_def detect_reorg_def scan_events_def
  by (auto intro!: keeps_rules core_ok_modify handleReorg_core_ok apply_events_core_ok parityCheck_core_ok
      simp: Let_def intro: core_ok_view [THEN iffD1, rotated])

lemma tick_core_ok: "keeps (core_ok cfg) (tick cfg ch)"
  unfolding tick_def by (auto intro!: keeps_rules core_ok_modify watch_core_ok)

text \<open>The two phases of a submission do not touch the confirmed chain.\<close>

lemma keeps_view_modify: "(\<And>s. chain_view (f s) = chain_view s) \<Longrightarrow> keeps (\<lambda>s. chain_view s = v) (modify f)"
  by (rule keeps_modify) simp

lemma reject_run_view: "keeps (\<lambda>s. chain_view s = v) (reject_run code)"
  unfolding reject_run_def by (intro keeps_bind keeps_view_modify keeps_return) simp

lemma prepare_view: "keeps (\<lambda>s. chain_view s = v) (prepareSubmitEvaluation cfg ch b body)"
  unfolding prepareSubmitEvaluation_def prepare_with_chain_def checkEpochStillCurrent_def now_sec_def
  by (auto intro!: keeps_rules keeps_view_modify reject_run_view simp: Let_def split: option.splits sum.splits)

lemma sign_and_record_view: "keeps (\<lambda>s. chain_view s = v) (sign_and_record cfg signer prepared receipt n)"
  unfolding sign_and_record_def
  by (auto intro!: keeps_rules keeps_view_modify reject_run_view simp: Let_def split: option.splits)

lemma issue_receipt_view: "keeps (\<lambda>s. chain_view s = v) (issue_receipt cfg ch signer prepared evalResult r b i prev n)"
  unfolding issue_receipt_def
  by (auto intro!: keeps_rules sign_and_record_view reject_run_view split: sum.splits)

lemma take_slot_view: "keeps (\<lambda>s. chain_view s = v) (take_slot cfg ch signer prepared evalResult r b)"
  unfolding take_slot_def
  by (auto intro!: keeps_rules keeps_view_modify issue_receipt_view reject_run_view simp: Let_def split: chain_slot.splits)

lemma finish_view: "keeps (\<lambda>s. chain_view s = v) (finishSubmitAfterEvaluation cfg ch signer prepared evalResult)"
  unfolding finishSubmitAfterEvaluation_def
  by (auto intro!: keeps_rules keeps_view_modify take_slot_view reject_run_view split: sum.splits)

lemma setRecomputedBaseline_view: "keeps (\<lambda>s. chain_view s = v) (setRecomputedBaseline r b var)"
  unfolding setRecomputedBaseline_def
  by (auto intro!: keeps_rules keeps_view_modify split: option.splits)

lemma getStatus_view: "keeps (\<lambda>s. chain_view s = v) (getStatus cfg ch q)"
  unfolding getStatus_def checkEpochStillCurrent_def
  by (auto intro!: keeps_rules keeps_view_modify split: list.split)

section \<open>The boot\<close>

lemma check_that_Inr: "check_that ok m w = Some (Inr u, w') \<longleftrightarrow> ok \<and> w' = w"
  by (simp add: check_that_def)

lemma modify_res_Inr: "modify_res f (s, w) = Some (Inr u, t, w') \<longleftrightarrow> f s = Inr t \<and> w' = w"
  by (auto simp: modify_res_def split: sum.splits)

lemma call_Inr: "call m (s, w) = Some (Inr x, t, w') \<longleftrightarrow> m w = Some (Inr x, w') \<and> t = s"
  by (auto simp: call_def)

lemma boot_gates_rooted: "ensures (boot_gates cfg ch loader) (\<lambda>(pinnedRoot, parent). rooted parent (toLowerCase pinnedRoot))"
proof -
  have "ensures (load_parent loader pinnedRoot) (\<lambda>(pinnedRoot, parent). rooted parent (toLowerCase pinnedRoot))" for pinnedRoot
    unfolding load_parent_def
    by (rule ensures_bind, rule ensures_lift) (auto simp: ensures_def bind_io_Inr check_that_Inr rooted_def hexEq_def)
  then show ?thesis unfolding boot_gates_def by (intro ensures_bind)
qed

lemma adopt_parent_core_ok:
  assumes adopt: "adopt_parent cfg pinnedRoot parent (new_coordinator cfg) = Inr s" and root: "rooted parent (toLowerCase pinnedRoot)"
  shows "core_ok cfg s"
proof -
  from adopt have "cs_parentState s = parent" "cs_parentRoot s = toLowerCase pinnedRoot" "cs_liveState s = parent"
    "cs_liveRoot s = toLowerCase pinnedRoot" "cs_lastTransitionIndex s = - 1" "cs_snapshots s = []"
    "cs_stateByRoot s = [(toLowerCase pinnedRoot, parent)]"
    by (simp_all add: adopt_parent_def bind_res_eq_Inr Let_def new_coordinator_def)
      (auto simp only: coordinator_state.simps)
  then show ?thesis using root confirmed_parent [of cfg parent] by (auto simp: core_ok_def tip_ok_def known_ok_def)
qed

lemma replay_chain_core_ok: "keeps (core_ok cfg) (replay_chain cfg ch)"
  unfolding replay_chain_def
  by (auto intro!: keeps_rules core_ok_modify apply_events_core_ok parityCheck_core_ok simp: Let_def)

lemma boot_core_ok:
  assumes run: "boot cfg ch loader (new_coordinator cfg, w) = Some (Inr u, s, w')"
  shows "core_ok cfg s"
proof -
  from run obtain pinnedRoot parent s0 v where gates: "boot_gates cfg ch loader w = Some (Inr (pinnedRoot, parent), v)"
    and adopt: "adopt_parent cfg pinnedRoot parent (new_coordinator cfg) = Inr s0"
    and run: "replay_chain cfg ch (s0, v) = Some (Inr u, s, w')"
    by (auto simp: boot_def bind_io_Inr call_Inr modify_res_Inr split: prod.splits)
  have "rooted parent (toLowerCase pinnedRoot)" using ensuresD [OF boot_gates_rooted gates] by simp
  from adopt_parent_core_ok [OF adopt this] keepsD [OF replay_chain_core_ok run] show ?thesis by simp
qed

section \<open>What an accepted submission went through\<close>

lemma modify_Some: "modify f (s, w) = Some (r, t, w') \<longleftrightarrow> r = Inr () \<and> t = f s \<and> w' = w"
  by (auto simp: modify_def)

lemma with_state_apply: "with_state f (s, w) = f s (s, w)"
  by (simp add: with_state_def)

lemma reject_run_Some: "reject_run code (s, w) = Some (r, t, w') \<longleftrightarrow> r = Inr (Rejected code) \<and> t = rejectSubmission code s \<and> w' = w"
  by (auto simp: reject_run_def bind_io_def modify_def return_io_def)

lemma lift_Inr: "lift_res r w = Some (Inr x, w') \<longleftrightarrow> r = Inr x \<and> w' = w"
  by auto

lemmas run_simps = lift_Inr bind_io_Inr try_io_Inr call_Inr modify_Some with_state_apply reject_run_Some

definition signed_with :: "coordinator_config \<Rightarrow> 'w receipt_signer option \<Rightarrow> prepared_submit \<Rightarrow> receipt_payload \<Rightarrow> rat \<Rightarrow>
    receipt_envelope \<Rightarrow> coordinator_state \<Rightarrow> coordinator_state \<Rightarrow> bool" where
  "signed_with cfg signer prepared receipt n envelope s s' \<longleftrightarrow>
     (\<exists>sign sig w w'. signer = Some sign \<and> sign (sb_miner (pz_parsed prepared)) receipt w = Some (Inr sig, w') \<and> signed_ok sig \<and>
        envelope = envelope_of cfg receipt sig n \<and> s' = record_receipt prepared receipt sig envelope s)"

lemma sign_and_record_accepted:
  assumes "sign_and_record cfg signer prepared receipt n (s, w) = Some (Inr (Accepted envelope), s', w')"
  shows "signed_with cfg signer prepared receipt n envelope s s'"
  using assms unfolding signed_with_def
  by (auto simp: sign_and_record_def run_simps Let_def split: option.splits if_split_asm)

lemma issue_receipt_accepted:
  assumes "issue_receipt cfg ch signer prepared evalResult r b i prev n (s, w) = Some (Inr (Accepted envelope), s', w')"
  obtains threshold tr rx difficulty where "effectiveScreenerThresholdPpm cfg s b = Inr threshold"
    and "build_transition cfg s prepared evalResult r threshold = Inr (Inr tr)"
    and "work_context cfg (outcome_of evalResult) i prev difficulty = Inr rx"
    and "signed_with cfg signer prepared (receipt_of cfg prepared (outcome_of evalResult) r tr rx) n envelope s s'"
  using assms unfolding issue_receipt_def
  by (clarsimp simp: run_simps simp del: lift_res_eq) (auto simp: run_simps simp del: lift_res_eq split: sum.split_asm dest!: sign_and_record_accepted)

lemma take_slot_accepted:
  assumes "take_slot cfg ch signer prepared evalResult r b (s, w) = Some (Inr (Accepted envelope), s', w')"
  obtains counters i prev landed v v' u u' where
    "ch_getMinerCoreTexCounters ch (cf_epoch cfg) (sb_miner (pz_parsed prepared)) v = Some (Inr counters, v')"
    and "next_slot counters (map_of (cs_minerChainReservations s) (sb_miner (pz_parsed prepared))) = Slot i prev landed"
    and "outcome_of evalResult = OUTCOME_CORETEX_SCREENER_PASS \<longrightarrow>
      effective_screener_count counters (map_of (cs_minerChainReservations s) (sb_miner (pz_parsed prepared)))
        < or_else (cf_perMinerScreenerCap cfg) 50"
    and "issue_receipt cfg ch signer prepared evalResult r b i prev
      (effective_screener_count counters (map_of (cs_minerChainReservations s) (sb_miner (pz_parsed prepared))))
      (after_slot (sb_miner (pz_parsed prepared)) landed s, u) = Some (Inr (Accepted envelope), s', u')"
proof -
  define miner where "miner = sb_miner (pz_parsed prepared)"
  from assms obtain counters v where counters: "ch_getMinerCoreTexCounters ch (cf_epoch cfg) miner w = Some (Inr counters, v)"
    and run: "(case next_slot counters (map_of (cs_minerChainReservations s) miner) of
           Busy \<Rightarrow> reject_run ''MinerReceiptChainBusy''
         | Slot i prev landed \<Rightarrow>
             bind_io (modify (after_slot miner landed)) (\<lambda>_.
             if outcome_of evalResult = OUTCOME_CORETEX_SCREENER_PASS \<and>
               effective_screener_count counters (map_of (cs_minerChainReservations s) miner) \<ge> or_else (cf_perMinerScreenerCap cfg) 50
             then reject_run ''CoreTexScreenerCapExceeded''
             else issue_receipt cfg ch signer prepared evalResult r b i prev
               (effective_screener_count counters (map_of (cs_minerChainReservations s) miner)))) (s, v) = Some (Inr (Accepted envelope), s', w')"
    unfolding take_slot_def Let_def miner_def [symmetric] by (auto simp: run_simps)
  show thesis
  proof (cases "next_slot counters (map_of (cs_minerChainReservations s) miner)")
    case Busy
    then show ?thesis using run by (simp add: run_simps)
  next
    case (Slot i prev landed)
    then show ?thesis using run counters that [of w counters v i prev landed v w']
      by (auto simp: run_simps miner_def not_le split: if_split_asm)
  qed
qed

lemma finish_accepted:
  assumes "finishSubmitAfterEvaluation cfg ch signer prepared evalResult (s, w) = Some (Inr (Accepted envelope), s', w')"
  obtains r baseline v v' u u' where "check_eval cfg prepared evalResult = Inr r"
    and "check_live_context s prepared = Inr baseline"
    and "ch_getV4CurrentEpoch ch v = Some (Inr (cf_epoch cfg), v')"
    and "take_slot cfg ch signer prepared evalResult r baseline (s, u) = Some (Inr (Accepted envelope), s', u')"
proof -
  from assms obtain r baseline where check: "check_eval cfg prepared evalResult = Inr r" "check_live_context s prepared = Inr baseline"
    by (auto simp: finishSubmitAfterEvaluation_def run_simps split: sum.split_asm)
  with assms that show thesis
    by (clarsimp simp: finishSubmitAfterEvaluation_def run_simps) (auto simp: run_simps simp del: lift_res_eq split: if_split_asm)
qed

lemma prepare_with_chain_accepted:
  assumes "prepare_with_chain cfg b now body (s, w) = Some (Inr (Inr prepared), s', w')"
  obtains threshold where "prepare_patch cfg now threshold body s' = Inr (Inr prepared)"
    and "cs_signingEnabled s'" and "effectiveBaselinePpm s' \<noteq> None" and "s' = s"
proof -
  from assms obtain baseline where ok: "cs_signingEnabled s" "effectiveBaselinePpm s = Some baseline"
    by (auto simp: prepare_with_chain_def run_simps Let_def split: if_split_asm option.split_asm)
  with assms that show thesis
    by (clarsimp simp: prepare_with_chain_def run_simps Let_def simp del: lift_res_eq split: if_split_asm)
      (auto simp: run_simps split: sum.split_asm)
qed

lemma prepare_accepted:
  assumes "prepareSubmitEvaluation cfg ch b body (s, w) = Some (Inr (Inr prepared), s', w')"
  obtains now threshold where "prepare_patch cfg now threshold body s' = Inr (Inr prepared)"
    and "cs_signingEnabled s'" and "effectiveBaselinePpm s' \<noteq> None" and "\<not> cs_frozen (gcPending cfg now s)"
  using assms unfolding prepareSubmitEvaluation_def now_sec_def
  by (clarsimp simp: run_simps Let_def split: if_split_asm)
    (auto simp: run_simps split: if_split_asm elim!: prepare_with_chain_accepted)

section \<open>The transition system\<close>

datatype phase = Idle | Evaluating prepared_submit

text \<open>One step: a phase of a submission or an operation that may come between them.  The world
  changes freely between two steps.\<close>

inductive coord_step :: "coordinator_config \<Rightarrow> 'w chain_client \<Rightarrow> 'w receipt_signer option \<Rightarrow>
    coordinator_state \<times> phase \<Rightarrow> coordinator_state \<times> phase \<Rightarrow> bool" for cfg ch signer where
  step_tick: "tick cfg ch (s, w) = Some (r, s', w') \<Longrightarrow> coord_step cfg ch signer (s, ph) (s', ph)"
| step_prepared: "prepareSubmitEvaluation cfg ch (signer \<noteq> None) body (s, w) = Some (Inr (Inr prepared), s', w') \<Longrightarrow>
    coord_step cfg ch signer (s, Idle) (s', Evaluating prepared)"
| step_refused: "\<lbrakk>prepareSubmitEvaluation cfg ch (signer \<noteq> None) body (s, w) = Some (r, s', w'); \<nexists>prepared. r = Inr (Inr prepared)\<rbrakk> \<Longrightarrow>
    coord_step cfg ch signer (s, Idle) (s', Idle)"
| step_eval_failed: "coord_step cfg ch signer (s, Evaluating prepared) (rejectSubmission ''EvalFailure'' (eval_failure s), Idle)"
| step_finished: "finishSubmitAfterEvaluation cfg ch signer prepared evalResult (s, w) = Some (r, s', w') \<Longrightarrow>
    coord_step cfg ch signer (s, Evaluating prepared) (s', Idle)"
| step_freeze: "coord_step cfg ch signer (s, ph) (freeze s, ph)"
| step_unfreeze: "coord_step cfg ch signer (s, ph) (unfreeze s, ph)"
| step_baseline: "setRecomputedBaseline r b v (s, w :: 'w) = Some (res, s', w') \<Longrightarrow> coord_step cfg ch signer (s, ph) (s', ph)"
| step_invalidate: "coord_step cfg ch signer (s, ph) (invalidateBaselines s, ph)"
| step_lookup: "coord_step cfg ch signer (s, ph) (snd (getReceiptByHash cfg now h s), ph)"
| step_status: "getStatus cfg ch q (s, w) = Some (res', s', w') \<Longrightarrow> coord_step cfg ch signer (s, ph) (s', ph)"
| step_enter: "queue_guard cfg miner s = None \<Longrightarrow> coord_step cfg ch signer (s, ph) (enter_queue miner s, ph)"
| step_overflow: "queue_guard cfg miner s = Some code \<Longrightarrow> coord_step cfg ch signer (s, ph) (rejectSubmission code s, ph)"
| step_leave: "coord_step cfg ch signer (s, ph) (leave_queue miner s, ph)"

inductive coord_reachable :: "coordinator_config \<Rightarrow> 'w chain_client \<Rightarrow> 'w receipt_signer option \<Rightarrow>
    (string \<Rightarrow> (cortex_state, 'w) io) \<Rightarrow> coordinator_state \<times> phase \<Rightarrow> bool" for cfg ch signer loader where
  reach_boot: "boot cfg ch loader (new_coordinator cfg, w) = Some (Inr u, s, w') \<Longrightarrow> coord_reachable cfg ch signer loader (s, Idle)"
| reach_step: "coord_reachable cfg ch signer loader c \<Longrightarrow> coord_step cfg ch signer c c' \<Longrightarrow> coord_reachable cfg ch signer loader c'"

inductive_cases coord_stepE: "coord_step cfg ch signer (s, ph) (s', ph')"

text \<open>What a prepared submission carries.\<close>

definition prepared_ok :: "prepared_submit \<Rightarrow> bool" where
  "prepared_ok p \<longleftrightarrow>
     rooted (pz_parentStateSnapshot p) (pz_rootAtEvaluation p) \<and>
     sb_parentStateRoot (pz_parsed p) = pz_rootAtEvaluation p \<and>
     decodePatch (sb_patchBytes (pz_parsed p)) = Inr (pz_decoded p) \<and>
     toLowerCase (bytesToHex (parentStateRoot (pz_decoded p))) = pz_rootAtEvaluation p \<and>
     (\<exists>st. applyPatch (pz_parentStateSnapshot p) (pz_decoded p) True = Inr (Inr st)) \<and>
     (\<exists>bs. encodePatch ((pz_decoded p)\<lparr>scoreDelta := 0\<rparr>) = Inr bs \<and> pz_canonicalHex p = bytesToHex bs \<and>
        pz_originalPatchHash p = toLowerCase (computePatchHash bs)) \<and>
     pz_dedupKey p = pz_rootAtEvaluation p @ ''|'' @ pz_originalPatchHash p"

lemma prepare_patch_ok:
  assumes "prepare_patch cfg now threshold body s = Inr (Inr prepared)"
  shows "\<exists>st. applyPatch (cs_liveState s) (pz_decoded prepared) True = Inr (Inr st)"
    and "map_of (cs_submitDedup s) (pz_dedupKey prepared) = None" and "pz_freezeGeneration prepared = cs_freezeGeneration s"
    and "pz_screenerThresholdPpm prepared = threshold" and "pz_now prepared = now"
    and "pz_rootAtEvaluation prepared = toLowerCase (cs_liveRoot s)" and "pz_parentStateSnapshot prepared = cs_liveState s"
    and "rooted (cs_liveState s) (cs_liveRoot s) \<Longrightarrow> prepared_ok prepared"
proof -
  from assms obtain parsed decoded st bs where
    parsed: "parseSubmitBody body (maxPatchBytes cfg) = Inr parsed" "sb_parentStateRoot parsed = toLowerCase (cs_liveRoot s)"
    and decoded: "decodePatch (sb_patchBytes parsed) = Inr decoded"
      "toLowerCase (bytesToHex (parentStateRoot decoded)) = sb_parentStateRoot parsed"
    and applied: "applyPatch (cs_liveState s) decoded True = Inr (Inr st)"
    and bs: "encodePatch (decoded\<lparr>scoreDelta := 0\<rparr>) = Inr bs"
    and dedup: "map_of (cs_submitDedup s) (sb_parentStateRoot parsed @ ''|'' @ toLowerCase (computePatchHash bs)) = None"
    and prepared: "prepared = \<lparr> pz_now = now, pz_parsed = parsed, pz_decoded = decoded,
       pz_canonicalHex = toLowerCase (bytesToHex bs), pz_originalPatchHash = toLowerCase (computePatchHash bs),
       pz_dedupKey = sb_parentStateRoot parsed @ ''|'' @ toLowerCase (computePatchHash bs), pz_screenerThresholdPpm = threshold,
       pz_rootAtEvaluation = toLowerCase (cs_liveRoot s),
       pz_parentStateSnapshot = \<lparr> words = words (cs_liveState s) \<rparr>, pz_freezeGeneration = cs_freezeGeneration s \<rparr>"
    unfolding prepare_patch_def
    by (clarsimp split: sum.split_asm if_split_asm, clarsimp simp: bind_res_eq_Inr)
      (auto simp: bind_res_eq_Inr Let_def split: sum.split_asm if_split_asm)
  have same: "\<lparr> words = words (cs_liveState s) \<rparr> = cs_liveState s" by simp
  show "\<exists>st. applyPatch (cs_liveState s) (pz_decoded prepared) True = Inr (Inr st)"
    "map_of (cs_submitDedup s) (pz_dedupKey prepared) = None" "pz_freezeGeneration prepared = cs_freezeGeneration s"
    "pz_screenerThresholdPpm prepared = threshold" "pz_now prepared = now"
    "pz_rootAtEvaluation prepared = toLowerCase (cs_liveRoot s)" "pz_parentStateSnapshot prepared = cs_liveState s"
    using applied dedup by (simp_all add: prepared same)
  show "prepared_ok prepared" if "rooted (cs_liveState s) (cs_liveRoot s)"
    using that parsed decoded applied bs by (simp add: prepared_ok_def prepared same rooted_lower)
qed

section \<open>Invariants of the system\<close>

text \<open>The freeze generation never falls, and only a freeze raises it.\<close>

definition gen_of :: "coordinator_state \<Rightarrow> nat" where "gen_of = cs_freezeGeneration"

lemma gen_simps [simp]:
  "gen_of (rejectSubmission code s) = gen_of s"
  "gen_of (unhealthy reason s) = gen_of s"
  "gen_of (count_parity_mismatch s) = gen_of s"
  "gen_of (epoch_mismatch v s) = gen_of s"
  "gen_of (watcher_fault s) = gen_of s"
  "gen_of (eval_failure s) = gen_of s"
  "gen_of (freeze s) = gen_of s + 1"
  "gen_of (unfreeze s) = gen_of s"
  "gen_of (invalidateBaselines s) = gen_of s"
  "gen_of (auditReceiptCacheAgainstCanonicalRoots s) = gen_of s"
  "gen_of (reconcilePendingFromCanonicalSnapshots s) = gen_of s"
  "gen_of (markExpiredReceiptHash cfg n h s) = gen_of s"
  "gen_of (cacheReceipt e h s) = gen_of s"
  "gen_of (enter_queue m s) = gen_of s"
  "gen_of (leave_queue m s) = gen_of s"
  "gen_of (after_slot m' l s) = gen_of s"
  "gen_of (prune_states s) = gen_of s"
  "gen_of (rollback keep s) = gen_of s"
  "gen_of (commit_event s ev st r) = gen_of s"
  "gen_of (record_receipt p receipt sig e s) = gen_of s"
  "gen_of (snd (parity_result r n s)) = gen_of s"
  by (simp_all add: gen_of_def rejectSubmission_def unhealthy_def count_parity_mismatch_def epoch_mismatch_def
      watcher_fault_def eval_failure_def freeze_def unfreeze_def invalidateBaselines_def
      auditReceiptCacheAgainstCanonicalRoots_def reconcilePendingFromCanonicalSnapshots_def markExpiredReceiptHash_def
      cacheReceipt_def enter_queue_def leave_queue_def after_slot_def prune_states_def rollback_def commit_event_def
      record_receipt_def parity_result_def Let_def split: option.splits)

lemma gen_update_simps [simp]:
  "gen_of (s\<lparr>cs_metrics := m\<rparr>) = gen_of s" "gen_of (s\<lparr>cs_signingEnabled := b\<rparr>) = gen_of s"
  "gen_of (s\<lparr>cs_unhealthyReason := u\<rparr>) = gen_of s" "gen_of (s\<lparr>cs_lastScannedBlock := n\<rparr>) = gen_of s"
  "gen_of (s\<lparr>cs_finalityLagBlocks := n\<rparr>) = gen_of s" "gen_of (s\<lparr>cs_lastEpochMismatch := e\<rparr>) = gen_of s"
  "gen_of (s\<lparr>cs_baselineByRoot := bs\<rparr>) = gen_of s" "gen_of (s\<lparr>cs_currentBaselineVariancePpm := v\<rparr>) = gen_of s"
  "gen_of (s\<lparr>cs_pendingByPatchHash := ps\<rparr>) = gen_of s" "gen_of (s\<lparr>cs_receiptCache := c\<rparr>) = gen_of s"
  "gen_of (s\<lparr>cs_submitDedup := ds\<rparr>) = gen_of s" "gen_of (s\<lparr>cs_expiredReceiptTombstones := ts\<rparr>) = gen_of s"
  "gen_of (s\<lparr>cs_minerChainReservations := rs\<rparr>) = gen_of s"
  by (simp_all add: gen_of_def)

lemma gen_fold: "(\<And>s x. gen_of (f s x) = gen_of s) \<Longrightarrow> gen_of (foldl f s xs) = gen_of s"
  by (induction xs arbitrary: s) auto

lemma gen_gc [simp]: "gen_of (gcPending cfg n s) = gen_of s"
proof -
  have "gen_of (gc_pending_one cfg n s kp) = gen_of s" "gen_of (gc_receipt_one cfg n s he) = gen_of s" for s kp he
    by (auto simp: gc_pending_one_def gc_receipt_one_def Let_def split: prod.splits option.splits)
  then show ?thesis by (simp add: gcPending_def Let_def gen_fold)
qed

lemma gen_lookup [simp]: "gen_of (snd (getReceiptByHash cfg n h s)) = gen_of s"
  by (simp add: getReceiptByHash_def Let_def split: option.splits)

lemma keeps_gen_modify: "(\<And>s. gen_of (f s) = gen_of s) \<Longrightarrow> keeps (\<lambda>s. gen_of s = g) (modify f)"
  by (rule keeps_modify) simp

lemma applyChainEvent_gen: "keeps (\<lambda>s. gen_of s = g) (modify_res (applyChainEvent cfg ev))"
  by (rule keeps_modify_res) (auto simp: applyChainEvent_def bind_res_eq_Inr)

lemma tick_gen: "keeps (\<lambda>s. gen_of s = g) (tick cfg ch)"
  unfolding tick_def watch_def checkEpochStillCurrent_def gc_now_def now_sec_def detect_reorg_def scan_events_def
    parityCheck_def handleReorg_def apply_events_def
  by (auto intro!: applyChainEvent_gen keeps_rules keeps_gen_modify simp: Let_def)

lemma reject_run_gen: "keeps (\<lambda>s. gen_of s = g) (reject_run code)"
  unfolding reject_run_def by (intro keeps_bind keeps_gen_modify keeps_return) simp

lemma prepare_gen: "keeps (\<lambda>s. gen_of s = g) (prepareSubmitEvaluation cfg ch b body)"
  unfolding prepareSubmitEvaluation_def prepare_with_chain_def checkEpochStillCurrent_def now_sec_def
  by (auto intro!: keeps_rules keeps_gen_modify reject_run_gen simp: Let_def split: option.splits sum.splits)

lemma finish_gen: "keeps (\<lambda>s. gen_of s = g) (finishSubmitAfterEvaluation cfg ch signer prepared evalResult)"
  unfolding finishSubmitAfterEvaluation_def take_slot_def issue_receipt_def sign_and_record_def
  by (auto intro!: keeps_rules keeps_gen_modify reject_run_gen simp: Let_def split: option.splits sum.splits chain_slot.splits)

lemma setRecomputedBaseline_gen: "keeps (\<lambda>s. gen_of s = g) (setRecomputedBaseline r b var)"
  unfolding setRecomputedBaseline_def
  by (auto intro!: keeps_rules keeps_gen_modify split: option.splits)

lemma getStatus_gen: "keeps (\<lambda>s. gen_of s = g) (getStatus cfg ch q)"
  unfolding getStatus_def checkEpochStillCurrent_def
  by (auto intro!: keeps_rules keeps_gen_modify split: list.split)

lemma step_core_ok: "coord_step cfg ch signer c c' \<Longrightarrow> core_ok cfg (fst c) \<Longrightarrow> core_ok cfg (fst c')"
proof (induction rule: coord_step.induct)
  case (step_tick s w r s' w' ph)
  then show ?case using keepsD [OF tick_core_ok] by simp
next
  case (step_prepared body s w prepared s' w')
  then show ?case using keepsD [OF keeps_view [OF prepare_view]] by simp
next
  case (step_refused body s w r s' w')
  then show ?case using keepsD [OF keeps_view [OF prepare_view]] by simp
next
  case (step_finished prepared evalResult s w r s' w')
  then show ?case using keepsD [OF keeps_view [OF finish_view]] by simp
next
  case (step_baseline r b v s w res s' w' ph)
  then show ?case using keepsD [OF keeps_view [OF setRecomputedBaseline_view]] by simp
next
  case (step_status q s w res' s' w' ph)
  then show ?case using keepsD [OF keeps_view [OF getStatus_view]] by simp
qed (auto intro: core_ok_view [THEN iffD1, rotated])

text \<open>The running evaluation: its snapshot has the root it was prepared for, and it was prepared
  no later than the current generation.\<close>

definition phase_ok :: "coordinator_state \<times> phase \<Rightarrow> bool" where
  "phase_ok = (\<lambda>(s, ph). case ph of Idle \<Rightarrow> True
     | Evaluating p \<Rightarrow> prepared_ok p \<and> pz_freezeGeneration p \<le> gen_of s)"

lemma step_gen: "coord_step cfg ch signer c c' \<Longrightarrow> gen_of (fst c) \<le> gen_of (fst c')"
proof (induction rule: coord_step.induct)
  case (step_tick s w r s' w' ph)
  then show ?case using keepsD [OF tick_gen] by force
next
  case (step_prepared body s w prepared s' w')
  then show ?case using keepsD [OF prepare_gen] by force
next
  case (step_refused body s w r s' w')
  then show ?case using keepsD [OF prepare_gen] by force
next
  case (step_finished prepared evalResult s w r s' w')
  then show ?case using keepsD [OF finish_gen] by force
next
  case (step_baseline r b v s w res s' w' ph)
  then show ?case using keepsD [OF setRecomputedBaseline_gen] by force
next
  case (step_status q s w res' s' w' ph)
  then show ?case using keepsD [OF getStatus_gen] by force
qed simp_all

lemma step_phase_ok: "coord_step cfg ch signer c c' \<Longrightarrow> core_ok cfg (fst c) \<Longrightarrow> phase_ok c \<Longrightarrow> phase_ok c'"
proof (cases rule: coord_step.cases, assumption)
  fix body s w prepared s' w'
  assume c: "c = (s, Idle)" "c' = (s', Evaluating prepared)" and "core_ok cfg (fst c)"
    and run: "prepareSubmitEvaluation cfg ch (signer \<noteq> None) body (s, w) = Some (Inr (Inr prepared), s', w')"
  then have "core_ok cfg s'" using keepsD [OF keeps_view [OF prepare_view] run] by simp
  from run obtain now threshold where "prepare_patch cfg now threshold body s' = Inr (Inr prepared)" by (rule prepare_accepted)
  from prepare_patch_ok [OF this] core_live [OF \<open>core_ok cfg s'\<close>] show "phase_ok c'"
    by (simp add: phase_ok_def c gen_of_def)
qed (insert step_gen [of cfg ch signer c c'], auto simp: phase_ok_def split: phase.splits)

lemma reachable_ok: "coord_reachable cfg ch signer loader c \<Longrightarrow> core_ok cfg (fst c) \<and> phase_ok c"
proof (induction rule: coord_reachable.induct)
  case (reach_boot w u s w')
  from boot_core_ok [OF this] show ?case by (simp add: phase_ok_def)
next
  case (reach_step c c')
  with step_core_ok step_phase_ok show ?case by blast
qed

section \<open>What a signed receipt stands for\<close>

lemma check_evalD:
  assumes "check_eval cfg prepared evalResult = Inr r"
  shows "accepted_part evalResult = Some r" and "validateAcceptedEvalResult evalResult = None"
    and "validateDualPackProof r (expectedProof cfg prepared (pz_screenerThresholdPpm prepared)) = None"
  using assms by (auto simp: check_eval_def Let_def split: eval_result.split_asm option.split_asm if_split_asm)

lemma check_live_contextD:
  assumes "check_live_context s prepared = Inr b"
  shows "map_of (cs_submitDedup s) (pz_dedupKey prepared) = None" and "\<not> cs_frozen s"
    and "gen_of s = pz_freezeGeneration prepared" and "toLowerCase (cs_liveRoot s) = pz_rootAtEvaluation prepared"
    and "effectiveBaselinePpm s = Some b"
  using assms by (auto simp: check_live_context_def gen_of_def split: if_split_asm option.split_asm)

lemma after_slot_simps [simp]:
  "effectiveScreenerThresholdPpm cfg (after_slot m l s) b = effectiveScreenerThresholdPpm cfg s b"
  "build_transition cfg (after_slot m l s) p e r t = build_transition cfg s p e r t"
  by (simp_all add: after_slot_def effectiveScreenerThresholdPpm_def effectiveStateAdvanceThresholdPpm_def
      build_transition_def min_advance_delta_def split: eval_result.split)

text \<open>The event a signed receipt leads to when the contract accepts it.\<close>

definition lands_as :: "coordinator_config \<Rightarrow> receipt_payload \<Rightarrow> state_advanced_event \<Rightarrow> bool" where
  "lands_as cfg receipt ev \<longleftrightarrow>
     se_epoch ev = rp_epochId receipt \<and> se_parent ev = rp_parentStateRoot receipt \<and> se_newRoot ev = rp_newStateRoot receipt \<and>
     se_patchHash ev = rp_patchHash receipt \<and> se_compactPatchBytes ev = rp_compactPatchBytes receipt \<and>
     se_wordCount ev = of_int (rp_stateWordCount receipt) \<and> se_coreV ev = rp_coreVersionHash receipt \<and>
     se_corpus ev = rp_corpusRoot receipt \<and> se_frontier ev = rp_activeFrontierRoot receipt"

lemma rewrite_advance_replays:
  assumes "rewrite_advance cfg prepared delta sb sa rewritten = Inr (Inr tr)"
    and "se_newRoot ev = tr_newStateRoot tr" and "se_patchHash ev = tr_signedPatchHash tr"
    and "se_compactPatchBytes ev = tr_compactPatchBytes tr" and "se_wordCount ev = of_int (tr_stateWordCount tr)"
  obtains st where "replay_event (pz_parentStateSnapshot prepared) ev = Inr (st, tr_newStateRoot tr)"
proof -
  from assms(1) obtain finalDecoded st newRoot where
    decoded: "decodePatch (hexToBytes_padded (tr_compactPatchBytes tr)) = Inr finalDecoded"
    and applied: "applyPatch (pz_parentStateSnapshot prepared) finalDecoded True = Inr (Inr st)"
    and root: "root_hex st = Inr newRoot" "tr_newStateRoot tr = toLowerCase newRoot"
    and hash: "tr_signedPatchHash tr = toLowerCase (computePatchHash (hexToBytes_padded (tr_compactPatchBytes tr)))"
    and "tr_stateWordCount tr = wordCount finalDecoded"
    unfolding rewrite_advance_def
    by (clarsimp split: option.split_asm sum.split_asm if_split_asm, clarsimp simp: bind_res_eq_Inr Let_def)
      (auto simp: bind_res_eq_Inr Let_def split: sum.split_asm if_split_asm)
  with assms(2-5) have "replay_event (pz_parentStateSnapshot prepared) ev = Inr (st, tr_newStateRoot tr)"
    by (auto simp: replay_event_iff hexEq_def rooted_def)
  with that show thesis by blast
qed

lemma build_transition_advance:
  assumes "build_transition cfg s prepared (State_advance r0 before after rewritten) r threshold = Inr (Inr tr)"
  shows "rewrite_advance cfg prepared (num_value (num_minus after before)) before after rewritten = Inr (Inr tr)"
    and "\<not> below (num_minus after before) (min_advance_delta cfg s threshold)"
    and "validateDualPackProof r (expectedProof cfg prepared (min_advance_delta cfg s threshold)) = None"
  using assms by (auto simp: build_transition_def Let_def split: if_split_asm)

lemma build_transition_delta:
  "build_transition cfg s prepared evalResult r threshold = Inr (Inr tr) \<Longrightarrow> \<not> below (ea_deterministicDeltaPpm r) threshold"
  by (auto simp: build_transition_def split: if_split_asm)

text \<open>The whole path of an accepted submission.\<close>

definition receipt_path :: "coordinator_config \<Rightarrow> 'w chain_client \<Rightarrow> 'w receipt_signer option \<Rightarrow> prepared_submit \<Rightarrow> eval_result \<Rightarrow>
    coordinator_state \<Rightarrow> receipt_envelope \<Rightarrow> coordinator_state \<Rightarrow> accepted_eval \<Rightarrow> rat \<Rightarrow> rat \<Rightarrow> signed_transition \<Rightarrow>
    receipt_context \<Rightarrow> miner_counters \<Rightarrow> bool \<Rightarrow> bool" where
  "receipt_path cfg ch signer prepared evalResult s envelope s' r b threshold tr rx counters landed \<longleftrightarrow>
     check_eval cfg prepared evalResult = Inr r \<and> check_live_context s prepared = Inr b \<and>
     effectiveScreenerThresholdPpm cfg s b = Inr threshold \<and>
     build_transition cfg s prepared evalResult r threshold = Inr (Inr tr) \<and>
     (let miner = sb_miner (pz_parsed prepared); rv = map_of (cs_minerChainReservations s) miner in
      (\<exists>v v'. ch_getMinerCoreTexCounters ch (cf_epoch cfg) miner v = Some (Inr counters, v')) \<and>
      next_slot counters rv = Slot (rx_solveIndex rx) (rx_prevReceiptHash rx) landed \<and>
      (outcome_of evalResult = OUTCOME_CORETEX_SCREENER_PASS \<longrightarrow>
         effective_screener_count counters rv < or_else (cf_perMinerScreenerCap cfg) 50) \<and>
      signed_with cfg signer prepared (receipt_of cfg prepared (outcome_of evalResult) r tr rx)
        (effective_screener_count counters rv) envelope (after_slot miner landed s) s')"

lemma work_context_slot: "work_context cfg outcome i prev n = Inr rx \<Longrightarrow> rx_solveIndex rx = i \<and> rx_prevReceiptHash rx = prev"
  by (auto simp: work_context_def bind_res_eq_Inr split: option.split_asm)

lemma finish_path:
  assumes "finishSubmitAfterEvaluation cfg ch signer prepared evalResult (s, w) = Some (Inr (Accepted envelope), s', w')"
  obtains r b threshold tr rx counters landed
  where "receipt_path cfg ch signer prepared evalResult s envelope s' r b threshold tr rx counters landed"
proof -
  from assms obtain r b u u' where top: "check_eval cfg prepared evalResult = Inr r" "check_live_context s prepared = Inr b"
    and slot: "take_slot cfg ch signer prepared evalResult r b (s, u) = Some (Inr (Accepted envelope), s', u')"
    by (rule finish_accepted)
  let ?miner = "sb_miner (pz_parsed prepared)"
  from slot obtain counters i prev landed v v' x x' where
    counters: "ch_getMinerCoreTexCounters ch (cf_epoch cfg) ?miner v = Some (Inr counters, v')"
    and "next": "next_slot counters (map_of (cs_minerChainReservations s) ?miner) = Slot i prev landed"
    and cap: "outcome_of evalResult = OUTCOME_CORETEX_SCREENER_PASS \<longrightarrow>
      effective_screener_count counters (map_of (cs_minerChainReservations s) ?miner) < or_else (cf_perMinerScreenerCap cfg) 50"
    and issue: "issue_receipt cfg ch signer prepared evalResult r b i prev
      (effective_screener_count counters (map_of (cs_minerChainReservations s) ?miner)) (after_slot ?miner landed s, x)
      = Some (Inr (Accepted envelope), s', x')"
    by (rule take_slot_accepted)
  from issue obtain threshold tr rx difficulty where "effectiveScreenerThresholdPpm cfg (after_slot ?miner landed s) b = Inr threshold"
    and "build_transition cfg (after_slot ?miner landed s) prepared evalResult r threshold = Inr (Inr tr)"
    and rx: "work_context cfg (outcome_of evalResult) i prev difficulty = Inr rx"
    and "signed_with cfg signer prepared (receipt_of cfg prepared (outcome_of evalResult) r tr rx)
      (effective_screener_count counters (map_of (cs_minerChainReservations s) ?miner)) envelope (after_slot ?miner landed s) s'"
    by (rule issue_receipt_accepted)
  with top counters "next" cap work_context_slot [OF rx]
  have "receipt_path cfg ch signer prepared evalResult s envelope s' r b threshold tr rx counters landed"
    unfolding receipt_path_def Let_def by auto
  with that show thesis by blast
qed

lemma path_receipt:
  assumes "receipt_path cfg ch signer prepared evalResult s envelope s' r b threshold tr rx counters landed"
  shows "re_receipt envelope = receipt_of cfg prepared (outcome_of evalResult) r tr rx"
    and "\<exists>sig. s' = record_receipt prepared (re_receipt envelope) sig envelope (after_slot (sb_miner (pz_parsed prepared)) landed s)"
    and "re_newStateRoot envelope = tr_newStateRoot tr" and "re_patchHash envelope = tr_signedPatchHash tr"
  using assms by (auto simp: receipt_path_def signed_with_def envelope_of_def receipt_of_def Let_def)

lemma safe_not_below: "safe_nat x \<Longrightarrow> \<not> below x q \<Longrightarrow> num_ge x (js_num.Num q)"
  by (cases x) (auto simp: safe_nat_def below_def)

lemma validated_delta: "validateAcceptedEvalResult e = None \<Longrightarrow> accepted_part e = Some r \<Longrightarrow> safe_nat (ea_deterministicDeltaPpm r)"
  by (cases e) (auto simp: validateAcceptedEvalResult_def validate_hashes_def split: if_split_asm option.split_asm)

text \<open>The threshold the packs of an evaluation are held to when it is signed.\<close>

definition pack_threshold :: "coordinator_config \<Rightarrow> coordinator_state \<Rightarrow> prepared_submit \<Rightarrow> eval_result \<Rightarrow> rat \<Rightarrow> rat" where
  "pack_threshold cfg s prepared evalResult threshold =
     (if outcome_of evalResult = OUTCOME_CORETEX_STATE_ADVANCE then min_advance_delta cfg s threshold
      else pz_screenerThresholdPpm prepared)"

lemma path_proof:
  assumes "receipt_path cfg ch signer prepared evalResult s envelope s' r b threshold tr rx counters landed"
  shows "validateDualPackProof r (expectedProof cfg prepared (pack_threshold cfg s prepared evalResult threshold)) = None"
proof (cases evalResult)
  case (State_advance r0 before after rewritten)
  then show ?thesis using assms build_transition_advance(3)
    by (auto simp: receipt_path_def pack_threshold_def State_advance)
qed (use assms check_evalD(3) in \<open>auto simp: receipt_path_def pack_threshold_def OUTCOME_CORETEX_STATE_ADVANCE_def
       OUTCOME_CORETEX_SCREENER_PASS_def\<close>)


text \<open>C7: in every state the coordinator reaches, whatever the chain answers and in whatever order
  ticks, submissions, freezes and lookups come, the live state is the one its root names and is
  reached from the parent of the epoch over events that carry its pins, one per transition
  counted; the snapshots are at most 64, each follows the one before, and the last is the live state.\<close>

theorem coordinator_follows_chain:
  assumes "coord_reachable cfg ch signer loader (s, ph)"
  shows "rooted (cs_liveState s) (cs_liveRoot s) \<and>
    confirmed cfg (cs_parentState s) (cs_lastTransitionIndex s + 1) (cs_liveState s) \<and>
    length (cs_snapshots s) \<le> 64 \<and> successively follows (cs_snapshots s) \<and> tip_ok s"
  using reachable_ok [OF assms] core_live [of cfg s] by (auto simp: core_ok_def MAX_SNAPSHOTS_def)

text \<open>Fact: a state served under a root has that Merkle root and is a confirmed state of this epoch,
  also after reorganisations.\<close>

theorem served_state_has_root:
  assumes "coord_reachable cfg ch signer loader (s, ph)" and "getSubstrate r s = Some (key, st)"
  shows "key = toLowerCase r \<and> rooted st key \<and> (\<exists>n. confirmed cfg (cs_parentState s) n st)"
proof -
  from assms(2) have key: "key = toLowerCase r" and "map_of (cs_stateByRoot s) key = Some st" by (auto simp: getSubstrate_def)
  then have "(key, st) \<in> set (cs_stateByRoot s)" by (simp add: map_of_SomeD)
  then show ?thesis using reachable_ok [OF assms(1)] key by (auto simp: core_ok_def list_all_iff known_ok_def)
qed

text \<open>C22: a freeze cancels the submission that is being evaluated: it is not signed in any later
  state, also not after an unfreeze.\<close>

theorem freeze_cancels_submission:
  assumes "coord_reachable cfg ch signer loader (s, Evaluating prepared)"
    and "(coord_step cfg ch signer)\<^sup>*\<^sup>* (freeze s, Evaluating prepared) (t, ph)"
    and "finishSubmitAfterEvaluation cfg ch signer prepared evalResult (t, w) = Some (Inr response, t', w')"
  shows "\<exists>code. response = Rejected code"
proof (rule ccontr)
  assume "\<nexists>code. response = Rejected code"
  then obtain envelope where "response = Accepted envelope" by (cases response) auto
  with assms(3) have "finishSubmitAfterEvaluation cfg ch signer prepared evalResult (t, w) = Some (Inr (Accepted envelope), t', w')" by simp
  then obtain b where "check_live_context t prepared = Inr b" by (rule finish_accepted)
  then have "gen_of t = pz_freezeGeneration prepared" by (rule check_live_contextD)
  moreover have "gen_of (fst c) \<le> gen_of (fst c')" if "(coord_step cfg ch signer)\<^sup>*\<^sup>* c c'" for c c'
    using that by (induction rule: rtranclp_induct) (auto dest: step_gen)
  from this [OF assms(2)] have "gen_of s + 1 \<le> gen_of t" by simp
  ultimately show False using reachable_ok [OF assms(1)] by (simp add: phase_ok_def)
qed

section \<open>An advance that lands\<close>

lemma settle_baseline_mono: "map_of bs r \<noteq> None \<Longrightarrow> map_of (settle_baseline parent hash newRoot bs p) r \<noteq> None"
  by (auto simp: settle_baseline_def update_conv' split: option.splits)

lemma settle_baselines_some:
  assumes "p \<in> set ps" and "pe_state p = Pending" and "pe_state (settle_pending parent hash p) = Confirmed"
    and "pe_scoreAfterPpm p \<noteq> None"
  shows "map_of (foldl (settle_baseline parent hash newRoot) bs ps) newRoot \<noteq> None"
proof -
  have mono: "map_of bs newRoot \<noteq> None \<Longrightarrow> map_of (foldl (settle_baseline parent hash newRoot) bs ps) newRoot \<noteq> None" for bs ps
  proof (induction ps arbitrary: bs)
    case (Cons q ps)
    from Cons.IH [OF settle_baseline_mono [OF Cons.prems]] show ?case by simp
  qed simp
  have "map_of (settle_baseline parent hash newRoot bs p) newRoot \<noteq> None" for bs
    using assms(2-4) by (auto simp: settle_baseline_def update_conv')
  then show ?thesis using assms(1)
  proof (induction ps arbitrary: bs)
    case (Cons q ps)
    then show ?case using mono by (cases "q = p") auto
  qed simp
qed

lemma map_of_map_prod: "map_of (map (map_prod id f) al) k = map_option f (map_of al k)"
  by (induction al) auto

text \<open>The pending receipt an accepted advance leaves.\<close>

lemma path_pending:
  assumes "receipt_path cfg ch signer prepared evalResult s envelope s' r b threshold tr rx counters landed"
    and "outcome_of evalResult = OUTCOME_CORETEX_STATE_ADVANCE"
  shows "map_of (cs_pendingByPatchHash s') (re_patchHash envelope) = Some (pending_of prepared (re_receipt envelope))"
proof -
  from path_receipt [OF assms(1)] obtain sig where
    "s' = record_receipt prepared (re_receipt envelope) sig envelope (after_slot (sb_miner (pz_parsed prepared)) landed s)"
    and "re_patchHash envelope = rp_patchHash (re_receipt envelope)" and "rp_outcome (re_receipt envelope) = outcome_of evalResult"
    by (auto simp: receipt_of_def Let_def)
  then show ?thesis using assms(2) by (simp add: record_receipt_def cacheReceipt_def update_conv' Let_def)
qed

text \<open>C6: a signed state advance is one the watcher will accept: when no other event came first and
  the contract emits the event the receipt describes, applying it succeeds, the new live root is
  the one that was signed, the receipt becomes confirmed, and a baseline for the new root is at
  hand, so submissions go on without a recomputation.\<close>

theorem signed_advance_lands:
  assumes "coord_reachable cfg ch signer loader (s, Evaluating prepared)" and "cs_liveState s = pz_parentStateSnapshot prepared"
    and "finishSubmitAfterEvaluation cfg ch signer prepared (State_advance r before after rewritten) (s, w) =
      Some (Inr (Accepted envelope), s', w')"
    and "lands_as cfg (re_receipt envelope) ev" and "se_transitionIndex ev = cs_lastTransitionIndex s + 1"
  shows "\<exists>s''. applyChainEvent cfg ev s' = Inr s'' \<and> cs_liveRoot s'' = re_newStateRoot envelope \<and>
    map_option pe_state (map_of (cs_pendingByPatchHash s'') (re_patchHash envelope)) = Some Confirmed \<and>
    effectiveBaselinePpm s'' \<noteq> None"
proof -
  from reachable_ok [OF assms(1)] have ok: "core_ok cfg s" "prepared_ok prepared" by (simp_all add: phase_ok_def)
  from assms(3) obtain r' b threshold tr rx counters landed where
    path: "receipt_path cfg ch signer prepared (State_advance r before after rewritten) s envelope s' r' b threshold tr rx counters landed"
    by (rule finish_path)
  note rec = path_receipt [OF path]
  have "chain_view s' = chain_view s" using keepsD [OF finish_view assms(3)] by simp
  then have view: "cs_liveState s' = cs_liveState s" "cs_liveRoot s' = cs_liveRoot s"
    "cs_lastTransitionIndex s' = cs_lastTransitionIndex s" by (simp_all add: chain_view_def)
  from path have rewrite: "rewrite_advance cfg prepared (num_value (num_minus after before)) before after rewritten = Inr (Inr tr)"
    and live: "check_live_context s prepared = Inr b" by (auto simp: receipt_path_def dest: build_transition_advance)
  note ctx = check_live_contextD [OF live]
  have lower: "cs_liveRoot s = pz_rootAtEvaluation prepared" using ctx(4) rooted_lower [OF core_live(1) [OF ok(1)]] by simp
  have parent: "rp_parentStateRoot (re_receipt envelope) = pz_rootAtEvaluation prepared" and epoch: "rp_epochId (re_receipt envelope) = cf_epoch cfg"
    and pins: "rp_coreVersionHash (re_receipt envelope) = toLowerCase (pn_coreVersionHash (cf_expectedEpochPins cfg))"
      "rp_corpusRoot (re_receipt envelope) = toLowerCase (pn_corpusRoot (cf_expectedEpochPins cfg))"
      "rp_activeFrontierRoot (re_receipt envelope) = toLowerCase (pn_activeFrontierRoot (cf_expectedEpochPins cfg))"
    and tr: "rp_newStateRoot (re_receipt envelope) = tr_newStateRoot tr" "rp_patchHash (re_receipt envelope) = tr_signedPatchHash tr"
      "rp_compactPatchBytes (re_receipt envelope) = tr_compactPatchBytes tr" "rp_stateWordCount (re_receipt envelope) = tr_stateWordCount tr"
      "rp_scoreAfterPpm (re_receipt envelope) = tr_scoreAfterPpm tr"
    using ok(2) by (simp_all add: rec(1) receipt_of_def Let_def prepared_ok_def)
  note lands = assms(4) [unfolded lands_as_def]
  obtain st where rep: "replay_event (pz_parentStateSnapshot prepared) ev = Inr (st, tr_newStateRoot tr)"
    using lands by (auto simp: tr intro: rewrite_advance_replays [OF rewrite])
  have "check_pins cfg s' ev = Inr ()" using lands assms(5) by (simp add: check_pins_def Let_def view epoch parent pins lower)
  then have run: "applyChainEvent cfg ev s' = Inr (commit_event s' ev st (tr_newStateRoot tr))"
    using rep assms(2) by (simp add: applyChainEvent_def view)
  let ?p = "pending_of prepared (re_receipt envelope)"
  have pend: "map_of (cs_pendingByPatchHash s') (re_patchHash envelope) = Some ?p" by (rule path_pending [OF path]) simp
  have settled: "pe_state (settle_pending (se_parent ev) (se_patchHash ev) ?p) = Confirmed"
    using lands by (simp add: settle_pending_def pending_of_def)
  have "?p \<in> set (map snd (cs_pendingByPatchHash s'))" using map_of_SomeD [OF pend] by force
  from settle_baselines_some [OF this _ settled, of "tr_newStateRoot tr" "cs_baselineByRoot s'"]
  have "map_of (foldl (settle_baseline (se_parent ev) (se_patchHash ev) (tr_newStateRoot tr)) (cs_baselineByRoot s')
      (map snd (cs_pendingByPatchHash s'))) (tr_newStateRoot tr) \<noteq> None" by (simp add: pending_of_def)
  moreover have "toLowerCase (tr_newStateRoot tr) = tr_newStateRoot tr" using rooted_lower [OF replay_event_rooted(1) [OF rep]] .
  ultimately show ?thesis using run pend settled
    by (simp add: commit_event_def Let_def effectiveBaselinePpm_def map_of_map_prod rec(3))
qed

end
