(* ===== verification/Coordinator_Receipts.thy ===== *)
theory Coordinator_Receipts
  imports Coordinator_System
begin

text \<open>
  Receipts and the watcher of the coordinator: the chain of receipts of a miner, lookups, parity
  with the chain after a tick, rollbacks, the submit queue, and that every operation returns.
\<close>

section \<open>The chain of receipts of a miner\<close>

text \<open>C21: the index of a signed receipt is never below the chain's next index nor below the index
  reserved by an earlier receipt of the miner that has not landed; it names the receipt before it
  (the chain's last one, or the reserved one), and it reserves the next index until it expires.\<close>

theorem receipt_chain_advances:
  assumes "finishSubmitAfterEvaluation cfg ch signer prepared evalResult (s, w) = Some (Inr (Accepted envelope), s', w')"
  shows "\<exists>counters v v'. ch_getMinerCoreTexCounters ch (cf_epoch cfg) (sb_miner (pz_parsed prepared)) v = Some (Inr counters, v') \<and>
    rp_solveIndex (re_receipt envelope) = max (mc_nextIndex counters)
      (case map_of (cs_minerChainReservations s) (sb_miner (pz_parsed prepared)) of
         None \<Rightarrow> mc_nextIndex counters | Some rv \<Rightarrow> rv_nextIndex rv) \<and>
    (if rp_solveIndex (re_receipt envelope) = mc_nextIndex counters
     then rp_prevReceiptHash (re_receipt envelope) = toLowerCase (mc_lastReceiptHash counters)
     else \<exists>rv. map_of (cs_minerChainReservations s) (sb_miner (pz_parsed prepared)) = Some rv \<and>
       rv_lastReceiptHash rv = Some (rp_prevReceiptHash (re_receipt envelope))) \<and>
    (\<exists>rv. map_of (cs_minerChainReservations s') (sb_miner (pz_parsed prepared)) = Some rv \<and>
       rv_nextIndex rv = rp_solveIndex (re_receipt envelope) + 1 \<and> rv_expiresAt rv = re_expiresAt envelope)"
proof -
  let ?miner = "sb_miner (pz_parsed prepared)"
  from assms obtain r b threshold tr rx counters landed where
    path: "receipt_path cfg ch signer prepared evalResult s envelope s' r b threshold tr rx counters landed" by (rule finish_path)
  note rec = path_receipt [OF path]
  from path obtain v v' where counters: "ch_getMinerCoreTexCounters ch (cf_epoch cfg) ?miner v = Some (Inr counters, v')"
    and slot: "next_slot counters (map_of (cs_minerChainReservations s) ?miner) = Slot (rx_solveIndex rx) (rx_prevReceiptHash rx) landed"
    by (auto simp: receipt_path_def Let_def)
  have index: "rp_solveIndex (re_receipt envelope) = rx_solveIndex rx" "rp_prevReceiptHash (re_receipt envelope) = rx_prevReceiptHash rx"
    by (simp_all add: rec(1) receipt_of_def Let_def)
  have expires: "re_expiresAt envelope = rp_expiresAt (re_receipt envelope)"
    using path by (auto simp: receipt_path_def signed_with_def envelope_of_def Let_def)
  from rec(2) obtain sig where "s' = record_receipt prepared (re_receipt envelope) sig envelope (after_slot ?miner landed s)" ..
  then have "\<exists>rv. map_of (cs_minerChainReservations s') ?miner = Some rv \<and>
      rv_nextIndex rv = rp_solveIndex (re_receipt envelope) + 1 \<and> rv_expiresAt rv = re_expiresAt envelope"
    by (simp add: record_receipt_def cacheReceipt_def update_conv' Let_def expires)
  moreover have "rx_solveIndex rx = max (mc_nextIndex counters)
      (case map_of (cs_minerChainReservations s) ?miner of None \<Rightarrow> mc_nextIndex counters | Some rv \<Rightarrow> rv_nextIndex rv)"
    using slot by (auto simp: next_slot_def Let_def split: option.split_asm if_split_asm)
  moreover have "if rx_solveIndex rx = mc_nextIndex counters then rx_prevReceiptHash rx = toLowerCase (mc_lastReceiptHash counters)
     else \<exists>rv. map_of (cs_minerChainReservations s) ?miner = Some rv \<and> rv_lastReceiptHash rv = Some (rx_prevReceiptHash rx)"
    using slot by (auto simp: next_slot_def Let_def split: option.split_asm if_split_asm)
  ultimately show ?thesis unfolding index using counters by blast
qed

section \<open>Parity with the chain\<close>

definition in_parity :: "coordinator_state \<Rightarrow> bool" where
  "in_parity s \<longleftrightarrow>
     cs_chainLiveRoot s = toLowerCase (cs_liveRoot s) \<and> cs_chainTransitionCount s = of_int (cs_lastTransitionIndex s + 1)"

text \<open>A run after which signing is enabled only in parity, whatever came before.\<close>

definition parity_or_off :: "coordinator_state \<Rightarrow> bool" where
  "parity_or_off s \<longleftrightarrow> (cs_signingEnabled s \<longrightarrow> in_parity s)"

lemma parity_result_in_parity: "fst (parity_result r n s) \<Longrightarrow> in_parity (snd (parity_result r n s))"
  by (auto simp: parity_result_def in_parity_def Let_def split: if_split_asm)

lemma parity_result_off: "\<not> fst (parity_result r n s) \<Longrightarrow> \<not> cs_signingEnabled (snd (parity_result r n s))"
  by (auto simp: parity_result_def Let_def unhealthy_def count_parity_mismatch_def split: if_split_asm)

lemma parity_view: "chain_view s' = chain_view s \<Longrightarrow> cs_chainLiveRoot s' = cs_chainLiveRoot s \<Longrightarrow>
    cs_chainTransitionCount s' = cs_chainTransitionCount s \<Longrightarrow> in_parity s' = in_parity s"
  by (simp add: in_parity_def chain_view_def)

lemma gc_chain_fields [simp]:
  "cs_chainLiveRoot (gcPending cfg n s) = cs_chainLiveRoot s" "cs_chainTransitionCount (gcPending cfg n s) = cs_chainTransitionCount s"
  "cs_signingEnabled (gcPending cfg n s) = cs_signingEnabled s"
proof -
  have fold: "f (foldl g s xs) = f s" if "\<And>s x. f (g s x) = f s" for f :: "coordinator_state \<Rightarrow> 'a" and g s xs
    using that by (induction xs arbitrary: s) auto
  have "cs_chainLiveRoot (gc_pending_one cfg n s kp) = cs_chainLiveRoot s" "cs_chainLiveRoot (gc_receipt_one cfg n s he) = cs_chainLiveRoot s"
    "cs_chainTransitionCount (gc_pending_one cfg n s kp) = cs_chainTransitionCount s"
    "cs_chainTransitionCount (gc_receipt_one cfg n s he) = cs_chainTransitionCount s"
    "cs_signingEnabled (gc_pending_one cfg n s kp) = cs_signingEnabled s"
    "cs_signingEnabled (gc_receipt_one cfg n s he) = cs_signingEnabled s" for s kp he
    by (auto simp: gc_pending_one_def gc_receipt_one_def markExpiredReceiptHash_def Let_def split: prod.splits option.splits)
  then show "cs_chainLiveRoot (gcPending cfg n s) = cs_chainLiveRoot s"
    "cs_chainTransitionCount (gcPending cfg n s) = cs_chainTransitionCount s"
    "cs_signingEnabled (gcPending cfg n s) = cs_signingEnabled s"
    by (simp_all add: gcPending_def Let_def fold)
qed

lemma gc_now_parity: "keeps parity_or_off (gc_now cfg ch)"
proof -
  have "in_parity (gcPending cfg n s) = in_parity s" for n s by (rule parity_view) simp_all
  then show ?thesis unfolding gc_now_def now_sec_def parity_or_off_def
    by (intro keeps_bind keeps_call keeps_modify) simp
qed

lemma audit_parity: "in_parity ((auditReceiptCacheAgainstCanonicalRoots s)\<lparr>cs_signingEnabled := b, cs_unhealthyReason := u\<rparr>) = in_parity s"
  by (simp add: in_parity_def auditReceiptCacheAgainstCanonicalRoots_def)

text \<open>The tail of a tick that found no reorganisation it could not handle.\<close>

lemma watch_tail_parity:
  assumes "bind_io (parityCheck cfg ch) (\<lambda>available.
       bind_io (if available
         then modify (\<lambda>s. (auditReceiptCacheAgainstCanonicalRoots s)\<lparr>cs_signingEnabled := True, cs_unhealthyReason := None\<rparr>)
         else return_io ()) (\<lambda>_. gc_now cfg ch)) (s, w) = Some (Inr u, s', w')"
  shows "parity_or_off s'"
proof -
  from assms obtain r n v v' where run: "bind_io (if fst (parity_result r n s)
         then modify (\<lambda>s. (auditReceiptCacheAgainstCanonicalRoots s)\<lparr>cs_signingEnabled := True, cs_unhealthyReason := None\<rparr>)
         else return_io ()) (\<lambda>_. gc_now cfg ch) (snd (parity_result r n s), v) = Some (Inr u, s', w')"
    unfolding parityCheck_def by (clarsimp simp: run_simps simp del: lift_res_eq) blast
  show ?thesis
  proof (cases "fst (parity_result r n s)")
    case True
    then have "parity_or_off ((auditReceiptCacheAgainstCanonicalRoots (snd (parity_result r n s)))\<lparr>cs_signingEnabled := True, cs_unhealthyReason := None\<rparr>)"
      by (simp add: parity_or_off_def audit_parity parity_result_in_parity)
    then show ?thesis using run True keepsD [OF gc_now_parity] by (auto simp: run_simps)
  next
    case False
    then have "parity_or_off (snd (parity_result r n s))" by (simp add: parity_or_off_def parity_result_off)
    then show ?thesis using run False keepsD [OF gc_now_parity] by (auto simp: run_simps)
  qed
qed

lemma watch_parity:
  assumes "watch cfg ch (s, w) = Some (Inr u, s', w')"
  shows "parity_or_off s'"
proof -
  from assms obtain current s1 w1 where check: "checkEpochStillCurrent cfg ch (s, w) = Some (Inr current, s1, w1)"
    and rest: "(if \<not> current then gc_now cfg ch
     else
       bind_io (call (ch_getBlockNumber ch)) (\<lambda>head.
       let safeHead = head - cf_confirmationDepth cfg in
       bind_io (modify (\<lambda>s. s\<lparr>cs_finalityLagBlocks := head - cs_lastScannedBlock s\<rparr>)) (\<lambda>_.
       bind_io (detect_reorg ch) (\<lambda>go_on.
       if \<not> go_on then return_io ()
       else
         bind_io (scan_events cfg ch safeHead) (\<lambda>_.
         bind_io (parityCheck cfg ch) (\<lambda>available.
         bind_io (if available
           then modify (\<lambda>s. (auditReceiptCacheAgainstCanonicalRoots s)\<lparr>cs_signingEnabled := True, cs_unhealthyReason := None\<rparr>)
           else return_io ()) (\<lambda>_.
         gc_now cfg ch))))))) (s1, w1) = Some (Inr u, s', w')"
    unfolding watch_def by (auto simp: bind_io_Inr)
  show ?thesis
  proof (cases current)
    case False
    then have "\<not> cs_signingEnabled s1" using check
      by (auto simp: checkEpochStillCurrent_def run_simps epoch_mismatch_def unhealthy_def Let_def split: if_split_asm)
    then have "parity_or_off s1" by (simp add: parity_or_off_def)
    then show ?thesis using rest False keepsD [OF gc_now_parity] by auto
  next
    case True
    with rest obtain go_on s2 w2 s3 w3 safeHead where detect: "detect_reorg ch (s2, w2) = Some (Inr go_on, s3, w3)"
      and tail: "(if \<not> go_on then return_io ()
       else
         bind_io (scan_events cfg ch safeHead) (\<lambda>_.
         bind_io (parityCheck cfg ch) (\<lambda>available.
         bind_io (if available
           then modify (\<lambda>s. (auditReceiptCacheAgainstCanonicalRoots s)\<lparr>cs_signingEnabled := True, cs_unhealthyReason := None\<rparr>)
           else return_io ()) (\<lambda>_.
         gc_now cfg ch)))) (s3, w3) = Some (Inr u, s', w')"
      by (clarsimp simp: run_simps Let_def simp del: lift_res_eq)
    show ?thesis
    proof (cases go_on)
      case True
      with tail obtain s4 w4 where "bind_io (parityCheck cfg ch) (\<lambda>available.
         bind_io (if available
           then modify (\<lambda>s. (auditReceiptCacheAgainstCanonicalRoots s)\<lparr>cs_signingEnabled := True, cs_unhealthyReason := None\<rparr>)
           else return_io ()) (\<lambda>_. gc_now cfg ch)) (s4, w4) = Some (Inr u, s', w')"
        by (clarsimp simp: bind_io_Inr [of "scan_events cfg ch safeHead"])
      then show ?thesis by (rule watch_tail_parity)
    next
      case False
      then have "\<not> cs_signingEnabled s3" using detect
        by (auto simp: detect_reorg_def handleReorg_def run_simps unhealthy_def Let_def split: if_split_asm)
      then show ?thesis using tail False by (simp add: parity_or_off_def)
    qed
  qed
qed

text \<open>Fact: after a tick, from any state that is not frozen and whatever the chain answers, signing is
  enabled only if the confirmed chain of the coordinator is in parity with the registry: the live
  root and the number of transitions it was last told agree with its own.\<close>

theorem tick_parity:
  assumes "\<not> cs_frozen s" and "tick cfg ch (s, w) = Some (r, s', w')"
  shows "cs_signingEnabled s' \<longrightarrow>
    cs_chainLiveRoot s' = toLowerCase (cs_liveRoot s') \<and> cs_chainTransitionCount s' = of_int (cs_lastTransitionIndex s' + 1)"
proof -
  from assms obtain a t v where watch: "watch cfg ch (s, w) = Some (a, t, v)"
    by (auto simp: tick_def with_state_def try_io_def Option.bind_eq_Some_conv)
  have "parity_or_off s'"
  proof (cases a)
    case (Inl e)
    then have "s' = watcher_fault t" using assms watch by (simp add: tick_def with_state_def try_io_def modify_def)
    then show ?thesis by (simp add: parity_or_off_def watcher_fault_def unhealthy_def Let_def)
  next
    case (Inr u)
    then have "s' = t" using assms watch by (simp add: tick_def with_state_def try_io_def return_io_def)
    then show ?thesis using watch_parity watch Inr by simp
  qed
  then show ?thesis by (simp add: parity_or_off_def in_parity_def)
qed

section \<open>Lookups\<close>

text \<open>What expiry leaves: no pending receipt past its time, and no cached receipt of an expired one.\<close>

lemma map_of_delete: "map_of (AList.delete k al) = (map_of al)(k := None)"
  by (rule delete_conv')

text \<open>Fact: a lookup returns a receipt only while it can still be used or has landed: its transition is
  pending or confirmed, or it is a screener receipt (no transition) that has not expired.  A stale
  receipt is reported as stale, and what is not in the cache is never returned.\<close>

theorem lookup_returns_live_receipt:
  assumes "getReceiptByHash cfg now hash s = (Receipt_ok envelope st, s')"
  shows "map_of (cs_receiptCache s') (toLowerCase hash) = Some envelope \<and>
    (case st of Some Pending \<Rightarrow> True | Some Confirmed \<Rightarrow> True | Some Stale \<Rightarrow> False | Some Expired \<Rightarrow> False
      | None \<Rightarrow> now < re_expiresAt envelope)"
proof -
  define p where "p = map_of (cs_pendingByPatchHash (gcPending cfg now s)) (toLowerCase (re_patchHash envelope))"
  from assms have "s' = gcPending cfg now s" "map_of (cs_receiptCache (gcPending cfg now s)) (toLowerCase hash) = Some envelope"
    "st = map_option pe_state p" "map_option pe_state p \<noteq> Some Stale" "map_option pe_state p \<noteq> Some Expired"
    "p = None \<longrightarrow> now < re_expiresAt envelope"
    by (auto simp: getReceiptByHash_def Let_def p_def split: option.split_asm if_split_asm)
  then show ?thesis by (cases p) (auto split: pending_state.split)
qed

section \<open>Rollbacks\<close>

text \<open>The hashes the chain answers, when it answers each block with one hash and does not throw.\<close>

lemma find_canonical_pure:
  assumes "\<And>n w. ch_getBlockHashAt ch n w = Some (Inr (hashes n), w)"
  shows "find_canonical ch older w = Some (Inr (length (dropWhile
    (\<lambda>sn. \<not> canonical_match (hashes (of_int (sn_blockNumber sn))) (sn_blockHash sn)) older)), w)"
proof (induction older)
  case (Cons sn older)
  then show ?case by (simp add: bind_io_step [OF assms] return_io_def)
qed (simp add: return_io_def)

text \<open>C23: when the chain reorganised, the coordinator goes back to the newest snapshot whose block is
  still canonical, or to the parent of the epoch when none is; signing is off until the next
  parity, receipts whose parent is gone are stale, and the invariant of the chain is kept.\<close>

theorem reorg_to_last_canonical:
  assumes "\<And>n w. ch_getBlockHashAt ch n w = Some (Inr (hashes n), w)" and "handleReorg ch (s, w) = Some (r, s', w')"
    and "core_ok cfg s"
  defines "kept \<equiv> rev (dropWhile (\<lambda>sn. \<not> canonical_match (hashes (of_int (sn_blockNumber sn))) (sn_blockHash sn)) (rev (cs_snapshots s)))"
  shows "r = Inr True \<and> core_ok cfg s' \<and> cs_snapshots s' = kept \<and> \<not> cs_signingEnabled s' \<and>
    cs_liveState s' = (if kept = [] then cs_parentState s else sn_state (last kept)) \<and>
    (\<forall>(key, p) \<in> set (cs_pendingByPatchHash s'). pe_state p = Pending \<longrightarrow>
       map_of (cs_stateByRoot s') (toLowerCase (pe_parentRoot p)) \<noteq> None)"
proof -
  let ?bad = "\<lambda>sn. \<not> canonical_match (hashes (of_int (sn_blockNumber sn))) (sn_blockHash sn)"
  define keep where "keep = length (dropWhile ?bad (rev (cs_snapshots s)))"
  have find: "find_canonical ch (rev (cs_snapshots s)) w = Some (Inr keep, w)"
    using find_canonical_pure [OF assms(1)] by (simp add: keep_def)
  have kept: "kept = take keep (cs_snapshots s)"
  proof -
    have "cs_snapshots s = kept @ rev (takeWhile ?bad (rev (cs_snapshots s)))"
      unfolding kept_def by (metis rev_append rev_rev_ident takeWhile_dropWhile_id)
    moreover have "length kept = keep" by (simp add: kept_def keep_def)
    ultimately show ?thesis by (metis append_eq_conv_conj)
  qed
  have bound: "keep \<le> length (cs_snapshots s)" unfolding keep_def by (metis length_dropWhile_le length_rev)
  define s1 where "s1 = reconcilePendingFromCanonicalSnapshots (prune_states (rollback keep s))"
  have s': "r = Inr True" "cs_snapshots s' = cs_snapshots s1" "cs_liveState s' = cs_liveState s1" "\<not> cs_signingEnabled s'"
    "cs_stateByRoot s' = cs_stateByRoot s1"
    "cs_pendingByPatchHash s' = map (map_prod id (\<lambda>p. if orphaned s1 p then p\<lparr>pe_state := Stale\<rparr> else p)) (cs_pendingByPatchHash s1)"
    using assms(2) find
    by (auto simp: handleReorg_def with_state_def bind_io_def call_def modify_def return_io_def s1_def [symmetric] Let_def
        auditReceiptCacheAgainstCanonicalRoots_def)
  have s1: "cs_snapshots s1 = cs_snapshots (rollback keep s)" "cs_liveState s1 = cs_liveState (rollback keep s)"
    by (simp_all add: s1_def reconcilePendingFromCanonicalSnapshots_def prune_states_def Let_def)
  have "cs_snapshots s1 = kept" "cs_liveState s1 = (if kept = [] then cs_parentState s else sn_state (last kept))"
    using kept bound by (auto simp: s1 rollback_def last_conv_nth min_def Let_def)
  moreover have "\<forall>(key, p) \<in> set (cs_pendingByPatchHash s'). pe_state p = Pending \<longrightarrow>
       map_of (cs_stateByRoot s') (toLowerCase (pe_parentRoot p)) \<noteq> None"
    by (auto simp: s' orphaned_def split: if_split_asm)
  moreover have "core_ok cfg s'" using keepsD [OF handleReorg_core_ok assms(2)] assms(3) by simp
  ultimately show ?thesis using s' by simp
qed

section \<open>Every operation returns\<close>

definition chain_returns :: "'w chain_client \<Rightarrow> bool" where
  "chain_returns ch \<longleftrightarrow>
     returns (ch_getBlockNumber ch) \<and> (\<forall>n. returns (ch_getBlockHashAt ch n)) \<and>
     (\<forall>a b. returns (ch_getStateAdvancedEvents ch a b)) \<and> (\<forall>e. returns (ch_getRegistryEpoch ch e)) \<and>
     returns (ch_getV4CurrentEpoch ch) \<and> (\<forall>e m. returns (ch_getMinerCoreTexCounters ch e m)) \<and>
     (\<forall>e. returns (ch_getQualifiedScreenerPasses ch e))"

lemma now_sec_returns: "returns (now_sec ch)"
  by (simp add: now_sec_def returns_def call_def)

lemma find_canonical_returns: "chain_returns ch \<Longrightarrow> returns (find_canonical ch snaps)"
  by (induction snaps) (auto intro!: returns_rules simp: chain_returns_def)

lemma check_epoch_returns: "chain_returns ch \<Longrightarrow> returns (checkEpochStillCurrent cfg ch)"
  unfolding checkEpochStillCurrent_def by (auto intro!: returns_rules simp: chain_returns_def)

lemma parityCheck_returns: "chain_returns ch \<Longrightarrow> returns (parityCheck cfg ch)"
  unfolding parityCheck_def by (auto intro!: returns_rules simp: chain_returns_def)

lemma reject_run_returns [returns_rules]: "returns (reject_run code)"
  unfolding reject_run_def by (intro returns_rules)

lemma watch_returns:
  assumes "chain_returns ch"
  shows "returns (watch cfg ch)"
proof -
  have "returns (handleReorg ch)" unfolding handleReorg_def
    by (auto intro!: returns_rules find_canonical_returns [OF assms])
  then have "returns (detect_reorg ch)" using assms unfolding detect_reorg_def
    by (auto intro!: returns_rules simp: Let_def chain_returns_def)
  moreover have "returns (scan_events cfg ch safeHead)" for safeHead using assms unfolding scan_events_def apply_events_def
    by (auto intro!: returns_rules simp: chain_returns_def)
  moreover have "returns (gc_now cfg ch)" unfolding gc_now_def by (intro returns_rules now_sec_returns)
  moreover have "returns (ch_getBlockNumber ch)" using assms by (simp add: chain_returns_def)
  ultimately show ?thesis unfolding watch_def Let_def
    by (intro returns_rules check_epoch_returns [OF assms] parityCheck_returns [OF assms])
qed

lemma prepare_returns: "chain_returns ch \<Longrightarrow> returns (prepareSubmitEvaluation cfg ch b body)"
  unfolding prepareSubmitEvaluation_def prepare_with_chain_def Let_def
  by (auto intro!: returns_rules now_sec_returns check_epoch_returns split: option.split sum.split)

lemma finish_returns:
  assumes "chain_returns ch" and "\<And>sign m receipt. signer = Some sign \<Longrightarrow> returns (sign m receipt)"
  shows "returns (finishSubmitAfterEvaluation cfg ch signer prepared evalResult)"
proof -
  have "returns (sign_and_record cfg signer prepared receipt n)" for receipt n
    using assms(2) unfolding sign_and_record_def Let_def by (auto intro!: returns_rules split: option.split)
  then have "returns (issue_receipt cfg ch signer prepared evalResult r b i prev n)" for r b i prev n
    using assms(1) unfolding issue_receipt_def by (auto intro!: returns_rules split: sum.split simp: chain_returns_def)
  then have "returns (take_slot cfg ch signer prepared evalResult r b)" for r b
    using assms(1) unfolding take_slot_def Let_def by (auto intro!: returns_rules split: chain_slot.split simp: chain_returns_def)
  then show ?thesis using assms(1) unfolding finishSubmitAfterEvaluation_def
    by (auto intro!: returns_rules split: sum.split simp: chain_returns_def)
qed


section \<open>The submit queue\<close>

text \<open>The submissions in flight, each with its miner if it names one.\<close>

inductive queue_reachable :: "coordinator_config \<Rightarrow> coordinator_state \<Rightarrow> string option list \<Rightarrow> bool" for cfg where
  queue_empty: "cs_submitQueueDepth s = 0 \<Longrightarrow> cs_pendingSubmitsByMiner s = [] \<Longrightarrow> queue_reachable cfg s []"
| queue_enter: "queue_reachable cfg s fl \<Longrightarrow> queue_guard cfg miner s = None \<Longrightarrow> queue_reachable cfg (enter_queue miner s) (miner # fl)"
| queue_leave: "queue_reachable cfg s fl \<Longrightarrow> miner \<in> set fl \<Longrightarrow> queue_reachable cfg (leave_queue miner s) (remove1 miner fl)"
| queue_other: "queue_reachable cfg s fl \<Longrightarrow> cs_submitQueueDepth s' = cs_submitQueueDepth s \<Longrightarrow>
    cs_pendingSubmitsByMiner s' = cs_pendingSubmitsByMiner s \<Longrightarrow> queue_reachable cfg s' fl"

definition miner_count :: "coordinator_state \<Rightarrow> string \<Rightarrow> int" where
  "miner_count s m = or_else (map_of (cs_pendingSubmitsByMiner s) m) 0"

lemma miner_count_enter:
  "miner_count (enter_queue miner s) m = miner_count s m + (if miner = Some m then 1 else 0)"
  by (auto simp: enter_queue_def miner_count_def Let_def update_conv' or_else_def split: option.split)

lemma miner_count_leave:
  "miner_count s m > 0 \<or> miner \<noteq> Some m \<Longrightarrow> miner_count (leave_queue miner s) m = miner_count s m - (if miner = Some m then 1 else 0)"
  by (cases miner; cases "map_of (cs_pendingSubmitsByMiner s) m")
    (auto simp: leave_queue_def miner_count_def Let_def update_conv' delete_conv' or_else_def)

definition max_queued :: "coordinator_config \<Rightarrow> rat" where "max_queued cfg = or_else (cf_maxQueuedSubmits cfg) 16"
definition max_per_miner :: "coordinator_config \<Rightarrow> rat" where "max_per_miner cfg = or_else (cf_maxQueuedSubmitsPerMiner cfg) 4"

text \<open>Fact: the intake guards count right: the depth is the number of submissions in flight and the
  count of a miner the number of its own, in whatever order they end, and neither passes its
  limit (by less than one when the limit is not an integer).\<close>

theorem submit_queue_bounded:
  assumes "queue_reachable cfg s fl"
  shows "cs_submitQueueDepth s = length fl \<and> (fl = [] \<or> of_nat (length fl) < max_queued cfg + 1) \<and>
    miner_count s m = int (count_list fl (Some m)) \<and>
    (Some m \<in> set fl \<longrightarrow> of_nat (count_list fl (Some m)) < max_per_miner cfg + 1)"
  using assms
proof (induction arbitrary: m rule: queue_reachable.induct)
  case (queue_empty s)
  then show ?case by (simp add: miner_count_def or_else_def)
next
  case (queue_enter s fl miner)
  from queue_enter.hyps(2) have depth: "of_nat (cs_submitQueueDepth s) < max_queued cfg"
    and own: "miner = Some m \<Longrightarrow> of_int (miner_count s m) < max_per_miner cfg"
    by (auto simp: queue_guard_def max_queued_def max_per_miner_def miner_count_def split: if_split_asm)
  have "cs_submitQueueDepth (enter_queue miner s) = cs_submitQueueDepth s + 1"
    by (simp add: enter_queue_def Let_def split: option.split)
  then show ?case using queue_enter.IH [of m] depth own by (auto simp: miner_count_enter)
next
  case (queue_leave s fl miner)
  have count: "count_list (remove1 miner fl) x = count_list fl x - (if x = miner then 1 else 0)" for x
    by (induction fl) auto
  have pos: "count_list fl miner > 0" using queue_leave.hyps(2) by (simp add: count_list_0_iff neq0_conv [symmetric] del: neq0_conv)
  have "cs_submitQueueDepth (leave_queue miner s) = cs_submitQueueDepth s - 1"
    by (simp add: leave_queue_def Let_def split: option.split)
  moreover have "length (remove1 miner fl) = length fl - 1" using queue_leave.hyps(2) by (simp add: length_remove1)
  moreover have "miner_count (leave_queue miner s) m = int (count_list (remove1 miner fl) (Some m))"
    using queue_leave.IH [of m] pos by (subst miner_count_leave) (auto simp: count)
  moreover have "Some m \<in> set fl" if "Some m \<in> set (remove1 miner fl)" using that notin_set_remove1 by fastforce
  moreover have "count_list (remove1 miner fl) (Some m) \<le> count_list fl (Some m)" by (simp add: count)
  ultimately show ?case using queue_leave.IH [of m] queue_leave.hyps(2)
    by (auto intro: le_less_trans [rotated])
next
  case (queue_other s fl s')
  then show ?case by (simp add: miner_count_def)
qed

end
