(* ===== verification/Coordinator_Sample.thy ===== *)
theory Coordinator_Sample
  imports Coordinator_Receipts Patch_Apply
begin

text \<open>
  One run of the coordinator on concrete data, for the witnesses: the boot on the zero state, a
  state advance that is prepared, evaluated, signed and lands, and the ticks around it.
\<close>

section \<open>Strings of the wire\<close>

lemma hexToBytes_padded_bytesToHex [simp]: "hexToBytes_padded (bytesToHex bs) = bs"
  using hexToBytes_bytesToHex [of bs]
  by (simp add: hexToBytes_def hexToBytes_padded_def bytesToHex_eq Let_def)

lemma hex_string_bytesToHex: "hex_string (bytesToHex bs)"
  using byte_hex_val [of bs] by (simp add: hex_string_def bytesToHex_eq)

lemma normalizeHexBytes_bytesToHex: "normalizeHexBytes (JString (bytesToHex bs)) = Some (bytesToHex bs, bs)"
proof -
  have "(length (bytesToHex bs) - 2) mod 2 = 0" by (simp add: bytesToHex_eq)
  then show ?thesis by (simp add: normalizeHexBytes_def hex_string_bytesToHex Let_def)
qed

lemma isBytes32_bytesToHex: "length bs = 32 \<Longrightarrow> isBytes32 (bytesToHex bs)"
  using hash_ok [of bs] by (simp add: isBytes32_def BYTES32_RE_def)

lemma patch_hash_text: "isBytes32 (computePatchHash bs)" "toLowerCase (computePatchHash bs) = computePatchHash bs"
  by (simp_all add: computePatchHash_def isBytes32_bytesToHex)

section \<open>The epoch\<close>

definition sample_root_bytes :: bytes where "sample_root_bytes = tree_level (words zero_state) 10 ! 0"
definition sample_root :: string where "sample_root = bytesToHex sample_root_bytes"
definition sample_ones :: string where "sample_ones = ''0x'' @ replicate 64 (CHR ''1'')"
definition sample_twos :: string where "sample_twos = ''0x'' @ replicate 64 (CHR ''2'')"
definition sample_addr :: string where "sample_addr = ''0x'' @ replicate 40 (CHR ''a'')"

lemma zero_length: "length (words zero_state) = 1024"
  by (simp add: zero_state_def)

lemma sample_root_facts: "merkleizeState zero_state = Inr sample_root_bytes" "length sample_root_bytes = 32"
  "root_hex zero_state = Inr sample_root" "isBytes32 sample_root" "toLowerCase sample_root = sample_root"
proof -
  show m: "merkleizeState zero_state = Inr sample_root_bytes"
    by (simp add: merkleizeState_tree zero_length sample_root_bytes_def)
  show l: "length sample_root_bytes = 32" by (simp add: sample_root_bytes_def length_node zero_length)
  show "root_hex zero_state = Inr sample_root" by (simp add: root_hex_def m sample_root_def)
  show "isBytes32 sample_root" "toLowerCase sample_root = sample_root"
    using l by (simp_all add: sample_root_def isBytes32_bytesToHex)
qed

lemma sample_strings: "isBytes32 sample_ones" "isBytes32 sample_twos" "isAddress sample_addr"
  "toLowerCase sample_ones = sample_ones" "toLowerCase sample_twos = sample_twos" "toLowerCase sample_addr = sample_addr"
  "sample_ones \<noteq> zero_hash" "sample_twos \<noteq> zero_hash" "sample_ones \<noteq> sample_twos" "sample_ones \<noteq> []" "sample_twos \<noteq> []"
  by code_simp+

definition sample_pins :: registry_epoch_pins where
  "sample_pins = \<lparr> pn_parentStateRoot = sample_root, pn_coreVersionHash = sample_ones, pn_corpusRoot = sample_ones,
     pn_activeFrontierRoot = sample_ones, pn_baselineManifestHash = sample_ones, pn_hiddenSeedCommit = sample_ones \<rparr>"

definition sample_cfg :: coordinator_config where
  "sample_cfg = \<lparr> cf_maxQueuedSubmits = None, cf_maxQueuedSubmitsPerMiner = None, cf_epoch = 7, cf_expectedChainId = 8453,
     cf_miningContractAddress = Some sample_addr, cf_v4Address = None, cf_registryAddress = sample_addr,
     cf_expectedCoordinatorSigner = sample_addr, cf_expectedEpochPins = sample_pins, cf_confirmationDepth = 0,
     cf_replayFromBlock = None, cf_receiptTtlSec = 600, cf_perMinerScreenerCap = None, cf_screenerThresholdPpm = None,
     cf_minImprovementPpm = Some 3000, cf_replayTolerancePpm = None, cf_maxPatchBytes = None, cf_baselineScorePpm = None,
     cf_baselineParentScorePpm = Some 100000, cf_baselineVariancePpm = None, cf_baselineVarianceSource = None,
     cf_fixedPackRepeatabilityPpm = None, cf_recentNoiseFloorPpm = None, cf_targetBlockOffset = None,
     cf_rulesVersion = Some 192, cf_workPolicyHash = Some sample_ones, cf_workPolicy = None \<rparr>"

text \<open>A chain that always answers the same.\<close>

definition sample_chain :: "unit chain_client" where
  "sample_chain = \<lparr> ch_getBlockNumber = return_io 100, ch_getBlockHashAt = (\<lambda>n. return_io None),
     ch_getStateAdvancedEvents = (\<lambda>a b. return_io []), ch_getRegistryEpoch = (\<lambda>e. return_io (sample_root, 0)),
     ch_getRegistryEpochPins = (\<lambda>e. return_io sample_pins), ch_getV4CurrentEpoch = return_io 7,
     ch_getV4EpochCommit = (\<lambda>e. return_io sample_ones), ch_getV4CoordinatorSigner = return_io sample_addr,
     ch_getV4CoreTexRegistry = return_io sample_addr, ch_getChainId = return_io 8453,
     ch_getMinerCoreTexCounters = (\<lambda>e m. return_io \<lparr> mc_screenersThisEpoch = 0, mc_nextIndex = 3, mc_lastReceiptHash = sample_ones \<rparr>),
     ch_getQualifiedScreenerPasses = (\<lambda>e. return_io 0), ch_nowMs = (\<lambda>w. 1000000) \<rparr>"

definition sample_loader :: "string \<Rightarrow> (cortex_state, unit) io" where
  "sample_loader r = return_io zero_state"

text \<open>The state after the boot.\<close>

definition sample_core :: coordinator_state where
  "sample_core = (new_coordinator sample_cfg)\<lparr>cs_liveState := zero_state, cs_liveRoot := sample_root,
     cs_parentState := zero_state, cs_parentRoot := sample_root, cs_stateByRoot := [(sample_root, zero_state)],
     cs_baselineByRoot := [(sample_root, 100000)], cs_replayFromBlock := 0, cs_lastScannedBlock := 100,
     cs_chainLiveRoot := sample_root, cs_chainTransitionCount := 0, cs_signingEnabled := True, cs_unhealthyReason := None\<rparr>"

lemma sample_config_valid: "validateStaticConfig sample_cfg = Inr ()" "launchBaselinePpm sample_cfg = Inr 100000"
proof -
  have launch: "launchBaselinePpm sample_cfg = Inr 100000"
    by (simp add: launchBaselinePpm_def sample_cfg_def is_safe_integer_def)
  then show "launchBaselinePpm sample_cfg = Inr 100000" .
  have "miningContractAddress sample_cfg = sample_addr" by (simp add: miningContractAddress_def sample_cfg_def)
  then show "validateStaticConfig sample_cfg = Inr ()" using launch
    by (simp add: validateStaticConfig_def sample_strings) (simp add: sample_cfg_def sample_strings is_integer_def positive_int_opt_def)
qed

lemma sample_gates: "boot_gates sample_cfg sample_chain sample_loader () = Some (Inr (sample_root, zero_state), ())"
proof -
  have "pins_match sample_pins (cf_expectedEpochPins sample_cfg)" by (simp add: pins_match_def sample_cfg_def)
  then have "boot_gates sample_cfg sample_chain sample_loader = load_parent sample_loader sample_root"
    using sample_strings(7)
    by (simp add: boot_gates_def sample_config_valid sample_chain_def check_that_def zero_hash_def)
      (simp add: sample_cfg_def sample_pins_def)
  then show ?thesis by (simp add: load_parent_def sample_loader_def sample_root_facts check_that_def return_io_def)
qed

lemma sample_boot: "boot sample_cfg sample_chain sample_loader (new_coordinator sample_cfg, ()) = Some (Inr (), sample_core, ())"
proof -
  define adopted where "adopted = (new_coordinator sample_cfg)\<lparr>cs_liveState := zero_state, cs_liveRoot := sample_root,
     cs_parentState := zero_state, cs_parentRoot := sample_root, cs_stateByRoot := [(sample_root, zero_state)],
     cs_baselineByRoot := [(sample_root, 100000)]\<rparr>"
  have adopt: "adopt_parent sample_cfg sample_root zero_state (new_coordinator sample_cfg) = Inr adopted"
    by (simp add: adopt_parent_def sample_config_valid sample_root_facts adopted_def Let_def) (simp add: new_coordinator_def)
  define scanned where "scanned = adopted\<lparr>cs_replayFromBlock := 0, cs_lastScannedBlock := 100\<rparr>"
  have last: "cs_lastTransitionIndex scanned = - 1" "cs_liveRoot scanned = sample_root"
    by (simp_all add: scanned_def adopted_def new_coordinator_def)
  have parity: "parity_result sample_root 0 scanned = (True, scanned\<lparr>cs_chainLiveRoot := sample_root, cs_chainTransitionCount := 0\<rparr>)"
    by (simp add: parity_result_def Let_def last sample_root_facts)
  have core: "scanned\<lparr>cs_chainLiveRoot := sample_root, cs_chainTransitionCount := 0, cs_signingEnabled := True, cs_unhealthyReason := None\<rparr> = sample_core"
    by (simp add: scanned_def adopted_def sample_core_def)
  have events: "apply_events sample_cfg [] = return_io ()" by (simp add: apply_events_def js_sort_def)
  have "or_else (cf_replayFromBlock sample_cfg) 0 = 0" "cf_confirmationDepth sample_cfg = 0" by (simp_all add: sample_cfg_def or_else_def)
  then have "replay_chain sample_cfg sample_chain (adopted, ()) = Some (Inr (), sample_core, ())"
    by (simp add: replay_chain_def sample_chain_def Let_def bind_io_def call_def modify_def return_io_def events parityCheck_def
        with_state_def scanned_def [symmetric] parity core)
  then show ?thesis
    by (simp add: boot_def bind_io_def call_def sample_gates modify_res_def adopt)
qed

section \<open>A submission\<close>

definition sample_advance :: patch where
  "sample_advance = sample_patch\<lparr>scoreDelta := 0, parentStateRoot := sample_root_bytes\<rparr>"

definition advance_bytes :: "int \<Rightarrow> bytes" where
  "advance_bytes d = (let p = sample_advance\<lparr>scoreDelta := d\<rparr> in patch_head p @ patch_body (zip (indices p) (newWords p)))"

lemma sample_advance_wire:
  assumes "0 \<le> d" and "d < 2 ^ 63"
  shows "patch_ok (sample_advance\<lparr>scoreDelta := d\<rparr>)" and "encodePatch (sample_advance\<lparr>scoreDelta := d\<rparr>) = Inr (advance_bytes d)"
    and "decodePatch (advance_bytes d) = Inr (sample_advance\<lparr>scoreDelta := d\<rparr>)"
    and "length (advance_bytes d) \<le> 256" and "advance_bytes d \<noteq> []"
proof -
  show ok: "patch_ok (sample_advance\<lparr>scoreDelta := d\<rparr>)"
    using assms sample_root_facts(2)
    by (simp add: sample_advance_def sample_patch_def patch_ok_def validatePatchType_None type_allows_def uint256_def MAX_WIRE_SCORE_DELTA_def)
  show enc: "encodePatch (sample_advance\<lparr>scoreDelta := d\<rparr>) = Inr (advance_bytes d)"
    using encodePatch_ok [OF ok] by (simp add: advance_bytes_def Let_def)
  show "decodePatch (advance_bytes d) = Inr (sample_advance\<lparr>scoreDelta := d\<rparr>)"
    using patch_codec.round_trip [OF ok] enc by auto
  have "length (patch_head (sample_advance\<lparr>scoreDelta := d\<rparr>)) = 42"
    by (rule head_length) (simp add: sample_advance_def sample_root_facts)
  moreover have "length (patch_body (zip (indices sample_advance) (newWords sample_advance))) \<le> 200"
    by (simp add: sample_advance_def sample_patch_def leb_small leb_two)
  ultimately show "length (advance_bytes d) \<le> 256" "advance_bytes d \<noteq> []" by (auto simp: advance_bytes_def Let_def)
qed

lemma sample_advance_apply: "applyPatch zero_state (sample_advance\<lparr>scoreDelta := d\<rparr>) True = Inr (Inr sample_state)"
proof -
  have "write_words zero_state (sample_advance\<lparr>scoreDelta := d\<rparr>) = write_words zero_state sample_patch"
    "policyWriteIsCanonicalForState zero_state (sample_advance\<lparr>scoreDelta := d\<rparr>) = policyWriteIsCanonicalForState zero_state sample_patch"
    "patchTouchesHeader (sample_advance\<lparr>scoreDelta := d\<rparr>) = patchTouchesHeader sample_patch"
    "anyChange zero_state (sample_advance\<lparr>scoreDelta := d\<rparr>) = anyChange zero_state sample_patch"
    by (simp_all add: sample_advance_def write_words_def policyWriteIsCanonicalForState_def policyWriteIsCanonical_def
        patchTouchesHeader_def anyChange_def cong: option.case_cong if_cong)
  then show ?thesis using sample_apply_policy
    by (simp add: applyPatch_def applyPatchOntoCurrent_def sample_root_facts sample_advance_def split: if_split_asm)
qed

definition sample_body :: js_value where
  "sample_body = JObject [(''patchBytesHex'', JString (bytesToHex (advance_bytes 0))), (''parentStateRoot'', JString sample_root),
     (''minerAddress'', JString sample_addr)]"

definition sample_hash_text :: string where "sample_hash_text = computePatchHash (advance_bytes 0)"

definition sample_prepared :: prepared_submit where
  "sample_prepared = \<lparr> pz_now = 1000,
     pz_parsed = \<lparr> sb_patchBytes = advance_bytes 0, sb_parentStateRoot = sample_root, sb_miner = sample_addr \<rparr>,
     pz_decoded = sample_advance, pz_canonicalHex = bytesToHex (advance_bytes 0), pz_originalPatchHash = sample_hash_text,
     pz_dedupKey = sample_root @ ''|'' @ sample_hash_text, pz_screenerThresholdPpm = 1500, pz_rootAtEvaluation = sample_root,
     pz_parentStateSnapshot = zero_state, pz_freezeGeneration = 0 \<rparr>"

lemma sample_core_fields: "cs_liveRoot sample_core = sample_root" "cs_liveState sample_core = zero_state"
  "cs_submitDedup sample_core = []" "cs_freezeGeneration sample_core = 0" "cs_frozen sample_core = False"
  "cs_signingEnabled sample_core = True" "cs_minerChainReservations sample_core = []" "cs_pendingByPatchHash sample_core = []"
  "cs_receiptCache sample_core = []" "cs_expiredReceiptTombstones sample_core = []" "cs_lastTransitionIndex sample_core = - 1"
  "cs_baselineByRoot sample_core = [(sample_root, 100000)]" "cs_currentBaselineVariancePpm sample_core = None"
  "cs_lastEpochMismatch sample_core = None" "cs_snapshots sample_core = []"
  by (simp_all add: sample_core_def new_coordinator_def sample_cfg_def or_else_def)

lemma sample_thresholds:
  "effectiveStateAdvanceThresholdPpm sample_cfg sample_core = 3000"
  "effectiveScreenerThresholdPpm sample_cfg sample_core 100000 = Inr 1500" "effectiveBaselinePpm sample_core = Some 100000"
proof -
  show advance: "effectiveStateAdvanceThresholdPpm sample_cfg sample_core = 3000"
    by (simp add: effectiveStateAdvanceThresholdPpm_def sample_core_fields Let_def) (simp add: sample_cfg_def or_else_def)
  have "computeCoreTexScreenerThresholdPpm
       \<lparr> th_baselineScorePpm = Some (numeric.Num 100000), th_recentNoiseFloorPpm = Some (numeric.Num 0),
         th_recentScreenerPasses = None, th_recentStateAdvances = None, th_targetStateAdvances = None,
         th_recentProbePassRatePpm = None, th_stateAdvanceThresholdPpm = Some (numeric.Num 3000),
         th_policy = Some DEFAULT_CORETEX_WORK_POLICY \<rparr> = Inr 1500" by code_simp
  then show "effectiveScreenerThresholdPpm sample_cfg sample_core 100000 = Inr 1500"
    by (simp add: effectiveScreenerThresholdPpm_def advance) (simp add: sample_cfg_def or_else_def)
  show "effectiveBaselinePpm sample_core = Some 100000"
    by (simp add: effectiveBaselinePpm_def sample_core_fields sample_root_facts)
qed

lemma sample_parse: "parseSubmitBody sample_body 256 =
    Inr \<lparr> sb_patchBytes = advance_bytes 0, sb_parentStateRoot = sample_root, sb_miner = sample_addr \<rparr>"
  using sample_advance_wire(4,5) [of 0] sample_strings(3,6) sample_root_facts(4,5)
  by (simp add: parseSubmitBody_def sample_body_def submit_fields_def normalizeHexBytes_bytesToHex string_field_def or_else_def)

lemma sample_prepare_patch: "prepare_patch sample_cfg 1000 1500 sample_body sample_core = Inr (Inr sample_prepared)"
proof -
  have "maxPatchBytes sample_cfg = 256" by (simp add: maxPatchBytes_def sample_cfg_def or_else_def)
  moreover have "sample_advance\<lparr>scoreDelta := 0\<rparr> = sample_advance" by (simp add: sample_advance_def)
  moreover have "decodePatch (advance_bytes 0) = Inr sample_advance" "encodePatch (sample_advance\<lparr>scoreDelta := 0\<rparr>) = Inr (advance_bytes 0)"
    "applyPatch zero_state sample_advance True = Inr (Inr sample_state)"
    using sample_advance_wire [of 0] sample_advance_apply [of 0] calculation by simp_all
  moreover have "\<lparr> words = words zero_state \<rparr> = zero_state" by simp
  moreover have "bytesToHex (parentStateRoot sample_advance) = sample_root" by (simp add: sample_advance_def sample_root_def)
  ultimately show ?thesis
    by (simp add: prepare_patch_def sample_parse sample_core_fields sample_root_facts sample_prepared_def patch_hash_text
        sample_hash_text_def Let_def)
qed

lemma sample_gc: "gcPending sample_cfg 1000 sample_core = sample_core"
  by (simp add: gcPending_def sample_core_fields sample_core_def new_coordinator_def)

lemma sample_epoch: "checkEpochStillCurrent sample_cfg sample_chain (sample_core, ()) = Some (Inr True, sample_core, ())"
  by (simp add: checkEpochStillCurrent_def sample_chain_def sample_cfg_def call_def bind_io_def return_io_def modify_def)
    (simp add: sample_core_def new_coordinator_def)

lemma sample_prepare: "prepareSubmitEvaluation sample_cfg sample_chain True sample_body (sample_core, ()) =
    Some (Inr (Inr sample_prepared), sample_core, ())"
proof -
  have now: "now_sec sample_chain (s, ()) = Some (Inr 1000, s, ())" for s :: coordinator_state
    by (simp add: now_sec_def sample_chain_def call_def)
  have "prepare_with_chain sample_cfg True 1000 sample_body (sample_core, ()) = Some (Inr (Inr sample_prepared), sample_core, ())"
    by (simp add: prepare_with_chain_def with_state_def sample_core_fields sample_thresholds sample_prepare_patch return_io_def)
  then show ?thesis
    by (simp add: prepareSubmitEvaluation_def bind_io_def now modify_def sample_gc with_state_def sample_core_fields try_io_def sample_epoch)
qed

section \<open>The evaluation and the signature\<close>

definition sample_pack :: "string \<Rightarrow> string \<Rightarrow> proof_pack" where
  "sample_pack domain commit = \<lparr> pk_domain = domain, pk_seedCommit = commit, pk_accepted = True, pk_scorePpm = js_num.Num 300000 \<rparr>"

definition sample_proof :: evaluation_proof where
  "sample_proof = \<lparr> ep_kind = ''coretex-dual-pack-v1'', ep_mode = ''future_blockhash_dual_pack'', ep_epochId = js_num.Num 7,
     ep_receivedAtBlock = js_num.Num 100, ep_targetBlock = js_num.Num 130, ep_targetBlockOffset = js_num.Num 30,
     ep_blockhash = sample_ones, ep_patchHash = sample_hash_text, ep_parentStateRoot = sample_root, ep_corpusRoot = sample_ones,
     ep_coreVersionHash = sample_ones, ep_hiddenSeedCommit = sample_ones, ep_epochSecretCommit = sample_ones,
     ep_gate = Some (sample_pack ''gate'' sample_ones), ep_confirm = Some (sample_pack ''confirm'' sample_twos) \<rparr>"

definition sample_accepted :: accepted_eval where
  "sample_accepted = \<lparr> ea_deterministicDeltaPpm = js_num.Num 200000, ea_evalReportHash = sample_ones, ea_artifactHash = sample_twos,
     ea_evaluationProof = Some sample_proof \<rparr>"

definition sample_eval :: eval_result where
  "sample_eval = State_advance sample_accepted (js_num.Num 100000) (js_num.Num 300000) (JString (bytesToHex (advance_bytes 0)))"

definition sample_signer :: "unit receipt_signer" where
  "sample_signer = (\<lambda>m r. return_io \<lparr> sg_signature = ''0x00'', sg_transactionData = ''0x'', sg_receiptHash = Some sample_twos \<rparr>)"

lemma sample_dual_pack:
  assumes "m \<le> 300000"
  shows "validateDualPackProof sample_accepted (expectedProof sample_cfg sample_prepared m) = None"
proof -
  have pack: "check_pack (Some m) (sample_pack domain commit) = None" if "isBytes32 commit" "toLowerCase commit \<noteq> zero_hash" for domain commit
    using that assms by (simp add: check_pack_def sample_pack_def safe_nat_def is_safe_integer_def)
  have "dbl (100 + 30) = 130" "dbl (of_int 7) = 7" by simp_all
  then show ?thesis
    using pack sample_strings sample_root_facts patch_hash_text(1)
    by (simp add: validateDualPackProof_def sample_accepted_def sample_proof_def)
      (simp add: expectedProof_def sample_cfg_def sample_pins_def sample_prepared_def bound_hash_def safe_nat_def is_safe_integer_def
        sample_pack_def sample_hash_text_def hexEq_def)
qed

lemma sample_check_eval: "check_eval sample_cfg sample_prepared sample_eval = Inr sample_accepted"
proof -
  have "dbl (300000 - 100000) = 200000" by simp
  then have "validateAcceptedEvalResult sample_eval = None"
    by (simp add: validateAcceptedEvalResult_def sample_eval_def validate_hashes_def sample_accepted_def safe_nat_def
        is_safe_integer_def sample_strings Let_def)
  moreover have "pz_screenerThresholdPpm sample_prepared = 1500" by (simp add: sample_prepared_def)
  ultimately show ?thesis using sample_dual_pack [of 1500] by (simp add: check_eval_def sample_eval_def Let_def)
qed

lemma sample_live: "check_live_context sample_core sample_prepared = Inr 100000"
  by (simp add: check_live_context_def sample_core_fields sample_thresholds) (simp add: sample_prepared_def sample_root_facts)

definition sample_new_root :: string where "sample_new_root = bytesToHex (tree_level (words sample_state) 10 ! 0)"

definition sample_transition :: signed_transition where
  "sample_transition = \<lparr> tr_compactPatchBytes = bytesToHex (advance_bytes 200000),
     tr_signedPatchHash = computePatchHash (advance_bytes 200000), tr_newStateRoot = sample_new_root, tr_stateWordCount = 2,
     tr_scoreBeforePpm = 100000, tr_scoreAfterPpm = 300000 \<rparr>"

lemma sample_new_root_facts: "root_hex sample_state = Inr sample_new_root" "toLowerCase sample_new_root = sample_new_root"
  by (simp_all add: root_hex_def merkleizeState_tree sample_state_def sample_new_root_def)

lemma sample_build: "build_transition sample_cfg sample_core sample_prepared sample_eval sample_accepted 1500 = Inr (Inr sample_transition)"
proof -
  have d: "dbl (300000 - 100000) = 200000" by simp
  have same: "sample_advance\<lparr>scoreDelta := 0\<rparr> = sample_advance" by (simp add: sample_advance_def)
  have sem: "patchSemanticsMatchExceptScoreDelta sample_advance sample_advance"
    by (simp add: patchSemanticsMatchExceptScoreDelta_def sample_advance_def sample_patch_def)
  have "maxPatchBytes sample_cfg = 256" by (simp add: maxPatchBytes_def sample_cfg_def or_else_def)
  then have "rewrite_advance sample_cfg sample_prepared 200000 (js_num.Num 100000) (js_num.Num 300000) (JString (bytesToHex (advance_bytes 0)))
      = Inr (Inr sample_transition)"
    using sample_advance_wire [of 0] sample_advance_wire [of 200000] sample_advance_apply [of 200000] same sem sample_new_root_facts
    by (simp add: rewrite_advance_def normalizeHexBytes_bytesToHex sample_prepared_def Let_def patch_hash_text sample_transition_def)
      (simp add: sample_advance_def sample_patch_def)
  moreover have "min_advance_delta sample_cfg sample_core 1500 = 3000" by (simp add: min_advance_delta_def sample_thresholds)
  moreover have "\<not> below (ea_deterministicDeltaPpm sample_accepted) 1500" by (simp add: below_def sample_accepted_def)
  ultimately show ?thesis using d sample_dual_pack [of 3000]
    by (simp add: build_transition_def sample_eval_def Let_def below_def)
qed

definition sample_context :: receipt_context where
  "sample_context = \<lparr> rx_solveIndex = 3, rx_prevReceiptHash = sample_ones, rx_workUnitsBps = 30000, rx_difficultyCount = 0,
     rx_workPolicyHash = sample_ones \<rparr>"

definition sample_receipt_payload :: receipt_payload where
  "sample_receipt_payload = receipt_of sample_cfg sample_prepared OUTCOME_CORETEX_STATE_ADVANCE sample_accepted sample_transition sample_context"

definition sample_signature :: signed_receipt where
  "sample_signature = \<lparr> sg_signature = ''0x00'', sg_transactionData = ''0x'', sg_receiptHash = Some sample_twos \<rparr>"

definition sample_envelope :: receipt_envelope where
  "sample_envelope = envelope_of sample_cfg sample_receipt_payload sample_signature 0"

definition sample_signed_core :: coordinator_state where
  "sample_signed_core = record_receipt sample_prepared sample_receipt_payload sample_signature sample_envelope sample_core"

lemma sample_outcome: "outcome_of sample_eval = OUTCOME_CORETEX_STATE_ADVANCE"
  by (simp add: sample_eval_def)

lemma sample_sign: "sign_and_record sample_cfg (Some sample_signer) sample_prepared sample_receipt_payload 0 (sample_core, ()) =
    Some (Inr (Accepted sample_envelope), sample_signed_core, ())"
proof -
  have "lower_bytes32 (rp_evalReportHash sample_receipt_payload)" "lower_bytes32 (rp_artifactHash sample_receipt_payload)"
    by (simp_all add: sample_receipt_payload_def receipt_of_def Let_def sample_accepted_def lower_bytes32_def sample_strings)
  moreover have "signed_ok sample_signature" using sample_strings(2) by (simp add: signed_ok_def sample_signature_def) code_simp
  moreover have "sample_signer m r = return_io sample_signature" for m r by (simp add: sample_signer_def sample_signature_def)
  ultimately show ?thesis
    by (simp add: sign_and_record_def try_io_def call_def return_io_def bind_io_def modify_def sample_envelope_def sample_signed_core_def Let_def)
qed

lemma sample_finish: "finishSubmitAfterEvaluation sample_cfg sample_chain (Some sample_signer) sample_prepared sample_eval (sample_core, ()) =
    Some (Inr (Accepted sample_envelope), sample_signed_core, ())"
proof -
  have "computeCoreTexWorkUnitsBps 2 (Some (numeric.Num 0)) None = Inr 30000" by code_simp
  then have work: "work_context sample_cfg OUTCOME_CORETEX_STATE_ADVANCE 3 sample_ones 0 = Inr sample_context"
    by (simp add: work_context_def OUTCOME_CORETEX_STATE_ADVANCE_def to_bigint_def is_integer_def sample_context_def)
      (simp add: sample_cfg_def sample_strings to_bigint_def is_integer_def)
  define counters where "counters = \<lparr> mc_screenersThisEpoch = 0, mc_nextIndex = 3, mc_lastReceiptHash = sample_ones \<rparr>"
  have slot: "next_slot counters None = Slot 3 sample_ones False" "effective_screener_count counters None = 0"
    by (simp_all add: next_slot_def counters_def sample_strings effective_screener_count_def in_flight_def)
  have chain: "ch_getMinerCoreTexCounters sample_chain e m = return_io counters" "ch_getQualifiedScreenerPasses sample_chain e = return_io 0"
    "ch_getV4CurrentEpoch sample_chain = return_io 7" for e m
    by (simp_all add: sample_chain_def counters_def)
  have issue: "issue_receipt sample_cfg sample_chain (Some sample_signer) sample_prepared sample_eval sample_accepted 100000 3 sample_ones 0
      (sample_core, ()) = Some (Inr (Accepted sample_envelope), sample_signed_core, ())"
    by (simp add: issue_receipt_def with_state_def sample_thresholds sample_build bind_io_def call_def chain return_io_def sample_outcome
        work sample_sign [unfolded sample_receipt_payload_def])
  have "outcome_of sample_eval \<noteq> OUTCOME_CORETEX_SCREENER_PASS"
    by (simp add: sample_outcome OUTCOME_CORETEX_STATE_ADVANCE_def OUTCOME_CORETEX_SCREENER_PASS_def)
  then have "take_slot sample_cfg sample_chain (Some sample_signer) sample_prepared sample_eval sample_accepted 100000 (sample_core, ()) =
      Some (Inr (Accepted sample_envelope), sample_signed_core, ())"
    by (simp add: take_slot_def Let_def bind_io_def call_def chain return_io_def with_state_def sample_core_fields slot modify_def
        after_slot_def issue)
  then show ?thesis
    by (simp add: finishSubmitAfterEvaluation_def with_state_def sample_check_eval sample_live try_io_def call_def chain return_io_def)
      (simp add: sample_cfg_def)
qed

text \<open>The system it belongs to.\<close>

lemma sample_idle: "coord_reachable sample_cfg sample_chain (Some sample_signer) sample_loader (sample_core, Idle)"
  by (rule reach_boot [OF sample_boot])

lemma sample_evaluating: "coord_reachable sample_cfg sample_chain (Some sample_signer) sample_loader (sample_core, Evaluating sample_prepared)"
proof (rule reach_step [OF sample_idle step_prepared])
  show "prepareSubmitEvaluation sample_cfg sample_chain (Some sample_signer \<noteq> None) sample_body (sample_core, ()) =
    Some (Inr (Inr sample_prepared), sample_core, ())" using sample_prepare by simp
qed

lemma sample_signed: "coord_reachable sample_cfg sample_chain (Some sample_signer) sample_loader (sample_signed_core, Idle)"
  by (rule reach_step [OF sample_evaluating step_finished [OF sample_finish]])

definition sample_event :: state_advanced_event where
  "sample_event = \<lparr> se_blockNumber = 101, se_blockHash = sample_ones, se_logIndex = 0, se_epoch = 7, se_transitionIndex = 0,
     se_miner = sample_addr, se_parent = sample_root, se_newRoot = sample_new_root, se_patchHash = computePatchHash (advance_bytes 200000),
     se_evalReportHash = sample_ones, se_coreV = sample_ones, se_corpus = sample_ones, se_frontier = sample_ones, se_credits = 0,
     se_wordCount = 2, se_compactPatchBytes = bytesToHex (advance_bytes 200000) \<rparr>"

lemma sample_lands: "lands_as sample_cfg (re_receipt sample_envelope) sample_event"
  by (simp add: lands_as_def sample_envelope_def envelope_of_def sample_receipt_payload_def receipt_of_def Let_def sample_event_def
      sample_transition_def sample_prepared_def sample_cfg_def sample_pins_def sample_strings)

section \<open>Witnesses\<close>


theorem coordinator_follows_chain_witness:
  "rooted (cs_liveState sample_signed_core) (cs_liveRoot sample_signed_core) \<and>
    confirmed sample_cfg (cs_parentState sample_signed_core) (cs_lastTransitionIndex sample_signed_core + 1) (cs_liveState sample_signed_core) \<and>
    length (cs_snapshots sample_signed_core) \<le> 64 \<and> tip_ok sample_signed_core"
  using coordinator_follows_chain [OF sample_signed] by simp

theorem served_state_has_root_witness: "rooted zero_state sample_root \<and> (\<exists>n. confirmed sample_cfg (cs_parentState sample_core) n zero_state)"
proof -
  have "getSubstrate sample_root sample_core = Some (sample_root, zero_state)"
    by (simp add: getSubstrate_def sample_core_def sample_root_facts)
  from served_state_has_root [OF sample_idle this] show ?thesis by simp
qed

theorem freeze_cancels_submission_witness:
  "\<exists>response t'. finishSubmitAfterEvaluation sample_cfg sample_chain (Some sample_signer) sample_prepared sample_eval
      (unfreeze (freeze sample_core), ()) = Some (Inr response, t', ()) \<and> (\<exists>code. response = Rejected code)"
proof -
  let ?t = "unfreeze (freeze sample_core)"
  have fields: "cs_submitDedup ?t = []" "cs_freezeGeneration ?t = 1"
    by (simp_all add: unfreeze_def freeze_def sample_core_fields)
  have "check_live_context ?t sample_prepared = Inl ''epoch_cutover_in_progress''"
    by (simp add: check_live_context_def fields) (simp add: sample_prepared_def)
  then have run: "finishSubmitAfterEvaluation sample_cfg sample_chain (Some sample_signer) sample_prepared sample_eval (?t, ()) =
      Some (Inr (Rejected ''epoch_cutover_in_progress''), rejectSubmission ''epoch_cutover_in_progress'' ?t, ())"
    by (simp add: finishSubmitAfterEvaluation_def with_state_def sample_check_eval reject_run_Some)
  have "(coord_step sample_cfg sample_chain (Some sample_signer))\<^sup>*\<^sup>* (freeze sample_core, Evaluating sample_prepared) (?t, Evaluating sample_prepared)"
    by (rule r_into_rtranclp) (rule step_unfreeze)
  from freeze_cancels_submission [OF sample_evaluating this run] run show ?thesis by blast
qed

lemma sample_advance_event: "\<exists>s. applyChainEvent sample_cfg sample_event sample_signed_core = Inr s" "sample_eval = State_advance sample_accepted
    (js_num.Num 100000) (js_num.Num 300000) (JString (bytesToHex (advance_bytes 0)))"
proof -
  show "sample_eval = State_advance sample_accepted (js_num.Num 100000) (js_num.Num 300000) (JString (bytesToHex (advance_bytes 0)))"
    by (simp add: sample_eval_def)
  have fields: "cs_lastTransitionIndex sample_signed_core = - 1" "cs_liveRoot sample_signed_core = sample_root"
    "cs_liveState sample_signed_core = zero_state"
    by (simp_all add: sample_signed_core_def record_receipt_def cacheReceipt_def Let_def sample_core_fields)
  have "check_pins sample_cfg sample_signed_core sample_event = Inr ()"
    by (simp add: check_pins_def fields Let_def) (simp add: sample_event_def sample_cfg_def sample_pins_def sample_root_facts sample_strings)
  moreover have "replay_event zero_state sample_event = Inr (sample_state, sample_new_root)"
    using sample_advance_wire [of 200000] sample_advance_apply [of 200000] sample_new_root_facts
    by (simp add: replay_event_iff sample_event_def rooted_def sample_advance_def sample_patch_def)
  ultimately show "\<exists>s. applyChainEvent sample_cfg sample_event sample_signed_core = Inr s"
    by (simp add: applyChainEvent_def fields)
qed

theorem signed_advance_lands_witness:
  "\<exists>s :: coordinator_state. applyChainEvent sample_cfg sample_event sample_signed_core = Inr s \<and> cs_liveRoot s = re_newStateRoot sample_envelope \<and>
    map_option pe_state (map_of (cs_pendingByPatchHash s) (re_patchHash sample_envelope)) = Some Confirmed"
proof -
  have "cs_liveState sample_core = pz_parentStateSnapshot sample_prepared" "se_transitionIndex sample_event = cs_lastTransitionIndex sample_core + 1"
    by (simp_all add: sample_core_fields) (simp_all add: sample_prepared_def sample_event_def)
  from signed_advance_lands [OF sample_evaluating this(1) sample_finish [unfolded sample_eval_def] sample_lands this(2)] show ?thesis by blast
qed

theorem receipt_chain_advances_witness:
  "\<exists>rv :: chain_reservation. map_of (cs_minerChainReservations sample_signed_core) (sb_miner (pz_parsed sample_prepared)) = Some rv \<and>
       rv_nextIndex rv = rp_solveIndex (re_receipt sample_envelope) + 1 \<and> rv_expiresAt rv = re_expiresAt sample_envelope"
  using receipt_chain_advances [OF sample_finish] by blast

theorem tick_parity_witness:
  "\<exists>r s'. tick sample_cfg sample_chain (sample_core, ()) = Some (r, s', ()) \<and> cs_signingEnabled s' \<and>
    cs_chainLiveRoot s' = toLowerCase (cs_liveRoot s') \<and> cs_chainTransitionCount s' = of_int (cs_lastTransitionIndex s' + 1)"
proof -
  have lag: "sample_core\<lparr>cs_finalityLagBlocks := 0\<rparr> = sample_core" "cs_lastScannedBlock sample_core = 100"
    by (simp_all add: sample_core_def new_coordinator_def)
  have "parity_result sample_root 0 sample_core = (True, sample_core)"
    by (simp add: parity_result_def sample_core_fields Let_def sample_root_facts) (simp add: sample_core_def)
  then have parity: "parityCheck sample_cfg sample_chain (sample_core, ()) = Some (Inr True, sample_core, ())"
    by (simp add: parityCheck_def sample_chain_def bind_io_def call_def return_io_def with_state_def modify_def)
  have audit: "(auditReceiptCacheAgainstCanonicalRoots sample_core)\<lparr>cs_signingEnabled := True, cs_unhealthyReason := None\<rparr> = sample_core"
    by (simp add: auditReceiptCacheAgainstCanonicalRoots_def sample_core_fields) (simp add: sample_core_def new_coordinator_def)
  have now: "gc_now sample_cfg sample_chain (sample_core, ()) = Some (Inr (), sample_core, ())"
    by (simp add: gc_now_def now_sec_def sample_chain_def bind_io_def call_def modify_def sample_gc)
  have depth: "cf_confirmationDepth sample_cfg = 0" by (simp add: sample_cfg_def)
  have number: "ch_getBlockNumber sample_chain = return_io 100" by (simp add: sample_chain_def)
  have "watch sample_cfg sample_chain (sample_core, ()) = Some (Inr (), sample_core, ())"
    by (simp add: watch_def bind_io_def sample_epoch call_def number return_io_def Let_def depth modify_def lag detect_reorg_def
        with_state_def sample_core_fields scan_events_def parity audit now)
  then have run: "tick sample_cfg sample_chain (sample_core, ()) = Some (Inr (), sample_core, ())"
    by (simp add: tick_def with_state_def sample_core_fields try_io_def return_io_def)
  with tick_parity [OF _ this] show ?thesis by (simp add: sample_core_fields)
qed


theorem submit_queue_bounded_witness:
  "cs_submitQueueDepth (enter_queue (Some sample_addr) sample_core) = 1 \<and> miner_count (enter_queue (Some sample_addr) sample_core) sample_addr = 1"
proof -
  have fields: "cs_submitQueueDepth sample_core = 0" "cs_pendingSubmitsByMiner sample_core = []"
    by (simp_all add: sample_core_def new_coordinator_def)
  have "queue_reachable sample_cfg (enter_queue (Some sample_addr) sample_core) [Some sample_addr]"
    by (rule queue_enter [OF queue_empty [OF fields]]) (simp add: queue_guard_def fields, simp add: sample_cfg_def or_else_def)
  from submit_queue_bounded [OF this] show ?thesis by simp
qed

text \<open>A lookup of the signed receipt while it is pending.\<close>

theorem lookup_returns_live_receipt_witness:
  "\<exists>s'. getReceiptByHash sample_cfg 1000 (re_patchHash sample_envelope) sample_signed_core = (Receipt_ok sample_envelope (Some Pending), s') \<and>
    map_of (cs_receiptCache s') (toLowerCase (re_patchHash sample_envelope)) = Some sample_envelope"
proof -
  let ?h = "re_patchHash sample_envelope"
  have hash: "?h = computePatchHash (advance_bytes 200000)" "toLowerCase ?h = ?h" "re_patchHash sample_envelope = rp_patchHash sample_receipt_payload"
    "re_expiresAt sample_envelope = 1600"
    by (simp_all add: sample_envelope_def envelope_of_def sample_receipt_payload_def receipt_of_def Let_def sample_transition_def
        patch_hash_text sample_prepared_def) (simp add: sample_cfg_def)
  define p where "p = pending_of sample_prepared sample_receipt_payload"
  have p: "pe_state p = Pending" "pe_expiresAt p = 1600"
    by (simp_all add: p_def pending_of_def sample_receipt_payload_def receipt_of_def Let_def sample_prepared_def) (simp add: sample_cfg_def)
  have pend: "cs_pendingByPatchHash sample_signed_core = [(?h, p)]"
    by (simp add: sample_signed_core_def record_receipt_def cacheReceipt_def Let_def sample_core_fields p_def hash(3))
      (simp add: sample_receipt_payload_def receipt_of_def Let_def)
  have cache: "\<forall>e \<in> set (cs_receiptCache sample_signed_core). snd e = sample_envelope"
    "map_of (cs_receiptCache sample_signed_core) ?h = Some sample_envelope"
    by (auto simp: sample_signed_core_def record_receipt_def cacheReceipt_def Let_def sample_core_fields hash(2) update_conv'
        split: if_split_asm)
  have one: "gc_receipt_one sample_cfg 1000 sample_signed_core e = sample_signed_core" if "snd e = sample_envelope" for e
    using that p by (cases e) (simp add: gc_receipt_one_def pend hash(2))
  have "foldl (gc_receipt_one sample_cfg 1000) sample_signed_core es = sample_signed_core" if "\<forall>e \<in> set es. snd e = sample_envelope" for es
    using that by (induction es) (auto simp: one)
  moreover have "foldl (gc_pending_one sample_cfg 1000) sample_signed_core [(?h, p)] = sample_signed_core"
    by (simp add: gc_pending_one_def p)
  ultimately have "cs_receiptCache (gcPending sample_cfg 1000 sample_signed_core) = cs_receiptCache sample_signed_core"
    "cs_pendingByPatchHash (gcPending sample_cfg 1000 sample_signed_core) = [(?h, p)]"
    using cache(1) by (simp_all add: gcPending_def pend Let_def)
  then have "getReceiptByHash sample_cfg 1000 ?h sample_signed_core =
      (Receipt_ok sample_envelope (Some Pending), gcPending sample_cfg 1000 sample_signed_core)"
    using p cache(2) by (simp add: getReceiptByHash_def Let_def hash(2))
  with lookup_returns_live_receipt [OF this] show ?thesis by blast
qed

text \<open>A reorganisation above the block of the landed advance: its snapshot is kept.\<close>

definition sample_landed :: coordinator_state where
  "sample_landed = commit_event sample_signed_core sample_event sample_state sample_new_root"

definition sample_fork :: "unit chain_client" where
  "sample_fork = sample_chain\<lparr>ch_getBlockHashAt := (\<lambda>n. return_io (Some sample_ones))\<rparr>"

theorem reorg_to_last_canonical_witness:
  "\<exists>s'. handleReorg sample_fork (sample_landed, ()) = Some (Inr True, s', ()) \<and> core_ok sample_cfg s' \<and>
    length (cs_snapshots s') = 1 \<and> cs_liveState s' = sample_state \<and> \<not> cs_signingEnabled s'"
proof -
  from sample_advance_event(1) have "applyChainEvent sample_cfg sample_event sample_signed_core = Inr sample_landed"
    using sample_advance_wire [of 200000] sample_advance_apply [of 200000] sample_new_root_facts
    by (auto simp: applyChainEvent_def bind_res_eq_Inr sample_landed_def replay_event_iff rooted_def sample_event_def
        sample_signed_core_def record_receipt_def cacheReceipt_def Let_def sample_core_fields)
  from applyChainEvent_core_ok [OF _ this] have ok: "core_ok sample_cfg sample_landed" using reachable_ok [OF sample_signed] by simp
  have chain: "ch_getBlockHashAt sample_fork n w = Some (Inr (Some sample_ones), w)" for n w
    by (simp add: sample_fork_def return_io_def)
  obtain sn where snaps: "cs_snapshots sample_landed = [sn]" "sn_state sn = sample_state" "sn_blockHash sn = sample_ones"
    by (simp add: sample_landed_def commit_event_def sample_signed_core_def record_receipt_def cacheReceipt_def Let_def sample_core_fields
        push_snapshot_def MAX_SNAPSHOTS_def) (simp add: sample_event_def)
  have canon: "canonical_match (Some sample_ones) (sn_blockHash sn)" using sample_strings(10) by (simp add: canonical_match_def snaps)
  have "\<exists>r s'. handleReorg sample_fork (sample_landed, ()) = Some (r, s', ())"
    by (simp add: handleReorg_def with_state_def bind_io_def call_def snaps chain canon return_io_def modify_def)
  then obtain r s' where run: "handleReorg sample_fork (sample_landed, ()) = Some (r, s', ())" by blast
  from reorg_to_last_canonical [OF chain this ok] show ?thesis using run canon by (auto simp: snaps)
qed

end
