(* ===== verification/Dedup_Store.thy ===== *)
theory Dedup_Store
  imports Per_Patch Eligibility Runs
begin

text \<open>
  The store of evaluation attempts of \<open>src/coordinator/production-evaluator.ts\<close>: the interface the
  host of the evaluator provides and the version in memory.  The first draw of a seed and the
  charge of the miner's admission are one write; the outcome is a second one.
\<close>

section \<open>Data\<close>

record attempt_key =
  dk_epochId :: int
  dk_parentStateRoot :: string
  dk_patchHash :: string

datatype dedup_outcome = DO_reject | DO_screener_pass | DO_state_advance

record dedup_record =
  dr_key :: attempt_key
  dr_outcome :: dedup_outcome
  dr_code :: "string option"

datatype attempt_state = AS_drawn | AS_rejected | AS_accepted

record attempt_record =
  at_key :: attempt_key
  at_state :: attempt_state
  at_seedContext :: seed_context
  at_minerAddress :: string
  at_admissionCharged :: bool
  at_outcome :: "dedup_outcome option"
  at_code :: "string option"

record 'w dedup_store =
  st_get :: "attempt_key \<Rightarrow> (dedup_record option, 'w) io"
  st_put :: "dedup_record \<Rightarrow> (unit, 'w) io"
  st_minerAdmissions :: "int \<Rightarrow> string \<Rightarrow> (rat, 'w) io"
  st_getAttempt :: "attempt_key \<Rightarrow> (attempt_record option, 'w) io"
  st_recordSeedDrawnAndAdmission :: "attempt_key \<Rightarrow> seed_context \<Rightarrow> string \<Rightarrow> (unit, 'w) io"
  st_recordAttemptOutcome :: "attempt_key \<Rightarrow> attempt_state \<Rightarrow> dedup_outcome \<Rightarrow> string option \<Rightarrow> (unit, 'w) io"

section \<open>In memory\<close>

record memory_store =
  ms_records :: "(string \<times> dedup_record) list"
  ms_attempts :: "(string \<times> attempt_record) list"

definition recordKey :: "attempt_key \<Rightarrow> string" where
  "recordKey k = bigint_to_string (dk_epochId k) @ ''|'' @ toLowerCase (dk_parentStateRoot k) @ ''|'' @ toLowerCase (dk_patchHash k)"

definition normalizeKey :: "attempt_key \<Rightarrow> attempt_key" where
  "normalizeKey k = k\<lparr>dk_parentStateRoot := toLowerCase (dk_parentStateRoot k), dk_patchHash := toLowerCase (dk_patchHash k)\<rparr>"

text \<open>\<open>...(code ? { code } : {})\<close>\<close>

definition some_code :: "string option \<Rightarrow> string option" where
  "some_code code = (if code = Some '''' then None else code)"

definition mem_get :: "memory_store \<Rightarrow> attempt_key \<Rightarrow> dedup_record option" where
  "mem_get s key = map_of (ms_records s) (recordKey key)"

definition mem_put :: "dedup_record \<Rightarrow> memory_store \<Rightarrow> memory_store" where
  "mem_put record s = s\<lparr>ms_records := AList.update (recordKey (dr_key record)) record (ms_records s)\<rparr>"

definition counts_for :: "int \<Rightarrow> string \<Rightarrow> attempt_record \<Rightarrow> bool" where
  "counts_for epochId miner a \<longleftrightarrow> dk_epochId (at_key a) = epochId \<and> at_admissionCharged a \<and> at_minerAddress a = miner"

definition mem_minerAdmissions :: "memory_store \<Rightarrow> int \<Rightarrow> string \<Rightarrow> rat" where
  "mem_minerAdmissions s epochId minerAddress =
     (let miner = toLowerCase minerAddress in
      foldl (\<lambda>count (k, a). if counts_for epochId miner a then count + 1 else count) 0 (ms_attempts s))"

definition mem_getAttempt :: "memory_store \<Rightarrow> attempt_key \<Rightarrow> attempt_record option" where
  "mem_getAttempt s key = map_of (ms_attempts s) (recordKey key)"

definition drawn_attempt :: "attempt_key \<Rightarrow> seed_context \<Rightarrow> string \<Rightarrow> attempt_record" where
  "drawn_attempt key seedContext minerAddress =
     \<lparr> at_key = normalizeKey key, at_state = AS_drawn,
       at_seedContext = seedContext\<lparr>sc_blockhash := toLowerCase (sc_blockhash seedContext)\<rparr>,
       at_minerAddress = toLowerCase minerAddress, at_admissionCharged = True, at_outcome = None, at_code = None \<rparr>"

definition mem_recordSeedDrawnAndAdmission :: "attempt_key \<Rightarrow> seed_context \<Rightarrow> string \<Rightarrow> memory_store \<Rightarrow> memory_store" where
  "mem_recordSeedDrawnAndAdmission key seedContext minerAddress s =
     (let mapKey = recordKey key in
      if map_of (ms_attempts s) mapKey \<noteq> None then s
      else s\<lparr>ms_attempts := AList.update mapKey (drawn_attempt key seedContext minerAddress) (ms_attempts s)\<rparr>)"

definition finished_attempt :: "attempt_state \<Rightarrow> dedup_outcome \<Rightarrow> string option \<Rightarrow> attempt_record \<Rightarrow> attempt_record" where
  "finished_attempt state outcome code prior =
     prior\<lparr>at_state := state, at_outcome := Some outcome,
       at_code := (case some_code code of None \<Rightarrow> at_code prior | c \<Rightarrow> c)\<rparr>"

definition mem_recordAttemptOutcome ::
  "attempt_key \<Rightarrow> attempt_state \<Rightarrow> dedup_outcome \<Rightarrow> string option \<Rightarrow> memory_store \<Rightarrow> js_error + memory_store" where
  "mem_recordAttemptOutcome key state outcome code s =
     (let mapKey = recordKey key in
      case map_of (ms_attempts s) mapKey of
        None \<Rightarrow> Inl (Error ''recordAttemptOutcome called before recordSeedDrawnAndAdmission (no pinned seed)'')
      | Some prior \<Rightarrow>
          Inr (s\<lparr>ms_attempts := AList.update mapKey (finished_attempt state outcome code prior) (ms_attempts s)\<rparr>))"

definition createInMemoryDedupStore :: "(memory_store \<times> 'w) dedup_store" where
  "createInMemoryDedupStore =
     \<lparr> st_get = (\<lambda>key. with_state (\<lambda>s. return_io (mem_get s key))),
       st_put = (\<lambda>record. modify (mem_put record)),
       st_minerAdmissions = (\<lambda>epochId miner. with_state (\<lambda>s. return_io (mem_minerAdmissions s epochId miner))),
       st_getAttempt = (\<lambda>key. with_state (\<lambda>s. return_io (mem_getAttempt s key))),
       st_recordSeedDrawnAndAdmission = (\<lambda>key seedContext miner. modify (mem_recordSeedDrawnAndAdmission key seedContext miner)),
       st_recordAttemptOutcome = (\<lambda>key state outcome code. modify_res (mem_recordAttemptOutcome key state outcome code)) \<rparr>"

section \<open>The contract\<close>

text \<open>
  What the evaluator relies on.  \<open>rec\<close> and \<open>att\<close> are the records and attempts that a world holds,
  by the text of their key; the admissions of a miner are the attempts charged to it.
\<close>

definition charged_keys :: "(string \<Rightarrow> attempt_record option) \<Rightarrow> int \<Rightarrow> string \<Rightarrow> string set" where
  "charged_keys attempts epochId miner = {k. \<exists>a. attempts k = Some a \<and> counts_for epochId miner a}"

locale eval_store =
  fixes store :: "'w dedup_store"
    and rec :: "'w \<Rightarrow> string \<Rightarrow> dedup_record option" and att :: "'w \<Rightarrow> string \<Rightarrow> attempt_record option"
    and ok :: "'w \<Rightarrow> bool"
  assumes get: "st_get store k w = Some (Inr (rec w (recordKey k)), w)"
    and put: "\<exists>w'. st_put store r w = Some (Inr (), w') \<and> rec w' = (rec w)(recordKey (dr_key r) \<mapsto> r) \<and> att w' = att w \<and> (ok w \<longrightarrow> ok w')"
    and admissions: "\<exists>n. st_minerAdmissions store e m w = Some (Inr n, w) \<and> (ok w \<longrightarrow> n = of_nat (card (charged_keys (att w) e (toLowerCase m))))"
    and getAttempt: "st_getAttempt store k w = Some (Inr (att w (recordKey k)), w)"
    and draw: "\<exists>w'. st_recordSeedDrawnAndAdmission store k ctx m w = Some (Inr (), w') \<and> rec w' = rec w \<and> (ok w \<longrightarrow> ok w') \<and>
      att w' = (if att w (recordKey k) = None then (att w)(recordKey k \<mapsto> drawn_attempt k ctx m) else att w)"
    and outcome: "att w (recordKey k) = Some a \<Longrightarrow> \<exists>w'. st_recordAttemptOutcome store k st out code w = Some (Inr (), w') \<and>
      rec w' = rec w \<and> att w' = (att w)(recordKey k \<mapsto> finished_attempt st out code a) \<and> (ok w \<longrightarrow> ok w')"
    and no_outcome: "att w (recordKey k) = None \<Longrightarrow> \<exists>e. st_recordAttemptOutcome store k st out code w = Some (Inl e, w)"
    and finite_attempts: "ok w \<Longrightarrow> finite (dom (att w))"

text \<open>The store in memory: its keys are distinct.\<close>

definition mem_ok :: "memory_store \<Rightarrow> bool" where
  "mem_ok s \<longleftrightarrow> distinct (map fst (ms_attempts s))"

lemma mem_minerAdmissions_count:
  "mem_minerAdmissions s e m = of_nat (length (filter (\<lambda>(k, a). counts_for e (toLowerCase m) a) (ms_attempts s)))"
proof -
  have "foldl (\<lambda>count (k, a). if counts_for e (toLowerCase m) a then count + 1 else count) c xs =
      c + of_nat (length (filter (\<lambda>(k, a). counts_for e (toLowerCase m) a) xs))" for c :: rat and xs :: "(string \<times> attempt_record) list"
    by (induction xs arbitrary: c) (auto split: prod.splits)
  then show ?thesis by (simp add: mem_minerAdmissions_def Let_def)
qed

lemma mem_admissions_charged:
  assumes "mem_ok s"
  shows "mem_minerAdmissions s e m = of_nat (card (charged_keys (map_of (ms_attempts s)) e (toLowerCase m)))"
proof -
  let ?f = "filter (\<lambda>(k, a). counts_for e (toLowerCase m) a) (ms_attempts s)"
  have "charged_keys (map_of (ms_attempts s)) e (toLowerCase m) = fst ` set ?f"
    using assms by (force simp: charged_keys_def mem_ok_def map_of_eq_Some_iff image_iff)
  moreover have "card (fst ` set ?f) = length ?f"
  proof -
    have "distinct (map fst ?f)" using assms by (simp add: mem_ok_def distinct_map_filter)
    then show ?thesis by (metis distinct_card length_map list.set_map)
  qed
  ultimately show ?thesis by (simp add: mem_minerAdmissions_count)
qed

interpretation memory: eval_store createInMemoryDedupStore
    "\<lambda>(s, w). map_of (ms_records s)" "\<lambda>(s, w). map_of (ms_attempts s)" "\<lambda>(s, w). mem_ok s"
proof unfold_locales
qed (auto simp: createInMemoryDedupStore_def with_state_def modify_def modify_res_def mem_get_def mem_put_def
    mem_getAttempt_def mem_admissions_charged mem_recordSeedDrawnAndAdmission_def mem_recordAttemptOutcome_def mem_ok_def
    update_conv' distinct_update Let_def finite_dom_map_of)

end
