(* ===== verification/Eval_Artifact.thy ===== *)
theory Eval_Artifact
  imports Per_Patch Canonical_Json
begin

text \<open>
  \<open>src/replay/eval-report-artifact.ts\<close>: the report of an accepted evaluation.  Its canonical text
  is hashed, the hash is what the receipt on the chain commits to, and after the epoch secret is
  revealed anyone checks the published document against it.  A document that is checked is JSON
  from outside, so it is a value and every field is looked at before it is used.
\<close>

section \<open>Reading a document\<close>

definition jget :: "js_value \<Rightarrow> string \<Rightarrow> js_value" where
  "jget v k = (case v of JObject obj \<Rightarrow> or_else (map_of obj k) JUndefined | _ \<Rightarrow> JUndefined)"

text \<open>\<open>v && typeof v === 'object'\<close>\<close>

fun is_object :: "js_value \<Rightarrow> bool" where
  "is_object (JObject _) = True"
| "is_object (JArray _) = True"
| "is_object (JMap _) = True"
| "is_object (JBytes _) = True"
| "is_object _ = False"

fun string_value :: "js_value \<Rightarrow> string" where
  "string_value (JString s) = s"
| "string_value _ = ''''"

fun number_value :: "js_value \<Rightarrow> rat" where
  "number_value (JNumber (Finite x)) = x"
| "number_value _ = 0"

fun truthy :: "js_value \<Rightarrow> bool" where
  "truthy JUndefined = False"
| "truthy JNull = False"
| "truthy (JBool b) = b"
| "truthy (JNumber (Finite x)) = (x \<noteq> 0)"
| "truthy (JString s) = (s \<noteq> '''')"
| "truthy (JBigint n) = (n \<noteq> 0)"
| "truthy _ = True"

fun string_with :: "(string \<Rightarrow> bool) \<Rightarrow> js_value \<Rightarrow> bool" where
  "string_with P (JString s) = P s"
| "string_with P _ = False"

text \<open>\<open>Number.isSafeInteger(v) && v >= 0\<close>\<close>

fun safe_count :: "js_value \<Rightarrow> bool" where
  "safe_count (JNumber (Finite x)) = (safe_integer x \<and> x \<ge> 0)"
| "safe_count _ = False"

text \<open>The message of the first check that fails.\<close>

fun first_failure :: "(bool \<times> string) list \<Rightarrow> string option" where
  "first_failure [] = None"
| "first_failure ((ok, msg) # checks) = (if ok then first_failure checks else Some msg)"

lemma first_failure_None: "first_failure checks = None \<longleftrightarrow> list_all fst checks"
  by (induction checks rule: first_failure.induct) auto

section \<open>Shape and binding\<close>

definition count_checks :: "string \<Rightarrow> js_value \<Rightarrow> string list \<Rightarrow> (bool \<times> string) list" where
  "count_checks label v keys = map (\<lambda>key. (safe_count (jget v key), label @ key @ '' invalid'')) keys"

definition bytes32_checks :: "string \<Rightarrow> js_value \<Rightarrow> string list \<Rightarrow> (bool \<times> string) list" where
  "bytes32_checks label v keys = map (\<lambda>key. (string_with BYTES32_RE (jget v key), label @ key @ '' must be bytes32'')) keys"

definition even_hex :: "string \<Rightarrow> bool" where
  "even_hex s \<longleftrightarrow> hex_string s \<and> (length s - 2) mod 2 = 0"

text \<open>\<open>a.toLowerCase() === b.toLowerCase()\<close> for two fields that were found to be strings, and \<open>hexEq\<close>.\<close>

definition same_hex :: "js_value \<Rightarrow> js_value \<Rightarrow> bool" where
  "same_hex a b \<longleftrightarrow> (case (a, b) of (JString s, JString t) \<Rightarrow> hexEq s t | _ \<Rightarrow> False)"

definition shape_checks :: "js_value \<Rightarrow> (bool \<times> string) list" where
  "shape_checks artifact =
     (let seed = jget artifact ''seedDerivation''; context = jget artifact ''context''; receipt = jget artifact ''receipt'' in
      [(is_object artifact, ''artifact must be an object''),
       (jget artifact ''version'' = JString ''coretex-post-reveal-eval-report-v1'', ''version mismatch'')]
      @ bytes32_checks '''' artifact [''evalReportHash'', ''artifactHash'']
      @ count_checks '''' artifact [''epochId'']
      @ [(string_with ADDR_RE (jget artifact ''minerAddress''), ''minerAddress invalid''),
         (jget artifact ''outcome'' \<in> {JString ''SCREENER_PASS'', JString ''STATE_ADVANCE''}, ''outcome invalid''),
         (string_with even_hex (jget artifact ''compactPatchBytesHex''), ''compactPatchBytesHex invalid'')]
      @ count_checks '''' artifact [''thresholdPpm'']
      @ [(is_object seed, ''seedDerivation missing''),
         (jget seed ''mode'' = JString ''future_blockhash_dual_pack'', ''seedDerivation.mode invalid'')]
      @ count_checks ''seedDerivation.'' seed [''epochId'', ''receivedAtBlock'', ''targetBlock'', ''targetBlockOffset'']
      @ bytes32_checks ''seedDerivation.'' seed [''blockhash'', ''patchHash'', ''parentStateRoot'', ''corpusRoot'', ''bundleHash'']
      @ [(is_object context, ''context missing'')]
      @ bytes32_checks ''context.'' context [''parentStateRoot'', ''corpusRoot'', ''coreVersionHash'', ''hiddenSeedCommit'']
      @ count_checks ''context.'' context [''replayTolerancePpm'']
      @ [(is_object receipt, ''receipt missing'')]
      @ count_checks ''receipt.'' receipt [''epochId'']
      @ bytes32_checks ''receipt.'' receipt [''parentRoot'']
      @ [(string_with ADDR_RE (jget receipt ''minerAddress''), ''receipt.minerAddress invalid'')]
      @ count_checks ''receipt.'' receipt [''gateScorePpm'', ''confirmScorePpm'', ''receivedAtBlock'', ''targetBlock'']
      @ bytes32_checks ''receipt.'' receipt [''blockhash'', ''patchHash'', ''gateSeed'', ''confirmSeed'']
      @ [(jget receipt ''epochId'' = jget artifact ''epochId'', ''receipt epoch mismatch''),
         (same_hex (jget receipt ''parentRoot'') (jget context ''parentStateRoot''), ''receipt parent mismatch''),
         (same_hex (jget receipt ''minerAddress'') (jget artifact ''minerAddress''), ''receipt miner mismatch'')])"

definition validateArtifactShape :: "js_value \<Rightarrow> string option" where
  "validateArtifactShape artifact = first_failure (shape_checks artifact)"

text \<open>The texts of the two messages below that quote numbers are cut off before them.\<close>

definition binding_checks :: "js_value \<Rightarrow> (bool \<times> string) list" where
  "binding_checks artifact =
     (let seed = jget artifact ''seedDerivation''; receipt = jget artifact ''receipt''; context = jget artifact ''context'' in
      [(jget seed ''epochId'' = jget artifact ''epochId'', ''seedDerivation.epochId''),
       (jget seed ''receivedAtBlock'' = jget receipt ''receivedAtBlock'', ''seedDerivation.receivedAtBlock''),
       (jget seed ''targetBlock'' = jget receipt ''targetBlock'', ''seedDerivation.targetBlock''),
       (dbl (number_value (jget seed ''receivedAtBlock'') + number_value (jget seed ''targetBlockOffset'')) =
          number_value (jget seed ''targetBlock''), ''targetBlock''),
       (same_hex (jget seed ''blockhash'') (jget receipt ''blockhash''), ''seedDerivation.blockhash != receipt blockhash''),
       (same_hex (jget seed ''patchHash'') (jget receipt ''patchHash''), ''seedDerivation.patchHash != receipt patchHash''),
       (same_hex (jget seed ''parentStateRoot'') (jget receipt ''parentRoot''), ''seedDerivation.parentStateRoot != receipt parentRoot''),
       (same_hex (jget seed ''parentStateRoot'') (jget context ''parentStateRoot''), ''seedDerivation.parentStateRoot != context''),
       (same_hex (jget seed ''corpusRoot'') (jget context ''corpusRoot''), ''seedDerivation.corpusRoot != context corpusRoot''),
       (same_hex (jget seed ''bundleHash'') (jget context ''coreVersionHash''), ''seedDerivation.bundleHash != context coreVersionHash'')])"

definition validateSeedDerivationBinding :: "js_value \<Rightarrow> string option" where
  "validateSeedDerivationBinding artifact = first_failure (binding_checks artifact)"

section \<open>The hash\<close>

text \<open>The document without the two fields that hold the hash.\<close>

definition artifact_payload :: "js_value \<Rightarrow> (string \<times> js_value) list" where
  "artifact_payload artifact =
     (case artifact of
        JObject obj \<Rightarrow> filter (\<lambda>(k, v). k \<notin> {''artifactHash'', ''evalReportHash''}) obj
      | JArray vs \<Rightarrow> zip (map (\<lambda>i. bigint_to_string (int i)) [0..<length vs]) vs
      | _ \<Rightarrow> [])"

definition hashPostRevealEvalReportArtifact :: "(rat \<Rightarrow> string) \<Rightarrow> js_value \<Rightarrow> js_error + string" where
  "hashPostRevealEvalReportArtifact ns artifact =
     map_sum id (\<lambda>text. toLowerCase (bytesToHex (keccak256 (utf8 text))))
       (canonicalJson ns False (JObject (artifact_payload artifact)))"

definition buildPostRevealEvalReportArtifact ::
  "(rat \<Rightarrow> string) \<Rightarrow> (string \<times> js_value) list \<Rightarrow> js_error + js_value" where
  "buildPostRevealEvalReportArtifact ns artifact =
     map_sum id (\<lambda>hash. JObject (AList.update ''evalReportHash'' (JString hash)
         (AList.update ''artifactHash'' (JString hash) artifact)))
       (hashPostRevealEvalReportArtifact ns (JObject artifact))"

definition EVAL_REPORT_ARTIFACT_DIR :: string where "EVAL_REPORT_ARTIFACT_DIR = ''eval-reports''"

definition evalReportArtifactRelativePath :: "string \<Rightarrow> js_error + string" where
  "evalReportArtifactRelativePath artifactHash =
     (if \<not> BYTES32_RE artifactHash then Inl (Error ''evalReportArtifactRelativePath: artifactHash must be bytes32'')
      else Inr (EVAL_REPORT_ARTIFACT_DIR @ ''/'' @ toLowerCase artifactHash @ ''.json''))"

definition evalReportArtifactUrl :: "string \<Rightarrow> string \<Rightarrow> js_error + string" where
  "evalReportArtifactUrl baseUrl artifactHash =
     map_sum id (\<lambda>path. rev (dropWhile (\<lambda>c. c = CHR ''/'') (rev baseUrl)) @ ''/'' @ path)
       (evalReportArtifactRelativePath artifactHash)"

section \<open>The check\<close>

record 'w artifact_deps =
  av_rpcClient :: "'w base_rpc_client"
  av_scorer :: "'w per_patch_scorer"
  av_epochSecret :: string

datatype artifact_check =
  Artifact_ok (checked_hash: string) (checked_gate: js_num) (checked_confirm: js_num)
| Artifact_malformed string | Artifact_hash_mismatch | Artifact_report_hash_mismatch | Artifact_seed_inputs_mismatch string
| Artifact_not_accepted | Artifact_below_threshold | Artifact_secret_mismatch | Artifact_replay verification_failure

definition num_of :: "js_value \<Rightarrow> js_num" where
  "num_of v = (case v of JNumber (Finite x) \<Rightarrow> js_num.Num x | _ \<Rightarrow> NaN)"

text \<open>The receipt inside of a document whose shape has been checked, with its dedup key, which
  has not.\<close>

definition document_receipt :: "js_value \<Rightarrow> string \<Rightarrow> per_patch_receipt" where
  "document_receipt v dedupKey =
     \<lparr> pr_patchHash = string_value (jget v ''patchHash''), pr_dedupKey = dedupKey,
       pr_parentRoot = string_value (jget v ''parentRoot''), pr_minerAddress = string_value (jget v ''minerAddress''),
       pr_epochId = \<lfloor>number_value (jget v ''epochId'')\<rfloor>, pr_receivedAtBlock = num_of (jget v ''receivedAtBlock''),
       pr_targetBlock = num_of (jget v ''targetBlock''), pr_blockhash = string_value (jget v ''blockhash''),
       pr_gateSeed = string_value (jget v ''gateSeed''), pr_confirmSeed = string_value (jget v ''confirmSeed''),
       pr_gateScorePpm = num_of (jget v ''gateScorePpm''), pr_confirmScorePpm = num_of (jget v ''confirmScorePpm''),
       pr_accepted = truthy (jget v ''accepted''), pr_rejectionReason = None \<rparr>"

definition replay_receipt :: "js_value \<Rightarrow> 'w verification_deps \<Rightarrow> (verification_result, 'w) io" where
  "replay_receipt v deps =
     (case jget v ''dedupKey'' of
        JString key \<Rightarrow> verifyPerPatchReceipt (document_receipt v key) deps
      | _ \<Rightarrow>
          if \<not> hexEq (computePatchHash (vd_normalizedPatchBytes deps)) (string_value (jget v ''patchHash''))
          then return_io (Failed PATCH_HASH_MISMATCH)
          else bind_io (lift_res (computeDedupKey (string_value (jget v ''parentRoot'')) (vd_normalizedPatchBytes deps)))
            (\<lambda>_. throw_io (TypeError ''toLowerCase'')))"

definition artifact_replay_deps :: "js_value \<Rightarrow> 'w artifact_deps \<Rightarrow> bytes \<Rightarrow> 'w verification_deps" where
  "artifact_replay_deps artifact deps compactPatchBytes =
     (let context = jget artifact ''context'' in
      \<lparr> vd_rpcClient = av_rpcClient deps, vd_replayTolerancePpm = num_of (jget context ''replayTolerancePpm''),
        vd_scorer = av_scorer deps, vd_epochSecret = av_epochSecret deps,
        vd_corpusRoot = string_value (jget context ''corpusRoot''),
        vd_bundleHash = string_value (jget context ''coreVersionHash''), vd_normalizedPatchBytes = compactPatchBytes \<rparr>)"

definition min_dual :: "js_value \<Rightarrow> rat" where
  "min_dual receipt = min (number_value (jget receipt ''gateScorePpm'')) (number_value (jget receipt ''confirmScorePpm''))"

definition secret_commit :: "string \<Rightarrow> js_error + string" where
  "secret_commit secret = map_sum id (\<lambda>bs. toLowerCase (bytesToHex (keccak256 bs))) (hexToBytes_checked secret)"

definition verifyPostRevealEvalReportArtifact ::
  "(rat \<Rightarrow> string) \<Rightarrow> js_value \<Rightarrow> 'w artifact_deps \<Rightarrow> (artifact_check, 'w) io" where
  "verifyPostRevealEvalReportArtifact ns artifact deps =
     (case validateArtifactShape artifact of
        Some shape \<Rightarrow> return_io (Artifact_malformed shape)
      | None \<Rightarrow>
        bind_io (lift_res (hashPostRevealEvalReportArtifact ns artifact)) (\<lambda>hash.
        if hash \<noteq> toLowerCase (string_value (jget artifact ''artifactHash'')) then return_io Artifact_hash_mismatch
        else if \<not> same_hex (jget artifact ''evalReportHash'') (jget artifact ''artifactHash'')
        then return_io Artifact_report_hash_mismatch
        else (case validateSeedDerivationBinding artifact of
          Some seedInputs \<Rightarrow> return_io (Artifact_seed_inputs_mismatch seedInputs)
        | None \<Rightarrow>
          if \<not> truthy (jget (jget artifact ''receipt'') ''accepted'') then return_io Artifact_not_accepted
          else if min_dual (jget artifact ''receipt'') < number_value (jget artifact ''thresholdPpm'')
          then return_io Artifact_below_threshold
          else
            bind_io (lift_res (secret_commit (av_epochSecret deps))) (\<lambda>secretCommit.
            if secretCommit \<noteq> toLowerCase (string_value (jget (jget artifact ''context'') ''hiddenSeedCommit''))
            then return_io Artifact_secret_mismatch
            else
              bind_io (lift_res (hexToBytes_checked (string_value (jget artifact ''compactPatchBytesHex'')))) (\<lambda>compactPatchBytes.
              bind_io (replay_receipt (jget artifact ''receipt'') (artifact_replay_deps artifact deps compactPatchBytes)) (\<lambda>replay.
              case replay of
                Failed code \<Rightarrow> return_io (Artifact_replay code)
              | Verified gateDelta confirmDelta \<Rightarrow> return_io (Artifact_ok hash gateDelta confirmDelta)))))))"

section \<open>The hash commits to the document\<close>

lemma utf8_Cons: "utf8 (c # s) =
    (let n = of_char c :: nat in if n < 128 then [of_nat n] else [of_nat (192 + n div 64), of_nat (128 + n mod 64)]) @ utf8 s"
  by (simp add: utf8_def)

lemma utf8_char:
  assumes "utf8 (c # s) = utf8 (d # t)"
  shows "c = d \<and> utf8 s = utf8 t"
proof -
  have b: "(of_char c :: nat) < 256" "(of_char d :: nat) < 256" by (simp_all add: of_char_def)
  have w: "(of_nat m :: byte) = of_nat n \<longleftrightarrow> m = n" if "m < 256" "n < 256" for m n
    using that by (simp add: word_of_nat_eq_iff take_bit_nat_eq_self)
  have lt: "192 + n div 64 < 256" "128 + n mod 64 < 256" if "n < 256" for n :: nat
    using div_le_mono [of n 255 64] mod_less_divisor [of 64 n] that by simp_all
  have n: "(of_char c :: nat) = of_char d \<and> utf8 s = utf8 t"
  proof (cases "(of_char c :: nat) < 128"; cases "(of_char d :: nat) < 128")
    assume a: "\<not> (of_char c :: nat) < 128" "\<not> (of_char d :: nat) < 128"
    with assms have "(of_nat (192 + of_char c div 64) :: byte) = of_nat (192 + of_char d div 64)"
      "(of_nat (128 + of_char c mod 64) :: byte) = of_nat (128 + of_char d mod 64)" "utf8 s = utf8 t"
      by (simp_all add: utf8_Cons Let_def del: of_nat_add)
    then have "(of_char c :: nat) div 64 = of_char d div 64" "(of_char c :: nat) mod 64 = of_char d mod 64"
      using w [OF lt(1) [OF b(1)] lt(1) [OF b(2)]] w [OF lt(2) [OF b(1)] lt(2) [OF b(2)]] by simp_all
    then have "(of_char c :: nat) = of_char d" by (metis div_mult_mod_eq)
    with \<open>utf8 s = utf8 t\<close> show ?thesis by simp
  next
    assume a: "(of_char c :: nat) < 128" "(of_char d :: nat) < 128"
    with assms w [of "of_char c" "of_char d"] show ?thesis by (simp add: utf8_Cons)
  next
    assume a: "(of_char c :: nat) < 128" "\<not> (of_char d :: nat) < 128"
    with assms w [of "of_char c" "192 + of_char d div 64"] lt(1) [OF b(2)] show ?thesis
      by (simp add: utf8_Cons Let_def del: of_nat_add)
  next
    assume a: "\<not> (of_char c :: nat) < 128" "(of_char d :: nat) < 128"
    with assms w [of "192 + of_char c div 64" "of_char d"] lt(1) [OF b(1)] show ?thesis
      by (simp add: utf8_Cons Let_def del: of_nat_add)
  qed
  then show ?thesis by simp
qed

lemma utf8_inject: "utf8 s = utf8 t \<Longrightarrow> s = t"
proof (induction s arbitrary: t)
  case Nil
  then show ?case by (cases t) (auto simp: utf8_def Let_def split: if_splits)
next
  case (Cons c s)
  show ?case
  proof (cases t)
    case Nil
    with Cons.prems show ?thesis by (auto simp: utf8_def Let_def split: if_splits)
  next
    case (Cons d t')
    with Cons.prems Cons.IH [of t'] utf8_char [of c s d t'] show ?thesis by simp
  qed
qed

lemma hash_text:
  "hashPostRevealEvalReportArtifact ns a = Inr h \<longleftrightarrow>
    (\<exists>text. canonicalJson ns False (JObject (artifact_payload a)) = Inr text \<and> h = bytesToHex (keccak256 (utf8 text)))"
  by (cases "canonicalJson ns False (JObject (artifact_payload a))") (auto simp: hashPostRevealEvalReportArtifact_def)

text \<open>
  C26: the hash of a report commits to all of it.  Two documents with one hash have the same fields
  with the same contents, apart from the two fields that hold the hash, or the hash function
  collides on their two canonical texts.
\<close>

theorem artifact_hash_commits:
  assumes "number_format ns" and "hashPostRevealEvalReportArtifact ns a = Inr h" and "hashPostRevealEvalReportArtifact ns b = Inr h"
    and "numbers_ok (document (JObject (artifact_payload a)))" and "numbers_ok (document (JObject (artifact_payload b)))"
  shows "document (JObject (artifact_payload a)) = document (JObject (artifact_payload b)) \<or>
    (\<exists>s t. canonicalJson ns False (JObject (artifact_payload a)) = Inr s \<and>
      canonicalJson ns False (JObject (artifact_payload b)) = Inr t \<and> collide [utf8 s] [utf8 t])"
proof -
  obtain s where s: "canonicalJson ns False (JObject (artifact_payload a)) = Inr s" "h = bytesToHex (keccak256 (utf8 s))"
    using assms(2) by (auto simp: hash_text)
  obtain t where t: "canonicalJson ns False (JObject (artifact_payload b)) = Inr t" "h = bytesToHex (keccak256 (utf8 t))"
    using assms(3) by (auto simp: hash_text)
  show ?thesis
  proof (cases "utf8 s = utf8 t")
    case True
    then have "s = t" by (rule utf8_inject)
    with canonical_inject [OF assms(1) s(1) _ assms(4,5)] t(1) show ?thesis by blast
  next
    case False
    with s t have "collide [utf8 s] [utf8 t]" by (simp add: collide_def)
    with s(1) t(1) show ?thesis by blast
  qed
qed

section \<open>Built documents\<close>

lemma filter_update:
  "\<not> P k \<Longrightarrow> filter (\<lambda>(k, v). P k) (AList.update k v al) = filter (\<lambda>(k, v). P k) al"
  by (induction al) auto

lemma payload_update:
  "artifact_payload (JObject (AList.update ''evalReportHash'' v (AList.update ''artifactHash'' w obj))) = artifact_payload (JObject obj)"
  by (simp add: artifact_payload_def filter_update [of "\<lambda>k. k \<noteq> _ \<and> k \<noteq> _"])

lemma built:
  assumes "buildPostRevealEvalReportArtifact ns obj = Inr a"
  obtains h where "hashPostRevealEvalReportArtifact ns a = Inr h" "jget a ''artifactHash'' = JString h"
    "jget a ''evalReportHash'' = JString h" "is_object a" "toLowerCase h = h" "BYTES32_RE h"
    "\<And>k. k \<notin> {''artifactHash'', ''evalReportHash''} \<Longrightarrow> jget a k = jget (JObject obj) k"
proof -
  from assms obtain h where h: "hashPostRevealEvalReportArtifact ns (JObject obj) = Inr h"
    and a: "a = JObject (AList.update ''evalReportHash'' (JString h) (AList.update ''artifactHash'' (JString h) obj))"
    by (auto simp: buildPostRevealEvalReportArtifact_def map_sum_Inr)
  have "hashPostRevealEvalReportArtifact ns a = Inr h"
    using h by (simp add: a hashPostRevealEvalReportArtifact_def payload_update)
  moreover have "toLowerCase h = h" "BYTES32_RE h" using h hash_ok [OF length_keccak256] by (auto simp: hash_text)
  ultimately show thesis using that by (simp add: a jget_def update_conv' or_else_def)
qed

section \<open>What a check that passes is worth\<close>

lemma replay_deps_simps [simp]:
  "vd_rpcClient (artifact_replay_deps a deps bs) = av_rpcClient deps"
  "vd_scorer (artifact_replay_deps a deps bs) = av_scorer deps"
  "vd_epochSecret (artifact_replay_deps a deps bs) = av_epochSecret deps"
  "vd_normalizedPatchBytes (artifact_replay_deps a deps bs) = bs"
  "vd_corpusRoot (artifact_replay_deps a deps bs) = string_value (jget (jget a ''context'') ''corpusRoot'')"
  "vd_bundleHash (artifact_replay_deps a deps bs) = string_value (jget (jget a ''context'') ''coreVersionHash'')"
  "vd_replayTolerancePpm (artifact_replay_deps a deps bs) = num_of (jget (jget a ''context'') ''replayTolerancePpm'')"
  by (simp_all add: artifact_replay_deps_def Let_def)

lemma replay_verified:
  assumes "replay_receipt v deps w = Some (Inr (Verified dg dc), u)"
  obtains key where "jget v ''dedupKey'' = JString key"
    "verifyPerPatchReceipt (document_receipt v key) deps w = Some (Inr (Verified dg dc), u)"
proof (cases "jget v ''dedupKey''")
  case (JString key)
  with assms that show thesis by (simp add: replay_receipt_def)
qed (use assms in \<open>auto simp: replay_receipt_def bind_io_Inr split: if_splits\<close>)

lemma artifact_ok:
  assumes "verifyPostRevealEvalReportArtifact ns a deps w = Some (Inr (Artifact_ok h dg dc), v)"
  obtains bs where "validateArtifactShape a = None" "hashPostRevealEvalReportArtifact ns a = Inr h"
    "h = toLowerCase (string_value (jget a ''artifactHash''))" "same_hex (jget a ''evalReportHash'') (jget a ''artifactHash'')"
    "validateSeedDerivationBinding a = None" "truthy (jget (jget a ''receipt'') ''accepted'')"
    "number_value (jget a ''thresholdPpm'') \<le> min_dual (jget a ''receipt'')"
    "secret_commit (av_epochSecret deps) = Inr (toLowerCase (string_value (jget (jget a ''context'') ''hiddenSeedCommit'')))"
    "hexToBytes_checked (string_value (jget a ''compactPatchBytesHex'')) = Inr bs"
    "replay_receipt (jget a ''receipt'') (artifact_replay_deps a deps bs) w = Some (Inr (Verified dg dc), v)"
proof -
  have shape: "validateArtifactShape a = None"
    using assms by (auto simp: verifyPostRevealEvalReportArtifact_def split: option.splits)
  obtain k where k: "hashPostRevealEvalReportArtifact ns a = Inr k"
    using assms shape by (cases "hashPostRevealEvalReportArtifact ns a") (auto simp: verifyPostRevealEvalReportArtifact_def)
  note run = assms [unfolded verifyPostRevealEvalReportArtifact_def shape k option.case io_simps]
  have guards: "k = toLowerCase (string_value (jget a ''artifactHash''))" "same_hex (jget a ''evalReportHash'') (jget a ''artifactHash'')"
    using run by (auto split: if_splits)
  have binding: "validateSeedDerivationBinding a = None" "truthy (jget (jget a ''receipt'') ''accepted'')"
    "\<not> min_dual (jget a ''receipt'') < number_value (jget a ''thresholdPpm'')"
    using run guards by (auto split: option.splits if_splits)
  obtain c where c: "secret_commit (av_epochSecret deps) = Inr c"
    using run guards binding by (cases "secret_commit (av_epochSecret deps)") auto
  obtain bs where bs: "hexToBytes_checked (string_value (jget a ''compactPatchBytesHex'')) = Inr bs"
    using run guards binding c by (cases "hexToBytes_checked (string_value (jget a ''compactPatchBytesHex''))") (auto split: if_splits)
  have commit: "c = toLowerCase (string_value (jget (jget a ''context'') ''hiddenSeedCommit''))"
    using run guards binding c by (auto split: if_splits)
  obtain replay u where replay: "replay_receipt (jget a ''receipt'') (artifact_replay_deps a deps bs) w = Some (Inr replay, u)"
    "(case replay of Failed code \<Rightarrow> return_io (Artifact_replay code)
      | Verified gateDelta confirmDelta \<Rightarrow> return_io (Artifact_ok k gateDelta confirmDelta)) u = Some (Inr (Artifact_ok h dg dc), v)"
    using run guards binding c commit bs by (auto simp: bind_io_Inr)
  then have "h = k" "replay = Verified dg dc" "u = v" by (auto split: verification_result.splits)
  with that [OF shape _ _ _ binding(1,2) _ _ bs] replay(1) k guards binding(3) c commit show thesis by simp
qed


lemma replay_block_zero:
  assumes "replay_receipt v deps w = Some (Inr (Verified dg dc), u)" and "jget v ''receivedAtBlock'' = JNumber (Finite 0)"
    and "vd_normalizedPatchBytes deps' = vd_normalizedPatchBytes deps"
  shows "u = w \<and> dg = Num 0 \<and> dc = Num 0 \<and> replay_receipt v deps' w = Some (Inr (Verified (Num 0) (Num 0)), w)"
proof -
  obtain key where key: "jget v ''dedupKey'' = JString key"
    "verifyPerPatchReceipt (document_receipt v key) deps w = Some (Inr (Verified dg dc), u)"
    using assms(1) by (rule replay_verified)
  have zero: "pr_receivedAtBlock (document_receipt v key) = Num 0" using assms(2) by (simp add: document_receipt_def num_of_def)
  show ?thesis
    using key zero assms(3)
    by (cases "computeDedupKey (pr_parentRoot (document_receipt v key)) (vd_normalizedPatchBytes deps)")
      (auto simp: verifyPerPatchReceipt_def replay_receipt_def return_io_def split: if_splits)
qed

text \<open>
  Fact: a report that names block 0 is not replayed.  When such a report passes, it passes for every
  chain and every scorer, with deviation 0 and without a call to either: its blockhash, seeds and
  scores may be anything.
\<close>

theorem block_zero_report_unchecked:
  assumes "verifyPostRevealEvalReportArtifact ns a deps w = Some (Inr (Artifact_ok h dg dc), v)"
    and "jget (jget a ''receipt'') ''receivedAtBlock'' = JNumber (Finite 0)"
  shows "v = w \<and> verifyPostRevealEvalReportArtifact ns a (deps\<lparr>av_rpcClient := rpc, av_scorer := scorer\<rparr>) w =
    Some (Inr (Artifact_ok h (Num 0) (Num 0)), w)"
  using assms(1)
proof (rule artifact_ok)
  fix bs
  assume checks: "validateArtifactShape a = None" "hashPostRevealEvalReportArtifact ns a = Inr h"
      "h = toLowerCase (string_value (jget a ''artifactHash''))" "same_hex (jget a ''evalReportHash'') (jget a ''artifactHash'')"
      "validateSeedDerivationBinding a = None" "truthy (jget (jget a ''receipt'') ''accepted'')"
      "number_value (jget a ''thresholdPpm'') \<le> min_dual (jget a ''receipt'')"
      "secret_commit (av_epochSecret deps) = Inr (toLowerCase (string_value (jget (jget a ''context'') ''hiddenSeedCommit'')))"
      "hexToBytes_checked (string_value (jget a ''compactPatchBytesHex'')) = Inr bs"
    and run: "replay_receipt (jget a ''receipt'') (artifact_replay_deps a deps bs) w = Some (Inr (Verified dg dc), v)"
  let ?deps = "artifact_replay_deps a (deps\<lparr>av_rpcClient := rpc, av_scorer := scorer\<rparr>) bs"
  have "v = w" and replay: "replay_receipt (jget a ''receipt'') ?deps w = Some (Inr (Verified (Num 0) (Num 0)), w)"
    using replay_block_zero [OF run assms(2), of ?deps] by simp_all
  then show ?thesis
    using checks by (simp add: verifyPostRevealEvalReportArtifact_def bind_io_step [where m = "replay_receipt _ _", OF replay] return_io_def)
qed

end
