(* ===== verification/Evaluator.thy ===== *)
theory Evaluator
  imports Dedup_Store Eval_Artifact Coordinator_Flow
begin

text \<open>
  \<open>src/coordinator/production-evaluator.ts\<close>: the evaluator behind the coordinator.  It answers
  duplicates from its store, pins the seed of a patch before it is scored, charges one admission
  per draw, runs the dual-pack evaluation and publishes the report that the receipt commits to.
  The models, the chain and the store belong to the host.  The boot attestation and \<open>close\<close> are
  passed through and left out, and of a rejection the code is kept.
\<close>

section \<open>The plan of the reranker\<close>

record reranker_pin =
  rp_modelId :: string
  rp_revision :: string

datatype reranker_mode = qwen3_streaming | qwen3_per_batch

record reranker_plan =
  rl_mode :: reranker_mode
  rl_modelId :: string
  rl_revision :: string
  rl_instruction :: string

definition env_text :: "(string \<Rightarrow> string option) \<Rightarrow> string \<Rightarrow> string" where
  "env_text env name = or_else (env name) ''unset''"

definition require_flag :: "(string \<Rightarrow> string option) \<Rightarrow> string \<Rightarrow> js_error + unit" where
  "require_flag env name = guard_res (env name = Some ''1'')
     (Error (''production CoreTex evaluator refuses to construct: '' @ name @ ''=1 is required (got '' @ env_text env name @ '')''))"

text \<open>The default instruction is a constant of \<open>eval/reranker.ts\<close>.\<close>

definition resolveQwenRerankerInstruction :: "string \<Rightarrow> (string \<Rightarrow> string option) \<Rightarrow> string" where
  "resolveQwenRerankerInstruction defaultInstruction env = or_else (env ''CORETEX_RERANKER_INSTRUCTION'') defaultInstruction"

definition reranker_mode_of :: "(string \<Rightarrow> string option) \<Rightarrow> js_error + reranker_mode" where
  "reranker_mode_of env =
     (let modeEnv = env ''CORETEX_RERANKER_MODE'' in
      if modeEnv = Some ''per-batch'' \<or> modeEnv = Some ''per_batch''
      then (if env ''CORETEX_ALLOW_PER_BATCH_RERANKER'' \<noteq> Some ''dev-only-i-understand''
        then Inl (Error ''production CoreTex evaluator refuses CORETEX_RERANKER_MODE=per-batch'') else Inr qwen3_per_batch)
      else if modeEnv \<noteq> None \<and> modeEnv \<noteq> Some ''streaming''
      then Inl (Error (''unknown CORETEX_RERANKER_MODE='' @ the modeEnv)) else Inr qwen3_streaming)"

definition resolveProductionRerankerPlan ::
  "string \<Rightarrow> reranker_pin \<Rightarrow> (string \<Rightarrow> string option) \<Rightarrow> js_error + reranker_plan" where
  "resolveProductionRerankerPlan defaultInstruction pin env =
     bind_res (guard_res (rp_modelId pin \<noteq> '''' \<and> rp_revision pin \<noteq> '''')
       (Error ''production CoreTex evaluator requires a bundle reranker pin (modelId + revision)'')) (\<lambda>_.
     bind_res (require_flag env ''CORTEX_REAL_EVAL'') (\<lambda>_.
     bind_res (require_flag env ''CORETEX_RERANKER_PRODUCTION'') (\<lambda>_.
     bind_res (guard_res (env ''CORETEX_RERANKER'' = Some ''qwen3'')
       (Error ''production CoreTex evaluator refuses to construct: CORETEX_RERANKER=qwen3 is required'')) (\<lambda>_.
     bind_res (guard_res (env ''CORETEX_ALLOW_DETERMINISTIC_RERANKER'' \<noteq> Some ''1'')
       (Error ''production CoreTex evaluator refuses to construct with CORETEX_ALLOW_DETERMINISTIC_RERANKER=1'')) (\<lambda>_.
     bind_res (guard_res (env ''CORETEX_RERANKER_MODEL_ID'' \<in> {None, Some (rp_modelId pin)})
       (Error ''CORETEX_RERANKER_MODEL_ID conflicts with bundle reranker pin'')) (\<lambda>_.
     bind_res (guard_res (env ''CORETEX_RERANKER_REVISION'' \<in> {None, Some (rp_revision pin)})
       (Error ''CORETEX_RERANKER_REVISION conflicts with bundle reranker pin revision'')) (\<lambda>_.
     bind_res (reranker_mode_of env) (\<lambda>mode.
     Inr \<lparr> rl_mode = mode, rl_modelId = rp_modelId pin, rl_revision = rp_revision pin,
       rl_instruction = resolveQwenRerankerInstruction defaultInstruction env \<rparr>))))))))"

definition assertResolvedRerankerMatchesPin :: "string \<Rightarrow> reranker_plan \<Rightarrow> js_error + unit" where
  "assertResolvedRerankerMatchesPin model plan =
     (let expected = rl_modelId plan @ ''@'' @ rl_revision plan in
      guard_res (model = expected)
        (Error (''resolved reranker '' @ model @ '' does not report the pinned '' @ expected)))"

section \<open>Construction\<close>

record patch_eval_result =
  pe_deltaPpm :: js_num
  pe_accepted :: bool
  pe_beforeComposite :: js_num

record seed_scorer_args =
  sr_parent :: cortex_state
  sr_normalizedPatchBytes :: bytes
  sr_evalSeed :: string
  sr_thresholdPpm :: js_num

record 'w evaluator_deps =
  ec_epochId :: int
  ec_epochSecret :: "string option"
  ec_hiddenSeedCommit :: "string option"
  ec_corpusRoot :: string
  ec_bundleHash :: string
  ec_stateThresholdPpm :: js_num
  ec_screenerThresholdPpm :: js_num
  ec_replayTolerancePpm :: js_num
  ec_targetBlockOffset :: js_num
  ec_perMinerCap :: "js_num option"
  ec_rpcClient :: "'w base_rpc_client"
  ec_dedupStore :: "'w dedup_store option"
  ec_parentStateLoader :: "string \<Rightarrow> (cortex_state, 'w) io"
  ec_seedScorer :: "seed_scorer_args \<Rightarrow> (patch_eval_result, 'w) io"
  ec_publishArtifact :: "(js_value \<Rightarrow> (unit, 'w) io) option"

text \<open>What the closure of the constructor holds.\<close>

record 'w evaluator =
  ev_deps :: "'w evaluator_deps"
  ev_store :: "'w dedup_store"
  ev_perMinerCap :: rat
  ev_hiddenSeedCommit :: string

definition validatePerMinerCap :: "js_num option \<Rightarrow> js_error + rat" where
  "validatePerMinerCap perMinerCap =
     (case perMinerCap of
        Some (js_num.Num cap) \<Rightarrow>
          if is_safe_integer cap \<and> cap > 0 \<and> cap < 2 ^ 53 - 1 then Inr cap
          else Inl (Error ''production CoreTex evaluator requires a finite perMinerCap from the profile/options'')
      | _ \<Rightarrow> Inl (Error ''production CoreTex evaluator requires a finite perMinerCap from the profile/options''))"

definition parseHex :: "string \<Rightarrow> string \<Rightarrow> js_error + bytes" where
  "parseHex value label =
     (if \<not> hex_string value \<or> length value mod 2 \<noteq> 0 then Inl (Error (label @ '' must be hex'')) else hexToBytes value)"

text \<open>\<open>if (v)\<close> for an optional string\<close>

definition nonempty :: "string option \<Rightarrow> string option" where
  "nonempty v = (if v = Some '''' then None else v)"

definition resolve_seed_commit :: "'w evaluator_deps \<Rightarrow> js_error + string" where
  "resolve_seed_commit deps =
     (case nonempty (ec_epochSecret deps) of
        Some secret \<Rightarrow>
          bind_res (parseHex secret ''epochSecret'') (\<lambda>bs.
          let derived = toLowerCase (bytesToHex (keccak256 bs)) in
          case nonempty (ec_hiddenSeedCommit deps) of
            Some commit \<Rightarrow> if toLowerCase commit \<noteq> derived
              then Inl (Error (''hiddenSeedCommit '' @ commit @ '' != keccak256(epochSecret) '' @ derived)) else Inr derived
          | None \<Rightarrow> Inr derived)
      | None \<Rightarrow>
          (case ec_hiddenSeedCommit deps of
             Some commit \<Rightarrow> if BYTES32_RE commit then Inr (toLowerCase commit)
               else Inl (Error ''production CoreTex evaluator requires epochSecret OR a bytes32 hiddenSeedCommit'')
           | None \<Rightarrow> Inl (Error ''production CoreTex evaluator requires epochSecret OR a bytes32 hiddenSeedCommit'')))"

definition createCoreTexEvaluatorCore :: "'w evaluator_deps \<Rightarrow> js_error + 'w evaluator" where
  "createCoreTexEvaluatorCore deps =
     bind_res (validatePerMinerCap (ec_perMinerCap deps)) (\<lambda>cap.
     case ec_dedupStore deps of
       None \<Rightarrow> Inl (Error ''production CoreTex evaluator requires a CoreTexEvalDedupStore (fail-closed: no in-memory default)'')
     | Some store \<Rightarrow>
         bind_res (resolve_seed_commit deps) (\<lambda>commit.
         Inr \<lparr> ev_deps = deps, ev_store = store, ev_perMinerCap = cap, ev_hiddenSeedCommit = commit \<rparr>))"

section \<open>One evaluation\<close>

record score_input =
  in_patchBytesHex :: string
  in_parentStateRoot :: string
  in_miner :: string
  in_parentState :: "cortex_state option"
  in_screenerThresholdPpm :: "js_num option"
  in_seedContext :: "seed_context option"
  in_injectedSeeds :: "(string \<times> string) option"

type_synonym per_seed = "(string \<times> patch_eval_result) list"

definition effective_threshold :: "'w evaluator_deps \<Rightarrow> score_input \<Rightarrow> js_error + js_num" where
  "effective_threshold deps input =
     (let threshold = or_else (in_screenerThresholdPpm input) (ec_screenerThresholdPpm deps) in
      if \<not> safe_nat threshold then Inl (Error ''scorePatch: screenerThresholdPpm override must be a non-negative integer'')
      else Inr threshold)"

text \<open>The scorer of a pack, which remembers the result by seed.\<close>

definition pack_scorer ::
  "'w evaluator_deps \<Rightarrow> cortex_state \<Rightarrow> js_num \<Rightarrow> scorer_args \<Rightarrow> (per_patch_score, per_seed, 'w) run" where
  "pack_scorer deps parent thresholdPpm args =
     bind_io (call (ec_seedScorer deps \<lparr> sr_parent = parent, sr_normalizedPatchBytes = ar_normalizedPatchBytes args,
         sr_evalSeed = ar_evalSeed args, sr_thresholdPpm = thresholdPpm \<rparr>)) (\<lambda>result.
     bind_io (modify (AList.update (toLowerCase (ar_evalSeed args)) result)) (\<lambda>_.
     return_io \<lparr> ps_scorePpm = pe_deltaPpm result, ps_accepted = pe_accepted result \<rparr>))"

definition call_client :: "'w base_rpc_client \<Rightarrow> ('s \<times> 'w) base_rpc_client" where
  "call_client client = \<lparr> rpc_getLatestBlockNumber = call (rpc_getLatestBlockNumber client),
     rpc_getBlockHash = (\<lambda>n. call (rpc_getBlockHash client n)), rpc_waitForBlock = (\<lambda>n ms. call (rpc_waitForBlock client n ms)) \<rparr>"

text \<open>\<open>lower\<close> is the pinned context of a job, in lower case.\<close>

definition pinned_context :: "score_input \<Rightarrow> seed_context option" where
  "pinned_context input = map_option (\<lambda>ctx. ctx\<lparr>sc_blockhash := toLowerCase (sc_blockhash ctx)\<rparr>) (in_seedContext input)"

definition dual_deps ::
  "'w evaluator \<Rightarrow> score_input \<Rightarrow> cortex_state \<Rightarrow> js_num \<Rightarrow> attempt_key \<Rightarrow> attempt_record option \<Rightarrow> rat \<Rightarrow> (per_seed \<times> 'w) per_patch_deps" where
  "dual_deps ev input parent thresholdPpm key priorAttempt minerAdmissions =
     (let deps = ev_deps ev; miner = toLowerCase (in_miner input) in
      \<lparr> pd_rpcClient = call_client (ec_rpcClient deps), pd_scorer = pack_scorer deps parent thresholdPpm,
        pd_targetBlockOffset = ec_targetBlockOffset deps, pd_thresholdPpm = thresholdPpm, pd_perMinerCap = ev_perMinerCap ev,
        pd_epochSecret = nonempty (ec_epochSecret deps), pd_corpusRoot = ec_corpusRoot deps, pd_bundleHash = ec_bundleHash deps,
        pd_dedupCache = [], pd_minerAdmissions = [(miner, minerAdmissions)], pd_waitTimeoutMs = None,
        pd_seedContext = (case pinned_context input of Some ctx \<Rightarrow> Some ctx | None \<Rightarrow> map_option at_seedContext priorAttempt),
        pd_onSeedDerived = (case priorAttempt of Some a \<Rightarrow> None
          | None \<Rightarrow> Some (\<lambda>ctx. call (st_recordSeedDrawnAndAdmission (ev_store ev) key ctx miner))),
        pd_injectedSeeds = in_injectedSeeds input \<rparr>)"

definition dual_request :: "'w evaluator \<Rightarrow> score_input \<Rightarrow> bytes \<Rightarrow> per_patch_request" where
  "dual_request ev input patchBytes =
     \<lparr> pq_normalizedPatchBytes = patchBytes, pq_parentRoot = toLowerCase (in_parentStateRoot input),
       pq_minerAddress = toLowerCase (in_miner input), pq_epochId = ec_epochId (ev_deps ev), pq_structurallyValid = True \<rparr>"

text \<open>A run with a local variable, and its value at the end.\<close>

definition with_local :: "'s \<Rightarrow> ('a, 's, 'w) run \<Rightarrow> ('a \<times> 's, 'w) io" where
  "with_local s m = (\<lambda>w. map_option (\<lambda>(r, s', w'). (map_sum id (\<lambda>x. (x, s')) r, w')) (m (s, w)))"

fun rejection_text :: "patch_rejection \<Rightarrow> string" where
  "rejection_text RJ_cached = ''cached''"
| "rejection_text RJ_structurally_invalid = ''structurally-invalid''"
| "rejection_text RJ_duplicate_key_collapsed = ''duplicate-key-collapsed''"
| "rejection_text RJ_per_miner_cap_reached = ''per-miner-cap-reached''"
| "rejection_text RJ_gate_below_threshold = ''gate-below-threshold''"
| "rejection_text RJ_confirm_below_threshold = ''confirm-below-threshold''"
| "rejection_text RJ_gate_acceptance_floor = ''gate-acceptance-floor''"
| "rejection_text RJ_confirm_acceptance_floor = ''confirm-acceptance-floor''"
| "rejection_text RJ_admit_malformed_input = ''admit-malformed-input''"

definition record_outcome :: "'w dedup_store \<Rightarrow> attempt_key \<Rightarrow> dedup_outcome \<Rightarrow> string option \<Rightarrow> (unit, 'w) io" where
  "record_outcome store key out code =
     bind_io (st_recordAttemptOutcome store key (if out = DO_reject then AS_rejected else AS_accepted) out code) (\<lambda>_.
     st_put store \<lparr> dr_key = key, dr_outcome = out, dr_code = some_code code \<rparr>)"

section \<open>The result\<close>

fun num_min :: "js_num \<Rightarrow> js_num \<Rightarrow> js_num" where
  "num_min (js_num.Num x) (js_num.Num y) = js_num.Num (min x y)"
| "num_min _ _ = NaN"

definition ppm :: "js_num \<Rightarrow> js_num" where
  "ppm value = (case value of NaN \<Rightarrow> NaN
     | js_num.Num x \<Rightarrow> js_num.Num (max 0 (min 1000000 (of_int (js_round (dbl (x * 1000000)))))))"

definition chooseStateAdvanceScore :: "per_patch_receipt \<Rightarrow> per_seed \<Rightarrow> js_error + patch_eval_result" where
  "chooseStateAdvanceScore receipt perSeed =
     (let gate = map_of perSeed (toLowerCase (pr_gateSeed receipt));
          confirm = map_of perSeed (toLowerCase (pr_confirmSeed receipt));
          chosen = (if num_ge (pr_confirmScorePpm receipt) (pr_gateScorePpm receipt) then gate else confirm)
      in case chosen of
           None \<Rightarrow> Inl (Error ''production evaluator internal error: missing dual-pack score'')
         | Some r \<Rightarrow> Inr r)"

definition num_json :: "js_num \<Rightarrow> js_value" where
  "num_json n = (case n of NaN \<Rightarrow> JNumber Not_Finite | js_num.Num x \<Rightarrow> JNumber (Finite x))"

definition receipt_value :: "per_patch_receipt \<Rightarrow> js_value" where
  "receipt_value r = JObject
     [(''patchHash'', JString (pr_patchHash r)), (''dedupKey'', JString (pr_dedupKey r)), (''parentRoot'', JString (pr_parentRoot r)),
      (''minerAddress'', JString (pr_minerAddress r)), (''epochId'', JNumber (Finite (of_int (pr_epochId r)))),
      (''receivedAtBlock'', num_json (pr_receivedAtBlock r)), (''targetBlock'', num_json (pr_targetBlock r)),
      (''blockhash'', JString (pr_blockhash r)), (''gateSeed'', JString (pr_gateSeed r)), (''confirmSeed'', JString (pr_confirmSeed r)),
      (''gateScorePpm'', num_json (pr_gateScorePpm r)), (''confirmScorePpm'', num_json (pr_confirmScorePpm r)),
      (''accepted'', JBool (pr_accepted r)),
      (''rejectionReason'', case pr_rejectionReason r of None \<Rightarrow> JUndefined | Some reason \<Rightarrow> JString (rejection_text reason))]"

definition seed_derivation_value :: "'w evaluator_deps \<Rightarrow> attempt_key \<Rightarrow> per_patch_receipt \<Rightarrow> js_value" where
  "seed_derivation_value deps key dual = JObject
     [(''mode'', JString ''future_blockhash_dual_pack''), (''epochId'', JNumber (Finite (of_int (ec_epochId deps)))),
      (''receivedAtBlock'', num_json (pr_receivedAtBlock dual)), (''targetBlock'', num_json (pr_targetBlock dual)),
      (''targetBlockOffset'', num_json (ec_targetBlockOffset deps)), (''blockhash'', JString (toLowerCase (pr_blockhash dual))),
      (''patchHash'', JString (dk_patchHash key)), (''parentStateRoot'', JString (dk_parentStateRoot key)),
      (''corpusRoot'', JString (toLowerCase (ec_corpusRoot deps))), (''bundleHash'', JString (toLowerCase (ec_bundleHash deps)))]"

definition artifact_fields ::
  "'w evaluator \<Rightarrow> score_input \<Rightarrow> bytes \<Rightarrow> js_num \<Rightarrow> attempt_key \<Rightarrow> per_patch_receipt \<Rightarrow> bool \<Rightarrow> (string \<times> js_value) list" where
  "artifact_fields ev input patchBytes thresholdPpm key dual stateAdvance =
     (let deps = ev_deps ev in
      [(''version'', JString ''coretex-post-reveal-eval-report-v1''), (''epochId'', JNumber (Finite (of_int (ec_epochId deps)))),
       (''minerAddress'', JString (toLowerCase (in_miner input))),
       (''outcome'', JString (if stateAdvance then ''STATE_ADVANCE'' else ''SCREENER_PASS'')),
       (''compactPatchBytesHex'', JString (toLowerCase (bytesToHex patchBytes))), (''thresholdPpm'', num_json thresholdPpm),
       (''seedDerivation'', seed_derivation_value deps key dual), (''receipt'', receipt_value dual),
       (''context'', JObject
          [(''parentStateRoot'', JString (dk_parentStateRoot key)), (''corpusRoot'', JString (toLowerCase (ec_corpusRoot deps))),
           (''coreVersionHash'', JString (toLowerCase (ec_bundleHash deps))), (''hiddenSeedCommit'', JString (ev_hiddenSeedCommit ev)),
           (''replayTolerancePpm'', num_json (ec_replayTolerancePpm deps))])])"

text \<open>The proof with the constant fields of its literal.\<close>

definition proof_of :: "dual_pack_proof \<Rightarrow> evaluation_proof" where
  "proof_of p =
     \<lparr> ep_kind = ''coretex-dual-pack-v1'', ep_mode = ''future_blockhash_dual_pack'',
       ep_epochId = js_num.Num (of_int (dp_epochId p)), ep_receivedAtBlock = dp_receivedAtBlock p, ep_targetBlock = dp_targetBlock p,
       ep_targetBlockOffset = dp_targetBlockOffset p, ep_blockhash = dp_blockhash p, ep_patchHash = dp_patchHash p,
       ep_parentStateRoot = dp_parentStateRoot p, ep_corpusRoot = dp_corpusRoot p, ep_coreVersionHash = dp_coreVersionHash p,
       ep_hiddenSeedCommit = dp_hiddenSeedCommit p, ep_epochSecretCommit = dp_epochSecretCommit p,
       ep_gate = Some \<lparr> pk_domain = ''gate'', pk_seedCommit = pp_seedCommit (dp_gate p), pk_accepted = True,
         pk_scorePpm = pp_scorePpm (dp_gate p) \<rparr>,
       ep_confirm = Some \<lparr> pk_domain = ''confirm'', pk_seedCommit = pp_seedCommit (dp_confirm p), pk_accepted = True,
         pk_scorePpm = pp_scorePpm (dp_confirm p) \<rparr> \<rparr>"

text \<open>\<open>BigInt(n)\<close> of a number\<close>

definition bigint_of :: "js_num \<Rightarrow> js_error + int" where
  "bigint_of n = (case n of
     js_num.Num x \<Rightarrow> if of_int \<lfloor>x\<rfloor> = x then Inr \<lfloor>x\<rfloor> else Inl (RangeError ''The number cannot be converted to a BigInt'')
   | NaN \<Rightarrow> Inl (RangeError ''The number NaN cannot be converted to a BigInt''))"

definition publish :: "'w evaluator_deps \<Rightarrow> js_value \<Rightarrow> (unit, 'w) io" where
  "publish deps artifact = (case ec_publishArtifact deps of None \<Rightarrow> return_io () | Some hook \<Rightarrow> hook artifact)"

definition accepted_result :: "js_num \<Rightarrow> js_value \<Rightarrow> dual_pack_proof \<Rightarrow> accepted_eval" where
  "accepted_result minDualDelta artifact dualProof =
     \<lparr> ea_deterministicDeltaPpm = minDualDelta, ea_evalReportHash = string_value (jget artifact ''evalReportHash''),
       ea_artifactHash = string_value (jget artifact ''artifactHash''), ea_evaluationProof = Some (proof_of dualProof) \<rparr>"

definition conclude_rejection ::
  "'w evaluator \<Rightarrow> attempt_key \<Rightarrow> per_patch_receipt \<Rightarrow> (eval_result \<times> js_value option, 'w) io" where
  "conclude_rejection ev key dual =
     (let code = (case pr_rejectionReason dual of Some reason \<Rightarrow> rejection_text reason | None \<Rightarrow> ''no_retrieval_improvement'') in
      bind_io (if num_gt (pr_receivedAtBlock dual) (js_num.Num 0) then record_outcome (ev_store ev) key DO_reject (Some code)
        else return_io ()) (\<lambda>_. return_io (Eval_reject code, None)))"

definition conclude_acceptance ::
  "(rat \<Rightarrow> string) \<Rightarrow> 'w evaluator \<Rightarrow> score_input \<Rightarrow> bytes \<Rightarrow> patch \<Rightarrow> js_num \<Rightarrow> attempt_key \<Rightarrow> per_patch_receipt \<Rightarrow> per_seed \<Rightarrow>
   (eval_result \<times> js_value option, 'w) io" where
  "conclude_acceptance ns ev input patchBytes p thresholdPpm key dual perSeed =
     (let deps = ev_deps ev in
      bind_io (lift_res (chooseStateAdvanceScore dual perSeed)) (\<lambda>chosen.
      let minDualDelta = num_min (pr_gateScorePpm dual) (pr_confirmScorePpm dual);
          stateAdvance = (num_ge minDualDelta (ec_stateThresholdPpm deps) \<and> pe_accepted chosen) in
      bind_io (lift_res (buildPostRevealEvalReportArtifact ns
        (artifact_fields ev input patchBytes thresholdPpm key dual stateAdvance))) (\<lambda>artifact.
      bind_io (publish deps artifact) (\<lambda>_.
      bind_io (lift_res (dualPackProofFromPerPatchReceipt dual (ec_corpusRoot deps) (ec_bundleHash deps)
        (ev_hiddenSeedCommit ev) (ec_targetBlockOffset deps))) (\<lambda>dualProof.
      let accepted = accepted_result minDualDelta artifact dualProof in
      if stateAdvance then
        (let scoreBeforePpm = ppm (pe_beforeComposite chosen); scoreAfterPpm = num_add scoreBeforePpm minDualDelta in
         bind_io (lift_res (bigint_of minDualDelta)) (\<lambda>delta.
         bind_io (lift_res (encodePatch (p\<lparr>scoreDelta := delta\<rparr>))) (\<lambda>rewritten.
         bind_io (record_outcome (ev_store ev) key DO_state_advance None) (\<lambda>_.
         return_io (State_advance accepted scoreBeforePpm scoreAfterPpm (JString (bytesToHex rewritten)), Some artifact)))))
      else
        bind_io (record_outcome (ev_store ev) key DO_screener_pass None) (\<lambda>_.
        return_io (Screener_pass accepted, Some artifact)))))))"

text \<open>The evaluation of a patch that has no recorded outcome, given the attempt before it.\<close>

definition draw_and_score ::
  "'w evaluator \<Rightarrow> score_input \<Rightarrow> bytes \<Rightarrow> js_num \<Rightarrow> attempt_key \<Rightarrow> cortex_state \<Rightarrow> attempt_record option \<Rightarrow>
   (per_patch_receipt \<times> per_seed, 'w) io" where
  "draw_and_score ev input patchBytes thresholdPpm key parent priorAttempt =
     bind_io (case priorAttempt of Some a \<Rightarrow> return_io 0
       | None \<Rightarrow> st_minerAdmissions (ev_store ev) (ec_epochId (ev_deps ev)) (toLowerCase (in_miner input))) (\<lambda>minerAdmissions.
     with_local [] (runPerPatchEvaluation (dual_request ev input patchBytes)
       (dual_deps ev input parent thresholdPpm key priorAttempt minerAdmissions)))"

definition evaluate_fresh ::
  "(rat \<Rightarrow> string) \<Rightarrow> 'w evaluator \<Rightarrow> score_input \<Rightarrow> bytes \<Rightarrow> patch \<Rightarrow> js_num \<Rightarrow> attempt_key \<Rightarrow> (eval_result \<times> js_value option, 'w) io" where
  "evaluate_fresh ns ev input patchBytes p thresholdPpm key =
     (let deps = ev_deps ev; store = ev_store ev; miner = toLowerCase (in_miner input) in
      bind_io (case in_parentState input of Some s \<Rightarrow> return_io s | None \<Rightarrow> ec_parentStateLoader deps (in_parentStateRoot input)) (\<lambda>parent.
      bind_io (case pinned_context input of Some ctx \<Rightarrow> return_io None | None \<Rightarrow> st_getAttempt store key) (\<lambda>priorAttempt.
      if (case priorAttempt of Some a \<Rightarrow> at_minerAddress a \<noteq> miner | None \<Rightarrow> False)
      then return_io (Eval_reject ''duplicate_in_flight'', None)
      else
        bind_io (draw_and_score ev input patchBytes thresholdPpm key parent priorAttempt) (\<lambda>(dual, perSeed).
        if \<not> pr_accepted dual then conclude_rejection ev key dual
        else conclude_acceptance ns ev input patchBytes p thresholdPpm key dual perSeed))))"

definition input_key :: "'w evaluator \<Rightarrow> score_input \<Rightarrow> bytes \<Rightarrow> attempt_key" where
  "input_key ev input patchBytes =
     \<lparr> dk_epochId = ec_epochId (ev_deps ev), dk_parentStateRoot = toLowerCase (in_parentStateRoot input),
       dk_patchHash = toLowerCase (computePatchHash patchBytes) \<rparr>"

definition scorePatch :: "(rat \<Rightarrow> string) \<Rightarrow> 'w evaluator \<Rightarrow> score_input \<Rightarrow> (eval_result \<times> js_value option, 'w) io" where
  "scorePatch ns ev input =
     bind_io (lift_res (parseHex (in_patchBytesHex input) ''patchBytesHex'')) (\<lambda>patchBytes.
     bind_io (lift_res (decodePatch patchBytes)) (\<lambda>p.
     bind_io (lift_res (effective_threshold (ev_deps ev) input)) (\<lambda>thresholdPpm.
     bind_io (st_get (ev_store ev) (input_key ev input patchBytes)) (\<lambda>prior.
     case prior of
       Some r \<Rightarrow> return_io (Eval_reject ''duplicate_submission'', None)
     | None \<Rightarrow> evaluate_fresh ns ev input patchBytes p thresholdPpm (input_key ev input patchBytes)))))"

section \<open>What an acceptance went through\<close>

lemma bind_io_cases:
  assumes "bind_io m f w = Some (r, w')"
  obtains (failed) e where "m w = Some (Inl e, w')" "r = Inl e" | (goes_on) x u where "m w = Some (Inr x, u)" "f x u = Some (r, w')"
proof (cases "m w")
  case (Some q)
  then show thesis using assms failed goes_on by (cases q; cases "fst q") (auto simp: bind_io_def)
qed (use assms in \<open>simp add: bind_io_def\<close>)

lemma with_local_Inr: "with_local s m w = Some (Inr (x, t), w') \<longleftrightarrow> m (s, w) = Some (Inr x, t, w')"
proof (cases "m (s, w)")
  case (Some q)
  then show ?thesis by (cases q; cases "fst q") (auto simp: with_local_def)
qed (simp add: with_local_def)

text \<open>A result that a receipt may be signed for.\<close>

definition accepts :: "eval_result \<Rightarrow> bool" where
  "accepts res \<longleftrightarrow> (case res of Eval_reject code \<Rightarrow> False | _ \<Rightarrow> True)"

lemma rejection_rejects:
  "conclude_rejection ev key dual w = Some (Inr (res, art), w') \<Longrightarrow> \<not> accepts res"
  by (auto simp: conclude_rejection_def Let_def bind_io_Inr accepts_def)

lemma conclude_accepts:
  assumes "conclude_acceptance ns ev input patchBytes p thresholdPpm key dual perSeed w = Some (Inr (res, art), w')"
  obtains chosen artifact dp where "chooseStateAdvanceScore dual perSeed = Inr chosen"
    "buildPostRevealEvalReportArtifact ns (artifact_fields ev input patchBytes thresholdPpm key dual
      (num_ge (num_min (pr_gateScorePpm dual) (pr_confirmScorePpm dual)) (ec_stateThresholdPpm (ev_deps ev)) \<and> pe_accepted chosen)) = Inr artifact"
    "art = Some artifact"
    "dualPackProofFromPerPatchReceipt dual (ec_corpusRoot (ev_deps ev)) (ec_bundleHash (ev_deps ev)) (ev_hiddenSeedCommit ev)
      (ec_targetBlockOffset (ev_deps ev)) = Inr dp"
    "res = Screener_pass (accepted_result (num_min (pr_gateScorePpm dual) (pr_confirmScorePpm dual)) artifact dp) \<or>
     (\<exists>delta rewritten. num_ge (num_min (pr_gateScorePpm dual) (pr_confirmScorePpm dual)) (ec_stateThresholdPpm (ev_deps ev)) \<and>
       bigint_of (num_min (pr_gateScorePpm dual) (pr_confirmScorePpm dual)) = Inr delta \<and>
       encodePatch (p\<lparr>scoreDelta := delta\<rparr>) = Inr rewritten \<and>
       res = State_advance (accepted_result (num_min (pr_gateScorePpm dual) (pr_confirmScorePpm dual)) artifact dp)
         (ppm (pe_beforeComposite chosen))
         (num_add (ppm (pe_beforeComposite chosen)) (num_min (pr_gateScorePpm dual) (pr_confirmScorePpm dual)))
         (JString (bytesToHex rewritten)))"
proof -
  obtain chosen where c: "chooseStateAdvanceScore dual perSeed = Inr chosen"
    using assms by (cases "chooseStateAdvanceScore dual perSeed") (auto simp: conclude_acceptance_def)
  let ?min = "num_min (pr_gateScorePpm dual) (pr_confirmScorePpm dual)"
  let ?adv = "num_ge ?min (ec_stateThresholdPpm (ev_deps ev)) \<and> pe_accepted chosen"
  let ?build = "buildPostRevealEvalReportArtifact ns (artifact_fields ev input patchBytes thresholdPpm key dual ?adv)"
  obtain artifact where a: "?build = Inr artifact"
    using assms by (cases ?build) (auto simp: conclude_acceptance_def c Let_def)
  let ?proof = "dualPackProofFromPerPatchReceipt dual (ec_corpusRoot (ev_deps ev)) (ec_bundleHash (ev_deps ev)) (ev_hiddenSeedCommit ev)
      (ec_targetBlockOffset (ev_deps ev))"
  note run = assms [unfolded conclude_acceptance_def Let_def c a io_simps]
  obtain dp where d: "?proof = Inr dp"
    using run by (cases ?proof) (auto simp: bind_io_Inr)
  show thesis
  proof (cases ?adv)
    case False
    with run d show thesis by (intro that [OF c a _ d]) (auto simp: bind_io_Inr)
  next
    case True
    note run = run [unfolded d io_simps if_P [OF True]]
    obtain delta where delta: "bigint_of ?min = Inr delta"
      using run by (cases "bigint_of ?min") (auto simp: bind_io_Inr)
    obtain rw where rw: "encodePatch (p\<lparr>scoreDelta := delta\<rparr>) = Inr rw"
      using run delta by (cases "encodePatch (p\<lparr>scoreDelta := delta\<rparr>)") (auto simp: bind_io_Inr)
    have "art = Some artifact" "res = State_advance (accepted_result ?min artifact dp) (ppm (pe_beforeComposite chosen))
        (num_add (ppm (pe_beforeComposite chosen)) ?min) (JString (bytesToHex rw))"
      using run delta rw by (auto simp: bind_io_Inr)
    with True delta rw show thesis by (intro that [OF c a _ d]) auto
  qed
qed

lemma accepted_run:
  assumes "scorePatch ns ev input w = Some (Inr (res, art), w')" and "accepts res"
  obtains bs p th w0 parent w1 prior w2 n w3 dual perSeed w4 where
    "parseHex (in_patchBytesHex input) ''patchBytesHex'' = Inr bs" "decodePatch bs = Inr p"
    "effective_threshold (ev_deps ev) input = Inr th" "st_get (ev_store ev) (input_key ev input bs) w = Some (Inr None, w0)"
    "(case in_parentState input of Some s \<Rightarrow> return_io s | None \<Rightarrow> ec_parentStateLoader (ev_deps ev) (in_parentStateRoot input)) w0 =
      Some (Inr parent, w1)"
    "(case pinned_context input of Some ctx \<Rightarrow> return_io None | None \<Rightarrow> st_getAttempt (ev_store ev) (input_key ev input bs)) w1 =
      Some (Inr prior, w2)"
    "runPerPatchEvaluation (dual_request ev input bs) (dual_deps ev input parent th (input_key ev input bs) prior n) ([], w3) =
      Some (Inr dual, perSeed, w4)" "pr_accepted dual"
    "conclude_acceptance ns ev input bs p th (input_key ev input bs) dual perSeed w4 = Some (Inr (res, art), w')"
proof -
  obtain bs where bs: "parseHex (in_patchBytesHex input) ''patchBytesHex'' = Inr bs"
    using assms(1) by (cases "parseHex (in_patchBytesHex input) ''patchBytesHex''") (auto simp: scorePatch_def)
  obtain p where p: "decodePatch bs = Inr p"
    using assms(1) by (cases "decodePatch bs") (auto simp: scorePatch_def bs)
  obtain th where th: "effective_threshold (ev_deps ev) input = Inr th"
    using assms(1) by (cases "effective_threshold (ev_deps ev) input") (auto simp: scorePatch_def bs p)
  let ?key = "input_key ev input bs"
  obtain q w0 where get: "st_get (ev_store ev) ?key w = Some (Inr q, w0)"
    and rest: "(case q of Some r \<Rightarrow> return_io (Eval_reject ''duplicate_submission'', None)
      | None \<Rightarrow> evaluate_fresh ns ev input bs p th ?key) w0 = Some (Inr (res, art), w')"
    using assms(1) unfolding scorePatch_def bs p th io_simps bind_io_Inr by blast
  have q: "q = None" using rest assms(2) by (cases q) (auto simp: accepts_def)
  from rest q obtain parent w1 prior w2 dual perSeed w4 where
    fresh: "(case in_parentState input of Some s \<Rightarrow> return_io s | None \<Rightarrow> ec_parentStateLoader (ev_deps ev) (in_parentStateRoot input)) w0 =
      Some (Inr parent, w1)"
    "(case pinned_context input of Some ctx \<Rightarrow> return_io None | None \<Rightarrow> st_getAttempt (ev_store ev) ?key) w1 = Some (Inr prior, w2)"
    and draw: "draw_and_score ev input bs th ?key parent prior w2 = Some (Inr (dual, perSeed), w4)"
    and concl: "(if \<not> pr_accepted dual then conclude_rejection ev ?key dual
      else conclude_acceptance ns ev input bs p th ?key dual perSeed) w4 = Some (Inr (res, art), w')"
    using assms(2) by (auto simp: evaluate_fresh_def Let_def bind_io_Inr accepts_def split: if_splits)
  have acc: "pr_accepted dual" using concl assms(2) by (auto split: if_splits dest!: rejection_rejects)
  obtain n w3 where "with_local [] (runPerPatchEvaluation (dual_request ev input bs) (dual_deps ev input parent th ?key prior n)) w3 =
      Some (Inr (dual, perSeed), w4)"
    using draw unfolding draw_and_score_def bind_io_Inr by blast
  then show thesis using that [OF bs p th get [unfolded q] fresh _ acc] concl acc by (simp add: with_local_Inr)
qed

lemma dual_accepted:
  assumes "runPerPatchEvaluation request deps w = Some (Inr r, v)" and "pr_accepted r" and "pd_dedupCache deps = []"
  shows "pr_rejectionReason r = None" and "pr_patchHash r = patch_hash_of request"
    and "dedup_key_of request = Inr (pr_dedupKey r)" and "pr_parentRoot r = pq_parentRoot request"
    and "pr_minerAddress r = toLowerCase (pq_minerAddress request)" and "pr_epochId r = pq_epochId request"
    and "pd_seedContext deps = Some ctx \<Longrightarrow>
      pr_receivedAtBlock r = sc_receivedAtBlock ctx \<and> pr_targetBlock r = sc_targetBlock ctx \<and> pr_blockhash r = sc_blockhash ctx"
proof -
  have reason: "pr_rejectionReason r = None" "pr_patchHash r = patch_hash_of request"
    "dedup_key_of request = Inr (pr_dedupKey r)" "pr_parentRoot r = pq_parentRoot request"
    "pr_minerAddress r = toLowerCase (pq_minerAddress request)" "pr_epochId r = pq_epochId request"
    "pd_seedContext deps = Some ctx \<Longrightarrow>
      pr_receivedAtBlock r = sc_receivedAtBlock ctx \<and> pr_targetBlock r = sc_targetBlock ctx \<and> pr_blockhash r = sc_blockhash ctx" for ctx
    using assms(1)
    by (cases rule: run_cases; use assms(2,3) in \<open>auto simp: rejected_receipt_def draw_seed_context_def elim!: score_packs_cases\<close>;
      simp add: scored_receipt_def)+
  then show "pr_rejectionReason r = None" and "pr_patchHash r = patch_hash_of request"
    and "dedup_key_of request = Inr (pr_dedupKey r)" and "pr_parentRoot r = pq_parentRoot request"
    and "pr_minerAddress r = toLowerCase (pq_minerAddress request)" and "pr_epochId r = pq_epochId request"
    and "pd_seedContext deps = Some ctx \<Longrightarrow>
      pr_receivedAtBlock r = sc_receivedAtBlock ctx \<and> pr_targetBlock r = sc_targetBlock ctx \<and> pr_blockhash r = sc_blockhash ctx"
    by blast+
qed

text \<open>The proof that an accepted result carries.\<close>

definition result_proof :: "eval_result \<Rightarrow> evaluation_proof option" where
  "result_proof res = Option.bind (accepted_part res) ea_evaluationProof"

end
