(* ===== verification/Evaluator_Store.thy ===== *)
theory Evaluator_Store
  imports Evaluator
begin

text \<open>
  What evaluations do to the store of attempts: a seed is pinned once, an admission is charged once,
  a patch is answered once.  The facts are proved from the contract of the store, for a host whose
  other functions leave the store alone, and hold for the store in memory.
\<close>

section \<open>Changes of the store\<close>

text \<open>A view is the records and the attempts of a world.  A change at one key is a draw, an outcome,
  or nothing.\<close>

type_synonym view = "(string \<Rightarrow> dedup_record option) \<times> (string \<Rightarrow> attempt_record option)"

definition draws_at :: "string \<Rightarrow> attempt_key \<Rightarrow> string \<Rightarrow> view \<Rightarrow> view \<Rightarrow> bool" where
  "draws_at k key miner v v' \<longleftrightarrow> fst v' = fst v \<and>
     (snd v' = snd v \<or> snd v k = None \<and> (\<exists>ctx. snd v' = (snd v)(k \<mapsto> drawn_attempt key ctx miner)))"

definition finishes_at :: "string \<Rightarrow> view \<Rightarrow> view \<Rightarrow> bool" where
  "finishes_at k v v' \<longleftrightarrow> v' = v \<or>
     (\<exists>a st out code r. snd v k = Some a \<and> snd v' = (snd v)(k \<mapsto> finished_attempt st out code a) \<and>
       (fst v' = fst v \<or> fst v' = (fst v)(k \<mapsto> r)))"

lemma draws_refl: "reflp (draws_at k key miner)"
  by (simp add: reflp_def draws_at_def)

lemma draws_trans: "transp (draws_at k key miner)"
  by (rule transpI) (auto simp: draws_at_def)

section \<open>What an evaluation may do\<close>

lemma run_confined:
  assumes "reflp R" and "transp R" and "confined R (rpc_getLatestBlockNumber (pd_rpcClient deps))"
    and "\<And>n ms. confined R (rpc_waitForBlock (pd_rpcClient deps) n ms)" and "\<And>a. confined R (pd_scorer deps a)"
    and "\<And>hook ctx. pd_onSeedDerived deps = Some hook \<Longrightarrow> confined R (hook ctx)"
  shows "confined R (runPerPatchEvaluation request deps)"
proof -
  note rules = confined_bind [OF assms(2)] confined_return [OF assms(1)] confined_lift [OF assms(1)]
  have "confined R (draw_seed_context deps)"
    unfolding draw_seed_context_def Let_def by (auto split: option.split intro!: rules assms(3,4))
  moreover have "confined R (record_draw deps ctx)" for ctx
    unfolding record_draw_def using assms(6) by (auto split: option.split intro!: rules)
  moreover have "confined R (score_packs request deps ph key ctx seeds)" for ph key ctx seeds
    unfolding score_packs_def Let_def by (auto intro!: rules assms(5))
  ultimately show ?thesis
    unfolding runPerPatchEvaluation_def Let_def by (auto split: option.split intro!: rules)
qed

lemma run_refused:
  assumes "runPerPatchEvaluation request deps w = Some (r, w')" and "pd_dedupCache deps = []"
    and "\<not> ld_admit (patch_admission request deps (patch_hash_of request) key)" and "dedup_key_of request = Inr key"
  shows "w' = w"
  using assms by (auto simp: runPerPatchEvaluation_def dedup_key_of_def patch_hash_of_def Let_def)

lemma confined_local: "confined (\<lambda>(s, w) (s', w'). R w w') m \<Longrightarrow> confined R (with_local s m)"
  by (fastforce simp: confined_def with_local_def)

text \<open>How the charges of a miner change.\<close>

lemma charged_finished:
  "attempts k = Some a \<Longrightarrow>
   charged_keys (attempts(k \<mapsto> finished_attempt st out code a)) e m = charged_keys attempts e m"
  by (auto simp: charged_keys_def counts_for_def finished_attempt_def)

lemma charged_drawn:
  assumes "attempts k = None"
  shows "charged_keys (attempts(k \<mapsto> drawn_attempt key ctx miner)) e m =
    (if dk_epochId key = e \<and> toLowerCase miner = m then insert k (charged_keys attempts e m) else charged_keys attempts e m)"
  using assms by (auto simp: charged_keys_def counts_for_def drawn_attempt_def normalizeKey_def)

lemma charged_new: "attempts k = None \<Longrightarrow> k \<notin> charged_keys attempts e m"
  by (simp add: charged_keys_def)

lemma finite_charged: "finite (dom attempts) \<Longrightarrow> finite (charged_keys attempts e m)"
  by (rule finite_subset [of _ "dom attempts"]) (auto simp: charged_keys_def)

locale hosted_evaluator = eval_store store rec att ok
  for store :: "'w dedup_store" and rec att ok +
  fixes ev :: "'w evaluator" and ns :: "rat \<Rightarrow> string"
  assumes ev_store: "ev_store ev = store"
    and quiet_client: "confined (\<lambda>w w'. rec w' = rec w \<and> att w' = att w \<and> (ok w \<longrightarrow> ok w')) (rpc_getLatestBlockNumber (ec_rpcClient (ev_deps ev)))"
      "confined (\<lambda>w w'. rec w' = rec w \<and> att w' = att w \<and> (ok w \<longrightarrow> ok w')) (rpc_waitForBlock (ec_rpcClient (ev_deps ev)) n ms)"
    and quiet_scorer: "confined (\<lambda>w w'. rec w' = rec w \<and> att w' = att w \<and> (ok w \<longrightarrow> ok w')) (ec_seedScorer (ev_deps ev) args)"
    and quiet_loader: "confined (\<lambda>w w'. rec w' = rec w \<and> att w' = att w \<and> (ok w \<longrightarrow> ok w')) (ec_parentStateLoader (ev_deps ev) parentRoot)"
    and quiet_publish: "ec_publishArtifact (ev_deps ev) = Some hook \<Longrightarrow>
      confined (\<lambda>w w'. rec w' = rec w \<and> att w' = att w \<and> (ok w \<longrightarrow> ok w')) (hook artifact)"
begin

definition quiet :: "'w \<Rightarrow> 'w \<Rightarrow> bool" where
  "quiet w w' \<longleftrightarrow> rec w' = rec w \<and> att w' = att w \<and> (ok w \<longrightarrow> ok w')"

definition changes :: "(view \<Rightarrow> view \<Rightarrow> bool) \<Rightarrow> 'w \<Rightarrow> 'w \<Rightarrow> bool" where
  "changes R w w' \<longleftrightarrow> R (rec w, att w) (rec w', att w') \<and> (ok w \<longrightarrow> ok w')"

lemmas quiet_host = quiet_client [folded quiet_def] quiet_scorer [folded quiet_def] quiet_loader [folded quiet_def]
  quiet_publish [folded quiet_def]

lemma quiet_refl: "reflp quiet"
  by (simp add: reflp_def quiet_def)

lemma quiet_trans: "transp quiet"
  by (rule transpI) (simp add: quiet_def)

lemma changes_refl: "reflp R \<Longrightarrow> reflp (changes R)"
  by (simp add: reflp_def changes_def)

lemma changes_trans: "transp R \<Longrightarrow> transp (changes R)"
  unfolding transp_def changes_def by blast

lemma quiet_changes: "reflp R \<Longrightarrow> quiet w w' \<Longrightarrow> changes R w w'"
  by (simp add: quiet_def changes_def reflp_def)

lemma confined_quiet: "reflp R \<Longrightarrow> confined quiet m \<Longrightarrow> confined (changes R) m"
  by (erule confined_mono) (rule quiet_changes)

lemma quiet_get: "confined quiet (st_get store k)" "confined quiet (st_getAttempt store k)"
  using get getAttempt by (auto simp: confined_def quiet_def)

lemma draw_confined:
  "confined (changes (draws_at (recordKey key) key miner)) (st_recordSeedDrawnAndAdmission store key ctx miner)"
  unfolding confined_def
proof (intro allI impI)
  fix w r w' assume "st_recordSeedDrawnAndAdmission store key ctx miner w = Some (r, w')"
  with draw [of key ctx miner w] show "changes (draws_at (recordKey key) key miner) w w'"
    by (auto simp: changes_def draws_at_def split: if_splits)
qed

lemma outcome_confined: "confined (changes (finishes_at (recordKey key))) (record_outcome store key out code)"
  unfolding confined_def
proof (intro allI impI)
  fix w r w' assume run: "record_outcome store key out code w = Some (r, w')"
  let ?st = "if out = DO_reject then AS_rejected else AS_accepted"
  show "changes (finishes_at (recordKey key)) w w'"
  proof (cases "att w (recordKey key)")
    case None
    with no_outcome [OF None, of ?st out code] run show ?thesis
      by (auto simp: record_outcome_def bind_io_def changes_def finishes_at_def)
  next
    case (Some a)
    from outcome [OF Some, of ?st out code] obtain u where
      u: "st_recordAttemptOutcome store key ?st out code w = Some (Inr (), u)" "rec u = rec w"
      "att u = (att w)(recordKey key \<mapsto> finished_attempt ?st out code a)" "ok w \<longrightarrow> ok u" by blast
    let ?r = "\<lparr> dr_key = key, dr_outcome = out, dr_code = some_code code \<rparr>"
    from put [of ?r u] obtain v where v: "st_put store ?r u = Some (Inr (), v)" "rec v = (rec u)(recordKey key \<mapsto> ?r)"
      "att v = att u" "ok u \<longrightarrow> ok v" by auto
    have "w' = v" using run u(1) v(1) by (simp add: record_outcome_def bind_io_def)
    then show ?thesis using u v Some by (auto simp: changes_def finishes_at_def)
  qed
qed

lemma pair_rules:
  assumes "reflp R" and "confined quiet m"
  shows "confined (\<lambda>(s, w) (s', w'). changes R w w') (call m)"
  by (rule confined_call) (rule confined_quiet [OF assms])

lemma score_confined:
  "confined (changes (draws_at (recordKey key) key (toLowerCase (in_miner input))))
     (draw_and_score ev input patchBytes thresholdPpm key parent priorAttempt)"
proof -
  let ?R = "draws_at (recordKey key) key (toLowerCase (in_miner input))"
  let ?Q = "\<lambda>(s, w) (s', w'). changes ?R w w'"
  have r: "reflp (changes ?R)" "transp (changes ?R)" by (auto intro: changes_refl changes_trans draws_refl draws_trans)
  note rules = confined_bind [OF r(2)] confined_return [OF r(1)]
  have q: "reflp ?Q" "transp ?Q" using reflp_second [OF r(1)] transp_second [OF r(2)] by simp_all
  have adm: "confined (changes ?R) (st_minerAdmissions store e m)" for e m
  proof (rule confined_quiet [OF draws_refl])
    show "confined quiet (st_minerAdmissions store e m)"
      unfolding confined_def quiet_def using admissions [of e m] by (metis Pair_inject option.inject)
  qed
  have scorer: "confined ?Q (pack_scorer (ev_deps ev) parent thresholdPpm a)" for a
    unfolding pack_scorer_def
    by (intro confined_bind [OF q(2)] confined_return [OF q(1)] pair_rules draws_refl quiet_host confined_modify r(1))
  have "confined ?Q (runPerPatchEvaluation (dual_request ev input patchBytes)
      (dual_deps ev input parent thresholdPpm key priorAttempt n))" for n
  proof (rule run_confined [OF q])
    fix hook ctx
    assume "pd_onSeedDerived (dual_deps ev input parent thresholdPpm key priorAttempt n) = Some hook"
    then show "confined ?Q (hook ctx)"
      by (auto simp: dual_deps_def Let_def ev_store split: option.splits intro!: confined_call draw_confined)
  qed (auto simp: dual_deps_def Let_def call_client_def intro!: pair_rules draws_refl quiet_host scorer)
  then show ?thesis
    unfolding draw_and_score_def ev_store
    by (intro rules confined_local) (auto split: option.split intro!: rules adm)
qed

text \<open>A new draw has passed the cap.\<close>

lemma draw_below_cap:
  assumes "draw_and_score ev input patchBytes thresholdPpm key parent priorAttempt w = Some (r, w')" and "ok w"
    and "priorAttempt = None \<or> att w (recordKey key) \<noteq> None"
    and "att w (recordKey key) = None" and "att w' (recordKey key) \<noteq> None"
  shows "of_nat (card (charged_keys (att w) (ec_epochId (ev_deps ev)) (toLowerCase (in_miner input)))) < ev_perMinerCap ev"
proof -
  let ?n = "of_nat (card (charged_keys (att w) (ec_epochId (ev_deps ev)) (toLowerCase (in_miner input))))"
  have prior: "priorAttempt = None" using assms(3,4) by simp
  let ?req = "dual_request ev input patchBytes" and ?deps = "dual_deps ev input parent thresholdPpm key None ?n"
  have adm: "st_minerAdmissions store (ec_epochId (ev_deps ev)) (toLowerCase (in_miner input)) w = Some (Inr ?n, w)"
    using admissions [of "ec_epochId (ev_deps ev)" "toLowerCase (in_miner input)" w] assms(2) by auto
  have "with_local [] (runPerPatchEvaluation ?req ?deps) w = Some (r, w')"
    using assms(1) by (simp add: draw_and_score_def prior ev_store bind_io_step [where m = "st_minerAdmissions store _ _", OF adm])
  then obtain q t where run: "runPerPatchEvaluation ?req ?deps ([], w) = Some (q, t, w')"
    by (auto simp: with_local_def)
  have drawn: "w' \<noteq> w" using assms(4,5) by auto
  obtain k where k: "dedup_key_of ?req = Inr k"
    using run drawn by (cases "dedup_key_of ?req") (auto simp: runPerPatchEvaluation_def dedup_key_of_def)
  have "ld_admit (patch_admission ?req ?deps (patch_hash_of ?req) k)"
    using run_refused [OF run _ _ k] drawn by (auto simp: dual_deps_def Let_def)
  then show ?thesis
    by (simp add: patch_admission_def admit_iff dual_deps_def dual_request_def Let_def or_else_def)
qed

definition evaluates_at :: "string \<Rightarrow> attempt_key \<Rightarrow> string \<Rightarrow> view \<Rightarrow> view \<Rightarrow> bool" where
  "evaluates_at k key miner v v' \<longleftrightarrow> (\<exists>u. draws_at k key miner v u \<and> finishes_at k u v')"

lemma quiet_then:
  assumes "confined quiet m" and "\<And>x. confined (changes R) (f x)" and "reflp R"
  shows "confined (changes R) (bind_io m f)"
  unfolding confined_def
proof (intro allI impI)
  fix w r w' assume run: "bind_io m f w = Some (r, w')"
  then obtain a u where m: "m w = Some (a, u)" by (auto simp: bind_io_def Option.bind_eq_Some_conv)
  have q: "quiet w u" using confinedD [OF assms(1) m] .
  show "changes R w w'"
  proof (cases a)
    case (Inl e)
    with run m have "w' = u" by (simp add: bind_io_def)
    with quiet_changes [OF assms(3) q] show ?thesis by simp
  next
    case (Inr x)
    with run m have "f x u = Some (r, w')" by (simp add: bind_io_def)
    from confinedD [OF assms(2) this] q show ?thesis by (simp add: changes_def quiet_def)
  qed
qed

lemma then_quiet:
  assumes "confined (changes R) m" and "\<And>x. confined quiet (f x)"
  shows "confined (changes R) (bind_io m f)"
  unfolding confined_def
proof (intro allI impI)
  fix w r w' assume run: "bind_io m f w = Some (r, w')"
  then obtain a u where m: "m w = Some (a, u)" by (auto simp: bind_io_def Option.bind_eq_Some_conv)
  have c: "changes R w u" using confinedD [OF assms(1) m] .
  show "changes R w w'"
  proof (cases a)
    case (Inr x)
    with run m have "f x u = Some (r, w')" by (simp add: bind_io_def)
    from confinedD [OF assms(2) this] c show ?thesis by (simp add: changes_def quiet_def)
  qed (use run m c in \<open>simp add: bind_io_def\<close>)
qed

lemma finishes_refl: "reflp (finishes_at k)"
  by (simp add: reflp_def finishes_at_def)

lemma quiet_lift: "confined quiet (lift_res r)" "confined quiet (return_io x)"
  by (rule confined_lift [OF quiet_refl], rule confined_return [OF quiet_refl])

lemma quiet_publishing: "confined quiet (publish (ev_deps ev) artifact)"
  using quiet_host(5) by (auto simp: publish_def quiet_lift split: option.split)

lemma conclude_confined:
  "confined (changes (finishes_at (recordKey key))) (conclude_rejection ev key dual)"
  "confined (changes (finishes_at (recordKey key))) (conclude_acceptance ns ev input patchBytes p thresholdPpm key dual perSeed)"
proof -
  note rules = then_quiet [OF outcome_confined quiet_lift(2)] quiet_lift confined_quiet [OF finishes_refl]
  show "confined (changes (finishes_at (recordKey key))) (conclude_rejection ev key dual)"
    unfolding conclude_rejection_def ev_store Let_def by (auto intro: rules)
  show "confined (changes (finishes_at (recordKey key))) (conclude_acceptance ns ev input patchBytes p thresholdPpm key dual perSeed)"
    unfolding conclude_acceptance_def ev_store Let_def
    by (intro then_quiet [OF outcome_confined] confined_if quiet_then quiet_lift quiet_publishing finishes_refl)
qed

lemma quiet_prefix:
  assumes "confined quiet m" and "bind_io m f w = Some (r, w')"
  obtains (failed) e where "quiet w w'" "r = Inl e" | (goes_on) x u where "quiet w u" "m w = Some (Inr x, u)" "f x u = Some (r, w')"
proof -
  from assms(2) obtain a u where m: "m w = Some (a, u)" by (auto simp: bind_io_def Option.bind_eq_Some_conv)
  then show thesis using assms(2) confinedD [OF assms(1) m] failed goes_on by (cases a) (auto simp: bind_io_def)
qed

definition miner_of :: "score_input \<Rightarrow> string" where
  "miner_of input = toLowerCase (in_miner input)"

definition below_cap :: "score_input \<Rightarrow> 'w \<Rightarrow> bool" where
  "below_cap input w \<longleftrightarrow>
     of_nat (card (charged_keys (att w) (ec_epochId (ev_deps ev)) (miner_of input))) < ev_perMinerCap ev"

lemma fresh_effect:
  assumes "evaluate_fresh ns ev input patchBytes p thresholdPpm key w = Some (r, w')" and "ok w"
  shows "quiet w w' \<or>
    (changes (evaluates_at (recordKey key) key (miner_of input)) w w' \<and>
     (att w (recordKey key) = None \<longrightarrow> att w' (recordKey key) \<noteq> None \<longrightarrow> below_cap input w) \<and>
     (in_seedContext input = None \<longrightarrow> (\<forall>a. att w (recordKey key) = Some a \<longrightarrow> at_minerAddress a = miner_of input)))"
proof -
  let ?load = "case in_parentState input of Some s \<Rightarrow> return_io s | None \<Rightarrow> ec_parentStateLoader (ev_deps ev) (in_parentStateRoot input)"
  have load: "confined quiet ?load" by (auto simp: quiet_lift quiet_host split: option.split)
  let ?prior = "case pinned_context input of Some ctx \<Rightarrow> return_io None | None \<Rightarrow> st_getAttempt store key"
  have prior: "confined quiet ?prior" by (auto simp: quiet_lift quiet_get split: option.split)
  note run = assms(1) [unfolded evaluate_fresh_def Let_def ev_store]
  from load run show ?thesis
  proof (cases rule: quiet_prefix)
    case (goes_on parent u)
    from prior goes_on(3) show ?thesis
    proof (cases rule: quiet_prefix)
      case failed
      with goes_on(1) show ?thesis by (simp add: quiet_def)
    next
      case (goes_on a v)
      note q = \<open>quiet w u\<close> \<open>quiet u v\<close>
      have view: "rec v = rec w" "att v = att w" "ok v" using q assms(2) by (simp_all add: quiet_def)
      show ?thesis
      proof (cases "case a of Some a \<Rightarrow> at_minerAddress a \<noteq> toLowerCase (in_miner input) | None \<Rightarrow> False")
        case True
        with goes_on(3) have "w' = v" by simp
        with q show ?thesis by (simp add: quiet_def)
      next
        case False
        then have "bind_io (draw_and_score ev input patchBytes thresholdPpm key parent a) (\<lambda>(dual, perSeed).
            if \<not> pr_accepted dual then conclude_rejection ev key dual
            else conclude_acceptance ns ev input patchBytes p thresholdPpm key dual perSeed) v = Some (r, w')"
          using goes_on(3) by simp
        then obtain d x where d: "draw_and_score ev input patchBytes thresholdPpm key parent a v = Some (d, x)"
          and fin: "changes (finishes_at (recordKey key)) x w'"
        proof (cases rule: bind_io_cases)
          case (failed e)
          with that [OF failed(1)] changes_refl [OF finishes_refl] show ?thesis by (simp add: reflp_def)
        next
          case (goes_on y x)
          show ?thesis using confinedD [OF conclude_confined(1)] confinedD [OF conclude_confined(2)] goes_on(2)
            by (intro that [OF goes_on(1)]) (auto split: prod.splits if_splits)
        qed
        have draws: "changes (draws_at (recordKey key) key (miner_of input)) v x"
          using confinedD [OF score_confined d] by (simp add: miner_of_def)
        have "changes (evaluates_at (recordKey key) key (miner_of input)) w w'"
          using draws fin view assms(2) by (auto simp: changes_def evaluates_at_def)
        moreover have "below_cap input w" if "att w (recordKey key) = None" "att w' (recordKey key) \<noteq> None"
        proof -
          have "att x (recordKey key) \<noteq> None" using fin that by (auto simp: changes_def finishes_at_def split: if_splits)
          moreover have "a = None"
          proof (cases "pinned_context input")
            case None
            with goes_on(2) getAttempt [of key u] view that(1) show ?thesis by auto
          qed (use goes_on(2) in simp)
          ultimately show ?thesis
            using draw_below_cap [OF d] view that(1) by (simp add: below_cap_def miner_of_def)
        qed
        moreover have "at_minerAddress b = miner_of input" if "in_seedContext input = None" "att w (recordKey key) = Some b" for b
        proof -
          have "a = Some b" using goes_on(2) getAttempt [of key u] that view by (auto simp: pinned_context_def)
          with False show ?thesis by (simp add: miner_of_def)
        qed
        ultimately show ?thesis by blast
      qed
    qed
  qed simp
qed

definition entry :: "score_input \<Rightarrow> bytes \<Rightarrow> string" where
  "entry input patchBytes = recordKey (input_key ev input patchBytes)"

lemma score_effect:
  assumes "scorePatch ns ev input w = Some (r, w')" and "ok w"
  shows "quiet w w' \<or>
    (\<exists>bs. parseHex (in_patchBytesHex input) ''patchBytesHex'' = Inr bs \<and> rec w (entry input bs) = None \<and>
      changes (evaluates_at (entry input bs) (input_key ev input bs) (miner_of input)) w w' \<and>
      (att w (entry input bs) = None \<longrightarrow> att w' (entry input bs) \<noteq> None \<longrightarrow> below_cap input w) \<and>
      (in_seedContext input = None \<longrightarrow> (\<forall>a. att w (entry input bs) = Some a \<longrightarrow> at_minerAddress a = miner_of input)))"
proof (cases "parseHex (in_patchBytesHex input) ''patchBytesHex''")
  case (Inl e)
  with assms show ?thesis by (simp add: scorePatch_def quiet_def)
next
  case (Inr bs)
  show ?thesis
  proof (cases "\<exists>p threshold. decodePatch bs = Inr p \<and> effective_threshold (ev_deps ev) input = Inr threshold \<and> rec w (entry input bs) = None")
    case True
    then obtain p threshold where d: "decodePatch bs = Inr p" "effective_threshold (ev_deps ev) input = Inr threshold"
      and none: "rec w (entry input bs) = None" by blast
    have "evaluate_fresh ns ev input bs p threshold (input_key ev input bs) w = Some (r, w')"
      using assms(1) none get [of "input_key ev input bs" w]
      by (simp add: scorePatch_def Inr d ev_store entry_def bind_io_step [where m = "st_get store _"])
    from fresh_effect [OF this assms(2), folded entry_def] none show ?thesis by (auto simp: Inr)
  next
    case False
    have "w' = w"
      using assms(1) False get [of "input_key ev input bs" w]
      by (cases "decodePatch bs"; cases "effective_threshold (ev_deps ev) input")
        (auto simp: scorePatch_def Inr ev_store entry_def bind_io_step [where m = "st_get store _"])
    with assms(2) show ?thesis by (simp add: quiet_def)
  qed
qed

lemma outcome_recorded:
  assumes "record_outcome store key out code w = Some (Inr (), w')"
  shows "rec w' (recordKey key) \<noteq> None"
proof -
  let ?r = "\<lparr> dr_key = key, dr_outcome = out, dr_code = some_code code \<rparr>"
  from assms obtain u where "st_put store ?r u = Some (Inr (), w')"
    by (auto simp: record_outcome_def bind_io_Inr)
  with put [of ?r u] show ?thesis by auto
qed

lemma acceptance_recorded:
  assumes "conclude_acceptance ns ev input patchBytes p thresholdPpm key dual perSeed w = Some (Inr q, w')"
  shows "rec w' (recordKey key) \<noteq> None"
  using assms unfolding conclude_acceptance_def ev_store Let_def
  by (auto simp: bind_io_Inr split: if_splits dest!: outcome_recorded)

lemma fresh_accepts:
  assumes "evaluate_fresh ns ev input bs p thresholdPpm key w = Some (Inr (res, art), w')" and "accepts res"
  shows "rec w' (recordKey key) \<noteq> None"
  using assms unfolding evaluate_fresh_def Let_def
  by (auto simp: bind_io_Inr split: if_splits prod.splits dest!: rejection_rejects acceptance_recorded)
    (simp add: accepts_def)

lemma score_accepts:
  assumes "scorePatch ns ev input w = Some (Inr (res, art), w')" and "accepts res"
  obtains bs where "parseHex (in_patchBytesHex input) ''patchBytesHex'' = Inr bs" "rec w (entry input bs) = None"
    "rec w' (entry input bs) \<noteq> None"
proof -
  obtain bs where bs: "parseHex (in_patchBytesHex input) ''patchBytesHex'' = Inr bs"
    using assms(1) by (cases "parseHex (in_patchBytesHex input) ''patchBytesHex''") (auto simp: scorePatch_def)
  obtain p where p: "decodePatch bs = Inr p"
    using assms(1) by (cases "decodePatch bs") (auto simp: scorePatch_def bs)
  obtain th where th: "effective_threshold (ev_deps ev) input = Inr th"
    using assms(1) by (cases "effective_threshold (ev_deps ev) input") (auto simp: scorePatch_def bs p)
  note run = assms(1) [unfolded scorePatch_def bs p th io_simps ev_store, unfolded bind_io_step [where m = "st_get store _", OF get]]
  show thesis
  proof (cases "rec w (entry input bs)")
    case None
    with run fresh_accepts [OF _ assms(2)] that [OF bs] show thesis by (simp add: entry_def)
  next
    case (Some q)
    with run assms(2) show thesis by (simp add: entry_def accepts_def)
  qed
qed

lemma recorded_stays:
  assumes "scorePatch ns ev input w = Some (r, w')" and "ok w" and "rec w k \<noteq> None"
  shows "rec w' k \<noteq> None"
  using score_effect [OF assms(1,2)] assms(3)
  by (auto simp: quiet_def changes_def evaluates_at_def draws_at_def finishes_at_def)

lemma ok_stays: "scorePatch ns ev input w = Some (r, w') \<Longrightarrow> ok w \<Longrightarrow> ok w'"
  using score_effect [of input w r w'] by (auto simp: quiet_def changes_def)

text \<open>What an attempt keeps.\<close>

definition pins :: "attempt_record \<Rightarrow> seed_context \<times> string \<times> bool" where
  "pins a = (at_seedContext a, at_minerAddress a, at_admissionCharged a)"

lemma attempt_stays:
  assumes "scorePatch ns ev input w = Some (r, w')" and "ok w" and "att w k = Some a"
  shows "\<exists>a'. att w' k = Some a' \<and> pins a' = pins a"
  using score_effect [OF assms(1,2)] assms(3)
  by (auto simp: quiet_def changes_def evaluates_at_def draws_at_def finishes_at_def pins_def finished_attempt_def split: if_splits)

lemma charges_step:
  assumes "scorePatch ns ev input w = Some (r, w')" and "ok w"
  shows "card (charged_keys (att w') e m) = card (charged_keys (att w) e m) \<or>
    (e = ec_epochId (ev_deps ev) \<and> m = miner_of input \<and> below_cap input w \<and>
     card (charged_keys (att w') e m) = Suc (card (charged_keys (att w) e m)))"
proof -
  from score_effect [OF assms] consider (quiet) "att w' = att w"
    | (step) k key a where "key = input_key ev input a" "changes (evaluates_at k key (miner_of input)) w w'"
      "att w k = None \<longrightarrow> att w' k \<noteq> None \<longrightarrow> below_cap input w" "k = recordKey key"
    by (auto simp: quiet_def entry_def)
  then show ?thesis
  proof cases
    case (step k key bs)
    then obtain v where draws: "draws_at k key (miner_of input) (rec w, att w) v" and fin: "finishes_at k v (rec w', att w')"
      by (auto simp: changes_def evaluates_at_def)
    have same: "charged_keys (att w') e m = charged_keys (snd v) e m"
      using fin by (auto simp: finishes_at_def charged_finished)
    from draws consider (old) "snd v = att w" | (new) ctx where "att w k = None" "snd v = (att w)(k \<mapsto> drawn_attempt key ctx (miner_of input))"
      by (auto simp: draws_at_def)
    then show ?thesis
    proof cases
      case old
      with same show ?thesis by simp
    next
      case (new ctx)
      have "att w' k \<noteq> None" using fin new by (auto simp: finishes_at_def)
      with step(3) new have cap: "below_cap input w" by simp
      have idem: "toLowerCase (miner_of input) = miner_of input" by (simp add: miner_of_def)
      have fin: "finite (charged_keys (att w) e m)" using finite_charged finite_attempts assms(2) by blast
      show ?thesis
        using cap charged_new [where attempts = "att w", OF new(1)] fin
        by (auto simp: same new(2) charged_drawn [where attempts = "att w", OF new(1)] idem step(1) input_key_def)
    qed
  qed simp
qed

lemma cap_step:
  assumes "scorePatch ns ev input w = Some (r, w')" and "ok w" and "ev_perMinerCap ev = of_int c"
    and "\<And>e m. of_nat (card (charged_keys (att w) e m)) \<le> ev_perMinerCap ev"
  shows "of_nat (card (charged_keys (att w') e m)) \<le> ev_perMinerCap ev"
  using charges_step [OF assms(1,2), of e m] assms(4) [of e m]
proof (elim disjE)
  assume step: "e = ec_epochId (ev_deps ev) \<and> m = miner_of input \<and> below_cap input w \<and>
     card (charged_keys (att w') e m) = Suc (card (charged_keys (att w) e m))"
  then have "(of_int (int (card (charged_keys (att w) e m))) :: rat) < of_int c" by (auto simp: below_cap_def assms(3))
  then have "int (card (charged_keys (att w) e m)) < c" by (simp only: of_int_less_iff)
  moreover have "card (charged_keys (att w') e m) = Suc (card (charged_keys (att w) e m))" using step by blast
  ultimately have "int (card (charged_keys (att w') e m)) \<le> c" by simp
  then have "(of_int (int (card (charged_keys (att w') e m))) :: rat) \<le> of_int c" by (simp only: of_int_le_iff)
  then show ?thesis by (simp add: assms(3))
qed simp

text \<open>A key with a recorded outcome is answered without a look at anything else.\<close>

lemma duplicate_answered:
  assumes "parseHex (in_patchBytesHex input) ''patchBytesHex'' = Inr bs" and "decodePatch bs = Inr p"
    and "effective_threshold (ev_deps ev) input = Inr th" and "rec w (entry input bs) \<noteq> None"
  shows "scorePatch ns ev input w = Some (Inr (Eval_reject ''duplicate_submission'', None), w)"
  using assms(4) get [of "input_key ev input bs" w]
  by (auto simp: scorePatch_def assms(1-3) ev_store entry_def bind_io_step [where m = "st_get store _"] return_io_def)

text \<open>A retry is scored under the context of its attempt.\<close>

lemma retry_uses_pin:
  assumes "scorePatch ns ev input w = Some (Inr (res, art), w')" and "ok w" and "in_seedContext input = None"
    and "parseHex (in_patchBytesHex input) ''patchBytesHex'' = Inr bs" and "att w (entry input bs) = Some a"
    and "result_proof res = Some p"
  shows "ep_receivedAtBlock p = sc_receivedAtBlock (at_seedContext a) \<and> ep_targetBlock p = sc_targetBlock (at_seedContext a) \<and>
    ep_blockhash p = toLowerCase (sc_blockhash (at_seedContext a)) \<and> at_minerAddress a = miner_of input"
proof -
  have acc: "accepts res" using assms(6) by (cases res) (auto simp: accepts_def result_proof_def)
  from assms(1) acc show ?thesis
  proof (rule accepted_run)
    fix bs' q th w0 parent w1 prior w2 n w3 dual perSeed w4
    assume bs': "parseHex (in_patchBytesHex input) ''patchBytesHex'' = Inr bs'"
      and g: "st_get (ev_store ev) (input_key ev input bs') w = Some (Inr None, w0)"
      and load: "(case in_parentState input of Some s \<Rightarrow> return_io s | None \<Rightarrow> ec_parentStateLoader (ev_deps ev) (in_parentStateRoot input)) w0 =
        Some (Inr parent, w1)"
      and prior: "(case pinned_context input of Some ctx \<Rightarrow> return_io None | None \<Rightarrow> st_getAttempt (ev_store ev) (input_key ev input bs')) w1 =
        Some (Inr prior, w2)"
      and run: "runPerPatchEvaluation (dual_request ev input bs') (dual_deps ev input parent th (input_key ev input bs') prior n) ([], w3) =
        Some (Inr dual, perSeed, w4)" and dual: "pr_accepted dual"
      and concl: "conclude_acceptance ns ev input bs' q th (input_key ev input bs') dual perSeed w4 = Some (Inr (res, art), w')"
    have same: "bs' = bs" using bs' assms(4) by simp
    have start: "w0 = w" using g [unfolded ev_store get] by simp
    have "confined quiet (case in_parentState input of Some s \<Rightarrow> return_io s | None \<Rightarrow> ec_parentStateLoader (ev_deps ev) (in_parentStateRoot input))"
      by (auto simp: quiet_lift quiet_host split: option.split)
    from confinedD [OF this load] start have "att w1 = att w" by (simp add: quiet_def)
    then have prior': "prior = Some a"
      using prior assms(3,5) getAttempt [of "input_key ev input bs'" w1] by (auto simp: pinned_context_def ev_store entry_def same)
    have ctx: "pr_receivedAtBlock dual = sc_receivedAtBlock (at_seedContext a) \<and> pr_targetBlock dual = sc_targetBlock (at_seedContext a) \<and>
        pr_blockhash dual = sc_blockhash (at_seedContext a)"
      using dual_accepted(7) [OF run dual] by (simp add: dual_deps_def Let_def prior' pinned_context_def assms(3))
    have miner: "at_minerAddress a = miner_of input"
    proof -
      have "\<not> quiet w w'" by (rule score_accepts [OF assms(1) acc]) (auto simp: quiet_def)
      with score_effect [OF assms(1,2)] assms(3,4) have "\<forall>a. att w (entry input bs) = Some a \<longrightarrow> at_minerAddress a = miner_of input"
        by auto
      with assms(5) show ?thesis by blast
    qed
    from concl show ?thesis
    proof (rule conclude_accepts)
      fix chosen artifact dp
      assume dp: "dualPackProofFromPerPatchReceipt dual (ec_corpusRoot (ev_deps ev)) (ec_bundleHash (ev_deps ev)) (ev_hiddenSeedCommit ev)
          (ec_targetBlockOffset (ev_deps ev)) = Inr dp"
        and res: "res = Screener_pass (accepted_result (num_min (pr_gateScorePpm dual) (pr_confirmScorePpm dual)) artifact dp) \<or>
          (\<exists>delta rewritten. num_ge (num_min (pr_gateScorePpm dual) (pr_confirmScorePpm dual)) (ec_stateThresholdPpm (ev_deps ev)) \<and>
            bigint_of (num_min (pr_gateScorePpm dual) (pr_confirmScorePpm dual)) = Inr delta \<and>
            encodePatch (q\<lparr>scoreDelta := delta\<rparr>) = Inr rewritten \<and>
            res = State_advance (accepted_result (num_min (pr_gateScorePpm dual) (pr_confirmScorePpm dual)) artifact dp)
              (ppm (pe_beforeComposite chosen))
              (num_add (ppm (pe_beforeComposite chosen)) (num_min (pr_gateScorePpm dual) (pr_confirmScorePpm dual)))
              (JString (bytesToHex rewritten)))"
      have "p = proof_of dp" using res assms(6) by (auto simp: result_proof_def accepted_result_def)
      with dp ctx miner show ?thesis
        by (auto simp: dualPackProofFromPerPatchReceipt_def proof_of_def bind_res_eq_Inr dual)
    qed
  qed
qed

end

section \<open>The evaluator with the store in memory\<close>

text \<open>The host functions of \<open>deps\<close> next to the store.\<close>

definition in_memory_deps :: "'w evaluator_deps \<Rightarrow> (memory_store \<times> 'w) evaluator_deps" where
  "in_memory_deps deps =
     \<lparr> ec_epochId = ec_epochId deps, ec_epochSecret = ec_epochSecret deps, ec_hiddenSeedCommit = ec_hiddenSeedCommit deps,
       ec_corpusRoot = ec_corpusRoot deps, ec_bundleHash = ec_bundleHash deps, ec_stateThresholdPpm = ec_stateThresholdPpm deps,
       ec_screenerThresholdPpm = ec_screenerThresholdPpm deps, ec_replayTolerancePpm = ec_replayTolerancePpm deps,
       ec_targetBlockOffset = ec_targetBlockOffset deps, ec_perMinerCap = ec_perMinerCap deps,
       ec_rpcClient = call_client (ec_rpcClient deps), ec_dedupStore = Some createInMemoryDedupStore,
       ec_parentStateLoader = (\<lambda>r. call (ec_parentStateLoader deps r)), ec_seedScorer = (\<lambda>a. call (ec_seedScorer deps a)),
       ec_publishArtifact = map_option (\<lambda>hook a. call (hook a)) (ec_publishArtifact deps) \<rparr>"

definition in_memory_evaluator :: "'w evaluator_deps \<Rightarrow> rat \<Rightarrow> string \<Rightarrow> (memory_store \<times> 'w) evaluator" where
  "in_memory_evaluator deps cap commit =
     \<lparr> ev_deps = in_memory_deps deps, ev_store = createInMemoryDedupStore, ev_perMinerCap = cap, ev_hiddenSeedCommit = commit \<rparr>"

lemma in_memory_simps [simp]:
  "ec_epochId (in_memory_deps deps) = ec_epochId deps" "ec_perMinerCap (in_memory_deps deps) = ec_perMinerCap deps"
  "ec_dedupStore (in_memory_deps deps) = Some createInMemoryDedupStore"
  "ev_deps (in_memory_evaluator deps cap commit) = in_memory_deps deps"
  "ev_store (in_memory_evaluator deps cap commit) = createInMemoryDedupStore"
  "ev_perMinerCap (in_memory_evaluator deps cap commit) = cap"
  "ev_hiddenSeedCommit (in_memory_evaluator deps cap commit) = commit"
  by (simp_all add: in_memory_deps_def in_memory_evaluator_def)

lemma constructed:
  assumes "createCoreTexEvaluatorCore (in_memory_deps deps) = Inr ev"
  obtains c commit where "ev = in_memory_evaluator deps (of_int c) commit" "0 < c" "ec_perMinerCap deps = Some (js_num.Num (of_int c))"
    "resolve_seed_commit (in_memory_deps deps) = Inr commit"
proof -
  from assms obtain cap commit where cap: "validatePerMinerCap (ec_perMinerCap deps) = Inr cap"
    and commit: "resolve_seed_commit (in_memory_deps deps) = Inr commit" and ev: "ev = in_memory_evaluator deps cap commit"
    by (auto simp: createCoreTexEvaluatorCore_def bind_res_eq_Inr in_memory_evaluator_def)
  from cap have int: "snd (quotient_of cap) = 1" and pos: "0 < cap" "ec_perMinerCap deps = Some (js_num.Num cap)"
    by (auto simp: validatePerMinerCap_def is_safe_integer_def split: option.splits js_num.splits if_splits)
  have "cap = of_int (fst (quotient_of cap))" using quotient_of_div [of cap] int by (cases "quotient_of cap") simp
  then show thesis using that [of "fst (quotient_of cap)" commit] ev commit pos by (metis of_int_0_less_iff)
qed

interpretation memory_host: hosted_evaluator createInMemoryDedupStore
    "\<lambda>(s, w). map_of (ms_records s)" "\<lambda>(s, w). map_of (ms_attempts s)" "\<lambda>(s, w). mem_ok s"
    "in_memory_evaluator deps cap commit" ns for deps cap commit ns
  by unfold_locales
    (auto simp: in_memory_evaluator_def in_memory_deps_def call_client_def confined_def call_def)

section \<open>Sequences of evaluations\<close>

text \<open>Evaluations one after the other; between them the world outside of the store is any.  The
  trace has the inputs and what came back, a thrown error included.\<close>

inductive evaluations :: "(rat \<Rightarrow> string) \<Rightarrow> (memory_store \<times> 'w) evaluator \<Rightarrow> memory_store \<Rightarrow>
    (score_input \<times> (js_error + eval_result \<times> js_value option)) list \<Rightarrow> memory_store \<Rightarrow> bool" for ns ev s0 where
  evaluations_start: "evaluations ns ev s0 [] s0"
| evaluations_step: "evaluations ns ev s0 tr s \<Longrightarrow> scorePatch ns ev input (s, w) = Some (r, s', w') \<Longrightarrow>
    evaluations ns ev s0 (tr @ [(input, r)]) s'"

definition empty_store :: memory_store where
  "empty_store = \<lparr> ms_records = [], ms_attempts = [] \<rparr>"

lemma evaluations_ok:
  assumes "evaluations ns (in_memory_evaluator deps cap commit) s0 tr s" and "mem_ok s0"
  shows "mem_ok s"
  using assms(1)
proof induction
  case (evaluations_step tr s input w r s' w')
  from memory_host.ok_stays [OF evaluations_step(2)] evaluations_step(3) show ?case by simp
qed (rule assms(2))


text \<open>
  C20: admissions are charged exactly once and never beyond the cap.  After any sequence of
  evaluations from an empty store, thrown ones included, the count that the next admission check
  reads for a miner in an epoch is the number of patches whose first draw was charged to it, and
  it is at most \<open>perMinerCap\<close>.
\<close>

theorem admissions_capped:
  assumes "createCoreTexEvaluatorCore (in_memory_deps deps) = Inr ev" and "evaluations ns ev empty_store tr s"
  shows "mem_minerAdmissions s epoch miner = of_nat (card (charged_keys (map_of (ms_attempts s)) epoch (toLowerCase miner))) \<and>
    mem_minerAdmissions s epoch miner \<le> ev_perMinerCap ev"
proof -
  obtain c commit where ev: "ev = in_memory_evaluator deps (of_int c) commit" and c: "0 < c" using constructed [OF assms(1)] by blast
  have "mem_ok s \<and> (\<forall>e m. of_nat (card (charged_keys (map_of (ms_attempts s)) e m)) \<le> ev_perMinerCap ev)"
    using assms(2)
  proof induction
    case evaluations_start
    have "charged_keys (map_of []) e m = {}" for e m by (simp add: charged_keys_def)
    with c show ?case by (simp add: empty_store_def mem_ok_def ev)
  next
    case (evaluations_step tr s input w r s' w')
    note step = evaluations_step(2) [unfolded ev]
    have "of_nat (card (charged_keys (map_of (ms_attempts s')) e m)) \<le> ev_perMinerCap ev" for e m
      using memory_host.cap_step [OF step _ _ , of c e m] evaluations_step(3) by (simp add: ev)
    with memory_host.ok_stays [OF step] evaluations_step(3) show ?case by simp
  qed
  then show ?thesis by (simp add: mem_admissions_charged)
qed

definition accepted_for :: "'w evaluator \<Rightarrow> string \<Rightarrow> score_input \<times> (js_error + eval_result \<times> js_value option) \<Rightarrow> bool" where
  "accepted_for ev k e \<longleftrightarrow>
     (case (parseHex (in_patchBytesHex (fst e)) ''patchBytesHex'', snd e) of
        (Inr bs, Inr (res, art)) \<Rightarrow> accepts res \<and> recordKey (input_key ev (fst e) bs) = k
      | _ \<Rightarrow> False)"

text \<open>
  C18: a patch is credited once.  In any sequence of evaluations from an empty store, at most one
  has an accepted result for a given epoch, parent state and patch, whoever sends it and in
  whatever letter case.
\<close>

theorem patch_credited_once:
  assumes "createCoreTexEvaluatorCore (in_memory_deps deps) = Inr ev" and "evaluations ns ev empty_store tr s"
  shows "length (filter (accepted_for ev k) tr) \<le> 1"
proof -
  obtain c commit where ev: "ev = in_memory_evaluator deps (of_int c) commit" using constructed [OF assms(1)] by blast
  have "mem_ok s \<and> length (filter (accepted_for ev k) tr) \<le> 1 \<and>
      (filter (accepted_for ev k) tr \<noteq> [] \<longrightarrow> map_of (ms_records s) k \<noteq> None)"
    using assms(2)
  proof induction
    case evaluations_start
    show ?case by (simp add: empty_store_def mem_ok_def)
  next
    case (evaluations_step tr s input w r s' w')
    note step = evaluations_step(2) [unfolded ev]
    have ok: "mem_ok s'" using memory_host.ok_stays [OF step] evaluations_step(3) by simp
    have stays: "map_of (ms_records s) k \<noteq> None \<Longrightarrow> map_of (ms_records s') k \<noteq> None"
      using memory_host.recorded_stays [OF step, of k] evaluations_step(3) by simp
    show ?case
    proof (cases "accepted_for ev k (input, r)")
      case False
      with evaluations_step(3) ok stays show ?thesis by auto
    next
      case True
      then obtain bs res art where r: "r = Inr (res, art)" "accepts res" "parseHex (in_patchBytesHex input) ''patchBytesHex'' = Inr bs"
        "recordKey (input_key ev input bs) = k"
        by (auto simp: accepted_for_def split: sum.splits prod.splits)
      from memory_host.score_accepts [OF step [unfolded r(1)] r(2)] r(3,4)
      have "map_of (ms_records s) k = None \<and> map_of (ms_records s') k \<noteq> None"
        by (auto simp: memory_host.entry_def ev)
      with evaluations_step(3) ok True show ?thesis by auto
    qed
  qed
  then show ?thesis by blast
qed

end
