(* ===== verification/Evaluator_Results.thy ===== *)
theory Evaluator_Results
  imports Evaluator
begin

text \<open>
  What an accepted evaluation hands on: a result that the coordinator of
  \<open>src/coordinator/coretex-coordinator-core.ts\<close> signs for, and a report that passes the check of
  \<open>src/replay/eval-report-artifact.ts\<close> once the secret is revealed.
\<close>

section \<open>The published report\<close>

text \<open>Values of the host in an accepted receipt: blocks and scores are counts, the target is at its
  offset, and the blockhash is a hash.\<close>

definition host_values_ok :: "per_patch_receipt \<Rightarrow> js_num \<Rightarrow> bool" where
  "host_values_ok r targetBlockOffset \<longleftrightarrow>
     safe_nat (pr_receivedAtBlock r) \<and> num_gt (pr_receivedAtBlock r) (js_num.Num 0) \<and> safe_nat (pr_targetBlock r) \<and>
     safe_nat targetBlockOffset \<and> num_gt targetBlockOffset (js_num.Num 0) \<and>
     pr_targetBlock r = num_add (pr_receivedAtBlock r) targetBlockOffset \<and>
     BYTES32_RE (pr_blockhash r) \<and> toLowerCase (pr_blockhash r) \<noteq> zero_hash \<and>
     safe_nat (pr_gateScorePpm r) \<and> safe_nat (pr_confirmScorePpm r) \<and>
     num_ge (js_num.Num 1000000) (pr_gateScorePpm r) \<and> num_ge (js_num.Num 1000000) (pr_confirmScorePpm r)"

text \<open>Configuration and input: an epoch that is a count, and roots of 32 bytes in lower case.\<close>

definition report_inputs_ok :: "'w evaluator \<Rightarrow> score_input \<Rightarrow> bool" where
  "report_inputs_ok ev input \<longleftrightarrow>
     0 \<le> ec_epochId (ev_deps ev) \<and> ec_epochId (ev_deps ev) < 2 ^ 53 \<and> safe_nat (ec_replayTolerancePpm (ev_deps ev)) \<and>
     BYTES32_RE (ec_corpusRoot (ev_deps ev)) \<and> toLowerCase (ec_corpusRoot (ev_deps ev)) = ec_corpusRoot (ev_deps ev) \<and>
     BYTES32_RE (ec_bundleHash (ev_deps ev)) \<and> toLowerCase (ec_bundleHash (ev_deps ev)) = ec_bundleHash (ev_deps ev) \<and>
     BYTES32_RE (toLowerCase (in_parentStateRoot input))"

lemma num_of_json [simp]: "num_of (num_json n) = n"
  by (cases n) (simp_all add: num_of_def num_json_def)

lemma safe_count_json [simp]: "safe_count (num_json n) = (case n of NaN \<Rightarrow> False | js_num.Num x \<Rightarrow> safe_integer x \<and> 0 \<le> x)"
  by (cases n) (simp_all add: num_json_def)

lemma document_receipt_keyed:
  "pr_rejectionReason r = None \<Longrightarrow> document_receipt (receipt_value r) key = r\<lparr>pr_dedupKey := key\<rparr>"
  by (cases r) (simp add: document_receipt_def receipt_value_def jget_def or_else_def)

lemma document_receipt_value:
  "pr_rejectionReason r = None \<Longrightarrow> document_receipt (receipt_value r) (pr_dedupKey r) = r"
  by (simp add: document_receipt_keyed)

lemma host_values_keyed: "host_values_ok (r\<lparr>pr_dedupKey := key\<rparr>) n = host_values_ok r n"
  by (cases r) (simp only: host_values_ok_def per_patch_receipt.simps)

lemma receipt_dedup_key: "jget (receipt_value r) ''dedupKey'' = JString (pr_dedupKey r)"
  by (simp add: receipt_value_def jget_def or_else_def)

lemma replay_value:
  assumes "pr_rejectionReason r = None"
  shows "replay_receipt (receipt_value r) deps = verifyPerPatchReceipt r deps"
  by (simp add: replay_receipt_def receipt_dedup_key document_receipt_value [OF assms])

lemma safe_integer_eq: "is_safe_integer x \<longleftrightarrow> safe_integer x"
proof
  assume safe: "is_safe_integer x"
  then have "x = of_int (fst (quotient_of x))"
    using quotient_of_div [of x] by (cases "quotient_of x") (simp add: is_safe_integer_def)
  with safe show "safe_integer x" unfolding is_safe_integer_def safe_integer_def by (metis floor_of_int of_int_abs of_int_le_numeral_power_cancel_iff of_int_1 of_int_diff of_int_le_iff of_int_numeral of_int_power)
next
  assume safe: "safe_integer x"
  then have x: "x = of_int \<lfloor>x\<rfloor>" unfolding safe_integer_def by argo
  then have "x = Fract \<lfloor>x\<rfloor> 1" by (simp only: of_int_rat [symmetric])
  then have "quotient_of x = (\<lfloor>x\<rfloor>, 1)" by (metis quotient_of_Fract normalize_def div_by_1 fst_conv gcd_1_int less_numeral_extra(1) snd_conv)
  moreover have "\<bar>\<lfloor>x\<rfloor>\<bar> \<le> 2 ^ 53 - 1"
  proof -
    have "\<bar>of_int \<lfloor>x\<rfloor> :: rat\<bar> \<le> of_int (2 ^ 53 - 1)" using safe x unfolding safe_integer_def by simp
    then show ?thesis by (simp only: of_int_abs [symmetric] of_int_le_iff)
  qed
  ultimately show "is_safe_integer x" by (simp add: is_safe_integer_def)
qed

lemma safe_nat_count: "safe_nat n \<longleftrightarrow> safe_count (num_json n)"
  by (cases n) (simp_all add: safe_nat_def num_json_def safe_integer_eq)

text \<open>The fields of a report.\<close>

lemma artifact_field_simps:
  "jget (JObject (artifact_fields ev input bs th key dual adv)) ''version'' = JString ''coretex-post-reveal-eval-report-v1''"
  "jget (JObject (artifact_fields ev input bs th key dual adv)) ''epochId'' = JNumber (Finite (of_int (ec_epochId (ev_deps ev))))"
  "jget (JObject (artifact_fields ev input bs th key dual adv)) ''minerAddress'' = JString (toLowerCase (in_miner input))"
  "jget (JObject (artifact_fields ev input bs th key dual adv)) ''outcome'' = JString (if adv then ''STATE_ADVANCE'' else ''SCREENER_PASS'')"
  "jget (JObject (artifact_fields ev input bs th key dual adv)) ''compactPatchBytesHex'' = JString (bytesToHex bs)"
  "jget (JObject (artifact_fields ev input bs th key dual adv)) ''thresholdPpm'' = num_json th"
  "jget (JObject (artifact_fields ev input bs th key dual adv)) ''seedDerivation'' = seed_derivation_value (ev_deps ev) key dual"
  "jget (JObject (artifact_fields ev input bs th key dual adv)) ''receipt'' = receipt_value dual"
  by (simp_all add: artifact_fields_def jget_def or_else_def Let_def)

lemma artifact_context_simps:
  "jget (jget (JObject (artifact_fields ev input bs th key dual adv)) ''context'') ''parentStateRoot'' = JString (dk_parentStateRoot key)"
  "jget (jget (JObject (artifact_fields ev input bs th key dual adv)) ''context'') ''corpusRoot'' = JString (toLowerCase (ec_corpusRoot (ev_deps ev)))"
  "jget (jget (JObject (artifact_fields ev input bs th key dual adv)) ''context'') ''coreVersionHash'' = JString (toLowerCase (ec_bundleHash (ev_deps ev)))"
  "jget (jget (JObject (artifact_fields ev input bs th key dual adv)) ''context'') ''hiddenSeedCommit'' = JString (ev_hiddenSeedCommit ev)"
  "jget (jget (JObject (artifact_fields ev input bs th key dual adv)) ''context'') ''replayTolerancePpm'' = num_json (ec_replayTolerancePpm (ev_deps ev))"
  "is_object (jget (JObject (artifact_fields ev input bs th key dual adv)) ''context'')"
  by (simp_all add: artifact_fields_def jget_def or_else_def Let_def)

lemma seed_derivation_simps:
  "jget (seed_derivation_value deps key dual) ''mode'' = JString ''future_blockhash_dual_pack''"
  "jget (seed_derivation_value deps key dual) ''epochId'' = JNumber (Finite (of_int (ec_epochId deps)))"
  "jget (seed_derivation_value deps key dual) ''receivedAtBlock'' = num_json (pr_receivedAtBlock dual)"
  "jget (seed_derivation_value deps key dual) ''targetBlock'' = num_json (pr_targetBlock dual)"
  "jget (seed_derivation_value deps key dual) ''targetBlockOffset'' = num_json (ec_targetBlockOffset deps)"
  "jget (seed_derivation_value deps key dual) ''blockhash'' = JString (toLowerCase (pr_blockhash dual))"
  "jget (seed_derivation_value deps key dual) ''patchHash'' = JString (dk_patchHash key)"
  "jget (seed_derivation_value deps key dual) ''parentStateRoot'' = JString (dk_parentStateRoot key)"
  "jget (seed_derivation_value deps key dual) ''corpusRoot'' = JString (toLowerCase (ec_corpusRoot deps))"
  "jget (seed_derivation_value deps key dual) ''bundleHash'' = JString (toLowerCase (ec_bundleHash deps))"
  "is_object (seed_derivation_value deps key dual)"
  by (simp_all add: seed_derivation_value_def jget_def or_else_def)

lemma receipt_value_simps:
  "jget (receipt_value r) ''patchHash'' = JString (pr_patchHash r)" "jget (receipt_value r) ''parentRoot'' = JString (pr_parentRoot r)"
  "jget (receipt_value r) ''minerAddress'' = JString (pr_minerAddress r)"
  "jget (receipt_value r) ''epochId'' = JNumber (Finite (of_int (pr_epochId r)))"
  "jget (receipt_value r) ''receivedAtBlock'' = num_json (pr_receivedAtBlock r)"
  "jget (receipt_value r) ''targetBlock'' = num_json (pr_targetBlock r)"
  "jget (receipt_value r) ''blockhash'' = JString (pr_blockhash r)" "jget (receipt_value r) ''gateSeed'' = JString (pr_gateSeed r)"
  "jget (receipt_value r) ''confirmSeed'' = JString (pr_confirmSeed r)"
  "jget (receipt_value r) ''gateScorePpm'' = num_json (pr_gateScorePpm r)"
  "jget (receipt_value r) ''confirmScorePpm'' = num_json (pr_confirmScorePpm r)"
  "jget (receipt_value r) ''accepted'' = JBool (pr_accepted r)" "is_object (receipt_value r)"
  by (simp_all add: receipt_value_def jget_def or_else_def)

lemmas report_simps = artifact_field_simps artifact_context_simps seed_derivation_simps receipt_value_simps receipt_dedup_key

lemma hexToBytes_checked_eq:
  assumes "hex_string s" and "length s mod 2 = 0"
  shows "hexToBytes_checked s = hexToBytes s"
proof -
  have c: "clean_hex s = drop 2 s" "list_all (\<lambda>c. hex_val c \<noteq> None) (drop 2 s)" "take 2 s = ''0x''"
    using assms(1) by (auto simp: clean_hex_def hex_string_def)
  have "length (drop 2 s) mod 2 = 0" using assms(2) by (cases s; cases "tl s") auto
  then show ?thesis using c by (simp add: hexToBytes_checked_def hexToBytes_def Let_def)
qed

lemma bytesToHex_text: "hex_string (bytesToHex bs)" "length (bytesToHex bs) mod 2 = 0" "even_hex (bytesToHex bs)"
proof -
  show h: "hex_string (bytesToHex bs)" using byte_hex_val [of bs] by (simp add: hex_string_def bytesToHex_eq)
  have l: "length (bytesToHex bs) = 2 + 2 * length bs" using hex_round_trip by blast
  then show "length (bytesToHex bs) mod 2 = 0" by simp
  with h l show "even_hex (bytesToHex bs)" by (simp add: even_hex_def)
qed

lemma parse_checked:
  assumes "parseHex s label = Inr bs"
  shows "hexToBytes_checked s = Inr bs"
  using assms by (auto simp: parseHex_def hexToBytes_checked_eq split: if_splits)

lemma compact_checked: "hexToBytes_checked (bytesToHex bs) = Inr bs"
  using bytesToHex_text [of bs] by (simp add: hexToBytes_checked_eq hexToBytes_bytesToHex)

lemma hex_val_lower: "hex_val c \<noteq> None \<Longrightarrow> hex_val (to_lower c) \<noteq> None"
  by (auto simp: hex_val_def to_lower_def Let_def split: if_splits)

lemma BYTES32_lower: "BYTES32_RE s \<Longrightarrow> BYTES32_RE (toLowerCase s)"
proof -
  assume s: "BYTES32_RE s"
  have "toLowerCase ''0x'' = ''0x''" by code_simp
  then have "take 2 (toLowerCase s) = ''0x''" using s by (simp add: BYTES32_RE_def prefixed_hex_def toLowerCase_def take_map)
  then show ?thesis using s hex_val_lower
    by (auto simp: BYTES32_RE_def prefixed_hex_def toLowerCase_def drop_map list_all_iff)
qed

lemma same_hex_strings [simp]: "same_hex (JString s) (JString t) = hexEq s t"
  by (simp add: same_hex_def)

lemma report_well_formed:
  assumes "buildPostRevealEvalReportArtifact ns (artifact_fields ev input bs th (input_key ev input bs) dual adv) = Inr a"
    and "pr_patchHash dual = computePatchHash bs" and "pr_parentRoot dual = toLowerCase (in_parentStateRoot input)"
    and "pr_minerAddress dual = toLowerCase (in_miner input)" and "pr_epochId dual = ec_epochId (ev_deps ev)"
    and "ADDR_RE (toLowerCase (in_miner input))" and "BYTES32_RE (pr_gateSeed dual)" and "BYTES32_RE (pr_confirmSeed dual)"
    and "report_inputs_ok ev input" and "host_values_ok dual (ec_targetBlockOffset (ev_deps ev))" and "safe_nat th"
    and "BYTES32_RE (ev_hiddenSeedCommit ev)"
  shows "validateArtifactShape a = None" and "validateSeedDerivationBinding a = None"
proof -
  let ?f = "JObject (artifact_fields ev input bs th (input_key ev input bs) dual adv)"
  from assms(1) obtain h where h: "jget a ''artifactHash'' = JString h" "jget a ''evalReportHash'' = JString h" "is_object a" "BYTES32_RE h"
    and fields: "\<And>k. k \<notin> {''artifactHash'', ''evalReportHash''} \<Longrightarrow> jget a k = jget ?f k"
    by (rule built) blast
  have epoch: "safe_count (JNumber (Finite (of_int (ec_epochId (ev_deps ev)))))"
    using assms(9) by (simp add: report_inputs_ok_def safe_integer_def)
  have hashes: "BYTES32_RE (computePatchHash bs)" "toLowerCase (computePatchHash bs) = computePatchHash bs"
    using hash_receipts(1) by (simp_all add: computePatchHash_def)
  have counts: "safe_count (num_json (pr_receivedAtBlock dual))" "safe_count (num_json (pr_targetBlock dual))"
      "safe_count (num_json (pr_gateScorePpm dual))" "safe_count (num_json (pr_confirmScorePpm dual))"
      "safe_count (num_json (ec_targetBlockOffset (ev_deps ev)))" "safe_count (num_json th)"
      "safe_count (num_json (ec_replayTolerancePpm (ev_deps ev)))"
    using assms(9,10,11) unfolding safe_nat_count [symmetric] host_values_ok_def report_inputs_ok_def by blast+
  have texts: "BYTES32_RE (pr_blockhash dual)" "BYTES32_RE (toLowerCase (pr_blockhash dual))"
    using assms(10) BYTES32_lower unfolding host_values_ok_def by blast+
  have roots: "BYTES32_RE (ec_corpusRoot (ev_deps ev))" "toLowerCase (ec_corpusRoot (ev_deps ev)) = ec_corpusRoot (ev_deps ev)"
    "BYTES32_RE (ec_bundleHash (ev_deps ev))" "toLowerCase (ec_bundleHash (ev_deps ev)) = ec_bundleHash (ev_deps ev)"
    "BYTES32_RE (toLowerCase (in_parentStateRoot input))"
    using assms(9) by (simp_all add: report_inputs_ok_def)
  have vals: "dbl (number_value (num_json (pr_receivedAtBlock dual)) + number_value (num_json (ec_targetBlockOffset (ev_deps ev)))) =
      number_value (num_json (pr_targetBlock dual))"
    using assms(10) by (cases "pr_receivedAtBlock dual"; cases "ec_targetBlockOffset (ev_deps ev)")
      (simp_all add: host_values_ok_def num_json_def safe_nat_def)
  show "validateArtifactShape a = None"
    unfolding validateArtifactShape_def first_failure_None shape_checks_def Let_def
    using h epoch hashes counts texts roots assms(2-8,12)
    by (simp add: count_checks_def bytes32_checks_def fields report_simps input_key_def bytesToHex_text hexEq_def del: safe_count_json)
  show "validateSeedDerivationBinding a = None"
    unfolding validateSeedDerivationBinding_def first_failure_None binding_checks_def Let_def
    using h hashes roots vals assms(2-5)
    by (simp add: fields report_simps input_key_def hexEq_def del: safe_count_json)
qed

lemma derived_text:
  "deriveEvalSeedWithPrefix pre i = Inr s \<Longrightarrow> \<exists>bs. s = bytesToHex (keccak256 bs)"
  by (auto simp: deriveEvalSeedWithPrefix_def bind_res_eq_Inr split: if_splits)

lemma seeds_text:
  assumes "derive_seeds request deps ph ctx = Inr (gate, confirm)" and "pd_injectedSeeds deps = None"
  shows "BYTES32_RE gate" and "BYTES32_RE confirm" and "or_else (pd_epochSecret deps) '''' \<noteq> ''''"
    and "toLowerCase gate = gate" and "toLowerCase confirm = confirm"
  using assms hash_ok [OF length_keccak256]
  by (auto simp: derive_seeds_def Let_def bind_res_eq_Inr deriveGateEvalSeed_def deriveConfirmEvalSeed_def
    dest!: derived_text split: if_splits)

lemma dual_deps_simps [simp]:
  "pd_dedupCache (dual_deps ev input parent th key prior n) = []"
  "pd_injectedSeeds (dual_deps ev input parent th key prior n) = in_injectedSeeds input"
  "pd_thresholdPpm (dual_deps ev input parent th key prior n) = th"
  "pd_scorer (dual_deps ev input parent th key prior n) = pack_scorer (ev_deps ev) parent th"
  "pd_epochSecret (dual_deps ev input parent th key prior n) = nonempty (ec_epochSecret (ev_deps ev))"
  "pd_corpusRoot (dual_deps ev input parent th key prior n) = ec_corpusRoot (ev_deps ev)"
  "pd_bundleHash (dual_deps ev input parent th key prior n) = ec_bundleHash (ev_deps ev)"
  by (simp_all add: dual_deps_def Let_def)

lemma dual_request_simps [simp]:
  "pq_normalizedPatchBytes (dual_request ev input bs) = bs"
  "pq_parentRoot (dual_request ev input bs) = toLowerCase (in_parentStateRoot input)"
  "pq_minerAddress (dual_request ev input bs) = toLowerCase (in_miner input)"
  "pq_epochId (dual_request ev input bs) = ec_epochId (ev_deps ev)"
  "patch_hash_of (dual_request ev input bs) = computePatchHash bs"
  by (simp_all add: dual_request_def patch_hash_of_def)

text \<open>What a watcher's scorer has to give for a pack, in terms of the scorer of the host.\<close>

definition score_of :: "(seed_scorer_args \<Rightarrow> patch_eval_result) \<Rightarrow> cortex_state \<Rightarrow> js_num \<Rightarrow> scorer_args \<Rightarrow> per_patch_score" where
  "score_of g parent thresholdPpm a =
     (let result = g \<lparr> sr_parent = parent, sr_normalizedPatchBytes = ar_normalizedPatchBytes a,
        sr_evalSeed = ar_evalSeed a, sr_thresholdPpm = thresholdPpm \<rparr>
      in \<lparr> ps_scorePpm = pe_deltaPpm result, ps_accepted = pe_accepted result \<rparr>)"

lemma yields_call: "yields m x \<Longrightarrow> yields (call m) x"
  by (auto simp: yields_def call_def)

lemma pack_scorer_yields:
  assumes "\<And>a. yields (ec_seedScorer deps a) (g a)"
  shows "yields (pack_scorer deps parent thresholdPpm a) (score_of g parent thresholdPpm a)"
  unfolding pack_scorer_def score_of_def Let_def
proof (rule yields_bind [OF yields_call [OF assms]])
  show "yields (bind_io (modify (AList.update (toLowerCase (ar_evalSeed a)) r)) (\<lambda>_. return_io \<lparr> ps_scorePpm = pe_deltaPpm r, ps_accepted = pe_accepted r \<rparr>))
      \<lparr> ps_scorePpm = pe_deltaPpm r, ps_accepted = pe_accepted r \<rparr>" for r
    by (rule yields_bind [of _ "()"]) (auto simp: yields_def modify_def)
qed

lemma evaluator_made:
  assumes "createCoreTexEvaluatorCore deps = Inr ev"
  shows "ev_deps ev = deps" and "resolve_seed_commit deps = Inr (ev_hiddenSeedCommit ev)"
  using assms by (auto simp: createCoreTexEvaluatorCore_def bind_res_eq_Inr split: option.splits)

lemma commit_text:
  assumes "resolve_seed_commit deps = Inr commit"
  shows "BYTES32_RE commit" and "nonempty (ec_epochSecret deps) = Some secret \<Longrightarrow> secret_commit secret = Inr commit"
    and "toLowerCase commit = commit"
  using assms hash_ok [OF length_keccak256] BYTES32_lower
  by (auto simp: resolve_seed_commit_def secret_commit_def bind_res_eq_Inr parse_checked Let_def split: option.splits if_splits)

text \<open>A report that the evaluator built passes the checks before the replay.\<close>

lemma built_report:
  assumes "buildPostRevealEvalReportArtifact ns (artifact_fields ev input bs th (input_key ev input bs) dual adv) = Inr a"
    and "validateArtifactShape a = None" and "validateSeedDerivationBinding a = None"
    and "pr_accepted dual" and "num_ge (pr_gateScorePpm dual) th" and "num_ge (pr_confirmScorePpm dual) th"
    and "secret_commit (av_epochSecret wdeps) = Inr (ev_hiddenSeedCommit ev)" and "toLowerCase (ev_hiddenSeedCommit ev) = ev_hiddenSeedCommit ev"
    and "pr_rejectionReason dual = None" and "toLowerCase (ec_corpusRoot (ev_deps ev)) = ec_corpusRoot (ev_deps ev)"
    and "toLowerCase (ec_bundleHash (ev_deps ev)) = ec_bundleHash (ev_deps ev)"
    and "verifyPerPatchReceipt dual (artifact_replay_deps a wdeps bs) w = Some (Inr (Verified dg dc), v)"
  shows "\<exists>h. verifyPostRevealEvalReportArtifact ns a wdeps w = Some (Inr (Artifact_ok h dg dc), v) \<and>
    jget a ''artifactHash'' = JString h \<and> jget a ''evalReportHash'' = JString h"
proof -
  let ?f = "JObject (artifact_fields ev input bs th (input_key ev input bs) dual adv)"
  from assms(1) obtain h where h: "hashPostRevealEvalReportArtifact ns a = Inr h" "jget a ''artifactHash'' = JString h"
      "jget a ''evalReportHash'' = JString h" "toLowerCase h = h"
    and fields: "\<And>k. k \<notin> {''artifactHash'', ''evalReportHash''} \<Longrightarrow> jget a k = jget ?f k"
    by (rule built) blast
  have min: "\<not> min_dual (receipt_value dual) < number_value (num_json th)"
    using assms(5,6) by (cases th; cases "pr_gateScorePpm dual"; cases "pr_confirmScorePpm dual")
      (simp_all add: min_dual_def report_simps num_json_def)
  have replay: "replay_receipt (receipt_value dual) (artifact_replay_deps a wdeps bs) w = Some (Inr (Verified dg dc), v)"
    using assms(12) by (simp add: replay_value [OF assms(9)])
  show ?thesis
    using assms(2,3,4,7,8) h min
    by (simp add: verifyPostRevealEvalReportArtifact_def fields report_simps compact_checked hexEq_def
      bind_io_step [where m = "replay_receipt _ _", OF replay] return_io_def)
qed

lemma report_receipt:
  assumes "buildPostRevealEvalReportArtifact ns (artifact_fields ev input bs th k dual adv) = Inr a" and "pr_rejectionReason dual = None"
  shows "document_receipt (jget a ''receipt'') key = dual\<lparr>pr_dedupKey := key\<rparr>"
  using assms(1) by (rule built) (simp add: report_simps document_receipt_keyed [OF assms(2)])

lemma report_verifies:
  assumes "createCoreTexEvaluatorCore deps = Inr ev" and "scorePatch ns ev input w = Some (Inr (res, Some artifact), w')"
    and "accepted_part res = Some q" and "ec_epochSecret deps = Some secret" and "in_injectedSeeds input = None"
    and "in_parentState input = Some parent" and "effective_threshold deps input = Inr th"
    and "report_inputs_ok ev input" and "r = document_receipt (jget artifact ''receipt'') key"
    and "host_values_ok r (ec_targetBlockOffset deps)"
    and "\<And>a. yields (ec_seedScorer deps a) (g a)" and "\<And>a. yields (av_scorer wdeps a) (score_of g parent th a)"
    and "av_epochSecret wdeps = secret"
    and "yields (rpc_getBlockHash (av_rpcClient wdeps) (pr_targetBlock r)) h" and "hexEq h (pr_blockhash r)"
  shows "\<exists>v. verifyPostRevealEvalReportArtifact ns artifact wdeps u =
      Some (Inr (Artifact_ok (ea_artifactHash q) (js_num.Num 0) (js_num.Num 0)), v) \<and> ea_evalReportHash q = ea_artifactHash q"
proof -
  note ev = evaluator_made [OF assms(1)]
  have acc: "accepts res" using assms(3) by (cases res) (auto simp: accepts_def)
  from assms(2) acc show ?thesis
  proof (rule accepted_run)
    fix bs p th' w0 parent' w1 prior w2 n w3 dual perSeed w4
    assume th': "effective_threshold (ev_deps ev) input = Inr th'"
      and load: "(case in_parentState input of Some s \<Rightarrow> return_io s | None \<Rightarrow> ec_parentStateLoader (ev_deps ev) (in_parentStateRoot input)) w0 =
        Some (Inr parent', w1)"
      and run: "runPerPatchEvaluation (dual_request ev input bs) (dual_deps ev input parent' th' (input_key ev input bs) prior n) ([], w3) =
        Some (Inr dual, perSeed, w4)" and dual: "pr_accepted dual"
      and concl: "conclude_acceptance ns ev input bs p th' (input_key ev input bs) dual perSeed w4 = Some (Inr (res, Some artifact), w')"
    have same: "th' = th" "parent' = parent" using th' load assms(6,7) ev(1) by simp_all
    let ?deps = "dual_deps ev input parent th (input_key ev input bs) prior n"
    note run = run [unfolded same]
    note facts = dual_accepted [OF run dual dual_deps_simps(1)]
    note passed = accepted_facts [OF run facts(1)]
    have adm: "ld_admit (patch_admission (dual_request ev input bs) ?deps (pr_patchHash dual) (pr_dedupKey dual))"
      using passed by blast
    have miner: "ADDR_RE (toLowerCase (in_miner input))"
      using adm by (simp add: patch_admission_def admit_iff Let_def)
    have derived: "derive_seeds (dual_request ev input bs) ?deps (pr_patchHash dual) \<lparr> sc_receivedAtBlock = pr_receivedAtBlock dual,
        sc_targetBlock = pr_targetBlock dual, sc_blockhash = pr_blockhash dual \<rparr> = Inr (pr_gateSeed dual, pr_confirmSeed dual)"
      using passed by blast
    note seeds = seeds_text [OF derived, unfolded dual_deps_simps, OF assms(5)]
    have secret: "nonempty (ec_epochSecret deps) = Some secret"
      using seeds(3) assms(4) by (auto simp: or_else_def nonempty_def ev(1) split: if_splits)
    have scores: "num_ge (pr_gateScorePpm dual) th" "num_ge (pr_confirmScorePpm dual) th"
      using passed unfolding dual_deps_simps by blast+
    from concl show ?thesis
    proof (rule conclude_accepts)
      fix chosen a dp
      assume made: "buildPostRevealEvalReportArtifact ns (artifact_fields ev input bs th' (input_key ev input bs) dual
          (num_ge (num_min (pr_gateScorePpm dual) (pr_confirmScorePpm dual)) (ec_stateThresholdPpm (ev_deps ev)) \<and> pe_accepted chosen)) = Inr a"
        and a: "Some artifact = Some a"
        and res: "res = Screener_pass (accepted_result (num_min (pr_gateScorePpm dual) (pr_confirmScorePpm dual)) a dp) \<or>
          (\<exists>delta rewritten. num_ge (num_min (pr_gateScorePpm dual) (pr_confirmScorePpm dual)) (ec_stateThresholdPpm (ev_deps ev)) \<and>
            bigint_of (num_min (pr_gateScorePpm dual) (pr_confirmScorePpm dual)) = Inr delta \<and>
            encodePatch (p\<lparr>scoreDelta := delta\<rparr>) = Inr rewritten \<and>
            res = State_advance (accepted_result (num_min (pr_gateScorePpm dual) (pr_confirmScorePpm dual)) a dp)
              (ppm (pe_beforeComposite chosen))
              (num_add (ppm (pe_beforeComposite chosen)) (num_min (pr_gateScorePpm dual) (pr_confirmScorePpm dual)))
              (JString (bytesToHex rewritten)))"
      note made = made [unfolded same a [symmetric, THEN option.inject [THEN iffD1]]]
      let ?f = "JObject (artifact_fields ev input bs th (input_key ev input bs) dual
          (num_ge (num_min (pr_gateScorePpm dual) (pr_confirmScorePpm dual)) (ec_stateThresholdPpm (ev_deps ev)) \<and> pe_accepted chosen))"
      have fields: "jget artifact k = jget ?f k" if "k \<notin> {''artifactHash'', ''evalReportHash''}" for k
        using made by (rule built) (use that in blast)
      have made_of: "r = dual\<lparr>pr_dedupKey := key\<rparr>"
        using assms(9) report_receipt [OF made facts(1)] by simp
      have r: "host_values_ok dual (ec_targetBlockOffset (ev_deps ev))" "pr_targetBlock r = pr_targetBlock dual" "pr_blockhash r = pr_blockhash dual"
        using assms(10) by (simp_all add: made_of host_values_keyed ev(1))
      note wf = report_well_formed [OF made _ _ _ _ miner seeds(1,2) assms(8) r(1)]
      have patch: "pr_patchHash dual = computePatchHash bs" "pr_parentRoot dual = toLowerCase (in_parentStateRoot input)"
        "pr_minerAddress dual = toLowerCase (in_miner input)" "pr_epochId dual = ec_epochId (ev_deps ev)" "safe_nat th"
        using facts assms(7) by (auto simp: effective_threshold_def Let_def split: if_splits)
      have roots: "toLowerCase (ec_corpusRoot (ev_deps ev)) = ec_corpusRoot (ev_deps ev)"
        "toLowerCase (ec_bundleHash (ev_deps ev)) = ec_bundleHash (ev_deps ev)" "num_ge (ec_replayTolerancePpm (ev_deps ev)) (js_num.Num 0)"
        using assms(8) by (auto simp: report_inputs_ok_def safe_nat_def split: js_num.splits)
      note commit = commit_text [OF ev(2)]
      have "\<exists>v. verifyPerPatchReceipt dual (artifact_replay_deps artifact wdeps bs) u =
          Some (Inr (Verified (js_num.Num 0) (js_num.Num 0)), v)"
        by (rule honest_verified [OF run facts(1), where f = "score_of g parent th" and h = h])
          (use assms(5,11-15) secret roots pack_scorer_yields [of deps g] in
            \<open>simp_all add: fields report_simps r or_else_def ev(1)\<close>)
      then obtain v where v: "verifyPerPatchReceipt dual (artifact_replay_deps artifact wdeps bs) u =
          Some (Inr (Verified (js_num.Num 0) (js_num.Num 0)), v)" by blast
      have "\<exists>h. verifyPostRevealEvalReportArtifact ns artifact wdeps u = Some (Inr (Artifact_ok h (js_num.Num 0) (js_num.Num 0)), v) \<and>
          jget artifact ''artifactHash'' = JString h \<and> jget artifact ''evalReportHash'' = JString h"
        by (rule built_report [OF made wf dual scores _ commit(3) facts(1) roots(1,2) v])
          (use patch commit(1) commit(2) [OF secret] assms(13) in \<open>simp_all\<close>)
      then show ?thesis using res assms(3) a by (auto simp: accepted_result_def)
    qed
  qed
qed

text \<open>
  C14: what the evaluator publishes, a watcher confirms.  When an evaluation is accepted, its report
  passes the check of everyone who has the revealed secret, a chain that still has the block, and
  the same deterministic scorer: the hash in the accepted result, which the receipt on the chain
  commits to, is the hash of the report, shape and seed inputs agree with the receipt inside, both
  scores are at the threshold, and replaying them shows no deviation.
\<close>

theorem published_report_verifies:
  assumes "createCoreTexEvaluatorCore deps = Inr ev" and "scorePatch ns ev input w = Some (Inr (res, Some artifact), w')"
    and "accepted_part res = Some q" and "ec_epochSecret deps = Some secret" and "in_injectedSeeds input = None"
    and "in_parentState input = Some parent" and "effective_threshold deps input = Inr th"
    and "report_inputs_ok ev input" and "r = document_receipt (jget artifact ''receipt'') key"
    and "host_values_ok r (ec_targetBlockOffset deps)"
    and "\<And>a. yields (ec_seedScorer deps a) (g a)" and "\<And>a. yields (av_scorer wdeps a) (score_of g parent th a)"
    and "av_epochSecret wdeps = secret"
    and "yields (rpc_getBlockHash (av_rpcClient wdeps) (pr_targetBlock r)) h" and "hexEq h (pr_blockhash r)"
  shows "\<exists>v. verifyPostRevealEvalReportArtifact ns artifact wdeps u =
      Some (Inr (Artifact_ok (ea_artifactHash q) (js_num.Num 0) (js_num.Num 0)), v) \<and> ea_evalReportHash q = ea_artifactHash q"
  using assms by (rule report_verifies)

end
