(* ===== verification/Evaluator_Contract.thy ===== *)
theory Evaluator_Contract
  imports Evaluator_Results
begin

text \<open>
  The contract between the evaluator and the coordinator: what
  \<open>src/coordinator/production-evaluator.ts\<close> returns for an accepted patch passes the checks
  that \<open>src/coordinator/coretex-coordinator-core.ts\<close> makes before it signs.
\<close>

section \<open>Agreement of the two sides\<close>

text \<open>The coordinator pins what the evaluator runs with, and asks about the patch it prepared.\<close>

definition sides_agree :: "coordinator_config \<Rightarrow> prepared_submit \<Rightarrow> 'w evaluator \<Rightarrow> score_input \<Rightarrow> bytes \<Rightarrow> bool" where
  "sides_agree cfg prepared ev input bs \<longleftrightarrow>
     cf_epoch cfg = ec_epochId (ev_deps ev) \<and>
     (\<forall>k \<in> set_option (cf_targetBlockOffset cfg). ec_targetBlockOffset (ev_deps ev) = js_num.Num k) \<and>
     hexEq (ec_corpusRoot (ev_deps ev)) (pn_corpusRoot (cf_expectedEpochPins cfg)) \<and>
     hexEq (ec_bundleHash (ev_deps ev)) (pn_coreVersionHash (cf_expectedEpochPins cfg)) \<and>
     hexEq (ev_hiddenSeedCommit ev) (pn_hiddenSeedCommit (cf_expectedEpochPins cfg)) \<and>
     hexEq (in_parentStateRoot input) (sb_parentStateRoot (pz_parsed prepared)) \<and>
     pz_originalPatchHash prepared = computePatchHash bs \<and>
     effective_threshold (ev_deps ev) input = Inr (js_num.Num (pz_screenerThresholdPpm prepared))"

text \<open>The commitments to the two seeds coincide, or one is zero; digests of distinct seeds do neither
  but by a collision.\<close>

definition seeds_collide :: "evaluation_proof \<Rightarrow> bool" where
  "seeds_collide p \<longleftrightarrow> hexEq (pk_seedCommit (the (ep_gate p))) (pk_seedCommit (the (ep_confirm p))) \<or>
     toLowerCase (pk_seedCommit (the (ep_gate p))) = zero_hash \<or> toLowerCase (pk_seedCommit (the (ep_confirm p))) = zero_hash"

lemma bytes32_same: "isBytes32 s \<longleftrightarrow> BYTES32_RE s"
  by (simp add: isBytes32_def BYTES32_RE_def)

lemma hexEq_lower [simp]: "hexEq (toLowerCase a) b = hexEq a b" "hexEq a (toLowerCase b) = hexEq a b"
  by (simp_all add: hexEq_def)

lemma safe_nat_int:
  assumes "safe_nat (js_num.Num x)"
  obtains a where "x = of_int a" "0 \<le> a" "a < 2 ^ 53"
proof -
  have safe: "of_int \<lfloor>x\<rfloor> = x" "\<bar>x\<bar> \<le> 2 ^ 53 - 1" "0 \<le> x"
    using assms by (auto simp: safe_nat_def safe_integer_eq safe_integer_def)
  have "\<lfloor>x\<rfloor> < 2 ^ 53"
  proof -
    have "x < 2 ^ 53" using safe(2,3) by simp
    then show ?thesis by (simp add: floor_less_iff)
  qed
  with safe(3) show thesis by (intro that [OF safe(1) [symmetric]]) simp_all
qed

lemma target_after:
  assumes "safe_nat (js_num.Num n)" and "safe_nat (js_num.Num k)" and "safe_nat (js_num.Num (dbl (n + k)))" and "0 < k"
  shows "n < dbl (n + k)"
proof -
  obtain a where a: "n = of_int a" "0 \<le> a" using assms(1) by (rule safe_nat_int)
  obtain b where b: "k = of_int b" "0 \<le> b" using assms(2) by (rule safe_nat_int)
  obtain c where c: "dbl (n + k) = of_int c" "c < 2 ^ 53" using assms(3) by (rule safe_nat_int)
  have pos: "0 < b" using b assms(4) by simp
  have "\<not> 2 ^ 53 \<le> n + k"
  proof
    assume "2 ^ 53 \<le> n + k"
    then have "2 ^ 53 \<le> (of_int c :: rat)" using dbl_big [of "n + k"] c(1) by simp
    then have "of_int (2 ^ 53) \<le> (of_int c :: rat)" by simp
    with c(2) show False by (simp only: of_int_le_iff)
  qed
  then have "of_int (a + b) < (of_int (2 ^ 53) :: rat)" using a b by simp
  then have "a + b < 2 ^ 53" by (simp only: of_int_less_iff)
  then have "dbl (of_int (a + b)) = of_int (a + b)" using a pos by (intro dbl_int) simp
  with a b pos show ?thesis by simp
qed

lemma host_proof_ok:
  assumes "dualPackProofFromPerPatchReceipt r corpusRoot coreVersionHash commit offset = Inr dp" and "host_values_ok r offset"
    and "isBytes32 (toLowerCase (pr_patchHash r))" and "isBytes32 (toLowerCase (pr_parentRoot r))"
    and "isBytes32 (toLowerCase corpusRoot)" and "isBytes32 (toLowerCase coreVersionHash)" and "isBytes32 (toLowerCase commit)"
    and "num_ge (pr_gateScorePpm r) (js_num.Num th)" and "num_ge (pr_confirmScorePpm r) (js_num.Num th)"
    and "ea_evaluationProof q = Some (proof_of dp)"
    and "num_same (js_num.Num (of_int (pr_epochId r))) (js_num.Num (xp_epoch x))"
    and "\<forall>k \<in> set_option (xp_targetBlockOffset x). offset = js_num.Num k" and "hexEq (pr_patchHash r) (xp_patchHash x)"
    and "hexEq (pr_parentRoot r) (xp_parentStateRoot x)" and "hexEq corpusRoot (xp_corpusRoot x)"
    and "hexEq coreVersionHash (xp_coreVersionHash x)" and "hexEq commit (xp_hiddenSeedCommit x)"
    and "xp_minDualPackScorePpm x = Some th" and "xp_gateSeedCommit x = None" and "xp_confirmSeedCommit x = None"
  shows "validateDualPackProof q x = None \<longleftrightarrow> \<not> seeds_collide (proof_of dp)"
proof -
  from assms(1) obtain gc cc where commits: "seedCommit (pr_gateSeed r) = Inr gc" "seedCommit (pr_confirmSeed r) = Inr cc"
    and dp: "dp = \<lparr> dp_epochId = pr_epochId r, dp_receivedAtBlock = pr_receivedAtBlock r,
          dp_targetBlock = pr_targetBlock r, dp_targetBlockOffset = offset,
          dp_blockhash = toLowerCase (pr_blockhash r), dp_patchHash = toLowerCase (pr_patchHash r),
          dp_parentStateRoot = toLowerCase (pr_parentRoot r), dp_corpusRoot = toLowerCase corpusRoot,
          dp_coreVersionHash = toLowerCase coreVersionHash, dp_hiddenSeedCommit = toLowerCase commit,
          dp_epochSecretCommit = toLowerCase commit,
          dp_gate = \<lparr> pp_seedCommit = gc, pp_scorePpm = pr_gateScorePpm r \<rparr>,
          dp_confirm = \<lparr> pp_seedCommit = cc, pp_scorePpm = pr_confirmScorePpm r \<rparr> \<rparr>"
    by (auto simp: dualPackProofFromPerPatchReceipt_def bind_res_eq_Inr split: if_splits)
  have hex: "isBytes32 gc" "isBytes32 cc"
    using commits hash_ok [OF length_keccak256] by (auto simp: seedCommit_def bind_res_eq_Inr bytes32_same)
  have collide: "seeds_collide (proof_of dp) \<longleftrightarrow> hexEq gc cc \<or> toLowerCase gc = zero_hash \<or> toLowerCase cc = zero_hash"
    by (simp add: seeds_collide_def proof_of_def dp)
  note host = assms(2) [unfolded host_values_ok_def]
  obtain n m k g c where nums: "pr_receivedAtBlock r = js_num.Num n" "pr_targetBlock r = js_num.Num m" "offset = js_num.Num k"
      "pr_gateScorePpm r = js_num.Num g" "pr_confirmScorePpm r = js_num.Num c"
    using host by (cases "pr_receivedAtBlock r"; cases "pr_targetBlock r"; cases offset; cases "pr_gateScorePpm r"; cases "pr_confirmScorePpm r")
      (simp_all add: safe_nat_def)
  have packs: "check_pack (Some th) \<lparr> pk_domain = d, pk_seedCommit = gc, pk_accepted = True, pk_scorePpm = js_num.Num g \<rparr> =
      (if toLowerCase gc = zero_hash then Some ''seedCommit invalid'' else None)"
    "check_pack (Some th) \<lparr> pk_domain = d, pk_seedCommit = cc, pk_accepted = True, pk_scorePpm = js_num.Num c \<rparr> =
      (if toLowerCase cc = zero_hash then Some ''seedCommit invalid'' else None)" for d
    using host nums hex assms(8,9) by (simp_all add: check_pack_def)
  have "m = dbl (n + k)" using host by (simp add: nums)
  moreover have "n < dbl (n + k)"
    by (rule target_after) (use host calculation in \<open>simp_all add: nums\<close>)
  ultimately have "n < m" by simp
  then show ?thesis
    unfolding collide
    using host nums hex assms(3-7,10-20) packs
    by (auto simp: validateDualPackProof_def proof_of_def dp bound_hash_def bytes32_same BYTES32_lower split: option.splits)
qed

section \<open>The scores of an accepted result\<close>

lemma safe_nat_of_int: "safe_nat (js_num.Num (of_int a)) \<longleftrightarrow> 0 \<le> a \<and> a < 2 ^ 53"
proof -
  have "\<bar>of_int a :: rat\<bar> \<le> 2 ^ 53 - 1 \<longleftrightarrow> of_int \<bar>a\<bar> \<le> (of_int (2 ^ 53 - 1) :: rat)" by simp
  also have "\<dots> \<longleftrightarrow> \<bar>a\<bar> < 2 ^ 53" by (simp only: of_int_le_iff) auto
  finally show ?thesis by (auto simp: safe_nat_def safe_integer_eq safe_integer_def)
qed

lemma ppm_int:
  assumes "ppm v \<noteq> NaN"
  obtains b where "ppm v = js_num.Num (of_int b)" "0 \<le> b" "b \<le> 1000000"
proof (cases v)
  case (Num x)
  let ?b = "max 0 (min 1000000 (js_round (dbl (x * 1000000))))"
  have "ppm v = js_num.Num (of_int ?b)" by (simp add: Num ppm_def of_int_max of_int_min)
  then show thesis by (rule that) simp_all
qed (use assms in \<open>simp add: ppm_def\<close>)

lemma advance_scores_ok:
  assumes "ppm v \<noteq> NaN" and "ea_deterministicDeltaPpm q = js_num.Num (of_int m)" and "0 < m" and "m \<le> 1000000"
    and "validate_hashes q = None"
  shows "validateAcceptedEvalResult (State_advance q (ppm v) (num_add (ppm v) (js_num.Num (of_int m))) rewritten) = None"
proof -
  obtain b where b: "ppm v = js_num.Num (of_int b)" "0 \<le> b" "b \<le> 1000000" using assms(1) by (rule ppm_int)
  have sum: "dbl (of_int b + of_int m) = of_int (b + m)" using dbl_int [of "b + m"] b assms(3,4) by simp
  have diff: "dbl (of_int (b + m) - of_int b) = of_int m" using dbl_int [of m] assms(3,4) by simp
  show ?thesis
    using assms b by (simp add: validateAcceptedEvalResult_def sum diff safe_nat_of_int Let_def del: of_int_add)
qed

lemma host_score:
  assumes "safe_nat s" and "num_ge (js_num.Num 1000000) s"
  obtains g where "s = js_num.Num (of_int g)" "0 \<le> g" "g \<le> 1000000"
proof (cases s)
  case (Num x)
  obtain g where "x = of_int g" "0 \<le> g" "g < 2 ^ 53" using assms(1) unfolding Num by (rule safe_nat_int)
  then show thesis using Num assms(2) that by simp
qed (use assms in simp)

lemma host_min:
  assumes "host_values_ok r n"
  obtains m where "num_min (pr_gateScorePpm r) (pr_confirmScorePpm r) = js_num.Num (of_int m)" "0 \<le> m" "m \<le> 1000000"
proof -
  note host = assms [unfolded host_values_ok_def]
  obtain g where g: "pr_gateScorePpm r = js_num.Num (of_int g)" "0 \<le> g" "g \<le> 1000000" using host host_score by blast
  obtain c where c: "pr_confirmScorePpm r = js_num.Num (of_int c)" "0 \<le> c" "c \<le> 1000000" using host host_score by blast
  from g c that [of "min g c"] show thesis by (simp add: of_int_min)
qed

lemma result_signable:
  assumes "createCoreTexEvaluatorCore deps = Inr ev" and "scorePatch ns ev input w = Some (Inr (res, Some artifact), w')"
    and "accepted_part res = Some q" and "result_proof res = Some p"
    and "parseHex (in_patchBytesHex input) ''patchBytesHex'' = Inr bs" and "sides_agree cfg prepared ev input bs"
    and "report_inputs_ok ev input" and "r = document_receipt (jget artifact ''receipt'') key"
    and "host_values_ok r (ec_targetBlockOffset deps)" and "num_gt (ec_stateThresholdPpm deps) (js_num.Num 0)"
    and "\<And>before after rewritten. res = State_advance q before after rewritten \<Longrightarrow> before \<noteq> NaN"
  shows "check_eval cfg prepared res = (if seeds_collide p then Inl ''DUAL_PACK_PROOF_INVALID'' else Inr q)"
proof -
  note ev = evaluator_made [OF assms(1)]
  have acc: "accepts res" using assms(3) by (cases res) (auto simp: accepts_def)
  from assms(2) acc show ?thesis
  proof (rule accepted_run)
    fix bs' p' th w0 parent w1 prior w2 n w3 dual perSeed w4
    assume bs': "parseHex (in_patchBytesHex input) ''patchBytesHex'' = Inr bs'" and th: "effective_threshold (ev_deps ev) input = Inr th"
      and run: "runPerPatchEvaluation (dual_request ev input bs') (dual_deps ev input parent th (input_key ev input bs') prior n) ([], w3) =
        Some (Inr dual, perSeed, w4)" and dual: "pr_accepted dual"
      and concl: "conclude_acceptance ns ev input bs' p' th (input_key ev input bs') dual perSeed w4 = Some (Inr (res, Some artifact), w')"
    have bs: "bs' = bs" using bs' assms(5) by simp
    note facts = dual_accepted [OF run dual dual_deps_simps(1)]
    note passed = accepted_facts [OF run facts(1), unfolded dual_deps_simps]
    let ?th = "pz_screenerThresholdPpm prepared"
    note agree = assms(6) [unfolded sides_agree_def]
    have "th = js_num.Num ?th"
      using th agree by simp
    with passed have scores: "num_ge (pr_gateScorePpm dual) (js_num.Num ?th)" "num_ge (pr_confirmScorePpm dual) (js_num.Num ?th)" by blast+
    from concl show ?thesis
    proof (rule conclude_accepts)
      fix chosen a dp
      let ?min = "num_min (pr_gateScorePpm dual) (pr_confirmScorePpm dual)"
      assume made: "buildPostRevealEvalReportArtifact ns (artifact_fields ev input bs' th (input_key ev input bs') dual
          (num_ge ?min (ec_stateThresholdPpm (ev_deps ev)) \<and> pe_accepted chosen)) = Inr a"
        and a: "Some artifact = Some a"
        and dp: "dualPackProofFromPerPatchReceipt dual (ec_corpusRoot (ev_deps ev)) (ec_bundleHash (ev_deps ev)) (ev_hiddenSeedCommit ev)
          (ec_targetBlockOffset (ev_deps ev)) = Inr dp"
        and res: "res = Screener_pass (accepted_result ?min a dp) \<or>
          (\<exists>delta rewritten. num_ge ?min (ec_stateThresholdPpm (ev_deps ev)) \<and>
            bigint_of ?min = Inr delta \<and>
            encodePatch (p'\<lparr>scoreDelta := delta\<rparr>) = Inr rewritten \<and>
            res = State_advance (accepted_result ?min a dp)
              (ppm (pe_beforeComposite chosen)) (num_add (ppm (pe_beforeComposite chosen)) ?min)
              (JString (bytesToHex rewritten)))"
      have q: "q = accepted_result ?min a dp" using res assms(3) by auto
      have p: "p = proof_of dp" using res assms(4) by (auto simp: result_proof_def accepted_result_def)
      obtain h where h: "jget a ''artifactHash'' = JString h" "jget a ''evalReportHash'' = JString h" "BYTES32_RE h"
        using made by (rule built) blast
      have "r = dual\<lparr>pr_dedupKey := key\<rparr>" using assms(8) a report_receipt [OF made facts(1)] by simp
      then have host: "host_values_ok dual (ec_targetBlockOffset (ev_deps ev))" using assms(9) by (simp add: host_values_keyed ev(1))
      obtain m where min: "?min = js_num.Num (of_int m)" "0 \<le> m" "m \<le> 1000000" using host by (rule host_min)
      have hashes: "validate_hashes q = None"
        using h min by (simp add: q accepted_result_def validate_hashes_def bytes32_same safe_nat_of_int)
      have "validateAcceptedEvalResult res = None"
        using res
      proof (elim disjE exE conjE)
        assume "res = Screener_pass (accepted_result ?min a dp)"
        then show ?thesis using hashes by (simp add: validateAcceptedEvalResult_def q)
      next
        fix delta rewritten
        assume ge: "num_ge ?min (ec_stateThresholdPpm (ev_deps ev))" and s: "res = State_advance (accepted_result ?min a dp)
            (ppm (pe_beforeComposite chosen)) (num_add (ppm (pe_beforeComposite chosen)) ?min) (JString (bytesToHex rewritten))"
        have "0 < m" using ge assms(10) unfolding ev(1) min(1) by (cases "ec_stateThresholdPpm deps") auto
        moreover have "ppm (pe_beforeComposite chosen) \<noteq> NaN" by (rule assms(11)) (simp add: s q)
        ultimately show ?thesis
          using advance_scores_ok [of "pe_beforeComposite chosen" q m] hashes min(3) unfolding s min(1)
          by (simp add: q accepted_result_def min(1))
      qed
      moreover have "validateDualPackProof q (expectedProof cfg prepared ?th) = None \<longleftrightarrow> \<not> seeds_collide p"
        unfolding p
      proof (rule host_proof_ok [OF dp host _ _ _ _ _ scores])
        note inputs = assms(7) [unfolded report_inputs_ok_def]
        show "isBytes32 (toLowerCase (pr_patchHash dual))" "isBytes32 (toLowerCase (pr_parentRoot dual))"
          "isBytes32 (toLowerCase (ec_corpusRoot (ev_deps ev)))" "isBytes32 (toLowerCase (ec_bundleHash (ev_deps ev)))"
          "isBytes32 (toLowerCase (ev_hiddenSeedCommit ev))"
          using inputs facts commit_text(1) [OF ev(2)] hash_receipts(1) BYTES32_lower by (simp_all add: bytes32_same)
        have "\<bar>ec_epochId (ev_deps ev)\<bar> < 2 ^ 53" using inputs by auto
        then show "num_same (js_num.Num (of_int (pr_epochId dual))) (js_num.Num (xp_epoch (expectedProof cfg prepared ?th)))"
          using agree facts by (simp add: expectedProof_def)
      qed (use agree facts bs in \<open>simp_all add: expectedProof_def q accepted_result_def hexEq_def\<close>)
      ultimately show ?thesis using res assms(3) by (auto simp: check_eval_def)
    qed
  qed
qed


end
