(* ===== verification/Evaluator_Sample.thy ===== *)
theory Evaluator_Sample
  imports Evaluator_Store Evaluator_Contract Coordinator_Sample
begin

text \<open>
  An evaluation on concrete data, for the witnesses: an attempt whose seed was drawn before, and
  the evaluation that resumes it, accepts and publishes.
\<close>

section \<open>The host\<close>

definition patch_bytes :: bytes where
  "patch_bytes = advance_bytes 0"

definition sample_score :: patch_eval_result where
  "sample_score = \<lparr> pe_deltaPpm = js_num.Num 5000, pe_accepted = True, pe_beforeComposite = js_num.Num 0 \<rparr>"

definition sample_host :: "unit evaluator_deps" where
  "sample_host = \<lparr> ec_epochId = 7, ec_epochSecret = Some sample_hash, ec_hiddenSeedCommit = None, ec_corpusRoot = sample_hash,
     ec_bundleHash = sample_hash, ec_stateThresholdPpm = js_num.Num 3000, ec_screenerThresholdPpm = js_num.Num 1500,
     ec_replayTolerancePpm = js_num.Num 0, ec_targetBlockOffset = js_num.Num 30, ec_perMinerCap = Some (js_num.Num 10),
     ec_rpcClient = sample_client, ec_dedupStore = None, ec_parentStateLoader = (\<lambda>r. return_io zero_state),
     ec_seedScorer = (\<lambda>a. return_io sample_score), ec_publishArtifact = None \<rparr>"

definition sample_input :: score_input where
  "sample_input = \<lparr> in_patchBytesHex = bytesToHex patch_bytes, in_parentStateRoot = sample_root, in_miner = sample_addr,
     in_parentState = Some zero_state, in_screenerThresholdPpm = None, in_seedContext = None, in_injectedSeeds = None \<rparr>"

definition drawn_context :: seed_context where
  "drawn_context = \<lparr> sc_receivedAtBlock = js_num.Num 100, sc_targetBlock = js_num.Num 130, sc_blockhash = sample_hash \<rparr>"

definition sample_commit :: string where
  "sample_commit = toLowerCase (bytesToHex (keccak256 (replicate 32 0x11)))"

definition sample_evaluator :: "(memory_store \<times> unit) evaluator" where
  "sample_evaluator = in_memory_evaluator sample_host 10 sample_commit"

definition sample_key :: attempt_key where
  "sample_key = input_key sample_evaluator sample_input patch_bytes"

text \<open>The store after a draw whose evaluation was cut off.\<close>

definition sample_attempt :: attempt_record where
  "sample_attempt = drawn_attempt sample_key drawn_context sample_addr"

definition sample_drawn :: memory_store where
  "sample_drawn = \<lparr> ms_records = [], ms_attempts = [(recordKey sample_key, sample_attempt)] \<rparr>"

lemma sample_parsed: "parseHex sample_hash l = Inr (replicate 32 0x11)"
proof -
  have "hex_string sample_hash" "length sample_hash mod 2 = 0" "hexToBytes sample_hash = Inr (replicate 32 0x11)" by code_simp+
  then show ?thesis by (simp add: parseHex_def)
qed

lemma sample_constructed: "createCoreTexEvaluatorCore (in_memory_deps sample_host) = Inr sample_evaluator"
proof -
  have "validatePerMinerCap (Some (js_num.Num 10)) = Inr 10" by (simp add: validatePerMinerCap_def is_safe_integer_def)
  moreover have "nonempty (Some sample_hash) = Some sample_hash" "nonempty None = None" by (simp_all add: nonempty_def sample_hash_def)
  ultimately show ?thesis
    by (simp add: createCoreTexEvaluatorCore_def resolve_seed_commit_def in_memory_deps_def sample_host_def sample_parsed Let_def
      sample_evaluator_def in_memory_evaluator_def sample_commit_def)
qed

section \<open>The run\<close>

lemma drawn_context_fields:
  "at_seedContext sample_attempt = drawn_context" "at_minerAddress sample_attempt = sample_addr"
proof -
  have "toLowerCase sample_hash = sample_hash" by code_simp
  then show "at_seedContext sample_attempt = drawn_context" "at_minerAddress sample_attempt = sample_addr"
    by (simp_all add: sample_attempt_def drawn_attempt_def drawn_context_def sample_strings)
qed

lemma sample_pack_score:
  "pack_scorer (ev_deps sample_evaluator) parent th a (ps, w) =
    Some (Inr \<lparr> ps_scorePpm = js_num.Num 5000, ps_accepted = True \<rparr>, AList.update (toLowerCase (ar_evalSeed a)) sample_score ps, w)"
  by (cases w) (simp add: pack_scorer_def call_def modify_def bind_io_def return_io_def Let_def sample_evaluator_def in_memory_deps_def
    sample_host_def, simp add: sample_score_def)

lemma sample_fields [simp]:
  "toLowerCase (in_parentStateRoot sample_input) = sample_root" "toLowerCase (in_miner sample_input) = sample_addr"
  "in_parentState sample_input = Some zero_state" "in_seedContext sample_input = None" "in_injectedSeeds sample_input = None"
  "in_patchBytesHex sample_input = bytesToHex patch_bytes" "in_screenerThresholdPpm sample_input = None"
  "ec_epochId (ev_deps sample_evaluator) = 7" "ec_corpusRoot (ev_deps sample_evaluator) = sample_hash"
  "ec_bundleHash (ev_deps sample_evaluator) = sample_hash" "ec_epochSecret (ev_deps sample_evaluator) = Some sample_hash"
  "ec_stateThresholdPpm (ev_deps sample_evaluator) = js_num.Num 3000" "ec_screenerThresholdPpm (ev_deps sample_evaluator) = js_num.Num 1500"
  "ec_replayTolerancePpm (ev_deps sample_evaluator) = js_num.Num 0" "ec_targetBlockOffset (ev_deps sample_evaluator) = js_num.Num 30"
  "ec_publishArtifact (ev_deps sample_evaluator) = None" "ev_store sample_evaluator = createInMemoryDedupStore"
  "ev_perMinerCap sample_evaluator = 10" "ev_hiddenSeedCommit sample_evaluator = sample_commit"
  by (simp_all add: sample_input_def sample_evaluator_def in_memory_deps_def sample_host_def sample_strings sample_root_facts)

text \<open>The evaluation starts on the empty store or resumes the attempt.\<close>

definition starts :: "attempt_record option \<Rightarrow> memory_store \<Rightarrow> bool" where
  "starts prior s0 \<longleftrightarrow> prior = None \<and> s0 = empty_store \<or> prior = Some sample_attempt \<and> s0 = sample_drawn"

lemma sample_recorded: "mem_recordSeedDrawnAndAdmission sample_key drawn_context sample_addr empty_store = sample_drawn"
  by (simp add: mem_recordSeedDrawnAndAdmission_def empty_store_def sample_drawn_def sample_attempt_def)

lemma sample_scored:
  fixes deps :: "(per_seed \<times> memory_store \<times> unit) per_patch_deps" and b b' :: bytes
  assumes "pd_dedupCache deps = []" and "pd_thresholdPpm deps = js_num.Num 1500" and "pd_minerAdmissions deps = [(sample_addr, 0)]"
    and "pd_perMinerCap deps = 10" and "pd_scorer deps = pack_scorer (ev_deps sample_evaluator) zero_state (js_num.Num 1500)"
    and "draw_seed_context deps ([], s0, ()) = Some (Inr drawn_context, [], s0, ())"
    and "record_draw deps drawn_context ([], s0, ()) = Some (Inr (), [], sample_drawn, ())"
    and "derive_seeds (dual_request sample_evaluator sample_input patch_bytes) deps
      (patch_hash_of (dual_request sample_evaluator sample_input patch_bytes)) drawn_context = Inr (bytesToHex b, bytesToHex b')"
  obtains dual perSeed where
    "runPerPatchEvaluation (dual_request sample_evaluator sample_input patch_bytes) deps ([], s0, ()) =
      Some (Inr dual, perSeed, sample_drawn, ())"
    "pr_accepted dual" "pr_rejectionReason dual = None" "pr_gateScorePpm dual = js_num.Num 5000" "pr_confirmScorePpm dual = js_num.Num 5000"
    "map_of perSeed (toLowerCase (pr_gateSeed dual)) = Some sample_score"
    "\<exists>bs. pr_gateSeed dual = bytesToHex bs" "\<exists>bs. pr_confirmSeed dual = bytesToHex bs" "pr_receivedAtBlock dual = js_num.Num 100"
    "pr_targetBlock dual = js_num.Num 130" "pr_blockhash dual = sample_hash"
proof -
  let ?request = "dual_request sample_evaluator sample_input patch_bytes"
  let ?seeds = "(bytesToHex b, bytesToHex b')"
  have root: "bytes32_hex sample_root" using hash_ok [OF sample_root_facts(2)] by (simp add: sample_root_def)
  obtain key where key: "dedup_key_of ?request = Inr key" "BYTES32_RE key"
    using hash_receipts(3) [OF root] by (auto simp: dedup_key_of_def)
  have admit: "ld_admit (patch_admission ?request deps (patch_hash_of ?request) key)"
  proof -
    have "ADDR_RE (toLowerCase sample_addr)" by code_simp
    then show ?thesis using key(2) hash_receipts(1)
      by (simp add: patch_admission_def admit_iff patch_hash_of_def is_integer_def or_else_def assms(1-4) sample_strings)
        (simp add: dual_request_def)
  qed
  from run_scored [OF key(1) _ admit assms(6-8)]
  have "runPerPatchEvaluation ?request deps ([], s0, ()) =
      score_packs ?request deps (patch_hash_of ?request) key drawn_context ?seeds ([], sample_drawn, ())"
    by (simp add: assms(1))
  also have "\<dots> = Some (Inr (scored_receipt ?request (patch_hash_of ?request) key drawn_context ?seeds (js_num.Num 5000) (js_num.Num 5000) None),
      AList.update (bytesToHex b') sample_score (AList.update (bytesToHex b) sample_score []), sample_drawn, ())"
    by (simp add: score_packs_def assms(2,5) bind_io_def sample_pack_score pack_args_def return_io_def Let_def)
  finally show thesis by (rule that) (auto simp: update_conv' drawn_context_def)
qed

lemma sample_dual:
  assumes "starts prior s0"
  obtains dual perSeed where
    "runPerPatchEvaluation (dual_request sample_evaluator sample_input patch_bytes)
      (dual_deps sample_evaluator sample_input zero_state (js_num.Num 1500) sample_key prior 0) ([], s0, ()) =
      Some (Inr dual, perSeed, sample_drawn, ())"
    "pr_accepted dual" "pr_rejectionReason dual = None" "pr_gateScorePpm dual = js_num.Num 5000" "pr_confirmScorePpm dual = js_num.Num 5000"
    "map_of perSeed (toLowerCase (pr_gateSeed dual)) = Some sample_score"
    "\<exists>bs. pr_gateSeed dual = bytesToHex bs" "\<exists>bs. pr_confirmSeed dual = bytesToHex bs" "pr_receivedAtBlock dual = js_num.Num 100"
    "pr_targetBlock dual = js_num.Num 130" "pr_blockhash dual = sample_hash"
proof -
  let ?request = "dual_request sample_evaluator sample_input patch_bytes"
  let ?deps = "dual_deps sample_evaluator sample_input zero_state (js_num.Num 1500) sample_key prior 0"
  have fields: "pd_injectedSeeds ?deps = None"
    "pd_dedupCache ?deps = []" "pd_corpusRoot ?deps = sample_hash" "pd_bundleHash ?deps = sample_hash"
    "pd_epochSecret ?deps = Some sample_hash" "pd_thresholdPpm ?deps = js_num.Num 1500" "pd_minerAdmissions ?deps = [(sample_addr, 0)]"
    "pd_perMinerCap ?deps = 10" "pd_scorer ?deps = pack_scorer (ev_deps sample_evaluator) zero_state (js_num.Num 1500)"
    by (simp_all add: dual_deps_def Let_def drawn_context_fields pinned_context_def nonempty_def) (simp_all add: sample_hash_def)
  have root: "bytes32_hex sample_root" using hash_ok [OF sample_root_facts(2)] by (simp add: sample_root_def)
  let ?i = "seed_input_of sample_hash sample_hash 7 (patch_hash_of ?request) sample_root sample_hash sample_hash"
  have "seed_input_ok ?i"
    using sample_hash_ok hash_receipts(2) root by (simp add: seed_input_ok_def seed_input_of_def patch_hash_of_def)
  then obtain s s' where s: "deriveGateEvalSeed ?i = Inr s" "deriveConfirmEvalSeed ?i = Inr s'"
    by (auto simp: deriveGateEvalSeed_def deriveConfirmEvalSeed_def deriveEvalSeed_eq)
  moreover have plain: "sc_blockhash drawn_context = sample_hash" "nonempty (Some sample_hash) = Some sample_hash" "sample_hash \<noteq> []"
    by (simp_all add: drawn_context_def nonempty_def sample_hash_def)
  ultimately have seeds: "derive_seeds ?request ?deps (patch_hash_of ?request) drawn_context = Inr (s, s')"
    by (simp add: derive_seeds_def fields or_else_def plain)
  obtain b b' where hex: "s = bytesToHex b" "s' = bytesToHex b'"
    using s by (auto simp: deriveGateEvalSeed_def deriveConfirmEvalSeed_def dest!: derived_text)
  have d: "dbl (100 + 30) = 130" by simp
  have draw: "draw_seed_context ?deps ([], s0, ()) = Some (Inr drawn_context, [], s0, ())"
    "record_draw ?deps drawn_context ([], s0, ()) = Some (Inr (), [], sample_drawn, ())"
  proof -
    consider "prior = None" "s0 = empty_store" | "prior = Some sample_attempt" "s0 = sample_drawn"
      using assms by (auto simp: starts_def)
    then have "draw_seed_context ?deps ([], s0, ()) = Some (Inr drawn_context, [], s0, ()) \<and>
      record_draw ?deps drawn_context ([], s0, ()) = Some (Inr (), [], sample_drawn, ())"
    proof cases
      case 1
      have "pd_rpcClient ?deps = call_client (call_client sample_client)" "pd_targetBlockOffset ?deps = js_num.Num 30"
        "pd_seedContext ?deps = None"
        "pd_onSeedDerived ?deps = Some (\<lambda>ctx. call (modify (mem_recordSeedDrawnAndAdmission sample_key ctx sample_addr)))"
        by (simp_all add: dual_deps_def Let_def 1 pinned_context_def createInMemoryDedupStore_def)
          (simp add: sample_evaluator_def in_memory_deps_def sample_host_def)
      then show ?thesis
        by (simp add: draw_seed_context_def record_draw_def call_client_def call_def modify_def return_io_def bind_io_def d Let_def
          sample_client_def 1 sample_recorded) (simp add: drawn_context_def)
    qed (simp add: draw_seed_context_def record_draw_def dual_deps_def Let_def pinned_context_def drawn_context_fields return_io_def)
    then show "draw_seed_context ?deps ([], s0, ()) = Some (Inr drawn_context, [], s0, ())"
      "record_draw ?deps drawn_context ([], s0, ()) = Some (Inr (), [], sample_drawn, ())" by blast+
  qed
  show thesis
    by (rule sample_scored [OF fields(2,6,7,8,9) draw seeds [unfolded hex]]) (rule that)
qed

text \<open>A report whose numbers are finite has a canonical text.\<close>

lemma serializable_object:
  "list_all (\<lambda>(k, v). is_undefined v \<or> serializable safe v) obj \<Longrightarrow> serializable safe (JObject obj)"
  by (fastforce simp: list_all_iff object_entries_def)

lemma serializable_num: "n \<noteq> NaN \<Longrightarrow> serializable False (num_json n)"
  by (cases n) (simp_all add: num_json_def)

lemma report_built:
  assumes "pr_receivedAtBlock dual \<noteq> NaN" and "pr_targetBlock dual \<noteq> NaN" and "pr_gateScorePpm dual \<noteq> NaN"
    and "pr_confirmScorePpm dual \<noteq> NaN" and "th \<noteq> NaN" and "ec_targetBlockOffset (ev_deps ev) \<noteq> NaN"
    and "ec_replayTolerancePpm (ev_deps ev) \<noteq> NaN" and "pr_rejectionReason dual = None"
  shows "\<exists>a. buildPostRevealEvalReportArtifact ns (artifact_fields ev input bs th key dual adv) = Inr a"
proof -
  let ?f = "artifact_fields ev input bs th key dual adv"
  have "serializable False (receipt_value dual)" "serializable False (seed_derivation_value (ev_deps ev) key dual)"
    unfolding receipt_value_def seed_derivation_value_def
    by (rule serializable_object; simp add: serializable_num assms)+
  then have "list_all (\<lambda>(k, v). serializable False v) ?f"
    unfolding artifact_fields_def Let_def
    by (simp add: serializable_num assms del: serializable.simps(5)) (intro conjI serializable_object; simp add: serializable_num assms)
  then have "serializable False (JObject (artifact_payload (JObject ?f)))"
    by (intro serializable_object) (auto simp: artifact_payload_def list_all_iff)
  then show ?thesis
    using canonical_total [of ns False "JObject (artifact_payload (JObject ?f))"]
    by (auto simp: buildPostRevealEvalReportArtifact_def hashPostRevealEvalReportArtifact_def map_sum_Inr)
qed

lemma sample_wire: "parseHex (bytesToHex patch_bytes) l = Inr patch_bytes" "decodePatch patch_bytes = Inr sample_advance"
  using bytesToHex_text [of patch_bytes] sample_advance_wire(3) [of 0]
  by (simp_all add: parseHex_def hexToBytes_bytesToHex, simp add: patch_bytes_def sample_advance_def)

lemma sample_concludes:
  assumes dual: "pr_accepted dual" "pr_rejectionReason dual = None" "pr_gateScorePpm dual = js_num.Num 5000"
      "pr_confirmScorePpm dual = js_num.Num 5000" "map_of perSeed (toLowerCase (pr_gateSeed dual)) = Some sample_score"
      "\<exists>bs. pr_gateSeed dual = bytesToHex bs" "\<exists>bs. pr_confirmSeed dual = bytesToHex bs" "pr_receivedAtBlock dual = js_num.Num 100"
      "pr_targetBlock dual = js_num.Num 130" "pr_blockhash dual = sample_hash"
  obtains a dp s where "conclude_acceptance sample_numbers sample_evaluator sample_input patch_bytes sample_advance (js_num.Num 1500) sample_key dual perSeed
      (sample_drawn, ()) = Some (Inr (State_advance (accepted_result (js_num.Num 5000) a dp) (js_num.Num 0) (js_num.Num 5000)
        (JString (bytesToHex (advance_bytes 5000))), Some a), s, ())"
    "jget a ''receipt'' = receipt_value dual" "dp_gate dp = \<lparr> pp_seedCommit = pp_seedCommit (dp_gate dp), pp_scorePpm = js_num.Num 5000 \<rparr>"
    "dp_confirm dp = \<lparr> pp_seedCommit = pp_seedCommit (dp_confirm dp), pp_scorePpm = js_num.Num 5000 \<rparr>"
proof -
  have chosen: "chooseStateAdvanceScore dual perSeed = Inr sample_score"
    by (simp add: chooseStateAdvanceScore_def dual)
  obtain a where a: "buildPostRevealEvalReportArtifact sample_numbers (artifact_fields sample_evaluator sample_input patch_bytes
      (js_num.Num 1500) sample_key dual True) = Inr a"
    using report_built [of dual "js_num.Num 1500" sample_evaluator sample_numbers sample_input patch_bytes sample_key True] dual by auto
  obtain dp where dp: "dualPackProofFromPerPatchReceipt dual sample_hash sample_hash sample_commit (js_num.Num 30) = Inr dp"
    using dual(1,6,7) by (auto simp: dualPackProofFromPerPatchReceipt_def seedCommit_def compact_checked)
  let ?s = "mem_put \<lparr> dr_key = sample_key, dr_outcome = DO_state_advance, dr_code = None \<rparr>
     (sample_drawn\<lparr>ms_attempts := [(recordKey sample_key, finished_attempt AS_accepted DO_state_advance None sample_attempt)]\<rparr>)"
  have stored: "record_outcome createInMemoryDedupStore sample_key DO_state_advance None (sample_drawn, ()) = Some (Inr (), ?s, ())"
    by (simp add: record_outcome_def createInMemoryDedupStore_def bind_io_def modify_def modify_res_def mem_recordAttemptOutcome_def
      sample_drawn_def Let_def some_code_def)
  let ?q = "accepted_result (js_num.Num 5000) a dp"
  have concl: "conclude_acceptance sample_numbers sample_evaluator sample_input patch_bytes sample_advance (js_num.Num 1500) sample_key dual perSeed
      (sample_drawn, ()) = Some (Inr (State_advance ?q (js_num.Num 0) (js_num.Num 5000) (JString (bytesToHex (advance_bytes 5000))), Some a), ?s, ())"
  proof -
    have "pe_accepted sample_score" "ppm (pe_beforeComposite sample_score) = js_num.Num 0" "bigint_of (js_num.Num 5000) = Inr 5000"
      "encodePatch (sample_advance\<lparr>scoreDelta := 5000\<rparr>) = Inr (advance_bytes 5000)"
      using sample_advance_wire(2) [of 5000] by (simp_all add: sample_score_def ppm_def bigint_of_def js_round_def)
    with a show ?thesis
      by (simp add: conclude_acceptance_def chosen dual publish_def dp Let_def bind_io_step [where m = "record_outcome _ _ _ _", OF stored])
  qed
  have receipt: "jget a ''receipt'' = receipt_value dual"
    using a by (rule built) (simp add: report_simps)
  show thesis
    by (rule that [OF concl receipt]) (use dp dual in \<open>auto simp: dualPackProofFromPerPatchReceipt_def bind_res_eq_Inr\<close>)
qed

lemma sample_accepted:
  assumes "starts prior s0"
  obtains res artifact q s where "scorePatch sample_numbers sample_evaluator sample_input (s0, ()) =
      Some (Inr (res, Some artifact), s, ())"
    "accepted_part res = Some q" "host_values_ok (document_receipt (jget artifact ''receipt'') key) (js_num.Num 30)"
    "pr_blockhash (document_receipt (jget artifact ''receipt'') key) = sample_hash"
    "jget (jget artifact ''receipt'') ''receivedAtBlock'' = JNumber (Finite 100)" "result_proof res \<noteq> None"
    "\<And>b a rewritten. res = State_advance q b a rewritten \<Longrightarrow> b \<noteq> NaN"
proof -
  let ?input = "dual_request sample_evaluator sample_input patch_bytes"
  obtain dual perSeed where run: "runPerPatchEvaluation ?input
      (dual_deps sample_evaluator sample_input zero_state (js_num.Num 1500) sample_key prior 0) ([], s0, ()) =
      Some (Inr dual, perSeed, sample_drawn, ())"
    and dual: "pr_accepted dual" "pr_rejectionReason dual = None" "pr_gateScorePpm dual = js_num.Num 5000"
      "pr_confirmScorePpm dual = js_num.Num 5000" "map_of perSeed (toLowerCase (pr_gateSeed dual)) = Some sample_score"
      "\<exists>bs. pr_gateSeed dual = bytesToHex bs" "\<exists>bs. pr_confirmSeed dual = bytesToHex bs" "pr_receivedAtBlock dual = js_num.Num 100"
      "pr_targetBlock dual = js_num.Num 130" "pr_blockhash dual = sample_hash"
    by (rule sample_dual [OF assms])
  have th: "effective_threshold (ev_deps sample_evaluator) sample_input = Inr (js_num.Num 1500)"
    by (simp add: effective_threshold_def or_else_def Let_def safe_nat_def is_safe_integer_def)
  have key: "input_key sample_evaluator sample_input patch_bytes = sample_key" by (simp add: sample_key_def)
  have get: "st_get createInMemoryDedupStore sample_key (s0, ()) = Some (Inr None, s0, ())"
    "st_getAttempt createInMemoryDedupStore sample_key (s0, ()) = Some (Inr prior, s0, ())"
    "prior = None \<Longrightarrow> st_minerAdmissions createInMemoryDedupStore 7 sample_addr (s0, ()) = Some (Inr 0, s0, ())"
    and same: "prior = None \<or> prior = Some sample_attempt"
    using assms by (auto simp: createInMemoryDedupStore_def with_state_def mem_get_def mem_getAttempt_def mem_minerAdmissions_def starts_def
      empty_store_def sample_drawn_def return_io_def)
  obtain a dp s where concl: "conclude_acceptance sample_numbers sample_evaluator sample_input patch_bytes sample_advance (js_num.Num 1500) sample_key dual perSeed
      (sample_drawn, ()) = Some (Inr (State_advance (accepted_result (js_num.Num 5000) a dp) (js_num.Num 0) (js_num.Num 5000)
        (JString (bytesToHex (advance_bytes 5000))), Some a), s, ())"
    and receipt: "jget a ''receipt'' = receipt_value dual"
    by (rule sample_concludes [OF dual])
  let ?q = "accepted_result (js_num.Num 5000) a dp"
  have scored: "scorePatch sample_numbers sample_evaluator sample_input (s0, ()) =
      Some (Inr (State_advance ?q (js_num.Num 0) (js_num.Num 5000) (JString (bytesToHex (advance_bytes 5000))), Some a), s, ())"
    using same run get
    by (elim disjE; simp add: scorePatch_def sample_wire th key evaluate_fresh_def Let_def pinned_context_def drawn_context_fields dual
      draw_and_score_def bind_io_def with_local_def concl)
  have "host_values_ok (document_receipt (jget a ''receipt'') key) (js_num.Num 30)" for key
  proof -
    have "BYTES32_RE sample_hash" "toLowerCase sample_hash \<noteq> zero_hash" by code_simp+
    then show ?thesis
      by (simp add: receipt document_receipt_keyed [OF dual(2)] host_values_keyed)
        (simp add: host_values_ok_def dual safe_nat_def is_safe_integer_def)
  qed
  then show thesis
    by (intro that [OF scored])
      (simp_all add: receipt document_receipt_keyed [OF dual(2)] dual report_simps num_json_def result_proof_def accepted_result_def)
qed

section \<open>Witnesses\<close>

lemma starts_simps: "starts None empty_store" "starts (Some sample_attempt) sample_drawn"
  by (simp_all add: starts_def)

lemma sample_report_inputs: "report_inputs_ok sample_evaluator sample_input"
proof -
  have "BYTES32_RE sample_hash" "toLowerCase sample_hash = sample_hash" by code_simp+
  then show ?thesis using hash_ok [OF sample_root_facts(2)]
    by (simp add: report_inputs_ok_def safe_nat_def is_safe_integer_def sample_root_def [symmetric])
qed

definition sample_artifact_deps :: "unit artifact_deps" where
  "sample_artifact_deps = \<lparr> av_rpcClient = sample_client,
     av_scorer = (\<lambda>a. return_io (score_of (\<lambda>_. sample_score) zero_state (js_num.Num 1500) a)), av_epochSecret = sample_hash \<rparr>"

lemma sample_report_premises:
  "effective_threshold (in_memory_deps sample_host) sample_input = Inr (js_num.Num 1500)"
  "ec_epochSecret (in_memory_deps sample_host) = Some sample_hash" "ec_targetBlockOffset (in_memory_deps sample_host) = js_num.Num 30"
  "yields (ec_seedScorer (in_memory_deps sample_host) a) sample_score"
  "yields (rpc_getBlockHash (av_rpcClient sample_artifact_deps) n) sample_hash" "av_epochSecret sample_artifact_deps = sample_hash"
  "yields (av_scorer sample_artifact_deps args) (score_of (\<lambda>_. sample_score) zero_state (js_num.Num 1500) args)"
  by (simp_all add: effective_threshold_def or_else_def Let_def safe_nat_def is_safe_integer_def in_memory_deps_def sample_host_def
    yields_def call_def sample_artifact_deps_def sample_client_def)

theorem published_report_verifies_witness:
  "\<exists>res artifact (q :: accepted_eval) s v. scorePatch sample_numbers sample_evaluator sample_input (empty_store, ()) = Some (Inr (res, Some artifact), s, ()) \<and>
    verifyPostRevealEvalReportArtifact sample_numbers artifact sample_artifact_deps () =
      Some (Inr (Artifact_ok (ea_artifactHash q) (js_num.Num 0) (js_num.Num 0)), v)"
proof -
  obtain res artifact q s where run: "scorePatch sample_numbers sample_evaluator sample_input (empty_store, ()) =
      Some (Inr (res, Some artifact), s, ())" "accepted_part res = Some q"
    and host: "host_values_ok (document_receipt (jget artifact ''receipt'') []) (js_num.Num 30)"
    "pr_blockhash (document_receipt (jget artifact ''receipt'') []) = sample_hash"
    by (rule sample_accepted [OF starts_simps(1), where key = "[]"]) blast
  have "\<exists>v. verifyPostRevealEvalReportArtifact sample_numbers artifact sample_artifact_deps () =
      Some (Inr (Artifact_ok (ea_artifactHash q) (js_num.Num 0) (js_num.Num 0)), v) \<and> ea_evalReportHash q = ea_artifactHash q"
    by (intro published_report_verifies [OF sample_constructed run, where secret = sample_hash and key = "[]" and h = sample_hash
      and g = "\<lambda>_. sample_score" and th = "js_num.Num 1500" and parent = zero_state
      and r = "document_receipt (jget artifact ''receipt'') []"])
      (simp_all add: host sample_report_inputs sample_report_premises)
  then obtain v where "verifyPostRevealEvalReportArtifact sample_numbers artifact sample_artifact_deps () =
      Some (Inr (Artifact_ok (ea_artifactHash q) (js_num.Num 0) (js_num.Num 0)), v)" by blast
  with run(1) show ?thesis by (intro exI conjI)
qed


theorem artifact_hash_commits_witness:
  "\<exists>h. hashPostRevealEvalReportArtifact sample_numbers (JObject [(''outcome'', JString ''a''), (''artifactHash'', JNull)]) = Inr h \<and>
    hashPostRevealEvalReportArtifact sample_numbers (JObject [(''outcome'', JString ''a'')]) = Inr h \<and>
    (document (JObject (artifact_payload (JObject [(''outcome'', JString ''a''), (''artifactHash'', JNull)]))) =
       document (JObject (artifact_payload (JObject [(''outcome'', JString ''a'')]))) \<or>
     (\<exists>s t. canonicalJson sample_numbers False (JObject (artifact_payload (JObject [(''outcome'', JString ''a''), (''artifactHash'', JNull)]))) = Inr s \<and>
       canonicalJson sample_numbers False (JObject (artifact_payload (JObject [(''outcome'', JString ''a'')]))) = Inr t \<and> collide [utf8 s] [utf8 t]))"
proof -
  let ?b = "JObject [(''outcome'', JString ''a'')]"
  have same: "artifact_payload (JObject [(''outcome'', JString ''a''), (''artifactHash'', JNull)]) = artifact_payload ?b"
    by (simp add: artifact_payload_def)
  have ok: "numbers_ok (document (JObject (artifact_payload ?b)))" by (simp add: artifact_payload_def object_entries_def)
  obtain h where h: "hashPostRevealEvalReportArtifact sample_numbers ?b = Inr h"
    by (simp add: hashPostRevealEvalReportArtifact_def canonicalJson_def artifact_payload_def object_entries_def)
  moreover have "hashPostRevealEvalReportArtifact sample_numbers (JObject [(''outcome'', JString ''a''), (''artifactHash'', JNull)]) = Inr h"
    using h by (simp only: hashPostRevealEvalReportArtifact_def same)
  ultimately show ?thesis
    using artifact_hash_commits [OF sample_format _ h, of "JObject [(''outcome'', JString ''a''), (''artifactHash'', JNull)]"] ok
    unfolding same by blast
qed


lemma sample_trace:
  obtains res art s where "evaluations sample_numbers sample_evaluator empty_store [(sample_input, Inr (res, art))] s" "accepts res"
proof -
  obtain res artifact q s where "scorePatch sample_numbers sample_evaluator sample_input (empty_store, ()) =
      Some (Inr (res, Some artifact), s, ())" "accepted_part res = Some q"
    by (rule sample_accepted [OF starts_simps(1)]) blast
  with evaluations_step [OF evaluations_start this(1)] that show thesis by (cases res) (auto simp: accepts_def)
qed

theorem admissions_capped_witness:
  "\<exists>tr s. evaluations sample_numbers sample_evaluator empty_store tr s \<and> length tr = 1 \<and>
    mem_minerAdmissions s 7 sample_addr = of_nat (card (charged_keys (map_of (ms_attempts s)) 7 sample_addr)) \<and>
    mem_minerAdmissions s 7 sample_addr \<le> 10"
proof -
  obtain res art s where tr: "evaluations sample_numbers sample_evaluator empty_store [(sample_input, Inr (res, art))] s"
    by (rule sample_trace)
  from admissions_capped [OF sample_constructed tr, of 7 sample_addr] tr show ?thesis
    by (intro exI [of _ "[(sample_input, Inr (res, art))]"] exI [of _ s]) (simp add: sample_strings)
qed

theorem patch_credited_once_witness:
  "\<exists>tr s. evaluations sample_numbers sample_evaluator empty_store tr s \<and> length tr = 1 \<and>
    length (filter (accepted_for sample_evaluator (recordKey sample_key)) tr) \<le> 1"
proof -
  obtain res art s where tr: "evaluations sample_numbers sample_evaluator empty_store [(sample_input, Inr (res, art))] s"
    by (rule sample_trace)
  from patch_credited_once [OF sample_constructed tr, of "recordKey sample_key"] tr show ?thesis
    by (intro exI [of _ "[(sample_input, Inr (res, art))]"] exI [of _ s]) simp
qed

definition sample_pinned :: coordinator_config where
  "sample_pinned = sample_cfg\<lparr>cf_expectedEpochPins := sample_pins\<lparr>pn_hiddenSeedCommit := sample_commit\<rparr>\<rparr>"

lemma sample_sides: "sides_agree sample_pinned sample_prepared sample_evaluator sample_input patch_bytes"
proof -
  have "hexEq sample_hash sample_ones" by code_simp
  then show ?thesis
    by (simp add: sides_agree_def sample_pinned_def sample_prepared_def effective_threshold_def or_else_def Let_def safe_nat_def
        is_safe_integer_def sample_hash_text_def patch_bytes_def)
      (simp add: sample_cfg_def sample_pins_def sample_input_def)
qed


end
