(* ===== verification/Remote_Scorer.thy ===== *)
theory Remote_Scorer
  imports Evaluator Merkle
begin

text \<open>
  The scorer on another host.  \<open>src/scorer-server-cli.ts\<close>: a job carries the packed parent state,
  the seeds and the pins, the scorer checks them, evaluates and answers.
  \<open>src/coordinator/remote-scorer-verify.ts\<close>: the coordinator checks the answer before it goes on.
  Jobs and answers are JSON from the other side, so they are values.  The HTTP transport, the boot
  from files and the trace of scored pairs are outside, and of a refusal the code is kept.
\<close>

section \<open>Reading jobs\<close>

text \<open>\<open>a === b\<close> for values that are no objects; an object is equal to itself only, and the two
  sides never share one.\<close>

fun strict_same :: "js_value \<Rightarrow> js_value \<Rightarrow> bool" where
  "strict_same (JString s) (JString t) = (s = t)"
| "strict_same (JNumber (Finite x)) (JNumber (Finite y)) = (x = y)"
| "strict_same (JBool a) (JBool b) = (a = b)"
| "strict_same JNull JNull = True"
| "strict_same JUndefined JUndefined = True"
| "strict_same _ _ = False"

text \<open>\<open>Number.isSafeInteger(v)\<close>\<close>

fun safe_int :: "js_value \<Rightarrow> bool" where
  "safe_int (JNumber (Finite x)) = safe_integer x"
| "safe_int _ = False"

fun safe_positive :: "js_value \<Rightarrow> bool" where
  "safe_positive (JNumber (Finite x)) = (safe_integer x \<and> x > 0)"
| "safe_positive _ = False"

record loaded_pins =
  lp_modelId :: string
  lp_revision :: string
  lp_promptTemplateHash :: string
  lp_bundleHash :: string
  lp_corpusRoot :: string
  lp_coreVersionHash :: string
  lp_hiddenSeedCommit :: "string option"

definition pin_checks :: "js_value \<Rightarrow> loaded_pins \<Rightarrow> (bool \<times> string) list" where
  "pin_checks job loaded =
     (let p = jget job ''expectedScorerPins''; jobCommit = jget (jget job ''publicEvalContext'') ''hiddenSeedCommit'' in
      [(is_object p, ''expectedScorerPins missing''),
       (strict_same (jget p ''modelId'') (JString (lp_modelId loaded)), ''expectedScorerPins.modelId''),
       (strict_same (jget p ''revision'') (JString (lp_revision loaded)), ''expectedScorerPins.revision''),
       (same_hex (jget p ''promptTemplateHash'') (JString (lp_promptTemplateHash loaded)), ''expectedScorerPins.promptTemplateHash''),
       (same_hex (jget p ''bundleHash'') (JString (lp_bundleHash loaded)), ''expectedScorerPins.bundleHash''),
       (same_hex (jget p ''corpusRoot'') (JString (lp_corpusRoot loaded)), ''expectedScorerPins.corpusRoot''),
       (same_hex (jget job ''corpusRoot'') (JString (lp_corpusRoot loaded)), ''job.corpusRoot''),
       (same_hex (jget job ''bundleHash'') (JString (lp_bundleHash loaded)), ''job.bundleHash''),
       (same_hex (jget job ''coreVersionHash'') (JString (lp_coreVersionHash loaded)), ''job.coreVersionHash''),
       (jobCommit = JUndefined \<or> (case lp_hiddenSeedCommit loaded of None \<Rightarrow> True | Some c \<Rightarrow> same_hex jobCommit (JString c)),
          ''publicEvalContext.hiddenSeedCommit'')])"

definition checkScorerJobPins :: "js_value \<Rightarrow> loaded_pins \<Rightarrow> string option" where
  "checkScorerJobPins job loaded = first_failure (pin_checks job loaded)"

definition verifyJobParentState :: "string \<Rightarrow> string \<Rightarrow> js_error + (string + cortex_state)" where
  "verifyJobParentState pinnedRoot packedHex =
     (case bind_res (hexToBytes packedHex) unpack of
        Inl e \<Rightarrow> Inr (Inl ''packedParentStateHex did not unpack'')
      | Inr state \<Rightarrow>
          map_sum id (\<lambda>root.
            if toLowerCase (bytesToHex root) \<noteq> toLowerCase pinnedRoot then Inl ''packedParentStateHex merkles to another root''
            else Inr state) (merkleizeState state))"

definition seed_context_checks :: "js_value \<Rightarrow> (bool \<times> string) list" where
  "seed_context_checks ctx =
     [(truthy ctx, ''publicEvalContext is required''),
      (safe_positive (jget ctx ''receivedAtBlock''), ''publicEvalContext.receivedAtBlock must be a positive integer''),
      (safe_positive (jget ctx ''targetBlock''), ''publicEvalContext.targetBlock must be a positive integer''),
      (string_with BYTES32_RE (jget ctx ''blockhash''), ''publicEvalContext.blockhash must be bytes32''),
      (string_with BYTES32_RE (jget ctx ''gateSeed''), ''publicEvalContext.gateSeed must be bytes32''),
      (string_with BYTES32_RE (jget ctx ''confirmSeed''), ''publicEvalContext.confirmSeed must be bytes32'')]"

definition resolveJobSeedContext :: "js_value \<Rightarrow> string + seed_context \<times> string \<times> string" where
  "resolveJobSeedContext job =
     (let ctx = jget job ''publicEvalContext'' in
      case first_failure (seed_context_checks ctx) of
        Some e \<Rightarrow> Inl e
      | None \<Rightarrow> Inr (\<lparr> sc_receivedAtBlock = num_of (jget ctx ''receivedAtBlock''), sc_targetBlock = num_of (jget ctx ''targetBlock''),
          sc_blockhash = toLowerCase (string_value (jget ctx ''blockhash'')) \<rparr>,
          toLowerCase (string_value (jget ctx ''gateSeed'')), toLowerCase (string_value (jget ctx ''confirmSeed''))))"

definition job_checks :: "js_value \<Rightarrow> (bool \<times> string) list" where
  "job_checks j =
     [(is_object j, ''job must be an object''), (string_with (\<lambda>s. s \<noteq> '''') (jget j ''jobId''), ''jobId required''),
      (safe_int (jget j ''epochId''), ''epochId must be an integer'')]
     @ bytes32_checks '''' j [''parentStateRoot'', ''patchHash'', ''corpusRoot'', ''bundleHash'', ''coreVersionHash'']
     @ [(string_with hex_string (jget j ''compactPatchBytesHex''), ''compactPatchBytesHex must be hex''),
      (string_with hex_string (jget j ''packedParentStateHex''), ''packedParentStateHex must be hex''),
      (length (string_value (jget j ''packedParentStateHex'')) = 2 + 2 * PACKED_SIZE, ''packedParentStateHex size''),
      (string_with ADDR_RE (jget j ''miner''), ''miner must be an address''),
      (safe_count (jget j ''thresholdPpm''), ''thresholdPpm must be a non-negative integer'')]
     @ bytes32_checks '''' j [''policyHash'']
     @ [(is_object (jget j ''expectedScorerPins''), ''expectedScorerPins required'')]"

definition validateJobShape :: "js_value \<Rightarrow> string option" where
  "validateJobShape job = first_failure (job_checks job)"

section \<open>The job handler\<close>

record trace_snapshot =
  ts_totalScoredPairCount :: js_num
  ts_pairTraceHash :: string
  ts_scoreArrayHash :: string

text \<open>The evaluator, the traced reranker, the telemetry and the clock of the host.\<close>

record 'w handler_deps =
  hd_scorePatch :: "score_input \<Rightarrow> (eval_result \<times> js_value option, 'w) io"
  hd_resetTrace :: "(unit, 'w) io"
  hd_traceSnapshot :: "(trace_snapshot, 'w) io"
  hd_loadedPins :: loaded_pins
  hd_scorerHealth :: js_value
  hd_telemetry :: "(js_value, 'w) io"
  hd_now :: "(rat, 'w) io"

datatype job_response = Job_done js_value | Job_refused int string

definition job_input :: "js_value \<Rightarrow> cortex_state \<Rightarrow> seed_context \<times> string \<times> string \<Rightarrow> score_input" where
  "job_input job parent pinned =
     \<lparr> in_patchBytesHex = string_value (jget job ''compactPatchBytesHex''),
       in_parentStateRoot = string_value (jget job ''parentStateRoot''), in_miner = string_value (jget job ''miner''),
       in_parentState = Some parent, in_screenerThresholdPpm = Some (num_of (jget job ''thresholdPpm'')),
       in_seedContext = Some (fst pinned), in_injectedSeeds = Some (snd pinned) \<rparr>"

definition pack_value :: "proof_pack \<Rightarrow> js_value" where
  "pack_value p = JObject [(''domain'', JString (pk_domain p)), (''seedCommit'', JString (pk_seedCommit p)),
     (''accepted'', JBool (pk_accepted p)), (''scorePpm'', num_json (pk_scorePpm p))]"

definition optional_pack :: "proof_pack option \<Rightarrow> js_value" where
  "optional_pack p = (case p of None \<Rightarrow> JUndefined | Some q \<Rightarrow> pack_value q)"

text \<open>The proof as the JSON object that it is.\<close>

definition proof_value :: "evaluation_proof \<Rightarrow> js_value" where
  "proof_value p = JObject
     [(''kind'', JString (ep_kind p)), (''mode'', JString (ep_mode p)), (''epochId'', num_json (ep_epochId p)),
      (''receivedAtBlock'', num_json (ep_receivedAtBlock p)), (''targetBlock'', num_json (ep_targetBlock p)),
      (''targetBlockOffset'', num_json (ep_targetBlockOffset p)), (''blockhash'', JString (ep_blockhash p)),
      (''patchHash'', JString (ep_patchHash p)), (''parentStateRoot'', JString (ep_parentStateRoot p)),
      (''corpusRoot'', JString (ep_corpusRoot p)), (''coreVersionHash'', JString (ep_coreVersionHash p)),
      (''hiddenSeedCommit'', JString (ep_hiddenSeedCommit p)), (''epochSecretCommit'', JString (ep_epochSecretCommit p)),
      (''gate'', optional_pack (ep_gate p)), (''confirm'', optional_pack (ep_confirm p))]"

text \<open>\<open>...(v ? { k: v } : {})\<close>\<close>

definition field_if :: "string \<Rightarrow> js_value option \<Rightarrow> (string \<times> js_value) list" where
  "field_if k v = (case v of None \<Rightarrow> [] | Some x \<Rightarrow> [(k, x)])"

text \<open>\<open>proof?.gate.scorePpm ?? 0\<close>; a proof always has both packs here.\<close>

definition proof_score :: "(evaluation_proof \<Rightarrow> proof_pack option) \<Rightarrow> evaluation_proof option \<Rightarrow> js_value" where
  "proof_score f p = (case Option.bind p f of None \<Rightarrow> JNumber (Finite 0) | Some q \<Rightarrow> num_json (pk_scorePpm q))"

definition accepted_fields :: "accepted_eval \<Rightarrow> js_value option \<Rightarrow> js_value \<times> js_value \<Rightarrow> js_value option \<Rightarrow> (string \<times> js_value) list" where
  "accepted_fields q artifact scores rewritten =
     [(''accepted'', JBool True), (''scoreBeforePpm'', fst scores), (''scoreAfterPpm'', snd scores),
      (''deltaPpm'', num_json (ea_deterministicDeltaPpm q)),
      (''gateScorePpm'', proof_score ep_gate (ea_evaluationProof q)), (''confirmScorePpm'', proof_score ep_confirm (ea_evaluationProof q)),
      (''evalReportHash'', JString (ea_evalReportHash q)), (''artifactHash'', JString (ea_artifactHash q))]
     @ field_if ''artifact'' artifact @ field_if ''evaluationProof'' (map_option proof_value (ea_evaluationProof q))
     @ field_if ''rewrittenPatchBytesHex'' rewritten"

definition result_fields :: "eval_result \<Rightarrow> js_value option \<Rightarrow> (string \<times> js_value) list" where
  "result_fields result artifact =
     (case result of
        Eval_reject code \<Rightarrow>
          [(''accepted'', JBool False), (''rejectionReason'', JString code), (''scoreBeforePpm'', JNull), (''scoreAfterPpm'', JNull),
           (''deltaPpm'', JNumber (Finite 0)), (''gateScorePpm'', JNumber (Finite 0)), (''confirmScorePpm'', JNumber (Finite 0))]
      | Screener_pass q \<Rightarrow> accepted_fields q artifact (JNull, JNull) None
      | State_advance q before after rewritten \<Rightarrow> accepted_fields q artifact (num_json before, num_json after) (Some rewritten))"

definition base_fields :: "js_value \<Rightarrow> trace_snapshot \<Rightarrow> rat \<Rightarrow> js_value \<Rightarrow> js_value \<Rightarrow> (string \<times> js_value) list" where
  "base_fields job trace wallMs telemetry health =
     [(''jobId'', jget job ''jobId''), (''thresholdPpmUsed'', jget job ''thresholdPpm''),
      (''policyHash'', JString (toLowerCase (string_value (jget job ''policyHash'')))),
      (''pairTraceHash'', JString (ts_pairTraceHash trace)), (''scoreArrayHash'', JString (ts_scoreArrayHash trace)),
      (''totalScoredPairCount'', num_json (ts_totalScoredPairCount trace)), (''wallMs'', JNumber (Finite wallMs)),
      (''telemetry'', telemetry), (''scorerHealth'', health)]"

definition run_job :: "js_value \<Rightarrow> 'w handler_deps \<Rightarrow> score_input \<Rightarrow> (job_response, 'w) io" where
  "run_job job deps input =
     bind_io (hd_resetTrace deps) (\<lambda>_.
     bind_io (hd_now deps) (\<lambda>start.
     try_io (hd_scorePatch deps input) (\<lambda>_. return_io (Job_refused 500 ''eval-failure'')) (\<lambda>(result, artifact).
     bind_io (hd_now deps) (\<lambda>stop.
     bind_io (hd_traceSnapshot deps) (\<lambda>trace.
     bind_io (hd_telemetry deps) (\<lambda>telemetry.
     return_io (Job_done (JObject
       (base_fields job trace (dbl (stop - start)) telemetry (hd_scorerHealth deps) @ result_fields result artifact)))))))))"

definition handleScoreJob :: "js_value \<Rightarrow> 'w handler_deps \<Rightarrow> (job_response, 'w) io" where
  "handleScoreJob job deps =
     (if validateJobShape job \<noteq> None then return_io (Job_refused 400 ''invalid-job'')
      else if checkScorerJobPins job (hd_loadedPins deps) \<noteq> None then return_io (Job_refused 409 ''pin-mismatch'')
      else
        bind_io (lift_res (verifyJobParentState (string_value (jget job ''parentStateRoot'')) (string_value (jget job ''packedParentStateHex''))))
          (\<lambda>parent. case parent of
             Inl _ \<Rightarrow> return_io (Job_refused 422 ''SCORER_PARENT_STATE_MISMATCH'')
           | Inr state \<Rightarrow>
               (case resolveJobSeedContext job of
                  Inl _ \<Rightarrow> return_io (Job_refused 422 ''SCORER_SEED_CONTEXT_INVALID'')
                | Inr pinned \<Rightarrow> run_job job deps (job_input job state pinned))))"

section \<open>What the coordinator checks\<close>

record active_context =
  ac_epochId :: int
  ac_parentStateRoot :: string
  ac_corpusRoot :: string
  ac_bundleHash :: string
  ac_coreVersionHash :: string
  ac_workPolicyHash :: string
  ac_thresholdPpm :: rat

record expected_health =
  eh_modelId :: string
  eh_revision :: string
  eh_promptTemplateHash :: string

datatype scorer_verdict = Scorer_ok eval_result js_value | Scorer_refused string

definition same_block :: "js_value \<Rightarrow> js_num \<Rightarrow> bool" where
  "same_block v n = strict_same v (num_json n)"

definition echo_checks :: "js_value \<Rightarrow> seed_context \<Rightarrow> (bool \<times> string) list" where
  "echo_checks artifact pinned =
     (let sd = jget artifact ''seedDerivation'' in
      [(is_object sd, ''artifact seedDerivation missing''),
       (same_block (jget sd ''receivedAtBlock'') (sc_receivedAtBlock pinned), ''artifact seedDerivation.receivedAtBlock''),
       (same_block (jget sd ''targetBlock'') (sc_targetBlock pinned), ''artifact seedDerivation.targetBlock''),
       (same_hex (jget sd ''blockhash'') (JString (sc_blockhash pinned)), ''artifact seedDerivation.blockhash'')])"

definition seed_echo_checks :: "js_value \<Rightarrow> string \<times> string \<Rightarrow> (bool \<times> string) list" where
  "seed_echo_checks artifact seeds =
     (let receipt = jget artifact ''receipt'' in
      [(is_object receipt, ''artifact receipt missing''),
       (same_hex (jget receipt ''gateSeed'') (JString (fst seeds)), ''artifact receipt.gateSeed''),
       (same_hex (jget receipt ''confirmSeed'') (JString (snd seeds)), ''artifact receipt.confirmSeed'')])"

definition checkArtifactSeedEcho :: "js_value \<Rightarrow> seed_context \<Rightarrow> (string \<times> string) option \<Rightarrow> string option" where
  "checkArtifactSeedEcho artifact pinned expectedSeeds =
     (if \<not> truthy artifact then None
      else first_failure (echo_checks artifact pinned @
        (case expectedSeeds of None \<Rightarrow> [] | Some seeds \<Rightarrow> seed_echo_checks artifact seeds)))"

text \<open>\<open>seedCommit\<close>, \<open>None\<close> for its null\<close>

definition remote_seed_commit :: "js_value \<Rightarrow> string option" where
  "remote_seed_commit seed =
     (if string_with BYTES32_RE seed
      then (case hexToBytes_checked (string_value seed) of Inl e \<Rightarrow> None | Inr bs \<Rightarrow> Some (toLowerCase (bytesToHex (keccak256 bs))))
      else None)"

text \<open>A check that is made on accepted results, or when there is a proof, only.\<close>

definition only_if :: "bool \<Rightarrow> (bool \<times> string) list \<Rightarrow> (bool \<times> string) list" where
  "only_if b checks = (if b then checks else [])"

definition schema_checks :: "js_value \<Rightarrow> (bool \<times> string) list" where
  "schema_checks result = map (\<lambda>ok. (ok, ''SCORER_RESULT_MALFORMED''))
     ([(case jget result ''accepted'' of JBool b \<Rightarrow> True | _ \<Rightarrow> False), (case jget result ''deltaPpm'' of JNumber (Finite x) \<Rightarrow> True | _ \<Rightarrow> False),
       safe_int (jget result ''gateScorePpm''), safe_int (jget result ''confirmScorePpm''), safe_count (jget result ''thresholdPpmUsed''),
       string_with BYTES32_RE (jget result ''policyHash''), string_with (\<lambda>s. True) (jget result ''pairTraceHash''),
       string_with (\<lambda>s. True) (jget result ''scoreArrayHash''), is_object (jget result ''scorerHealth'')]
      @ (if truthy (jget result ''accepted'')
         then [string_with BYTES32_RE (jget result ''evalReportHash''), string_with BYTES32_RE (jget result ''artifactHash''),
           \<not> truthy (jget result ''evaluationProof'') \<or>
             strict_same (jget (jget result ''evaluationProof'') ''kind'') (JString ''coretex-dual-pack-v1'')]
         else []))"

definition context_checks :: "js_value \<Rightarrow> active_context \<Rightarrow> (bool \<times> string) list" where
  "context_checks job active = map (\<lambda>ok. (ok, ''SCORER_STALE_CONTEXT''))
     [strict_same (jget job ''epochId'') (JNumber (Finite (of_int (ac_epochId active)))),
      same_hex (jget job ''parentStateRoot'') (JString (ac_parentStateRoot active)),
      same_hex (jget job ''corpusRoot'') (JString (ac_corpusRoot active)), same_hex (jget job ''bundleHash'') (JString (ac_bundleHash active)),
      same_hex (jget job ''coreVersionHash'') (JString (ac_coreVersionHash active)),
      same_hex (jget job ''policyHash'') (JString (ac_workPolicyHash active))]"

definition health_checks :: "js_value \<Rightarrow> expected_health \<Rightarrow> (bool \<times> string) list" where
  "health_checks h expected = map (\<lambda>ok. (ok, ''SCORER_HEALTH_MISMATCH''))
     [strict_same (jget h ''modelId'') (JString (eh_modelId expected)), strict_same (jget h ''revision'') (JString (eh_revision expected)),
      same_hex (jget h ''promptTemplateHash'') (JString (eh_promptTemplateHash expected)), strict_same (jget h ''dtype'') (JString ''fp32''),
      strict_same (jget h ''tf32'') (JBool False), strict_same (jget h ''cuda'') (JBool True)]"

definition commit_check :: "js_value \<Rightarrow> js_value \<Rightarrow> bool" where
  "commit_check p seed = (case remote_seed_commit seed of None \<Rightarrow> False | Some c \<Rightarrow> same_hex (jget p ''seedCommit'') (JString c))"

definition proof_checks :: "js_value \<Rightarrow> js_value \<Rightarrow> active_context \<Rightarrow> (bool \<times> string) list" where
  "proof_checks result job active =
     (let p = jget result ''evaluationProof''; ctx = jget job ''publicEvalContext'' in
      [(same_hex (jget p ''corpusRoot'') (JString (ac_corpusRoot active)), ''SCORER_PIN_MISMATCH''),
       (same_hex (jget p ''coreVersionHash'') (JString (ac_coreVersionHash active)), ''SCORER_PIN_MISMATCH''),
       (same_hex (jget p ''parentStateRoot'') (JString (ac_parentStateRoot active)), ''SCORER_PIN_MISMATCH''),
       (commit_check (jget p ''gate'') (jget ctx ''gateSeed'') \<and> commit_check (jget p ''confirm'') (jget ctx ''confirmSeed''),
          ''SCORER_SEED_COMMIT_MISMATCH''),
       (strict_same (jget (jget p ''gate'') ''scorePpm'') (jget result ''gateScorePpm'') \<and>
        strict_same (jget (jget p ''confirm'') ''scorePpm'') (jget result ''confirmScorePpm''), ''SCORER_SCORE_PROOF_MISMATCH'')])"

definition decision_checks :: "js_value \<Rightarrow> js_value \<Rightarrow> active_context \<Rightarrow> (bool \<times> string) list" where
  "decision_checks result job active =
     [(strict_same (jget result ''thresholdPpmUsed'') (jget job ''thresholdPpm''), ''SCORER_THRESHOLD_ECHO_MISMATCH''),
      (same_hex (jget result ''policyHash'') (jget job ''policyHash''), ''SCORER_POLICY_ECHO_MISMATCH''),
      (truthy (jget result ''accepted''), ''SCORER_REJECTED''),
      (ac_thresholdPpm active \<le> min_dual result, ''SCORER_BELOW_THRESHOLD'')]"

definition artifact_checks :: "(rat \<Rightarrow> string) \<Rightarrow> js_value \<Rightarrow> active_context \<Rightarrow> (bool \<times> string) list" where
  "artifact_checks ns result active =
     (let artifact = jget result ''artifact''; ctx = jget artifact ''context''; recomputed = hashPostRevealEvalReportArtifact ns artifact in
      [(is_object artifact, ''SCORER_ARTIFACT_MISSING''),
       (\<not> isl recomputed, ''SCORER_ARTIFACT_MALFORMED''),
       (case recomputed of Inl e \<Rightarrow> False | Inr h \<Rightarrow> same_hex (JString h) (jget result ''artifactHash'') \<and> same_hex (JString h) (jget result ''evalReportHash''),
          ''SCORER_ARTIFACT_HASH_MISMATCH''),
       (is_object ctx, ''SCORER_ARTIFACT_CONTEXT_MISMATCH''),
       (same_hex (jget ctx ''parentStateRoot'') (JString (ac_parentStateRoot active)), ''SCORER_ARTIFACT_CONTEXT_MISMATCH''),
       (same_hex (jget ctx ''corpusRoot'') (JString (ac_corpusRoot active)), ''SCORER_ARTIFACT_CONTEXT_MISMATCH''),
       (same_hex (jget ctx ''coreVersionHash'') (JString (ac_coreVersionHash active)), ''SCORER_ARTIFACT_CONTEXT_MISMATCH'')])"

text \<open>The proof as the coordinator's checks read it; a field of the wrong kind becomes one that they
  refuse.\<close>

definition read_pack :: "js_value \<Rightarrow> proof_pack option" where
  "read_pack v = (if \<not> truthy v then None else Some \<lparr> pk_domain = string_value (jget v ''domain''), pk_seedCommit = string_value (jget v ''seedCommit''),
     pk_accepted = (jget v ''accepted'' = JBool True), pk_scorePpm = num_of (jget v ''scorePpm'') \<rparr>)"

definition read_proof :: "js_value \<Rightarrow> evaluation_proof" where
  "read_proof v =
     \<lparr> ep_kind = string_value (jget v ''kind''), ep_mode = string_value (jget v ''mode''), ep_epochId = num_of (jget v ''epochId''),
       ep_receivedAtBlock = num_of (jget v ''receivedAtBlock''), ep_targetBlock = num_of (jget v ''targetBlock''),
       ep_targetBlockOffset = num_of (jget v ''targetBlockOffset''), ep_blockhash = string_value (jget v ''blockhash''),
       ep_patchHash = string_value (jget v ''patchHash''), ep_parentStateRoot = string_value (jget v ''parentStateRoot''),
       ep_corpusRoot = string_value (jget v ''corpusRoot''), ep_coreVersionHash = string_value (jget v ''coreVersionHash''),
       ep_hiddenSeedCommit = string_value (jget v ''hiddenSeedCommit''), ep_epochSecretCommit = string_value (jget v ''epochSecretCommit''),
       ep_gate = read_pack (jget v ''gate''), ep_confirm = read_pack (jget v ''confirm'') \<rparr>"

definition reconstructed :: "js_value \<Rightarrow> eval_result" where
  "reconstructed result =
     (let q = \<lparr> ea_deterministicDeltaPpm = num_of (jget result ''deltaPpm''), ea_evalReportHash = string_value (jget result ''evalReportHash''),
            ea_artifactHash = string_value (jget result ''artifactHash''),
            ea_evaluationProof = (let p = jget result ''evaluationProof'' in if truthy p then Some (read_proof p) else None) \<rparr>
      in if jget result ''scoreBeforePpm'' \<noteq> JNull \<and> jget result ''scoreAfterPpm'' \<noteq> JNull \<and>
            string_with (\<lambda>s. True) (jget result ''rewrittenPatchBytesHex'')
         then State_advance q (num_of (jget result ''scoreBeforePpm'')) (num_of (jget result ''scoreAfterPpm'')) (jget result ''rewrittenPatchBytesHex'')
         else Screener_pass q)"

definition verdict_checks ::
  "(rat \<Rightarrow> string) \<Rightarrow> js_value \<Rightarrow> js_value \<Rightarrow> string list \<Rightarrow> active_context \<Rightarrow> expected_health \<Rightarrow> (bool \<times> string) list" where
  "verdict_checks ns result job outstandingJobIds active expectedHealth =
     [(is_object result, ''SCORER_RESULT_MALFORMED''), (strict_same (jget result ''jobId'') (jget job ''jobId''), ''SCORER_JOB_ID_MISMATCH''),
      (string_with (\<lambda>i. i \<in> set outstandingJobIds) (jget job ''jobId''), ''SCORER_JOB_NOT_OUTSTANDING'')]
     @ schema_checks result @ context_checks job active @ health_checks (jget result ''scorerHealth'') expectedHealth
     @ only_if (truthy (jget result ''evaluationProof'')) (proof_checks result job active)
     @ decision_checks result job active @ artifact_checks ns result active"

definition verifyScorerResult ::
  "(rat \<Rightarrow> string) \<Rightarrow> js_value \<Rightarrow> js_value \<Rightarrow> string list \<Rightarrow> active_context \<Rightarrow> expected_health \<Rightarrow> scorer_verdict" where
  "verifyScorerResult ns result job outstandingJobIds active expectedHealth =
     (case first_failure (verdict_checks ns result job outstandingJobIds active expectedHealth) of
        Some code \<Rightarrow> Scorer_refused code
      | None \<Rightarrow> Scorer_ok (reconstructed result) (jget result ''artifact''))"

end
