(* ===== verification/Remote_Results.thy ===== *)
theory Remote_Results
  imports Remote_Scorer Evaluator_Contract
begin

text \<open>
  What the coordinator may rely on when it accepts an answer of a scorer: it is bound to the job, the
  live context, the seeds and the report.
\<close>

section \<open>Accepted answers\<close>

lemma verdict_ok:
  "verifyScorerResult ns result job outstanding active health = Scorer_ok res artifact \<longleftrightarrow>
    list_all fst (verdict_checks ns result job outstanding active health) \<and> res = reconstructed result \<and> artifact = jget result ''artifact''"
  by (cases "first_failure (verdict_checks ns result job outstanding active health)")
    (auto simp: verifyScorerResult_def first_failure_None [symmetric])

lemma list_all_codes [simp]: "list_all fst (map (\<lambda>ok. (ok, c)) bs) \<longleftrightarrow> list_all (\<lambda>b. b) bs"
  by (induction bs) auto

lemma only_if_all [simp]: "list_all fst (only_if b checks) \<longleftrightarrow> (b \<longrightarrow> list_all fst checks)"
  by (simp add: only_if_def)

text \<open>Equality of an answer with a value of the coordinator.\<close>

lemma same_hex_text [simp]: "same_hex v (JString s) \<longleftrightarrow> (\<exists>t. v = JString t \<and> hexEq t s)"
  by (cases v) (auto simp: same_hex_def)

lemma strict_same_text [simp]: "strict_same v (JString s) \<longleftrightarrow> v = JString s"
  by (cases v) auto

lemma strict_same_bool [simp]: "strict_same v (JBool b) \<longleftrightarrow> v = JBool b"
  by (cases v) auto

lemma strict_same_finite [simp]: "strict_same v (JNumber (Finite x)) \<longleftrightarrow> v = JNumber (Finite x)"
proof (cases v)
  case (JNumber n)
  then show ?thesis by (cases n) auto
qed auto

lemma strict_same_num: "strict_same v (num_json n) \<longleftrightarrow> n \<noteq> NaN \<and> v = num_json n"
proof (cases n)
  case NaN
  then show ?thesis by (cases v) (auto simp: num_json_def)
qed (auto simp: num_json_def)

lemma string_with_iff: "string_with P v \<longleftrightarrow> (\<exists>s. v = JString s \<and> P s)"
  by (cases v) auto

lemma commit_checked:
  assumes "commit_check p seed"
  obtains c s where "remote_seed_commit seed = Some c" "jget p ''seedCommit'' = JString s" "hexEq s c"
  using assms by (auto simp: commit_check_def split: option.splits)

lemma pack_read:
  assumes "jget v ''seedCommit'' = JString s" and "jget v ''scorePpm'' = JNumber (Finite x)"
  obtains g where "read_pack v = Some g" "pk_seedCommit g = s" "pk_scorePpm g = num_of (JNumber (Finite x))"
proof -
  have "truthy v" using assms(1) by (cases v) (auto simp: jget_def)
  with assms that show thesis by (simp add: read_pack_def)
qed

lemma proof_bound:
  assumes "list_all fst (proof_checks result job active)"
    and "jget result ''gateScorePpm'' = JNumber (Finite x)" and "jget result ''confirmScorePpm'' = JNumber (Finite y)"
  defines "p \<equiv> read_proof (jget result ''evaluationProof'')" and "ctx \<equiv> jget job ''publicEvalContext''"
  shows "hexEq (ep_corpusRoot p) (ac_corpusRoot active) \<and>
    hexEq (ep_coreVersionHash p) (ac_coreVersionHash active) \<and> hexEq (ep_parentStateRoot p) (ac_parentStateRoot active) \<and>
    (\<exists>g c gs cs. ep_gate p = Some g \<and> ep_confirm p = Some c \<and>
      pk_scorePpm g = num_of (jget result ''gateScorePpm'') \<and> pk_scorePpm c = num_of (jget result ''confirmScorePpm'') \<and>
      remote_seed_commit (jget ctx ''gateSeed'') = Some gs \<and> hexEq (pk_seedCommit g) gs \<and>
      remote_seed_commit (jget ctx ''confirmSeed'') = Some cs \<and> hexEq (pk_seedCommit c) cs)"
proof -
  let ?v = "jget result ''evaluationProof''"
  have scores: "jget (jget ?v ''gate'') ''scorePpm'' = JNumber (Finite x)" "jget (jget ?v ''confirm'') ''scorePpm'' = JNumber (Finite y)"
    and commits: "commit_check (jget ?v ''gate'') (jget ctx ''gateSeed'')" "commit_check (jget ?v ''confirm'') (jget ctx ''confirmSeed'')"
    and roots: "same_hex (jget ?v ''corpusRoot'') (JString (ac_corpusRoot active))"
      "same_hex (jget ?v ''coreVersionHash'') (JString (ac_coreVersionHash active))"
      "same_hex (jget ?v ''parentStateRoot'') (JString (ac_parentStateRoot active))"
    using assms(1-3) by (simp_all add: proof_checks_def Let_def ctx_def del: same_hex_text)
  have "hexEq (ep_corpusRoot p) (ac_corpusRoot active)" "hexEq (ep_coreVersionHash p) (ac_coreVersionHash active)"
    "hexEq (ep_parentStateRoot p) (ac_parentStateRoot active)"
    using roots by (auto simp: p_def read_proof_def)
  moreover from commits(1) obtain gs s where gs: "remote_seed_commit (jget ctx ''gateSeed'') = Some gs"
    "jget (jget ?v ''gate'') ''seedCommit'' = JString s" "hexEq s gs" by (rule commit_checked)
  moreover obtain g where g: "read_pack (jget ?v ''gate'') = Some g" "pk_seedCommit g = s" "pk_scorePpm g = num_of (JNumber (Finite x))"
    using gs(2) scores(1) by (rule pack_read)
  moreover from commits(2) obtain cs t where cs: "remote_seed_commit (jget ctx ''confirmSeed'') = Some cs"
    "jget (jget ?v ''confirm'') ''seedCommit'' = JString t" "hexEq t cs" by (rule commit_checked)
  moreover obtain c where c: "read_pack (jget ?v ''confirm'') = Some c" "pk_seedCommit c = t" "pk_scorePpm c = num_of (JNumber (Finite y))"
    using cs(2) scores(2) by (rule pack_read)
  moreover have "ep_gate p = Some g" "ep_confirm p = Some c" using g c by (simp_all add: p_def read_proof_def)
  ultimately show ?thesis using assms(2,3) by (metis (no_types))
qed


section \<open>The claimed gain\<close>

lemma jget_update [simp]:
  "jget (JObject (AList.update k v obj)) k' = (if k' = k then v else jget (JObject obj) k')"
  by (simp add: jget_def update_conv' or_else_def)

text \<open>
  Fact: the gain of a remote result is what the scorer says.  If an answer is accepted then the same
  answer with any other gain is accepted too, with the same report, proof and scores, and goes on
  with that gain: the checks compare it to nothing, though the report fixes it as the smaller score.
\<close>

theorem remote_delta_unchecked:
  assumes "verifyScorerResult ns (JObject obj) job outstanding active health = Scorer_ok res artifact" and "accepted_part res = Some q"
  shows "\<exists>res'. verifyScorerResult ns (JObject (AList.update ''deltaPpm'' (JNumber (Finite d)) obj)) job outstanding active health =
      Scorer_ok res' artifact \<and> accepted_part res' = Some (q\<lparr>ea_deterministicDeltaPpm := js_num.Num d\<rparr>)"
proof -
  let ?r = "JObject (AList.update ''deltaPpm'' (JNumber (Finite d)) obj)"
  note all = assms(1) [unfolded verdict_ok]
  have same: "proof_checks ?r job active = proof_checks (JObject obj) job active"
    "decision_checks ?r job active = decision_checks (JObject obj) job active"
    "artifact_checks ns ?r active = artifact_checks ns (JObject obj) active"
    by (simp_all add: proof_checks_def decision_checks_def artifact_checks_def min_dual_def Let_def cong: sum.case_cong)
  have "list_all fst (schema_checks (JObject obj)) \<Longrightarrow> list_all fst (schema_checks ?r)"
    by (cases "truthy (jget (JObject obj) ''accepted'')") (simp_all add: schema_checks_def)
  then have "list_all fst (verdict_checks ns ?r job outstanding active health)"
    using all by (simp add: verdict_checks_def same)
  moreover have "accepted_part (reconstructed ?r) = Some (q\<lparr>ea_deterministicDeltaPpm := js_num.Num d\<rparr>)"
    using all assms(2) by (auto simp: reconstructed_def Let_def num_of_def split: if_splits)
  ultimately show ?thesis using all by (simp add: verdict_ok)
qed

end
