(* ===== verification/Remote_Faithful.thy ===== *)
theory Remote_Faithful
  imports Remote_Results
begin

text \<open>
  The remote path answers what the local evaluator would: the answer of a scorer that runs the code,
  sent as JSON, is accepted and read back as the result of \<open>scorePatch\<close>.
\<close>

section \<open>Answers on the wire\<close>

text \<open>\<open>JSON.parse(JSON.stringify(v))\<close> for a document: properties that are undefined are dropped, and
  a number that is not finite becomes null.\<close>

fun json_wire :: "js_value \<Rightarrow> js_value" where
  "json_wire (JObject obj) = JObject (map (\<lambda>(k, v). (k, json_wire v)) (filter (\<lambda>(k, v). \<not> is_undefined v) obj))"
| "json_wire (JArray vs) = JArray (map (\<lambda>v. if is_undefined v then JNull else json_wire v) vs)"
| "json_wire (JNumber Not_Finite) = JNull"
| "json_wire v = v"

lemma is_undefined_iff: "is_undefined v \<longleftrightarrow> v = JUndefined"
  by (cases v) auto

lemma wire_undefined [simp]: "json_wire v = JUndefined \<longleftrightarrow> v = JUndefined"
  by (cases v rule: json_wire.cases) auto

lemma wire_object [simp]: "is_object (json_wire v) = is_object v"
  by (cases v rule: json_wire.cases) auto

lemma map_of_wire:
  "map_of (map (\<lambda>(k, v). (k, json_wire v)) (filter (\<lambda>(k, v). \<not> is_undefined v) obj)) k =
    map_option json_wire (map_of (filter (\<lambda>(k, v). \<not> is_undefined v) obj) k)"
  by (induction obj) auto

lemma map_of_defined:
  assumes "distinct (map fst obj)"
  shows "map_of (filter (\<lambda>(k, v). \<not> is_undefined v) obj) k =
    (case map_of obj k of None \<Rightarrow> None | Some v \<Rightarrow> if is_undefined v then None else Some v)"
  using assms
proof (induction obj)
  case (Cons e obj)
  have "map_of (filter (\<lambda>(k, v). \<not> is_undefined v) obj) k = None" if "k = fst e"
  proof -
    have "map_of obj k = None" using Cons.prems that by (simp add: map_of_eq_None_iff)
    then show ?thesis using Cons by simp
  qed
  with Cons show ?case by (cases e) auto
qed simp

lemma jget_wire:
  assumes "distinct (map fst obj)"
  shows "jget (json_wire (JObject obj)) k = json_wire (jget (JObject obj) k)"
proof (cases "map_of obj k")
  case None
  with map_of_defined [OF assms, of k] show ?thesis by (simp add: jget_def map_of_wire or_else_def)
next
  case (Some v)
  with map_of_defined [OF assms, of k] show ?thesis
    by (cases v rule: is_undefined.cases) (simp_all add: jget_def map_of_wire or_else_def)
qed

text \<open>A document hashes to the same on both sides.\<close>

lemma map_res_map: "map_res f (map g xs) = map_res (\<lambda>x. f (g x)) xs"
  by (induction xs) simp_all

lemma map_res_mono:
  "map_res f xs = Inr ys \<Longrightarrow> (\<And>x y. x \<in> set xs \<Longrightarrow> f x = Inr y \<Longrightarrow> g x = Inr y) \<Longrightarrow> map_res g xs = Inr ys"
proof (induction xs arbitrary: ys)
  case (Cons x xs)
  then show ?case by (auto simp: bind_res_eq_Inr)
qed simp

lemma wire_entries:
  "object_entries (map (\<lambda>(k, v). (k, json_wire v)) (filter (\<lambda>(k, v). \<not> is_undefined v) obj)) =
    map (\<lambda>(k, v). (k, json_wire v)) (object_entries obj)"
proof -
  have keep: "filter (\<lambda>(k, v). \<not> is_undefined v) (map (\<lambda>(k, v). (k, json_wire v)) xs) =
      map (\<lambda>(k, v). (k, json_wire v)) (filter (\<lambda>(k, v). \<not> is_undefined v) xs)" for xs :: "(string \<times> js_value) list"
    by (induction xs) (auto simp: is_undefined_iff)
  have sort: "sort_key fst (map (\<lambda>(k, v). (k, json_wire v)) xs) = map (\<lambda>(k, v). (k, json_wire v)) (sort_key fst xs)"
    for xs :: "(string \<times> js_value) list"
  proof -
    have "insort_key fst e (map (\<lambda>(k, v). (k, json_wire v)) ys) = map (\<lambda>(k, v). (k, json_wire v)) (insort_key fst e' ys)"
      if "e = (\<lambda>(k, v). (k, json_wire v)) e'" for e e' and ys :: "(string \<times> js_value) list"
      by (induction ys) (auto simp: that split: prod.splits)
    then show ?thesis by (induction xs) (auto simp del: insort_key.simps)
  qed
  show ?thesis by (simp add: object_entries_def sort keep filter_sort [symmetric])
qed

lemma serialize_wire: "serialize ns safe v = Inr s \<Longrightarrow> serialize ns safe (json_wire v) = Inr s"
proof (induction ns safe v arbitrary: s rule: serialize.induct)
  case (9 ns safe vs)
  have "(if is_undefined (if is_undefined v then JNull else json_wire v) then Inr ''null''
      else serialize ns safe (if is_undefined v then JNull else json_wire v)) = Inr y"
    if "v \<in> set vs" "(if is_undefined v then Inr ''null'' else serialize ns safe v) = Inr y" for v y
    using 9(1) [OF that(1)] that(2) by (auto simp: is_undefined_iff split: if_splits)
  note item = this
  obtain parts where parts: "map_res (\<lambda>v. if is_undefined v then Inr ''null'' else serialize ns safe v) vs = Inr parts"
    "s = ''['' @ json_join parts @ '']''" using 9(2) by (auto simp: map_sum_Inr)
  have "map_res (\<lambda>v. if is_undefined (if is_undefined v then JNull else json_wire v) then Inr ''null''
      else serialize ns safe (if is_undefined v then JNull else json_wire v)) vs = Inr parts"
    by (rule map_res_mono [OF parts(1)]) (rule item)
  with parts(2) show ?case by (simp add: map_res_map)
next
  case (10 ns safe obj)
  from 10(2) obtain parts where parts: "map_res (\<lambda>(k, v). map_sum id (\<lambda>s. json_string k @ '':'' @ s) (serialize ns safe v)) (object_entries obj) = Inr parts"
    "s = braces parts" by (auto simp: map_sum_Inr)
  have "map_res (\<lambda>e. case (\<lambda>(k, v). (k, json_wire v)) e of (k, v) \<Rightarrow> map_sum id (\<lambda>s. json_string k @ '':'' @ s) (serialize ns safe v))
      (object_entries obj) = Inr parts"
    using parts(1)
  proof (rule map_res_mono)
    fix e y assume e: "e \<in> set (object_entries obj)"
      "(case e of (k, v) \<Rightarrow> map_sum id (\<lambda>s. json_string k @ '':'' @ s) (serialize ns safe v)) = Inr y"
    obtain k v where pair: "e = (k, v)" by (rule prod.exhaust)
    then obtain t where v: "e = (k, v)" "serialize ns safe v = Inr t" "y = json_string k @ '':'' @ t"
      using e(2) by (auto simp: map_sum_Inr)
    then have "serialize ns safe (json_wire v) = Inr t" using 10(1) e(1) by auto
    with v show "(case (\<lambda>(k, v). (k, json_wire v)) e of (k, v) \<Rightarrow> map_sum id (\<lambda>s. json_string k @ '':'' @ s) (serialize ns safe v)) = Inr y"
      by simp
  qed
  with parts(2) show ?case by (simp add: wire_entries map_res_map)
qed auto

lemma artifact_hash_wire:
  assumes "hashPostRevealEvalReportArtifact ns (JObject obj) = Inr h"
  shows "hashPostRevealEvalReportArtifact ns (json_wire (JObject obj)) = Inr h"
proof -
  obtain s where s: "serialize ns False (JObject (artifact_payload (JObject obj))) = Inr s" "h = bytesToHex (keccak256 (utf8 s))"
    using assms unfolding hash_text canonicalJson_def by auto
  have "JObject (artifact_payload (json_wire (JObject obj))) = json_wire (JObject (artifact_payload (JObject obj)))"
    by (induction obj) (auto simp: artifact_payload_def)
  with serialize_wire [OF s(1)] have "serialize ns False (JObject (artifact_payload (json_wire (JObject obj)))) = Inr s" by (simp only:)
  with s(2) show ?thesis
    unfolding hash_text by (intro exI [of _ s]) (simp only: canonicalJson_def is_undefined.simps if_False simp_thms)
qed

section \<open>Hexadecimal in either case\<close>

lemma hex_val_plain:
  assumes "hex_val c \<noteq> None"
  shows "\<not> js_white c" and "c \<notin> set ''-+xX''" and "hex_val (to_lower c) = hex_val c"
proof -
  have n: "48 \<le> (of_char c :: nat) \<and> (of_char c :: nat) \<le> 57 \<or> 97 \<le> (of_char c :: nat) \<and> (of_char c :: nat) \<le> 102 \<or>
      65 \<le> (of_char c :: nat) \<and> (of_char c :: nat) \<le> 70"
    using assms by (auto simp: hex_val_def Let_def split: if_splits)
  then show "\<not> js_white c" "c \<notin> set ''-+xX''" by (auto simp: js_white_def)
  show "hex_val (to_lower c) = hex_val c"
    using n by (auto simp: hex_val_def to_lower_def Let_def of_char_of)
qed

lemma parse_hex_digits:
  assumes "list_all (\<lambda>c. hex_val c \<noteq> None) s"
  shows "parse_int_16 s = (if s = [] then None else Some (int (foldl (\<lambda>r c. 16 * r + the (hex_val c)) 0 s)))"
proof (cases s)
  case (Cons c t)
  have c: "\<not> js_white c" "c \<notin> set ''-+''" using assms Cons hex_val_plain [of c] by auto
  have x: "take 2 s \<noteq> ''0x'' \<and> take 2 s \<noteq> ''0X''"
    using assms Cons hex_val_plain(2) by (cases t) auto
  have white: "dropWhile js_white s = s" and signs: "take 1 s \<noteq> ''-''" "take 1 s \<noteq> ''+''"
    using c Cons by auto
  have digits: "takeWhile (\<lambda>c. hex_val c \<noteq> None) s = s" using assms by (simp add: takeWhile_eq_all_conv list_all_iff)
  show ?thesis using x signs by (simp only: parse_int_16_def Let_def white digits if_False simp_thms) simp
qed (simp add: parse_int_16_def)

lemma parse_hex_lower:
  assumes "list_all (\<lambda>c. hex_val c \<noteq> None) s"
  shows "parse_int_16 (map to_lower s) = parse_int_16 s"
proof -
  have low: "list_all (\<lambda>c. hex_val c \<noteq> None) (map to_lower s)" using assms hex_val_plain(3) by (simp add: list_all_iff)
  have "foldl (\<lambda>r c. 16 * r + the (hex_val c)) n (map to_lower s) = foldl (\<lambda>r c. 16 * r + the (hex_val c)) n s" for n
    using assms by (induction s arbitrary: n) (simp_all add: hex_val_plain(3))
  then show ?thesis by (simp add: parse_hex_digits [OF low] parse_hex_digits [OF assms])
qed

lemma bytes_checked_lower:
  assumes "BYTES32_RE s"
  shows "hexToBytes_checked (toLowerCase s) = hexToBytes_checked s"
proof -
  have s: "take 2 s = ''0x''" "list_all (\<lambda>c. hex_val c \<noteq> None) (drop 2 s)" using assms by (simp_all add: BYTES32_RE_def prefixed_hex_def)
  have zx: "map to_lower ''0x'' = ''0x''" by code_simp
  have clean: "clean_hex s = drop 2 s" "clean_hex (toLowerCase s) = map to_lower (drop 2 s)"
    using s zx by (simp_all add: clean_hex_def toLowerCase_def take_map drop_map)
  have low: "list_all (\<lambda>c. hex_val c \<noteq> None) (map to_lower (drop 2 s))" using s(2) hex_val_plain(3) by (simp add: list_all_iff)
  have "parse_int_16 (take 2 (drop (i * 2) (map to_lower (drop 2 s)))) = parse_int_16 (take 2 (drop (i * 2) (drop 2 s)))" for i
    unfolding drop_map take_map
    by (rule parse_hex_lower) (use s(2) in \<open>auto simp: list_all_iff simp del: drop_drop dest!: in_set_takeD dest: in_set_dropD [of _ "i * 2"]\<close>)
  then show ?thesis using s(2) low by (simp add: hexToBytes_checked_def clean Let_def)
qed

section \<open>What a scorer answers\<close>

lemma job_done:
  assumes "handleScoreJob job host w = Some (Inr (Job_done result), w')"
  obtains state pinned res art w0 w1 trace wall tel where
    "checkScorerJobPins job (hd_loadedPins host) = None" "validateJobShape job = None"
    "verifyJobParentState (string_value (jget job ''parentStateRoot'')) (string_value (jget job ''packedParentStateHex'')) = Inr (Inr state)"
    "resolveJobSeedContext job = Inr pinned" "hd_scorePatch host (job_input job state pinned) w0 = Some (Inr (res, art), w1)"
    "result = JObject (base_fields job trace wall tel (hd_scorerHealth host) @ result_fields res art)"
proof -
  have shape: "validateJobShape job = None" and pins: "checkScorerJobPins job (hd_loadedPins host) = None"
    using assms by (auto simp: handleScoreJob_def split: if_splits)
  note run = assms [unfolded handleScoreJob_def shape pins, simplified]
  obtain state where state:
    "verifyJobParentState (string_value (jget job ''parentStateRoot'')) (string_value (jget job ''packedParentStateHex'')) = Inr (Inr state)"
  proof (cases "verifyJobParentState (string_value (jget job ''parentStateRoot'')) (string_value (jget job ''packedParentStateHex''))")
    case (Inr r)
    with run that show ?thesis by (cases r) auto
  qed (use run in auto)
  obtain pinned where pinned: "resolveJobSeedContext job = Inr pinned"
    using run state by (cases "resolveJobSeedContext job") auto
  from run show thesis
    unfolding state pinned io_simps run_job_def
    by (auto simp: bind_io_Inr try_io_Inr case_prod_beta intro!: that [OF pins shape state pinned])
qed

text \<open>An accepted evaluation of a job, with all that the answer is made of.\<close>

lemma job_accepted:
  assumes "scorePatch ns ev input w = Some (Inr (res, art), w')" and "accepts res"
    and "in_seedContext input = Some ctx" and "in_injectedSeeds input = Some (g, c)"
  obtains obj h dual q gc cc bs th adv where "art = Some (JObject obj)" "distinct (map fst obj)"
    "hashPostRevealEvalReportArtifact ns (JObject obj) = Inr h" "BYTES32_RE h" "toLowerCase h = h"
    "\<And>k. k \<notin> {''artifactHash'', ''evalReportHash''} \<Longrightarrow>
      jget (JObject obj) k = jget (JObject (artifact_fields ev input bs th (input_key ev input bs) dual adv)) k"
    "pr_receivedAtBlock dual = sc_receivedAtBlock ctx" "pr_targetBlock dual = sc_targetBlock ctx" "pr_blockhash dual = toLowerCase (sc_blockhash ctx)"
    "pr_gateSeed dual = toLowerCase g" "pr_confirmSeed dual = toLowerCase c"
    "seedCommit (toLowerCase g) = Inr gc" "seedCommit (toLowerCase c) = Inr cc"
    "effective_threshold (ev_deps ev) input = Inr th" "num_ge (pr_gateScorePpm dual) th" "num_ge (pr_confirmScorePpm dual) th"
    "q = \<lparr> ea_deterministicDeltaPpm = num_min (pr_gateScorePpm dual) (pr_confirmScorePpm dual), ea_evalReportHash = h, ea_artifactHash = h,
      ea_evaluationProof = Some (proof_of \<lparr> dp_epochId = ec_epochId (ev_deps ev), dp_receivedAtBlock = sc_receivedAtBlock ctx,
        dp_targetBlock = sc_targetBlock ctx, dp_targetBlockOffset = ec_targetBlockOffset (ev_deps ev),
        dp_blockhash = toLowerCase (sc_blockhash ctx), dp_patchHash = toLowerCase (computePatchHash bs),
        dp_parentStateRoot = toLowerCase (in_parentStateRoot input), dp_corpusRoot = toLowerCase (ec_corpusRoot (ev_deps ev)),
        dp_coreVersionHash = toLowerCase (ec_bundleHash (ev_deps ev)), dp_hiddenSeedCommit = toLowerCase (ev_hiddenSeedCommit ev),
        dp_epochSecretCommit = toLowerCase (ev_hiddenSeedCommit ev),
        dp_gate = \<lparr> pp_seedCommit = gc, pp_scorePpm = pr_gateScorePpm dual \<rparr>,
        dp_confirm = \<lparr> pp_seedCommit = cc, pp_scorePpm = pr_confirmScorePpm dual \<rparr> \<rparr>) \<rparr>"
    "res = Screener_pass q \<or> (\<exists>before rewritten. res = State_advance q before (num_add before (ea_deterministicDeltaPpm q)) (JString rewritten))"
  using assms(1,2)
proof (rule accepted_run)
  fix bs p th w0 parent w1 prior w2 n w3 dual perSeed w4
  assume th: "effective_threshold (ev_deps ev) input = Inr th"
    and run: "runPerPatchEvaluation (dual_request ev input bs) (dual_deps ev input parent th (input_key ev input bs) prior n) ([], w3) =
      Some (Inr dual, perSeed, w4)" and dual: "pr_accepted dual"
    and concl: "conclude_acceptance ns ev input bs p th (input_key ev input bs) dual perSeed w4 = Some (Inr (res, art), w')"
  note facts = dual_accepted [OF run dual dual_deps_simps(1)]
  have ctx: "pd_seedContext (dual_deps ev input parent th (input_key ev input bs) prior n) = Some (ctx\<lparr>sc_blockhash := toLowerCase (sc_blockhash ctx)\<rparr>)"
    using assms(3) by (simp add: dual_deps_def pinned_context_def Let_def)
  note drawn = facts(7) [OF ctx]
  note passed = accepted_facts [OF run facts(1), unfolded dual_deps_simps]
  have seeds: "pr_gateSeed dual = toLowerCase g" "pr_confirmSeed dual = toLowerCase c"
    using passed assms(4) by (auto simp: derive_seeds_def split: if_splits)
  from concl show thesis
  proof (rule conclude_accepts)
    fix chosen a dp
    let ?min = "num_min (pr_gateScorePpm dual) (pr_confirmScorePpm dual)"
    let ?adv = "num_ge ?min (ec_stateThresholdPpm (ev_deps ev)) \<and> pe_accepted chosen"
    assume made: "buildPostRevealEvalReportArtifact ns (artifact_fields ev input bs th (input_key ev input bs) dual ?adv) = Inr a"
      and art: "art = Some a"
      and dp: "dualPackProofFromPerPatchReceipt dual (ec_corpusRoot (ev_deps ev)) (ec_bundleHash (ev_deps ev)) (ev_hiddenSeedCommit ev)
        (ec_targetBlockOffset (ev_deps ev)) = Inr dp"
      and res: "res = Screener_pass (accepted_result ?min a dp) \<or>
        (\<exists>delta rewritten. num_ge ?min (ec_stateThresholdPpm (ev_deps ev)) \<and>
          bigint_of ?min = Inr delta \<and> encodePatch (p\<lparr>scoreDelta := delta\<rparr>) = Inr rewritten \<and>
          res = State_advance (accepted_result ?min a dp) (ppm (pe_beforeComposite chosen)) (num_add (ppm (pe_beforeComposite chosen)) ?min)
            (JString (bytesToHex rewritten)))"
    obtain gc cc where commits: "seedCommit (pr_gateSeed dual) = Inr gc" "seedCommit (pr_confirmSeed dual) = Inr cc"
      using dp by (auto simp: dualPackProofFromPerPatchReceipt_def bind_res_eq_Inr split: if_splits)
    obtain obj where obj: "a = JObject obj" "distinct (map fst obj)"
      using made by (auto simp: buildPostRevealEvalReportArtifact_def map_sum_Inr artifact_fields_def Let_def intro!: distinct_update)
    from made obtain h where h: "hashPostRevealEvalReportArtifact ns a = Inr h" "jget a ''artifactHash'' = JString h"
        "jget a ''evalReportHash'' = JString h" "toLowerCase h = h" "BYTES32_RE h"
      and fields: "\<And>k. k \<notin> {''artifactHash'', ''evalReportHash''} \<Longrightarrow>
        jget a k = jget (JObject (artifact_fields ev input bs th (input_key ev input bs) dual ?adv)) k"
      by (rule built) blast
    show thesis
      by (rule that [of obj h bs th dual ?adv gc cc "accepted_result ?min a dp"])
        (use art obj h fields drawn seeds commits th passed res dp facts in
          \<open>auto simp: accepted_result_def dualPackProofFromPerPatchReceipt_def\<close>)
  qed
qed

text \<open>Reading the answer.\<close>

lemma answer_keys: "distinct (map fst (base_fields job trace wall tel health @ result_fields res art))"
  by (cases res; cases art)
    (simp_all add: base_fields_def result_fields_def accepted_fields_def field_if_def split: option.split)

lemmas answer_get = jget_wire [OF answer_keys]

lemma answer_base:
  fixes job trace wall tel health res art
  defines "answer \<equiv> json_wire (JObject (base_fields job trace wall tel health @ result_fields res art))"
  shows "is_object answer" and "jget answer ''jobId'' = json_wire (jget job ''jobId'')"
    and "jget answer ''thresholdPpmUsed'' = json_wire (jget job ''thresholdPpm'')"
    and "jget answer ''policyHash'' = JString (toLowerCase (string_value (jget job ''policyHash'')))"
    and "jget answer ''pairTraceHash'' = JString (ts_pairTraceHash trace)" and "jget answer ''scoreArrayHash'' = JString (ts_scoreArrayHash trace)"
    and "jget answer ''scorerHealth'' = json_wire health" and "jget answer ''accepted'' = JBool (accepts res)"
  unfolding answer_def answer_get
  by (simp_all add: jget_def base_fields_def or_else_def, cases res)
    (simp_all add: result_fields_def accepted_fields_def accepts_def)

lemma answer_accepted:
  fixes job trace wall tel health res a
  defines "answer \<equiv> json_wire (JObject (base_fields job trace wall tel health @ result_fields res (Some a)))"
  assumes "accepted_part res = Some q" and "ea_evaluationProof q = Some p" and "ep_gate p = Some g" and "ep_confirm p = Some c"
  shows "jget answer ''deltaPpm'' = json_wire (num_json (ea_deterministicDeltaPpm q))"
    and "jget answer ''gateScorePpm'' = json_wire (num_json (pk_scorePpm g))" and "jget answer ''confirmScorePpm'' = json_wire (num_json (pk_scorePpm c))"
    and "jget answer ''evalReportHash'' = JString (ea_evalReportHash q)" and "jget answer ''artifactHash'' = JString (ea_artifactHash q)"
    and "jget answer ''artifact'' = json_wire a" and "jget answer ''evaluationProof'' = json_wire (proof_value p)"
    and "res = Screener_pass q \<Longrightarrow> jget answer ''scoreBeforePpm'' = JNull"
    and "res = State_advance q before after rewritten \<Longrightarrow> jget answer ''scoreBeforePpm'' = json_wire (num_json before) \<and>
      jget answer ''scoreAfterPpm'' = json_wire (num_json after) \<and> jget answer ''rewrittenPatchBytesHex'' = json_wire rewritten"
  using assms(2-) unfolding answer_def answer_get
  by (cases res; simp add: jget_def base_fields_def result_fields_def accepted_fields_def field_if_def or_else_def proof_score_def)+

lemma num_of_wire [simp]: "num_of (json_wire (num_json n)) = n"
  by (cases n) (simp_all add: num_json_def num_of_def)

lemma proof_get: "jget (json_wire (proof_value p)) k = json_wire (jget (proof_value p) k)"
  unfolding proof_value_def by (rule jget_wire) simp

lemma pack_get: "jget (json_wire (pack_value p)) k = json_wire (jget (pack_value p) k)"
  unfolding pack_value_def by (rule jget_wire) simp

lemma truthy_wire [simp]: "truthy (json_wire (proof_value p))" "truthy (json_wire (pack_value g))"
  by (simp_all add: proof_value_def pack_value_def)

lemma read_pack_wire: "read_pack (json_wire (pack_value g)) = Some g"
  by (cases g) (simp add: read_pack_def pack_get, simp add: pack_value_def jget_def or_else_def)

lemma read_proof_wire:
  assumes "ep_gate p = Some g" and "ep_confirm p = Some c"
  shows "read_proof (json_wire (proof_value p)) = p"
  using assms
  by (cases p) (simp add: read_proof_def proof_get, simp add: proof_value_def optional_pack_def jget_def or_else_def read_pack_wire)

end
