(* ===== verification/Remote_Agree.thy ===== *)
theory Remote_Agree
  imports Remote_Faithful
begin

text \<open>
  The composition: \<open>handleScoreJob\<close> around \<open>scorePatch\<close> on one host, \<open>verifyScorerResult\<close> on the
  other.
\<close>

section \<open>What a job fixes\<close>

declare json_wire.simps(1) [simp del]

lemma job_shape:
  assumes "validateJobShape job = None"
  obtains i r pol th where "jget job ''jobId'' = JString i" "jget job ''parentStateRoot'' = JString r" "BYTES32_RE r"
    "jget job ''policyHash'' = JString pol" "BYTES32_RE pol" "jget job ''thresholdPpm'' = JNumber (Finite th)" "safe_integer th" "0 \<le> th"
proof -
  have checks: "string_with (\<lambda>s. s \<noteq> '''') (jget job ''jobId'')" "string_with BYTES32_RE (jget job ''parentStateRoot'')"
    "string_with BYTES32_RE (jget job ''policyHash'')" "safe_count (jget job ''thresholdPpm'')"
    using assms unfolding validateJobShape_def first_failure_None by (simp_all add: job_checks_def bytes32_checks_def)
  then obtain th where "jget job ''thresholdPpm'' = JNumber (Finite th)" "safe_integer th" "0 \<le> th"
    by (metis safe_count.elims(2))
  with checks show thesis by (auto simp: string_with_iff intro: that)
qed

lemma job_pins:
  assumes "checkScorerJobPins job loaded = None"
  shows "same_hex (jget job ''corpusRoot'') (JString (lp_corpusRoot loaded))"
    and "same_hex (jget job ''coreVersionHash'') (JString (lp_coreVersionHash loaded))"
  using assms unfolding checkScorerJobPins_def first_failure_None by (simp_all add: pin_checks_def Let_def del: same_hex_text)

lemma job_seeds:
  assumes "resolveJobSeedContext job = Inr pinned"
  obtains n m g c where "jget (jget job ''publicEvalContext'') ''gateSeed'' = JString g" "BYTES32_RE g"
    "jget (jget job ''publicEvalContext'') ''confirmSeed'' = JString c" "BYTES32_RE c"
    "sc_receivedAtBlock (fst pinned) = js_num.Num n" "sc_targetBlock (fst pinned) = js_num.Num m"
    "toLowerCase (sc_blockhash (fst pinned)) = sc_blockhash (fst pinned)" "snd pinned = (toLowerCase g, toLowerCase c)"
proof -
  let ?ctx = "jget job ''publicEvalContext''"
  have ok: "first_failure (seed_context_checks ?ctx) = None"
    using assms by (auto simp: resolveJobSeedContext_def Let_def split: option.splits)
  then have checks: "safe_positive (jget ?ctx ''receivedAtBlock'')" "safe_positive (jget ?ctx ''targetBlock'')"
    "string_with BYTES32_RE (jget ?ctx ''gateSeed'')" "string_with BYTES32_RE (jget ?ctx ''confirmSeed'')"
    unfolding first_failure_None by (simp_all add: seed_context_checks_def)
  obtain n m where "jget ?ctx ''receivedAtBlock'' = JNumber (Finite n)" "jget ?ctx ''targetBlock'' = JNumber (Finite m)"
    using checks(1,2) by (metis safe_positive.elims(2))
  then show thesis
    using assms ok checks(3,4) by (auto simp: resolveJobSeedContext_def Let_def string_with_iff num_of_def intro: that)
qed

lemma commit_sent:
  assumes "BYTES32_RE s" and "seedCommit (toLowerCase s) = Inr c" and "jget p ''seedCommit'' = JString c"
  shows "commit_check p (JString s)"
  using assms by (auto simp: commit_check_def remote_seed_commit_def seedCommit_def bytes_checked_lower bind_res_eq_Inr hexEq_def
    split: sum.splits)

text \<open>Both sides name a root in the case that they were given it in.\<close>

lemma same_root:
  "same_hex v (JString s) \<Longrightarrow> same_hex v (JString t) \<Longrightarrow> hexEq s t"
  by (auto simp: hexEq_def)

lemma num_min_ge: "num_ge a (js_num.Num t) \<Longrightarrow> num_ge b (js_num.Num t) \<Longrightarrow> \<exists>x y. a = js_num.Num x \<and> b = js_num.Num y \<and> t \<le> x \<and> t \<le> y"
  by (cases a; cases b) auto

lemma artifact_echo:
  assumes "distinct (map fst obj)" and "\<And>k. k \<notin> {''artifactHash'', ''evalReportHash''} \<Longrightarrow>
      jget (JObject obj) k = jget (JObject (artifact_fields ev input bs th key dual adv)) k"
    and "pr_receivedAtBlock dual = js_num.Num n" and "pr_targetBlock dual = js_num.Num m"
    and "sc_receivedAtBlock ctx = js_num.Num n" and "sc_targetBlock ctx = js_num.Num m" and "hexEq (pr_blockhash dual) (sc_blockhash ctx)"
    and "hexEq (pr_gateSeed dual) g" and "hexEq (pr_confirmSeed dual) c"
  shows "checkArtifactSeedEcho (json_wire (JObject obj)) ctx (Some (g, c)) = None"
proof -
  have sd: "jget (json_wire (JObject obj)) ''seedDerivation'' = json_wire (seed_derivation_value (ev_deps ev) key dual)"
    and receipt: "jget (json_wire (JObject obj)) ''receipt'' = json_wire (receipt_value dual)"
    by (simp_all only: jget_wire [OF assms(1)], simp_all add: assms(2) report_simps)
  have sd_get: "jget (json_wire (seed_derivation_value (ev_deps ev) key dual)) k = json_wire (jget (seed_derivation_value (ev_deps ev) key dual) k)" for k
    unfolding seed_derivation_value_def by (rule jget_wire) simp
  have receipt_get: "jget (json_wire (receipt_value dual)) k = json_wire (jget (receipt_value dual) k)" for k
    unfolding receipt_value_def by (rule jget_wire) simp
  show ?thesis
    using assms(3-) unfolding checkArtifactSeedEcho_def first_failure_None
    by (simp add: echo_checks_def seed_echo_checks_def Let_def sd receipt sd_get receipt_get report_simps same_block_def num_json_def)
qed

lemma artifact_named:
  assumes "distinct (map fst obj)" and "\<And>k. k \<notin> {''artifactHash'', ''evalReportHash''} \<Longrightarrow>
      jget (JObject obj) k = jget (JObject (artifact_fields ev input bs th key dual adv)) k"
    and "hashPostRevealEvalReportArtifact ns (JObject obj) = Inr h"
    and "jget answer ''artifact'' = json_wire (JObject obj)" and "jget answer ''artifactHash'' = JString h" and "jget answer ''evalReportHash'' = JString h"
    and "hexEq (dk_parentStateRoot key) (ac_parentStateRoot active)" and "hexEq (ec_corpusRoot (ev_deps ev)) (ac_corpusRoot active)"
    and "hexEq (ec_bundleHash (ev_deps ev)) (ac_coreVersionHash active)"
  shows "list_all fst (artifact_checks ns answer active)"
proof -
  have ctx: "jget (json_wire (JObject obj)) ''context'' = json_wire (jget (JObject (artifact_fields ev input bs th key dual adv)) ''context'')"
    by (simp only: jget_wire [OF assms(1)], simp add: assms(2))
  obtain cf where cf: "jget (JObject (artifact_fields ev input bs th key dual adv)) ''context'' = JObject cf" "distinct (map fst cf)"
    by (simp add: artifact_fields_def jget_def or_else_def Let_def)
  have ctx_get: "jget (json_wire (jget (JObject (artifact_fields ev input bs th key dual adv)) ''context'')) k =
      json_wire (jget (jget (JObject (artifact_fields ev input bs th key dual adv)) ''context'') k)" for k
    unfolding cf(1) by (rule jget_wire [OF cf(2)])
  show ?thesis
    using assms(4-) artifact_hash_wire [OF assms(3)]
    by (simp add: artifact_checks_def Let_def ctx ctx_get report_simps)
qed

lemma proof_sent:
  assumes "jget answer ''evaluationProof'' = json_wire (proof_value p)" and "ep_gate p = Some g" and "ep_confirm p = Some c"
    and "jget answer ''gateScorePpm'' = json_wire (num_json (pk_scorePpm g))" and "jget answer ''confirmScorePpm'' = json_wire (num_json (pk_scorePpm c))"
    and "pk_scorePpm g = js_num.Num x" and "pk_scorePpm c = js_num.Num y"
    and "jget (jget job ''publicEvalContext'') ''gateSeed'' = JString gs" and "BYTES32_RE gs" and "seedCommit (toLowerCase gs) = Inr (pk_seedCommit g)"
    and "jget (jget job ''publicEvalContext'') ''confirmSeed'' = JString cs" and "BYTES32_RE cs" and "seedCommit (toLowerCase cs) = Inr (pk_seedCommit c)"
    and "hexEq (ep_corpusRoot p) (ac_corpusRoot active)" and "hexEq (ep_coreVersionHash p) (ac_coreVersionHash active)"
    and "hexEq (ep_parentStateRoot p) (ac_parentStateRoot active)"
  shows "list_all fst (proof_checks answer job active)"
proof -
  let ?v = "jget answer ''evaluationProof''"
  have packs: "jget ?v ''gate'' = json_wire (pack_value g)" "jget ?v ''confirm'' = json_wire (pack_value c)"
    by (simp_all add: assms(1) proof_get, simp_all add: proof_value_def optional_pack_def jget_def or_else_def assms(2,3))
  have roots: "jget ?v ''corpusRoot'' = JString (ep_corpusRoot p)" "jget ?v ''coreVersionHash'' = JString (ep_coreVersionHash p)"
    "jget ?v ''parentStateRoot'' = JString (ep_parentStateRoot p)"
    by (simp_all add: assms(1) proof_get, simp_all add: proof_value_def jget_def or_else_def)
  have fields: "jget (jget ?v ''gate'') ''seedCommit'' = JString (pk_seedCommit g)" "jget (jget ?v ''confirm'') ''seedCommit'' = JString (pk_seedCommit c)"
    "jget (jget ?v ''gate'') ''scorePpm'' = JNumber (Finite x)" "jget (jget ?v ''confirm'') ''scorePpm'' = JNumber (Finite y)"
    using assms(6,7) unfolding packs pack_get by (simp_all add: pack_value_def jget_def or_else_def num_json_def)
  have commits: "commit_check (jget ?v ''gate'') (JString gs)" "commit_check (jget ?v ''confirm'') (JString cs)"
    using commit_sent [OF assms(9,10) fields(1)] commit_sent [OF assms(12,13) fields(2)] by blast+
  have tops: "jget answer ''gateScorePpm'' = JNumber (Finite x)" "jget answer ''confirmScorePpm'' = JNumber (Finite y)"
    using assms(4-7) by (simp_all add: num_json_def)
  show ?thesis
    unfolding proof_checks_def Let_def roots fields(3,4) tops assms(8,11)
    using commits assms(14-) by simp
qed

section \<open>The answer read back\<close>

lemma result_read:
  assumes "ea_evaluationProof q = Some p" and "ep_gate p = Some g" and "ep_confirm p = Some c"
    and "answer = json_wire (JObject (base_fields job trace wall tel health @ result_fields res (Some a)))"
    and "res = Screener_pass q \<or> (\<exists>before rewritten. res = State_advance q before (num_add before (ea_deterministicDeltaPpm q)) (JString rewritten))"
    and "ea_deterministicDeltaPpm q = js_num.Num d"
    and "jget answer ''rewrittenPatchBytesHex'' = JUndefined \<or> jget answer ''scoreBeforePpm'' \<noteq> JNull"
  shows "reconstructed answer = res"
proof -
  have q: "accepted_part res = Some q" using assms(5) by auto
  note fields = answer_accepted [OF q assms(1-3), where job = job and trace = trace and wall = wall and tel = tel and health = health and a = a, folded assms(4)]
  note read = fields(1,4,5,7) read_proof_wire [OF assms(2,3)]
  from assms(5) show ?thesis
  proof (elim disjE exE)
    assume r: "res = Screener_pass q"
    show ?thesis using fields(8) r assms(1) by (cases q) (simp add: reconstructed_def read Let_def)
  next
    fix before rewritten
    assume r: "res = State_advance q before (num_add before (ea_deterministicDeltaPpm q)) (JString rewritten)"
    note adv = fields(9) [OF r]
    obtain b where b: "before = js_num.Num b"
      using adv assms(7) by (cases before) (auto simp: num_json_def)
    show ?thesis using adv assms(1,6) b r
      by (cases q) (simp add: reconstructed_def read Let_def, simp add: num_json_def num_of_def)
  qed
qed

lemma remote_agrees:
  assumes "hd_scorePatch host = scorePatch ns ev" and "lp_corpusRoot (hd_loadedPins host) = ec_corpusRoot (ev_deps ev)"
    and "lp_coreVersionHash (hd_loadedPins host) = ec_bundleHash (ev_deps ev)"
    and "handleScoreJob job host w = Some (Inr (Job_done result), w')" and "answer = json_wire result"
    and "truthy (jget answer ''accepted'')"
    and "list_all fst (context_checks job active)" and "list_all fst (health_checks (json_wire (hd_scorerHealth host)) expected)"
    and "string_value (jget job ''jobId'') \<in> set outstanding" and "jget job ''thresholdPpm'' = JNumber (Finite (ac_thresholdPpm active))"
    and "safe_int (jget answer ''gateScorePpm'')" and "safe_int (jget answer ''confirmScorePpm'')"
    and "jget answer ''rewrittenPatchBytesHex'' = JUndefined \<or> jget answer ''scoreBeforePpm'' \<noteq> JNull"
  shows "\<exists>state pinned res a w0 w1.
    verifyJobParentState (string_value (jget job ''parentStateRoot'')) (string_value (jget job ''packedParentStateHex'')) = Inr (Inr state) \<and>
    resolveJobSeedContext job = Inr pinned \<and>
    scorePatch ns ev (job_input job state pinned) w0 = Some (Inr (res, Some a), w1) \<and>
    verifyScorerResult ns answer job outstanding active expected = Scorer_ok res (json_wire a) \<and>
    checkArtifactSeedEcho (json_wire a) (fst pinned) (Some (snd pinned)) = None"
  using assms(4)
proof (rule job_done)
  fix state pinned res art w0 w1 trace wall tel
  assume pins: "checkScorerJobPins job (hd_loadedPins host) = None" and shape: "validateJobShape job = None"
    and state: "verifyJobParentState (string_value (jget job ''parentStateRoot'')) (string_value (jget job ''packedParentStateHex'')) = Inr (Inr state)"
    and pinned: "resolveJobSeedContext job = Inr pinned"
    and run: "hd_scorePatch host (job_input job state pinned) w0 = Some (Inr (res, art), w1)"
    and made: "result = JObject (base_fields job trace wall tel (hd_scorerHealth host) @ result_fields res art)"
  have answer: "answer = json_wire (JObject (base_fields job trace wall tel (hd_scorerHealth host) @ result_fields res art))"
    using assms(5) made by simp
  note base = answer_base [of job trace wall tel "hd_scorerHealth host" res art, folded answer]
  let ?input = "job_input job state pinned"
  have acc: "accepts res" using assms(6) by (simp add: base(8))
  have score: "scorePatch ns ev ?input w0 = Some (Inr (res, art), w1)" using run assms(1) by simp
  obtain i r pol th where job: "jget job ''jobId'' = JString i" "jget job ''parentStateRoot'' = JString r" "BYTES32_RE r"
    "jget job ''policyHash'' = JString pol" "BYTES32_RE pol" "jget job ''thresholdPpm'' = JNumber (Finite th)" "safe_integer th" "0 \<le> th"
    using shape by (rule job_shape)
  have th: "th = ac_thresholdPpm active" using job(6) assms(10) by simp
  obtain n m g c where seeds: "jget (jget job ''publicEvalContext'') ''gateSeed'' = JString g" "BYTES32_RE g"
    "jget (jget job ''publicEvalContext'') ''confirmSeed'' = JString c" "BYTES32_RE c"
    "sc_receivedAtBlock (fst pinned) = js_num.Num n" "sc_targetBlock (fst pinned) = js_num.Num m"
    "toLowerCase (sc_blockhash (fst pinned)) = sc_blockhash (fst pinned)" "snd pinned = (toLowerCase g, toLowerCase c)"
    using pinned by (rule job_seeds)
  have input: "in_seedContext ?input = Some (fst pinned)" "in_injectedSeeds ?input = Some (toLowerCase g, toLowerCase c)"
    "in_parentStateRoot ?input = r" "in_screenerThresholdPpm ?input = Some (js_num.Num th)"
    by (simp_all add: job_input_def seeds(8) job num_of_def)
  have roots: "hexEq (ec_corpusRoot (ev_deps ev)) (ac_corpusRoot active)" "hexEq (ec_bundleHash (ev_deps ev)) (ac_coreVersionHash active)"
    "hexEq r (ac_parentStateRoot active)"
    using job_pins [OF pins, unfolded assms(2,3)] assms(7) job(2)
    by (auto simp: context_checks_def intro: same_root simp del: same_hex_text dest: same_hex_text [THEN iffD1])
  from score acc input(1,2) show ?thesis
  proof (rule job_accepted)
    fix obj h dual q gc cc bs th' adv
    let ?a = "JObject obj"
    assume art: "art = Some ?a" and obj: "distinct (map fst obj)"
      and hash: "hashPostRevealEvalReportArtifact ns ?a = Inr h" "BYTES32_RE h" "toLowerCase h = h"
      and fields: "\<And>k. k \<notin> {''artifactHash'', ''evalReportHash''} \<Longrightarrow>
        jget ?a k = jget (JObject (artifact_fields ev ?input bs th' (input_key ev ?input bs) dual adv)) k"
      and drawn: "pr_receivedAtBlock dual = sc_receivedAtBlock (fst pinned)" "pr_targetBlock dual = sc_targetBlock (fst pinned)"
        "pr_blockhash dual = toLowerCase (sc_blockhash (fst pinned))"
      and used: "pr_gateSeed dual = toLowerCase (toLowerCase g)" "pr_confirmSeed dual = toLowerCase (toLowerCase c)"
      and commits: "seedCommit (toLowerCase (toLowerCase g)) = Inr gc" "seedCommit (toLowerCase (toLowerCase c)) = Inr cc"
      and eff: "effective_threshold (ev_deps ev) ?input = Inr th'" and clear: "num_ge (pr_gateScorePpm dual) th'" "num_ge (pr_confirmScorePpm dual) th'"
      and q: "q = \<lparr> ea_deterministicDeltaPpm = num_min (pr_gateScorePpm dual) (pr_confirmScorePpm dual), ea_evalReportHash = h, ea_artifactHash = h,
        ea_evaluationProof = Some (proof_of \<lparr> dp_epochId = ec_epochId (ev_deps ev), dp_receivedAtBlock = sc_receivedAtBlock (fst pinned),
          dp_targetBlock = sc_targetBlock (fst pinned), dp_targetBlockOffset = ec_targetBlockOffset (ev_deps ev),
          dp_blockhash = toLowerCase (sc_blockhash (fst pinned)), dp_patchHash = toLowerCase (computePatchHash bs),
          dp_parentStateRoot = toLowerCase (in_parentStateRoot ?input), dp_corpusRoot = toLowerCase (ec_corpusRoot (ev_deps ev)),
          dp_coreVersionHash = toLowerCase (ec_bundleHash (ev_deps ev)), dp_hiddenSeedCommit = toLowerCase (ev_hiddenSeedCommit ev),
          dp_epochSecretCommit = toLowerCase (ev_hiddenSeedCommit ev),
          dp_gate = \<lparr> pp_seedCommit = gc, pp_scorePpm = pr_gateScorePpm dual \<rparr>,
          dp_confirm = \<lparr> pp_seedCommit = cc, pp_scorePpm = pr_confirmScorePpm dual \<rparr> \<rparr>) \<rparr>"
      and res: "res = Screener_pass q \<or> (\<exists>before rewritten. res = State_advance q before (num_add before (ea_deterministicDeltaPpm q)) (JString rewritten))"
    have "th' = js_num.Num th" using eff input(4) by (auto simp: effective_threshold_def or_else_def Let_def split: if_splits)
    then obtain x y where xy: "pr_gateScorePpm dual = js_num.Num x" "pr_confirmScorePpm dual = js_num.Num y" "th \<le> x" "th \<le> y"
      using num_min_ge clear by blast
    define p where "p = the (ea_evaluationProof q)"
    define gp where "gp = \<lparr> pk_domain = ''gate'', pk_seedCommit = gc, pk_accepted = True, pk_scorePpm = js_num.Num x \<rparr>"
    define cp where "cp = \<lparr> pk_domain = ''confirm'', pk_seedCommit = cc, pk_accepted = True, pk_scorePpm = js_num.Num y \<rparr>"
    have p: "ea_evaluationProof q = Some p" "ep_gate p = Some gp" "ep_confirm p = Some cp"
      "ep_corpusRoot p = toLowerCase (ec_corpusRoot (ev_deps ev))" "ep_coreVersionHash p = toLowerCase (ec_bundleHash (ev_deps ev))"
      "ep_parentStateRoot p = toLowerCase r" "ep_kind p = ''coretex-dual-pack-v1''"
      by (simp_all add: p_def q proof_of_def gp_def cp_def xy input(3))
    have accepted: "accepted_part res = Some q" using res by auto
    note read = answer_accepted [OF accepted p(1-3), where job = job and trace = trace and wall = wall and tel = tel
        and health = "hd_scorerHealth host" and a = ?a, folded art, folded answer]
    have read_back: "reconstructed answer = res"
      by (rule result_read [OF p(1-3) answer [unfolded art] res _ assms(13)]) (simp add: q xy)
    have "jget (json_wire (hd_scorerHealth host)) ''modelId'' = JString (eh_modelId expected)"
      using assms(8) by (simp add: health_checks_def)
    then have "is_object (json_wire (hd_scorerHealth host))"
      by (cases "json_wire (hd_scorerHealth host)") (simp_all add: jget_def)
    then have health: "is_object (hd_scorerHealth host)" by simp
    have schema: "list_all fst (schema_checks answer)"
      using assms(11,12) health job hash(2) p(7) BYTES32_lower [OF job(5)]
      by (simp add: schema_checks_def base read acc q xy num_json_def safe_integer_def proof_get)
        (simp add: proof_value_def jget_def or_else_def)
    have sent: "list_all fst (proof_checks answer job active)"
      by (rule proof_sent [OF read(7) p(2,3) read(2,3) _ _ seeds(1,2) _ seeds(3,4)])
        (use commits roots in \<open>simp_all add: gp_def cp_def p\<close>)
    have named: "list_all fst (artifact_checks ns answer active)"
      by (rule artifact_named [OF obj fields hash(1) read(6) _ _ _ roots(1,2)])
        (use read(4,5) roots(3) in \<open>simp_all add: q input_key_def input(3)\<close>)
    have decided: "list_all fst (decision_checks answer job active)"
      using job xy(3,4) th by (simp add: decision_checks_def base acc read min_dual_def gp_def cp_def num_json_def hexEq_def same_hex_def)
    have "list_all fst (verdict_checks ns answer job outstanding active expected)"
      using schema sent named decided assms(7-9) job(1) by (simp add: verdict_checks_def base string_with_iff)
    then have ok: "verifyScorerResult ns answer job outstanding active expected = Scorer_ok res (json_wire ?a)"
      by (simp add: verdict_ok read_back read(6))
    have echo: "checkArtifactSeedEcho (json_wire ?a) (fst pinned) (Some (snd pinned)) = None"
      unfolding seeds(8) by (rule artifact_echo [OF obj fields]) (use drawn used seeds in \<open>simp_all add: hexEq_def\<close>)
    show ?thesis using state pinned score art ok echo by blast
  qed
qed

text \<open>
  C16: the remote path gives the coordinator what the local evaluator would.  When the host of a
  scorer answers a job with an acceptance, the answer sent as JSON passes all checks of the
  coordinator and is read back as exactly the result, scores, proof and report that
  \<open>scorePatch\<close> returned for the patch, the miner and the threshold of the job, on the state that the job's
  bytes unpack to and with the seeds that the coordinator drew; and the report echoes these seeds.
  The two hosts run the same pins, and scores are integers.
\<close>

theorem remote_scorer_faithful:
  assumes "createCoreTexEvaluatorCore deps = Inr ev" and "hd_scorePatch host = scorePatch ns ev"
    and "lp_corpusRoot (hd_loadedPins host) = ec_corpusRoot deps" and "lp_coreVersionHash (hd_loadedPins host) = ec_bundleHash deps"
    and "handleScoreJob job host w = Some (Inr (Job_done result), w')" and "answer = json_wire result"
    and "truthy (jget answer ''accepted'')"
    and "list_all fst (context_checks job active)" and "list_all fst (health_checks (json_wire (hd_scorerHealth host)) expected)"
    and "string_value (jget job ''jobId'') \<in> set outstanding" and "jget job ''thresholdPpm'' = JNumber (Finite (ac_thresholdPpm active))"
    and "safe_int (jget answer ''gateScorePpm'')" and "safe_int (jget answer ''confirmScorePpm'')"
    and "jget answer ''rewrittenPatchBytesHex'' = JUndefined \<or> jget answer ''scoreBeforePpm'' \<noteq> JNull"
  shows "\<exists>state pinned res a w0 w1.
    verifyJobParentState (string_value (jget job ''parentStateRoot'')) (string_value (jget job ''packedParentStateHex'')) = Inr (Inr state) \<and>
    resolveJobSeedContext job = Inr pinned \<and>
    scorePatch ns ev (job_input job state pinned) w0 = Some (Inr (res, Some a), w1) \<and>
    verifyScorerResult ns answer job outstanding active expected = Scorer_ok res (json_wire a) \<and>
    checkArtifactSeedEcho (json_wire a) (fst pinned) (Some (snd pinned)) = None"
  using assms(2) assms(3-4) [folded evaluator_made(1) [OF assms(1)]] assms(5-) by (rule remote_agrees)

end
