(* ===== verification/Remote_Sample.thy ===== *)
theory Remote_Sample
  imports Remote_Agree Evaluator_Sample
begin

text \<open>
  A job on concrete data, for the witnesses: the scorer's host runs it and the coordinator checks
  the answer.
\<close>

section \<open>The job\<close>

text \<open>The substrate of the job is the packed zero state.\<close>

definition packed_zero :: bytes where
  "packed_zero = projr (pack zero_state)"

definition sample_job :: js_value where
  "sample_job = JObject
     [(''jobId'', JString ''job''), (''epochId'', JNumber (Finite 7)), (''parentStateRoot'', JString sample_root),
      (''patchHash'', JString sample_hash), (''corpusRoot'', JString sample_hash), (''bundleHash'', JString sample_hash),
      (''coreVersionHash'', JString sample_hash), (''compactPatchBytesHex'', JString (bytesToHex patch_bytes)),
      (''packedParentStateHex'', JString (bytesToHex packed_zero)), (''miner'', JString sample_addr),
      (''thresholdPpm'', JNumber (Finite 1500)), (''policyHash'', JString sample_hash),
      (''expectedScorerPins'', JObject [(''modelId'', JString ''m''), (''revision'', JString ''r''),
         (''promptTemplateHash'', JString sample_hash), (''bundleHash'', JString sample_hash), (''corpusRoot'', JString sample_hash)]),
      (''publicEvalContext'', JObject [(''receivedAtBlock'', JNumber (Finite 100)), (''targetBlock'', JNumber (Finite 130)),
         (''blockhash'', JString sample_hash), (''gateSeed'', JString sample_hash), (''confirmSeed'', JString sample_hash)])]"

definition sample_scorer :: "(memory_store \<times> unit) handler_deps" where
  "sample_scorer =
     \<lparr> hd_scorePatch = scorePatch sample_numbers sample_evaluator, hd_resetTrace = return_io (),
       hd_traceSnapshot = return_io \<lparr> ts_totalScoredPairCount = js_num.Num 2, ts_pairTraceHash = sample_hash, ts_scoreArrayHash = sample_hash \<rparr>,
       hd_loadedPins = \<lparr> lp_modelId = ''m'', lp_revision = ''r'', lp_promptTemplateHash = sample_hash, lp_bundleHash = sample_hash,
         lp_corpusRoot = sample_hash, lp_coreVersionHash = sample_hash, lp_hiddenSeedCommit = None \<rparr>,
       hd_scorerHealth = JObject [(''modelId'', JString ''m''), (''revision'', JString ''r''), (''promptTemplateHash'', JString sample_hash),
         (''dtype'', JString ''fp32''), (''tf32'', JBool False), (''cuda'', JBool True)],
       hd_telemetry = return_io JNull, hd_now = return_io 0 \<rparr>"

definition sample_active :: active_context where
  "sample_active = \<lparr> ac_epochId = 7, ac_parentStateRoot = sample_root, ac_corpusRoot = sample_hash, ac_bundleHash = sample_hash,
     ac_coreVersionHash = sample_hash, ac_workPolicyHash = sample_hash, ac_thresholdPpm = 1500 \<rparr>"

definition sample_health :: expected_health where
  "sample_health = \<lparr> eh_modelId = ''m'', eh_revision = ''r'', eh_promptTemplateHash = sample_hash \<rparr>"

definition pinned_seeds :: "seed_context \<times> string \<times> string" where
  "pinned_seeds = (drawn_context, sample_hash, sample_hash)"

lemma sample_hash_facts: "BYTES32_RE sample_hash" "toLowerCase sample_hash = sample_hash" "hexEq sample_hash sample_hash"
  "sample_hash = bytesToHex (replicate 32 0x11)" "ADDR_RE sample_addr" "BYTES32_RE sample_root"
proof -
  show "BYTES32_RE sample_hash" "toLowerCase sample_hash = sample_hash" "hexEq sample_hash sample_hash"
    "sample_hash = bytesToHex (replicate 32 0x11)" "ADDR_RE sample_addr" by code_simp+
  show "BYTES32_RE sample_root" using hash_ok [OF sample_root_facts(2)] by (simp add: sample_root_def)
qed

lemma packed_facts: "pack zero_state = Inr packed_zero" "unpack packed_zero = Inr zero_state" "length packed_zero = PACKED_SIZE"
proof -
  obtain bs where bs: "pack zero_state = Inr bs" "unpack bs = Inr zero_state"
    using state_codec.round_trip [OF wf_zero_state] by blast
  then have eq: "packed_zero = bs" by (simp add: packed_zero_def)
  show "pack zero_state = Inr packed_zero" "unpack packed_zero = Inr zero_state" using bs by (simp_all add: eq)
  then show "length packed_zero = PACKED_SIZE" by (auto simp: unpack_def split: if_splits)
qed

lemma sample_job_get [simp]:
  "jget sample_job ''jobId'' = JString ''job''" "jget sample_job ''parentStateRoot'' = JString sample_root"
  "jget sample_job ''packedParentStateHex'' = JString (bytesToHex packed_zero)" "jget sample_job ''thresholdPpm'' = JNumber (Finite 1500)"
  "jget sample_job ''compactPatchBytesHex'' = JString (bytesToHex patch_bytes)" "jget sample_job ''miner'' = JString sample_addr"
  "jget sample_job ''epochId'' = JNumber (Finite 7)" "jget sample_job ''corpusRoot'' = JString sample_hash"
  "jget sample_job ''bundleHash'' = JString sample_hash" "jget sample_job ''coreVersionHash'' = JString sample_hash"
  "jget sample_job ''patchHash'' = JString sample_hash" "jget sample_job ''policyHash'' = JString sample_hash" "is_object sample_job"
  "jget (jget sample_job ''publicEvalContext'') ''gateSeed'' = JString sample_hash"
  "jget (jget sample_job ''publicEvalContext'') ''confirmSeed'' = JString sample_hash"
  "jget (jget sample_job ''publicEvalContext'') ''receivedAtBlock'' = JNumber (Finite 100)"
  "jget (jget sample_job ''publicEvalContext'') ''targetBlock'' = JNumber (Finite 130)"
  "jget (jget sample_job ''publicEvalContext'') ''blockhash'' = JString sample_hash" "truthy (jget sample_job ''publicEvalContext'')"
  by (simp_all add: sample_job_def jget_def or_else_def)

lemma sample_job_shape: "validateJobShape sample_job = None"
proof -
  have "is_object (jget sample_job ''expectedScorerPins'')" by (simp add: sample_job_def jget_def or_else_def)
  moreover have "length (bytesToHex packed_zero) = 2 + 2 * PACKED_SIZE" using hex_round_trip packed_facts(3) by metis
  ultimately show ?thesis
    unfolding validateJobShape_def first_failure_None using sample_hash_facts bytesToHex_text
    by (simp add: job_checks_def bytes32_checks_def safe_integer_def)
qed

lemma sample_job_pinned: "checkScorerJobPins sample_job (hd_loadedPins sample_scorer) = None"
  unfolding checkScorerJobPins_def first_failure_None using sample_hash_facts
  by (simp add: pin_checks_def Let_def sample_scorer_def) (simp add: sample_job_def jget_def or_else_def)

lemma sample_job_parent:
  "verifyJobParentState (string_value (jget sample_job ''parentStateRoot'')) (string_value (jget sample_job ''packedParentStateHex'')) =
    Inr (Inr zero_state)"
  using packed_facts(2) sample_root_facts by (simp add: verifyJobParentState_def hexToBytes_bytesToHex sample_root_def)

lemma sample_job_seeds: "resolveJobSeedContext sample_job = Inr pinned_seeds"
proof -
  have "first_failure (seed_context_checks (jget sample_job ''publicEvalContext'')) = None"
    unfolding first_failure_None using sample_hash_facts by (simp add: seed_context_checks_def safe_integer_def)
  then show ?thesis
    using sample_hash_facts by (simp add: resolveJobSeedContext_def Let_def pinned_seeds_def drawn_context_def num_of_def)
qed

section \<open>The run\<close>

definition sample_job_input :: score_input where
  "sample_job_input = job_input sample_job zero_state pinned_seeds"

lemma sample_job_input_eq:
  "sample_job_input = sample_input\<lparr>in_screenerThresholdPpm := Some (js_num.Num 1500), in_seedContext := Some drawn_context,
     in_injectedSeeds := Some (sample_hash, sample_hash)\<rparr>"
  by (simp add: sample_job_input_def job_input_def pinned_seeds_def sample_input_def num_of_def)

lemma sample_job_same:
  "dual_request sample_evaluator sample_job_input = dual_request sample_evaluator sample_input"
  "input_key sample_evaluator sample_job_input = input_key sample_evaluator sample_input"
  "conclude_acceptance ns sample_evaluator sample_job_input = conclude_acceptance ns sample_evaluator sample_input"
  by (simp_all add: fun_eq_iff sample_job_input_eq dual_request_def input_key_def conclude_acceptance_def artifact_fields_def)

lemma sample_job_scored:
  obtains a dp s where "scorePatch sample_numbers sample_evaluator sample_job_input (empty_store, ()) =
      Some (Inr (State_advance (accepted_result (js_num.Num 5000) a dp) (js_num.Num 0) (js_num.Num 5000)
        (JString (bytesToHex (advance_bytes 5000))), Some a), s, ())"
    "dp_gate dp = \<lparr> pp_seedCommit = pp_seedCommit (dp_gate dp), pp_scorePpm = js_num.Num 5000 \<rparr>"
    "dp_confirm dp = \<lparr> pp_seedCommit = pp_seedCommit (dp_confirm dp), pp_scorePpm = js_num.Num 5000 \<rparr>"
proof -
  let ?deps = "dual_deps sample_evaluator sample_job_input zero_state (js_num.Num 1500) sample_key None 0"
  let ?request = "dual_request sample_evaluator sample_input patch_bytes"
  have ctx: "pinned_context sample_job_input = Some drawn_context"
    using sample_hash_facts(2) by (simp add: pinned_context_def sample_job_input_eq drawn_context_def)
  have fields: "pd_dedupCache ?deps = []" "pd_thresholdPpm ?deps = js_num.Num 1500" "pd_minerAdmissions ?deps = [(sample_addr, 0)]"
    "pd_perMinerCap ?deps = 10" "pd_scorer ?deps = pack_scorer (ev_deps sample_evaluator) zero_state (js_num.Num 1500)"
    by (simp_all add: dual_deps_def Let_def ctx, simp_all add: sample_job_input_eq)
  have pinned: "pd_seedContext ?deps = Some drawn_context" "in_injectedSeeds sample_job_input = Some (sample_hash, sample_hash)"
    "pd_onSeedDerived ?deps = Some (\<lambda>ctx. call (modify (mem_recordSeedDrawnAndAdmission sample_key ctx sample_addr)))"
    by (simp_all add: dual_deps_def Let_def ctx createInMemoryDedupStore_def, simp_all add: sample_job_input_eq)
  have draw: "draw_seed_context ?deps ([], empty_store, ()) = Some (Inr drawn_context, [], empty_store, ())"
    "record_draw ?deps drawn_context ([], empty_store, ()) = Some (Inr (), [], sample_drawn, ())"
    by (simp_all add: draw_seed_context_def record_draw_def pinned call_def modify_def return_io_def sample_recorded)
  have seeds: "derive_seeds ?request ?deps (patch_hash_of ?request) drawn_context =
      Inr (bytesToHex (replicate 32 0x11), bytesToHex (replicate 32 0x11))"
    unfolding sample_hash_facts(4) [symmetric] using sample_hash_facts(1,2) by (simp add: derive_seeds_def pinned)
  obtain dual perSeed where run: "runPerPatchEvaluation ?request ?deps ([], empty_store, ()) = Some (Inr dual, perSeed, sample_drawn, ())"
    and dual: "pr_accepted dual" "pr_rejectionReason dual = None" "pr_gateScorePpm dual = js_num.Num 5000"
      "pr_confirmScorePpm dual = js_num.Num 5000" "map_of perSeed (toLowerCase (pr_gateSeed dual)) = Some sample_score"
      "\<exists>bs. pr_gateSeed dual = bytesToHex bs" "\<exists>bs. pr_confirmSeed dual = bytesToHex bs" "pr_receivedAtBlock dual = js_num.Num 100"
      "pr_targetBlock dual = js_num.Num 130" "pr_blockhash dual = sample_hash"
    by (rule sample_scored [OF fields draw seeds])
  obtain a dp s where concl: "conclude_acceptance sample_numbers sample_evaluator sample_input patch_bytes sample_advance (js_num.Num 1500) sample_key dual perSeed
      (sample_drawn, ()) = Some (Inr (State_advance (accepted_result (js_num.Num 5000) a dp) (js_num.Num 0) (js_num.Num 5000)
        (JString (bytesToHex (advance_bytes 5000))), Some a), s, ())"
    and packs: "dp_gate dp = \<lparr> pp_seedCommit = pp_seedCommit (dp_gate dp), pp_scorePpm = js_num.Num 5000 \<rparr>"
      "dp_confirm dp = \<lparr> pp_seedCommit = pp_seedCommit (dp_confirm dp), pp_scorePpm = js_num.Num 5000 \<rparr>"
    by (rule sample_concludes [OF dual])
  have th: "effective_threshold (ev_deps sample_evaluator) sample_job_input = Inr (js_num.Num 1500)"
    by (simp add: effective_threshold_def or_else_def Let_def safe_nat_def is_safe_integer_def sample_job_input_eq)
  have key: "input_key sample_evaluator sample_input patch_bytes = sample_key" by (simp add: sample_key_def)
  have input: "in_patchBytesHex sample_job_input = bytesToHex patch_bytes" "in_parentState sample_job_input = Some zero_state"
    "toLowerCase (in_miner sample_job_input) = sample_addr"
    by (simp_all add: sample_job_input_eq)
  have get: "st_get createInMemoryDedupStore sample_key (empty_store, ()) = Some (Inr None, empty_store, ())"
    "st_minerAdmissions createInMemoryDedupStore 7 sample_addr (empty_store, ()) = Some (Inr 0, empty_store, ())"
    by (auto simp: createInMemoryDedupStore_def with_state_def mem_get_def mem_minerAdmissions_def empty_store_def return_io_def)
  have "scorePatch sample_numbers sample_evaluator sample_job_input (empty_store, ()) =
      Some (Inr (State_advance (accepted_result (js_num.Num 5000) a dp) (js_num.Num 0) (js_num.Num 5000)
        (JString (bytesToHex (advance_bytes 5000))), Some a), s, ())"
    using run get by (simp add: scorePatch_def sample_wire th input key sample_job_same evaluate_fresh_def Let_def ctx dual
      draw_and_score_def bind_io_def with_local_def concl)
  then show thesis using packs by (rule that)
qed

definition sample_trace_shot :: trace_snapshot where
  "sample_trace_shot = \<lparr> ts_totalScoredPairCount = js_num.Num 2, ts_pairTraceHash = sample_hash, ts_scoreArrayHash = sample_hash \<rparr>"

lemma sample_answered:
  obtains result s where "handleScoreJob sample_job sample_scorer (empty_store, ()) = Some (Inr (Job_done result), s, ())"
    "truthy (jget (json_wire result) ''accepted'')"
    "safe_int (jget (json_wire result) ''gateScorePpm'')" "safe_int (jget (json_wire result) ''confirmScorePpm'')"
    "jget (json_wire result) ''scoreBeforePpm'' \<noteq> JNull"
proof -
  obtain a dp s where run: "scorePatch sample_numbers sample_evaluator sample_job_input (empty_store, ()) =
      Some (Inr (State_advance (accepted_result (js_num.Num 5000) a dp) (js_num.Num 0) (js_num.Num 5000)
        (JString (bytesToHex (advance_bytes 5000))), Some a), s, ())"
    and packs: "dp_gate dp = \<lparr> pp_seedCommit = pp_seedCommit (dp_gate dp), pp_scorePpm = js_num.Num 5000 \<rparr>"
      "dp_confirm dp = \<lparr> pp_seedCommit = pp_seedCommit (dp_confirm dp), pp_scorePpm = js_num.Num 5000 \<rparr>"
    by (rule sample_job_scored)
  let ?q = "accepted_result (js_num.Num 5000) a dp"
  let ?res = "State_advance ?q (js_num.Num 0) (js_num.Num 5000) (JString (bytesToHex (advance_bytes 5000)))"
  let ?result = "JObject (base_fields sample_job sample_trace_shot 0 JNull (hd_scorerHealth sample_scorer) @ result_fields ?res (Some a))"
  let ?g = "\<lparr> pk_domain = ''gate'', pk_seedCommit = pp_seedCommit (dp_gate dp), pk_accepted = True, pk_scorePpm = js_num.Num 5000 \<rparr>"
  let ?c = "\<lparr> pk_domain = ''confirm'', pk_seedCommit = pp_seedCommit (dp_confirm dp), pk_accepted = True, pk_scorePpm = js_num.Num 5000 \<rparr>"
  have deps: "hd_scorePatch sample_scorer = scorePatch sample_numbers sample_evaluator" "hd_resetTrace sample_scorer = return_io ()"
    "hd_now sample_scorer = return_io 0" "hd_traceSnapshot sample_scorer = return_io sample_trace_shot" "hd_telemetry sample_scorer = return_io JNull"
    by (simp_all add: sample_scorer_def sample_trace_shot_def)
  have answered: "handleScoreJob sample_job sample_scorer (empty_store, ()) = Some (Inr (Job_done ?result), s, ())"
    using run by (simp add: handleScoreJob_def sample_job_shape sample_job_pinned sample_job_parent [simplified] sample_job_seeds
      run_job_def deps sample_job_input_def [symmetric] try_io_step)
  have packs': "ep_gate (proof_of dp) = Some ?g" "ep_confirm (proof_of dp) = Some ?c"
    by (simp_all add: proof_of_def) (subst packs(1), simp, subst packs(2), simp)
  have q: "accepted_part ?res = Some ?q" "ea_evaluationProof ?q = Some (proof_of dp)" by (simp_all add: accepted_result_def)
  note read = answer_accepted [OF q packs', where job = sample_job and trace = sample_trace_shot and wall = 0
      and tel = JNull and health = "hd_scorerHealth sample_scorer" and a = a]
  show thesis
    by (rule that [OF answered])
      (simp_all add: answer_base read(2,3) read(9) [OF refl] accepts_def num_json_def safe_integer_def)
qed

section \<open>Witnesses\<close>

lemma sample_remote_premises:
  "lp_corpusRoot (hd_loadedPins sample_scorer) = ec_corpusRoot (in_memory_deps sample_host)"
  "lp_coreVersionHash (hd_loadedPins sample_scorer) = ec_bundleHash (in_memory_deps sample_host)"
  "hd_scorePatch sample_scorer = scorePatch sample_numbers sample_evaluator"
  "list_all fst (context_checks sample_job sample_active)"
  "list_all fst (health_checks (json_wire (hd_scorerHealth sample_scorer)) sample_health)"
  "string_value (jget sample_job ''jobId'') \<in> set [''job'']"
  "jget sample_job ''thresholdPpm'' = JNumber (Finite (ac_thresholdPpm sample_active))"
proof -
  have root: "hexEq sample_root sample_root" by (simp add: hexEq_def)
  show "list_all fst (context_checks sample_job sample_active)"
    using sample_hash_facts(3) root by (simp add: context_checks_def sample_active_def)
  show "list_all fst (health_checks (json_wire (hd_scorerHealth sample_scorer)) sample_health)"
    using sample_hash_facts(3) by (simp add: health_checks_def sample_scorer_def sample_health_def json_wire.simps(1) jget_def or_else_def)
qed (simp_all add: sample_scorer_def in_memory_deps_def sample_host_def sample_active_def)

theorem remote_scorer_faithful_witness:
  "\<exists>result s res a. handleScoreJob sample_job sample_scorer (empty_store, ()) = Some (Inr (Job_done result), s, ()) \<and>
    verifyScorerResult sample_numbers (json_wire result) sample_job [''job''] sample_active sample_health = Scorer_ok res (json_wire a) \<and>
    checkArtifactSeedEcho (json_wire a) drawn_context (Some (sample_hash, sample_hash)) = None"
proof -
  obtain result s where run: "handleScoreJob sample_job sample_scorer (empty_store, ()) = Some (Inr (Job_done result), s, ())"
    "truthy (jget (json_wire result) ''accepted'')"
    "safe_int (jget (json_wire result) ''gateScorePpm'')" "safe_int (jget (json_wire result) ''confirmScorePpm'')"
    "jget (json_wire result) ''scoreBeforePpm'' \<noteq> JNull"
    by (rule sample_answered)
  from remote_scorer_faithful [OF sample_constructed sample_remote_premises(3,1,2) run(1) refl run(2) sample_remote_premises(4-7) run(3,4)]
    run(1,5) sample_job_seeds
  show ?thesis unfolding pinned_seeds_def by fastforce
qed


end
