(* ===== verification/Scorer_Server.thy ===== *)
theory Scorer_Server
  imports Eval_Artifact
begin

text \<open>
  The server around the scorer of \<open>src/scorer-server-cli.ts\<close>: \<open>createScorerJobQueue\<close>, a bounded
  queue before a bounded number of running evaluations, and the check of the bearer token.  A job
  is a value; the promises of the callers and the HTTP server are outside.
\<close>

section \<open>The queue\<close>

record 'j job_queue =
  jq_maxQueueDepth :: js_num
  jq_concurrency :: js_num
  jq_queue :: "'j list"
  jq_active :: int

text \<open>\<open>Math.floor\<close> and \<open>Math.max\<close>\<close>

fun num_floor :: "js_num \<Rightarrow> js_num" where
  "num_floor (js_num.Num x) = js_num.Num (of_int \<lfloor>x\<rfloor>)"
| "num_floor NaN = NaN"

fun num_max :: "js_num \<Rightarrow> js_num \<Rightarrow> js_num" where
  "num_max (js_num.Num x) (js_num.Num y) = js_num.Num (max x y)"
| "num_max _ _ = NaN"

definition createScorerJobQueue :: "js_num option \<Rightarrow> js_num option \<Rightarrow> 'j job_queue" where
  "createScorerJobQueue maxQueueDepth concurrency =
     \<lparr> jq_maxQueueDepth = num_max (js_num.Num 0) (num_floor (or_else maxQueueDepth (js_num.Num 8))),
       jq_concurrency = num_max (js_num.Num 1) (num_floor (or_else concurrency (js_num.Num 1))), jq_queue = [], jq_active = 0 \<rparr>"

text \<open>\<open>drain\<close>: the jobs it starts, the jobs that stay and the new count.\<close>

fun drain_loop :: "js_num \<Rightarrow> 'j list \<Rightarrow> int \<Rightarrow> 'j list \<times> 'j list \<times> int" where
  "drain_loop concurrency [] active = ([], [], active)"
| "drain_loop concurrency (item # queue) active =
     (if num_gt concurrency (js_num.Num (of_int active))
      then let (started, rest, active') = drain_loop concurrency queue (active + 1) in (item # started, rest, active')
      else ([], item # queue, active))"

definition drain :: "'j job_queue \<Rightarrow> 'j job_queue \<times> 'j list" where
  "drain q =
     (let (started, rest, active) = drain_loop (jq_concurrency q) (jq_queue q) (jq_active q)
      in (q\<lparr>jq_queue := rest, jq_active := active\<rparr>, started))"

datatype 'j enqueued = Queue_full | Queued "'j list"

definition enqueue :: "'j \<Rightarrow> 'j job_queue \<Rightarrow> 'j job_queue \<times> 'j enqueued" where
  "enqueue job q =
     (if num_ge (js_num.Num (of_nat (length (jq_queue q)))) (jq_maxQueueDepth q) then (q, Queue_full)
      else let (q', started) = drain (q\<lparr>jq_queue := jq_queue q @ [job]\<rparr>) in (q', Queued started))"

text \<open>The \<open>finally\<close> of a job\<close>

definition job_finished :: "'j job_queue \<Rightarrow> 'j job_queue \<times> 'j list" where
  "job_finished q = drain (q\<lparr>jq_active := jq_active q - 1\<rparr>)"

section \<open>The queue and its jobs\<close>

text \<open>The jobs that run, and all that were accepted and started so far, in their order.\<close>

record 'j queue_system =
  qs_queue :: "'j job_queue"
  qs_running :: "'j list"
  qs_accepted :: "'j list"
  qs_started :: "'j list"

inductive queue_step :: "bool \<Rightarrow> 'j queue_system \<Rightarrow> 'j queue_system \<Rightarrow> bool" where
  accept: "enqueue j (qs_queue s) = (q, Queued started) \<Longrightarrow>
    queue_step False s \<lparr> qs_queue = q, qs_running = qs_running s @ started, qs_accepted = qs_accepted s @ [j],
      qs_started = qs_started s @ started \<rparr>"
| refuse: "enqueue j (qs_queue s) = (q, Queue_full) \<Longrightarrow> queue_step False s (s\<lparr>qs_queue := q\<rparr>)"
| finish: "j \<in> set (qs_running s) \<Longrightarrow> job_finished (qs_queue s) = (q, started) \<Longrightarrow>
    queue_step True s \<lparr> qs_queue = q, qs_running = remove1 j (qs_running s) @ started, qs_accepted = qs_accepted s,
      qs_started = qs_started s @ started \<rparr>"

text \<open>Runs, with the number of jobs that finish in them.\<close>

inductive queue_run :: "'j queue_system \<Rightarrow> nat \<Rightarrow> 'j queue_system \<Rightarrow> bool" where
  stop: "queue_run s 0 s"
| step: "queue_run s n t \<Longrightarrow> queue_step fin t u \<Longrightarrow> queue_run s (if fin then Suc n else n) u"

definition queue_start :: "js_num option \<Rightarrow> js_num option \<Rightarrow> 'j queue_system" where
  "queue_start maxQueueDepth concurrency =
     \<lparr> qs_queue = createScorerJobQueue maxQueueDepth concurrency, qs_running = [], qs_accepted = [], qs_started = [] \<rparr>"

text \<open>The state between two events, for integer bounds.\<close>

definition queue_ok :: "int \<Rightarrow> int \<Rightarrow> 'j queue_system \<Rightarrow> bool" where
  "queue_ok m c s \<longleftrightarrow>
     jq_maxQueueDepth (qs_queue s) = js_num.Num (of_int m) \<and> jq_concurrency (qs_queue s) = js_num.Num (of_int c) \<and>
     qs_accepted s = qs_started s @ jq_queue (qs_queue s) \<and> jq_active (qs_queue s) = int (length (qs_running s)) \<and>
     int (length (qs_running s)) \<le> c \<and> int (length (jq_queue (qs_queue s))) \<le> m \<and>
     (jq_queue (qs_queue s) \<noteq> [] \<longrightarrow> int (length (qs_running s)) = c)"

lemma drain_loop_facts:
  assumes "drain_loop (js_num.Num (of_int c)) xs a = (started, rest, b)" and "a \<le> c"
  shows "xs = started @ rest \<and> length xs = length started + length rest \<and> b = a + int (length started) \<and> b \<le> c \<and> (rest \<noteq> [] \<longrightarrow> b = c)"
  using assms
proof (induction xs arbitrary: a started)
  case (Cons x xs)
  show ?case
  proof (cases "a < c")
    case True
    obtain st where "drain_loop (js_num.Num (of_int c)) xs (a + 1) = (st, rest, b)" "started = x # st"
      using Cons.prems True by (auto split: prod.splits)
    with Cons.IH [of "a + 1" st] True show ?thesis by auto
  qed (use Cons.prems in simp)
qed simp

lemma queue_step_ok:
  assumes "queue_step fin s t" and "queue_ok m c s"
  shows "queue_ok m c t \<and> length (qs_accepted s) \<le> length (qs_accepted t) \<and>
    min (length (qs_accepted s)) (length (qs_started s) + (if fin then 1 else 0)) \<le> length (qs_started t)"
  using assms
proof (cases rule: queue_step.cases)
  case (accept j q started)
  note ok = assms(2) [unfolded queue_ok_def]
  obtain rest b where loop: "drain_loop (jq_concurrency (qs_queue s)) (jq_queue (qs_queue s) @ [j]) (jq_active (qs_queue s)) = (started, rest, b)"
    and q: "q = (qs_queue s)\<lparr>jq_queue := rest, jq_active := b\<rparr>" and room: "int (length (jq_queue (qs_queue s))) < m"
    using accept(3) ok by (auto simp: enqueue_def drain_def not_le split: prod.splits if_splits)
  from loop have facts: "jq_queue (qs_queue s) @ [j] = started @ rest \<and>
      length (jq_queue (qs_queue s) @ [j]) = length started + length rest \<and> b = jq_active (qs_queue s) + int (length started) \<and> b \<le> c \<and>
      (rest \<noteq> [] \<longrightarrow> b = c)"
    by (intro drain_loop_facts) (use ok in simp_all)
  then have "int (length rest) \<le> m" using room by simp
  with facts ok accept(1,2) show ?thesis by (auto simp: queue_ok_def q)
next
  case (finish j q started)
  note ok = assms(2) [unfolded queue_ok_def]
  obtain rest b where loop: "drain_loop (jq_concurrency (qs_queue s)) (jq_queue (qs_queue s)) (jq_active (qs_queue s) - 1) = (started, rest, b)"
    and q: "q = (qs_queue s)\<lparr>jq_queue := rest, jq_active := b\<rparr>"
    using finish(4) by (auto simp: job_finished_def drain_def split: prod.splits)
  from loop have facts: "jq_queue (qs_queue s) = started @ rest \<and>
      length (jq_queue (qs_queue s)) = length started + length rest \<and> b = jq_active (qs_queue s) - 1 + int (length started) \<and> b \<le> c \<and>
      (rest \<noteq> [] \<longrightarrow> b = c)"
    by (intro drain_loop_facts) (use ok in simp_all)
  have one: "int (length (remove1 j (qs_running s))) = int (length (qs_running s)) - 1"
    using finish(3) length_pos_if_in_set [OF finish(3)] by (simp add: length_remove1 of_nat_diff del: length_greater_0_conv)
  have "length started = 0 \<longrightarrow> rest = []" using facts ok by auto
  then have "min (length (qs_accepted s)) (length (qs_started s) + 1) \<le> length (qs_started t)"
    using facts ok finish(1,2) by (cases started) auto
  with facts ok finish(1,2) one show ?thesis by (auto simp: queue_ok_def q)
qed (auto simp: enqueue_def split: if_splits prod.splits)

lemma queue_run_ok:
  assumes "queue_run s n t" and "queue_ok m c s"
  shows "queue_ok m c t \<and> length (qs_accepted s) \<le> length (qs_accepted t) \<and>
    min (length (qs_accepted s)) (length (qs_started s) + n) \<le> length (qs_started t)"
  using assms
proof induction
  case (stop s)
  then show ?case by simp
next
  case (step s n t fin u)
  from step.IH [OF step.prems] queue_step_ok [OF step.hyps(2)] show ?case by (cases fin) fastforce+
qed

text \<open>Bounds that are no NaN become integers.\<close>

definition depth_of :: "rat option \<Rightarrow> int" where
  "depth_of d = max 0 \<lfloor>or_else d 8\<rfloor>"

definition width_of :: "rat option \<Rightarrow> int" where
  "width_of c = max 1 \<lfloor>or_else c 1\<rfloor>"

lemma queue_start_ok:
  "queue_ok (depth_of d) (width_of c) (queue_start (map_option js_num.Num d) (map_option js_num.Num c))"
  by (cases d; cases c)
    (simp_all add: queue_ok_def queue_start_def createScorerJobQueue_def depth_of_def width_of_def or_else_def of_int_max)

text \<open>
  C27: the scorer never runs more jobs than its bound and never holds more than the queue's depth,
  starts every accepted job exactly once and in the order of arrival, and keeps no job waiting
  while fewer than the bound run; in every run, whatever jobs come, fail or finish in whatever order.
\<close>

theorem scorer_queue_in_order:
  assumes "queue_run (queue_start (map_option js_num.Num d) (map_option js_num.Num c)) n s"
  shows "qs_accepted s = qs_started s @ jq_queue (qs_queue s) \<and> jq_active (qs_queue s) = int (length (qs_running s)) \<and>
    int (length (qs_running s)) \<le> width_of c \<and> int (length (jq_queue (qs_queue s))) \<le> depth_of d \<and>
    (jq_queue (qs_queue s) \<noteq> [] \<longrightarrow> int (length (qs_running s)) = width_of c)"
  using queue_run_ok [OF assms queue_start_ok] by (simp add: queue_ok_def)

text \<open>
  C28: every accepted job is started.  The job at position \<open>i\<close> of the arrivals has started as soon as
  as many jobs have finished as were before it in the queue, and one more; and as long as it waits,
  some job is running that can finish.
\<close>

theorem queued_job_starts:
  assumes "queue_run (queue_start (map_option js_num.Num d) (map_option js_num.Num c)) n s" and "i < length (qs_accepted s)"
    and "queue_run s k t"
  shows "(i < length (qs_started s) + k \<longrightarrow> i < length (qs_started t) \<and> qs_started t ! i = qs_accepted s ! i) \<and>
    (length (qs_started t) \<le> i \<longrightarrow> qs_running t \<noteq> [])"
proof -
  have s: "queue_ok (depth_of d) (width_of c) s" using queue_run_ok [OF assms(1) queue_start_ok] by blast
  note t = queue_run_ok [OF assms(3) s]
  have pre: "\<exists>xs. qs_accepted t = qs_accepted s @ xs"
    using assms(3)
  proof induction
    case (step s n t fin u)
    from step.hyps(2) step.IH show ?case by cases auto
  qed simp
  have "1 \<le> width_of c" by (simp add: width_of_def)
  then have waits: "qs_running t \<noteq> []" if "length (qs_started t) \<le> i"
    using t that assms(2) by (auto simp: queue_ok_def)
  have "qs_started t ! i = qs_accepted s ! i" if "i < length (qs_started t)"
  proof -
    have "qs_accepted t ! i = qs_started t ! i" using t that by (simp add: queue_ok_def nth_append)
    moreover have "qs_accepted t ! i = qs_accepted s ! i" using pre assms(2) by (auto simp: nth_append)
    ultimately show ?thesis by simp
  qed
  moreover have "i < length (qs_started t)" if "i < length (qs_started s) + k"
    using t that assms(2) by (simp add: min_def split: if_splits)
  ultimately show ?thesis using waits by blast
qed

text \<open>
  Fact: a queue of depth 0 refuses every job, also when nothing is running, since the depth is
  tested before the job could be handed on.
\<close>

theorem depth_zero_refuses:
  "enqueue j (createScorerJobQueue (Some (js_num.Num 0)) c) = (createScorerJobQueue (Some (js_num.Num 0)) c, Queue_full)"
  by (simp add: enqueue_def createScorerJobQueue_def or_else_def)

text \<open>Two jobs on the default queue: the second waits until the first has finished.\<close>

lemma sample_queue_run:
  obtains s where "queue_run (queue_start (map_option js_num.Num None) (map_option js_num.Num None)) 0 s"
    "qs_accepted s = [True, False]" "qs_started s = [True]" "jq_queue (qs_queue s) = [False]"
proof -
  let ?s = "\<lambda>q r a st. \<lparr> qs_queue = createScorerJobQueue None None\<lparr>jq_queue := q, jq_active := 1\<rparr>, qs_running = r, qs_accepted = a, qs_started = st \<rparr>"
  have start: "queue_step False (queue_start None None) (?s [] [True] [True] [True])"
    using queue_step.accept [of True "queue_start None None" "createScorerJobQueue None None\<lparr>jq_active := 1\<rparr>" "[True]"]
    by (simp add: enqueue_def drain_def queue_start_def createScorerJobQueue_def or_else_def)
  have next_job: "queue_step False (?s [] [True] [True] [True]) (?s [False] [True] [True, False] [True])"
    using queue_step.accept [of False "?s [] [True] [True] [True]" "createScorerJobQueue None None\<lparr>jq_queue := [False], jq_active := 1\<rparr>" "[]"]
    by (simp add: enqueue_def drain_def createScorerJobQueue_def or_else_def)
  have "queue_run (queue_start (map_option js_num.Num None) (map_option js_num.Num None)) 0 (?s [False] [True] [True, False] [True])"
    using queue_run.step [OF queue_run.step [OF queue_run.stop start] next_job] by simp
  then show thesis by (rule that) simp_all
qed

theorem scorer_queue_in_order_witness:
  "\<exists>s. queue_run (queue_start (map_option js_num.Num None) (map_option js_num.Num None)) 0 s \<and> qs_started s = [True] \<and>
    qs_accepted s = qs_started s @ jq_queue (qs_queue s) \<and> jq_queue (qs_queue s) = [False] \<and> int (length (qs_running s)) = width_of None"
  by (rule sample_queue_run) (use scorer_queue_in_order in fastforce)

theorem queued_job_starts_witness:
  "\<exists>s. queue_run (queue_start (map_option js_num.Num None) (map_option js_num.Num None)) 0 s \<and> length (qs_started s) \<le> 1 \<and>
    qs_accepted s ! 1 = False \<and> qs_running s \<noteq> []"
  by (rule sample_queue_run) (use queued_job_starts [OF _ _ queue_run.stop, of None None 0 _ 1] in fastforce)

section \<open>Access\<close>

definition LOOPBACK_HOSTS :: "string list" where
  "LOOPBACK_HOSTS = [''127.0.0.1'', ''localhost'', ''::1'']"

text \<open>\<open>env[...]?.trim() || undefined\<close>\<close>

definition trimmed_env :: "string option \<Rightarrow> string option" where
  "trimmed_env v = (case v of None \<Rightarrow> None | Some s \<Rightarrow> if trim s = [] then None else Some (trim s))"

definition resolveScorerAuth :: "(string \<Rightarrow> string option) \<Rightarrow> js_error + string \<times> string option" where
  "resolveScorerAuth env =
     (let host = or_else (env ''CORETEX_SCORER_HOST'') ''127.0.0.1''; token = trimmed_env (env ''CORETEX_SCORER_AUTH_TOKEN'')
      in if host \<notin> set LOOPBACK_HOSTS \<and> token = None
         then Inl (Error (''coretex-scorer-server: CORETEX_SCORER_HOST='' @ host @ '' is not loopback''))
         else Inr (host, token))"

text \<open>\<open>/^Bearer\s+(.+)$/\<close> on a trimmed string: the group begins after all white space and has no end of
  line.\<close>

definition bearer_group :: "string \<Rightarrow> string option" where
  "bearer_group s =
     (let rest = drop 6 s; token = dropWhile js_white rest in
      if take 6 s = ''Bearer'' \<and> rest \<noteq> [] \<and> js_white (hd rest) \<and> token \<noteq> [] \<and> list_all (\<lambda>c. (of_char c :: nat) \<notin> {10, 13}) token
      then Some token else None)"

definition scorerRequestAuthorized :: "string option \<Rightarrow> string option \<Rightarrow> bool" where
  "scorerRequestAuthorized authorizationHeader token =
     (if token = None \<or> token = Some [] then True
      else case authorizationHeader of
        None \<Rightarrow> False
      | Some header \<Rightarrow>
          (case bearer_group (trim header) of
             None \<Rightarrow> False
           | Some m \<Rightarrow> keccak256 (utf8 m) = keccak256 (utf8 (the token))))"

text \<open>
  Fact: a scorer that listens beyond the host answers nobody without the token.  With the policy that
  the environment gives, a request is served only on a loopback address without a token, or when
  it carries exactly the token, unless the hash function collides on the two.
\<close>

theorem scorer_access_guarded:
  assumes "resolveScorerAuth env = Inr (host, token)" and "scorerRequestAuthorized header token"
  shows "host \<in> set LOOPBACK_HOSTS \<and> token = None \<or>
    (\<exists>t h g. token = Some t \<and> t \<noteq> [] \<and> header = Some h \<and> bearer_group (trim h) = Some g \<and> (g = t \<or> collide [utf8 g] [utf8 t]))"
proof (cases token)
  case None
  then show ?thesis using assms(1) by (auto simp: resolveScorerAuth_def Let_def split: if_splits)
next
  case (Some t)
  then have t: "t \<noteq> []" using assms(1) by (auto simp: resolveScorerAuth_def trimmed_env_def Let_def split: if_splits option.splits)
  then obtain h g where g: "header = Some h" "bearer_group (trim h) = Some g" "keccak256 (utf8 g) = keccak256 (utf8 t)"
    using assms(2) Some by (auto simp: scorerRequestAuthorized_def split: option.splits)
  then have "g = t \<or> collide [utf8 g] [utf8 t]" using utf8_inject by (auto simp: collide_def)
  with Some t g show ?thesis by blast
qed

definition sample_env :: "string \<Rightarrow> string option" where
  "sample_env = [''CORETEX_SCORER_HOST'' \<mapsto> ''0.0.0.0'', ''CORETEX_SCORER_AUTH_TOKEN'' \<mapsto> ''key '']"

theorem scorer_access_guarded_witness:
  "resolveScorerAuth sample_env = Inr (''0.0.0.0'', Some ''key'') \<and> scorerRequestAuthorized (Some '' Bearer  key'') (Some ''key'') \<and>
    (\<exists>g. bearer_group (trim '' Bearer  key'') = Some g \<and> (g = ''key'' \<or> collide [utf8 g] [utf8 ''key'']))"
proof -
  have env: "resolveScorerAuth sample_env = Inr (''0.0.0.0'', Some ''key'')" by code_simp
  have group: "bearer_group (trim '' Bearer  key'') = Some ''key''" by code_simp
  then have ok: "scorerRequestAuthorized (Some '' Bearer  key'') (Some ''key'')" by (simp add: scorerRequestAuthorized_def)
  from scorer_access_guarded [OF env ok] have "\<exists>g. bearer_group (trim '' Bearer  key'') = Some g \<and> (g = ''key'' \<or> collide [utf8 g] [utf8 ''key''])"
    by auto
  with env ok show ?thesis by blast
qed

end
