(* ===== verification/Spec2Isabelle.thy ===== *)
theory Spec2Isabelle
  imports Keccak_Spec Merkle Codec Hex_Codec Decoder Encoder Substrate Validate Patch Patch_Wire Patch_Apply
    Slot_Policy Seed_Derivation Reducer Work_Units Live_Epoch Eligibility Funding
    Difficulty Epoch_Frontier Admission Canonical_Json Corpus_Root Base_Rpc Per_Patch
    Coordinator_Sample Dedup_Store Eval_Artifact Evaluator Evaluator_Store Evaluator_Results
    Evaluator_Contract Evaluator_Sample Remote_Scorer Remote_Results Remote_Faithful Remote_Agree
    Remote_Sample Scorer_Server
begin

text \<open>
  A verification library for the protocol core of the CoreTex client.

  CoreTex keeps a public state of 1024 words of 256 bits.  A miner sends a patch, which a
  coordinator screens, has scored on two hidden packs of queries and answers with a signed
  receipt; on the chain, accepted patches change the state.  An epoch ends with credits and
  rewards.  Every party (coordinator, scorer, watcher, a client that replays an epoch)
  recomputes roots, hashes, seeds, thresholds and work units, so these have to be functions
  without surprises.  All files below are under \<open>src/src\<close>.

  Foundations.
  \<^item> \<open>Prelude\<close>: exceptions as \<open>Inl\<close> of a sum, arrays that lengthen, insertion-ordered maps and
    sets, stable sorting, packed bit fields, and the interfaces of codecs: \<open>wire_codec\<close> (what is
    encoded is read back) and \<open>canonical_codec\<close> (and has only one encoding), which the state,
    patch, substrate and hex codecs are instances of.
  \<^item> \<open>Doubles\<close>: a \<open>number\<close> that is no integer is a rational, and arithmetic rounds to the nearest
    double, ties to even.  Integers below \<open>2 ^ 53\<close> are exact.
  \<^item> \<open>Js_Io\<close>, \<open>Runs\<close>: \<open>async\<close> code as functions of the world to a result or a thrown error;
    \<open>None\<close> is a run that waits for ever.  \<open>Runs\<close> adds the state of an object, with the rules that
    derive an invariant (\<open>keeps\<close>), a postcondition (\<open>ensures\<close>) and termination (\<open>returns\<close>) of a
    method from its parts.  A method runs to its end without interleaving; where the code awaits
    between two phases, the phases are separate steps.

  The state and its hashes.
  \<^item> \<open>Codec\<close>: \<open>state/types.ts\<close>, \<open>state/codec.ts\<close>.  \<open>Keccak\<close>, \<open>Keccak_Spec\<close>:
    \<open>state/keccak256.ts\<close>, on 32-bit halves as in the code, and its equality with the 64-bit
    permutation and sponge of FIPS 202.  \<open>Hex_Codec\<close>, \<open>Merkle\<close>: \<open>state/merkle.ts\<close>; the locale
    \<open>digest_fn\<close> holds what follows from the length of digests alone, that equal roots mean equal
    leaves or a collision.  Incremental updates equal rebuilds.
  \<^item> \<open>Validate\<close>: \<open>state/validate.ts\<close>.  \<open>Decoder\<close>, \<open>Encoder\<close>, \<open>Substrate\<close>, \<open>Slot_Policy\<close>:
    \<open>substrate/\<close>; every region is decoded and encoded, encoders and decoders are inverse, the
    hard gate and the tolerant reading agree.
  \<^item> \<open>Patch\<close>, \<open>Patch_Wire\<close>, \<open>Patch_Apply\<close>: \<open>state/patch.ts\<close>.  Bytes and patches correspond one to
    one; the outcome of an application on every branch.  The locale \<open>patch_machine\<close> (an
    application changes exactly its targets) carries the facts on sequences of patches.

  An epoch.
  \<^item> \<open>Reducer\<close>: \<open>reducer/accept-core.ts\<close>, \<open>reducer/reducer.ts\<close>; the batch lane.
    \<open>Live_Epoch\<close>: \<open>reducer/live-epoch.ts\<close>; the lane in arrival order, with its Merkle cache and
    the shares of work; its state refines a history of applied advances.
  \<^item> \<open>Work_Units\<close>: \<open>rewards/work-units.ts\<close>.  \<open>Difficulty\<close>: \<open>rewards/difficulty.ts\<close> and
    \<open>isMajorDelta\<close>.  \<open>Eligibility\<close>, \<open>Funding\<close>: \<open>reducer/eligibility.ts\<close>,
    \<open>reducer/multiplier-cap.ts\<close>, \<open>reducer/funding-tx.ts\<close>; no event is credited twice, and claim
    proofs verify exactly for funded leaves, up to collisions.
  \<^item> \<open>Epoch_Frontier\<close>: \<open>coordinator/epoch-frontier.ts\<close>; reserve, active and retired queries are a
    partition that every run keeps, and a restart continues where the export was made.
  \<^item> \<open>Admission\<close>: \<open>eval/live-eval-admission.ts\<close>, \<open>corpus/admission.ts\<close>.
    \<open>Canonical_Json\<close>: \<open>canonical/json.ts\<close>; equal texts stand for equal documents.
    \<open>Corpus_Root\<close>: the leaf hashes, the forest and its cache of \<open>eval/retrieval-corpus.ts\<close>; updates
    equal rebuilds.

  Evaluation and the coordinator.
  \<^item> \<open>Seed_Derivation\<close>: \<open>eval/seed-derivation.ts\<close>.  \<open>Base_Rpc\<close>: \<open>coordinator/base-blockhash.ts\<close>;
    waiting ends when the clock advances.  \<open>Per_Patch\<close>: \<open>coordinator/per-patch-evaluator.ts\<close> and
    \<open>replay/per-patch.ts\<close>; what an acceptance rests on, and that a watcher confirms honest receipts.
  \<^item> \<open>Coordinator\<close> (state, events, watcher, boot, expiry, baselines, status), \<open>Coordinator_Submit\<close>
    (body and proof checks), \<open>Coordinator_Flow\<close> (both phases of a submission and the queue):
    \<open>coordinator/coretex-coordinator-core.ts\<close>.  \<open>Coordinator_System\<close> is the transition system whose
    steps are the phases of submissions, ticks, freezes, baselines, lookups and status; between the
    two phases of a submission any other step may happen, which is where the code awaits the
    scorer.  \<open>Coordinator_Receipts\<close> holds what one operation does, \<open>Coordinator_Sample\<close> one run
    on concrete data.
  \<^item> \<open>Eval_Artifact\<close>: \<open>replay/eval-report-artifact.ts\<close>; the hash of a report commits to it, and what
    its check establishes.  \<open>Dedup_Store\<close>: the store of attempts of
    \<open>coordinator/production-evaluator.ts\<close>, with the contract \<open>eval_store\<close> that the store in memory
    meets.  \<open>Evaluator\<close>: the rest of that file up to the constructor from files, \<open>scorePatch\<close> above all.
    \<open>Evaluator_Store\<close> proves from the contract what sequences of evaluations do to the store: one
    pinned seed, one charge and at most one acceptance for a patch.  \<open>Evaluator_Results\<close>: a published
    report passes the check of a watcher.  \<open>Evaluator_Contract\<close>: an accepted result passes the
    checks of the coordinator.  \<open>Evaluator_Sample\<close>: two runs on concrete data.
  \<^item> \<open>Remote_Scorer\<close>: the job handler of \<open>scorer-server-cli.ts\<close> and the checks of
    \<open>coordinator/remote-scorer-verify.ts\<close>.  \<open>Remote_Results\<close>: what an accepted answer is bound to.
    \<open>Remote_Faithful\<close>, \<open>Remote_Agree\<close>: answers as JSON on the wire, and that an honest answer is
    read back as the result of \<open>scorePatch\<close>.  \<open>Remote_Sample\<close>: one job on concrete data.
    \<open>Scorer_Server\<close>: the queue of jobs as a transition system, in order and without starvation, and
    the check of the token.

  Bounds.  No definition uses fuel: a loop that may not end is \<open>partial_function (option)\<close>, and that
  it ends is proved (\<open>waitForBlock\<close>, the search for a canonical block) from the hypotheses of the
  statement.  Loops over the 1024 words are folded and opened by lemmas.

  Parameters, with their documented behaviour as hypotheses where a theorem needs it: the scorer
  and the models behind it, \<open>fetch\<close>, the clock, the chain client and the signer of a receipt, the
  file system, \<open>localeCompare\<close>, SHA-256 of the runtime, \<open>Math.pow\<close> and the decimal form of a
  fraction.  A hypothesis is shown to be possible by the witness of its theorem.

  Not modelled.  The retrieval benchmark, the embeddings and the rerankers
  (\<open>eval/retrieval-benchmark.ts\<close>, \<open>eval/reranker.ts\<close>, \<open>eval/bi-encoder.ts\<close>): floating-point
  numerics and external processes; the model takes the scorer as an argument.  The command-line
  tools and servers, workers and file loaders, the constructor of the evaluator from a bundle
  included: process, file and network access around the modelled functions.  Two evaluations that
  run at the same time: \<open>scorePatch\<close> runs to its end, so sequences are modelled and overlaps are not.  The parsers of documents read from disk.  Free texts of rejections appear
  as constructors or codes; a value read as an object is taken to have only own properties; time
  and numbers from outside are rationals or \<open>NaN\<close>.
\<close>

end
